(* ===== verification/Pool_Prelude.thy ===== *)
theory Pool_Prelude
  imports Main "HOL-Library.Char_ord" "HOL-Library.List_Lexorder" "HOL-Library.Product_Lexorder"
begin

text \<open>
  Shared vocabulary of the development: failing computations (a sum whose left side is the
  raised error), the relational tables of the pool's database as lists of rows in insertion
  order, Python's slices, and decimal text. The collections \<open>outcome\<close> (how a computation can
  have succeeded) and \<open>table\<close> (lookups after inserts and updates) carry most later proofs.
\<close>

named_theorems outcome
named_theorems table

section \<open>Failing computations\<close>

text \<open>A Python block that may raise: \<open>Inl\<close> is the exception, \<open>Inr\<close> the value.\<close>

definition bindE :: "'e + 'a \<Rightarrow> ('a \<Rightarrow> 'e + 'b) \<Rightarrow> 'e + 'b" where
  "bindE m k = (case m of Inl e \<Rightarrow> Inl e | Inr x \<Rightarrow> k x)"

lemma bindE_simps [simp]:
  "bindE (Inl e) k = Inl e"
  "bindE (Inr x) k = k x"
  by (simp_all add: bindE_def)

lemma bindE_Inr [outcome]: "bindE m k = Inr y \<longleftrightarrow> (\<exists>x. m = Inr x \<and> k x = Inr y)"
  by (cases m) auto

lemma bindE_Inl: "bindE m k = Inl e \<longleftrightarrow> m = Inl e \<or> (\<exists>x. m = Inr x \<and> k x = Inl e)"
  by (cases m) auto

lemma bindE_assoc: "bindE (bindE m k) h = bindE m (\<lambda>x. bindE (k x) h)"
  by (cases m) simp_all

lemma raise_if_Inr [outcome]: "(if b then Inl e else k) = Inr y \<longleftrightarrow> \<not> b \<and> k = Inr y"
  by simp

lemma raise_unless_Inr [outcome]: "(if b then k else Inl e) = Inr y \<longleftrightarrow> b \<and> k = Inr y"
  by simp

text \<open>
  A database transaction commits the state its body returns, or, when the body raises, leaves
  the state as it was (psycopg2's connection context manager rolls back).
\<close>

type_synonym ('s, 'e, 'a) txn = "'s \<Rightarrow> 'e + 'a \<times> 's"

definition commit :: "('s, 'e, 'a) txn \<Rightarrow> 's \<Rightarrow> ('e + 'a) \<times> 's" where
  "commit t s = (case t s of Inl e \<Rightarrow> (Inl e, s) | Inr (x, s') \<Rightarrow> (Inr x, s'))"

lemma commit_Inr: "commit t s = (Inr x, s') \<longleftrightarrow> t s = Inr (x, s')"
  by (auto simp: commit_def split: sum.splits)

lemma commit_Inl: "commit t s = (Inl e, s') \<longleftrightarrow> t s = Inl e \<and> s' = s"
  by (auto simp: commit_def split: sum.splits)

section \<open>Tables\<close>

text \<open>
  A table is the list of its rows, in insertion order. \<open>lookup\<close> is
  \<open>SELECT ... WHERE key = k\<close> followed by \<open>fetchone()\<close>; \<open>modify\<close> is
  \<open>UPDATE ... WHERE key = k\<close>; an \<open>INSERT\<close> appends.
\<close>

definition lookup :: "('r \<Rightarrow> 'k) \<Rightarrow> 'k \<Rightarrow> 'r list \<Rightarrow> 'r option" where
  "lookup key k rows = List.find (\<lambda>r. key r = k) rows"

definition modify :: "('r \<Rightarrow> 'k) \<Rightarrow> 'k \<Rightarrow> ('r \<Rightarrow> 'r) \<Rightarrow> 'r list \<Rightarrow> 'r list" where
  "modify key k f rows = map (\<lambda>r. if key r = k then f r else r) rows"

definition sum_where :: "('r \<Rightarrow> bool) \<Rightarrow> ('r \<Rightarrow> int) \<Rightarrow> 'r list \<Rightarrow> int" where
  "sum_where P f rows = sum_list (map f (filter P rows))"

lemma lookup_simps [simp]:
  "lookup key k [] = None"
  "lookup key k (r # rows) = (if key r = k then Some r else lookup key k rows)"
  by (simp_all add: lookup_def)

lemma lookup_append:
  "lookup key k (xs @ ys) = (case lookup key k xs of None \<Rightarrow> lookup key k ys | Some r \<Rightarrow> Some r)"
  by (induction xs) auto

lemma lookup_None_iff: "lookup key k rows = None \<longleftrightarrow> k \<notin> key ` set rows"
  by (induction rows) auto

lemma lookup_SomeD: "lookup key k rows = Some r \<Longrightarrow> r \<in> set rows \<and> key r = k"
  by (induction rows) (auto split: if_splits)

lemma lookup_Some_iff:
  "distinct (map key rows) \<Longrightarrow> lookup key k rows = Some r \<longleftrightarrow> r \<in> set rows \<and> key r = k"
  by (induction rows) (auto simp: lookup_None_iff image_iff)

lemma lookup_snoc_old [table]: "lookup key k xs = Some r \<Longrightarrow> lookup key k (xs @ ys) = Some r"
  by (simp add: lookup_append)

lemma lookup_snoc_new [table]: "lookup key k xs = None \<Longrightarrow> lookup key k (xs @ ys) = lookup key k ys"
  by (simp add: lookup_append)

lemma modify_simps [simp]:
  "modify key k f [] = []"
  "modify key k f (r # rows) = (if key r = k then f r else r) # modify key k f rows"
  by (simp_all add: modify_def)

lemma modify_append [table]: "modify key k f (xs @ ys) = modify key k f xs @ modify key k f ys"
  by (simp add: modify_def)

lemma modify_keys [simp]:
  "(\<And>r. key r = k \<Longrightarrow> key' (f r) = key' r) \<Longrightarrow> map key' (modify key k f rows) = map key' rows"
  by (induction rows) auto

lemma lookup_modify [table]:
  "(\<And>r. key r = k \<Longrightarrow> key (f r) = k) \<Longrightarrow>
   lookup key j (modify key k f rows) =
     (if j = k then map_option f (lookup key j rows) else lookup key j rows)"
  by (induction rows) auto

lemma modify_absent: "lookup key k rows = None \<Longrightarrow> modify key k f rows = rows"
  by (induction rows) (auto split: if_splits)

lemma set_modify: "set (modify key k f rows) \<subseteq> set rows \<union> f ` {r \<in> set rows. key r = k}"
  by (induction rows) auto

lemma sum_where_simps [simp]:
  "sum_where P f [] = 0"
  "sum_where P f (r # rows) = (if P r then f r else 0) + sum_where P f rows"
  by (simp_all add: sum_where_def)

lemma sum_where_append [table]: "sum_where P f (xs @ ys) = sum_where P f xs + sum_where P f ys"
  by (simp add: sum_where_def)

lemma sum_where_cong:
  "(\<And>r. r \<in> set rows \<Longrightarrow> P r = Q r) \<Longrightarrow> (\<And>r. r \<in> set rows \<Longrightarrow> P r \<Longrightarrow> f r = g r) \<Longrightarrow>
   sum_where P f rows = sum_where Q g rows"
  by (induction rows) auto

lemma sum_where_none: "(\<And>r. r \<in> set rows \<Longrightarrow> \<not> P r) \<Longrightarrow> sum_where P f rows = 0"
  by (induction rows) auto

lemma sum_where_nonneg: "(\<And>r. r \<in> set rows \<Longrightarrow> P r \<Longrightarrow> 0 \<le> f r) \<Longrightarrow> 0 \<le> sum_where P f rows"
  by (induction rows) (auto simp: add_nonneg_nonneg)

lemma sum_where_modify:
  assumes "distinct (map key rows)" and "lookup key k rows = Some r"
  shows "sum_where P f (modify key k g rows) =
    sum_where P f rows - (if P r then f r else 0) + (if P (g r) then f (g r) else 0)"
  using assms
proof (induction rows)
  case Nil
  then show ?case by simp
next
  case (Cons x rows)
  show ?case
  proof (cases "key x = k")
    case True
    then have "lookup key k rows = None"
      using Cons.prems(1) by (auto simp: lookup_None_iff)
    with True Cons.prems show ?thesis by (simp add: modify_absent)
  next
    case False
    with Cons show ?thesis by simp
  qed
qed

section \<open>Python slices and decimal text\<close>

text \<open>\<open>xs[:n]\<close>: a negative \<open>n\<close> counts from the end.\<close>

definition slice_to :: "int \<Rightarrow> 'a list \<Rightarrow> 'a list" where
  "slice_to n xs = (if 0 \<le> n then take (nat n) xs else take (length xs - nat (- n)) xs)"

fun nat_text :: "nat \<Rightarrow> string" where
  "nat_text n = (if n < 10 then [char_of (48 + n)] else nat_text (n div 10) @ [char_of (48 + n mod 10)])"

declare nat_text.simps [simp del]

definition int_text :: "int \<Rightarrow> string" where
  "int_text n = (if n < 0 then ''-'' @ nat_text (nat (- n)) else nat_text (nat n))"

definition text_value :: "string \<Rightarrow> nat" where
  "text_value s = foldl (\<lambda>v c. 10 * v + (of_char c - 48)) 0 s"

lemma text_value_nat_text [simp]: "text_value (nat_text n) = n"
proof (induction n rule: nat_text.induct)
  case (1 n)
  show ?case
  proof (cases "n < 10")
    case True
    then show ?thesis
      by (simp add: nat_text.simps [of n] text_value_def of_char_of)
  next
    case False
    with 1 have "text_value (nat_text (n div 10)) = n div 10" by simp
    with False show ?thesis
      by (simp add: nat_text.simps [of n] text_value_def of_char_of)
  qed
qed

lemma nat_text_inject [simp]: "nat_text m = nat_text n \<longleftrightarrow> m = n"
  by (metis text_value_nat_text)

lemma nat_text_digits: "c \<in> set (nat_text n) \<Longrightarrow> 48 \<le> (of_char c :: nat) \<and> (of_char c :: nat) \<le> 57"
proof (induction n rule: nat_text.induct)
  case (1 n)
  show ?case
  proof (cases "n < 10")
    case True
    with 1 show ?thesis by (simp add: nat_text.simps [of n] of_char_of)
  next
    case False
    with 1 show ?thesis by (auto simp: nat_text.simps [of n] of_char_of)
  qed
qed

lemma int_text_inject [simp]: "int_text m = int_text n \<longleftrightarrow> m = n"
proof -
  have "CHR ''-'' \<notin> set (nat_text k)" for k
    using nat_text_digits [of "CHR ''-''" k] by auto
  then have "''-'' @ xs \<noteq> nat_text k" for xs k
    by (metis append_Cons list.set_intros(1))
  then show ?thesis
    unfolding int_text_def by (metis append_Cons append_Nil list.inject nat_text_inject eq_nat_nat_iff
        neg_0_le_iff_le neg_equal_iff_equal linorder_not_le order_less_imp_le)
qed

end
