(* ===== verification/Json.thy ===== *)
theory Json
  imports Pool_Prelude "HOL-Library.Multiset"
begin

text \<open>
  JSON values as the code handles them (decoded payloads, evidence and journal details), and
  \<open>canonical\<close>, the serializer of \<open>ledger.canonical\<close>
  (\<open>json.dumps(value, sort_keys=True, separators=(",", ":"), allow_nan=False)\<close>), whose text
  every fingerprint is computed from. A float is kept as the text \<open>repr\<close> gives it; an object
  is its list of items in insertion order, with distinct keys as a Python dict has. Text is
  a list of code points below 256.
\<close>

datatype json =
    JNull
  | JBool bool
  | JInt int
  | JFloat string
  | JStr string
  | JList "json list"
  | JDict "(string \<times> json) list"

text \<open>\<open>value.get(key)\<close> on a dict: \<open>None\<close> when the key is absent.\<close>

definition dict_get :: "string \<Rightarrow> (string \<times> json) list \<Rightarrow> json option" where
  "dict_get k items = map_option snd (lookup fst k items)"

lemma dict_get_simps [simp]:
  "dict_get k [] = None"
  "dict_get k (p # items) = (if fst p = k then Some (snd p) else dict_get k items)"
  by (auto simp: dict_get_def)

section \<open>Serialization\<close>

definition hex_digit :: "nat \<Rightarrow> char" where
  "hex_digit n = char_of (if n < 10 then 48 + n else 87 + n)"

text \<open>\<open>json.encoder\<close> with \<open>ensure_ascii\<close>: quotes, backslashes and everything outside \<open>' '..'~'\<close>.\<close>

definition escape_char :: "char \<Rightarrow> string" where
  "escape_char c =
     (let n = (of_char c :: nat) in
      if n = 34 then [CHR 92, CHR 34]
      else if n = 92 then [CHR 92, CHR 92]
      else if n = 10 then [CHR 92, CHR ''n'']
      else if n = 13 then [CHR 92, CHR ''r'']
      else if n = 9 then [CHR 92, CHR ''t'']
      else if n = 12 then [CHR 92, CHR ''f'']
      else if n = 8 then [CHR 92, CHR ''b'']
      else if 32 \<le> n \<and> n \<le> 126 then [c]
      else [CHR 92, CHR ''u'', CHR ''0'', CHR ''0'', hex_digit (n div 16), hex_digit (n mod 16)])"

definition quote :: "string \<Rightarrow> string" where
  "quote s = CHR 34 # concat (map escape_char s) @ [CHR 34]"

fun join :: "string \<Rightarrow> string list \<Rightarrow> string" where
  "join sep [] = []"
| "join sep [x] = x"
| "join sep (x # y # xs) = x @ sep @ join sep (y # xs)"

fun canonical :: "json \<Rightarrow> string" where
  "canonical JNull = ''null''"
| "canonical (JBool b) = (if b then ''true'' else ''false'')"
| "canonical (JInt n) = int_text n"
| "canonical (JFloat t) = t"
| "canonical (JStr s) = quote s"
| "canonical (JList xs) = ''['' @ join '','' (map canonical xs) @ '']''"
| "canonical (JDict items) =
     ''{'' @ join '','' (map (\<lambda>(k, t). quote k @ '':'' @ t)
        (sort_key fst (map (\<lambda>(k, v). (k, canonical v)) items))) @ ''}''"

text \<open>Python's \<open>==\<close> on decoded values: dicts compare without regard to the order of their keys.\<close>

fun sort_keys :: "json \<Rightarrow> json" where
  "sort_keys (JList xs) = JList (map sort_keys xs)"
| "sort_keys (JDict items) = JDict (sort_key fst (map (\<lambda>(k, v). (k, sort_keys v)) items))"
| "sort_keys v = v"

definition json_eq :: "json \<Rightarrow> json \<Rightarrow> bool" where
  "json_eq v w \<longleftrightarrow> sort_keys v = sort_keys w"

lemma json_eq_refl [simp]: "json_eq v v"
  by (simp add: json_eq_def)

text \<open>
  The text does not depend on the order in which a dict was filled: the items are sorted by
  key, and the keys are distinct.
\<close>

lemma sort_key_fst_perm:
  fixes xs ys :: "(string \<times> 'a) list"
  assumes "mset xs = mset ys" and "distinct (map fst xs)"
  shows "sort_key fst xs = sort_key fst ys"
proof -
  have "inj_on fst (set (sort_key fst xs))"
    using assms(2) by (simp add: distinct_map)
  moreover have "mset (sort_key fst xs) = mset (sort_key fst ys)"
    using assms(1) by simp
  ultimately show ?thesis
    by (intro map_sorted_distinct_set_unique [of fst])
      (use assms in \<open>auto simp: distinct_map dest: mset_eq_setD mset_eq_imp_distinct_iff\<close>)
qed

lemma canonical_dict_perm:
  assumes "mset items = mset items'" and "distinct (map fst items)"
  shows "canonical (JDict items) = canonical (JDict items')"
proof -
  let ?f = "\<lambda>(k, v). (k, canonical v)"
  have "mset (map ?f items) = mset (map ?f items')" using assms(1) by simp
  moreover have "distinct (map fst (map ?f items))"
    using assms(2) by (simp add: comp_def case_prod_beta)
  ultimately have "sort_key fst (map ?f items) = sort_key fst (map ?f items')"
    by (rule sort_key_fst_perm)
  then show ?thesis by simp
qed

end
