(* ===== verification/Money.thy ===== *)
theory Money
  imports Json Complex_Main
begin

text \<open>
  \<open>pool_manager/pool_v2/money.py\<close>: the pool's error classes, checked token amounts, exact
  decimal multipliers, benchmark collateral and the allocation of a round's pot. Token units
  are Python integers (\<open>int\<close>); \<open>Fraction\<close> is \<open>rat\<close>, and \<open>numerator // denominator\<close>
  is \<open>floor\<close>.
\<close>

section \<open>Errors\<close>

text \<open>
  The exceptions the modelled code raises, with their messages. \<open>Conflict\<close>,
  \<open>InsufficientFunds\<close>, \<open>RpcFailure\<close> (method, HTTP status, RPC code) and
  \<open>UnsupportedCustodyTransaction\<close> are subclasses of \<open>FundsError\<close>; \<open>IntegrityError\<close> is
  PostgreSQL's refusal of a row that breaks a key; the last five are Python's own.
\<close>

datatype error =
    FundsError string
  | Conflict string
  | InsufficientFunds string
  | ProtocolDataError string
  | IntegrityError string
  | RpcFailure string "int option" "int option"
  | UnsupportedCustodyTransaction int
  | ValueError string
  | KeyError
  | IndexError
  | TypeError
  | AttributeError

fun is_funds_error :: "error \<Rightarrow> bool" where
  "is_funds_error (FundsError _) = True"
| "is_funds_error (Conflict _) = True"
| "is_funds_error (InsufficientFunds _) = True"
| "is_funds_error (RpcFailure _ _ _) = True"
| "is_funds_error (UnsupportedCustodyTransaction _) = True"
| "is_funds_error _ = False"

type_synonym 'a result = "error + 'a"

section \<open>Token units\<close>

definition TOKEN_DECIMALS :: int where "TOKEN_DECIMALS = 18"

definition TIG :: int where "TIG = 10 ^ 18"

definition units :: "bool \<Rightarrow> json \<Rightarrow> int result" where
  "units positive value =
     (case value of
        JInt n \<Rightarrow>
          (if n < (if positive then 1 else 0)
           then Inl (FundsError ''amount must be an integer number of token units'')
           else Inr n)
      | _ \<Rightarrow> Inl (FundsError ''amount must be an integer number of token units''))"

lemma units_Inr [outcome]: "units positive v = Inr n \<longleftrightarrow> v = JInt n \<and> (if positive then 1 else 0) \<le> n"
  by (auto simp: units_def split: json.splits)

section \<open>Exact multipliers\<close>

text \<open>
  \<open>decimal.Decimal\<close>: a finite value is a sign, a coefficient and a power of ten
  (\<open>as_tuple()\<close> gives the coefficient's decimal digits). The code receives a string, a
  \<open>Decimal\<close> read back from the database, or something else.
\<close>

datatype decimal = Finite bool nat int | Infinite bool | NotANumber

datatype multiplier_value = MStr string | MDecimal decimal | MOther

fun decimal_rat :: "decimal \<Rightarrow> rat" where
  "decimal_rat (Finite neg c e) =
     (if neg then -1 else 1) * (if 0 \<le> e then of_nat c * 10 ^ nat e else of_nat c / 10 ^ nat (- e))"
| "decimal_rat _ = 0"

fun decimal_digits :: "decimal \<Rightarrow> nat" where
  "decimal_digits (Finite _ c _) = length (nat_text c)"
| "decimal_digits _ = 0"

fun decimal_exponent :: "decimal \<Rightarrow> int" where
  "decimal_exponent (Finite _ _ e) = e"
| "decimal_exponent _ = 0"

definition is_digit :: "char \<Rightarrow> bool" where
  "is_digit c \<longleftrightarrow> 48 \<le> (of_char c :: nat) \<and> (of_char c :: nat) \<le> 57"

definition lower_char :: "char \<Rightarrow> char" where
  "lower_char c = (if 65 \<le> (of_char c :: nat) \<and> (of_char c :: nat) \<le> 90 then char_of (of_char c + 32 :: nat) else c)"

definition lower :: "string \<Rightarrow> string" where
  "lower s = map lower_char s"

definition is_space :: "char \<Rightarrow> bool" where
  "is_space c \<longleftrightarrow> (of_char c :: nat) \<in> {9, 10, 11, 12, 13, 28, 29, 30, 31, 32, 133, 160}"

definition strip :: "string \<Rightarrow> string" where
  "strip s = rev (dropWhile is_space (rev (dropWhile is_space s)))"

text \<open>The sign that may start a number.\<close>

definition split_sign :: "string \<Rightarrow> bool \<times> string" where
  "split_sign s =
     (case s of
        [] \<Rightarrow> (False, s)
      | c # cs \<Rightarrow> if c = CHR ''-'' then (True, cs) else if c = CHR ''+'' then (False, cs) else (False, s))"

definition parse_exponent :: "string \<Rightarrow> int option" where
  "parse_exponent s =
     (let (neg, ds) = split_sign s in
      if ds \<noteq> [] \<and> list_all is_digit ds then Some ((if neg then -1 else 1) * int (text_value ds)) else None)"

text \<open>
  \<open>Decimal(text)\<close>: surrounding white space and underscores are dropped; then a sign,
  \<open>digits[.digits]\<close> or \<open>.digits\<close>, an exponent, or one of the special values.
  \<open>None\<close> is \<open>InvalidOperation\<close>.
\<close>

definition parse_decimal :: "string \<Rightarrow> decimal option" where
  "parse_decimal text =
     (let (neg, s) = split_sign (lower (filter (\<lambda>c. c \<noteq> CHR ''_'') (strip text)));
          whole = takeWhile is_digit s;
          rest = dropWhile is_digit s;
          (frac, tail) = (case rest of
              [] \<Rightarrow> ([], [])
            | c # cs \<Rightarrow> if c = CHR ''.'' then (takeWhile is_digit cs, dropWhile is_digit cs) else ([], rest))
      in if s = ''inf'' \<or> s = ''infinity'' then Some (Infinite neg)
         else if take 3 s = ''nan'' \<and> list_all is_digit (drop 3 s) then Some NotANumber
         else if take 4 s = ''snan'' \<and> list_all is_digit (drop 4 s) then Some NotANumber
         else if whole = [] \<and> frac = [] then None
         else case tail of
             [] \<Rightarrow> Some (Finite neg (text_value (whole @ frac)) (- int (length frac)))
           | c # cs \<Rightarrow>
               if c = CHR ''e'' then
                 map_option (\<lambda>e. Finite neg (text_value (whole @ frac)) (e - int (length frac))) (parse_exponent cs)
               else None)"

fun is_finite :: "decimal \<Rightarrow> bool" where
  "is_finite (Finite _ _ _) = True"
| "is_finite _ = False"

definition multiplier :: "multiplier_value \<Rightarrow> decimal result" where
  "multiplier value =
     (case (case value of
              MOther \<Rightarrow> Inl (FundsError ''multiplier must be an exact decimal string'')
            | MDecimal d \<Rightarrow> Inr d
            | MStr s \<Rightarrow> (case parse_decimal s of
                  None \<Rightarrow> Inl (FundsError ''invalid multiplier'')
                | Some d \<Rightarrow> Inr d))
      of Inl e \<Rightarrow> Inl e
       | Inr d \<Rightarrow>
          if \<not> is_finite d \<or> \<not> (0 \<le> decimal_rat d \<and> decimal_rat d \<le> 1)
          then Inl (FundsError ''multiplier must be between 0 and 1'')
          else if 78 < decimal_digits d \<or> decimal_exponent d < -78
          then Inl (FundsError ''multiplier supports at most 78 decimal places/digits'')
          else Inr d)"

section \<open>Collateral\<close>

text \<open>
  \<open>collateral(track_bundle_counts, value, decimals)\<close>: the base is ten tokens for each bundle
  of the largest track; the amount is the base times the member's multiplier, rounded up.
\<close>

definition is_positive_int :: "json \<Rightarrow> bool" where
  "is_positive_int v = (case v of JInt n \<Rightarrow> 0 < n | _ \<Rightarrow> False)"

fun int_of :: "json \<Rightarrow> int" where
  "int_of (JInt n) = n"
| "int_of _ = 0"

definition collateral :: "json list \<Rightarrow> multiplier_value \<Rightarrow> json \<Rightarrow> (int \<times> int) result" where
  "collateral counts value decimals =
     (if counts = [] \<or> \<not> list_all is_positive_int counts
      then Inl (FundsError ''each proposed track requires a positive bundle count'')
      else if \<not> (case decimals of JInt d \<Rightarrow> 0 \<le> d \<and> d \<le> 36 | _ \<Rightarrow> False)
      then Inl (FundsError ''invalid token decimals'')
      else let base = 10 * 10 ^ nat (int_of decimals) * foldr max (map int_of counts) 0
           in bindE (multiplier value) (\<lambda>m. Inr (base, \<lceil>of_int base * decimal_rat m\<rceil>)))"

section \<open>Reward allocation\<close>

text \<open>
  \<open>allocate_rewards(pot, credits)\<close>. \<open>credits\<close> is the dict of members' credits in its
  order; five per cent of the pot (rounded down) is the operator's fee, the rest is shared in
  proportion to credit, and the units lost to rounding go to the largest remainders, ties in
  the order of member IDs.
\<close>

definition exact_shares :: "int \<Rightarrow> (string \<times> rat) list \<Rightarrow> (string \<times> rat) list" where
  "exact_shares amount credits =
     map (\<lambda>(key, value). (key, of_int amount * value / sum_list (map snd credits))) credits"

definition remainder_order :: "(string \<times> rat) list \<Rightarrow> string list" where
  "remainder_order exact = map fst (sort_key (\<lambda>(key, x). (- (x - of_int \<lfloor>x\<rfloor>), key)) exact)"

definition allocate_rewards :: "int \<Rightarrow> (string \<times> rat) list \<Rightarrow> (int \<times> (string \<times> int) list) result" where
  "allocate_rewards pot credits =
     bindE (units False (JInt pot)) (\<lambda>_.
       if \<exists>key \<in> set (map fst credits). key = [] then Inl (FundsError ''member IDs must be nonempty strings'')
       else if \<exists>value \<in> set (map snd credits). value < 0
       then Inl (FundsError ''credit must be an exact nonnegative fraction'')
       else if sum_list (map snd credits) = 0 then Inr (pot, map (\<lambda>(key, _). (key, 0)) credits)
       else
         let fee = pot * 5 div 100;
             exact = exact_shares (pot - fee) credits;
             floors = map (\<lambda>(key, x). (key, \<lfloor>x\<rfloor>)) exact;
             remaining = pot - fee - sum_list (map snd floors);
             winners = slice_to remaining (remainder_order exact)
         in Inr (fee, map (\<lambda>(key, n). (key, if key \<in> set winners then n + 1 else n)) floors))"

section \<open>Facts about collateral\<close>

lemma multiplier_Inr:
  "multiplier v = Inr m \<Longrightarrow> 0 \<le> decimal_rat m \<and> decimal_rat m \<le> 1 \<and> is_finite m"
  by (auto simp: multiplier_def split: multiplier_value.splits sum.splits if_splits)

lemma foldr_max_ge: "x \<in> set xs \<Longrightarrow> x \<le> foldr max xs (0::int)"
  by (induction xs) auto

lemma foldr_max_nonneg: "0 \<le> foldr max xs (0::int)"
  by (induction xs) auto

section \<open>Facts about the allocation\<close>

lemma exact_shares_fst [simp]: "map fst (exact_shares a credits) = map fst credits"
  by (simp add: exact_shares_def comp_def case_prod_beta)

lemma exact_shares_sum:
  assumes "sum_list (map snd credits) \<noteq> 0"
  shows "sum_list (map snd (exact_shares a credits)) = of_int a"
proof -
  have "sum_list (map (\<lambda>x. of_int a * snd x / t) credits) = of_int a * sum_list (map snd credits) / t" for t :: rat
    by (induction credits) (auto simp: algebra_simps add_divide_distrib)
  with assms show ?thesis by (simp add: exact_shares_def comp_def case_prod_beta)
qed

lemma set_remainder_order [simp]: "set (remainder_order exact) = fst ` set exact"
  by (simp add: remainder_order_def)

lemma length_remainder_order [simp]: "length (remainder_order exact) = length exact"
  by (simp add: remainder_order_def)

lemma distinct_remainder_order: "distinct (map fst exact) \<Longrightarrow> distinct (remainder_order exact)"
  unfolding remainder_order_def by (simp add: distinct_map)

text \<open>The units lost to rounding down are at least none and fewer than the members.\<close>

lemma floor_sum_le: "of_int (sum_list (map floor xs)) \<le> sum_list (xs :: rat list)"
  by (induction xs) (auto intro: add_mono)

lemma floor_sum_gt:
  "xs \<noteq> [] \<Longrightarrow> sum_list (xs :: rat list) < of_int (sum_list (map floor xs) + int (length xs))"
proof (induction xs rule: list_nonempty_induct)
  case (single x)
  have "x < of_int (\<lfloor>x\<rfloor> + 1)" by linarith
  then show ?case by simp
next
  case (cons x xs)
  have "x < of_int (\<lfloor>x\<rfloor> + 1)" by linarith
  from add_strict_mono [OF this cons.IH]
  have "x + sum_list xs < of_int ((\<lfloor>x\<rfloor> + 1) + (sum_list (map floor xs) + int (length xs)))"
    by (simp only: of_int_add)
  moreover have "(\<lfloor>x\<rfloor> + 1) + (sum_list (map floor xs) + int (length xs)) =
      sum_list (map floor (x # xs)) + int (length (x # xs))"
    unfolding list.map sum_list.Cons list.size by simp
  ultimately show ?case by (simp only: sum_list.Cons)
qed

lemma length_removeAll_distinct:
  "distinct ws \<Longrightarrow> length (removeAll k ws) + (if k \<in> set ws then 1 else 0) = length ws"
  by (induction ws) auto

lemma sum_bump_members:
  assumes "distinct (map fst rows)" and "distinct ws" and "set ws \<subseteq> fst ` set rows"
  shows "sum_list (map (\<lambda>(k, n). if k \<in> set ws then n + 1 else n) rows) =
    sum_list (map snd rows) + int (length ws)"
  using assms
proof (induction rows arbitrary: ws)
  case Nil
  then show ?case by simp
next
  case (Cons r rows)
  obtain k n where r: "r = (k, n)" by (cases r)
  let ?ws = "removeAll k ws"
  have "k \<notin> fst ` set rows" using Cons.prems(1) r by simp
  then have same: "map (\<lambda>(j, n). if j \<in> set ws then n + 1 else n) rows =
      map (\<lambda>(j, n). if j \<in> set ?ws then n + 1 else n) rows"
    by (intro map_cong) (auto simp: image_iff)
  have "distinct (map fst rows)" using Cons.prems(1) by simp
  moreover have "distinct ?ws" using Cons.prems(2) by (rule distinct_removeAll)
  moreover have "set ?ws \<subseteq> fst ` set rows" using Cons.prems(3) r by auto
  ultimately have "sum_list (map (\<lambda>(j, n). if j \<in> set ?ws then n + 1 else n) rows) =
      sum_list (map snd rows) + int (length ?ws)"
    by (rule Cons.IH)
  moreover have "int (length ws) = int (length ?ws) + (if k \<in> set ws then 1 else 0)"
    using length_removeAll_distinct [OF Cons.prems(2), of k] by (auto split: if_splits)
  ultimately show ?case unfolding r by (simp only: same list.map sum_list.Cons case_prod_conv snd_conv) simp
qed

text \<open>How a successful allocation of a nonzero total was computed.\<close>

lemma allocate_rewards_parts:
  assumes "allocate_rewards pot credits = Inr (fee, alloc)"
    and "sum_list (map snd credits) \<noteq> 0" and "distinct (map fst credits)"
  shows "fee = pot * 5 div 100" and "0 \<le> pot"
    and "\<forall>v \<in> set (map snd credits). 0 \<le> v"
    and "alloc = map (\<lambda>(key, x). (key, if key \<in> set (slice_to (pot - fee - sum_list (map (floor \<circ> snd) (exact_shares (pot - fee) credits)))
        (remainder_order (exact_shares (pot - fee) credits))) then \<lfloor>x\<rfloor> + 1 else \<lfloor>x\<rfloor>)) (exact_shares (pot - fee) credits)"
  using assms
  by (auto simp: allocate_rewards_def outcome Let_def comp_def case_prod_beta linorder_not_less)

text \<open>The number of units handed out by remainder is at least 0 and less than the number of members.\<close>

lemma remaining_bounds:
  assumes "sum_list (map snd credits) \<noteq> 0"
  shows "0 \<le> a - sum_list (map (floor \<circ> snd) (exact_shares a credits))"
    and "a - sum_list (map (floor \<circ> snd) (exact_shares a credits)) < int (length credits)"
proof -
  let ?xs = "map snd (exact_shares a credits)"
  have sum: "sum_list ?xs = of_int a" by (rule exact_shares_sum) (rule assms)
  have len: "length ?xs = length credits" by (simp add: exact_shares_def)
  have "?xs \<noteq> []" using assms by (auto simp: exact_shares_def)
  then have "(of_int a :: rat) < of_int (sum_list (map floor ?xs) + int (length credits))"
    using floor_sum_gt [of ?xs] sum len by simp
  then show "a - sum_list (map (floor \<circ> snd) (exact_shares a credits)) < int (length credits)"
    by (simp only: of_int_less_iff map_map)
  have "of_int (sum_list (map floor ?xs)) \<le> (of_int a :: rat)"
    using floor_sum_le [of ?xs] sum by simp
  then show "0 \<le> a - sum_list (map (floor \<circ> snd) (exact_shares a credits))"
    by (simp only: of_int_le_iff map_map)
qed

lemma bumped_sum:
  assumes "distinct (map fst exact)" and "0 \<le> n" and "n \<le> int (length exact)"
  shows "sum_list (map (\<lambda>p. if fst p \<in> set (slice_to n (remainder_order exact)) then \<lfloor>snd p\<rfloor> + 1 else \<lfloor>snd p\<rfloor>) exact) =
    sum_list (map (floor \<circ> snd) exact) + n"
proof -
  let ?ws = "slice_to n (remainder_order exact)"
  let ?rows = "map (\<lambda>(k, x). (k, \<lfloor>x\<rfloor>)) exact"
  have "distinct (map fst ?rows)" using assms(1) by (simp add: comp_def case_prod_beta)
  moreover have "distinct ?ws"
    using assms by (simp add: slice_to_def distinct_remainder_order)
  moreover have "set ?ws \<subseteq> fst ` set ?rows"
    using assms(2) set_take_subset [of "nat n" "remainder_order exact"]
    by (force simp: slice_to_def image_image case_prod_beta)
  ultimately have "sum_list (map (\<lambda>(k, n). if k \<in> set ?ws then n + 1 else n) ?rows) =
      sum_list (map snd ?rows) + int (length ?ws)"
    by (rule sum_bump_members)
  moreover have "int (length ?ws) = n" using assms by (simp add: slice_to_def)
  ultimately show ?thesis by (simp add: comp_def case_prod_beta)
qed

lemma allocation_conserved:
  assumes "allocate_rewards pot credits = Inr (fee, alloc)" and "distinct (map fst credits)"
  shows "fee + sum_list (map snd alloc) = pot \<and> map fst alloc = map fst credits \<and>
    0 \<le> fee \<and> (\<forall>n \<in> set (map snd alloc). 0 \<le> n)"
proof (cases "sum_list (map snd credits) = 0")
  case True
  with assms show ?thesis
    by (auto simp: allocate_rewards_def outcome comp_def case_prod_beta sum_list_triv)
next
  case False
  note parts = allocate_rewards_parts [OF assms(1) False assms(2)]
  let ?a = "pot - fee"
  let ?exact = "exact_shares ?a credits"
  let ?n = "?a - sum_list (map (floor \<circ> snd) ?exact)"
  have keys: "distinct (map fst ?exact)" using assms(2) by simp
  have len: "length ?exact = length credits" by (simp add: exact_shares_def)
  note n = remaining_bounds [OF False, of ?a]
  have "0 \<le> ?a" using parts(1,2) by simp
  moreover have "0 \<le> sum_list (map snd credits)"
    using parts(3) by (intro sum_list_nonneg) auto
  ultimately have nonneg: "0 \<le> x" if "(k, x) \<in> set ?exact" for k x
    using that parts(3) by (force simp: exact_shares_def intro!: divide_nonneg_nonneg mult_nonneg_nonneg)
  have "sum_list (map snd alloc) = sum_list (map (floor \<circ> snd) ?exact) + ?n"
    unfolding parts(4) using bumped_sum [OF keys n(1)] n(2) len by (simp add: comp_def case_prod_beta)
  moreover have "map fst alloc = map fst ?exact"
    unfolding parts(4) by (simp add: comp_def case_prod_beta)
  moreover have "\<forall>m \<in> set (map snd alloc). 0 \<le> m"
    unfolding parts(4) using nonneg by (auto simp: add_nonneg_nonneg)
  ultimately show ?thesis using parts(1,2) exact_shares_fst [of ?a credits] by simp
qed

text \<open>
  C4. The allocation conserves the pot: the operator's part and the members' allocations are
  nonnegative and add up to exactly the pot, and every member of the credit dict gets one.
\<close>

theorem allocate_rewards_conserves:
  assumes "allocate_rewards pot credits = Inr (fee, alloc)" and "distinct (map fst credits)"
  shows "fee + sum_list (map snd alloc) = pot \<and> map fst alloc = map fst credits \<and>
    0 \<le> fee \<and> (\<forall>n \<in> set (map snd alloc). 0 \<le> n)"
  using assms by (rule allocation_conserved)

theorem allocate_rewards_conserves_witness:
  "allocate_rewards 1001 [(''alice'', 2), (''bob'', 1)] = Inr (50, [(''alice'', 634), (''bob'', 317)]) \<and>
   50 + (634 + 317) = (1001 :: int)"
proof -
  have run: "allocate_rewards 1001 [(''alice'', 2), (''bob'', 1)] = Inr (50, [(''alice'', 634), (''bob'', 317)])"
    by code_simp
  from allocate_rewards_conserves [OF run] run show ?thesis by simp
qed

text \<open>One member's allocation is its exact share rounded down, or that plus one.\<close>

lemma allocation_of:
  assumes "allocate_rewards pot credits = Inr (fee, alloc)" and "distinct (map fst credits)"
    and "sum_list (map snd credits) \<noteq> 0" and "map_of credits k = Some c"
  shows "map_of alloc k = Some (let x = of_int (pot - fee) * c / sum_list (map snd credits) in
    if k \<in> set (slice_to (pot - fee - sum_list (map (floor \<circ> snd) (exact_shares (pot - fee) credits)))
      (remainder_order (exact_shares (pot - fee) credits))) then \<lfloor>x\<rfloor> + 1 else \<lfloor>x\<rfloor>)"
proof -
  note parts = allocate_rewards_parts [OF assms(1,3,2)]
  have keyed: "map_of (map (\<lambda>(key, x). (key, f key x)) rows) j = map_option (f j) (map_of rows j)"
    for f :: "string \<Rightarrow> rat \<Rightarrow> 'z" and rows j
    by (induction rows) auto
  have "map_of (exact_shares (pot - fee) credits) k = Some (of_int (pot - fee) * c / sum_list (map snd credits))"
    unfolding exact_shares_def keyed using assms(4) by simp
  then show ?thesis unfolding parts(4) keyed by (simp add: Let_def)
qed

text \<open>
  The members who get a unit by remainder: everyone left out comes later in the order, so has
  no larger remainder, and each of them lost something to rounding.
\<close>

definition lost :: "string \<times> rat \<Rightarrow> rat" where
  "lost p = snd p - of_int \<lfloor>snd p\<rfloor>"

lemma lost_bounds: "0 \<le> lost p" "lost p < 1"
  unfolding lost_def by linarith+

lemma remainder_order_lost: "remainder_order exact = map fst (sort_key (\<lambda>p. (- lost p, fst p)) exact)"
proof -
  have "(\<lambda>(key :: string, x :: rat). (- (x - of_int \<lfloor>x\<rfloor>), key)) = (\<lambda>p. (- lost p, fst p))"
    by (simp add: lost_def fun_eq_iff)
  then show ?thesis by (simp only: remainder_order_def)
qed

lemma winner_order:
  assumes "distinct (map fst exact)" and "0 \<le> n"
    and "p \<in> set exact" and "fst p \<in> set (slice_to n (remainder_order exact))"
    and "q \<in> set exact" and "fst q \<notin> set (slice_to n (remainder_order exact))"
  shows "lost q \<le> lost p"
proof -
  let ?f = "\<lambda>p. (- lost p, fst p)"
  let ?ys = "sort_key ?f exact"
  have same: "u = v" if "u \<in> set exact" "v \<in> set exact" "fst u = fst v" for u v
    using assms(1) that by (auto simp: distinct_map inj_on_def)
  have won: "fst u \<in> set (slice_to n (remainder_order exact)) \<longleftrightarrow> fst u \<in> fst ` set (take (nat n) ?ys)" for u
    using assms(2) by (simp add: slice_to_def remainder_order_lost take_map)
  have "p \<in> set (take (nat n) ?ys)"
  proof -
    have "fst p \<in> fst ` set (take (nat n) ?ys)" using assms(4) won by blast
    then obtain u where u: "u \<in> set (take (nat n) ?ys)" "fst u = fst p" by auto
    then have "u \<in> set ?ys" by (blast dest: in_set_takeD)
    then have "u \<in> set exact" by simp
    with same assms(3) u show ?thesis by blast
  qed
  moreover have "q \<in> set (drop (nat n) ?ys)"
  proof -
    have "set ?ys = set (take (nat n) ?ys) \<union> set (drop (nat n) ?ys)"
      by (simp only: append_take_drop_id flip: set_append)
    moreover have "q \<in> set ?ys" using assms(5) by simp
    moreover have "q \<notin> set (take (nat n) ?ys)" using assms(6) won by blast
    ultimately show ?thesis by blast
  qed
  moreover have "sorted (map ?f (take (nat n) ?ys @ drop (nat n) ?ys))" by simp
  then have "\<forall>u \<in> set (take (nat n) ?ys). \<forall>v \<in> set (drop (nat n) ?ys). ?f u \<le> ?f v"
    unfolding map_append sorted_append set_map by blast
  ultimately have "?f p \<le> ?f q" by blast
  then show ?thesis by (auto simp: less_eq_prod_def)
qed

lemma sum_lost_less:
  "zs \<noteq> [] \<Longrightarrow> sum_list (map lost zs) < of_nat (length zs)"
proof (induction zs rule: list_nonempty_induct)
  case (single x)
  show ?case using lost_bounds(2) [of x] by simp
next
  case (cons x xs)
  from add_strict_mono [OF lost_bounds(2) [of x] cons.IH] show ?case by simp
qed

lemma sum_list_map_zero: "(\<And>q. q \<in> set xs \<Longrightarrow> f q = (0 :: rat)) \<Longrightarrow> sum_list (map f xs) = 0"
  by (induction xs) auto

lemma sum_list_split:
  "sum_list (map f xs) = sum_list (map f (filter P xs)) + sum_list (map f (filter (\<lambda>q. \<not> P q) xs))"
  for f :: "'a \<Rightarrow> rat"
  by (induction xs) auto

lemma sum_lost: "sum_list (map lost xs) = sum_list (map snd xs) - of_int (sum_list (map (floor \<circ> snd) xs))"
  by (induction xs) (simp_all add: lost_def)

text \<open>A member who gets a unit by remainder had lost something to rounding.\<close>

lemma winner_lost:
  assumes dist: "distinct (map fst exact)" and n: "0 \<le> n"
    and rem: "sum_list (map snd exact) = of_int (sum_list (map (floor \<circ> snd) exact) + n)"
    and p: "p \<in> set exact" "fst p \<in> set (slice_to n (remainder_order exact))"
  shows "0 < lost p"
proof (rule ccontr)
  assume "\<not> 0 < lost p"
  let ?W = "\<lambda>q. fst q \<in> set (slice_to n (remainder_order exact))"
  let ?won = "filter ?W exact" and ?left = "filter (\<lambda>q. \<not> ?W q) exact"
  have zero: "lost q = 0" if "q \<in> set exact" "\<not> ?W q" for q
    using winner_order [OF dist n p that] lost_bounds(1) [of q] \<open>\<not> 0 < lost p\<close> by simp
  have "sum_list (map lost ?left) = 0" using zero by (intro sum_list_map_zero) auto
  moreover have "sum_list (map lost exact) = sum_list (map lost ?won) + sum_list (map lost ?left)"
    by (rule sum_list_split)
  moreover have "sum_list (map lost exact) = of_int n"
    using rem sum_lost [of exact] by simp
  moreover have "length ?won \<le> nat n"
  proof -
    have "length ?won = card (fst ` set ?won)"
      using dist by (metis distinct_card distinct_map_filter length_map set_map)
    also have "\<dots> \<le> card (set (slice_to n (remainder_order exact)))"
      by (rule card_mono) auto
    also have "\<dots> \<le> length (slice_to n (remainder_order exact))" by (rule card_length)
    also have "\<dots> \<le> nat n" using n by (simp add: slice_to_def)
    finally show ?thesis .
  qed
  moreover have "sum_list (map lost ?won) < of_nat (length ?won)"
    by (rule sum_lost_less) (use p in \<open>auto simp: filter_empty_conv\<close>)
  ultimately show False using n by linarith
qed

text \<open>The premises of \<open>winner_lost\<close> and \<open>winner_order\<close> hold in every successful allocation.\<close>

lemma remaining_sum:
  assumes "sum_list (map snd credits) \<noteq> 0"
  shows "sum_list (map snd (exact_shares a credits)) = of_int (sum_list (map (floor \<circ> snd) (exact_shares a credits)) +
    (a - sum_list (map (floor \<circ> snd) (exact_shares a credits))))"
  by (simp add: exact_shares_sum [OF assms])

lemma exact_share_in:
  "map_of credits k = Some c \<Longrightarrow> (k, of_int a * c / sum_list (map snd credits)) \<in> set (exact_shares a credits)"
  by (force simp: exact_shares_def dest: map_of_SomeD)

text \<open>
  C24. Proportionality: with some credit to share, every member's allocation is its exact
  share of what is left of the pot after the five per cent fee, rounded down or up: less than
  one unit away from it.
\<close>

theorem allocate_rewards_proportional:
  assumes "allocate_rewards pot credits = Inr (fee, alloc)" and "distinct (map fst credits)"
    and "sum_list (map snd credits) \<noteq> 0" and "map_of credits k = Some c"
  shows "fee = pot * 5 div 100 \<and> (\<exists>n. map_of alloc k = Some n \<and>
    \<bar>of_int n - of_int (pot - fee) * c / sum_list (map snd credits)\<bar> < 1)"
proof -
  let ?a = "pot - fee"
  let ?x = "of_int ?a * c / sum_list (map snd credits)"
  let ?exact = "exact_shares ?a credits"
  let ?ws = "slice_to (?a - sum_list (map (floor \<circ> snd) ?exact)) (remainder_order ?exact)"
  have alloc: "map_of alloc k = Some (if k \<in> set ?ws then \<lfloor>?x\<rfloor> + 1 else \<lfloor>?x\<rfloor>)"
    using allocation_of [OF assms] by (simp only: Let_def)
  have keys: "distinct (map fst ?exact)" using assms(2) by simp
  have "0 < lost (k, ?x)" if "k \<in> set ?ws"
    by (rule winner_lost [OF keys remaining_bounds(1) [OF assms(3), of ?a] remaining_sum [OF assms(3)] exact_share_in [OF assms(4)]])
      (simp only: fst_conv that)
  then have "\<bar>of_int (if k \<in> set ?ws then \<lfloor>?x\<rfloor> + 1 else \<lfloor>?x\<rfloor>) - ?x\<bar> < 1"
    using lost_bounds [of "(k, ?x)"] by (auto simp: lost_def)
  with alloc allocate_rewards_parts(1) [OF assms(1,3,2)] show ?thesis by blast
qed

theorem allocate_rewards_proportional_witness:
  "\<exists>n. map_of [(''alice'', 634), (''bob'', 317)] ''bob'' = Some n \<and>
    \<bar>of_int n - of_int (1001 - 50) * 1 / (3 :: rat)\<bar> < 1"
proof -
  have run: "allocate_rewards 1001 [(''alice'', 2), (''bob'', 1)] = Inr (50, [(''alice'', 634), (''bob'', 317)])"
    by code_simp
  from allocate_rewards_proportional [OF run, of "''bob''" 1] show ?thesis by simp
qed

text \<open>
  C25. Fairness of the rounding: a member with less credit never receives more than a member
  with more, although the units lost to rounding are handed out one by one.
\<close>

theorem allocate_rewards_monotone:
  assumes "allocate_rewards pot credits = Inr (fee, alloc)" and "distinct (map fst credits)"
    and "map_of credits j = Some c" and "map_of credits k = Some d" and "c < d"
    and "map_of alloc j = Some m" and "map_of alloc k = Some n"
  shows "m \<le> n"
proof (cases "sum_list (map snd credits) = 0")
  case True
  with assms show ?thesis
    by (auto simp: allocate_rewards_def outcome dest!: map_of_SomeD)
next
  case False
  note parts = allocate_rewards_parts [OF assms(1) False assms(2)]
  let ?a = "pot - fee"
  let ?T = "sum_list (map snd credits)"
  let ?exact = "exact_shares ?a credits"
  let ?ws = "slice_to (?a - sum_list (map (floor \<circ> snd) ?exact)) (remainder_order ?exact)"
  let ?x = "of_int ?a * c / ?T" and ?y = "of_int ?a * d / ?T"
  have m: "m = (if j \<in> set ?ws then \<lfloor>?x\<rfloor> + 1 else \<lfloor>?x\<rfloor>)"
    using allocation_of [OF assms(1,2) False assms(3)] assms(6) by (simp only: Let_def option.inject)
  have n: "n = (if k \<in> set ?ws then \<lfloor>?y\<rfloor> + 1 else \<lfloor>?y\<rfloor>)"
    using allocation_of [OF assms(1,2) False assms(4)] assms(7) by (simp only: Let_def option.inject)
  have "0 \<le> ?T" using parts(3) by (intro sum_list_nonneg) auto
  moreover have "0 \<le> ?a" using parts(1,2) by simp
  ultimately have le: "?x \<le> ?y" using assms(5)
    by (intro divide_right_mono mult_left_mono) auto
  then have "\<lfloor>?x\<rfloor> \<le> \<lfloor>?y\<rfloor>" by (rule floor_mono)
  moreover have "\<not> (j \<in> set ?ws \<and> k \<notin> set ?ws \<and> \<lfloor>?x\<rfloor> = \<lfloor>?y\<rfloor>)"
  proof
    assume win: "j \<in> set ?ws \<and> k \<notin> set ?ws \<and> \<lfloor>?x\<rfloor> = \<lfloor>?y\<rfloor>"
    have keys: "distinct (map fst ?exact)" using assms(2) by simp
    have "lost (k, ?y) \<le> lost (j, ?x)"
      by (rule winner_order [OF keys remaining_bounds(1) [OF False, of ?a] exact_share_in [OF assms(3)] _ exact_share_in [OF assms(4)]])
        (use win in \<open>simp_all only: fst_conv not_False_eq_True\<close>)
    with win le have "?x = ?y" by (simp only: lost_def snd_conv)
    then have "?a = 0" using assms(5) False by (simp only: divide_cancel_right mult_cancel_left of_int_eq_0_iff) auto
    then have "?x = 0" by simp
    moreover have "0 < lost (j, ?x)"
      by (rule winner_lost [OF keys remaining_bounds(1) [OF False, of ?a] remaining_sum [OF False] exact_share_in [OF assms(3)]])
        (use win in \<open>simp only: fst_conv\<close>)
    ultimately show False by (simp only: lost_def snd_conv floor_zero of_int_0)
  qed
  ultimately show ?thesis using m n by (auto split: if_splits)
qed

theorem allocate_rewards_monotone_witness: "(317 :: int) \<le> 634"
proof -
  have run: "allocate_rewards 1001 [(''alice'', 2), (''bob'', 1)] = Inr (50, [(''alice'', 634), (''bob'', 317)])"
    by code_simp
  show ?thesis
    by (rule allocate_rewards_monotone [OF run, where j = "''bob''" and k = "''alice''" and c = 1 and d = 2]) simp_all
qed

lemma collateral_range:
  assumes "collateral counts value (JInt d) = Inr (base, amount)"
  shows "0 \<le> amount \<and> amount \<le> base"
proof -
  from assms obtain m where m: "multiplier value = Inr m"
    and base: "base = 10 * 10 ^ nat d * foldr max (map int_of counts) 0"
    and amount: "amount = \<lceil>of_int base * decimal_rat m\<rceil>"
    by (auto simp: collateral_def outcome Let_def)
  have "0 \<le> base" using base foldr_max_nonneg by simp
  moreover from multiplier_Inr [OF m] have "0 \<le> decimal_rat m" "decimal_rat m \<le> 1" by auto
  ultimately have "0 \<le> of_int base * decimal_rat m" "of_int base * decimal_rat m \<le> of_int base"
    by (auto intro: mult_left_le)
  then show ?thesis unfolding amount by (simp add: ceiling_le_iff)
qed

text \<open>
  C26. Collateral is the base (ten tokens for every bundle of the largest proposed track)
  times the member's multiplier, rounded up to a whole unit, and never more than the base.
\<close>

theorem collateral_bounds:
  assumes "collateral counts value (JInt d) = Inr (base, amount)"
  shows "\<exists>m. multiplier value = Inr m \<and> 0 \<le> amount \<and> amount \<le> base \<and>
    of_int base * decimal_rat m \<le> of_int amount \<and> of_int amount < of_int base * decimal_rat m + 1 \<and>
    (\<forall>v \<in> set counts. \<exists>n. v = JInt n \<and> 0 < n \<and> 10 * 10 ^ nat d * n \<le> base)"
proof -
  from assms obtain m where m: "multiplier value = Inr m"
    and base: "base = 10 * 10 ^ nat d * foldr max (map int_of counts) 0"
    and amount: "amount = \<lceil>of_int base * decimal_rat m\<rceil>"
    and pos: "list_all is_positive_int counts"
    by (auto simp: collateral_def outcome Let_def)
  have "0 \<le> amount" "amount \<le> base" using collateral_range [OF assms] by simp_all
  moreover have "of_int base * decimal_rat m \<le> of_int amount" "of_int amount < of_int base * decimal_rat m + 1"
    unfolding amount by linarith+
  moreover have "\<exists>n. v = JInt n \<and> 0 < n \<and> 10 * 10 ^ nat d * n \<le> base" if v: "v \<in> set counts" for v
  proof -
    from v pos have "is_positive_int v" by (simp add: list_all_iff)
    then obtain n where n: "v = JInt n" "0 < n"
      by (cases v) (auto simp: is_positive_int_def)
    with v have "n \<in> set (map int_of counts)" by force
    then have "n \<le> foldr max (map int_of counts) 0" by (rule foldr_max_ge)
    with n show ?thesis unfolding base by (simp add: mult_left_mono)
  qed
  ultimately show ?thesis using m by blast
qed

theorem collateral_bounds_witness:
  "collateral [JInt 2, JInt 3] (MStr ''0.3'') (JInt 0) = Inr (30, 9) \<and>
   (\<exists>m. multiplier (MStr ''0.3'') = Inr m \<and> (of_int 9 :: rat) < of_int 30 * decimal_rat m + 1)"
proof -
  have run: "collateral [JInt 2, JInt 3] (MStr ''0.3'') (JInt 0) = Inr (30, 9)" by code_simp
  from collateral_bounds [OF run] run show ?thesis by blast
qed

end
