(* ===== verification/Store.thy ===== *)
theory Store
  imports Money
begin

text \<open>
  The pool's relational store (\<open>pool_manager/pool_v2/migrations\<close>) and the verified chain
  facts of \<open>chain.py\<close> the operations receive. A table is a list of row records in insertion
  order; a single-row table is an option. Identifiers (UUIDs, wallets, hashes) are text;
  timestamps are integers, in microseconds; a nullable column is an option.
\<close>

type_synonym timestamp = int

definition seconds :: "int \<Rightarrow> timestamp" where "seconds n = n * 1000000"

text \<open>
  What the surroundings of a call supply: the SHA-256 hex digest of the standard library, of
  which only determinism is used, the reading of the database clock, the text
  \<open>isoformat()\<close> gives for a stored timestamp in the session's time zone, and what
  \<open>datetime.fromisoformat\<close> reads: the instant and whether a time zone was given, or nothing.
\<close>

record env =
  sha256 :: "string \<Rightarrow> string"
  clock :: timestamp
  isoformat :: "timestamp \<Rightarrow> string"
  fromisoformat :: "string \<Rightarrow> (timestamp \<times> bool) option"

section \<open>Chain facts\<close>

record network =
  net_chain_id :: int
  net_token :: string
  net_custody :: string
  net_confirmations :: int
  net_decimals :: int
  net_require_finalized :: bool

record confirmed_transfer =
  tf_network :: network
  tf_tx_hash :: string
  tf_log_index :: int
  tf_block_number :: int
  tf_block_hash :: string
  tf_block_timestamp :: timestamp
  tf_sender :: string
  tf_recipient :: string
  tf_amount :: int
  tf_evidence :: json

definition event_id :: "confirmed_transfer \<Rightarrow> string" where
  "event_id t = int_text (net_chain_id (tf_network t)) @ '':'' @ net_token (tf_network t) @ '':'' @
     tf_tx_hash t @ '':'' @ int_text (tf_log_index t)"

record confirmed_transaction =
  tx_network :: network
  tx_hash :: string
  tx_sender :: string
  tx_recipient :: "string option"
  tx_nonce :: int
  tx_successful :: bool
  tx_value :: int
  tx_fee :: int
  tx_fee_model :: string
  tx_block_number :: int
  tx_block_hash :: string
  tx_block_timestamp :: timestamp
  tx_evidence :: json

record custody_preflight =
  pf_network :: network
  pf_nonce :: int
  pf_token_balance :: int
  pf_native_balance :: int
  pf_block_number :: int
  pf_checked_at :: timestamp
  pf_evidence :: json

definition FEE_MODELS :: "string list" where
  "FEE_MODELS = [''ethereum'', ''op-isthmus'', ''op-jovian'']"

section \<open>Ledger tables\<close>

datatype asset = AssetTIG | AssetNATIVE

fun asset_text :: "asset \<Rightarrow> string" where
  "asset_text AssetTIG = ''TIG''"
| "asset_text AssetNATIVE = ''NATIVE''"

text \<open>Finitely many assets: statements about every asset evaluate.\<close>

lemma UNIV_asset: "UNIV = {AssetTIG, AssetNATIVE}"
  by (auto intro: asset.exhaust)

instantiation asset :: enum
begin

definition enum_asset :: "asset list" where
  "enum_asset = [AssetTIG, AssetNATIVE]"

definition enum_all_asset :: "(asset \<Rightarrow> bool) \<Rightarrow> bool" where
  "enum_all_asset P \<longleftrightarrow> P AssetTIG \<and> P AssetNATIVE"

definition enum_ex_asset :: "(asset \<Rightarrow> bool) \<Rightarrow> bool" where
  "enum_ex_asset P \<longleftrightarrow> P AssetTIG \<or> P AssetNATIVE"

instance
  by standard (simp_all only: UNIV_asset enum_asset_def enum_all_asset_def enum_ex_asset_def, auto)

end

datatype location = Custody | Protocol

datatype account_kind =
  KMember | KCollateral | KWithdrawal | KOperator | KOperatorCommitment | KRound | KUnattributed | KExternal

record account_row =
  acc_id :: string
  acc_kind :: account_kind
  acc_asset :: asset
  acc_location :: location
  acc_balance :: int

record journal_row =
  jr_id :: string
  jr_event_key :: string
  jr_kind :: string
  jr_fingerprint :: string
  jr_details :: json
  jr_reverses :: "string option"

record entry_row =
  en_journal :: string
  en_account :: string
  en_asset :: asset
  en_amount :: int

record ledger_state =
  accounts :: "account_row list"
  journals :: "journal_row list"
  entries :: "entry_row list"

text \<open>The account's recorded balance; an account that does not exist holds nothing.\<close>

definition balance :: "ledger_state \<Rightarrow> string \<Rightarrow> int" where
  "balance led k = (case lookup acc_id k (accounts led) of None \<Rightarrow> 0 | Some a \<Rightarrow> acc_balance a)"

section \<open>Members\<close>

record member_row =
  m_id :: string
  m_wallet :: string
  m_withdrawal_wallet :: string
  m_multiplier :: decimal
  m_revision :: int
  m_last_paid_at :: "timestamp option"

record multiplier_change_row =
  mc_member :: string
  mc_revision :: int
  mc_old_value :: decimal
  mc_new_value :: decimal
  mc_actor :: string
  mc_reason :: string
  mc_event_key :: string

section \<open>Custody\<close>

record custody_identity_row =
  ci_chain_id :: int
  ci_token :: string
  ci_wallet :: string
  ci_decimals :: int

record transfer_row =
  tr_event_id :: string
  tr_chain_id :: int
  tr_token :: string
  tr_tx_hash :: string
  tr_log_index :: int
  tr_block_number :: int
  tr_block_hash :: string
  tr_block_timestamp :: timestamp
  tr_sender :: string
  tr_recipient :: string
  tr_amount :: int
  tr_evidence :: json

record attribution_row =
  at_event_id :: string
  at_destination :: string
  at_actor :: string
  at_evidence :: json

record chain_transaction_row =
  ct_chain_id :: int
  ct_tx_hash :: string
  ct_sender :: string
  ct_recipient :: "string option"
  ct_nonce :: int
  ct_successful :: bool
  ct_value :: int
  ct_fee :: int
  ct_fee_model :: string
  ct_block_number :: int
  ct_block_hash :: string
  ct_block_timestamp :: timestamp
  ct_evidence :: json

record custody_send_row =
  cs_id :: string
  cs_chain_id :: int
  cs_sender :: string
  cs_nonce :: int
  cs_kind :: string

record custody_payment_row =
  cp_send_id :: string
  cp_chain_id :: int
  cp_tx_hash :: string
  cp_transfer_event :: "string option"
  cp_fee :: int
  cp_journal_id :: string

record custody_authorization_row =
  ca_send_id :: string
  ca_chain_id :: int
  ca_tx_hash :: string
  ca_authority :: string
  ca_nonce :: int
  ca_delegate :: string
  ca_actor :: string
  ca_reason :: string
  ca_evidence :: json

section \<open>Operator controls and observers\<close>

record spending_cap_row =
  sc_id :: string
  sc_event_key :: string
  sc_window_seconds :: int
  sc_tig_fee_window :: int
  sc_tig_fee_attempt :: int
  sc_native_fee_window :: int
  sc_native_fee_attempt :: int
  sc_actor :: string
  sc_reason :: string
  sc_created_at :: timestamp

record control_event_row =
  ce_event_key :: string
  ce_before_value :: bool
  ce_after_value :: bool
  ce_actor :: string
  ce_reason :: string

record chain_stream_row =
  ch_network :: network
  ch_start_height :: int
  ch_last_height :: int
  ch_last_hash :: string
  ch_start_nonce :: int

text \<open>A check of the recorded funds against the wallet; a failed collection has no measurements.\<close>

record custody_check_row =
  cc_capture_id :: string
  cc_height :: "int option"
  cc_target_height :: "int option"
  cc_block_hash :: "string option"
  cc_actual_tig :: "int option"
  cc_actual_native :: "int option"
  cc_recorded_tig :: "int option"
  cc_recorded_native :: "int option"
  cc_outgoing_nonce :: "int option"
  cc_accounted_nonces :: "int option"
  cc_healthy :: bool
  cc_reason :: string
  cc_checked_at :: timestamp
  cc_custody_code :: "string option"

record chain_capture_row =
  cx_id :: string
  cx_payload :: json
  cx_expired_at :: "timestamp option"

record chain_batch_row =
  bt_capture_id :: string
  bt_first :: int
  bt_last :: int
  bt_block_hash :: string

record chain_alert_row =
  al_capture_id :: string
  al_kind :: string
  al_reason :: string

record opening_baseline_row =
  bl_capture_id :: string
  bl_network :: network
  bl_block_height :: int
  bl_block_hash :: string
  bl_tig :: int
  bl_native :: int
  bl_start_nonce :: int
  bl_actor :: string
  bl_reason :: string
  bl_journal_ids :: "string list"

record chain_tables =
  chain_captures :: "chain_capture_row list"
  chain_batches :: "chain_batch_row list"
  chain_alerts :: "chain_alert_row list"
  custody_opening_baselines :: "opening_baseline_row list"

record funding_capture_row =
  fc_id :: string
  fc_player_id :: string
  fc_block_id :: "string option"
  fc_height :: "int option"
  fc_available :: "int option"
  fc_checked_at :: timestamp
  fc_complete :: bool
  fc_error :: "string option"
  fc_created_at :: timestamp
  fc_payload :: json
  fc_expired_at :: "timestamp option"

record funding_alert_row =
  fa_capture_id :: string
  fa_details :: json
  fa_created_at :: timestamp

text \<open>Confirmed protocol top-ups, their credits, the opening credit and internal native receipts.\<close>

record topup_fact_row =
  ff_topup_id :: string
  ff_player_id :: string
  ff_tx_hash :: string
  ff_log_index :: int
  ff_amount :: int
  ff_height :: int
  ff_capture_id :: string

record topup_credit_row =
  tc_send_id :: string
  tc_topup_id :: string
  tc_capture_id :: string
  tc_transfer_event :: string
  tc_journal_id :: string

record topup_claim_row =
  tk_send_id :: string
  tk_tx_hash :: string
  tk_actor :: string

record opening_credit_row =
  oc_source :: string
  oc_player_id :: string
  oc_capture_id :: string
  oc_amount :: int
  oc_journal_id :: string
  oc_actor :: string

record internal_receipt_row =
  ni_chain_id :: int
  ni_tx_hash :: string
  ni_trace_address :: "int list"
  ni_sender :: string
  ni_recipient :: string
  ni_amount :: int
  ni_actor :: string
  ni_evidence :: json

record funding_tables =
  protocol_topup_facts :: "topup_fact_row list"
  protocol_topup_credits :: "topup_credit_row list"
  topup_transaction_claims :: "topup_claim_row list"
  protocol_opening_credits :: "opening_credit_row list"
  native_internal_receipts :: "internal_receipt_row list"

section \<open>Pilot limits\<close>

text \<open>The configuration a pilot was installed with, after \<open>validate\<close> normalised it.\<close>

record pilot_member =
  pm_wallet :: string
  pm_funding_units :: int
  pm_attempt_limit :: int

record pilot_config =
  pc_api_origin :: string
  pc_chain_id :: int
  pc_token :: string
  pc_pool_wallet :: string
  pc_maximum_total :: int
  pc_max_fee_per_attempt :: int
  pc_members :: "(string \<times> int) list"

text \<open>The cumulative allowances of a phase, and the row that records its review.\<close>

record phase_config =
  pq_phase_key :: string
  pq_attempt_limit :: int
  pq_members :: "pilot_member list"

record pilot_phase =
  pp_number :: int
  pp_config :: phase_config
  pp_previous_number :: int
  pp_attempts_before :: int
  pp_actor :: string
  pp_reason :: string

section \<open>Benchmark reservations\<close>

datatype reservation_state =
  Reserved | Uncertain | Accepted | Rejected | Cancelled | Active | VerificationFailed | Expired

datatype collateral_outcome = Returned | Forfeited

record reservation_row =
  r_id :: string
  r_member_id :: string
  r_request_key :: string
  r_request_hash :: string
  r_creation_round :: int
  r_resource :: string
  r_base_amount :: int
  r_multiplier :: decimal
  r_multiplier_revision :: int
  r_amount :: int
  r_selection :: json
  r_payload :: json
  r_payload_text :: "string option"
  r_offer_expires_at :: timestamp
  r_fee_limit :: int
  r_fee_actual :: "int option"
  r_state :: reservation_state
  r_slot_held :: bool
  r_collateral_outcome :: "collateral_outcome option"
  r_benchmark_id :: "string option"
  r_assignment :: "json option"
  r_assignment_digest :: "string option"
  r_assignment_payload :: "string option"
  r_handed_over_at :: "timestamp option"
  r_active_at_height :: "int option"
  r_created_at :: timestamp

record reservation_event_row =
  re_key :: string
  re_reservation_id :: string
  re_kind :: string
  re_details :: json
  re_created_at :: timestamp

section \<open>Withdrawals and top-ups\<close>

datatype withdrawal_kind = MemberWithdrawal | OperatorWithdrawal

datatype withdrawal_state = WRequested | WApproved | WUncertain | WPaid | WRejected | WCancelled

record withdrawal_row =
  w_id :: string
  w_kind :: withdrawal_kind
  w_member_id :: "string option"
  w_request_key :: string
  w_amount :: int
  w_recipient :: string
  w_state :: withdrawal_state
  w_paid_event :: "string option"
  w_operator_reserve :: "int option"

record withdrawal_review_row =
  wr_withdrawal_id :: string
  wr_chain_id :: int
  wr_token :: string
  wr_sender :: string
  wr_fee_model :: string
  wr_confirmations :: int
  wr_actor :: string
  wr_evidence :: json

record withdrawal_attempt_row =
  wa_id :: string
  wa_withdrawal_id :: string
  wa_request_key :: string
  wa_chain_id :: int
  wa_sender :: string
  wa_nonce :: int
  wa_fee_limit :: int
  wa_actor :: string
  wa_preflight :: custody_preflight
  wa_sent_at :: timestamp

record withdrawal_claim_row =
  wc_attempt_id :: string
  wc_chain_id :: int
  wc_tx_hash :: string
  wc_actor :: string

datatype send_outcome = OPaid | OFailed | OCancelled

record withdrawal_outcome_row =
  wo_attempt_id :: string
  wo_chain_id :: int
  wo_tx_hash :: string
  wo_outcome :: send_outcome
  wo_fee :: int
  wo_journal_id :: string

record withdrawal_event_row =
  we_key :: string
  we_withdrawal_id :: string
  we_kind :: string
  we_actor :: string
  we_details :: json

record protocol_topup_row =
  pt_id :: string
  pt_request_key :: string
  pt_amount :: int
  pt_fee_limit :: int
  pt_network :: network
  pt_recipient :: string
  pt_fee_model :: string
  pt_policy_capture :: string
  pt_preflight :: custody_preflight
  pt_actor :: string
  pt_state :: string
  pt_sent_at :: timestamp

section \<open>Work and submissions\<close>

datatype request_state = RQueued | RReserved | RExpired | RCancelled

record work_request_row =
  wq_id :: string
  wq_member_id :: string
  wq_request_key :: string
  wq_offer_hash :: string
  wq_offer :: json
  wq_state :: request_state
  wq_expires_at :: timestamp
  wq_reservation_id :: "string option"
  wq_created_at :: timestamp
  wq_last_attempted_at :: "timestamp option"

datatype intent_kind = Precommit | Results | Proofs

datatype intent_state = Ready | SendUncertain | SendAccepted | SendRejected | SendCancelled

record outbox_row =
  ox_id :: string
  ox_reservation_id :: string
  ox_kind :: intent_kind
  ox_payload :: json
  ox_payload_text :: string
  ox_digest :: string
  ox_state :: intent_state
  ox_sent_at :: "timestamp option"
  ox_evidence :: "json option"
  ox_match_key :: "string option"
  ox_preflight :: "json option"

record response_row =
  sr_id :: string
  sr_outbox_id :: string
  sr_response :: json

record precommit_receipt_row =
  pe_reservation_id :: string
  pe_benchmark_id :: string
  pe_evidence :: json

text \<open>\<open>reservation_binaries\<close>, and the older \<open>reservation_archives\<close>, which have no size.\<close>

record binary_row =
  by_reservation_id :: string
  by_sha256 :: string
  by_source_url :: string
  by_size_bytes :: int

record verified_binary_row =
  vb_id :: string
  vb_source_url :: string
  vb_algorithm_name :: string
  vb_compute_type :: string
  vb_sha256 :: string
  vb_size_bytes :: int
  vb_verified_at :: timestamp

record payload_row =
  bp_benchmark_id :: string
  bp_kind :: intent_kind
  bp_digest :: string
  bp_payload :: json
  bp_payload_text :: string

record progress_row =
  bg_benchmark_id :: string
  bg_sampled_nonces :: "int list"
  bg_evidence :: json

record reference_capture_row =
  rk_id :: string
  rk_block_id :: string
  rk_height :: int
  rk_round :: int
  rk_block_timestamp :: int
  rk_source_semantic_digest :: string
  rk_payload_sha256 :: string
  rk_payload :: json
  rk_metadata :: json
  rk_created_at :: timestamp
  rk_expired_at :: "timestamp option"

record work_tables =
  work_requests :: "work_request_row list"
  protocol_outbox :: "outbox_row list"
  submission_responses :: "response_row list"
  precommit_receipts :: "precommit_receipt_row list"
  reservation_binaries :: "binary_row list"
  reservation_archives :: "binary_row list"
  verified_binaries :: "verified_binary_row list"
  reference_captures :: "reference_capture_row list"

section \<open>Block observations\<close>

text \<open>
  A stored observation is a tree of nodes over content-addressed chunks. The manifest column
  is the tombstone of an expired capture, a reference to one chunk, or the tree itself; a
  chunk is kept as the value, the tree or the bytes it was written from.
\<close>

datatype evidence_node =
    NDict "(string \<times> evidence_node) list"
  | NRecords "string list"
  | NPages "string list"
  | NItems "string list"
  | NBlob string
  | NValue json

datatype manifest =
    ExpiredManifest string
  | CompactRef string
  | ManifestRef string
  | Inline evidence_node

datatype chunk =
    JsonChunk json
  | TreeChunk evidence_node
  | BytesChunk string

record capture_attempt_row =
  ap_id :: string
  ap_collector :: string
  ap_block_id :: "string option"
  ap_height :: "int option"
  ap_manifest :: manifest
  ap_metadata :: json
  ap_error :: "string option"

record observed_block_row =
  ob_id :: string
  ob_height :: int
  ob_previous_id :: string
  ob_round :: int
  ob_timestamp :: int
  ob_blocks_per_round :: int
  ob_semantic_digest :: string
  ob_attempt_id :: string

record compact_copy_row =
  cb_block_id :: string
  cb_source_semantic_digest :: string
  cb_projection_digest :: string
  cb_payload_sha256 :: string
  cb_payload :: json
  cb_expired_at :: "timestamp option"

record observation_stream_row =
  os_launch_height :: int
  os_latest_seen_height :: int
  os_contiguous_height :: int

record observation_alert_row =
  oa_id :: int
  oa_kind :: string
  oa_height :: "int option"
  oa_details :: json

record gap_waiver_row =
  gw_height :: int
  gw_round_number :: int
  gw_assumed_block_id :: string
  gw_previous_observed_block_id :: string
  gw_next_observed_block_id :: string
  gw_policy :: string
  gw_actor :: string
  gw_reason :: string
  gw_evidence :: json

record gap_policy_row =
  mp_revision :: int
  mp_policy :: string
  mp_max_missing_per_round :: int
  mp_warn_missing_per_round :: int
  mp_actor :: string
  mp_reason :: string

record credited_block_row =
  cr_block_id :: string
  cr_player_id :: string
  cr_rule :: string
  cr_ownership_digest :: string
  cr_total_num :: int
  cr_total_den :: int

record benchmark_credit_row =
  bc_block_id :: string
  bc_benchmark_id :: string
  bc_member_id :: string
  bc_numerator :: int
  bc_denominator :: int

record observation_tables =
  observation_chunks :: "(string \<times> chunk) list"
  capture_attempts :: "capture_attempt_row list"
  observed_blocks :: "observed_block_row list"
  compact_block_copies :: "compact_copy_row list"
  observation_stream :: "observation_stream_row option"
  observation_alerts :: "observation_alert_row list"
  observation_conflict_resolutions :: "int list"
  observation_gap_waivers :: "gap_waiver_row list"
  missing_block_policies :: "gap_policy_row list"
  credited_blocks :: "credited_block_row list"
  benchmark_credits :: "benchmark_credit_row list"

section \<open>Reports and settlement\<close>

record report_scope_row =
  rs_creation_round :: int
  rs_reporting_rounds :: "int list"
  rs_adapter_version :: string
  rs_evidence :: json

record report_capture_row =
  rc_id :: string
  rc_reporting_round :: int
  rc_block_id :: string
  rc_payload_sha256 :: string
  rc_input_digest :: string
  rc_payload :: json
  rc_metadata :: json
  rc_complete :: bool
  rc_error :: "string option"
  rc_created_at :: timestamp
  rc_expired_at :: "timestamp option"

record confirmed_report_row =
  cf_report_id :: string
  cf_reporting_round :: int
  cf_benchmark_id :: string
  cf_benchmarker :: string
  cf_nonce :: int
  cf_confirmed_height :: int
  cf_capture_id :: string

record confirmed_arbitration_row =
  ab_report_id :: string
  ab_result :: string
  ab_confirmed_height :: int
  ab_capture_id :: string

record index_capture_row =
  ic_id :: string
  ic_reporting_round :: int
  ic_block_id :: string
  ic_player_id :: string
  ic_challenge_id :: string
  ic_payload_sha256 :: string
  ic_input_digest :: string
  ic_payload :: json
  ic_metadata :: json
  ic_complete :: bool
  ic_error :: "string option"

record reporting_round_row =
  rr_benchmark_id :: string
  rr_creation_round :: int
  rr_reporting_round :: int
  rr_capture_id :: string

record report_seal_row =
  sl_id :: string
  sl_creation_round :: int
  sl_block_id :: string
  sl_capture_ids :: "string list"
  sl_reports :: "(string \<times> json) list"
  sl_input_digest :: string

record round_earnings_row =
  ea_round :: int
  ea_expected_received_net :: int
  ea_withheld_operating_cost :: int
  ea_block_id :: string
  ea_evidence :: json

record round_receipt_row =
  rp_event_id :: string
  rp_round :: int
  rp_amount :: int
  rp_evidence :: json

record round_reimbursement_row =
  rb_round :: int
  rb_amount :: int
  rb_journal_id :: "string option"

record finalization_row =
  fz_reservation_id :: string
  fz_outcome :: collateral_outcome
  fz_amount :: int
  fz_report_seal_id :: string
  fz_journal_id :: "string option"

record settlement_row =
  st_round :: int
  st_rule :: string
  st_input_digest :: string
  st_inputs :: json
  st_pot :: int
  st_operator_allocation :: int
  st_member_allocations :: "(string \<times> int) list"
  st_journal_id :: "string option"

record round_tables =
  round_report_scopes :: "report_scope_row list"
  report_captures :: "report_capture_row list"
  confirmed_reports :: "confirmed_report_row list"
  confirmed_arbitrations :: "confirmed_arbitration_row list"
  report_index_captures :: "index_capture_row list"
  benchmark_reporting_rounds :: "reporting_round_row list"
  round_report_seals :: "report_seal_row list"
  round_earnings :: "round_earnings_row list"
  round_receipts :: "round_receipt_row list"
  round_reimbursements :: "round_reimbursement_row list"
  collateral_finalizations :: "finalization_row list"
  round_settlements :: "settlement_row list"

section \<open>The whole store\<close>

record pool =
  ledger :: ledger_state
  members :: "member_row list"
  multiplier_changes :: "multiplier_change_row list"
  custody_identity :: "custody_identity_row option"
  protocol_identity :: "string option"
  transfers :: "transfer_row list"
  transfer_attributions :: "attribution_row list"
  chain_transactions :: "chain_transaction_row list"
  custody_sends :: "custody_send_row list"
  custody_payments :: "custody_payment_row list"
  custody_authorization_payments :: "custody_authorization_row list"
  spending_caps :: "spending_cap_row list"
  new_work_paused :: "bool option"
  runtime_control_events :: "control_event_row list"
  chain_stream :: "chain_stream_row option"
  custody_checks :: "custody_check_row list"
  chain_log :: chain_tables
  funding_captures :: "funding_capture_row list"
  funding_alerts :: "funding_alert_row list"
  pilot_limits :: "pilot_config option"
  pilot_phases :: "pilot_phase list"
  reservations :: "reservation_row list"
  reservation_events :: "reservation_event_row list"
  benchmark_payloads :: "payload_row list"
  benchmark_progress :: "progress_row list"
  withdrawals :: "withdrawal_row list"
  withdrawal_reviews :: "withdrawal_review_row list"
  withdrawal_attempts :: "withdrawal_attempt_row list"
  withdrawal_transaction_claims :: "withdrawal_claim_row list"
  withdrawal_attempt_outcomes :: "withdrawal_outcome_row list"
  withdrawal_events :: "withdrawal_event_row list"
  protocol_topups :: "protocol_topup_row list"
  observations :: observation_tables
  rounds :: round_tables
  topup_funding :: funding_tables
  work :: work_tables

definition empty_ledger :: ledger_state where
  "empty_ledger = \<lparr>accounts = [], journals = [], entries = []\<rparr>"

definition empty_observations :: observation_tables where
  "empty_observations = \<lparr>observation_chunks = [], capture_attempts = [], observed_blocks = [], compact_block_copies = [],
     observation_stream = None, observation_alerts = [], observation_conflict_resolutions = [], observation_gap_waivers = [],
     missing_block_policies = [], credited_blocks = [], benchmark_credits = []\<rparr>"

definition empty_rounds :: round_tables where
  "empty_rounds = \<lparr>round_report_scopes = [], report_captures = [], confirmed_reports = [], confirmed_arbitrations = [],
     report_index_captures = [], benchmark_reporting_rounds = [], round_report_seals = [], round_earnings = [],
     round_receipts = [], round_reimbursements = [], collateral_finalizations = [], round_settlements = []\<rparr>"

definition empty_funding :: funding_tables where
  "empty_funding = \<lparr>protocol_topup_facts = [], protocol_topup_credits = [], topup_transaction_claims = [],
     protocol_opening_credits = [], native_internal_receipts = []\<rparr>"

definition empty_chain :: chain_tables where
  "empty_chain = \<lparr>chain_captures = [], chain_batches = [], chain_alerts = [], custody_opening_baselines = []\<rparr>"

definition empty_work :: work_tables where
  "empty_work = \<lparr>work_requests = [], protocol_outbox = [], submission_responses = [], precommit_receipts = [],
     reservation_binaries = [], reservation_archives = [], verified_binaries = [], reference_captures = []\<rparr>"

definition empty_pool :: pool where
  "empty_pool = \<lparr>ledger = empty_ledger, members = [], multiplier_changes = [],
     custody_identity = None, protocol_identity = None, transfers = [], transfer_attributions = [],
     chain_transactions = [], custody_sends = [], custody_payments = [],
     custody_authorization_payments = [], spending_caps = [], new_work_paused = None,
     runtime_control_events = [], chain_stream = None, custody_checks = [], chain_log = empty_chain, funding_captures = [],
     funding_alerts = [], pilot_limits = None, pilot_phases = [], reservations = [],
     reservation_events = [], benchmark_payloads = [], benchmark_progress = [], withdrawals = [],
     withdrawal_reviews = [], withdrawal_attempts = [], withdrawal_transaction_claims = [],
     withdrawal_attempt_outcomes = [], withdrawal_events = [], protocol_topups = [],
     observations = empty_observations, rounds = empty_rounds, topup_funding = empty_funding, work = empty_work\<rparr>"

text \<open>Sorting rows (an \<open>ORDER BY\<close>) keeps their total.\<close>

lemma sum_list_sort_key: "sum_list (map f (sort_key g xs)) = sum_list (map (f :: 'a \<Rightarrow> int) xs)"
  by (metis mset_map mset_sort sum_mset_sum_list)

end
