(* ===== verification/Ledger.thy ===== *)
theory Ledger
  imports Store "HOL-Library.AList"
begin

text \<open>
  \<open>pool_manager/pool_v2/ledger.py\<close>: the append-only, balanced journal. Operations act on the
  ledger's tables (\<open>ledger_state\<close>); the triggers of \<open>001_funds.sql\<close> that keep
  \<open>accounts.balance\<close> in step with inserted entries are part of \<open>insert_entry\<close>. The
  section on the interface states what a client may rely on as a locale and interprets it.
\<close>

section \<open>Operations\<close>

definition fingerprint :: "env \<Rightarrow> json \<Rightarrow> string" where
  "fingerprint env value = sha256 env (canonical value)"

text \<open>\<open>account(cursor, id, kind, asset, location)\<close>: create the account unless it exists, then compare.\<close>

definition account :: "string \<Rightarrow> account_kind \<Rightarrow> asset \<Rightarrow> location \<Rightarrow> ledger_state \<Rightarrow> (string \<times> ledger_state) result" where
  "account k kind a loc led =
     (let led1 = (case lookup acc_id k (accounts led) of
          Some _ \<Rightarrow> led
        | None \<Rightarrow> led\<lparr>accounts := accounts led @
            [\<lparr>acc_id = k, acc_kind = kind, acc_asset = a, acc_location = loc, acc_balance = 0\<rparr>]\<rparr>)
      in case lookup acc_id k (accounts led1) of
          None \<Rightarrow> Inl TypeError
        | Some row \<Rightarrow>
            if (acc_kind row, acc_asset row, acc_location row) \<noteq> (kind, a, loc)
            then Inl (Conflict ''account identity has a different kind or asset'')
            else Inr (k, led1))"

type_synonym movement = "string \<times> int"

text \<open>The loop that sums the movements per account; dict entries keep the order of first use.\<close>

fun add_amount :: "movement \<Rightarrow> movement list \<Rightarrow> movement list" where
  "add_amount (k, amount) d = AList.update k ((case map_of d k of None \<Rightarrow> 0 | Some v \<Rightarrow> v) + amount) d"

definition net_amounts :: "movement list \<Rightarrow> movement list" where
  "net_amounts movements = filter (\<lambda>(_, v). v \<noteq> 0) (fold add_amount movements [])"

definition journal_digest :: "env \<Rightarrow> string \<Rightarrow> movement list \<Rightarrow> json \<Rightarrow> string option \<Rightarrow> string" where
  "journal_digest env kind amounts details reverses =
     fingerprint env (JDict
       [(''kind'', JStr kind), (''amounts'', JDict (map (\<lambda>(k, v). (k, JInt v)) amounts)),
        (''details'', details), (''reverses'', case reverses of None \<Rightarrow> JNull | Some r \<Rightarrow> JStr r)])"

definition asset_of :: "ledger_state \<Rightarrow> string \<Rightarrow> asset" where
  "asset_of led k = (case lookup acc_id k (accounts led) of None \<Rightarrow> AssetTIG | Some a \<Rightarrow> acc_asset a)"

text \<open>The first account, in the order of the dict, that the posting would overdraw.\<close>

definition overdrawn :: "ledger_state \<Rightarrow> movement list \<Rightarrow> movement option" where
  "overdrawn led amounts =
     List.find (\<lambda>(k, v). case lookup acc_id k (accounts led) of
         None \<Rightarrow> False | Some row \<Rightarrow> acc_kind row \<noteq> KExternal \<and> acc_balance row + v < 0) amounts"

definition asset_total :: "ledger_state \<Rightarrow> movement list \<Rightarrow> asset \<Rightarrow> int" where
  "asset_total led amounts a = sum_where (\<lambda>m. asset_of led (fst m) = a) snd amounts"

text \<open>Inserting an entry fires \<open>apply_entry\<close>, which adds its amount to the account's balance.\<close>

fun insert_entry :: "string \<Rightarrow> movement \<Rightarrow> ledger_state \<Rightarrow> ledger_state" where
  "insert_entry j (k, v) led = led\<lparr>
     entries := entries led @ [\<lparr>en_journal = j, en_account = k, en_asset = asset_of led k, en_amount = v\<rparr>],
     accounts := modify acc_id k (\<lambda>a. a\<lparr>acc_balance := acc_balance a + v\<rparr>) (accounts led)\<rparr>"

text \<open>
  \<open>post(cursor, event_key, kind, movements, details, reverses)\<close>. \<open>new_id\<close> is the UUID
  drawn for the journal. A replay with the same inputs returns the recorded journal.
\<close>

definition post :: "env \<Rightarrow> string \<Rightarrow> string \<Rightarrow> string \<Rightarrow> movement list \<Rightarrow> json \<Rightarrow> string option \<Rightarrow>
    ledger_state \<Rightarrow> (string \<times> ledger_state) result" where
  "post env new_id event_key kind movements details reverses led =
     (if event_key = [] \<or> kind = [] then Inl (FundsError ''journal requires an event key and kind'') else
      let amounts = net_amounts movements in
      if amounts = [] then Inl (FundsError ''a monetary journal requires nonzero entries'') else
      let digest = journal_digest env kind amounts details reverses in
      case lookup jr_event_key event_key (journals led) of
        Some existing \<Rightarrow>
          if jr_fingerprint existing \<noteq> digest
          then Inl (Conflict ''journal event key was reused with different inputs'')
          else Inr (jr_id existing, led)
      | None \<Rightarrow>
          if reverses \<noteq> None \<and> lookup jr_reverses reverses (journals led) \<noteq> None
          then Inl (Conflict ''journal has already been reversed'')
          else if \<exists>k \<in> set (map fst amounts). lookup acc_id k (accounts led) = None
          then Inl (FundsError ''unknown journal account'')
          else (case overdrawn led amounts of
            Some (k, _) \<Rightarrow> Inl (InsufficientFunds (''insufficient available '' @ asset_text (asset_of led k) @ '' funds''))
          | None \<Rightarrow>
              if \<exists>a. asset_total led amounts a \<noteq> 0
              then Inl (FundsError ''journal must balance for each asset'')
              else if lookup jr_id new_id (journals led) \<noteq> None
                \<or> (reverses \<noteq> None \<and> (\<forall>row \<in> set (journals led). Some (jr_id row) \<noteq> reverses))
              then Inl (IntegrityError ''journals'')
              else Inr (new_id, fold (insert_entry new_id) (sort_key fst amounts)
                (led\<lparr>journals := journals led @
                  [\<lparr>jr_id = new_id, jr_event_key = event_key, jr_kind = kind, jr_fingerprint = digest,
                    jr_details = details, jr_reverses = reverses\<rparr>]\<rparr>))))"

text \<open>\<open>reverse(cursor, journal_id, event_key, actor, reason)\<close>: a correction posts the opposite movements.\<close>

definition reverse_journal :: "env \<Rightarrow> string \<Rightarrow> string \<Rightarrow> string \<Rightarrow> string \<Rightarrow> string \<Rightarrow>
    ledger_state \<Rightarrow> (string \<times> ledger_state) result" where
  "reverse_journal env new_id journal_id event_key actor reason led =
     (if actor = [] \<or> reason = [] then Inl (FundsError ''a correction requires an actor and reason'') else
      let movements = map (\<lambda>e. (en_account e, - en_amount e)) (filter (\<lambda>e. en_journal e = journal_id) (entries led))
      in if movements = [] then Inl (FundsError ''unknown journal to reverse'')
         else post env new_id event_key ''correction'' movements
           (JDict [(''actor'', JStr actor), (''reason'', JStr reason)]) (Some journal_id) led)"

text \<open>\<open>audit\<close>: the accounts whose balance is not the sum of their entries, with both amounts.\<close>

definition audit :: "ledger_state \<Rightarrow> (string \<times> int \<times> int) list" where
  "audit led = filter (\<lambda>(_, recorded, reconstructed). recorded \<noteq> reconstructed)
     (map (\<lambda>a. (acc_id a, acc_balance a, sum_where (\<lambda>e. en_account e = acc_id a) en_amount (entries led)))
       (accounts led))"

definition backing :: "ledger_state \<Rightarrow> asset \<Rightarrow> location \<Rightarrow> int" where
  "backing led a loc = sum_where
     (\<lambda>row. acc_asset row = a \<and> acc_location row = loc \<and> acc_kind row \<noteq> KExternal) acc_balance (accounts led)"

section \<open>Net amounts\<close>

definition amount_of :: "movement list \<Rightarrow> string \<Rightarrow> int" where
  "amount_of movements k = sum_where (\<lambda>m. fst m = k) snd movements"

lemma amount_of_simps [simp]:
  "amount_of [] k = 0"
  "amount_of (m # ms) k = (if fst m = k then snd m else 0) + amount_of ms k"
  by (simp_all add: amount_of_def)

lemma fold_add_amount:
  "(case map_of (fold add_amount ms d) k of None \<Rightarrow> 0 | Some v \<Rightarrow> v) =
    (case map_of d k of None \<Rightarrow> 0 | Some v \<Rightarrow> v) + amount_of ms k"
proof (induction ms arbitrary: d)
  case (Cons m ms)
  then show ?case by (cases m) (simp add: update_conv' split: option.splits)
qed simp

lemma distinct_fold_add_amount: "distinct (map fst d) \<Longrightarrow> distinct (map fst (fold add_amount ms d))"
proof (induction ms arbitrary: d)
  case (Cons m ms)
  then show ?case by (cases m) (simp add: distinct_update)
qed simp

lemma distinct_net_amounts [simp]: "distinct (map fst (net_amounts ms))"
proof -
  have "distinct (map fst (fold add_amount ms []))" by (rule distinct_fold_add_amount) simp
  then show ?thesis by (simp add: net_amounts_def distinct_map_filter)
qed

lemma amount_of_absent: "k \<notin> fst ` set ms \<Longrightarrow> amount_of ms k = 0"
  by (induction ms) auto

lemma amount_of_map_of:
  "distinct (map fst ms) \<Longrightarrow> amount_of ms k = (case map_of ms k of None \<Rightarrow> 0 | Some v \<Rightarrow> v)"
  by (induction ms) (auto simp: amount_of_absent)

lemma amount_of_filter_nonzero: "amount_of (filter (\<lambda>(_, v). v \<noteq> 0) ms) k = amount_of ms k"
  by (induction ms) auto

text \<open>The dict the loop builds holds, for every account, the sum of its movements.\<close>

lemma amount_of_net_amounts [simp]: "amount_of (net_amounts ms) k = amount_of ms k"
proof -
  have "amount_of (fold add_amount ms []) k = amount_of ms k"
    using fold_add_amount [of ms "[]" k] distinct_fold_add_amount [of "[]" ms]
    by (simp add: amount_of_map_of)
  then show ?thesis by (simp add: net_amounts_def amount_of_filter_nonzero)
qed

lemma net_amounts_nonzero: "(k, v) \<in> set (net_amounts ms) \<Longrightarrow> v \<noteq> 0"
  by (auto simp: net_amounts_def)

lemma net_amounts_keys: "k \<in> fst ` set (net_amounts ms) \<longleftrightarrow> amount_of ms k \<noteq> 0"
proof -
  have "amount_of ms k = (case map_of (net_amounts ms) k of None \<Rightarrow> 0 | Some v \<Rightarrow> v)"
    by (metis amount_of_map_of amount_of_net_amounts distinct_net_amounts)
  then show ?thesis
    by (auto split: option.splits simp: map_of_eq_None_iff dest: map_of_SomeD net_amounts_nonzero)
      (force dest: map_of_SomeD net_amounts_nonzero)+
qed

lemma sum_where_mset: "mset xs = mset ys \<Longrightarrow> sum_where P f xs = sum_where P f ys"
  unfolding sum_where_def by (metis mset_filter mset_map sum_mset_sum_list)

lemma amount_of_sort [simp]: "amount_of (sort_key fst ms) k = amount_of ms k"
  unfolding amount_of_def by (rule sum_where_mset) simp

lemma asset_total_sort [simp]: "asset_total led (sort_key fst ms) a = asset_total led ms a"
  unfolding asset_total_def by (rule sum_where_mset) simp

section \<open>The effect of inserting entries\<close>

lemma asset_of_credit [simp]:
  "asset_of (led\<lparr>accounts := modify acc_id k (\<lambda>a. a\<lparr>acc_balance := acc_balance a + v\<rparr>) (accounts led)\<rparr>) j = asset_of led j"
  by (auto simp: asset_of_def lookup_modify split: option.splits)

lemma asset_of_insert_entry [simp]: "asset_of (insert_entry j m led) k = asset_of led k"
  by (cases m) (auto simp: asset_of_def lookup_modify split: option.splits)

lemma fold_insert_journals [simp]: "journals (fold (insert_entry j) ms led) = journals led"
  by (induction ms arbitrary: led) auto

lemma fold_insert_entries:
  "entries (fold (insert_entry j) ms led) = entries led @
    map (\<lambda>(k, v). \<lparr>en_journal = j, en_account = k, en_asset = asset_of led k, en_amount = v\<rparr>) ms"
proof (induction ms arbitrary: led)
  case (Cons m ms)
  have "asset_of (insert_entry j m led) = asset_of led" by (rule ext) simp
  then show ?case using Cons by (cases m) simp
qed simp

lemma fold_insert_accounts:
  "accounts (fold (insert_entry j) ms led) =
    map (\<lambda>a. a\<lparr>acc_balance := acc_balance a + amount_of ms (acc_id a)\<rparr>) (accounts led)"
proof (induction ms arbitrary: led)
  case (Cons m ms)
  then show ?case by (cases m) (simp add: modify_def add.assoc)
qed simp

lemma lookup_map_same_key:
  "(\<And>r. key (f r) = key r) \<Longrightarrow> lookup key k (map f rows) = map_option f (lookup key k rows)"
  by (induction rows) auto

lemma balance_fold_insert:
  assumes "lookup acc_id k (accounts led) \<noteq> None \<or> amount_of ms k = 0"
  shows "balance (fold (insert_entry j) ms led) k = balance led k + amount_of ms k"
  using assms by (auto simp: balance_def fold_insert_accounts lookup_map_same_key
      split: option.splits dest: lookup_SomeD)

section \<open>What a successful posting did\<close>

definition new_journal :: "env \<Rightarrow> string \<Rightarrow> string \<Rightarrow> string \<Rightarrow> movement list \<Rightarrow> json \<Rightarrow> string option \<Rightarrow> journal_row" where
  "new_journal env new_id event_key kind movements details reverses =
     \<lparr>jr_id = new_id, jr_event_key = event_key, jr_kind = kind,
       jr_fingerprint = journal_digest env kind (net_amounts movements) details reverses,
       jr_details = details, jr_reverses = reverses\<rparr>"

text \<open>Either a replay, which changes nothing, or a new journal whose guards all held.\<close>

lemma post_Inr_iff:
  "post env i ek kind mv det rv led = Inr (j, led') \<longleftrightarrow>
    ek \<noteq> [] \<and> kind \<noteq> [] \<and> net_amounts mv \<noteq> [] \<and>
    ((\<exists>row. lookup jr_event_key ek (journals led) = Some row \<and> led' = led \<and> j = jr_id row \<and>
        jr_fingerprint row = journal_digest env kind (net_amounts mv) det rv) \<or>
     (j = i \<and> lookup jr_event_key ek (journals led) = None \<and> lookup jr_id i (journals led) = None \<and>
      (rv \<noteq> None \<longrightarrow> lookup jr_reverses rv (journals led) = None \<and> (\<exists>row \<in> set (journals led). Some (jr_id row) = rv)) \<and>
      (\<forall>k \<in> set (map fst (net_amounts mv)). lookup acc_id k (accounts led) \<noteq> None) \<and>
      overdrawn led (net_amounts mv) = None \<and> (\<forall>a. asset_total led (net_amounts mv) a = 0) \<and>
      led' = fold (insert_entry i) (sort_key fst (net_amounts mv))
        (led\<lparr>journals := journals led @ [new_journal env i ek kind mv det rv]\<rparr>)))"
  unfolding post_def Let_def new_journal_def
  by (cases "lookup jr_event_key ek (journals led)"; cases "overdrawn led (net_amounts mv)")
    (auto split: if_splits)

lemma post_cases:
  assumes "post env i ek kind mv det rv led = Inr (j, led')"
  obtains (replay) row where "lookup jr_event_key ek (journals led) = Some row" "led' = led" "j = jr_id row"
      "jr_fingerprint row = journal_digest env kind (net_amounts mv) det rv"
    | (fresh) "j = i" "lookup jr_event_key ek (journals led) = None" "lookup jr_id i (journals led) = None"
      "rv \<noteq> None \<Longrightarrow> lookup jr_reverses rv (journals led) = None"
      "\<And>k. k \<in> fst ` set (net_amounts mv) \<Longrightarrow> lookup acc_id k (accounts led) \<noteq> None"
      "overdrawn led (net_amounts mv) = None" "\<And>a. asset_total led (net_amounts mv) a = 0"
      "led' = fold (insert_entry i) (sort_key fst (net_amounts mv))
        (led\<lparr>journals := journals led @ [new_journal env i ek kind mv det rv]\<rparr>)"
  using assms unfolding post_Inr_iff by auto

text \<open>
  A fresh posting moves exactly the summed amounts: every balance changes by the total of its
  account's movements, and only by that.
\<close>

lemma post_balance:
  assumes "post env i ek kind mv det rv led = Inr (j, led')" and "lookup jr_event_key ek (journals led) = None"
  shows "balance led' k = balance led k + amount_of mv k"
  using assms(1)
proof (cases rule: post_cases)
  case (replay row)
  with assms(2) show ?thesis by simp
next
  case fresh
  have "lookup acc_id k (accounts led) \<noteq> None \<or> amount_of (sort_key fst (net_amounts mv)) k = 0"
    using fresh(5) [of k] net_amounts_keys [of k mv] by auto
  then show ?thesis unfolding fresh(8) by (subst balance_fold_insert) (auto simp: balance_def)
qed

lemma post_accounts:
  assumes "post env i ek kind mv det rv led = Inr (j, led')"
  shows "map acc_id (accounts led') = map acc_id (accounts led)"
  using assms by (cases rule: post_cases) (simp_all add: fold_insert_accounts)

lemma post_journals:
  assumes "post env i ek kind mv det rv led = Inr (j, led')"
  shows "lookup jr_event_key ek (journals led') \<noteq> None"
  using assms
proof (cases rule: post_cases)
  case fresh
  then show ?thesis by (simp add: lookup_append new_journal_def)
qed simp

section \<open>The ledger's invariant\<close>

text \<open>
  What the journal keeps true: keys are unique; every entry is nonzero and names an account
  of its asset and a recorded journal; every balance is the sum of the account's entries, and
  is not negative unless the account stands for the outside world; every journal balances for
  each asset; and so the balances of each asset add up to zero.
\<close>

definition entries_ok :: "ledger_state \<Rightarrow> bool" where
  "entries_ok led \<longleftrightarrow> (\<forall>e \<in> set (entries led). en_amount e \<noteq> 0 \<and> en_journal e \<in> jr_id ` set (journals led) \<and>
     (\<exists>a. lookup acc_id (en_account e) (accounts led) = Some a \<and> acc_asset a = en_asset e))"

definition balances_ok :: "ledger_state \<Rightarrow> bool" where
  "balances_ok led \<longleftrightarrow> (\<forall>a \<in> set (accounts led).
     acc_balance a = sum_where (\<lambda>e. en_account e = acc_id a) en_amount (entries led) \<and>
     (acc_kind a \<noteq> KExternal \<longrightarrow> 0 \<le> acc_balance a))"

definition journals_ok :: "ledger_state \<Rightarrow> bool" where
  "journals_ok led \<longleftrightarrow> (\<forall>j \<in> set (journals led). \<forall>a.
     sum_where (\<lambda>e. en_journal e = jr_id j \<and> en_asset e = a) en_amount (entries led) = 0)"

definition asset_balance :: "ledger_state \<Rightarrow> asset \<Rightarrow> int" where
  "asset_balance led a = sum_where (\<lambda>row. acc_asset row = a) acc_balance (accounts led)"

definition ledger_ok :: "ledger_state \<Rightarrow> bool" where
  "ledger_ok led \<longleftrightarrow> distinct (map acc_id (accounts led)) \<and> distinct (map jr_id (journals led)) \<and>
     distinct (map jr_event_key (journals led)) \<and> entries_ok led \<and> balances_ok led \<and> journals_ok led \<and>
     (\<forall>a. asset_balance led a = 0)"

lemma ledger_ok_empty [simp]: "ledger_ok empty_ledger"
  by (simp add: ledger_ok_def empty_ledger_def entries_ok_def balances_ok_def journals_ok_def asset_balance_def)

lemma ledger_ok_account:
  assumes "ledger_ok led" and "account k kind a loc led = Inr (j, led')"
  shows "ledger_ok led'"
proof (cases "lookup acc_id k (accounts led)")
  case (Some row)
  with assms show ?thesis by (simp add: account_def split: if_splits)
next
  case None
  let ?row = "\<lparr>acc_id = k, acc_kind = kind, acc_asset = a, acc_location = loc, acc_balance = 0\<rparr>"
  have led': "led' = led\<lparr>accounts := accounts led @ [?row]\<rparr>"
    using assms(2) None by (auto simp: account_def Let_def lookup_append)
  have fresh: "k \<notin> acc_id ` set (accounts led)" using None by (simp add: lookup_None_iff)
  have "sum_where (\<lambda>e. en_account e = k) en_amount (entries led) = 0"
    using assms(1) None by (intro sum_where_none) (auto simp: ledger_ok_def entries_ok_def)
  then show ?thesis
    using assms(1) fresh unfolding led'
    by (auto simp: ledger_ok_def entries_ok_def balances_ok_def journals_ok_def asset_balance_def sum_where_append
        lookup_append split: option.splits)
qed

lemma account_cases:
  assumes "account k kind a loc led = Inr (j, led')"
  shows "j = k" and "balance led' x = balance led x" and "lookup acc_id k (accounts led') \<noteq> None"
    and "journals led' = journals led" and "entries led' = entries led"
    and "set (map acc_id (accounts led')) = insert k (set (map acc_id (accounts led)))"
  using assms
  by (auto simp: account_def Let_def balance_def lookup_append split: option.splits if_splits dest: lookup_SomeD)

text \<open>The entries of one posting, summed per account and per asset.\<close>

lemma sum_where_map: "sum_where P f (map g xs) = sum_where (\<lambda>x. P (g x)) (\<lambda>x. f (g x)) xs"
  by (induction xs) auto

lemma sum_where_add: "sum_where P (\<lambda>r. f r + g r) rows = sum_where P f rows + sum_where P g rows"
  by (induction rows) auto

lemma sum_where_at:
  assumes "distinct (map key rows)" and "lookup key k rows = Some r"
  shows "sum_where P (\<lambda>x. if k = key x then v else 0) rows = (if P r then v else 0)"
  using assms
proof (induction rows)
  case (Cons x rows)
  show ?case
  proof (cases "key x = k")
    case True
    then have "sum_where P (\<lambda>x. if k = key x then v else 0) rows = sum_where P (\<lambda>_. 0) rows"
      using Cons.prems(1) by (intro sum_where_cong) auto
    moreover have "sum_where P (\<lambda>_. 0) rows = 0" by (induction rows) auto
    ultimately show ?thesis using True Cons.prems(2) by simp
  next
    case False
    with Cons show ?thesis by simp
  qed
qed simp

lemma sum_amounts_by_asset:
  assumes "distinct (map acc_id (accounts led))" and "\<And>k. k \<in> fst ` set ms \<Longrightarrow> lookup acc_id k (accounts led) \<noteq> None"
  shows "sum_where (\<lambda>row. acc_asset row = a) (\<lambda>row. amount_of ms (acc_id row)) (accounts led) = asset_total led ms a"
  using assms(2)
proof (induction ms)
  case Nil
  have "sum_where (\<lambda>row. acc_asset row = a) (\<lambda>row. 0) rows = 0" for rows by (induction rows) auto
  then show ?case by (simp add: asset_total_def)
next
  case (Cons m ms)
  then obtain row where row: "lookup acc_id (fst m) (accounts led) = Some row" by force
  then have "asset_of led (fst m) = acc_asset row" by (simp add: asset_of_def)
  with Cons sum_where_at [OF assms(1) row, of "\<lambda>row. acc_asset row = a" "snd m"]
  show ?case by (simp add: sum_where_add asset_total_def case_prod_beta)
qed

text \<open>A fresh posting keeps the invariant, part by part.\<close>

lemma fresh_post_ok:
  assumes ok: "ledger_ok led" and i: "lookup jr_id i (journals led) = None"
    and ek: "lookup jr_event_key (jr_event_key j) (journals led) = None" and j: "jr_id j = i"
    and known: "\<And>k. k \<in> fst ` set ms \<Longrightarrow> lookup acc_id k (accounts led) \<noteq> None"
    and solvent: "\<And>k row. lookup acc_id k (accounts led) = Some row \<Longrightarrow> acc_kind row \<noteq> KExternal \<Longrightarrow>
      0 \<le> acc_balance row + amount_of ms k"
    and balanced: "\<And>a. asset_total led ms a = 0"
    and nonzero: "\<And>k v. (k, v) \<in> set ms \<Longrightarrow> v \<noteq> 0"
  shows "ledger_ok (fold (insert_entry i) ms (led\<lparr>journals := journals led @ [j]\<rparr>))" (is "ledger_ok ?led'")
proof -
  let ?mk = "\<lambda>(k, v). \<lparr>en_journal = i, en_account = k, en_asset = asset_of led k, en_amount = v\<rparr>"
  let ?up = "\<lambda>a. a\<lparr>acc_balance := acc_balance a + amount_of ms (acc_id a)\<rparr>"
  have as: "asset_of (led\<lparr>journals := journals led @ [j]\<rparr>) = asset_of led"
    by (rule ext) (simp add: asset_of_def)
  have es: "entries ?led' = entries led @ map ?mk ms"
    by (simp add: fold_insert_entries as)
  have acs: "accounts ?led' = map ?up (accounts led)"
    by (simp add: fold_insert_accounts)
  have js: "journals ?led' = journals led @ [j]" by simp
  have old: "\<forall>e \<in> set (entries led). en_journal e \<noteq> i"
    using ok i by (auto simp: ledger_ok_def entries_ok_def lookup_None_iff)
  have dist: "distinct (map acc_id (accounts led))" using ok by (simp add: ledger_ok_def)
  have "entries_ok ?led'"
    using ok known nonzero unfolding entries_ok_def es acs js ledger_ok_def
    by (fastforce simp: lookup_map_same_key asset_of_def j)
  moreover have "balances_ok ?led'"
    unfolding balances_ok_def es acs
  proof
    fix a assume "a \<in> set (map ?up (accounts led))"
    then obtain b where b: "b \<in> set (accounts led)" "a = ?up b" by auto
    have "sum_where (\<lambda>e. en_account e = acc_id b) en_amount (map ?mk ms) = amount_of ms (acc_id b)"
      by (simp add: sum_where_map amount_of_def case_prod_beta)
    moreover have "lookup acc_id (acc_id b) (accounts led) = Some b"
      using lookup_Some_iff [OF dist] b(1) by blast
    moreover from solvent [OF this] have "acc_kind b \<noteq> KExternal \<Longrightarrow> 0 \<le> acc_balance b + amount_of ms (acc_id b)" .
    ultimately show "acc_balance a = sum_where (\<lambda>e. en_account e = acc_id a) en_amount (entries led @ map ?mk ms) \<and>
        (acc_kind a \<noteq> KExternal \<longrightarrow> 0 \<le> acc_balance a)"
      using ok b by (auto simp: ledger_ok_def balances_ok_def sum_where_append)
  qed
  moreover have "journals_ok ?led'"
    unfolding journals_ok_def es js
  proof (intro ballI allI)
    fix row a assume row: "row \<in> set (journals led @ [j])"
    show "sum_where (\<lambda>e. en_journal e = jr_id row \<and> en_asset e = a) en_amount (entries led @ map ?mk ms) = 0"
    proof (cases "jr_id row = i")
      case True
      then have "sum_where (\<lambda>e. en_journal e = jr_id row \<and> en_asset e = a) en_amount (entries led) = 0"
        using old by (intro sum_where_none) auto
      moreover have "sum_where (\<lambda>e. en_journal e = jr_id row \<and> en_asset e = a) en_amount (map ?mk ms) = asset_total led ms a"
        using True by (simp add: sum_where_map asset_total_def case_prod_beta)
      ultimately show ?thesis using balanced by (simp add: sum_where_append)
    next
      case False
      with row j have "row \<in> set (journals led)" by auto
      then have "sum_where (\<lambda>e. en_journal e = jr_id row \<and> en_asset e = a) en_amount (entries led) = 0"
        using ok by (simp add: ledger_ok_def journals_ok_def)
      moreover have "sum_where (\<lambda>e. en_journal e = jr_id row \<and> en_asset e = a) en_amount (map ?mk ms) = 0"
        using False by (intro sum_where_none) auto
      ultimately show ?thesis by (simp add: sum_where_append)
    qed
  qed
  moreover have "\<forall>a. asset_balance ?led' a = 0"
    using ok sum_amounts_by_asset [OF dist known] balanced
    by (simp add: asset_balance_def acs sum_where_map sum_where_add ledger_ok_def)
  ultimately show ?thesis
    using ok i ek j dist by (auto simp: ledger_ok_def acs js lookup_None_iff comp_def)
qed

lemma overdrawn_None:
  assumes "overdrawn led ms = None" and "distinct (map fst ms)"
    and "lookup acc_id k (accounts led) = Some row" and "acc_kind row \<noteq> KExternal" and "0 \<le> acc_balance row"
  shows "0 \<le> acc_balance row + amount_of ms k"
proof (cases "map_of ms k")
  case None
  with assms show ?thesis by (simp add: amount_of_map_of)
next
  case (Some v)
  then have "(k, v) \<in> set ms" by (rule map_of_SomeD)
  with assms(1,3,4) have "\<not> acc_balance row + v < 0"
    by (fastforce simp: overdrawn_def find_None_iff)
  with Some assms(2) show ?thesis by (simp add: amount_of_map_of)
qed

lemma ledger_ok_post:
  assumes ok: "ledger_ok led" and run: "post env i ek kind mv det rv led = Inr (j, led')"
  shows "ledger_ok led'"
  using run
proof (cases rule: post_cases)
  case (replay row)
  with ok show ?thesis by simp
next
  case fresh
  show ?thesis unfolding fresh(8)
  proof (rule fresh_post_ok [OF ok fresh(3)])
    show "lookup jr_event_key (jr_event_key (new_journal env i ek kind mv det rv)) (journals led) = None"
      using fresh(2) by (simp add: new_journal_def)
    show "jr_id (new_journal env i ek kind mv det rv) = i" by (simp add: new_journal_def)
    show "lookup acc_id k (accounts led) \<noteq> None" if "k \<in> fst ` set (sort_key fst (net_amounts mv))" for k
      using fresh(5) that by simp
    show "0 \<le> acc_balance row + amount_of (sort_key fst (net_amounts mv)) k"
      if "lookup acc_id k (accounts led) = Some row" "acc_kind row \<noteq> KExternal" for k row
    proof -
      from lookup_SomeD [OF that(1)] ok that(2) have "0 \<le> acc_balance row"
        by (auto simp: ledger_ok_def balances_ok_def)
      from overdrawn_None [OF fresh(6) distinct_net_amounts that this] show ?thesis by simp
    qed
    show "asset_total led (sort_key fst (net_amounts mv)) a = 0" for a using fresh(7) by simp
    show "v \<noteq> 0" if "(k, v) \<in> set (sort_key fst (net_amounts mv))" for k v
      using net_amounts_nonzero that by simp
  qed
qed

lemma ledger_ok_reverse:
  "ledger_ok led \<Longrightarrow> reverse_journal env i old ek actor reason led = Inr (j, led') \<Longrightarrow> ledger_ok led'"
  by (auto simp: reverse_journal_def outcome Let_def dest: ledger_ok_post)

lemma ledger_ok_audit: "ledger_ok led \<Longrightarrow> audit led = []"
  by (auto simp: ledger_ok_def balances_ok_def audit_def filter_empty_conv)

lemma ledger_ok_balance_nonneg:
  "ledger_ok led \<Longrightarrow> lookup acc_id k (accounts led) = Some row \<Longrightarrow> acc_kind row \<noteq> KExternal \<Longrightarrow> 0 \<le> balance led k"
  by (auto simp: ledger_ok_def balances_ok_def balance_def dest: lookup_SomeD)

text \<open>The custody and protocol funds of an asset are what came in from the outside accounts.\<close>

lemma sum_where_split:
  "sum_where P f rows = sum_where (\<lambda>r. P r \<and> Q r) f rows + sum_where (\<lambda>r. P r \<and> \<not> Q r) f rows"
  by (induction rows) auto

lemma ledger_ok_backing:
  assumes "ledger_ok led"
  shows "backing led a Custody + backing led a Protocol =
    - sum_where (\<lambda>row. acc_asset row = a \<and> acc_kind row = KExternal) acc_balance (accounts led)"
proof -
  let ?A = "accounts led"
  have "0 = sum_where (\<lambda>row. acc_asset row = a) acc_balance ?A"
    using assms by (simp add: ledger_ok_def asset_balance_def)
  also have "\<dots> = sum_where (\<lambda>row. acc_asset row = a \<and> acc_kind row = KExternal) acc_balance ?A +
      sum_where (\<lambda>row. acc_asset row = a \<and> acc_kind row \<noteq> KExternal) acc_balance ?A"
    by (rule sum_where_split)
  also have "sum_where (\<lambda>row. acc_asset row = a \<and> acc_kind row \<noteq> KExternal) acc_balance ?A =
      backing led a Custody + backing led a Protocol"
    unfolding backing_def
    by (subst sum_where_split [where Q = "\<lambda>row. acc_location row = Custody"])
      (auto intro!: arg_cong2 [of _ _ _ _ "(+)"] sum_where_cong intro: location.exhaust)
  finally show ?thesis by simp
qed

section \<open>The journal as a service\<close>

text \<open>A chain of submissions, each on the state the previous one left, stopping at the first error.\<close>

fun submit_all :: "('p \<Rightarrow> 's \<Rightarrow> 'e + 'j \<times> 's) \<Rightarrow> 'p list \<Rightarrow> 's \<Rightarrow> 'e + 's" where
  "submit_all f [] s = Inr s"
| "submit_all f (p # ps) s = (case f p s of Inl e \<Rightarrow> Inl e | Inr (_, s') \<Rightarrow> submit_all f ps s')"

lemma submit_all_Cons_Inr:
  "submit_all f (p # ps) s = Inr s' \<longleftrightarrow> (\<exists>j t. f p s = Inr (j, t) \<and> submit_all f ps t = Inr s')"
  by (auto split: sum.splits)

text \<open>
  What a client of the ledger may rely on: a posting carries a key and movements; the first
  one under a key moves the summed amounts and nothing else, marks the key, and every later
  success under that key changes nothing; postings keep the service's invariant.
\<close>

locale journal_service =
  fixes submit :: "'p \<Rightarrow> 's \<Rightarrow> 'e + 'j \<times> 's"
    and key :: "'p \<Rightarrow> string"
    and moves :: "'p \<Rightarrow> movement list"
    and held :: "'s \<Rightarrow> string \<Rightarrow> int"
    and used :: "'s \<Rightarrow> string \<Rightarrow> bool"
    and ok :: "'s \<Rightarrow> bool"
  assumes keeps_ok: "ok s \<Longrightarrow> submit p s = Inr (j, s') \<Longrightarrow> ok s'"
    and moves_once: "\<not> used s (key p) \<Longrightarrow> submit p s = Inr (j, s') \<Longrightarrow> held s' x = held s x + amount_of (moves p) x"
    and replay_changes_nothing: "used s (key p) \<Longrightarrow> submit p s = Inr (j, s') \<Longrightarrow> s' = s"
    and marks: "submit p s = Inr (j, s') \<Longrightarrow> used s' k \<longleftrightarrow> used s k \<or> k = key p"
begin

text \<open>A retry of a submission, under whatever fresh identifiers, never moves funds again.\<close>

lemma retry:
  "submit p s = Inr (j, s') \<Longrightarrow> key q = key p \<Longrightarrow> submit q s' = Inr (j', s'') \<Longrightarrow> s'' = s'"
  by (rule replay_changes_nothing) (simp_all add: marks)

text \<open>Holding funds and releasing them under another key restores every balance.\<close>

lemma hold_release:
  assumes "submit p s = Inr (j, s')" and "submit q s' = Inr (j', s'')"
    and "\<not> used s (key p)" and "\<not> used s (key q)" and "key p \<noteq> key q"
    and "\<And>x. amount_of (moves q) x = - amount_of (moves p) x"
  shows "held s'' x = held s x"
proof -
  have "\<not> used s' (key q)" using assms(1,4,5) by (simp add: marks)
  from moves_once [OF this assms(2)] moves_once [OF assms(3,1)] assms(6) show ?thesis by simp
qed

text \<open>A chain of submissions under distinct, unused keys moves the sum of all its movements.\<close>

lemma submit_all_held:
  assumes "submit_all submit ps s = Inr s'" and "distinct (map key ps)"
    and "\<forall>p\<in>set ps. \<not> used s (key p)"
  shows "held s' x = held s x + sum_list (map (\<lambda>p. amount_of (moves p) x) ps)"
  using assms
proof (induction ps arbitrary: s)
  case (Cons p ps)
  obtain j t where t: "submit p s = Inr (j, t)" and rest: "submit_all submit ps t = Inr s'"
    using Cons.prems(1) unfolding submit_all_Cons_Inr by blast
  have "\<forall>q\<in>set ps. \<not> used t (key q)"
    using Cons.prems(2,3) by (auto simp: marks [OF t] image_iff)
  then have "held s' x = held t x + sum_list (map (\<lambda>p. amount_of (moves p) x) ps)"
    using Cons.IH [OF rest] Cons.prems(2) by simp
  moreover have "held t x = held s x + amount_of (moves p) x"
    using Cons.prems(3) by (intro moves_once [OF _ t]) simp
  ultimately show ?case by simp
qed simp

lemma submit_all_ok: "submit_all submit ps s = Inr s' \<Longrightarrow> ok s \<Longrightarrow> ok s'"
proof (induction ps arbitrary: s)
  case (Cons p ps)
  then obtain j t where "submit p s = Inr (j, t)" and "submit_all submit ps t = Inr s'"
    unfolding submit_all_Cons_Inr by blast
  with Cons show ?case using keeps_ok by blast
qed simp

end

text \<open>A posting as one value: the environment, the fresh identifier and the arguments of \<open>post\<close>.\<close>

record posting =
  po_env :: env
  po_new_id :: string
  po_event_key :: string
  po_kind :: string
  po_movements :: "movement list"
  po_details :: json
  po_reverses :: "string option"

definition post_posting :: "posting \<Rightarrow> ledger_state \<Rightarrow> (string \<times> ledger_state) result" where
  "post_posting p = post (po_env p) (po_new_id p) (po_event_key p) (po_kind p) (po_movements p) (po_details p) (po_reverses p)"

definition recorded :: "ledger_state \<Rightarrow> string \<Rightarrow> bool" where
  "recorded led ek \<longleftrightarrow> lookup jr_event_key ek (journals led) \<noteq> None"

lemma post_recorded:
  assumes "post env i ek kind mv det rv led = Inr (j, led')"
  shows "recorded led' k \<longleftrightarrow> recorded led k \<or> k = ek"
  using assms
proof (cases rule: post_cases)
  case fresh
  then show ?thesis
    by (auto simp: recorded_def lookup_append new_journal_def split: option.splits)
next
  case (replay row)
  then show ?thesis by (auto simp: recorded_def)
qed

lemma post_replay:
  "recorded led ek \<Longrightarrow> post env i ek kind mv det rv led = Inr (j, led') \<Longrightarrow> led' = led"
  by (auto simp: recorded_def elim: post_cases)

interpretation journal: journal_service post_posting po_event_key po_movements balance recorded ledger_ok
proof unfold_locales
  fix s s' :: ledger_state and p j x k
  show "ledger_ok s \<Longrightarrow> post_posting p s = Inr (j, s') \<Longrightarrow> ledger_ok s'"
    unfolding post_posting_def by (rule ledger_ok_post)
  show "\<not> recorded s (po_event_key p) \<Longrightarrow> post_posting p s = Inr (j, s') \<Longrightarrow>
      balance s' x = balance s x + amount_of (po_movements p) x"
    unfolding post_posting_def recorded_def by (rule post_balance) auto
  show "recorded s (po_event_key p) \<Longrightarrow> post_posting p s = Inr (j, s') \<Longrightarrow> s' = s"
    unfolding post_posting_def by (rule post_replay)
  show "post_posting p s = Inr (j, s') \<Longrightarrow> recorded s' k \<longleftrightarrow> recorded s k \<or> k = po_event_key p"
    unfolding post_posting_def by (rule post_recorded)
qed

section \<open>Histories of the ledger\<close>

text \<open>Everything the rest of the pool may do to the ledger's tables, and the states it can reach.\<close>

inductive ledger_step :: "ledger_state \<Rightarrow> ledger_state \<Rightarrow> bool" where
  account_step: "account k kind a loc led = Inr (j, led') \<Longrightarrow> ledger_step led led'"
| post_step: "post env i ek kind mv det rv led = Inr (j, led') \<Longrightarrow> ledger_step led led'"
| reverse_step: "reverse_journal env i old ek actor reason led = Inr (j, led') \<Longrightarrow> ledger_step led led'"

inductive ledger_reachable :: "ledger_state \<Rightarrow> bool" where
  initially: "ledger_reachable empty_ledger"
| later: "ledger_reachable led \<Longrightarrow> ledger_step led led' \<Longrightarrow> ledger_reachable led'"

inductive_cases ledger_stepE: "ledger_step led led'"

lemma ledger_ok_step: "ledger_step led led' \<Longrightarrow> ledger_ok led \<Longrightarrow> ledger_ok led'"
  by (elim ledger_stepE) (auto intro: ledger_ok_account ledger_ok_post ledger_ok_reverse)

lemma reachable_ledger_ok: "ledger_reachable led \<Longrightarrow> ledger_ok led"
  by (induction rule: ledger_reachable.induct) (auto intro: ledger_ok_step)

text \<open>
  C6. In every state the ledger can reach from empty tables, the audit finds nothing, no
  account of the pool is overdrawn, the balances of each asset add up to zero, and what is in
  custody and in the protocol is exactly what the outside accounts paid in.
\<close>

theorem ledger_always_sound:
  assumes "ledger_reachable led"
  shows "audit led = [] \<and>
    (\<forall>k row. lookup acc_id k (accounts led) = Some row \<and> acc_kind row \<noteq> KExternal \<longrightarrow> 0 \<le> balance led k) \<and>
    backing led a Custody + backing led a Protocol =
      - sum_where (\<lambda>row. acc_asset row = a \<and> acc_kind row = KExternal) acc_balance (accounts led)"
  using reachable_ledger_ok [OF assms] ledger_ok_audit ledger_ok_balance_nonneg ledger_ok_backing by blast

text \<open>A ledger with an outside account and a member's, and a deposit of five units.\<close>

definition demo_env :: env where
  "demo_env = \<lparr>sha256 = (\<lambda>s. s), clock = 0, isoformat = (\<lambda>t. int_text t),
     fromisoformat = (\<lambda>s. Some (int (text_value s), True))\<rparr>"

definition demo_ledger :: ledger_state where
  "demo_ledger = \<lparr>accounts =
     [\<lparr>acc_id = ''external'', acc_kind = KExternal, acc_asset = AssetTIG, acc_location = Custody, acc_balance = 0\<rparr>,
      \<lparr>acc_id = ''member:a'', acc_kind = KMember, acc_asset = AssetTIG, acc_location = Custody, acc_balance = 0\<rparr>],
     journals = [], entries = []\<rparr>"

definition demo_deposit :: "string \<Rightarrow> string \<Rightarrow> int \<Rightarrow> ledger_state \<Rightarrow> (string \<times> ledger_state) result" where
  "demo_deposit i ek n = post demo_env i ek ''deposit'' [(''external'', - n), (''member:a'', n)] (JDict []) None"

definition demo_after :: ledger_state where
  "demo_after = (case demo_deposit ''j1'' ''k1'' 5 demo_ledger of Inl _ \<Rightarrow> empty_ledger | Inr (_, led) \<Rightarrow> led)"

lemma demo_run: "demo_deposit ''j1'' ''k1'' 5 demo_ledger = Inr (''j1'', demo_after)"
  by code_simp

lemma demo_reachable: "ledger_reachable demo_ledger"
proof -
  have "account ''external'' KExternal AssetTIG Custody empty_ledger =
      Inr (''external'', demo_ledger\<lparr>accounts := [hd (accounts demo_ledger)]\<rparr>)"
    by code_simp
  moreover have "account ''member:a'' KMember AssetTIG Custody (demo_ledger\<lparr>accounts := [hd (accounts demo_ledger)]\<rparr>) =
      Inr (''member:a'', demo_ledger)"
    by code_simp
  ultimately show ?thesis
    by (blast intro: ledger_reachable.intros account_step)
qed

lemma demo_ok: "ledger_ok demo_ledger"
  by (rule reachable_ledger_ok) (rule demo_reachable)

theorem ledger_always_sound_witness:
  "ledger_reachable demo_after \<and> balance demo_after ''member:a'' = 5 \<and> audit demo_after = []"
proof -
  have "ledger_reachable demo_after"
    using demo_run unfolding demo_deposit_def
    by (blast intro: later demo_reachable post_step)
  moreover have "balance demo_after ''member:a'' = 5" by code_simp
  ultimately show ?thesis using ledger_always_sound [of demo_after] by blast
qed

section \<open>What one posting does\<close>

text \<open>
  A posting under a key not used before changes each account by the total of its movements,
  adds one journal and its entries to the end of their tables, and touches no earlier row.
\<close>

theorem post_moves_exactly:
  assumes "post env i ek kind mv det rv led = Inr (j, led')" and "\<not> recorded led ek"
  shows "balance led' k = balance led k + amount_of mv k \<and>
    j = i \<and> journals led' = journals led @ [new_journal env i ek kind mv det rv] \<and>
    entries led' = entries led @ map (\<lambda>(k, v). \<lparr>en_journal = i, en_account = k, en_asset = asset_of led k, en_amount = v\<rparr>)
      (sort_key fst (net_amounts mv))"
proof -
  have none: "lookup jr_event_key ek (journals led) = None" using assms(2) by (simp add: recorded_def)
  have as: "asset_of (led\<lparr>journals := js\<rparr>) = asset_of led" for js by (rule ext) (simp add: asset_of_def)
  from assms(1) show ?thesis
    by (cases rule: post_cases) (use none post_balance [OF assms(1) none] in \<open>auto simp: fold_insert_entries as\<close>)
qed

theorem post_moves_exactly_witness:
  "demo_deposit ''j1'' ''k1'' 5 demo_ledger = Inr (''j1'', demo_after) \<and> balance demo_after ''external'' = 0 + - 5"
proof -
  have "\<not> recorded demo_ledger ''k1''" by code_simp
  moreover have "balance demo_ledger ''external'' = 0" by code_simp
  ultimately show ?thesis
    using demo_run post_moves_exactly [OF demo_run [unfolded demo_deposit_def], of "''external''"]
    by simp
qed

text \<open>The digest of a journal does not depend on how the movements were grouped or ordered.\<close>

lemma net_amounts_same:
  assumes "\<And>k. amount_of mv k = amount_of mw k"
  shows "mset (net_amounts mv) = mset (net_amounts mw)"
proof -
  have map: "map_of (net_amounts xs) k = (if amount_of xs k = 0 then None else Some (amount_of xs k))" for xs k
  proof -
    have "amount_of xs k = (case map_of (net_amounts xs) k of None \<Rightarrow> 0 | Some v \<Rightarrow> v)"
      by (metis amount_of_map_of amount_of_net_amounts distinct_net_amounts)
    then show ?thesis by (auto split: option.splits dest: map_of_SomeD net_amounts_nonzero)
  qed
  have "set (net_amounts mv) = set (net_amounts mw)"
    by (metis assms distinct_net_amounts map map_of_eqI map_of_inject_set ext)
  then show ?thesis
    by (metis distinct_net_amounts distinct_map set_eq_iff_mset_eq_distinct)
qed

lemma journal_digest_same:
  assumes "\<And>k. amount_of mv k = amount_of mw k"
  shows "journal_digest env kind (net_amounts mv) det rv = journal_digest env kind (net_amounts mw) det rv"
proof -
  let ?f = "\<lambda>(k :: string, v). (k, JInt v)"
  have "mset (map ?f (net_amounts mv)) = mset (map ?f (net_amounts mw))"
    using net_amounts_same [OF assms] by (metis mset_map)
  moreover have "distinct (map fst (map ?f (net_amounts mv)))"
    using distinct_net_amounts [of mv] by (simp add: comp_def case_prod_beta)
  ultimately have "canonical (JDict (map ?f (net_amounts mv))) = canonical (JDict (map ?f (net_amounts mw)))"
    by (rule canonical_dict_perm)
  then show ?thesis by (simp add: journal_digest_def fingerprint_def)
qed

lemma post_again:
  assumes "post env i ek kind mv det rv led = Inr (j, led')" and "\<And>k. amount_of mw k = amount_of mv k"
  shows "post env i' ek kind mw det rv led' = Inr (j, led')" and
    "kind' \<noteq> [] \<Longrightarrow> net_amounts mv' \<noteq> [] \<Longrightarrow>
     journal_digest env kind' (net_amounts mv') det' rv' \<noteq> journal_digest env kind (net_amounts mv) det rv \<Longrightarrow>
     post env i' ek kind' mv' det' rv' led' = Inl (Conflict ''journal event key was reused with different inputs'')"
proof -
  have given: "ek \<noteq> []" "kind \<noteq> []" "net_amounts mv \<noteq> []"
    using assms(1) unfolding post_Inr_iff by auto
  have "\<exists>row. lookup jr_event_key ek (journals led') = Some row \<and> jr_id row = j \<and>
      jr_fingerprint row = journal_digest env kind (net_amounts mv) det rv"
    using assms(1) by (cases rule: post_cases) (auto simp: lookup_append new_journal_def)
  then obtain row where row: "lookup jr_event_key ek (journals led') = Some row" "jr_id row = j"
      "jr_fingerprint row = journal_digest env kind (net_amounts mv) det rv" by blast
  have "net_amounts mw \<noteq> []"
    using net_amounts_same [of mw mv] assms(2) given(3) by auto
  moreover have "journal_digest env kind (net_amounts mw) det rv = journal_digest env kind (net_amounts mv) det rv"
    by (rule journal_digest_same) (rule assms(2))
  ultimately show "post env i' ek kind mw det rv led' = Inr (j, led')"
    by (simp add: post_def Let_def row given)
  show "kind' \<noteq> [] \<Longrightarrow> net_amounts mv' \<noteq> [] \<Longrightarrow>
     journal_digest env kind' (net_amounts mv') det' rv' \<noteq> journal_digest env kind (net_amounts mv) det rv \<Longrightarrow>
     post env i' ek kind' mv' det' rv' led' = Inl (Conflict ''journal event key was reused with different inputs'')"
    by (simp add: post_def Let_def row given)
qed

text \<open>
  C7. Submitting the same event again, with its movements grouped or ordered in any way and
  under whatever fresh identifier, returns the recorded journal and changes nothing; and any
  different posting under that key is refused.
\<close>

theorem post_idempotent:
  assumes "post env i ek kind mv det rv led = Inr (j, led')" and "\<And>k. amount_of mw k = amount_of mv k"
  shows "post env i' ek kind mw det rv led' = Inr (j, led') \<and>
    (kind' \<noteq> [] \<longrightarrow> net_amounts mv' \<noteq> [] \<longrightarrow>
     journal_digest env kind' (net_amounts mv') det' rv' \<noteq> journal_digest env kind (net_amounts mv) det rv \<longrightarrow>
     post env i' ek kind' mv' det' rv' led' = Inl (Conflict ''journal event key was reused with different inputs''))"
  using post_again [OF assms(1)] assms(2) by blast

theorem post_idempotent_witness:
  "post demo_env ''j2'' ''k1'' ''deposit'' [(''member:a'', 2), (''external'', -5), (''member:a'', 3)] (JDict []) None demo_after =
    Inr (''j1'', demo_after)"
  using post_idempotent [OF demo_run [unfolded demo_deposit_def], of "[(''member:a'', 2), (''external'', -5), (''member:a'', 3)]" "''j2''"]
  by simp

text \<open>
  Between known accounts and under a fresh key, a balanced posting of something succeeds
  exactly when no account of the pool ends below zero; otherwise it is refused as
  insufficient funds. Outside accounts may go negative.
\<close>

theorem post_solvency:
  assumes "ek \<noteq> []" and "kind \<noteq> []" and "\<not> recorded led ek" and "lookup jr_id i (journals led) = None"
    and "ledger_ok led" and "\<forall>k. amount_of mv k \<noteq> 0 \<longrightarrow> lookup acc_id k (accounts led) \<noteq> None"
    and "\<exists>k. amount_of mv k \<noteq> 0" and "\<forall>a. asset_total led (net_amounts mv) a = 0"
  shows "if \<forall>k row. lookup acc_id k (accounts led) = Some row \<longrightarrow> acc_kind row \<noteq> KExternal \<longrightarrow> 0 \<le> balance led k + amount_of mv k
    then \<exists>led'. post env i ek kind mv det None led = Inr (i, led')
    else \<exists>m. post env i ek kind mv det None led = Inl (InsufficientFunds m)"
proof -
  have ne: "net_amounts mv \<noteq> []" using assms(7) net_amounts_keys [of _ mv] by force
  have known: "\<forall>k \<in> set (map fst (net_amounts mv)). lookup acc_id k (accounts led) \<noteq> None"
    using assms(6) net_amounts_keys by auto
  have amount: "amount_of mv k = (case map_of (net_amounts mv) k of None \<Rightarrow> 0 | Some v \<Rightarrow> v)" for k
    by (metis amount_of_map_of amount_of_net_amounts distinct_net_amounts)
  have solvent: "overdrawn led (net_amounts mv) = None \<longleftrightarrow>
      (\<forall>k row. lookup acc_id k (accounts led) = Some row \<longrightarrow> acc_kind row \<noteq> KExternal \<longrightarrow> 0 \<le> balance led k + amount_of mv k)"
    (is "?L = ?R")
  proof
    assume L: ?L
    show ?R
    proof (intro allI impI)
      fix k row assume row: "lookup acc_id k (accounts led) = Some row" "acc_kind row \<noteq> KExternal"
      then have "0 \<le> acc_balance row"
        using assms(5) lookup_SomeD [OF row(1)] by (auto simp: ledger_ok_def balances_ok_def)
      from overdrawn_None [OF L distinct_net_amounts row this] row(1)
      show "0 \<le> balance led k + amount_of mv k" by (simp add: balance_def)
    qed
  next
    assume R: ?R
    have "\<not> (acc_kind row \<noteq> KExternal \<and> acc_balance row + v < 0)"
      if "(k, v) \<in> set (net_amounts mv)" "lookup acc_id k (accounts led) = Some row" for k v row
    proof -
      have "amount_of mv k = v" using that(1) by (simp add: amount)
      moreover have "balance led k = acc_balance row" using that(2) by (simp add: balance_def)
      ultimately show ?thesis using R that(2) by fastforce
    qed
    then show ?L by (auto simp: overdrawn_def find_None_iff split: option.splits)
  qed
  show ?thesis
  proof (cases "overdrawn led (net_amounts mv)")
    case None
    then have "\<exists>led'. post env i ek kind mv det None led = Inr (i, led')"
      using assms(1-4,8) known ne by (auto simp: post_def Let_def recorded_def)
    with None show ?thesis unfolding solvent [symmetric] by simp
  next
    case (Some p)
    then have "\<exists>m. post env i ek kind mv det None led = Inl (InsufficientFunds m)"
      using assms(1-3) known ne by (cases p) (auto simp: post_def Let_def recorded_def)
    with Some show ?thesis unfolding solvent [symmetric] by simp
  qed
qed

theorem post_solvency_witness:
  "\<exists>m. post demo_env ''j1'' ''k1'' ''transfer'' [(''external'', 1), (''member:a'', -1)] (JDict []) None demo_ledger = Inl (InsufficientFunds m)"
proof -
  have "\<not> recorded demo_ledger ''k1'' \<and> lookup jr_id ''j1'' (journals demo_ledger) = None" by code_simp
  moreover have "net_amounts [(''external'', 1), (''member:a'', -1)] = [(''external'', 1), (''member:a'', -1)]" by code_simp
  moreover have "\<forall>a. asset_total demo_ledger [(''external'', 1), (''member:a'', -1)] a = 0" by code_simp
  moreover have "lookup acc_id ''member:a'' (accounts demo_ledger) = Some (accounts demo_ledger ! 1) \<and>
      acc_kind (accounts demo_ledger ! 1) \<noteq> KExternal \<and> balance demo_ledger ''member:a'' = 0 \<and>
      lookup acc_id ''external'' (accounts demo_ledger) \<noteq> None" by code_simp
  moreover have amount: "amount_of [(''external'', 1), (''member:a'', -1)] k =
      (if k = ''external'' then 1 else if k = ''member:a'' then -1 else 0)" for k
    by simp
  moreover have "\<exists>k. amount_of [(''external'', 1), (''member:a'', -1)] k \<noteq> 0"
    unfolding amount by auto
  moreover have "\<not> (\<forall>k row. lookup acc_id k (accounts demo_ledger) = Some row \<longrightarrow> acc_kind row \<noteq> KExternal \<longrightarrow>
      0 \<le> balance demo_ledger k + amount_of [(''external'', 1), (''member:a'', -1)] k)"
  proof
    assume "\<forall>k row. lookup acc_id k (accounts demo_ledger) = Some row \<longrightarrow> acc_kind row \<noteq> KExternal \<longrightarrow>
      0 \<le> balance demo_ledger k + amount_of [(''external'', 1), (''member:a'', -1)] k"
    then have "0 \<le> balance demo_ledger ''member:a'' + amount_of [(''external'', 1), (''member:a'', -1)] ''member:a''"
      using calculation by blast
    then show False using calculation by simp
  qed
  ultimately show ?thesis
    using post_solvency [of "''k1''" "''transfer''" demo_ledger "''j1''" "[(''external'', 1), (''member:a'', -1)]" demo_env "JDict []"] demo_ok
    by (simp del: amount_of_simps split: if_splits)
qed

lemma reverse_movements:
  assumes "ledger_ok led" and "post env i ek kind mv det rv led = Inr (i, led')" and "\<not> recorded led ek"
  shows "amount_of (map (\<lambda>e. (en_account e, - en_amount e)) (filter (\<lambda>e. en_journal e = i) (entries led'))) k = - amount_of mv k"
    (is "amount_of (?f led') k = _")
proof -
  have "lookup jr_id i (journals led) = None"
    using assms(2,3) by (cases rule: post_cases) (auto simp: recorded_def)
  then have "filter (\<lambda>e. en_journal e = i) (entries led) = []"
    using assms(1) by (auto simp: filter_empty_conv ledger_ok_def entries_ok_def lookup_None_iff)
  moreover have "amount_of (map (\<lambda>m. (fst m, - snd m)) ms) k = - amount_of ms k" for ms :: "movement list"
    by (induction ms) auto
  moreover have "entries led' = entries led @ map (\<lambda>(k, v). \<lparr>en_journal = i, en_account = k, en_asset = asset_of led k, en_amount = v\<rparr>)
      (sort_key fst (net_amounts mv))"
    using assms(2,3) unfolding recorded_def
    by (cases rule: post_cases) (auto simp: fold_insert_entries asset_of_def cong: map_cong)
  ultimately show ?thesis by (simp add: comp_def case_prod_beta filter_map)
qed

text \<open>
  C27. A correction undoes a posting: after reversing a fresh journal every balance is what it
  was before the journal, and no second correction of it, under any other key, is accepted.
\<close>

theorem reverse_undoes:
  assumes "ledger_ok led" and "post env i ek kind mv det rv led = Inr (i, led')" and "\<not> recorded led ek"
    and "reverse_journal env r i rk actor reason led' = Inr (j, led'')" and "\<not> recorded led' rk"
  shows "balance led'' k = balance led k \<and>
    (\<not> recorded led'' rk' \<longrightarrow> (\<exists>e. reverse_journal env' r' i rk' actor' reason' led'' = Inl e))"
proof -
  let ?f = "\<lambda>led. map (\<lambda>e. (en_account e, - en_amount e)) (filter (\<lambda>e. en_journal e = i) (entries led))"
  let ?d = "JDict [(''actor'', JStr actor), (''reason'', JStr reason)]"
  have run: "post env r rk ''correction'' (?f led') ?d (Some i) led' = Inr (j, led'')"
    using assms(4) by (simp add: reverse_journal_def Let_def split: if_splits)
  have none: "lookup jr_event_key ek (journals led) = None" "lookup jr_event_key rk (journals led') = None"
    using assms(3,5) by (simp_all add: recorded_def)
  have "balance led'' k = balance led k"
    using post_balance [OF run none(2)] post_balance [OF assms(2) none(1)] reverse_movements [OF assms(1-3)]
    by simp
  moreover have "\<exists>row \<in> set (journals led''). jr_reverses row = Some i"
    using run by (cases rule: post_cases) (use none in \<open>auto simp: new_journal_def\<close>)
  then have "lookup jr_reverses (Some i) (journals led'') \<noteq> None"
    unfolding lookup_None_iff by force
  then have "\<exists>e. post env' r' rk' ''correction'' mw det' (Some i) led'' = Inl e" if "\<not> recorded led'' rk'" for mw det'
    using that by (auto simp: post_def Let_def recorded_def)
  then have "\<not> recorded led'' rk' \<longrightarrow> (\<exists>e. reverse_journal env' r' i rk' actor' reason' led'' = Inl e)"
    by (simp add: reverse_journal_def Let_def)
  ultimately show ?thesis by blast
qed

theorem reverse_undoes_witness:
  "\<exists>led''. reverse_journal demo_env ''j2'' ''j1'' ''k2'' ''ops'' ''mistake'' demo_after = Inr (''j2'', led'') \<and>
    balance led'' ''member:a'' = balance demo_ledger ''member:a''"
proof -
  let ?led'' = "case reverse_journal demo_env ''j2'' ''j1'' ''k2'' ''ops'' ''mistake'' demo_after of Inl _ \<Rightarrow> empty_ledger | Inr r \<Rightarrow> snd r"
  have run: "reverse_journal demo_env ''j2'' ''j1'' ''k2'' ''ops'' ''mistake'' demo_after = Inr (''j2'', ?led'')"
    by code_simp
  have "\<not> recorded demo_ledger ''k1'' \<and> \<not> recorded demo_after ''k2''" by code_simp
  with reverse_undoes [OF demo_ok demo_run [unfolded demo_deposit_def] _ run] run show ?thesis by blast
qed

section \<open>What an operation may do to the ledger\<close>

text \<open>
  \<open>ledger_by K A led led'\<close>: \<open>led'\<close> results from opening accounts and from postings whose keys
  satisfy \<open>K\<close> and which move funds between accounts of \<open>A\<close> only. Each operation of the pool
  is shown to act in this way, so that what one component does leaves alone what another relies on.
\<close>

inductive ledger_by :: "(string \<Rightarrow> bool) \<Rightarrow> (string \<Rightarrow> bool) \<Rightarrow> ledger_state \<Rightarrow> ledger_state \<Rightarrow> bool"
  for K A where
  by_nothing: "ledger_by K A led led"
| by_account: "ledger_by K A led led' \<Longrightarrow> account k kind a loc led' = Inr (j, led'') \<Longrightarrow> ledger_by K A led led''"
| by_post: "ledger_by K A led led' \<Longrightarrow> post env i ek kind mv det rv led' = Inr (j, led'') \<Longrightarrow> K ek \<Longrightarrow>
    (\<And>x. x \<in> fst ` set mv \<Longrightarrow> A x) \<Longrightarrow> ledger_by K A led led''"

lemma ledger_by_ok: "ledger_by K A led led' \<Longrightarrow> ledger_ok led \<Longrightarrow> ledger_ok led'"
  by (induction rule: ledger_by.induct) (auto intro: ledger_ok_account ledger_ok_post)

lemma ledger_by_accounts:
  assumes "ledger_by K A led led'"
  shows "lookup acc_id k (accounts led) \<noteq> None \<Longrightarrow> lookup acc_id k (accounts led') \<noteq> None"
  using assms
proof (induction rule: ledger_by.induct)
  case (by_account led led' k' kind a loc j led'')
  then show ?case using account_cases(6) [OF by_account(2)] by (simp add: lookup_None_iff flip: set_map)
next
  case (by_post led led' env i ek kind mv det rv j led'')
  then show ?case using post_accounts [OF by_post(2)] by (simp add: lookup_None_iff flip: set_map)
qed

lemma account_recorded: "account k kind a loc led = Inr (j, led') \<Longrightarrow> recorded led' ek = recorded led ek"
  by (simp add: recorded_def account_cases(4))

lemma ledger_by_recorded: "ledger_by K A led led' \<Longrightarrow> \<not> K ek \<Longrightarrow> recorded led' ek = recorded led ek"
  by (induction rule: ledger_by.induct) (auto simp: account_recorded post_recorded)

lemma ledger_by_recorded_mono: "ledger_by K A led led' \<Longrightarrow> recorded led ek \<Longrightarrow> recorded led' ek"
  by (induction rule: ledger_by.induct) (auto simp: account_recorded post_recorded)

lemma post_untouched:
  assumes "post env i ek kind mv det rv led = Inr (j, led')" and "k \<notin> fst ` set mv"
  shows "balance led' k = balance led k"
proof (cases "lookup jr_event_key ek (journals led) = None")
  case True
  with post_balance [OF assms(1) True, of k] amount_of_absent [OF assms(2)] show ?thesis by simp
next
  case False
  then have "led' = led" by (intro post_replay [OF _ assms(1)]) (simp add: recorded_def)
  then show ?thesis by simp
qed

lemma ledger_by_balance: "ledger_by K A led led' \<Longrightarrow> \<not> A k \<Longrightarrow> balance led' k = balance led k"
proof (induction rule: ledger_by.induct)
  case (by_post led led' env i ek kind mv det rv j led'')
  have "k \<notin> fst ` set mv" using by_post.hyps(4) by_post.prems by blast
  with by_post post_untouched [OF by_post.hyps(2)] show ?case by simp
next
  case (by_account led led' k' kind a loc j led'')
  then show ?case using account_cases(2) [OF by_account.hyps(2), of k] by simp
qed simp

lemma ledger_by_trans: "ledger_by K A led' led'' \<Longrightarrow> ledger_by K A led led' \<Longrightarrow> ledger_by K A led led''"
  by (induction rule: ledger_by.induct) (blast intro: ledger_by.intros)+

lemma ledger_by_weaken:
  assumes "ledger_by K A led led'" and "\<And>k. K k \<Longrightarrow> K' k" and "\<And>k. A k \<Longrightarrow> A' k"
  shows "ledger_by K' A' led led'"
  using assms by (induction rule: ledger_by.induct) (blast intro: ledger_by.intros)+

lemma ledger_by_posted:
  "post env i ek kind mv det rv led = Inr (j, led') \<Longrightarrow> K ek \<Longrightarrow> (\<And>x. x \<in> fst ` set mv \<Longrightarrow> A x) \<Longrightarrow> ledger_by K A led led'"
  by (rule by_post [OF by_nothing])

lemma ledger_by_opened: "account k kind a loc led = Inr (j, led') \<Longrightarrow> ledger_by K A led led'"
  by (rule by_account [OF by_nothing])

end
