(* ===== verification/Members.thy ===== *)
theory Members
  imports Ledger
begin

text \<open>
  \<open>pool_manager/pool_v2/members.py\<close>: wallet identities, their available accounts and the
  audited collateral multiplier. Operations that run under the caller's cursor and operations
  that open a transaction have the same type here: from the store to a result and the store
  afterwards, an error leaving the store as it was.
\<close>

section \<open>Operations\<close>

text \<open>Run a ledger operation on the ledger's tables of the store.\<close>

definition on_ledger :: "(ledger_state \<Rightarrow> ('a \<times> ledger_state) result) \<Rightarrow> pool \<Rightarrow> ('a \<times> pool) result" where
  "on_ledger f p = bindE (f (ledger p)) (\<lambda>(x, led). Inr (x, p\<lparr>ledger := led\<rparr>))"

definition is_hex :: "char \<Rightarrow> bool" where
  "is_hex c \<longleftrightarrow> is_digit c \<or> (97 \<le> (of_char c :: nat) \<and> (of_char c :: nat) \<le> 102) \<or> (65 \<le> (of_char c :: nat) \<and> (of_char c :: nat) \<le> 70)"

text \<open>\<open>address(value)\<close>: \<open>0x\<close> and forty hexadecimal digits, not all zero, in lower case.\<close>

definition address :: "json \<Rightarrow> string result" where
  "address value =
     (case value of
        JStr s \<Rightarrow>
          if \<not> (take 2 s = ''0x'' \<and> length s = 42 \<and> list_all is_hex (drop 2 s))
          then Inl (FundsError ''invalid Ethereum wallet address'')
          else if list_all (\<lambda>c. c = CHR ''0'') (drop 2 s)
          then Inl (FundsError ''zero address cannot identify a member or custody wallet'')
          else Inr (lower s)
      | _ \<Rightarrow> Inl (FundsError ''invalid Ethereum wallet address''))"

definition available :: "string \<Rightarrow> string" where
  "available member_id = ''member:'' @ member_id @ '':available''"

text \<open>
  \<open>register_verified(cursor, wallet)\<close>: the member of the wallet, created on first use with the
  column defaults (multiplier 1 at revision 0, never paid).
\<close>

definition new_member :: "string \<Rightarrow> string \<Rightarrow> member_row" where
  "new_member identity wallet = \<lparr>m_id = identity, m_wallet = wallet, m_withdrawal_wallet = wallet,
     m_multiplier = Finite False 1 0, m_revision = 0, m_last_paid_at = None\<rparr>"

definition register_verified :: "string \<Rightarrow> json \<Rightarrow> pool \<Rightarrow> (member_row \<times> pool) result" where
  "register_verified new_id wallet p =
     bindE (address wallet) (\<lambda>w.
       case lookup m_wallet w (members p) of
         Some row \<Rightarrow> Inr (row, p)
       | None \<Rightarrow>
           if lookup m_id new_id (members p) \<noteq> None then Inl (IntegrityError ''members'') else
           bindE (on_ledger (account (available new_id) KMember AssetTIG Custody)
                   (p\<lparr>members := members p @ [new_member new_id w]\<rparr>))
             (\<lambda>(_, p'). Inr (new_member new_id w, p')))"

definition member_lock :: "string \<Rightarrow> pool \<Rightarrow> member_row result" where
  "member_lock member_id p =
     (case lookup m_id member_id (members p) of
        None \<Rightarrow> Inl (FundsError ''unknown member'')
      | Some row \<Rightarrow> Inr row)"

text \<open>\<open>set_multiplier\<close>: numeric columns compare by value, so \<open>0.5\<close> and \<open>0.50\<close> are the same change.\<close>

definition set_multiplier :: "string \<Rightarrow> multiplier_value \<Rightarrow> string \<Rightarrow> string \<Rightarrow> string \<Rightarrow> pool \<Rightarrow>
    (multiplier_change_row \<times> pool) result" where
  "set_multiplier member_id value actor reason event_key p =
     bindE (multiplier value) (\<lambda>v.
       if actor = [] \<or> reason = [] \<or> event_key = []
       then Inl (FundsError ''multiplier changes require an actor, reason and event key'') else
       bindE (member_lock member_id p) (\<lambda>member.
         case lookup mc_event_key event_key (multiplier_changes p) of
           Some previous \<Rightarrow>
             if (mc_member previous, decimal_rat (mc_new_value previous), mc_actor previous, mc_reason previous) \<noteq>
                (member_id, decimal_rat v, actor, reason)
             then Inl (Conflict ''multiplier event key was reused'')
             else Inr (previous, p)
         | None \<Rightarrow>
             let revision = m_revision member + 1;
                 change = \<lparr>mc_member = member_id, mc_revision = revision, mc_old_value = m_multiplier member,
                   mc_new_value = v, mc_actor = actor, mc_reason = reason, mc_event_key = event_key\<rparr>
             in if \<exists>c \<in> set (multiplier_changes p). mc_member c = member_id \<and> mc_revision c = revision
                then Inl (IntegrityError ''multiplier_changes'')
                else Inr (change, p\<lparr>multiplier_changes := multiplier_changes p @ [change],
                  members := modify m_id member_id (\<lambda>m. m\<lparr>m_multiplier := v, m_revision := revision\<rparr>) (members p)\<rparr>)))"

record member_balances =
  mb_member :: member_row
  mb_available :: int
  mb_collateral :: int
  mb_slots :: int
  mb_pending_withdrawals :: int

fun withdrawal_pending :: "withdrawal_state \<Rightarrow> bool" where
  "withdrawal_pending WRequested = True"
| "withdrawal_pending WApproved = True"
| "withdrawal_pending WUncertain = True"
| "withdrawal_pending _ = False"

text \<open>\<open>balances(database, member_id)\<close>; subscripting the missing row of an unknown account raises.\<close>

definition balances :: "string \<Rightarrow> pool \<Rightarrow> member_balances result" where
  "balances member_id p =
     (case lookup m_id member_id (members p) of
        None \<Rightarrow> Inl (FundsError ''unknown member'')
      | Some row \<Rightarrow>
          (case lookup acc_id (available member_id) (accounts (ledger p)) of
             None \<Rightarrow> Inl TypeError
           | Some a \<Rightarrow>
               let mine = filter (\<lambda>r. r_member_id r = member_id \<and> r_collateral_outcome r = None) (reservations p)
               in Inr \<lparr>mb_member = row, mb_available = acc_balance a,
                    mb_collateral = sum_list (map r_amount mine),
                    mb_slots = int (length (filter r_slot_held mine)),
                    mb_pending_withdrawals = sum_where
                      (\<lambda>w. w_member_id w = Some member_id \<and> withdrawal_pending (w_state w)) w_amount (withdrawals p)\<rparr>))"

section \<open>What the operations keep\<close>

lemma on_ledger_Inr [outcome]:
  "on_ledger f p = Inr (x, p') \<longleftrightarrow> (\<exists>led. f (ledger p) = Inr (x, led) \<and> p' = p\<lparr>ledger := led\<rparr>)"
  by (auto simp: on_ledger_def outcome)

lemma on_ledger_same: "f (ledger p) = Inr (x, ledger p) \<Longrightarrow> on_ledger f p = Inr (x, p)"
  by (simp add: on_ledger_def)

lemma member_lock_Inr [outcome]: "member_lock k p = Inr m \<longleftrightarrow> lookup m_id k (members p) = Some m"
  by (auto simp: member_lock_def split: option.splits)

lemma address_Inr:
  "address v = Inr w \<Longrightarrow> \<exists>s. v = JStr s \<and> w = lower s \<and> length w = 42"
  by (auto simp: address_def lower_def split: json.splits if_splits)

text \<open>The accounts that exist; none is ever removed.\<close>

definition account_ids :: "ledger_state \<Rightarrow> string set" where
  "account_ids led = acc_id ` set (accounts led)"

lemma lookup_account_iff: "lookup acc_id k (accounts led) = None \<longleftrightarrow> k \<notin> account_ids led"
  by (auto simp: account_ids_def lookup_None_iff)

lemma account_ids_account: "account k kind a loc led = Inr (j, led') \<Longrightarrow> account_ids led' = insert k (account_ids led)"
  using account_cases(6) [of k kind a loc led j led'] by (simp add: account_ids_def)

lemma account_ids_post: "post env i ek kind mv det rv led = Inr (j, led') \<Longrightarrow> account_ids led' = account_ids led"
  using post_accounts [of env i ek kind mv det rv led j led'] by (metis account_ids_def list.set_map)

text \<open>
  Members have distinct identities and wallets, an account of their own, and a revision that
  counts the recorded changes of their multiplier.
\<close>

definition members_ok :: "pool \<Rightarrow> bool" where
  "members_ok p \<longleftrightarrow> distinct (map m_id (members p)) \<and> distinct (map m_wallet (members p)) \<and>
     distinct (map mc_event_key (multiplier_changes p)) \<and>
     (\<forall>m \<in> set (members p). available (m_id m) \<in> account_ids (ledger p) \<and>
        0 \<le> decimal_rat (m_multiplier m) \<and> decimal_rat (m_multiplier m) \<le> 1 \<and>
        m_revision m = int (length (filter (\<lambda>c. mc_member c = m_id m) (multiplier_changes p)))) \<and>
     (\<forall>c \<in> set (multiplier_changes p). mc_member c \<in> m_id ` set (members p) \<and>
        1 \<le> mc_revision c \<and> mc_revision c \<le> int (length (filter (\<lambda>d. mc_member d = mc_member c) (multiplier_changes p))))"

lemma members_ok_empty [simp]: "members_ok empty_pool"
  by (simp add: members_ok_def empty_pool_def)

lemma members_ok_ledger:
  "members_ok p \<Longrightarrow> account_ids (ledger p) \<subseteq> account_ids (ledger p') \<Longrightarrow> members p' = members p \<Longrightarrow>
   multiplier_changes p' = multiplier_changes p \<Longrightarrow> members_ok p'"
  unfolding members_ok_def by auto

lemma multiplier_change_distinct:
  assumes "members_ok p" and "m \<in> set (members p)"
  shows "\<not> (\<exists>c \<in> set (multiplier_changes p). mc_member c = m_id m \<and> mc_revision c = m_revision m + 1)"
  using assms by (fastforce simp: members_ok_def)

lemma members_ok_register:
  assumes ok: "members_ok p" and run: "register_verified new_id wallet p = Inr (row, p')"
  shows "members_ok p'"
proof -
  obtain w where w: "address wallet = Inr w" using run by (auto simp: register_verified_def outcome)
  show ?thesis
  proof (cases "lookup m_wallet w (members p)")
    case (Some r)
    then show ?thesis using run w ok by (simp add: register_verified_def)
  next
    case None
    then obtain led where led: "account (available new_id) KMember AssetTIG Custody (ledger p) = Inr (available new_id, led)"
      and p': "p' = p\<lparr>members := members p @ [new_member new_id w], ledger := led\<rparr>"
      and fresh: "lookup m_id new_id (members p) = None"
      using run w account_cases(1) by (fastforce simp: register_verified_def outcome split: if_splits)
    have "filter (\<lambda>c. mc_member c = new_id) (multiplier_changes p) = []"
      using ok fresh by (fastforce simp: members_ok_def filter_empty_conv lookup_None_iff)
    then show ?thesis
      using ok fresh None account_ids_account [OF led]
      by (auto simp: members_ok_def p' new_member_def lookup_None_iff decimal_rat.simps)
  qed
qed

lemma set_multiplier_cases:
  assumes "set_multiplier member_id value actor reason event_key p = Inr (change, p')"
  obtains (replay) "lookup mc_event_key event_key (multiplier_changes p) = Some change" and "p' = p"
    | (fresh) v m where "multiplier value = Inr v" and "lookup m_id member_id (members p) = Some m"
        and "lookup mc_event_key event_key (multiplier_changes p) = None"
        and "change = \<lparr>mc_member = member_id, mc_revision = m_revision m + 1, mc_old_value = m_multiplier m,
          mc_new_value = v, mc_actor = actor, mc_reason = reason, mc_event_key = event_key\<rparr>"
        and "p' = p\<lparr>multiplier_changes := multiplier_changes p @ [change],
          members := modify m_id member_id (\<lambda>m'. m'\<lparr>m_multiplier := v, m_revision := m_revision m + 1\<rparr>) (members p)\<rparr>"
proof -
  obtain v m where v: "multiplier value = Inr v" and m: "lookup m_id member_id (members p) = Some m"
    using assms unfolding set_multiplier_def bindE_Inr raise_if_Inr member_lock_Inr by blast
  show ?thesis
  proof (cases "lookup mc_event_key event_key (multiplier_changes p)")
    case (Some previous)
    then have "change = previous" and "p' = p"
      using assms v m by (simp_all add: set_multiplier_def member_lock_def split: if_splits)
    with Some replay show ?thesis by blast
  next
    case None
    with assms v m show ?thesis
      by (intro fresh [OF v m None]) (auto simp: set_multiplier_def member_lock_def Let_def split: if_splits)
  qed
qed

lemma members_ok_set_multiplier:
  assumes ok: "members_ok p" and run: "set_multiplier member_id value actor reason event_key p = Inr (change, p')"
  shows "members_ok p'"
  using run
proof (cases rule: set_multiplier_cases)
  case replay
  with ok show ?thesis by simp
next
  case (fresh v m)
  let ?up = "\<lambda>m'. m'\<lparr>m_multiplier := v, m_revision := m_revision m + 1\<rparr>"
  have m: "m \<in> set (members p)" "m_id m = member_id" using lookup_SomeD [OF fresh(2)] by auto
  have same: "m' = m" if "m' \<in> set (members p)" "m_id m' = member_id" for m'
    using ok m that by (auto simp: members_ok_def distinct_map inj_on_def)
  have rows: "set (members p') = {m' \<in> set (members p). m_id m' \<noteq> member_id} \<union> {?up m}"
  proof
    show "set (members p') \<subseteq> {m' \<in> set (members p). m_id m' \<noteq> member_id} \<union> {?up m}"
      using same by (auto simp: fresh(5) modify_def)
    show "{m' \<in> set (members p). m_id m' \<noteq> member_id} \<union> {?up m} \<subseteq> set (members p')"
      using m by (force simp: fresh(5) modify_def image_iff)
  qed
  have keys: "map m_id (members p') = map m_id (members p)" "map m_wallet (members p') = map m_wallet (members p)"
    by (simp_all add: fresh(5))
  have changes: "multiplier_changes p' = multiplier_changes p @ [change]" and led: "ledger p' = ledger p"
    by (simp_all add: fresh(5))
  have c: "mc_member change = member_id" "mc_revision change = m_revision m + 1" "mc_event_key change = event_key"
    by (simp_all add: fresh(4))
  have "\<forall>m' \<in> set (members p'). available (m_id m') \<in> account_ids (ledger p') \<and>
      0 \<le> decimal_rat (m_multiplier m') \<and> decimal_rat (m_multiplier m') \<le> 1 \<and>
      m_revision m' = int (length (filter (\<lambda>c. mc_member c = m_id m') (multiplier_changes p')))"
    using ok m multiplier_Inr [OF fresh(1)] unfolding rows changes led members_ok_def
    by (auto simp: c)
  moreover have "\<forall>d \<in> set (multiplier_changes p'). mc_member d \<in> m_id ` set (members p') \<and>
      1 \<le> mc_revision d \<and> mc_revision d \<le> int (length (filter (\<lambda>e. mc_member e = mc_member d) (multiplier_changes p')))"
  proof
    have ids: "m_id ` set (members p') = m_id ` set (members p)" by (metis keys(1) list.set_map)
    have count: "m_revision m = int (length (filter (\<lambda>c. mc_member c = member_id) (multiplier_changes p)))"
      using ok m by (auto simp: members_ok_def)
    fix d assume "d \<in> set (multiplier_changes p')"
    then consider "d \<in> set (multiplier_changes p)" | "d = change" by (auto simp: changes)
    then show "mc_member d \<in> m_id ` set (members p') \<and> 1 \<le> mc_revision d \<and>
        mc_revision d \<le> int (length (filter (\<lambda>e. mc_member e = mc_member d) (multiplier_changes p')))"
    proof cases
      case 1
      then show ?thesis using ok unfolding ids members_ok_def changes by (fastforce simp: c)
    next
      case 2
      then show ?thesis using count m unfolding ids changes by (auto simp: c)
    qed
  qed
  moreover have "distinct (map mc_event_key (multiplier_changes p'))"
    using ok fresh(3) by (auto simp: members_ok_def changes c lookup_None_iff)
  ultimately show ?thesis
    using ok keys unfolding members_ok_def by metis
qed

section \<open>Properties\<close>

text \<open>
  A multiplier change of a known member under a fresh event key always takes effect: the
  member's multiplier becomes the validated value, its revision grows by one, the change is
  recorded with the value it replaced, and no other member and no money is touched. Repeating
  the call returns the recorded change and alters nothing; reusing the key for another value,
  actor, reason or member is refused.
\<close>

theorem set_multiplier_effect:
  assumes "members_ok p" and "lookup m_id k (members p) = Some m" and "multiplier v = Inr x"
    and "actor \<noteq> []" and "reason \<noteq> []" and "ek \<noteq> []" and "lookup mc_event_key ek (multiplier_changes p) = None"
  shows "\<exists>change p'. set_multiplier k v actor reason ek p = Inr (change, p') \<and> members_ok p' \<and>
    lookup m_id k (members p') = Some (m\<lparr>m_multiplier := x, m_revision := m_revision m + 1\<rparr>) \<and>
    (\<forall>j. j \<noteq> k \<longrightarrow> lookup m_id j (members p') = lookup m_id j (members p)) \<and>
    multiplier_changes p' = multiplier_changes p @ [change] \<and> mc_old_value change = m_multiplier m \<and>
    mc_new_value change = x \<and> ledger p' = ledger p \<and>
    set_multiplier k v actor reason ek p' = Inr (change, p') \<and>
    (\<forall>w y. multiplier w = Inr y \<longrightarrow> decimal_rat y \<noteq> decimal_rat x \<longrightarrow>
       set_multiplier k w actor reason ek p' = Inl (Conflict ''multiplier event key was reused''))"
proof -
  let ?change = "\<lparr>mc_member = k, mc_revision = m_revision m + 1, mc_old_value = m_multiplier m,
      mc_new_value = x, mc_actor = actor, mc_reason = reason, mc_event_key = ek\<rparr>"
  let ?p' = "p\<lparr>multiplier_changes := multiplier_changes p @ [?change],
      members := modify m_id k (\<lambda>m'. m'\<lparr>m_multiplier := x, m_revision := m_revision m + 1\<rparr>) (members p)\<rparr>"
  have m: "m \<in> set (members p)" "m_id m = k" using lookup_SomeD [OF assms(2)] by auto
  have run: "set_multiplier k v actor reason ek p = Inr (?change, ?p')"
    using multiplier_change_distinct [OF assms(1) m(1)] assms m(2)
    by (simp add: set_multiplier_def member_lock_def Let_def)
  have found: "lookup mc_event_key ek (multiplier_changes ?p') = Some ?change"
    using assms(7) by (simp add: lookup_append)
  have member: "lookup m_id j (members ?p') = (if j = k then Some (m\<lparr>m_multiplier := x, m_revision := m_revision m + 1\<rparr>)
      else lookup m_id j (members p))" for j
    using assms(2) by (simp add: lookup_modify)
  have again: "set_multiplier k w actor reason ek ?p' =
      (if decimal_rat y \<noteq> decimal_rat x then Inl (Conflict ''multiplier event key was reused'') else Inr (?change, ?p'))"
    if "multiplier w = Inr y" for w y
    using that assms(4-6) found member [of k] by (simp add: set_multiplier_def member_lock_def)
  show ?thesis
    using run members_ok_set_multiplier [OF assms(1) run] member again assms(3)
    by (intro exI [of _ ?change] exI [of _ ?p'] conjI) simp_all
qed

definition demo_member :: pool where
  "demo_member = empty_pool\<lparr>ledger := empty_ledger\<lparr>accounts :=
       [\<lparr>acc_id = available ''m1'', acc_kind = KMember, acc_asset = AssetTIG, acc_location = Custody, acc_balance = 0\<rparr>]\<rparr>,
     members := [new_member ''m1'' ''0x00000000000000000000000000000000000000aa'']\<rparr>"

lemma demo_member_run:
  "register_verified ''m1'' (JStr ''0x00000000000000000000000000000000000000Aa'') empty_pool =
     Inr (new_member ''m1'' ''0x00000000000000000000000000000000000000aa'', demo_member)"
  by code_simp

lemma demo_member_ok: "members_ok demo_member"
  by (rule members_ok_register [OF _ demo_member_run]) simp

theorem set_multiplier_effect_witness:
  "\<exists>change p'. set_multiplier ''m1'' (MStr ''0.25'') ''ops'' ''trusted'' ''e1'' demo_member = Inr (change, p') \<and>
     mc_new_value change = Finite False 25 (-2) \<and> members_ok p'"
proof -
  have "lookup m_id ''m1'' (members demo_member) = Some (new_member ''m1'' ''0x00000000000000000000000000000000000000aa'')"
    by code_simp
  moreover have "multiplier (MStr ''0.25'') = Inr (Finite False 25 (-2))" by code_simp
  moreover have "lookup mc_event_key ''e1'' (multiplier_changes demo_member) = None" by code_simp
  ultimately show ?thesis
    using set_multiplier_effect [OF demo_member_ok, of "''m1''" _ "MStr ''0.25''" "Finite False 25 (-2)" "''ops''" "''trusted''" "''e1''"]
    by fastforce
qed

lemma lower_idem [simp]: "lower (lower s) = lower s"
proof -
  have "lower_char (lower_char c) = lower_char c" for c
    by (auto simp: lower_char_def of_char_of)
  then show ?thesis by (simp add: lower_def)
qed

text \<open>
  A verified wallet names one member for ever: registering it again, in any letter case
  and under any fresh identity, returns the same member and changes nothing, and the member
  that was created has an empty account of its own.
\<close>

theorem register_verified_once:
  assumes "members_ok p" and "ledger_ok (ledger p)" and "register_verified i wallet p = Inr (row, p')"
    and "address wallet = address wallet'"
  shows "members_ok p' \<and> ledger_ok (ledger p') \<and> lookup m_wallet (m_wallet row) (members p') = Some row \<and>
    address wallet = Inr (m_wallet row) \<and> available (m_id row) \<in> account_ids (ledger p') \<and>
    balance (ledger p') k = balance (ledger p) k \<and>
    register_verified i' wallet' p' = Inr (row, p')"
proof -
  obtain w where w: "address wallet = Inr w" using assms(3) by (auto simp: register_verified_def outcome)
  have "lookup m_wallet w (members p') = Some row \<and> ledger_ok (ledger p') \<and> balance (ledger p') k = balance (ledger p) k"
  proof (cases "lookup m_wallet w (members p)")
    case (Some r)
    with assms(2,3) w show ?thesis by (simp add: register_verified_def)
  next
    case None
    then obtain led where led: "account (available i) KMember AssetTIG Custody (ledger p) = Inr (available i, led)"
      and p': "row = new_member i w" "p' = p\<lparr>members := members p @ [new_member i w], ledger := led\<rparr>"
      using assms(3) w account_cases(1) by (fastforce simp: register_verified_def outcome split: if_splits)
    show ?thesis
      using None ledger_ok_account [OF assms(2) led] account_cases(2) [OF led]
      by (simp add: p' lookup_append new_member_def)
  qed
  moreover from this have wallet: "m_wallet row = w" and row: "row \<in> set (members p')"
    using lookup_SomeD by fastforce+
  moreover have "members_ok p'" by (rule members_ok_register [OF assms(1,3)])
  moreover from this row have "available (m_id row) \<in> account_ids (ledger p')" by (simp add: members_ok_def)
  ultimately show ?thesis
    using w assms(4) by (simp add: register_verified_def)
qed

theorem register_verified_once_witness:
  "register_verified ''m2'' (JStr ''0x00000000000000000000000000000000000000AA'') demo_member =
     Inr (new_member ''m1'' ''0x00000000000000000000000000000000000000aa'', demo_member)"
proof -
  have "address (JStr ''0x00000000000000000000000000000000000000Aa'') = address (JStr ''0x00000000000000000000000000000000000000AA'')"
    by code_simp
  moreover have "ledger_ok (ledger empty_pool)" by (simp add: empty_pool_def)
  ultimately show ?thesis
    using register_verified_once [OF members_ok_empty _ demo_member_run] by blast
qed

end
