(* ===== verification/Custody.thy ===== *)
theory Custody
  imports Members
begin

text \<open>
  \<open>pool_manager/pool_v2/custody.py\<close> and the data of \<open>chain.py\<close>: the one custody identity the
  store is bound to, the confirmed transactions recorded for it, the nonces reserved by sends
  and the payments that explain them. Constraints of the tables that the code does not check
  first are branches that raise \<open>IntegrityError\<close>.
\<close>

section \<open>Operations\<close>

text \<open>\<open>Network.__post_init__\<close>: the validated constructor of a network.\<close>

definition make_network :: "json \<Rightarrow> json \<Rightarrow> json \<Rightarrow> json \<Rightarrow> json \<Rightarrow> json \<Rightarrow> network result" where
  "make_network chain_id token_address custody_address confirmations decimals require_finalized =
     bindE (units True chain_id) (\<lambda>c.
     bindE (units True confirmations) (\<lambda>n.
       if decimals \<noteq> JInt 18 then Inl (FundsError ''this TIG ledger requires a verified 18-decimal token'') else
       case require_finalized of
         JBool f \<Rightarrow>
           bindE (address token_address) (\<lambda>t.
           bindE (address custody_address) (\<lambda>w.
             Inr \<lparr>net_chain_id = c, net_token = t, net_custody = w, net_confirmations = n, net_decimals = 18,
               net_require_finalized = f\<rparr>))
       | _ \<Rightarrow> Inl (FundsError ''finality policy must be explicit'')))"

definition bind :: "network \<Rightarrow> pool \<Rightarrow> (unit \<times> pool) result" where
  "bind net p =
     (if protocol_identity p \<noteq> None \<and> protocol_identity p \<noteq> Some (net_custody net)
      then Inl (Conflict ''custody wallet differs from the bound protocol funding account'') else
      case custody_identity p of
        Some existing \<Rightarrow>
          if (ci_chain_id existing, ci_token existing, ci_wallet existing, ci_decimals existing) \<noteq>
             (net_chain_id net, net_token net, net_custody net, net_decimals net)
          then Inl (Conflict ''configured chain, token or wallet differs from the ledger custody identity'')
          else Inr ((), p)
      | None \<Rightarrow>
          if \<exists>t \<in> set (transfers p). tr_chain_id t \<noteq> net_chain_id net \<or> tr_token t \<noteq> net_token net \<or>
               (tr_sender t \<noteq> net_custody net \<and> tr_recipient t \<noteq> net_custody net)
          then Inl (Conflict ''existing transfer history differs from this custody identity'')
          else Inr ((), p\<lparr>custody_identity := Some \<lparr>ci_chain_id = net_chain_id net, ci_token = net_token net,
            ci_wallet = net_custody net, ci_decimals = net_decimals net\<rparr>\<rparr>))"

definition transaction_row :: "confirmed_transaction \<Rightarrow> chain_transaction_row" where
  "transaction_row t =
     \<lparr>ct_chain_id = net_chain_id (tx_network t), ct_tx_hash = tx_hash t, ct_sender = tx_sender t,
       ct_recipient = tx_recipient t, ct_nonce = tx_nonce t, ct_successful = tx_successful t, ct_value = tx_value t,
       ct_fee = tx_fee t, ct_fee_model = tx_fee_model t, ct_block_number = tx_block_number t,
       ct_block_hash = tx_block_hash t, ct_block_timestamp = tx_block_timestamp t, ct_evidence = tx_evidence t\<rparr>"

text \<open>\<open>save_transaction(cursor, transaction)\<close>: whether the transaction was new.\<close>

definition save_transaction :: "confirmed_transaction \<Rightarrow> pool \<Rightarrow> (bool \<times> pool) result" where
  "save_transaction t p =
     bindE (bind (tx_network t) p) (\<lambda>(_, p).
       let row = transaction_row t in
       case lookup (\<lambda>c. (ct_chain_id c, ct_tx_hash c)) (ct_chain_id row, ct_tx_hash row) (chain_transactions p) of
         Some previous \<Rightarrow>
           if previous\<lparr>ct_evidence := ct_evidence row\<rparr> \<noteq> row
           then Inl (Conflict ''confirmed transaction facts changed; reconciliation required'')
           else Inr (False, p)
       | None \<Rightarrow>
           if \<exists>c \<in> set (chain_transactions p). (ct_chain_id c, ct_sender c, ct_nonce c) = (ct_chain_id row, ct_sender row, ct_nonce row)
           then Inl (Conflict ''a different finalized transaction already consumed this sender nonce'')
           else if ct_nonce row < 0 \<or> ct_value row < 0 \<or> ct_fee row < 0
           then Inl (IntegrityError ''chain_transactions'')
           else Inr (True, p\<lparr>chain_transactions := chain_transactions p @ [row]\<rparr>))"

definition receive_native :: "env \<Rightarrow> string \<Rightarrow> confirmed_transaction \<Rightarrow> pool \<Rightarrow> (unit \<times> pool) result" where
  "receive_native env new_id t p =
     (if \<not> tx_successful t \<or> tx_value t \<le> 0 \<or> tx_recipient t \<noteq> Some (net_custody (tx_network t))
         \<or> tx_sender t = net_custody (tx_network t)
      then Inl (FundsError ''operator native funding requires a verified incoming direct transfer'') else
      bindE (bind (tx_network t) p) (\<lambda>(_, p).
      bindE (save_transaction t p) (\<lambda>(_, p).
      bindE (on_ledger (post env new_id
              (''native-receipt:'' @ int_text (net_chain_id (tx_network t)) @ '':'' @ tx_hash t) ''operator_native_funding''
              [(''external:custody:NATIVE'', - tx_value t), (''operator:custody:NATIVE'', tx_value t)]
              (JDict [(''chain_id'', JInt (net_chain_id (tx_network t))), (''tx_hash'', JStr (tx_hash t)),
                (''sender'', JStr (tx_sender t))]) None) p) (\<lambda>(_, p). Inr ((), p)))))"

text \<open>\<open>reserve_nonce(cursor, identity, network, nonce, kind)\<close>.\<close>

definition reserve_nonce :: "string \<Rightarrow> network \<Rightarrow> int \<Rightarrow> string \<Rightarrow> pool \<Rightarrow> (unit \<times> pool) result" where
  "reserve_nonce identity net nonce kind p =
     bindE (units False (JInt nonce)) (\<lambda>_.
       if kind \<notin> {''withdrawal'', ''protocol_topup''} then Inl (FundsError ''unknown custody send purpose'') else
       bindE (bind net p) (\<lambda>(_, p).
         if \<exists>s \<in> set (custody_sends p). (cs_chain_id s, cs_sender s, cs_nonce s) = (net_chain_id net, net_custody net, nonce)
         then Inl (Conflict ''custody nonce is already reserved by another send attempt'')
         else if lookup cs_id identity (custody_sends p) \<noteq> None then Inl (IntegrityError ''custody_sends'')
         else Inr ((), p\<lparr>custody_sends := custody_sends p @
           [\<lparr>cs_id = identity, cs_chain_id = net_chain_id net, cs_sender = net_custody net, cs_nonce = nonce, cs_kind = kind\<rparr>]\<rparr>)))"

text \<open>\<open>SponsoredWithdrawal\<close>: a payment another account broadcast under custody's authorization.\<close>

record sponsored_withdrawal =
  sw_transaction :: confirmed_transaction
  sw_transfer :: confirmed_transfer
  sw_custody_nonce :: int
  sw_delegate :: string
  sw_evidence :: json

definition blank :: "string option \<Rightarrow> bool" where
  "blank s \<longleftrightarrow> s = None \<or> s = Some []"

definition record_payment :: "string \<Rightarrow> confirmed_transaction \<Rightarrow> string option \<Rightarrow> string \<Rightarrow>
    sponsored_withdrawal option \<Rightarrow> string option \<Rightarrow> string option \<Rightarrow> pool \<Rightarrow> (unit \<times> pool) result" where
  "record_payment identity t transfer_event journal_id authorization actor reason p =
     (if (case authorization of None \<Rightarrow> False | Some a \<Rightarrow>
            sw_transaction a \<noteq> t \<or> Some (event_id (sw_transfer a)) \<noteq> transfer_event \<or> blank actor \<or> blank reason)
      then Inl (FundsError ''verified sponsored payment and explicit operator review required'') else
      let (sender, nonce, fee) = (case authorization of
              None \<Rightarrow> (tx_sender t, tx_nonce t, tx_fee t)
            | Some a \<Rightarrow> (net_custody (tx_network t), sw_custody_nonce a, 0));
          chain = net_chain_id (tx_network t)
      in if (case lookup cs_id identity (custody_sends p) of None \<Rightarrow> True
             | Some route \<Rightarrow> (cs_chain_id route, cs_sender route, cs_nonce route) \<noteq> (chain, sender, nonce))
      then Inl (Conflict ''payment does not match the shared custody nonce reservation'') else
      case List.find (\<lambda>c. cp_send_id c = identity \<or> (cp_chain_id c, cp_tx_hash c) = (chain, tx_hash t)) (custody_payments p) of
        Some old \<Rightarrow>
          if (cp_send_id old, cp_tx_hash old, cp_transfer_event old, cp_fee old, cp_journal_id old) \<noteq>
             (identity, tx_hash t, transfer_event, fee, journal_id)
          then Inl (Conflict ''custody transaction already has a different financial attribution'')
          else Inr ((), p)
      | None \<Rightarrow>
          let authorized = (case authorization of None \<Rightarrow> [] | Some a \<Rightarrow>
                [\<lparr>ca_send_id = identity, ca_chain_id = chain, ca_tx_hash = tx_hash t, ca_authority = sender, ca_nonce = nonce,
                  ca_delegate = sw_delegate a, ca_actor = the actor, ca_reason = the reason, ca_evidence = sw_evidence a\<rparr>])
          in if (authorized \<noteq> [] \<and> (nonce < 0 \<or> (\<exists>c \<in> set (custody_authorization_payments p). ca_send_id c = identity \<or>
                  (ca_chain_id c, ca_tx_hash c) = (chain, tx_hash t) \<or> (ca_chain_id c, ca_authority c, ca_nonce c) = (chain, sender, nonce))))
             \<or> fee < 0 \<or> lookup (\<lambda>c. (ct_chain_id c, ct_tx_hash c)) (chain, tx_hash t) (chain_transactions p) = None
             \<or> lookup jr_id journal_id (journals (ledger p)) = None
             \<or> (transfer_event \<noteq> None \<and> (lookup tr_event_id (the transfer_event) (transfers p) = None
                  \<or> (\<exists>c \<in> set (custody_payments p). cp_transfer_event c = transfer_event)))
          then Inl (IntegrityError ''custody_payments'')
          else Inr ((), p\<lparr>custody_authorization_payments := custody_authorization_payments p @ authorized,
            custody_payments := custody_payments p @ [\<lparr>cp_send_id = identity, cp_chain_id = chain, cp_tx_hash = tx_hash t,
              cp_transfer_event = transfer_event, cp_fee = fee, cp_journal_id = journal_id\<rparr>]\<rparr>))"

section \<open>What the operations do\<close>

lemma bind_cases:
  assumes "bind net p = Inr (u, p')"
  shows "p' = p\<lparr>custody_identity := Some \<lparr>ci_chain_id = net_chain_id net, ci_token = net_token net,
      ci_wallet = net_custody net, ci_decimals = net_decimals net\<rparr>\<rparr>" and "bind net p' = Inr ((), p')"
proof -
  have "custody_identity p' = Some \<lparr>ci_chain_id = net_chain_id net, ci_token = net_token net,
      ci_wallet = net_custody net, ci_decimals = net_decimals net\<rparr> \<and> protocol_identity p' = protocol_identity p"
    using assms by (auto simp: bind_def split: option.splits if_splits)
  moreover have "p' = p\<lparr>custody_identity := custody_identity p'\<rparr>"
    using assms by (auto simp: bind_def split: option.splits if_splits)
  ultimately show "p' = p\<lparr>custody_identity := Some \<lparr>ci_chain_id = net_chain_id net, ci_token = net_token net,
      ci_wallet = net_custody net, ci_decimals = net_decimals net\<rparr>\<rparr>"
    and "bind net p' = Inr ((), p')"
    using assms by (simp_all add: bind_def split: if_splits)
qed

lemma save_transaction_cases:
  assumes "save_transaction t p = Inr (new, p')"
  obtains (old) previous where "lookup (\<lambda>c. (ct_chain_id c, ct_tx_hash c)) (net_chain_id (tx_network t), tx_hash t) (chain_transactions p) = Some previous"
      "\<not> new" "previous\<lparr>ct_evidence := tx_evidence t\<rparr> = transaction_row t" "bind (tx_network t) p = Inr ((), p')"
    | (new) q where "lookup (\<lambda>c. (ct_chain_id c, ct_tx_hash c)) (net_chain_id (tx_network t), tx_hash t) (chain_transactions p) = None"
      "new" "bind (tx_network t) p = Inr ((), q)" "p' = q\<lparr>chain_transactions := chain_transactions p @ [transaction_row t]\<rparr>"
      "\<not> (\<exists>c \<in> set (chain_transactions p). (ct_chain_id c, ct_sender c, ct_nonce c) = (net_chain_id (tx_network t), tx_sender t, tx_nonce t))"
proof -
  obtain q where q: "bind (tx_network t) p = Inr ((), q)"
    using assms unfolding save_transaction_def bindE_Inr by auto
  then have ct: "chain_transactions q = chain_transactions p" using bind_cases(1) by fastforce
  let ?key = "(net_chain_id (tx_network t), tx_hash t)"
  show ?thesis
  proof (cases "lookup (\<lambda>c. (ct_chain_id c, ct_tx_hash c)) ?key (chain_transactions p)")
    case (Some previous)
    with assms q ct show ?thesis
      by (intro old) (auto simp: save_transaction_def transaction_row_def Let_def split: if_splits)
  next
    case None
    with assms q ct show ?thesis
      by (intro new) (auto simp: save_transaction_def transaction_row_def Let_def split: if_splits)
  qed
qed

end
