(* ===== verification/Deposits.thy ===== *)
theory Deposits
  imports Custody
begin

text \<open>
  \<open>pool_manager/pool_v2/deposits.py\<close>: confirmed incoming transfers, the receipt that books
  them to custody and the attribution that books a receipt to its member or to the operator.
\<close>

section \<open>Operations\<close>

definition transfer_row_of :: "confirmed_transfer \<Rightarrow> transfer_row" where
  "transfer_row_of t =
     \<lparr>tr_event_id = event_id t, tr_chain_id = net_chain_id (tf_network t), tr_token = net_token (tf_network t),
       tr_tx_hash = tf_tx_hash t, tr_log_index = tf_log_index t, tr_block_number = tf_block_number t,
       tr_block_hash = tf_block_hash t, tr_block_timestamp = tf_block_timestamp t, tr_sender = tf_sender t,
       tr_recipient = tf_recipient t, tr_amount = tf_amount t, tr_evidence = tf_evidence t\<rparr>"

definition save_transfer :: "confirmed_transfer \<Rightarrow> pool \<Rightarrow> (bool \<times> pool) result" where
  "save_transfer t p =
     bindE (bind (tf_network t) p) (\<lambda>(_, p).
       case lookup tr_event_id (event_id t) (transfers p) of
         Some previous \<Rightarrow>
           if previous\<lparr>tr_evidence := tf_evidence t\<rparr> \<noteq> transfer_row_of t
           then Inl (Conflict ''a previously recorded transfer changed; reconciliation required'')
           else Inr (False, p)
       | None \<Rightarrow>
           if tf_amount t < 0 \<or> tf_log_index t < 0 \<or> tf_block_number t < 0 \<or> net_chain_id (tf_network t) \<le> 0
           then Inl (IntegrityError ''transfers'')
           else Inr (True, p\<lparr>transfers := transfers p @ [transfer_row_of t]\<rparr>))"

definition attribute :: "env \<Rightarrow> string \<Rightarrow> confirmed_transfer \<Rightarrow> string \<Rightarrow> string \<Rightarrow> json \<Rightarrow> pool \<Rightarrow> (string \<times> pool) result" where
  "attribute env new_id t destination actor evidence p =
     (case lookup at_event_id (event_id t) (transfer_attributions p) of
        Some previous \<Rightarrow>
          if at_destination previous \<noteq> destination
          then Inl (Conflict ''deposit has already been attributed elsewhere'')
          else Inr (destination, p)
      | None \<Rightarrow>
          bindE (if tf_amount t \<noteq> 0
                 then on_ledger (post env new_id (''attribute:'' @ event_id t) ''deposit_attribution''
                        [(''unattributed:TIG'', - tf_amount t), (destination, tf_amount t)]
                        (JDict [(''actor'', JStr actor), (''evidence'', evidence)]) None) p
                 else Inr ([], p)) (\<lambda>(_, p).
            if lookup tr_event_id (event_id t) (transfers p) = None \<or> lookup acc_id destination (accounts (ledger p)) = None
            then Inl (IntegrityError ''transfer_attributions'')
            else Inr (destination, p\<lparr>transfer_attributions := transfer_attributions p @
              [\<lparr>at_event_id = event_id t, at_destination = destination, at_actor = actor, at_evidence = evidence\<rparr>]\<rparr>)))"

text \<open>\<open>receive(database, transfer)\<close>; the identifiers are those of the receipt and of the attribution journal.\<close>

definition receive :: "env \<Rightarrow> string \<Rightarrow> string \<Rightarrow> confirmed_transfer \<Rightarrow> pool \<Rightarrow> (string \<times> pool) result" where
  "receive env id1 id2 t p =
     (if tf_recipient t \<noteq> net_custody (tf_network t) \<or> tf_sender t = net_custody (tf_network t)
      then Inl (FundsError ''expected an external incoming transfer to custody'') else
      bindE (save_transfer t p) (\<lambda>(_, p).
      bindE (if tf_amount t \<noteq> 0
             then on_ledger (post env id1 (''receipt:'' @ event_id t) ''custody_receipt''
                    [(''external:custody:TIG'', - tf_amount t), (''unattributed:TIG'', tf_amount t)] (JDict []) None) p
             else Inr ([], p)) (\<lambda>(_, p).
        case lookup at_event_id (event_id t) (transfer_attributions p) of
          Some attributed \<Rightarrow> Inr (at_destination attributed, p)
        | None \<Rightarrow>
            (case lookup m_wallet (tf_sender t) (members p) of
               Some member \<Rightarrow>
                 bindE (member_lock (m_id member) p) (\<lambda>_.
                   attribute env id2 t (available (m_id member)) ''verified-source''
                     (JDict [(''wallet'', JStr (tf_sender t))]) p)
             | None \<Rightarrow> Inr (''unattributed:TIG'', p)))))"

text \<open>Python's truth value of a decoded value.\<close>

fun truthy :: "json \<Rightarrow> bool" where
  "truthy JNull = False"
| "truthy (JBool b) = b"
| "truthy (JInt n) = (n \<noteq> 0)"
| "truthy (JFloat t) = (t \<notin> {''0.0'', ''-0.0''})"
| "truthy (JStr s) = (s \<noteq> [])"
| "truthy (JList xs) = (xs \<noteq> [])"
| "truthy (JDict items) = (items \<noteq> [])"

definition attribute_reviewed :: "env \<Rightarrow> string \<Rightarrow> confirmed_transfer \<Rightarrow> string \<Rightarrow> json \<Rightarrow> string option \<Rightarrow> bool \<Rightarrow>
    pool \<Rightarrow> (string \<times> pool) result" where
  "attribute_reviewed env new_id t actor evidence member_id operator p =
     (if actor = [] \<or> \<not> truthy evidence \<or> (\<not> blank member_id) = operator
      then Inl (FundsError ''choose one verified attribution destination and supply operator evidence'')
      else if tf_recipient t \<noteq> net_custody (tf_network t) \<or> tf_sender t = net_custody (tf_network t)
      then Inl (FundsError ''expected incoming custody transfer'') else
      bindE (bind (tf_network t) p) (\<lambda>(_, p).
        if lookup tr_event_id (event_id t) (transfers p) = None
        then Inl (FundsError ''receipt must be observed before operator attribution'') else
        bindE (save_transfer t p) (\<lambda>(_, p).
        bindE (if blank member_id then Inr () else bindE (member_lock (the member_id) p) (\<lambda>_. Inr ())) (\<lambda>_.
          attribute env new_id t (if blank member_id then ''operator:custody:TIG'' else available (the member_id))
            actor evidence p))))"

section \<open>What the operations do\<close>

lemma save_transfer_cases:
  assumes "save_transfer t p = Inr (new, p')"
  obtains (old) previous where "lookup tr_event_id (event_id t) (transfers p) = Some previous" "\<not> new"
      "previous\<lparr>tr_evidence := tf_evidence t\<rparr> = transfer_row_of t" "bind (tf_network t) p = Inr ((), p')"
    | (new) q where "lookup tr_event_id (event_id t) (transfers p) = None" "new"
      "bind (tf_network t) p = Inr ((), q)" "p' = q\<lparr>transfers := transfers p @ [transfer_row_of t]\<rparr>" "0 \<le> tf_amount t"
proof -
  obtain q where q: "bind (tf_network t) p = Inr ((), q)"
    using assms unfolding save_transfer_def bindE_Inr by auto
  then have tr: "transfers q = transfers p" using bind_cases(1) by fastforce
  show ?thesis
  proof (cases "lookup tr_event_id (event_id t) (transfers p)")
    case (Some previous)
    with assms q tr show ?thesis by (intro old) (auto simp: save_transfer_def split: if_splits)
  next
    case None
    with assms q tr show ?thesis by (intro new) (auto simp: save_transfer_def split: if_splits)
  qed
qed

lemma attribute_cases:
  assumes "attribute env i t dest actor evidence p = Inr (d, p')"
  obtains (old) previous where "lookup at_event_id (event_id t) (transfer_attributions p) = Some previous"
      "at_destination previous = dest" "p' = p" "d = dest"
    | (new) j led where "lookup at_event_id (event_id t) (transfer_attributions p) = None" "d = dest"
      "if tf_amount t = 0 then led = ledger p else
         post env i (''attribute:'' @ event_id t) ''deposit_attribution''
           [(''unattributed:TIG'', - tf_amount t), (dest, tf_amount t)]
           (JDict [(''actor'', JStr actor), (''evidence'', evidence)]) None (ledger p) = Inr (j, led)"
      "p' = p\<lparr>ledger := led, transfer_attributions := transfer_attributions p @
         [\<lparr>at_event_id = event_id t, at_destination = dest, at_actor = actor, at_evidence = evidence\<rparr>]\<rparr>"
      "lookup tr_event_id (event_id t) (transfers p) \<noteq> None" "dest \<in> account_ids led"
proof (cases "lookup at_event_id (event_id t) (transfer_attributions p)")
  case (Some previous)
  with assms show ?thesis by (intro old) (auto simp: attribute_def split: if_splits)
next
  case None
  show ?thesis
  proof (cases "tf_amount t = 0")
    case True
    with None assms show ?thesis
      by (intro new [of "ledger p"]) (auto simp: attribute_def lookup_account_iff split: if_splits)
  next
    case False
    then obtain j led where led: "post env i (''attribute:'' @ event_id t) ''deposit_attribution''
           [(''unattributed:TIG'', - tf_amount t), (dest, tf_amount t)]
           (JDict [(''actor'', JStr actor), (''evidence'', evidence)]) None (ledger p) = Inr (j, led)"
      using assms None by (auto simp: attribute_def on_ledger_def bindE_Inr)
    with False None assms show ?thesis
      by (intro new [of led j]) (auto simp: attribute_def on_ledger_def lookup_account_iff split: if_splits)
  qed
qed

lemma save_transfer_effect:
  assumes "save_transfer t p = Inr (new, p')"
  shows "\<exists>row. lookup tr_event_id (event_id t) (transfers p') = Some row \<and> row\<lparr>tr_evidence := tf_evidence t\<rparr> = transfer_row_of t"
    and "save_transfer t p' = Inr (False, p')"
    and "p' = p\<lparr>custody_identity := custody_identity p', transfers := transfers p'\<rparr>"
    and "lookup tr_event_id e (transfers p) \<noteq> None \<Longrightarrow> lookup tr_event_id e (transfers p') = lookup tr_event_id e (transfers p)"
    and "set (transfers p') \<subseteq> insert (transfer_row_of t) (set (transfers p))"
proof -
  show row: "\<exists>row. lookup tr_event_id (event_id t) (transfers p') = Some row \<and> row\<lparr>tr_evidence := tf_evidence t\<rparr> = transfer_row_of t"
    using assms
  proof (cases rule: save_transfer_cases)
    case (old previous)
    have "transfers p' = transfers p" unfolding bind_cases(1) [OF old(4)] by simp
    with old(1,3) show ?thesis by simp
  next
    case (new q)
    then show ?thesis by (simp add: lookup_append transfer_row_of_def)
  qed
  have "bind (tf_network t) p' = Inr ((), p')"
    using assms
  proof (cases rule: save_transfer_cases)
    case (old previous)
    from bind_cases(2) [OF old(4)] show ?thesis by simp
  next
    case (new q)
    have q: "q = p\<lparr>custody_identity := custody_identity q\<rparr>" unfolding bind_cases(1) [OF new(3)] by simp
    have "custody_identity q \<noteq> None" unfolding bind_cases(1) [OF new(3)] by simp
    with bind_cases(2) [OF new(3)] show ?thesis
      by (simp add: bind_def new(4) split: option.splits if_splits)
  qed
  with row show "save_transfer t p' = Inr (False, p')" by (auto simp: save_transfer_def)
  have eq: "p' = p\<lparr>custody_identity := custody_identity p', transfers := transfers p'\<rparr> \<and>
      (transfers p' = transfers p \<or> transfers p' = transfers p @ [transfer_row_of t])"
    using assms
  proof (cases rule: save_transfer_cases)
    case (old previous)
    show ?thesis unfolding bind_cases(1) [OF old(4)] by simp
  next
    case (new q)
    show ?thesis unfolding new(4) bind_cases(1) [OF new(3)] by simp
  qed
  then show "p' = p\<lparr>custody_identity := custody_identity p', transfers := transfers p'\<rparr>" by (rule conjunct1)
  from eq show "lookup tr_event_id e (transfers p) \<noteq> None \<Longrightarrow> lookup tr_event_id e (transfers p') = lookup tr_event_id e (transfers p)"
    by (elim conjE disjE) (auto simp: lookup_append)
  from eq show "set (transfers p') \<subseteq> insert (transfer_row_of t) (set (transfers p))"
    by (elim conjE disjE) auto
qed

section \<open>The invariant of deposits\<close>

abbreviation receipt_key :: "string \<Rightarrow> string" where "receipt_key e \<equiv> ''receipt:'' @ e"
abbreviation attribution_key :: "string \<Rightarrow> string" where "attribution_key e \<equiv> ''attribute:'' @ e"

text \<open>
  A receipt or an attribution is only ever booked for a recorded transfer, and an attribution
  journal only together with its attribution.
\<close>

definition deposits_ok :: "pool \<Rightarrow> bool" where
  "deposits_ok p \<longleftrightarrow>
     (\<forall>e. recorded (ledger p) (receipt_key e) \<or> lookup at_event_id e (transfer_attributions p) \<noteq> None \<longrightarrow>
        lookup tr_event_id e (transfers p) \<noteq> None) \<and>
     (\<forall>e. recorded (ledger p) (attribution_key e) \<longrightarrow> lookup at_event_id e (transfer_attributions p) \<noteq> None)"

definition deposit_keys :: "string \<Rightarrow> bool" where
  "deposit_keys k \<longleftrightarrow> (\<exists>e. k = receipt_key e \<or> k = attribution_key e)"

text \<open>Operations that post no deposit, drop no transfer and attribute nothing keep it.\<close>

lemma deposits_ok_frame:
  assumes "deposits_ok p" and "ledger_by K A (ledger p) (ledger p')" and "\<And>k. K k \<Longrightarrow> \<not> deposit_keys k"
    and "\<And>e. lookup tr_event_id e (transfers p) \<noteq> None \<Longrightarrow> lookup tr_event_id e (transfers p') \<noteq> None"
    and "transfer_attributions p' = transfer_attributions p"
  shows "deposits_ok p'"
proof -
  have "recorded (ledger p') (receipt_key e) = recorded (ledger p) (receipt_key e)" for e
    using assms(3) by (intro ledger_by_recorded [OF assms(2)]) (auto simp: deposit_keys_def)
  moreover have "recorded (ledger p') (attribution_key e) = recorded (ledger p) (attribution_key e)" for e
    using assms(3) by (intro ledger_by_recorded [OF assms(2)]) (auto simp: deposit_keys_def)
  ultimately show ?thesis using assms(1,4,5) unfolding deposits_ok_def by metis
qed

definition receipt_movements :: "confirmed_transfer \<Rightarrow> movement list" where
  "receipt_movements t = [(''external:custody:TIG'', - tf_amount t), (''unattributed:TIG'', tf_amount t)]"

lemma receive_cases:
  assumes "receive env i1 i2 t p = Inr (d, p')"
  obtains new q led where "save_transfer t p = Inr (new, q)"
    and "if tf_amount t = 0 then led = ledger p else
      \<exists>j. post env i1 (receipt_key (event_id t)) ''custody_receipt'' (receipt_movements t) (JDict []) None (ledger p) = Inr (j, led)"
    and "case lookup at_event_id (event_id t) (transfer_attributions p) of
           Some attributed \<Rightarrow> d = at_destination attributed \<and> p' = q\<lparr>ledger := led\<rparr>
         | None \<Rightarrow> (case lookup m_wallet (tf_sender t) (members p) of
             Some member \<Rightarrow> attribute env i2 t (available (m_id member)) ''verified-source''
               (JDict [(''wallet'', JStr (tf_sender t))]) (q\<lparr>ledger := led\<rparr>) = Inr (d, p')
           | None \<Rightarrow> d = ''unattributed:TIG'' \<and> p' = q\<lparr>ledger := led\<rparr>)"
proof -
  obtain new q where q: "save_transfer t p = Inr (new, q)"
    using assms unfolding receive_def raise_if_Inr bindE_Inr by auto
  note frame = save_transfer_effect(3) [OF q]
  have same: "transfer_attributions q = transfer_attributions p" "members q = members p" "ledger q = ledger p"
    by (subst frame, simp)+
  have self: "q\<lparr>ledger := ledger p\<rparr> = q" using same(3) by (metis pool.surjective pool.update_convs(1))
  show ?thesis
  proof (cases "tf_amount t = 0")
    case True
    show ?thesis
      by (rule that [OF q, of "ledger p"])
        (use assms q True in \<open>auto simp: receive_def same self member_lock_def bindE_Inr split: option.splits if_splits\<close>)
  next
    case False
    then obtain j led where led: "post env i1 (receipt_key (event_id t)) ''custody_receipt'' (receipt_movements t) (JDict []) None (ledger p) = Inr (j, led)"
      using assms q by (auto simp: receive_def on_ledger_def same bindE_Inr receipt_movements_def split: if_splits)
    show ?thesis
      by (rule that [OF q, of led])
        (use assms q False led in \<open>auto simp: receive_def on_ledger_def same receipt_movements_def member_lock_def bindE_Inr split: option.splits if_splits\<close>)
  qed
qed

lemma save_transfer_again:
  assumes "save_transfer t q = Inr (False, q)" and "custody_identity p = custody_identity q"
    and "protocol_identity p = protocol_identity q" and "transfers p = transfers q"
  shows "save_transfer t p = Inr (False, p)"
proof -
  have bound: "bind (tf_network t) q = Inr ((), q)" and row: "\<exists>row. lookup tr_event_id (event_id t) (transfers q) = Some row \<and>
      row\<lparr>tr_evidence := tf_evidence t\<rparr> = transfer_row_of t"
    using assms(1) save_transfer_effect(1) [OF assms(1)] by (auto elim: save_transfer_cases)
  have "custody_identity q \<noteq> None" by (subst bind_cases(1) [OF bound]) simp
  with bound have "bind (tf_network t) p = Inr ((), p)"
    using assms(2,3) by (auto simp: bind_def split: if_splits)
  with row assms(4) show ?thesis by (auto simp: save_transfer_def)
qed

lemma attribute_again:
  assumes "attribute env i t dest actor evidence p = Inr (d, p')"
  shows "attribute env j t dest actor evidence p' = Inr (d, p')" and "d = dest"
    and "lookup at_event_id (event_id t) (transfer_attributions p') \<noteq> None"
    and "\<And>a. lookup at_event_id (event_id t) (transfer_attributions p') = Some a \<Longrightarrow> at_destination a = dest"
    and "dest' \<noteq> dest \<Longrightarrow> attribute env j t dest' actor' evidence' p' = Inl (Conflict ''deposit has already been attributed elsewhere'')"
  using assms
  by (cases rule: attribute_cases; force simp: attribute_def lookup_append)+

lemma post_receipt_again:
  assumes "if tf_amount t = 0 then led = led0 else
      \<exists>j. post env i (receipt_key (event_id t)) ''custody_receipt'' (receipt_movements t) (JDict []) None led0 = Inr (j, led)"
  shows "if tf_amount t = 0 then True else
      \<exists>j. post env i' (receipt_key (event_id t)) ''custody_receipt'' (receipt_movements t) (JDict []) None led = Inr (j, led)"
  using assms post_again(1) by (fastforce split: if_splits)

text \<open>The booked receipt stays booked when later postings follow, whatever they are.\<close>

lemma post_stays:
  assumes "\<exists>j. post env i ek kind mv det rv led = Inr (j, led)" and "post env' i' ek' kind' mv' det' rv' led = Inr (j', led')"
    and "recorded led ek"
  shows "\<exists>j. post env i ek kind mv det rv led' = Inr (j, led')"
proof -
  obtain j where j: "post env i ek kind mv det rv led = Inr (j, led)" using assms(1) by blast
  then obtain row where row: "lookup jr_event_key ek (journals led) = Some row"
      "jr_fingerprint row = journal_digest env kind (net_amounts mv) det rv"
    using assms(3) by (cases rule: post_cases) (auto simp: recorded_def)
  have "lookup jr_event_key ek (journals led') = Some row"
    using assms(2) row(1) by (cases rule: post_cases) (auto simp: lookup_append)
  moreover have "ek \<noteq> [] \<and> kind \<noteq> [] \<and> net_amounts mv \<noteq> []" using j unfolding post_Inr_iff by auto
  ultimately show ?thesis using row(2) by (auto simp: post_def Let_def)
qed

section \<open>What the ledger sees of deposits\<close>

definition deposit_accounts :: "string \<Rightarrow> bool" where
  "deposit_accounts k \<longleftrightarrow> k = ''external:custody:TIG'' \<or> k = ''unattributed:TIG'' \<or> k = ''operator:custody:TIG'' \<or> (\<exists>m. k = available m)"

lemma attribute_ledger_by:
  assumes "attribute env i t dest actor evidence p = Inr (d, p')" and "deposit_accounts dest"
  shows "ledger_by deposit_keys deposit_accounts (ledger p) (ledger p')"
  using assms(1)
proof (cases rule: attribute_cases)
  case (old previous)
  then show ?thesis by (simp add: by_nothing)
next
  case (new j led)
  show ?thesis
  proof (cases "tf_amount t = 0")
    case True
    with new(3,4) show ?thesis by (simp add: by_nothing)
  next
    case False
    with new(3) have "ledger_by deposit_keys deposit_accounts (ledger p) led"
      using assms(2) by (intro ledger_by_posted) (auto simp: deposit_keys_def deposit_accounts_def)
    with new(4) show ?thesis by simp
  qed
qed

lemma receipt_ledger_by:
  assumes "if tf_amount t = 0 then led = led0 else
      \<exists>j. post env i (receipt_key (event_id t)) ''custody_receipt'' (receipt_movements t) (JDict []) None led0 = Inr (j, led)"
  shows "ledger_by deposit_keys deposit_accounts led0 led"
proof (cases "tf_amount t = 0")
  case True
  with assms show ?thesis by (simp add: by_nothing)
next
  case False
  with assms obtain j where "post env i (receipt_key (event_id t)) ''custody_receipt'' (receipt_movements t) (JDict []) None led0 = Inr (j, led)"
    by auto
  then show ?thesis
    by (rule ledger_by_posted) (auto simp: deposit_keys_def deposit_accounts_def receipt_movements_def)
qed

lemma receive_ledger_by:
  assumes "receive env i1 i2 t p = Inr (d, p')"
  shows "ledger_by deposit_keys deposit_accounts (ledger p) (ledger p')"
  using assms
proof (cases rule: receive_cases)
  case (1 new q led)
  note first = receipt_ledger_by [OF 1(2)]
  show ?thesis
  proof (cases "lookup at_event_id (event_id t) (transfer_attributions p) = None \<and> lookup m_wallet (tf_sender t) (members p) \<noteq> None")
    case True
    then obtain m where "lookup m_wallet (tf_sender t) (members p) = Some m" by auto
    with 1(3) True have "attribute env i2 t (available (m_id m)) ''verified-source'' (JDict [(''wallet'', JStr (tf_sender t))])
        (q\<lparr>ledger := led\<rparr>) = Inr (d, p')" by simp
    then have "ledger_by deposit_keys deposit_accounts led (ledger p')"
      by (drule_tac attribute_ledger_by) (auto simp: deposit_accounts_def)
    with first show ?thesis by (blast intro: ledger_by_trans)
  next
    case False
    with 1(3) have "ledger p' = led" by (auto split: option.splits)
    with first show ?thesis by simp
  qed
qed

lemma receive_replay:
  assumes "tf_recipient t = net_custody (tf_network t)" and "tf_sender t \<noteq> net_custody (tf_network t)"
    and "save_transfer t p = Inr (False, p)"
    and "if tf_amount t = 0 then True else
      \<exists>j. post env i (receipt_key (event_id t)) ''custody_receipt'' (receipt_movements t) (JDict []) None (ledger p) = Inr (j, ledger p)"
  shows "lookup at_event_id (event_id t) (transfer_attributions p) = Some a \<Longrightarrow> receive env i i2 t p = Inr (at_destination a, p)"
    and "lookup at_event_id (event_id t) (transfer_attributions p) = None \<Longrightarrow> lookup m_wallet (tf_sender t) (members p) = None \<Longrightarrow>
      receive env i i2 t p = Inr (''unattributed:TIG'', p)"
proof -
  obtain j where booked: "(if tf_amount t \<noteq> 0
             then on_ledger (post env i (receipt_key (event_id t)) ''custody_receipt''
                    [(''external:custody:TIG'', - tf_amount t), (''unattributed:TIG'', tf_amount t)] (JDict []) None) p
             else Inr ([], p)) = Inr (j, p)"
    using assms(4) on_ledger_same by (cases "tf_amount t = 0") (force simp: receipt_movements_def)+
  show "lookup at_event_id (event_id t) (transfer_attributions p) = Some a \<Longrightarrow> receive env i i2 t p = Inr (at_destination a, p)"
    and "lookup at_event_id (event_id t) (transfer_attributions p) = None \<Longrightarrow> lookup m_wallet (tf_sender t) (members p) = None \<Longrightarrow>
      receive env i i2 t p = Inr (''unattributed:TIG'', p)"
    unfolding receive_def assms(3) bindE_simps prod.case booked using assms(1,2) by simp_all
qed

lemma receive_again:
  assumes "receive env i1 i2 t p = Inr (d, p')"
  shows "receive env i1' i2' t p' = Inr (d, p')"
  using assms
proof (cases rule: receive_cases)
  case (1 new q led)
  have guard: "\<not> (tf_recipient t \<noteq> net_custody (tf_network t) \<or> tf_sender t = net_custody (tf_network t))"
    using assms unfolding receive_def raise_if_Inr by blast
  note frame = save_transfer_effect(3) [OF 1(1)]
  have q: "members q = members p" "transfer_attributions q = transfer_attributions p" by (subst frame, simp)+
  let ?q = "q\<lparr>ledger := led\<rparr>"
  show ?thesis
  proof (cases "lookup at_event_id (event_id t) (transfer_attributions p) = None \<and> lookup m_wallet (tf_sender t) (members p) \<noteq> None")
    case False
    then have p': "p' = ?q" using 1(3) by (auto split: option.splits)
    have saved: "save_transfer t p' = Inr (False, p')"
      by (rule save_transfer_again [OF save_transfer_effect(2) [OF 1(1)]]) (simp_all add: p')
    have booked: "if tf_amount t = 0 then True else \<exists>j. post env i1' (receipt_key (event_id t)) ''custody_receipt'' (receipt_movements t) (JDict []) None (ledger p') = Inr (j, ledger p')"
    proof -
      have led: "ledger p' = led" by (simp add: p')
      show ?thesis unfolding led by (rule post_receipt_again [OF 1(2)])
    qed
    have same: "transfer_attributions p' = transfer_attributions p" "members p' = members p" by (simp_all add: p' q)
    show ?thesis
    proof (cases "lookup at_event_id (event_id t) (transfer_attributions p)")
      case None
      with False have nobody: "lookup m_wallet (tf_sender t) (members p) = None" by simp
      from receive_replay(2) [OF _ _ saved booked, of i2'] guard None nobody 1(3) show ?thesis by (simp add: same)
    next
      case (Some a)
      from receive_replay(1) [OF _ _ saved booked, of a i2'] guard Some 1(3) show ?thesis by (simp add: same)
    qed
  next
    case True
    then obtain m where m: "lookup m_wallet (tf_sender t) (members p) = Some m" by auto
    with 1(3) True have att: "attribute env i2 t (available (m_id m)) ''verified-source'' (JDict [(''wallet'', JStr (tf_sender t))]) ?q = Inr (d, p')" by simp
    have same: "custody_identity p' = custody_identity q" "protocol_identity p' = protocol_identity q" "transfers p' = transfers q"
      using att by (cases rule: attribute_cases; simp)+
    have saved: "save_transfer t p' = Inr (False, p')"
      by (rule save_transfer_again [OF save_transfer_effect(2) [OF 1(1)] same])
    have booked': "if tf_amount t = 0 then True else \<exists>j. post env i1' (receipt_key (event_id t)) ''custody_receipt'' (receipt_movements t) (JDict []) None (ledger p') = Inr (j, ledger p')"
    proof (cases "tf_amount t = 0")
      case False
      note again = post_receipt_again [OF 1(2), of i1']
      then have booked: "\<exists>j. post env i1' (receipt_key (event_id t)) ''custody_receipt'' (receipt_movements t) (JDict []) None led = Inr (j, led)"
        using False by simp
      then have "recorded led (receipt_key (event_id t))" by (elim exE) (drule post_recorded, blast)
      note rec = this
      from att show ?thesis
      proof (cases rule: attribute_cases)
        case (old previous)
        then have "ledger p' = led" by simp
        with booked show ?thesis by presburger
      next
        case (new j led')
        then have led': "ledger p' = led'" by simp
        from new(3) False have "post env i2 (''attribute:'' @ event_id t) ''deposit_attribution''
           [(''unattributed:TIG'', - tf_amount t), (available (m_id m), tf_amount t)]
           (JDict [(''actor'', JStr ''verified-source''), (''evidence'', JDict [(''wallet'', JStr (tf_sender t))])]) None led = Inr (j, led')"
          by simp
        from post_stays [OF booked this rec] led' show ?thesis by presburger
      qed
    qed simp
    obtain a where "lookup at_event_id (event_id t) (transfer_attributions p') = Some a" "at_destination a = d"
      using attribute_again(2,3,4) [OF att] by blast
    with receive_replay(1) [OF _ _ saved booked', of a i2'] guard show ?thesis by simp
  qed
qed

text \<open>
  C15. A confirmed deposit is booked exactly once. Receiving a transfer not seen before moves
  its amount from the outside account to the available funds of the member whose wallet sent
  it, or to the unattributed account when no member has that wallet, and moves nothing else;
  receiving it again, under any fresh identifiers, returns the same destination and changes
  nothing.
\<close>

theorem receive_books_once:
  assumes "deposits_ok p" and "receive env i1 i2 t p = Inr (d, p')" and "lookup tr_event_id (event_id t) (transfers p) = None"
  shows "d = (case lookup m_wallet (tf_sender t) (members p) of None \<Rightarrow> ''unattributed:TIG'' | Some m \<Rightarrow> available (m_id m)) \<and>
    balance (ledger p') k = balance (ledger p) k + amount_of [(''external:custody:TIG'', - tf_amount t), (d, tf_amount t)] k \<and>
    receive env i1' i2' t p' = Inr (d, p')"
  using assms(2)
proof (cases rule: receive_cases)
  case (1 new q led)
  let ?e = "event_id t"
  have none: "\<not> recorded (ledger p) (receipt_key ?e)" "\<not> recorded (ledger p) (attribution_key ?e)"
      "lookup at_event_id ?e (transfer_attributions p) = None"
    using assms(1,3) unfolding deposits_ok_def by blast+
  have frame: "q = p\<lparr>custody_identity := custody_identity q, transfers := transfers q\<rparr>"
    by (rule save_transfer_effect(3) [OF 1(1)])
  have unattributed: "\<not> recorded led (attribution_key ?e)"
    using 1(2) none(2) by (cases "tf_amount t = 0") (auto simp: post_recorded)
  have receipt: "balance led k = balance (ledger p) k + amount_of (receipt_movements t) k"
  proof (cases "tf_amount t = 0")
    case True
    with 1(2) show ?thesis by (simp add: receipt_movements_def)
  next
    case False
    with 1(2) obtain j where "post env i1 (receipt_key ?e) ''custody_receipt'' (receipt_movements t) (JDict []) None (ledger p) = Inr (j, led)"
      by auto
    then show ?thesis by (rule post_balance) (use none(1) in \<open>simp add: recorded_def\<close>)
  qed
  show ?thesis
  proof (cases "lookup m_wallet (tf_sender t) (members p)")
    case None
    with 1(3) none(3) receipt receive_again [OF assms(2)] show ?thesis
      by (simp add: receipt_movements_def)
  next
    case (Some m)
    with 1(3) none(3) have att: "attribute env i2 t (available (m_id m)) ''verified-source'' (JDict [(''wallet'', JStr (tf_sender t))])
        (q\<lparr>ledger := led\<rparr>) = Inr (d, p')" by simp
    from att have "balance (ledger p') k = balance led k + amount_of [(''unattributed:TIG'', - tf_amount t), (d, tf_amount t)] k"
    proof (cases rule: attribute_cases)
      case (old previous)
      have "transfer_attributions q = transfer_attributions p" by (subst frame) simp
      with none(3) old(1) show ?thesis by simp
    next
      case (new j led')
      with unattributed show ?thesis
        by (cases "tf_amount t = 0") (auto simp: post_balance recorded_def)
    qed
    with receipt Some attribute_again(2) [OF att] receive_again [OF assms(2)] show ?thesis
      by (simp add: receipt_movements_def)
  qed
qed

text \<open>A store with the custody accounts and one member, and a transfer the member sent.\<close>

definition demo_account :: "string \<Rightarrow> account_kind \<Rightarrow> asset \<Rightarrow> account_row" where
  "demo_account k kind a = \<lparr>acc_id = k, acc_kind = kind, acc_asset = a, acc_location = Custody, acc_balance = 0\<rparr>"

definition demo_store :: pool where
  "demo_store = demo_member\<lparr>ledger := empty_ledger\<lparr>accounts :=
     [demo_account ''external:custody:TIG'' KExternal AssetTIG, demo_account ''unattributed:TIG'' KUnattributed AssetTIG,
      demo_account ''operator:custody:TIG'' KOperator AssetTIG, demo_account (available ''m1'') KMember AssetTIG]\<rparr>\<rparr>"

definition demo_net :: network where
  "demo_net = \<lparr>net_chain_id = 1, net_token = ''0x0c'', net_custody = ''0x0b'', net_confirmations = 3, net_decimals = 18,
     net_require_finalized = True\<rparr>"

definition demo_transfer :: confirmed_transfer where
  "demo_transfer = \<lparr>tf_network = demo_net, tf_tx_hash = ''0xt1'', tf_log_index = 0, tf_block_number = 7, tf_block_hash = ''0xh7'',
     tf_block_timestamp = 0, tf_sender = ''0x00000000000000000000000000000000000000aa'', tf_recipient = ''0x0b'',
     tf_amount = 40, tf_evidence = JNull\<rparr>"

definition demo_funded :: pool where
  "demo_funded = (case receive demo_env ''j1'' ''j2'' demo_transfer demo_store of Inl _ \<Rightarrow> empty_pool | Inr r \<Rightarrow> snd r)"

lemma demo_funded_run: "receive demo_env ''j1'' ''j2'' demo_transfer demo_store = Inr (available ''m1'', demo_funded)"
  by code_simp

lemma deposits_ok_start: "journals (ledger p) = [] \<Longrightarrow> transfer_attributions p = [] \<Longrightarrow> deposits_ok p"
  by (simp add: deposits_ok_def recorded_def)

theorem receive_books_once_witness:
  "balance (ledger demo_funded) (available ''m1'') = 40 \<and>
   receive demo_env ''j3'' ''j4'' demo_transfer demo_funded = Inr (available ''m1'', demo_funded)"
proof -
  have "journals (ledger demo_store) = [] \<and> transfer_attributions demo_store = []" by code_simp
  then have "deposits_ok demo_store" by (simp add: deposits_ok_start)
  moreover have "lookup tr_event_id (event_id demo_transfer) (transfers demo_store) = None \<and>
      balance (ledger demo_store) (available ''m1'') = 0" by code_simp
  moreover have "amount_of [(''external:custody:TIG'', - tf_amount demo_transfer), (available ''m1'', tf_amount demo_transfer)] (available ''m1'') = 40"
    by code_simp
  ultimately show ?thesis
    using receive_books_once [OF _ demo_funded_run, of "available ''m1''" "''j3''" "''j4''"]
    by (metis add_0)
qed

section \<open>Reviewed attribution\<close>

lemma optional_post_recorded:
  assumes "if a = (0 :: int) then led = led0 else post env i ek kind mv det rv led0 = Inr (j, led)"
  shows "recorded led k \<Longrightarrow> recorded led0 k \<or> k = ek" and "k \<noteq> ek \<Longrightarrow> recorded led k = recorded led0 k"
  using assms post_recorded [of env i ek kind mv det rv led0 j led k] by (simp_all split: if_splits)

lemma deposits_ok_attribute:
  assumes ok: "deposits_ok p" and run: "attribute env i t dest actor evidence p = Inr (d, p')"
  shows "deposits_ok p'"
  using run
proof (cases rule: attribute_cases)
  case (old previous)
  with ok show ?thesis by simp
next
  case (new j led)
  have rec: "recorded led (receipt_key e) = recorded (ledger p) (receipt_key e)"
    "recorded led (attribution_key e) \<longrightarrow> recorded (ledger p) (attribution_key e) \<or> e = event_id t" for e
    using optional_post_recorded [OF new(3)] by auto
  have at: "lookup at_event_id e (transfer_attributions p') \<noteq> None \<longleftrightarrow>
      lookup at_event_id e (transfer_attributions p) \<noteq> None \<or> e = event_id t" for e
    by (simp add: new(4) lookup_append split: option.splits)
  have "transfers p' = transfers p" "ledger p' = led" by (simp_all add: new(4))
  then show ?thesis
    using ok rec new(5) unfolding deposits_ok_def at by metis
qed

lemma deposits_ok_save_transfer:
  assumes "deposits_ok p" and "save_transfer t p = Inr (new, q)"
  shows "deposits_ok q"
proof (rule deposits_ok_frame [OF assms(1), of "\<lambda>_. False" "\<lambda>_. False"])
  note frame = save_transfer_effect(3) [OF assms(2)]
  show "ledger_by (\<lambda>_. False) (\<lambda>_. False) (ledger p) (ledger q)" by (subst frame) (simp add: by_nothing)
  show "transfer_attributions q = transfer_attributions p" by (subst frame) simp
  show "lookup tr_event_id e (transfers p) \<noteq> None \<Longrightarrow> lookup tr_event_id e (transfers q) \<noteq> None" for e
    using save_transfer_effect(4) [OF assms(2), of e] by simp
qed simp

lemma deposits_ok_receive:
  assumes ok: "deposits_ok p" and run: "receive env i1 i2 t p = Inr (d, p')"
  shows "deposits_ok p'"
  using run
proof (cases rule: receive_cases)
  case (1 new q led)
  let ?q = "q\<lparr>ledger := led\<rparr>"
  have led: "ledger q = ledger p" by (subst save_transfer_effect(3) [OF 1(1)]) simp
  obtain j where posted: "if tf_amount t = 0 then led = ledger p else
      post env i1 (receipt_key (event_id t)) ''custody_receipt'' (receipt_movements t) (JDict []) None (ledger p) = Inr (j, led)"
    using 1(2) by (auto split: if_splits)
  have rec: "recorded led (attribution_key e) = recorded (ledger p) (attribution_key e)"
    "recorded led (receipt_key e) \<longrightarrow> recorded (ledger p) (receipt_key e) \<or> e = event_id t" for e
    using optional_post_recorded [OF posted] by auto
  have "deposits_ok q" by (rule deposits_ok_save_transfer [OF ok 1(1)])
  moreover have "lookup tr_event_id (event_id t) (transfers q) \<noteq> None" using save_transfer_effect(1) [OF 1(1)] by auto
  ultimately have q: "deposits_ok ?q" using rec by (auto simp: deposits_ok_def led)
  have at: "transfer_attributions q = transfer_attributions p" by (subst save_transfer_effect(3) [OF 1(1)]) simp
  show ?thesis
  proof (cases "lookup at_event_id (event_id t) (transfer_attributions p) = None \<and> lookup m_wallet (tf_sender t) (members p) \<noteq> None")
    case True
    then obtain m where "lookup m_wallet (tf_sender t) (members p) = Some m" by auto
    with 1(3) True have "attribute env i2 t (available (m_id m)) ''verified-source'' (JDict [(''wallet'', JStr (tf_sender t))]) ?q = Inr (d, p')"
      by simp
    with q show ?thesis by (rule deposits_ok_attribute)
  next
    case False
    with 1(3) have "p' = ?q" by (auto split: option.splits)
    with q show ?thesis by simp
  qed
qed

lemma attribute_reviewed_cases:
  assumes "attribute_reviewed env i t actor evidence member_id operator p = Inr (d, p')"
  obtains q where "save_transfer t p = Inr (False, q)" "blank member_id = operator" "truthy evidence"
    "tf_recipient t = net_custody (tf_network t)" "tf_sender t \<noteq> net_custody (tf_network t)" "actor \<noteq> []"
    "lookup tr_event_id (event_id t) (transfers p) \<noteq> None"
    "\<not> blank member_id \<Longrightarrow> lookup m_id (the member_id) (members p) \<noteq> None"
    "attribute env i t (if blank member_id then ''operator:custody:TIG'' else available (the member_id)) actor evidence q = Inr (d, p')"
proof -
  have guards: "actor \<noteq> []" "truthy evidence" "blank member_id = operator"
      "tf_recipient t = net_custody (tf_network t)" "tf_sender t \<noteq> net_custody (tf_network t)"
    using assms unfolding attribute_reviewed_def raise_if_Inr by auto
  obtain q1 where q1: "bind (tf_network t) p = Inr ((), q1)"
    using assms unfolding attribute_reviewed_def raise_if_Inr bindE_Inr by auto
  have bound: "bind (tf_network t) q1 = Inr ((), q1)" by (rule bind_cases(2) [OF q1])
  have same: "transfers q1 = transfers p" "members q1 = members p" unfolding bind_cases(1) [OF q1] by simp_all
  from assms have run: "\<not> (lookup tr_event_id (event_id t) (transfers q1) = None) \<and>
      bindE (save_transfer t q1) (\<lambda>(_, p).
        bindE (if blank member_id then Inr () else bindE (member_lock (the member_id) p) (\<lambda>_. Inr ())) (\<lambda>_.
          attribute env i t (if blank member_id then ''operator:custody:TIG'' else available (the member_id))
            actor evidence p)) = Inr (d, p')"
    unfolding attribute_reviewed_def raise_if_Inr q1 bindE_simps prod.case by blast
  then have here: "lookup tr_event_id (event_id t) (transfers p) \<noteq> None" by (simp add: same(1) [symmetric])
  from run obtain new q where q: "save_transfer t q1 = Inr (new, q)"
    and rest: "bindE (if blank member_id then Inr () else bindE (member_lock (the member_id) q) (\<lambda>_. Inr ())) (\<lambda>_.
          attribute env i t (if blank member_id then ''operator:custody:TIG'' else available (the member_id))
            actor evidence q) = Inr (d, p')"
    unfolding bindE_Inr [of "save_transfer t q1"] by auto
  have saved: "save_transfer t p = Inr (new, q)" using q q1 bound by (simp add: save_transfer_def)
  have "\<not> new" using saved here by (cases rule: save_transfer_cases) auto
  moreover have "members q = members p" by (subst save_transfer_effect(3) [OF saved]) simp
  ultimately show ?thesis
    using rest saved here guards that by (cases "blank member_id") (auto simp: member_lock_def split: option.splits)
qed

lemma attribute_balance:
  assumes "deposits_ok p" and "attribute env i t dest actor evidence p = Inr (d, p')"
  shows "balance (ledger p') k = balance (ledger p) k +
    (if lookup at_event_id (event_id t) (transfer_attributions p) = None
     then amount_of [(''unattributed:TIG'', - tf_amount t), (dest, tf_amount t)] k else 0)"
  using assms(2)
proof (cases rule: attribute_cases)
  case (old previous)
  then show ?thesis by simp
next
  case (new j led)
  then have none: "lookup jr_event_key (attribution_key (event_id t)) (journals (ledger p)) = None"
    using assms(1) unfolding deposits_ok_def recorded_def by blast
  have led: "ledger p' = led" by (simp add: new(4))
  show ?thesis
  proof (cases "tf_amount t = 0")
    case False
    with new(3) have "balance led k = balance (ledger p) k + amount_of [(''unattributed:TIG'', - tf_amount t), (dest, tf_amount t)] k"
      using none by (intro post_balance) simp_all
    with new(1) led show ?thesis by simp
  qed (use new led in simp)
qed

text \<open>
  C28. An operator's attribution is final: it books an observed receipt to the chosen member or
  to the operator, moving exactly the amount out of the unattributed funds and only if the
  receipt was not attributed before; and every later reviewed attribution of the same receipt
  that is accepted names the same destination and moves nothing.
\<close>

theorem reviewed_attribution_final:
  assumes "deposits_ok p" and "attribute_reviewed env i t actor evidence member_id operator p = Inr (d, p')"
  shows "deposits_ok p' \<and> d = (if operator then ''operator:custody:TIG'' else available (the member_id)) \<and>
    lookup tr_event_id (event_id t) (transfers p) \<noteq> None \<and>
    balance (ledger p') k = balance (ledger p) k +
      (if lookup at_event_id (event_id t) (transfer_attributions p) = None
       then amount_of [(''unattributed:TIG'', - tf_amount t), (d, tf_amount t)] k else 0) \<and>
    (attribute_reviewed env' i' t actor' evidence' member_id' operator' p' = Inr (d', p'') \<longrightarrow> d' = d \<and> ledger p'' = ledger p')"
proof -
  obtain q where q: "save_transfer t p = Inr (False, q)" and "blank member_id = operator"
    and seen: "lookup tr_event_id (event_id t) (transfers p) \<noteq> None"
    and att: "attribute env i t (if blank member_id then ''operator:custody:TIG'' else available (the member_id)) actor evidence q = Inr (d, p')"
    using assms(2) by (rule attribute_reviewed_cases)
  have same: "ledger q = ledger p" "transfer_attributions q = transfer_attributions p"
    by (subst save_transfer_effect(3) [OF q], simp)+
  have ok: "deposits_ok q" by (rule deposits_ok_save_transfer [OF assms(1) q])
  have "d' = d \<and> ledger p'' = ledger p'"
    if again: "attribute_reviewed env' i' t actor' evidence' member_id' operator' p' = Inr (d', p'')"
  proof -
    obtain r where r: "save_transfer t p' = Inr (False, r)"
      and att': "attribute env' i' t (if blank member_id' then ''operator:custody:TIG'' else available (the member_id')) actor' evidence' r = Inr (d', p'')"
      using again by (rule attribute_reviewed_cases)
    have r_same: "ledger r = ledger p'" "transfer_attributions r = transfer_attributions p'"
      by (subst save_transfer_effect(3) [OF r], simp)+
    from att' show ?thesis
      by (cases rule: attribute_cases) (use attribute_again(2-4) [OF att] in \<open>auto simp: r_same\<close>)
  qed
  then show ?thesis
    using deposits_ok_attribute [OF ok att] attribute_again(2) [OF att] attribute_balance [OF ok att, of k] seen
      \<open>blank member_id = operator\<close> by (simp add: same)
qed

definition demo_stranger :: confirmed_transfer where
  "demo_stranger = demo_transfer\<lparr>tf_sender := ''0x0d''\<rparr>"

definition demo_unattributed :: pool where
  "demo_unattributed = (case receive demo_env ''j1'' ''j2'' demo_stranger demo_store of Inl _ \<Rightarrow> empty_pool | Inr r \<Rightarrow> snd r)"

definition demo_reviewed :: pool where
  "demo_reviewed = (case attribute_reviewed demo_env ''j2'' demo_stranger ''ops'' (JStr ''proof'') (Some ''m1'') False demo_unattributed of
     Inl _ \<Rightarrow> empty_pool | Inr r \<Rightarrow> snd r)"

theorem reviewed_attribution_final_witness:
  "balance (ledger demo_reviewed) (available ''m1'') = 40 \<and> deposits_ok demo_reviewed"
proof -
  have "receive demo_env ''j1'' ''j2'' demo_stranger demo_store = Inr (''unattributed:TIG'', demo_unattributed)" by code_simp
  moreover have "journals (ledger demo_store) = [] \<and> transfer_attributions demo_store = []" by code_simp
  ultimately have "deposits_ok demo_unattributed" by (blast intro: deposits_ok_receive deposits_ok_start)
  moreover have "attribute_reviewed demo_env ''j2'' demo_stranger ''ops'' (JStr ''proof'') (Some ''m1'') False demo_unattributed =
      Inr (available ''m1'', demo_reviewed)" by code_simp
  moreover have "lookup at_event_id (event_id demo_stranger) (transfer_attributions demo_unattributed) = None \<and>
      balance (ledger demo_unattributed) (available ''m1'') = 0 \<and>
      amount_of [(''unattributed:TIG'', - tf_amount demo_stranger), (available ''m1'', tf_amount demo_stranger)] (available ''m1'') = 40"
    by code_simp
  ultimately show ?thesis using reviewed_attribution_final [of demo_unattributed] by force
qed

end
