(* ===== verification/Controls.thy ===== *)
theory Controls
  imports Deposits
begin

text \<open>
  What gates new work: the spending caps of \<open>spending.py\<close>, the readiness of the custody and
  protocol observers (\<open>chain_observer.status\<close>, \<open>funding.status\<close>) and the operator's pause of
  \<open>controls.py\<close>. Functions that take an optional cursor read the same store either way.
\<close>

section \<open>Spending caps\<close>

definition MIN_WINDOW :: int where "MIN_WINDOW = 3600"
definition MAX_WINDOW :: int where "MAX_WINDOW = 31622400"

definition FIELDS :: "string list" where
  "FIELDS = [''tig_fee_window_units'', ''tig_fee_attempt_units'', ''native_fee_window_units'', ''native_fee_attempt_units'']"

definition UNSET :: string where "UNSET = ''spending-cap-unset''"
definition EXHAUSTED :: string where "EXHAUSTED = ''spending-cap''"

text \<open>\<open>ORDER BY key DESC LIMIT 1\<close>.\<close>

definition latest_by :: "('r \<Rightarrow> 'k :: linorder) \<Rightarrow> 'r list \<Rightarrow> 'r option" where
  "latest_by key rows = (case rev (sort_key key rows) of [] \<Rightarrow> None | r # _ \<Rightarrow> Some r)"

definition current :: "pool \<Rightarrow> spending_cap_row option" where
  "current p = latest_by (\<lambda>r. (sc_created_at r, sc_id r)) (spending_caps p)"

fun limits_in_range :: "string list \<Rightarrow> (string \<times> json) list \<Rightarrow> unit result" where
  "limits_in_range [] limits = Inr ()"
| "limits_in_range (name # names) limits =
     (case dict_get name limits of
        None \<Rightarrow> Inl KeyError
      | Some v \<Rightarrow> bindE (units False v) (\<lambda>n.
          if n \<ge> 2 ^ 128 then Inl (FundsError ''spending cap limits are out of range'') else limits_in_range names limits))"

definition text_between :: "nat \<Rightarrow> nat \<Rightarrow> json \<Rightarrow> bool" where
  "text_between lo hi v = (case v of JStr s \<Rightarrow> lo \<le> length s \<and> length s \<le> hi | _ \<Rightarrow> False)"

fun str_of :: "json \<Rightarrow> string" where
  "str_of (JStr s) = s"
| "str_of _ = []"

definition limit_of :: "(string \<times> json) list \<Rightarrow> string \<Rightarrow> int" where
  "limit_of limits name = (case dict_get name limits of None \<Rightarrow> 0 | Some v \<Rightarrow> int_of v)"

text \<open>The validated arguments of \<open>set_cap\<close> as the row they would insert.\<close>

definition cap_row :: "env \<Rightarrow> string \<Rightarrow> int \<Rightarrow> string \<Rightarrow> string \<Rightarrow> string \<Rightarrow> (string \<times> json) list \<Rightarrow> spending_cap_row" where
  "cap_row env new_id window_seconds actor reason event_key limits =
     \<lparr>sc_id = new_id, sc_event_key = event_key, sc_window_seconds = window_seconds,
       sc_tig_fee_window = limit_of limits ''tig_fee_window_units'',
       sc_tig_fee_attempt = limit_of limits ''tig_fee_attempt_units'',
       sc_native_fee_window = limit_of limits ''native_fee_window_units'',
       sc_native_fee_attempt = limit_of limits ''native_fee_attempt_units'',
       sc_actor = actor, sc_reason = reason, sc_created_at = clock env\<rparr>"

definition set_cap :: "env \<Rightarrow> string \<Rightarrow> json \<Rightarrow> json \<Rightarrow> json \<Rightarrow> json \<Rightarrow> (string \<times> json) list \<Rightarrow> pool \<Rightarrow>
    (spending_cap_row \<times> pool) result" where
  "set_cap env new_id window_seconds actor reason event_key limits p =
     (if set (map fst limits) \<noteq> set FIELDS
      then Inl (FundsError ''a spending cap needs window and per-attempt limits for TIG fees and native gas'') else
      bindE (limits_in_range FIELDS limits) (\<lambda>_.
      if \<not> (case window_seconds of JInt n \<Rightarrow> MIN_WINDOW \<le> n \<and> n \<le> MAX_WINDOW | _ \<Rightarrow> False)
      then Inl (FundsError ''spending cap window must be between one hour and one year, in seconds'')
      else if \<not> (text_between 1 128 actor \<and> text_between 1 1000 reason \<and> text_between 1 128 event_key)
      then Inl (FundsError ''spending cap changes require an operator, reason and event key'')
      else if limit_of limits ''tig_fee_attempt_units'' > limit_of limits ''tig_fee_window_units'' \<or>
              limit_of limits ''native_fee_attempt_units'' > limit_of limits ''native_fee_window_units''
      then Inl (FundsError ''per-attempt limits cannot exceed their window limits'')
      else let row = cap_row env new_id (int_of window_seconds) (str_of actor) (str_of reason) (str_of event_key) limits in
      case lookup sc_event_key (str_of event_key) (spending_caps p) of
        Some previous \<Rightarrow>
          if previous\<lparr>sc_id := new_id, sc_created_at := clock env\<rparr> \<noteq> row
          then Inl (Conflict ''spending cap event key was reused with different inputs'')
          else Inr (previous, p)
      | None \<Rightarrow>
          if lookup sc_id new_id (spending_caps p) \<noteq> None then Inl (IntegrityError ''spending_caps'')
          else Inr (row, p\<lparr>spending_caps := spending_caps p @ [row]\<rparr>)))"

record commitments =
  co_tig_fee :: int
  co_native_fee :: int
  co_window_started_at :: timestamp
  co_checked_at :: timestamp

text \<open>Whether a moment is inside the half-open window \<open>(since, now]\<close>.\<close>

definition inside_window :: "timestamp \<Rightarrow> timestamp \<Rightarrow> timestamp \<Rightarrow> bool" where
  "inside_window since now t \<longleftrightarrow> since < t \<and> t \<le> now"

definition potentially_sent :: "pool \<Rightarrow> (timestamp \<Rightarrow> bool) \<Rightarrow> string \<Rightarrow> bool" where
  "potentially_sent p inside identity \<longleftrightarrow>
     (\<exists>e \<in> set (reservation_events p). re_reservation_id e = identity \<and> re_kind e = ''potentially_sent'' \<and> inside (re_created_at e))"

text \<open>The reservations whose fee ceiling counts against the window.\<close>

definition fee_counts :: "pool \<Rightarrow> timestamp \<Rightarrow> timestamp \<Rightarrow> string option \<Rightarrow> reservation_row \<Rightarrow> bool" where
  "fee_counts p since now exclude r \<longleftrightarrow> exclude \<noteq> Some (r_id r) \<and>
     (potentially_sent p (inside_window since now) (r_id r) \<or> (r_state r = Reserved \<and> inside_window since now (r_created_at r)))"

definition committed :: "env \<Rightarrow> spending_cap_row \<Rightarrow> timestamp option \<Rightarrow> string option \<Rightarrow> pool \<Rightarrow> commitments" where
  "committed env cap moment exclude p =
     (let now = (case moment of None \<Rightarrow> clock env | Some t \<Rightarrow> t); since = now - seconds (sc_window_seconds cap)
      in \<lparr>co_tig_fee = sum_where (fee_counts p since now exclude) r_fee_limit (reservations p),
           co_native_fee = sum_where (\<lambda>a. inside_window since now (wa_sent_at a)) wa_fee_limit (withdrawal_attempts p) +
             sum_where (\<lambda>t. inside_window since now (pt_sent_at t)) pt_fee_limit (protocol_topups p),
           co_window_started_at = since, co_checked_at = now\<rparr>)"

definition check_fee :: "env \<Rightarrow> int \<Rightarrow> string option \<Rightarrow> pool \<Rightarrow> unit result" where
  "check_fee env fee_limit reservation_id p =
     bindE (units False (JInt fee_limit)) (\<lambda>_.
       case current p of
         None \<Rightarrow> Inl (Conflict ''no spending cap is recorded; the pool commits no submission fees without one'')
       | Some cap \<Rightarrow>
           if fee_limit > sc_tig_fee_attempt cap
           then Inl (Conflict ''submission fee ceiling exceeds the per-attempt spending cap'')
           else if co_tig_fee (committed env cap None reservation_id p) + fee_limit > sc_tig_fee_window cap
           then Inl (Conflict ''protocol fee spending cap for the current window is reached'')
           else Inr ())"

definition check_gas :: "env \<Rightarrow> int \<Rightarrow> pool \<Rightarrow> unit result" where
  "check_gas env fee_limit p =
     bindE (units True (JInt fee_limit)) (\<lambda>_.
       case current p of
         None \<Rightarrow> Inl (Conflict ''no spending cap is recorded; the pool reserves no custody gas without one'')
       | Some cap \<Rightarrow>
           if fee_limit > sc_native_fee_attempt cap
           then Inl (Conflict ''gas ceiling exceeds the per-send spending cap'')
           else if co_native_fee (committed env cap None None p) + fee_limit > sc_native_fee_window cap
           then Inl (Conflict ''custody gas spending cap for the current window is reached'')
           else Inr ())"

definition spending_blocked :: "env \<Rightarrow> pool \<Rightarrow> string option" where
  "spending_blocked env p =
     (case current p of
        None \<Rightarrow> Some UNSET
      | Some cap \<Rightarrow> if co_tig_fee (committed env cap None None p) \<ge> sc_tig_fee_window cap then Some EXHAUSTED else None)"

record spending_status =
  ss_configured :: bool
  ss_cap :: "spending_cap_row option"
  ss_window :: "(commitments \<times> int \<times> int) option"
  ss_block_reason :: "string option"

text \<open>The window of the status holds what is committed and what remains of both limits.\<close>

definition spending_status_of :: "env \<Rightarrow> timestamp option \<Rightarrow> pool \<Rightarrow> spending_status" where
  "spending_status_of env now p =
     (case current p of
        None \<Rightarrow> \<lparr>ss_configured = False, ss_cap = None, ss_window = None, ss_block_reason = Some UNSET\<rparr>
      | Some cap \<Rightarrow>
          let used = committed env cap now None p;
              tig_left = max (sc_tig_fee_window cap - co_tig_fee used) 0;
              native_left = max (sc_native_fee_window cap - co_native_fee used) 0
          in \<lparr>ss_configured = True, ss_cap = Some cap, ss_window = Some (used, tig_left, native_left),
               ss_block_reason = (if tig_left = 0 then Some EXHAUSTED else None)\<rparr>)"

section \<open>Observers\<close>

record observer_status =
  os_initialized :: bool
  os_ready :: bool
  os_stream :: "chain_stream_row option"
  os_check :: "custody_check_row option"

text \<open>Between five seconds in the future and two minutes old.\<close>

definition fresh :: "env \<Rightarrow> timestamp \<Rightarrow> bool" where
  "fresh env checked_at \<longleftrightarrow> seconds (-5) \<le> clock env - checked_at \<and> clock env - checked_at \<le> seconds 120"

text \<open>\<open>chain_observer.status\<close>: ready when the newest check is healthy, fresh and still equals the recorded funds.\<close>

definition observer_status_of :: "env \<Rightarrow> pool \<Rightarrow> observer_status result" where
  "observer_status_of env p =
     (case chain_stream p of
        None \<Rightarrow> Inr \<lparr>os_initialized = False, os_ready = False, os_stream = None, os_check = None\<rparr>
      | Some stream \<Rightarrow>
          let latest = (case rev (custody_checks p) of [] \<Rightarrow> None | c # _ \<Rightarrow> Some c)
          in bindE (case latest of
                      None \<Rightarrow> Inr False
                    | Some c \<Rightarrow>
                        if \<not> cc_healthy c \<or> \<not> fresh env (cc_checked_at c) then Inr False else
                        (case (cc_recorded_tig c, cc_recorded_native c) of
                           (Some tig, Some native) \<Rightarrow>
                             Inr ((tig, native) = (backing (ledger p) AssetTIG Custody, backing (ledger p) AssetNATIVE Custody))
                         | _ \<Rightarrow> Inl TypeError))
               (\<lambda>ready. Inr \<lparr>os_initialized = True, os_ready = ready, os_stream = Some stream, os_check = latest\<rparr>))"

definition protocol_balance :: "pool \<Rightarrow> int" where
  "protocol_balance p = sum_where (\<lambda>a. acc_location a = Protocol \<and> acc_asset a = AssetTIG \<and> acc_kind a \<noteq> KExternal)
     acc_balance (accounts (ledger p))"

record funding_status =
  fs_initialized :: bool
  fs_ready :: bool
  fs_player_id :: string
  fs_recorded :: int
  fs_observation :: "funding_capture_row option"
  fs_conflicts :: "funding_alert_row list"

definition funding_status_of :: "env \<Rightarrow> pool \<Rightarrow> funding_status result" where
  "funding_status_of env p =
     (case protocol_identity p of
        None \<Rightarrow> Inr \<lparr>fs_initialized = False, fs_ready = False, fs_player_id = [], fs_recorded = 0,
          fs_observation = None, fs_conflicts = []\<rparr>
      | Some player \<Rightarrow>
          let latest = latest_by (\<lambda>c. (fc_checked_at c, fc_created_at c, fc_id c))
                (filter (\<lambda>c. fc_player_id c = player) (funding_captures p));
              recorded = protocol_balance p;
              conflicts = take 20 (rev (sort_key fa_created_at (funding_alerts p)))
          in bindE (if conflicts \<noteq> [] then Inr False else
                    case latest of
                      None \<Rightarrow> Inr False
                    | Some c \<Rightarrow>
                        if \<not> fc_complete c \<or> \<not> fresh env (fc_checked_at c) then Inr False else
                        (case fc_available c of None \<Rightarrow> Inl TypeError | Some n \<Rightarrow> Inr (n = recorded)))
               (\<lambda>ready. Inr \<lparr>fs_initialized = True, fs_ready = ready, fs_player_id = player, fs_recorded = recorded,
                  fs_observation = latest, fs_conflicts = conflicts\<rparr>))"

text \<open>\<open>funding.amount\<close>: one to 78 decimal digits.\<close>

definition funding_amount :: "json \<Rightarrow> int result" where
  "funding_amount value =
     (case value of
        JStr s \<Rightarrow> if 1 \<le> length s \<and> length s \<le> 78 \<and> list_all is_digit s then Inr (int (text_value s))
          else Inl (FundsError ''TIG funding amounts must be exact integer-unit strings'')
      | _ \<Rightarrow> Inl (FundsError ''TIG funding amounts must be exact integer-unit strings''))"

section \<open>The operator's pause\<close>

definition paused :: "pool \<Rightarrow> bool" where
  "paused p \<longleftrightarrow> new_work_paused p = Some True"

text \<open>\<open>controls.blocked\<close>: the first reason, in this order, that no new work may start.\<close>

definition blocked :: "env \<Rightarrow> pool \<Rightarrow> string option result" where
  "blocked env p =
     (if paused p then Inr (Some ''operator-pause'') else
      case spending_blocked env p of
        Some reason \<Rightarrow> Inr (Some reason)
      | None \<Rightarrow>
          bindE (observer_status_of env p) (\<lambda>custody.
            if os_initialized custody \<and> \<not> os_ready custody then Inr (Some ''custody-reconciliation'') else
            bindE (funding_status_of env p) (\<lambda>protocol.
              if fs_initialized protocol \<and> \<not> fs_ready protocol then Inr (Some ''protocol-fee-reconciliation'')
              else Inr None)))"

definition set_pause :: "json \<Rightarrow> string \<Rightarrow> string \<Rightarrow> string \<Rightarrow> pool \<Rightarrow> (control_event_row \<times> pool) result" where
  "set_pause value actor reason event_key p =
     (case value of
        JBool v \<Rightarrow>
          if actor = [] \<or> reason = [] \<or> event_key = []
          then Inl (FundsError ''pause changes require an operator, reason and event key'') else
          (case lookup ce_event_key event_key (runtime_control_events p) of
             Some previous \<Rightarrow>
               if (ce_after_value previous, ce_actor previous, ce_reason previous) \<noteq> (v, actor, reason)
               then Inl (Conflict ''control event key was reused'')
               else Inr (previous, p)
           | None \<Rightarrow>
               let row = \<lparr>ce_event_key = event_key, ce_before_value = paused p, ce_after_value = v, ce_actor = actor, ce_reason = reason\<rparr>
               in Inr (row, p\<lparr>new_work_paused := Some v, runtime_control_events := runtime_control_events p @ [row]\<rparr>))
      | _ \<Rightarrow> Inl (FundsError ''pause changes require an operator, reason and event key''))"

end
