(* ===== verification/Pilot.thy ===== *)
theory Pilot
  imports Controls
begin

text \<open>
  \<open>pool_manager/pool_v2/pilot.py\<close>: the opt-in cumulative limits of a two-member test pilot, its
  reviewed phases and the check every reservation and first send passes when limits are
  installed. The recorded configuration is kept in the normalised form \<open>validate\<close> returns.
\<close>

definition API_ORIGIN :: string where "API_ORIGIN = ''https://testnet-api.tig.foundation''"
definition CHAIN_ID :: int where "CHAIN_ID = 84532"
definition TOKEN :: string where "TOKEN = ''0x3366feee9bbe5b830df9e1fa743828732b13959a''"

section \<open>Configuration\<close>

definition PILOT_FIELDS :: "string list" where
  "PILOT_FIELDS = [''version'', ''api_origin'', ''chain_id'', ''token'', ''pool_wallet'',
     ''maximum_total_tig_units'', ''max_fee_per_attempt_units'', ''members'']"

definition field :: "(string \<times> json) list \<Rightarrow> string \<Rightarrow> json" where
  "field items k = (case dict_get k items of None \<Rightarrow> JNull | Some v \<Rightarrow> v)"

text \<open>A configured member: a wallet and the funding it may receive, validated in turn.\<close>

fun pilot_members :: "json list \<Rightarrow> (string \<times> int) list result" where
  "pilot_members [] = Inr []"
| "pilot_members (m # ms) =
     (case m of
        JDict items \<Rightarrow>
          if set (map fst items) \<noteq> {''wallet'', ''funding_units''}
          then Inl (FundsError ''each pilot member requires a wallet and exact funding allowance'') else
          bindE (funding_amount (field items ''funding_units'')) (\<lambda>n.
            if n \<le> 0 then Inl (FundsError ''pilot members require positive funding'') else
            bindE (address (field items ''wallet'')) (\<lambda>w.
              bindE (pilot_members ms) (\<lambda>rest. Inr ((w, n) # rest))))
      | _ \<Rightarrow> Inl (FundsError ''each pilot member requires a wallet and exact funding allowance''))"

definition validate :: "json \<Rightarrow> pilot_config result" where
  "validate config =
     (case config of
        JDict items \<Rightarrow>
          if set (map fst items) \<noteq> set PILOT_FIELDS
          then Inl (FundsError ''pilot configuration has missing or unknown fields'')
          else if field items ''version'' \<noteq> JInt 1 \<or> field items ''api_origin'' \<noteq> JStr API_ORIGIN \<or>
            field items ''chain_id'' \<noteq> JInt CHAIN_ID \<or> field items ''token'' \<noteq> JStr TOKEN
          then Inl (FundsError ''CPU pilot requires the explicit TIG testnet chain, token and API'') else
          bindE (address (field items ''pool_wallet'')) (\<lambda>wallet.
          bindE (funding_amount (field items ''maximum_total_tig_units'')) (\<lambda>total.
          bindE (funding_amount (field items ''max_fee_per_attempt_units'')) (\<lambda>fee.
            if \<not> (0 < total \<and> total \<le> 5 * TIG) \<or> \<not> (0 < fee \<and> fee \<le> total)
            then Inl (FundsError ''pilot maximum must be at most 5 TIG with a positive fee allowance'') else
            case field items ''members'' of
              JList pair \<Rightarrow>
                if length pair \<noteq> 2 then Inl (FundsError ''pilot requires exactly two members, in execution order'') else
                bindE (pilot_members pair) (\<lambda>normalized.
                  if card (set (wallet # map fst normalized)) \<noteq> 3
                  then Inl (FundsError ''pilot pool and member wallets must be distinct'')
                  else if sum_list (map snd normalized) + 2 * fee > total
                  then Inl (FundsError ''combined member funding and both fee allowances exceed the pilot budget'')
                  else Inr \<lparr>pc_api_origin = API_ORIGIN, pc_chain_id = CHAIN_ID, pc_token = TOKEN, pc_pool_wallet = wallet,
                    pc_maximum_total = total, pc_max_fee_per_attempt = fee, pc_members = normalized\<rparr>)
            | _ \<Rightarrow> Inl (FundsError ''pilot requires exactly two members, in execution order''))))
      | _ \<Rightarrow> Inl (FundsError ''pilot configuration has missing or unknown fields''))"

section \<open>Phases\<close>

record pilot_status =
  ps_config :: pilot_config
  ps_attempts_used :: int
  ps_phase_number :: int
  ps_phase :: phase_config
  ps_committed_fee :: int
  ps_member_allocation :: int
  ps_attributed_receipts :: int
  ps_unattributed :: int
  ps_within_allocation :: bool

definition policy :: "pool \<Rightarrow> pilot_config option" where
  "policy p = pilot_limits p"

definition initial_phase :: "pilot_config \<Rightarrow> phase_config" where
  "initial_phase config = \<lparr>pq_phase_key = ''initial-cpu-pilot'', pq_attempt_limit = 2,
     pq_members = map (\<lambda>(w, n). \<lparr>pm_wallet = w, pm_funding_units = n, pm_attempt_limit = 1\<rparr>) (pc_members config)\<rparr>"

definition phase :: "pilot_config \<Rightarrow> pool \<Rightarrow> int \<times> phase_config" where
  "phase config p =
     (case latest_by pp_number (pilot_phases p) of
        Some row \<Rightarrow> (pp_number row, pp_config row)
      | None \<Rightarrow> (0, initial_phase config))"

text \<open>Receipts at the pool wallet that were attributed, at their full original amount.\<close>

definition attributed_receipts :: "pilot_config \<Rightarrow> pool \<Rightarrow> int" where
  "attributed_receipts config p = sum_where
     (\<lambda>t. tr_event_id t \<in> set (map at_event_id (transfer_attributions p)) \<and> tr_recipient t = pc_pool_wallet config \<and>
        tr_sender t \<noteq> tr_recipient t) tr_amount (transfers p)"

fun phase_members :: "json list \<Rightarrow> pilot_member list result" where
  "phase_members [] = Inr []"
| "phase_members (m # ms) =
     (case m of
        JDict items \<Rightarrow>
          if set (map fst items) \<noteq> {''wallet'', ''funding_units'', ''attempt_limit''} \<or>
             \<not> is_positive_int (field items ''attempt_limit'')
          then Inl (FundsError ''each phase member needs a cumulative funding and attempt limit'') else
          bindE (funding_amount (field items ''funding_units'')) (\<lambda>n.
            if n \<le> 0 then Inl (FundsError ''member funding allowance must be positive'') else
            bindE (address (field items ''wallet'')) (\<lambda>w.
              bindE (phase_members ms) (\<lambda>rest. Inr (\<lparr>pm_wallet = w, pm_funding_units = n,
                pm_attempt_limit = int_of (field items ''attempt_limit'')\<rparr> # rest))))
      | _ \<Rightarrow> Inl (FundsError ''each phase member needs a cumulative funding and attempt limit''))"

text \<open>The text arguments whose stripped length is bounded.\<close>

definition stripped_between :: "nat \<Rightarrow> nat \<Rightarrow> json \<Rightarrow> bool" where
  "stripped_between lo hi v = (case v of JStr s \<Rightarrow> lo \<le> length (strip s) \<and> length (strip s) \<le> hi | _ \<Rightarrow> False)"

definition phase_value :: "json \<Rightarrow> phase_config result" where
  "phase_value value =
     (case value of
        JDict items \<Rightarrow>
          (case (field items ''attempt_limit'', field items ''members'') of
             (JInt limit, JList pair) \<Rightarrow>
               if set (map fst items) \<noteq> {''version'', ''phase_key'', ''attempt_limit'', ''members''} \<or>
                  field items ''version'' \<noteq> JInt 2 \<or> \<not> stripped_between 1 128 (field items ''phase_key'') \<or>
                  limit < 2 \<or> length pair \<noteq> 2
               then Inl (FundsError ''invalid cumulative pilot phase'') else
               bindE (phase_members pair) (\<lambda>normalized.
                 if sum_list (map pm_attempt_limit normalized) \<noteq> limit
                 then Inl (FundsError ''member attempt allowances must sum to the total attempt limit'')
                 else Inr \<lparr>pq_phase_key = str_of (field items ''phase_key''), pq_attempt_limit = limit, pq_members = normalized\<rparr>)
           | _ \<Rightarrow> Inl (FundsError ''invalid cumulative pilot phase''))
      | _ \<Rightarrow> Inl (FundsError ''invalid cumulative pilot phase''))"

text \<open>The pairwise comparison of the members before and after, in order; \<open>zip\<close> stops at the shorter list.\<close>

fun retained :: "pilot_member list \<Rightarrow> pilot_member list \<Rightarrow> unit result" where
  "retained (b # bs) (a # as) =
     (if pm_wallet b \<noteq> pm_wallet a
      then Inl (Conflict ''later phases must retain both original member identities and order'')
      else if pm_funding_units a < pm_funding_units b \<or> pm_attempt_limit a < pm_attempt_limit b
      then Inl (Conflict ''cumulative phase allowances cannot decrease or reset'')
      else retained bs as)"
| "retained _ _ = Inr ()"

definition sent_attempts :: "pool \<Rightarrow> reservation_event_row list" where
  "sent_attempts p = filter (\<lambda>e. re_kind e = ''potentially_sent'') (reservation_events p)"

definition extend :: "json \<Rightarrow> json \<Rightarrow> json \<Rightarrow> json \<Rightarrow> pool \<Rightarrow> (pilot_phase \<times> pool) result" where
  "extend value expected_phase actor reason p =
     (if \<not> (case expected_phase of JInt n \<Rightarrow> 0 \<le> n | _ \<Rightarrow> False) \<or> \<not> stripped_between 1 200 actor \<or>
         \<not> stripped_between 1 1000 reason
      then Inl (FundsError ''phase extension requires an expected revision, operator and reason'') else
      bindE (phase_value value) (\<lambda>config'.
        case policy p of
          None \<Rightarrow> Inl (Conflict ''initial pilot policy must exist before extending it'')
        | Some config \<Rightarrow>
            (case lookup (pq_phase_key \<circ> pp_config) (pq_phase_key config') (pilot_phases p) of
               Some old \<Rightarrow>
                 if (pp_config old, pp_previous_number old, pp_actor old, pp_reason old) \<noteq>
                    (config', int_of expected_phase, str_of actor, str_of reason)
                 then Inl (Conflict ''phase key was reused with different inputs'')
                 else Inr (old, p)
             | None \<Rightarrow>
                 let (number, before) = phase config p; planned = sum_list (map pm_funding_units (pq_members config')) in
                 if number \<noteq> int_of expected_phase
                 then Inl (Conflict ''pilot phase changed; review the current cumulative allowances'')
                 else if \<not> paused p then Inl (Conflict ''pause new work before reviewing a later pilot phase'')
                 else if \<exists>r \<in> set (reservations p). r_state r \<in> {Reserved, Uncertain, Accepted}
                 then Inl (Conflict ''finish or reconcile in-flight pilot work before extending'') else
                 bindE (retained (pq_members before) (pq_members config')) (\<lambda>_.
                   if pq_members config' = pq_members before
                   then Inl (Conflict ''phase does not change the existing allowances'')
                   else if planned + pq_attempt_limit config' * pc_max_fee_per_attempt config > pc_maximum_total config
                   then Inl (FundsError ''cumulative funding and all fee ceilings exceed the original pilot budget'')
                   else if attributed_receipts config p > planned
                   then Inl (Conflict ''existing attributed receipts exceed the proposed phase allocation'')
                   else if length (str_of actor) > 200 \<or> length (str_of reason) > 1000 \<or> length (pq_phase_key config') > 128
                   then Inl (IntegrityError ''pilot_phases'')
                   else let row = \<lparr>pp_number = int_of expected_phase + 1, pp_config = config',
                          pp_previous_number = int_of expected_phase, pp_attempts_before = int (length (sent_attempts p)),
                          pp_actor = str_of actor, pp_reason = str_of reason\<rparr>
                     in Inr (row, p\<lparr>pilot_phases := pilot_phases p @ [row]\<rparr>)))))"

definition initialize :: "json \<Rightarrow> json \<Rightarrow> pool \<Rightarrow> (pilot_config \<times> pool) result" where
  "initialize value actor p =
     bindE (validate value) (\<lambda>config.
       if \<not> (case actor of JStr s \<Rightarrow> strip s \<noteq> [] \<and> length s \<le> 200 | _ \<Rightarrow> False)
       then Inl (FundsError ''pilot limits require a named setup operator'') else
       case policy p of
         Some previous \<Rightarrow>
           if previous \<noteq> config then Inl (Conflict ''recorded pilot limits cannot be changed or reset'')
           else Inr (previous, p)
       | None \<Rightarrow>
           if reservations p \<noteq> [] \<or> protocol_topups p \<noteq> []
           then Inl (Conflict ''pilot limits must be installed before any work or top-up'')
           else if (case custody_identity p of None \<Rightarrow> True | Some i \<Rightarrow>
             (ci_chain_id i, ci_token i, ci_wallet i, ci_decimals i) \<noteq> (pc_chain_id config, pc_token config, pc_pool_wallet config, 18))
           then Inl (Conflict ''pilot requires the matching initialized testnet custody identity'')
           else Inr (config, p\<lparr>pilot_limits := Some config\<rparr>))"

definition require_service :: "string \<Rightarrow> json \<Rightarrow> bool \<Rightarrow> pool \<Rightarrow> pilot_config option result" where
  "require_service api_origin player_id required p =
     (case policy p of
        None \<Rightarrow> if required then Inl (Conflict ''deployment requires installed pilot limits'') else Inr None
      | Some config \<Rightarrow>
          bindE (address player_id) (\<lambda>wallet.
            if (api_origin, wallet) \<noteq> (pc_api_origin config, pc_pool_wallet config)
            then Inl (Conflict ''pilot database cannot use a different submission network or player'')
            else Inr (Some config)))"

section \<open>The check before a reservation or a send\<close>

text \<open>The reservations sent so far with their members' wallets, in the order of their events.\<close>

definition sent_rows :: "pool \<Rightarrow> (reservation_row \<times> string) list" where
  "sent_rows p = concat (map (\<lambda>e.
     case lookup r_id (re_reservation_id e) (reservations p) of
       None \<Rightarrow> []
     | Some r \<Rightarrow> (case lookup m_id (r_member_id r) (members p) of None \<Rightarrow> [] | Some m \<Rightarrow> [(r, m_wallet m)]))
     (sort_key (\<lambda>e. (re_created_at e, re_key e)) (sent_attempts p)))"

text \<open>\<open>payload.get('settings', {}).get('player_id')\<close>.\<close>

definition payload_player :: "json \<Rightarrow> json result" where
  "payload_player payload =
     (case payload of
        JDict items \<Rightarrow>
          (case dict_get ''settings'' items of
             None \<Rightarrow> Inr JNull
           | Some (JDict settings) \<Rightarrow> Inr (field settings ''player_id'')
           | Some _ \<Rightarrow> Inl AttributeError)
      | _ \<Rightarrow> Inl AttributeError)"

text \<open>\<open>check\<close>, whose conditions are tried in this order.\<close>

definition check :: "env \<Rightarrow> string \<Rightarrow> string \<Rightarrow> int \<Rightarrow> int \<Rightarrow> json \<Rightarrow> string option \<Rightarrow> pool \<Rightarrow> unit result" where
  "check env wallet resource amount fee_limit payload reservation_id p =
     (case policy p of
        None \<Rightarrow> Inr ()
      | Some config \<Rightarrow>
          let (number, allowances) = phase config p; sent = sent_rows p;
              planned = sum_list (map pm_funding_units (pq_members allowances)) in
          bindE (observer_status_of env p) (\<lambda>custody.
          bindE (if os_ready custody then funding_status_of env p else Inr \<lparr>fs_initialized = False, fs_ready = False,
              fs_player_id = [], fs_recorded = 0, fs_observation = None, fs_conflicts = []\<rparr>) (\<lambda>protocol.
            if \<not> os_ready custody \<or> \<not> fs_ready protocol
            then Inl (Conflict ''pilot requires fresh reconciled custody and fee observers'') else
            bindE (if resource \<noteq> ''CPU'' then Inr JNull else payload_player payload) (\<lambda>player.
            if resource \<noteq> ''CPU'' \<or> player \<noteq> JStr (pc_pool_wallet config)
            then Inl (Conflict ''pilot permits only CPU work for its configured pool account'')
            else if \<not> (0 \<le> fee_limit \<and> fee_limit \<le> pc_max_fee_per_attempt config)
            then Inl (Conflict ''current submission fee exceeds the pilot allowance'')
            else if int (length sent) \<ge> pq_attempt_limit allowances
            then Inl (Conflict (if number = 0 then ''pilot has used both precommit attempts''
              else ''pilot has used its cumulative precommit attempt limit''))
            else if \<exists>(r, _) \<in> set sent. r_state r \<noteq> Active
            then Inl (Conflict ''pilot waits for confirmed activation; failure or uncertainty stops further work'') else
            bindE (if number = 0 then
                     (if length sent \<ge> length (pq_members allowances) then Inl IndexError else
                      let expected = pq_members allowances ! length sent in
                      if wallet \<noteq> pm_wallet expected \<or> (\<exists>(_, w) \<in> set sent. w = wallet)
                      then Inl (Conflict ''pilot permits one attempt per member in the recorded order'')
                      else Inr expected)
                   else
                     (case lookup pm_wallet wallet (pq_members allowances) of
                        None \<Rightarrow> Inl (Conflict ''member has used its cumulative pilot attempt limit'')
                      | Some expected \<Rightarrow>
                          if int (length (filter (\<lambda>(_, w). w = wallet) sent)) \<ge> pm_attempt_limit expected
                          then Inl (Conflict ''member has used its cumulative pilot attempt limit'')
                          else Inr expected)) (\<lambda>expected.
            if \<not> (0 < amount \<and> amount \<le> pm_funding_units expected)
            then Inl (Conflict ''pilot requires positive collateral within the member funding allowance'')
            else if \<exists>r \<in> set (reservations p). r_state r = Reserved \<and> Some (r_id r) \<noteq> reservation_id
            then Inl (Conflict ''pilot permits only one outstanding work reservation'')
            else if planned + sum_list (map (r_fee_limit \<circ> fst) sent) + fee_limit > pc_maximum_total config
            then Inl (Conflict ''combined pilot funding and submission fees exceed the total budget'')
            else if attributed_receipts config p > planned
            then Inl (Conflict ''pilot attributed custody receipts exceed the recorded funding allocation'')
            else Inr ())))))"

definition prohibit_topup :: "pool \<Rightarrow> unit result" where
  "prohibit_topup p =
     (if policy p \<noteq> None then Inl (Conflict ''pilot uses starter fee credit; additional token top-ups are disabled'')
      else Inr ())"

definition pilot_status_of :: "pool \<Rightarrow> pilot_status option result" where
  "pilot_status_of p =
     (case policy p of
        None \<Rightarrow> Inr None
      | Some config \<Rightarrow>
          (case lookup acc_id ''unattributed:TIG'' (accounts (ledger p)) of
             None \<Rightarrow> Inl TypeError
           | Some a \<Rightarrow>
               let (number, allowances) = phase config p;
                   sent = filter (\<lambda>e. lookup r_id (re_reservation_id e) (reservations p) \<noteq> None) (sent_attempts p);
                   planned = sum_list (map pm_funding_units (pq_members allowances));
                   incoming = attributed_receipts config p
               in Inr (Some \<lparr>ps_config = config, ps_attempts_used = int (length sent), ps_phase_number = number,
                    ps_phase = allowances,
                    ps_committed_fee = sum_list (map (\<lambda>e. r_fee_limit (the (lookup r_id (re_reservation_id e) (reservations p)))) sent),
                    ps_member_allocation = planned, ps_attributed_receipts = incoming, ps_unattributed = acc_balance a,
                    ps_within_allocation = (incoming \<le> planned)\<rparr>)))"

end
