(* ===== verification/Benchmarks.thy ===== *)
theory Benchmarks
  imports Pilot
begin

text \<open>
  \<open>pool_manager/pool_v2/benchmarks.py\<close>: a member's reservation holds collateral, a fee budget
  and one of two slots, is sent at most once, and is resolved by acceptance, rejection,
  cancellation or a protocol outcome. Each operation is one transaction; \<open>new_id\<close> and \<open>jid\<close>
  are the fresh identifiers of the reservation and of its journal.
\<close>

section \<open>Accounts and events\<close>

definition OPERATOR_FEES :: string where "OPERATOR_FEES = ''operator:protocol:TIG''"

fun open_accounts :: "(string \<times> account_kind \<times> asset \<times> location) list \<Rightarrow> ledger_state \<Rightarrow> ledger_state result" where
  "open_accounts [] led = Inr led"
| "open_accounts ((k, kind, a, loc) # rest) led = bindE (account k kind a loc led) (\<lambda>(_, led). open_accounts rest led)"

definition initialize_accounts :: "pool \<Rightarrow> (unit \<times> pool) result" where
  "initialize_accounts p =
     bindE (open_accounts
       [(''operator:custody:TIG'', KOperator, AssetTIG, Custody), (''external:custody:TIG'', KExternal, AssetTIG, Custody),
        (''operator:custody:NATIVE'', KOperator, AssetNATIVE, Custody), (''external:custody:NATIVE'', KExternal, AssetNATIVE, Custody),
        (OPERATOR_FEES, KOperator, AssetTIG, Protocol), (''external:protocol:TIG'', KExternal, AssetTIG, Protocol),
        (''unattributed:TIG'', KUnattributed, AssetTIG, Custody)] (ledger p)) (\<lambda>led. Inr ((), p\<lparr>ledger := led\<rparr>))"

definition held :: "string \<Rightarrow> string" where "held reservation_id = ''collateral:'' @ reservation_id"

definition committed_fee :: "string \<Rightarrow> string" where
  "committed_fee reservation_id = ''operator:commitment:'' @ reservation_id"

definition reservation_key :: "string \<Rightarrow> string \<Rightarrow> string" where
  "reservation_key identity kind = ''reservation:'' @ identity @ '':'' @ kind"

text \<open>\<open>event(cursor, identity, kind, details)\<close>: one event per reservation and kind.\<close>

definition event :: "env \<Rightarrow> string \<Rightarrow> string \<Rightarrow> json \<Rightarrow> pool \<Rightarrow> pool result" where
  "event env identity kind details p =
     (case lookup re_key (reservation_key identity kind) (reservation_events p) of
        Some existing \<Rightarrow>
          if fingerprint env (re_details existing) \<noteq> fingerprint env details
          then Inl (Conflict ''reservation event was repeated with different evidence'')
          else Inr p
      | None \<Rightarrow> Inr (p\<lparr>reservation_events := reservation_events p @
          [\<lparr>re_key = reservation_key identity kind, re_reservation_id = identity, re_kind = kind, re_details = details,
            re_created_at = clock env\<rparr>]\<rparr>))"

definition locked :: "string \<Rightarrow> pool \<Rightarrow> reservation_row result" where
  "locked identity p =
     (case lookup r_id identity (reservations p) of
        None \<Rightarrow> Inl (FundsError ''unknown reservation'')
      | Some row \<Rightarrow> bindE (member_lock (r_member_id row) p) (\<lambda>_. Inr row))"

definition row :: "string \<Rightarrow> pool \<Rightarrow> (reservation_row \<times> pool) result" where
  "row identity p =
     (case lookup r_id identity (reservations p) of None \<Rightarrow> Inl TypeError | Some r \<Rightarrow> Inr (r, p))"

text \<open>\<open>UPDATE reservations SET ... WHERE id = identity\<close>.\<close>

definition update_reservation :: "string \<Rightarrow> (reservation_row \<Rightarrow> reservation_row) \<Rightarrow> pool \<Rightarrow> pool" where
  "update_reservation identity f p = p\<lparr>reservations := modify r_id identity f (reservations p)\<rparr>"

section \<open>Reservation\<close>

text \<open>\<open>[track["num_bundles"] for track in payload["track_settings"].values()]\<close>; \<open>None\<close> stands for the caught errors.\<close>

fun bundle_counts :: "(string \<times> json) list \<Rightarrow> json list option" where
  "bundle_counts [] = Some []"
| "bundle_counts ((_, JDict track) # rest) =
     (case (dict_get ''num_bundles'' track, bundle_counts rest) of (Some n, Some ns) \<Rightarrow> Some (n # ns) | _ \<Rightarrow> None)"
| "bundle_counts (_ # rest) = None"

definition track_counts :: "json \<Rightarrow> json list option" where
  "track_counts payload =
     (case payload of
        JDict items \<Rightarrow> (case dict_get ''track_settings'' items of Some (JDict tracks) \<Rightarrow> bundle_counts tracks | _ \<Rightarrow> None)
      | _ \<Rightarrow> None)"

definition request_hash :: "env \<Rightarrow> int \<Rightarrow> string \<Rightarrow> json \<Rightarrow> json \<Rightarrow> int \<Rightarrow> string \<Rightarrow> string" where
  "request_hash env creation_round resource selection payload fee_limit expiry_text =
     fingerprint env (JDict [(''round'', JInt creation_round), (''resource'', JStr resource), (''selection'', selection),
       (''payload'', payload), (''fee_limit'', JInt fee_limit), (''offer_expires_at'', JStr expiry_text)])"

definition slots_held :: "string \<Rightarrow> pool \<Rightarrow> nat" where
  "slots_held member_id p = length (filter (\<lambda>r. r_member_id r = member_id \<and> r_slot_held r) (reservations p))"

definition reserve_movements :: "string \<Rightarrow> string \<Rightarrow> int \<Rightarrow> int \<Rightarrow> movement list" where
  "reserve_movements member_id identity amount fee_limit =
     [(available member_id, - amount), (held identity, amount), (OPERATOR_FEES, - fee_limit), (committed_fee identity, fee_limit)]"

text \<open>The row \<open>INSERT INTO reservations\<close> stores, with the column defaults.\<close>

definition new_reservation :: "env \<Rightarrow> string \<Rightarrow> member_row \<Rightarrow> string \<Rightarrow> string \<Rightarrow> int \<Rightarrow> string \<Rightarrow> int \<Rightarrow> int \<Rightarrow> json \<Rightarrow> json \<Rightarrow>
    int \<Rightarrow> timestamp \<Rightarrow> reservation_row" where
  "new_reservation env identity member request_key hash creation_round resource base amount selection payload fee_limit expires_at =
     \<lparr>r_id = identity, r_member_id = m_id member, r_request_key = request_key, r_request_hash = hash,
       r_creation_round = creation_round, r_resource = resource, r_base_amount = base,
       r_multiplier = m_multiplier member, r_multiplier_revision = m_revision member, r_amount = amount,
       r_selection = selection, r_payload = payload, r_payload_text = Some (canonical payload),
       r_offer_expires_at = expires_at, r_fee_limit = fee_limit, r_fee_actual = None, r_state = Reserved,
       r_slot_held = True, r_collateral_outcome = None, r_benchmark_id = None, r_assignment = None,
       r_assignment_digest = None, r_assignment_payload = None, r_handed_over_at = None,
       r_active_at_height = None, r_created_at = clock env\<rparr>"

text \<open>
  What \<open>reserve\<close> does once its guards have passed: open the two accounts, move the collateral
  and the fee ceiling, insert the row and record the event. A collision of the fresh
  identifier is refused by the primary key.
\<close>

definition open_reservation :: "env \<Rightarrow> string \<Rightarrow> reservation_row \<Rightarrow> pool \<Rightarrow> (reservation_row \<times> pool) result" where
  "open_reservation env jid r p =
     bindE (on_ledger (account (held (r_id r)) KCollateral AssetTIG Custody) p) (\<lambda>(_, p).
     bindE (on_ledger (account (committed_fee (r_id r)) KOperatorCommitment AssetTIG Protocol) p) (\<lambda>(_, p).
     bindE (if r_amount r \<noteq> 0 \<or> r_fee_limit r \<noteq> 0
            then on_ledger (post env jid (reservation_key (r_id r) ''reserve'') ''benchmark_reservation''
                   (reserve_movements (r_member_id r) (r_id r) (r_amount r) (r_fee_limit r))
                   (JDict [(''member_id'', JStr (r_member_id r)), (''multiplier_revision'', JInt (r_multiplier_revision r))]) None) p
            else Inr ([], p)) (\<lambda>(_, p).
     if lookup r_id (r_id r) (reservations p) \<noteq> None then Inl (IntegrityError ''reservations'') else
     bindE (event env (r_id r) ''reserved'' (JDict [(''request_hash'', JStr (r_request_hash r))])
              (p\<lparr>reservations := reservations p @ [r]\<rparr>)) (\<lambda>p. Inr (r, p)))))"

text \<open>\<open>reserve\<close>; the expiry of the offer is an instant together with the text its datetime prints.\<close>

definition reserve :: "env \<Rightarrow> string \<Rightarrow> string \<Rightarrow> string \<Rightarrow> string \<Rightarrow> int \<Rightarrow> string \<Rightarrow> json \<Rightarrow> json \<Rightarrow> int \<Rightarrow>
    timestamp \<Rightarrow> string \<Rightarrow> pool \<Rightarrow> (reservation_row \<times> pool) result" where
  "reserve env new_id jid member_id request_key creation_round resource selection payload fee_limit expires_at expiry_text p =
     (if resource \<notin> {''CPU'', ''GPU''} \<or> request_key = [] \<or> length request_key > 128
      then Inl (FundsError ''request requires a key and exactly one CPU or GPU offer'') else
      bindE (units True (JInt creation_round)) (\<lambda>_.
      bindE (units False (JInt fee_limit)) (\<lambda>_.
      case track_counts payload of
        None \<Rightarrow> Inl (FundsError ''precommit requires all proposed track settings'')
      | Some counts \<Rightarrow>
      let hash = request_hash env creation_round resource selection payload fee_limit expiry_text in
      bindE (member_lock member_id p) (\<lambda>member.
      case List.find (\<lambda>r. r_member_id r = member_id \<and> r_request_key r = request_key) (reservations p) of
        Some existing \<Rightarrow>
          if r_request_hash existing \<noteq> hash then Inl (Conflict ''work request key was reused with different inputs'')
          else Inr (existing, p)
      | None \<Rightarrow>
      bindE (blocked env p) (\<lambda>reason.
      if reason \<noteq> None then Inl (Conflict (''new benchmark reservations are paused or blocked: '' @ the reason))
      else if expires_at \<le> clock env then Inl (Conflict ''compute offer has expired'')
      else if slots_held member_id p \<ge> 2 then Inl (Conflict ''member already occupies both benchmark slots'') else
      bindE (collateral counts (MDecimal (m_multiplier member)) (JInt 18)) (\<lambda>(base, amount).
      bindE (check env (m_wallet member) resource amount fee_limit payload None p) (\<lambda>_.
      bindE (check_fee env fee_limit None p) (\<lambda>_.
      open_reservation env jid (new_reservation env new_id member request_key hash creation_round resource base amount
        selection payload fee_limit expires_at) p))))))))"

section \<open>Submission and its outcome\<close>

text \<open>
  The payload as it is sent: \<open>json.loads(payload_text)\<close> has the stored values with the keys in
  the sorted order of the canonical text.
\<close>

definition stored_payload :: "reservation_row \<Rightarrow> json" where
  "stored_payload r = (if blank (r_payload_text r) then r_payload r else sort_keys (r_payload r))"

definition mark_submitting :: "env \<Rightarrow> string \<Rightarrow> pool \<Rightarrow> (json \<times> pool) result" where
  "mark_submitting env identity p =
     bindE (locked identity p) (\<lambda>r.
       if r_state r \<noteq> Reserved then Inl (Conflict ''precommit may already have been sent; reconcile before proceeding'')
       else if r_offer_expires_at r \<le> clock env then Inl (Conflict ''offer expired before submission'') else
       bindE (member_lock (r_member_id r) p) (\<lambda>member.
       bindE (check env (m_wallet member) (r_resource r) (r_amount r) (r_fee_limit r) (r_payload r) (Some identity) p) (\<lambda>_.
       bindE (check_fee env (r_fee_limit r) (Some identity) p) (\<lambda>_.
       bindE (event env identity ''potentially_sent''
                (JDict [(''payload_hash'', JStr (fingerprint env (stored_payload r)))])
                (update_reservation identity (\<lambda>r. r\<lparr>r_state := Uncertain\<rparr>) p)) (\<lambda>p.
         Inr (stored_payload r, p))))))"

text \<open>\<open>_fees\<close>: the actual fee leaves the pool and the rest of the ceiling returns to the operator.\<close>

definition fee_movements :: "reservation_row \<Rightarrow> int \<Rightarrow> movement list" where
  "fee_movements r actual = [(committed_fee (r_id r), - r_fee_limit r), (OPERATOR_FEES, r_fee_limit r - actual),
     (''external:protocol:TIG'', actual)]"

definition fees :: "env \<Rightarrow> string \<Rightarrow> reservation_row \<Rightarrow> int \<Rightarrow> pool \<Rightarrow> pool result" where
  "fees env jid r actual p =
     bindE (units False (JInt actual)) (\<lambda>_.
       if actual > r_fee_limit r
       then Inl (Conflict ''actual protocol fee exceeds its committed budget; reconcile explicitly'') else
       bindE (if r_fee_limit r \<noteq> 0
              then on_ledger (post env jid (reservation_key (r_id r) ''fee'') ''operator_submission_cost''
                     (fee_movements r actual) (JDict [(''actual'', JInt actual)]) None) p
              else Inr ([], p)) (\<lambda>(_, p).
         Inr (update_reservation (r_id r) (\<lambda>r. r\<lparr>r_fee_actual := Some actual\<rparr>) p)))"

definition accept :: "env \<Rightarrow> string \<Rightarrow> string \<Rightarrow> string \<Rightarrow> json \<Rightarrow> int \<Rightarrow> json \<Rightarrow> pool \<Rightarrow> (reservation_row \<times> pool) result" where
  "accept env jid identity benchmark_id assignment actual_fee evidence p =
     (if benchmark_id = [] \<or> \<not> (case assignment of JDict items \<Rightarrow> items \<noteq> [] | _ \<Rightarrow> False) \<or> \<not> truthy evidence
      then Inl (FundsError ''acceptance requires benchmark identity, complete assignment and evidence'') else
      let digest = fingerprint env assignment in
      bindE (locked identity p) (\<lambda>r.
        if \<not> blank (r_benchmark_id r) then
          if (r_benchmark_id r, r_assignment_digest r, r_fee_actual r) \<noteq> (Some benchmark_id, Some digest, Some actual_fee)
          then Inl (Conflict ''benchmark acceptance differs from recorded assignment'')
          else Inr (r, p)
        else if r_state r \<noteq> Uncertain then Inl (Conflict ''acceptance requires a potentially sent submission'') else
        bindE (fees env jid r actual_fee p) (\<lambda>p.
          if lookup r_benchmark_id (Some benchmark_id) (reservations p) \<noteq> None then Inl (IntegrityError ''reservations'') else
          bindE (event env identity ''accepted''
                   (JDict [(''benchmark_id'', JStr benchmark_id), (''digest'', JStr digest), (''evidence'', evidence)])
                   (update_reservation identity (\<lambda>r. r\<lparr>r_state := Accepted, r_benchmark_id := Some benchmark_id,
                      r_assignment := Some assignment, r_assignment_digest := Some digest,
                      r_assignment_payload := Some (canonical assignment)\<rparr>) p)) (row identity))))"

definition return_movements :: "reservation_row \<Rightarrow> movement list" where
  "return_movements r = [(held (r_id r), - r_amount r), (available (r_member_id r), r_amount r)]"

text \<open>Return the held collateral under the given event, when there is any.\<close>

definition return_collateral :: "env \<Rightarrow> string \<Rightarrow> string \<Rightarrow> json \<Rightarrow> reservation_row \<Rightarrow> pool \<Rightarrow> pool result" where
  "return_collateral env jid kind details r p =
     bindE (if r_amount r \<noteq> 0
            then on_ledger (post env jid (reservation_key (r_id r) kind) ''collateral_return'' (return_movements r) details None) p
            else Inr ([], p)) (\<lambda>(_, p). Inr p)"

definition release_unstarted :: "env \<Rightarrow> string \<Rightarrow> string \<Rightarrow> string \<Rightarrow> bool \<Rightarrow> int \<Rightarrow> json \<Rightarrow> pool \<Rightarrow>
    (reservation_row \<times> pool) result" where
  "release_unstarted env jid jid' identity rejected actual_fee evidence p =
     (if \<not> truthy evidence then Inl (FundsError ''cancellation/rejection requires durable evidence'') else
      let state = (if rejected then Rejected else Cancelled) in
      bindE (locked identity p) (\<lambda>r.
        if r_state r = state then
          if r_fee_actual r \<noteq> Some actual_fee then Inl (Conflict ''repeated release has a different actual fee'')
          else Inr (r, p)
        else if r_state r \<noteq> (if rejected then Uncertain else Reserved)
        then Inl (Conflict ''only definitive rejection or a proven-unsent intent can release immediately'')
        else if \<not> rejected \<and> actual_fee \<noteq> 0
        then Inl (Conflict ''an unsent cancellation cannot have a submission charge'') else
        bindE (fees env jid r actual_fee p) (\<lambda>p.
        bindE (return_collateral env jid' ''return'' (JDict []) r p) (\<lambda>p.
        bindE (event env identity (if rejected then ''rejected'' else ''cancelled'') evidence
                 (update_reservation identity (\<lambda>r. r\<lparr>r_state := state, r_slot_held := False,
                    r_collateral_outcome := Some Returned\<rparr>) p)) (row identity)))))"

definition unhanded_evidence :: "env \<Rightarrow> reservation_row \<Rightarrow> string \<Rightarrow> string \<Rightarrow> string \<Rightarrow> json" where
  "unhanded_evidence env r actor reason event_key =
     JDict [(''actor'', JStr actor), (''reason'', JStr reason), (''event_key'', JStr event_key),
       (''benchmark_id'', case r_benchmark_id r of None \<Rightarrow> JNull | Some b \<Rightarrow> JStr b),
       (''offer_expires_at'', JStr (isoformat env (r_offer_expires_at r)))]"

definition release_unhanded :: "env \<Rightarrow> string \<Rightarrow> string \<Rightarrow> string \<Rightarrow> string \<Rightarrow> string \<Rightarrow> pool \<Rightarrow>
    (reservation_row \<times> pool) result" where
  "release_unhanded env jid identity actor reason event_key p =
     (if actor = [] \<or> reason = [] \<or> event_key = []
      then Inl (FundsError ''unhanded collateral return requires an operator, reason and event key'') else
      bindE (locked identity p) (\<lambda>r.
        let evidence = unhanded_evidence env r actor reason event_key in
        if r_state r = Cancelled \<and> r_collateral_outcome r = Some Returned
        then bindE (event env identity ''unhanded_returned'' evidence p) (\<lambda>p. Inr (r, p))
        else if r_state r \<noteq> Accepted \<or> blank (r_benchmark_id r) \<or> \<not> r_slot_held r
        then Inl (Conflict ''only an accepted, collateral-backed assignment can be returned'')
        else if r_handed_over_at r \<noteq> None
        then Inl (Conflict ''member confirmed handover; collateral cannot be returned as unhanded'')
        else if \<not> paused p then Inl (Conflict ''pause new work before returning unhanded collateral'')
        else if r_offer_expires_at r > clock env then Inl (Conflict ''member offer has not expired'')
        else if the (r_benchmark_id r) \<in> set (map bp_benchmark_id (benchmark_payloads p) @ map bg_benchmark_id (benchmark_progress p))
        then Inl (Conflict ''benchmark already has member results or progress evidence'') else
        bindE (return_collateral env jid ''unhanded-return'' evidence r p) (\<lambda>p.
        bindE (event env identity ''unhanded_returned'' evidence
                 (update_reservation identity (\<lambda>r. r\<lparr>r_state := Cancelled, r_slot_held := False,
                    r_collateral_outcome := Some Returned\<rparr>) p)) (row identity))))"

definition acknowledge :: "env \<Rightarrow> string \<Rightarrow> string \<Rightarrow> string \<Rightarrow> pool \<Rightarrow> (reservation_row \<times> pool) result" where
  "acknowledge env identity member_id digest p =
     bindE (locked identity p) (\<lambda>r.
       if r_member_id r \<noteq> member_id \<or> Some digest \<noteq> r_assignment_digest r
       then Inl (Conflict ''assignment owner or digest does not match'')
       else if r_handed_over_at r \<noteq> None then Inr (r, p)
       else if r_state r \<noteq> Accepted then Inl (Conflict ''assignment is not available for first handover'') else
       bindE (event env identity ''handed_over'' (JDict [(''member_id'', JStr member_id), (''digest'', JStr digest)])
                (update_reservation identity (\<lambda>r. r\<lparr>r_handed_over_at := Some (clock env)\<rparr>) p)) (row identity))"

fun outcome_text :: "reservation_state \<Rightarrow> string" where
  "outcome_text Reserved = ''reserved''"
| "outcome_text Uncertain = ''uncertain''"
| "outcome_text Accepted = ''accepted''"
| "outcome_text Rejected = ''rejected''"
| "outcome_text Cancelled = ''cancelled''"
| "outcome_text Active = ''active''"
| "outcome_text VerificationFailed = ''verification_failed''"
| "outcome_text Expired = ''expired''"

definition record_outcome :: "env \<Rightarrow> string \<Rightarrow> reservation_state \<Rightarrow> int \<Rightarrow> json \<Rightarrow> pool \<Rightarrow> (reservation_row \<times> pool) result" where
  "record_outcome env identity state height evidence p =
     (if state \<notin> {Active, VerificationFailed, Expired} \<or> \<not> truthy evidence
      then Inl (FundsError ''a definitive protocol outcome and evidence are required'') else
      bindE (units True (JInt height)) (\<lambda>_.
      bindE (locked identity p) (\<lambda>r.
        if r_state r = state then Inr (r, p)
        else if r_state r \<noteq> Accepted then Inl (Conflict ''outcome conflicts with benchmark state'')
        else if state \<noteq> Expired \<and> r_handed_over_at r = None
        then Inl (Conflict ''results cannot be submitted without confirmed handover'') else
        bindE (event env identity (outcome_text state) (JDict [(''height'', JInt height), (''evidence'', evidence)])
                 (update_reservation identity (\<lambda>r. r\<lparr>r_state := state, r_slot_held := False,
                    r_active_at_height := (if state = Active then Some height else None)\<rparr>) p)) (row identity))))"

section \<open>Names of keys and accounts\<close>

lemma take_colon: "CHR '':'' \<notin> set ys \<Longrightarrow> takeWhile (\<lambda>c. c \<noteq> CHR '':'') (ys @ CHR '':'' # xs) = ys"
  by (induction ys) auto

lemma split_last_colon:
  assumes "xs @ CHR '':'' # ys = xs' @ CHR '':'' # ys'" and "CHR '':'' \<notin> set ys" and "CHR '':'' \<notin> set ys'"
  shows "xs = xs' \<and> ys = ys'"
proof -
  have eq: "rev ys @ CHR '':'' # rev xs = rev ys' @ CHR '':'' # rev xs'"
    using arg_cong [OF assms(1), of rev] by simp
  then have "rev ys = rev ys'"
    using assms(2,3) take_colon [of "rev ys" "rev xs"] take_colon [of "rev ys'" "rev xs'"] by simp
  with eq show ?thesis by simp
qed

lemma reservation_key_inject:
  assumes "CHR '':'' \<notin> set kind" and "CHR '':'' \<notin> set kind'"
  shows "reservation_key i kind = reservation_key j kind' \<longleftrightarrow> i = j \<and> kind = kind'"
  using split_last_colon [of i kind j kind'] assms by (auto simp: reservation_key_def)

lemma account_names [simp]:
  "held i = held j \<longleftrightarrow> i = j"
  "committed_fee i = committed_fee j \<longleftrightarrow> i = j"
  "available i = available j \<longleftrightarrow> i = j"
  "held i \<noteq> committed_fee j" "committed_fee j \<noteq> held i"
  "held i \<noteq> available j" "available j \<noteq> held i"
  "committed_fee i \<noteq> available j" "available j \<noteq> committed_fee i"
  "held i \<noteq> OPERATOR_FEES" "OPERATOR_FEES \<noteq> held i"
  "committed_fee i \<noteq> OPERATOR_FEES" "OPERATOR_FEES \<noteq> committed_fee i"
  "available i \<noteq> OPERATOR_FEES" "OPERATOR_FEES \<noteq> available i"
  "held i \<noteq> ''external:protocol:TIG''" "''external:protocol:TIG'' \<noteq> held i"
  "committed_fee i \<noteq> ''external:protocol:TIG''" "''external:protocol:TIG'' \<noteq> committed_fee i"
  "available i \<noteq> ''external:protocol:TIG''" "''external:protocol:TIG'' \<noteq> available i"
  by (auto simp: held_def committed_fee_def available_def OPERATOR_FEES_def)

section \<open>The invariant of reservations\<close>

text \<open>Which columns a reservation in each state has.\<close>

fun columns_ok :: "reservation_state \<Rightarrow> reservation_row \<Rightarrow> bool" where
  "columns_ok Reserved r = (r_fee_actual r = None \<and> r_collateral_outcome r = None \<and> blank (r_benchmark_id r) \<and> r_slot_held r)"
| "columns_ok Uncertain r = (r_fee_actual r = None \<and> r_collateral_outcome r = None \<and> blank (r_benchmark_id r) \<and> r_slot_held r)"
| "columns_ok Accepted r = (r_fee_actual r \<noteq> None \<and> r_collateral_outcome r = None \<and> \<not> blank (r_benchmark_id r) \<and> r_slot_held r)"
| "columns_ok Rejected r = (r_fee_actual r \<noteq> None \<and> r_collateral_outcome r = Some Returned \<and> \<not> r_slot_held r)"
| "columns_ok Cancelled r = (r_fee_actual r \<noteq> None \<and> r_collateral_outcome r = Some Returned \<and> \<not> r_slot_held r)"
| "columns_ok _ r = (r_fee_actual r \<noteq> None \<and> \<not> blank (r_benchmark_id r) \<and> \<not> r_slot_held r)"

definition row_ok :: "reservation_row \<Rightarrow> bool" where
  "row_ok r \<longleftrightarrow> columns_ok (r_state r) r \<and> 0 \<le> r_amount r \<and> 0 \<le> r_fee_limit r \<and>
     (case r_fee_actual r of None \<Rightarrow> True | Some n \<Rightarrow> 0 \<le> n \<and> n \<le> r_fee_limit r)"

text \<open>What the two accounts of an identifier must hold, given its reservation.\<close>

definition collateral_due :: "reservation_row option \<Rightarrow> int" where
  "collateral_due r = (case r of None \<Rightarrow> 0 | Some r \<Rightarrow> if r_collateral_outcome r = None then r_amount r else 0)"

definition fee_due :: "reservation_row option \<Rightarrow> int" where
  "fee_due r = (case r of None \<Rightarrow> 0 | Some r \<Rightarrow> if r_fee_actual r = None then r_fee_limit r else 0)"

text \<open>Which of its journals a reservation can already have.\<close>

definition journals_due :: "ledger_state \<Rightarrow> string \<Rightarrow> reservation_row option \<Rightarrow> bool" where
  "journals_due led i r \<longleftrightarrow>
     (recorded led (reservation_key i ''reserve'') \<longrightarrow> r \<noteq> None) \<and>
     (recorded led (reservation_key i ''fee'') \<longrightarrow> (\<exists>x. r = Some x \<and> r_fee_actual x \<noteq> None)) \<and>
     (recorded led (reservation_key i ''return'') \<or> recorded led (reservation_key i ''unhanded-return'') \<longrightarrow>
        (\<exists>x. r = Some x \<and> r_collateral_outcome x \<noteq> None))"

definition reservations_ok :: "pool \<Rightarrow> bool" where
  "reservations_ok p \<longleftrightarrow> distinct (map r_id (reservations p)) \<and> (\<forall>r \<in> set (reservations p). row_ok r) \<and>
     (\<forall>m. slots_held m p \<le> 2) \<and>
     (\<forall>i. balance (ledger p) (held i) = collateral_due (lookup r_id i (reservations p)) \<and>
          balance (ledger p) (committed_fee i) = fee_due (lookup r_id i (reservations p)) \<and>
          journals_due (ledger p) i (lookup r_id i (reservations p)))"

lemma reservations_ok_row: "reservations_ok p \<Longrightarrow> lookup r_id i (reservations p) = Some r \<Longrightarrow> row_ok r \<and> r_id r = i"
  by (auto simp: reservations_ok_def dest: lookup_SomeD)

text \<open>Operations of the other components leave it alone.\<close>

definition reservation_journals :: "string \<Rightarrow> bool" where
  "reservation_journals k \<longleftrightarrow> (\<exists>i kind. k = reservation_key i kind)"

definition reservation_accounts :: "string \<Rightarrow> bool" where
  "reservation_accounts k \<longleftrightarrow> (\<exists>i. k = held i \<or> k = committed_fee i)"

lemma reservations_ok_frame:
  assumes "reservations_ok p" and "ledger_by K A (ledger p) (ledger p')" and "reservations p' = reservations p"
    and "\<And>k. K k \<Longrightarrow> \<not> reservation_journals k" and "\<And>k. A k \<Longrightarrow> \<not> reservation_accounts k"
  shows "reservations_ok p'"
proof -
  have "recorded (ledger p') (reservation_key i kind) = recorded (ledger p) (reservation_key i kind)" for i kind
    using assms(4) by (intro ledger_by_recorded [OF assms(2)]) (auto simp: reservation_journals_def)
  moreover have "balance (ledger p') (held i) = balance (ledger p) (held i)"
    "balance (ledger p') (committed_fee i) = balance (ledger p) (committed_fee i)" for i
    using assms(5) by (intro ledger_by_balance [OF assms(2)]; auto simp: reservation_accounts_def)+
  ultimately show ?thesis
    using assms(1,3) by (simp add: reservations_ok_def journals_due_def slots_held_def)
qed

text \<open>Replacing one row: what is left to show is about that row, its two accounts and the slots of its member.\<close>

lemma slots_held_modify:
  assumes "distinct (map r_id (reservations p))" and "lookup r_id i (reservations p) = Some r"
    and "r_member_id (f r) = r_member_id r" and "r_slot_held (f r) \<longrightarrow> r_slot_held r" and "\<And>x. r_id (f x) = r_id x"
  shows "slots_held m (update_reservation i f p) \<le> slots_held m p"
proof -
  have "length (filter P (modify r_id i f rows)) \<le> length (filter P rows)"
    if "distinct (map r_id rows)" "lookup r_id i rows = Some r" "P (f r) \<longrightarrow> P r" for P rows
    using that
  proof (induction rows)
    case (Cons x rows)
    show ?case
    proof (cases "r_id x = i")
      case True
      with Cons.prems have "lookup r_id i rows = None" by (auto simp: lookup_None_iff)
      with True Cons.prems show ?thesis by (simp add: modify_absent)
    next
      case False
      with Cons show ?thesis by auto
    qed
  qed simp
  from this [OF assms(1,2), of "\<lambda>r. r_member_id r = m \<and> r_slot_held r"] assms(3,4)
  show ?thesis by (simp add: slots_held_def update_reservation_def)
qed

lemma reservations_ok_update:
  assumes ok: "reservations_ok p" and i: "lookup r_id i (reservations p) = Some r"
    and keep: "\<And>x. r_id (f x) = r_id x" and r': "row_ok (f r)" "r_member_id (f r) = r_member_id r" "r_slot_held (f r) \<longrightarrow> r_slot_held r"
    and rows: "reservations p' = modify r_id i f (reservations p)"
    and other: "\<And>j. j \<noteq> i \<Longrightarrow> balance (ledger p') (held j) = balance (ledger p) (held j) \<and>
        balance (ledger p') (committed_fee j) = balance (ledger p) (committed_fee j) \<and>
        (\<forall>kind. CHR '':'' \<notin> set kind \<longrightarrow> recorded (ledger p') (reservation_key j kind) = recorded (ledger p) (reservation_key j kind))"
    and own: "balance (ledger p') (held i) = collateral_due (Some (f r))"
        "balance (ledger p') (committed_fee i) = fee_due (Some (f r))" "journals_due (ledger p') i (Some (f r))"
  shows "reservations_ok p'"
proof -
  have look: "lookup r_id j (reservations p') = (if j = i then Some (f r) else lookup r_id j (reservations p))" for j
    using keep i by (simp add: rows lookup_modify)
  have dist: "distinct (map r_id (reservations p))" using ok by (simp add: reservations_ok_def)
  have "\<forall>x \<in> set (reservations p'). row_ok x"
  proof
    fix x assume "x \<in> set (reservations p')"
    then obtain y where y: "y \<in> set (reservations p)" "x = (if r_id y = i then f y else y)" by (auto simp: rows modify_def)
    have "r_id y = i \<Longrightarrow> y = r"
      using lookup_Some_iff [OF dist, of i y] y(1) i by auto
    with y r'(1) ok show "row_ok x" by (auto simp: reservations_ok_def)
  qed
  moreover have "slots_held m p' \<le> 2" for m
  proof -
    have "slots_held m p' = slots_held m (update_reservation i f p)" by (simp add: slots_held_def update_reservation_def rows)
    also have "\<dots> \<le> slots_held m p" by (rule slots_held_modify [OF dist i r'(2,3) keep])
    also have "\<dots> \<le> 2" using ok by (simp add: reservations_ok_def)
    finally show ?thesis .
  qed
  moreover have "distinct (map r_id (reservations p'))" using dist keep by (simp add: rows)
  moreover have "journals_due (ledger p') j (lookup r_id j (reservations p'))" for j
    using ok own(3) other [of j] by (cases "j = i") (auto simp: look reservations_ok_def journals_due_def)
  moreover have "balance (ledger p') (held j) = collateral_due (lookup r_id j (reservations p')) \<and>
      balance (ledger p') (committed_fee j) = fee_due (lookup r_id j (reservations p'))" for j
    using ok own(1,2) other [of j] by (cases "j = i") (auto simp: look reservations_ok_def)
  ultimately show ?thesis unfolding reservations_ok_def by blast
qed

section \<open>The steps operations are made of\<close>

text \<open>A posting that is skipped when it would move nothing.\<close>

lemma optional_post:
  assumes run: "(if c then on_ledger (post env i ek kind mv det rv) p else Inr ([], p)) = Inr (j, p')"
    and skipped: "\<not> c \<Longrightarrow> amount_of mv k = 0" and fresh: "\<not> recorded (ledger p) ek"
  shows "balance (ledger p') k = balance (ledger p) k + amount_of mv k"
proof (cases c)
  case True
  with run have "post env i ek kind mv det rv (ledger p) = Inr (j, ledger p')" by (auto simp: on_ledger_Inr)
  then show ?thesis by (rule post_balance) (use fresh in \<open>simp add: recorded_def\<close>)
next
  case False
  then have zero: "amount_of mv k = 0" by (rule skipped)
  have "p' = p" using run unfolding if_not_P [OF False] by simp
  then show ?thesis by (simp add: zero)
qed

lemma optional_post_frame:
  assumes run: "(if c then on_ledger (post env i ek kind mv det rv) p else Inr ([], p)) = Inr (j, p')"
  shows "p' = p\<lparr>ledger := ledger p'\<rparr>" and "x \<noteq> ek \<Longrightarrow> recorded (ledger p') x = recorded (ledger p) x"
    and "K ek \<Longrightarrow> (\<And>x. x \<in> fst ` set mv \<Longrightarrow> A x) \<Longrightarrow> ledger_by K A (ledger p) (ledger p')"
proof -
  have "p' = p\<lparr>ledger := ledger p'\<rparr> \<and> (x \<noteq> ek \<longrightarrow> recorded (ledger p') x = recorded (ledger p) x) \<and>
      (K ek \<longrightarrow> (\<forall>x \<in> fst ` set mv. A x) \<longrightarrow> ledger_by K A (ledger p) (ledger p'))"
  proof (cases c)
    case True
    with run have post: "post env i ek kind mv det rv (ledger p) = Inr (j, ledger p')" and "p' = p\<lparr>ledger := ledger p'\<rparr>"
      by (auto simp: on_ledger_Inr)
    moreover have "recorded (ledger p') x = recorded (ledger p) x" if "x \<noteq> ek" using post_recorded [OF post] that by simp
    moreover have "ledger_by K A (ledger p) (ledger p')" if "K ek" "\<forall>x \<in> fst ` set mv. A x"
      using ledger_by_posted [OF post, of K A] that by blast
    ultimately show ?thesis by blast
  next
    case False
    with run show ?thesis by (simp add: by_nothing)
  qed
  then show "p' = p\<lparr>ledger := ledger p'\<rparr>" and "x \<noteq> ek \<Longrightarrow> recorded (ledger p') x = recorded (ledger p) x"
    and "K ek \<Longrightarrow> (\<And>x. x \<in> fst ` set mv \<Longrightarrow> A x) \<Longrightarrow> ledger_by K A (ledger p) (ledger p')"
    by blast+
qed

lemma event_effect:
  assumes "event env i kind details p = Inr p'"
  shows "p' = p\<lparr>reservation_events := reservation_events p'\<rparr>" and
    "reservation_events p' = reservation_events p \<or> reservation_events p' = reservation_events p @
       [\<lparr>re_key = reservation_key i kind, re_reservation_id = i, re_kind = kind, re_details = details, re_created_at = clock env\<rparr>]"
    and "lookup re_key (reservation_key i kind) (reservation_events p') \<noteq> None"
  using assms by (auto simp: event_def lookup_append split: option.splits if_splits)

lemma locked_Inr: "locked i p = Inr r \<longleftrightarrow> lookup r_id i (reservations p) = Some r \<and> (\<exists>m. lookup m_id (r_member_id r) (members p) = Some m)"
  by (auto simp: locked_def member_lock_def split: option.splits)

lemma row_Inr: "row i p = Inr (r, p') \<longleftrightarrow> lookup r_id i (reservations p) = Some r \<and> p' = p"
  by (auto simp: row_def split: option.splits)

text \<open>Recording an event after an update of the reservation, as every operation ends.\<close>

lemma update_then_event:
  assumes "event env i kind details (update_reservation i f p) = Inr p'"
  shows "p' = p\<lparr>reservations := modify r_id i f (reservations p), reservation_events := reservation_events p'\<rparr>"
    and "reservations p' = modify r_id i f (reservations p)" and "ledger p' = ledger p"
    and "members p' = members p"
proof -
  show 1: "p' = p\<lparr>reservations := modify r_id i f (reservations p), reservation_events := reservation_events p'\<rparr>"
    using event_effect(1) [OF assms] by (simp add: update_reservation_def)
  show "reservations p' = modify r_id i f (reservations p)" "ledger p' = ledger p" "members p' = members p"
    by (subst 1, simp)+
qed

lemma fees_effect:
  assumes run: "fees env jid r actual p = Inr p'" and fresh: "\<not> recorded (ledger p) (reservation_key (r_id r) ''fee'')"
  shows "0 \<le> actual \<and> actual \<le> r_fee_limit r"
    and "p' = p\<lparr>ledger := ledger p', reservations := modify r_id (r_id r) (\<lambda>r. r\<lparr>r_fee_actual := Some actual\<rparr>) (reservations p)\<rparr>"
    and "balance (ledger p') k = balance (ledger p) k + amount_of (fee_movements r actual) k"
    and "x \<noteq> reservation_key (r_id r) ''fee'' \<Longrightarrow> recorded (ledger p') x = recorded (ledger p) x"
    and "ledger_by reservation_journals (\<lambda>k. k = committed_fee (r_id r) \<or> k = OPERATOR_FEES \<or> k = ''external:protocol:TIG'') (ledger p) (ledger p')"
proof -
  obtain j q where bounds: "0 \<le> actual" "actual \<le> r_fee_limit r" and q: "(if r_fee_limit r \<noteq> 0
              then on_ledger (post env jid (reservation_key (r_id r) ''fee'') ''operator_submission_cost''
                     (fee_movements r actual) (JDict [(''actual'', JInt actual)]) None) p
              else Inr ([], p)) = Inr (j, q)"
    and p': "p' = update_reservation (r_id r) (\<lambda>r. r\<lparr>r_fee_actual := Some actual\<rparr>) q"
    using run unfolding fees_def bindE_Inr raise_if_Inr units_Inr by (auto simp: not_less)
  show "0 \<le> actual \<and> actual \<le> r_fee_limit r" using bounds by simp
  note frame = optional_post_frame [OF q]
  show "p' = p\<lparr>ledger := ledger p', reservations := modify r_id (r_id r) (\<lambda>r. r\<lparr>r_fee_actual := Some actual\<rparr>) (reservations p)\<rparr>"
    unfolding p' update_reservation_def by (subst frame(1), simp)+
  have same: "ledger p' = ledger q" by (simp add: p' update_reservation_def)
  show "balance (ledger p') k = balance (ledger p) k + amount_of (fee_movements r actual) k"
    unfolding same by (rule optional_post [OF q _ fresh]) (use bounds in \<open>simp add: fee_movements_def\<close>)
  show "x \<noteq> reservation_key (r_id r) ''fee'' \<Longrightarrow> recorded (ledger p') x = recorded (ledger p) x"
    unfolding same by (rule frame(2))
  show "ledger_by reservation_journals (\<lambda>k. k = committed_fee (r_id r) \<or> k = OPERATOR_FEES \<or> k = ''external:protocol:TIG'') (ledger p) (ledger p')"
    unfolding same by (rule frame(3)) (auto simp: reservation_journals_def fee_movements_def)
qed

lemma return_collateral_effect:
  assumes run: "return_collateral env jid kind details r p = Inr p'" and fresh: "\<not> recorded (ledger p) (reservation_key (r_id r) kind)"
  shows "p' = p\<lparr>ledger := ledger p'\<rparr>"
    and "balance (ledger p') k = balance (ledger p) k + amount_of (return_movements r) k"
    and "x \<noteq> reservation_key (r_id r) kind \<Longrightarrow> recorded (ledger p') x = recorded (ledger p) x"
    and "ledger_by reservation_journals (\<lambda>k. k = held (r_id r) \<or> k = available (r_member_id r)) (ledger p) (ledger p')"
proof -
  obtain j where q: "(if r_amount r \<noteq> 0
            then on_ledger (post env jid (reservation_key (r_id r) kind) ''collateral_return'' (return_movements r) details None) p
            else Inr ([], p)) = Inr (j, p')"
    using run by (auto simp: return_collateral_def outcome split: if_splits)
  show "p' = p\<lparr>ledger := ledger p'\<rparr>" by (rule optional_post_frame(1) [OF q])
  show "balance (ledger p') k = balance (ledger p) k + amount_of (return_movements r) k"
    by (rule optional_post [OF q _ fresh]) (simp add: return_movements_def)
  show "x \<noteq> reservation_key (r_id r) kind \<Longrightarrow> recorded (ledger p') x = recorded (ledger p) x"
    by (rule optional_post_frame(2) [OF q])
  show "ledger_by reservation_journals (\<lambda>k. k = held (r_id r) \<or> k = available (r_member_id r)) (ledger p) (ledger p')"
    by (rule optional_post_frame(3) [OF q]) (auto simp: reservation_journals_def return_movements_def)
qed

section \<open>Every operation keeps the invariant\<close>

text \<open>The keys of the journals are told apart by their kinds.\<close>

lemma journal_kinds [simp]:
  "reservation_key i ''reserve'' = reservation_key j ''reserve'' \<longleftrightarrow> i = j"
  "reservation_key i ''fee'' = reservation_key j ''fee'' \<longleftrightarrow> i = j"
  "reservation_key i ''return'' = reservation_key j ''return'' \<longleftrightarrow> i = j"
  "reservation_key i ''unhanded-return'' = reservation_key j ''unhanded-return'' \<longleftrightarrow> i = j"
  "reservation_key i ''reserve'' \<noteq> reservation_key j ''fee''" "reservation_key i ''reserve'' \<noteq> reservation_key j ''return''"
  "reservation_key i ''reserve'' \<noteq> reservation_key j ''unhanded-return''" "reservation_key i ''fee'' \<noteq> reservation_key j ''reserve''"
  "reservation_key i ''fee'' \<noteq> reservation_key j ''return''" "reservation_key i ''fee'' \<noteq> reservation_key j ''unhanded-return''"
  "reservation_key i ''return'' \<noteq> reservation_key j ''fee''" "reservation_key i ''return'' \<noteq> reservation_key j ''reserve''"
  "reservation_key i ''return'' \<noteq> reservation_key j ''unhanded-return''" "reservation_key i ''unhanded-return'' \<noteq> reservation_key j ''fee''"
  "reservation_key i ''unhanded-return'' \<noteq> reservation_key j ''reserve''" "reservation_key i ''unhanded-return'' \<noteq> reservation_key j ''return''"
  by (simp_all add: reservation_key_inject)

lemma other_journals:
  assumes "i \<noteq> j" and "CHR '':'' \<notin> set kind" and "CHR '':'' \<notin> set kind'"
  shows "reservation_key j kind \<noteq> reservation_key i kind'"
  using assms by (simp add: reservation_key_inject)

lemma reservations_ok_own:
  assumes "reservations_ok p" and "lookup r_id i (reservations p) = Some r"
  shows "balance (ledger p) (held i) = collateral_due (Some r)" and "balance (ledger p) (committed_fee i) = fee_due (Some r)"
    and "journals_due (ledger p) i (Some r)" and "row_ok r" and "r_id r = i"
  using assms reservations_ok_row [OF assms] by (auto simp: reservations_ok_def) metis+

text \<open>Updates without money: the row stays acceptable and nothing becomes due.\<close>

lemma reservations_ok_no_money:
  assumes ok: "reservations_ok p" and i: "lookup r_id i (reservations p) = Some r"
    and run: "event env i kind details (update_reservation i f p) = Inr p'"
    and keep: "\<And>x. r_id (f x) = r_id x" and r': "row_ok (f r)" "r_member_id (f r) = r_member_id r" "r_slot_held (f r) \<longrightarrow> r_slot_held r"
    and due: "collateral_due (Some (f r)) = collateral_due (Some r)" "fee_due (Some (f r)) = fee_due (Some r)"
      "r_fee_actual (f r) = r_fee_actual r" "r_collateral_outcome (f r) = r_collateral_outcome r"
  shows "reservations_ok p'"
proof (rule reservations_ok_update [OF ok i keep r'])
  note own = reservations_ok_own [OF ok i]
  show "reservations p' = modify r_id i f (reservations p)" by (rule update_then_event(2) [OF run])
  have led: "ledger p' = ledger p" by (rule update_then_event(3) [OF run])
  show "balance (ledger p') (held i) = collateral_due (Some (f r))" "balance (ledger p') (committed_fee i) = fee_due (Some (f r))"
    "journals_due (ledger p') i (Some (f r))"
    using own(1,2,3) by (simp_all add: led due journals_due_def)
qed (simp add: update_then_event(3) [OF run])

lemma mark_submitting_cases:
  assumes "mark_submitting env i p = Inr (payload, p')"
  obtains r m where "lookup r_id i (reservations p) = Some r" "r_state r = Reserved" "clock env < r_offer_expires_at r"
    "lookup m_id (r_member_id r) (members p) = Some m" "payload = stored_payload r"
    "check env (m_wallet m) (r_resource r) (r_amount r) (r_fee_limit r) (r_payload r) (Some i) p = Inr ()"
    "check_fee env (r_fee_limit r) (Some i) p = Inr ()"
    "event env i ''potentially_sent'' (JDict [(''payload_hash'', JStr (fingerprint env (stored_payload r)))])
       (update_reservation i (\<lambda>r. r\<lparr>r_state := Uncertain\<rparr>) p) = Inr p'"
  using assms unfolding mark_submitting_def bindE_Inr raise_if_Inr locked_Inr member_lock_Inr by (auto simp: not_le)

lemma reservations_ok_mark_submitting:
  assumes ok: "reservations_ok p" and run: "mark_submitting env i p = Inr (payload, p')"
  shows "reservations_ok p'"
  using run
proof (cases rule: mark_submitting_cases)
  case (1 r m)
  have "row_ok r" by (rule reservations_ok_own(4) [OF ok 1(1)])
  with 1(2) show ?thesis
    by (intro reservations_ok_no_money [OF ok 1(1,8)]) (simp_all add: row_ok_def collateral_due_def fee_due_def)
qed

lemma acknowledge_cases:
  assumes "acknowledge env i member_id digest p = Inr (r', p')"
  obtains (again) "lookup r_id i (reservations p) = Some r'" "p' = p" "r_handed_over_at r' \<noteq> None"
      "r_member_id r' = member_id" "r_assignment_digest r' = Some digest"
    | (first) r where "lookup r_id i (reservations p) = Some r" "r_handed_over_at r = None" "r_state r = Accepted"
      "r_member_id r = member_id" "r_assignment_digest r = Some digest"
      "event env i ''handed_over'' (JDict [(''member_id'', JStr member_id), (''digest'', JStr digest)])
         (update_reservation i (\<lambda>r. r\<lparr>r_handed_over_at := Some (clock env)\<rparr>) p) = Inr p'"
      "lookup r_id i (reservations p') = Some r'"
proof -
  obtain r where r: "lookup r_id i (reservations p) = Some r" and guard: "r_member_id r = member_id" "r_assignment_digest r = Some digest"
    and rest: "(if r_handed_over_at r \<noteq> None then Inr (r, p)
       else if r_state r \<noteq> Accepted then Inl (Conflict ''assignment is not available for first handover'') else
       bindE (event env i (''handed_over'') (JDict [(''member_id'', JStr member_id), (''digest'', JStr digest)])
                (update_reservation i (\<lambda>r. r\<lparr>r_handed_over_at := Some (clock env)\<rparr>) p)) (row i)) = Inr (r', p')"
    using assms unfolding acknowledge_def bindE_Inr locked_Inr by (auto split: if_splits)
  show ?thesis
  proof (cases "r_handed_over_at r")
    case None
    with rest obtain "r_state r = Accepted" and
      q: "event env i ''handed_over'' (JDict [(''member_id'', JStr member_id), (''digest'', JStr digest)])
         (update_reservation i (\<lambda>r. r\<lparr>r_handed_over_at := Some (clock env)\<rparr>) p) = Inr p'" "lookup r_id i (reservations p') = Some r'"
      by (auto simp: bindE_Inr row_Inr split: if_splits)
    with None r guard show ?thesis by (intro first)
  next
    case (Some t)
    with rest r guard show ?thesis by (intro again) auto
  qed
qed

lemma reservations_ok_acknowledge:
  assumes ok: "reservations_ok p" and run: "acknowledge env i member_id digest p = Inr (r', p')"
  shows "reservations_ok p'"
  using run
proof (cases rule: acknowledge_cases)
  case again
  with ok show ?thesis by simp
next
  case (first r)
  have "row_ok r" by (rule reservations_ok_own(4) [OF ok first(1)])
  with first(3) show ?thesis
    by (intro reservations_ok_no_money [OF ok first(1,6)]) (auto simp: row_ok_def collateral_due_def fee_due_def)
qed

lemma record_outcome_cases:
  assumes "record_outcome env i state height evidence p = Inr (r', p')"
  obtains (again) "lookup r_id i (reservations p) = Some r'" "p' = p" "r_state r' = state" "state \<in> {Active, VerificationFailed, Expired}"
    | (first) r where "lookup r_id i (reservations p) = Some r" "r_state r = Accepted" "state \<in> {Active, VerificationFailed, Expired}"
      "state = Expired \<or> r_handed_over_at r \<noteq> None" "0 < height"
      "event env i (outcome_text state) (JDict [(''height'', JInt height), (''evidence'', evidence)])
         (update_reservation i (\<lambda>r. r\<lparr>r_state := state, r_slot_held := False,
            r_active_at_height := (if state = Active then Some height else None)\<rparr>) p) = Inr p'"
      "lookup r_id i (reservations p') = Some r'"
proof -
  have state: "state \<in> {Active, VerificationFailed, Expired}" and height: "0 < height"
    using assms unfolding record_outcome_def raise_if_Inr bindE_Inr units_Inr by auto
  obtain r where r: "lookup r_id i (reservations p) = Some r"
    and rest: "(if r_state r = state then Inr (r, p)
        else if r_state r \<noteq> Accepted then Inl (Conflict ''outcome conflicts with benchmark state'')
        else if state \<noteq> Expired \<and> r_handed_over_at r = None
        then Inl (Conflict ''results cannot be submitted without confirmed handover'') else
        bindE (event env i (outcome_text state) (JDict [(''height'', JInt height), (''evidence'', evidence)])
                 (update_reservation i (\<lambda>r. r\<lparr>r_state := state, r_slot_held := False,
                    r_active_at_height := (if state = Active then Some height else None)\<rparr>) p)) (row i)) = Inr (r', p')"
    using assms unfolding record_outcome_def raise_if_Inr bindE_Inr units_Inr locked_Inr by blast
  show ?thesis
  proof (cases "r_state r = state")
    case True
    with rest r state show ?thesis by (intro again) auto
  next
    case False
    with rest have q: "r_state r = Accepted" "state = Expired \<or> r_handed_over_at r \<noteq> None"
      "event env i (outcome_text state) (JDict [(''height'', JInt height), (''evidence'', evidence)])
         (update_reservation i (\<lambda>r. r\<lparr>r_state := state, r_slot_held := False,
            r_active_at_height := (if state = Active then Some height else None)\<rparr>) p) = Inr p'" "lookup r_id i (reservations p') = Some r'"
      by (auto simp: bindE_Inr row_Inr split: if_splits)
    with r state height show ?thesis by (intro first)
  qed
qed

lemma reservations_ok_record_outcome:
  assumes ok: "reservations_ok p" and run: "record_outcome env i state height evidence p = Inr (r', p')"
  shows "reservations_ok p'"
  using run
proof (cases rule: record_outcome_cases)
  case again
  with ok show ?thesis by simp
next
  case (first r)
  have "row_ok r" by (rule reservations_ok_own(4) [OF ok first(1)])
  with first(2,3) show ?thesis
    by (intro reservations_ok_no_money [OF ok first(1,6)]) (auto simp: row_ok_def collateral_due_def fee_due_def)
qed

lemma modify_modify: "(\<And>x. key (f x) = key x) \<Longrightarrow> modify key i g (modify key i f rows) = modify key i (\<lambda>x. g (f x)) rows"
  by (induction rows) auto

lemma release_unstarted_cases:
  assumes "release_unstarted env jid jid' i rejected actual evidence p = Inr (r', p')"
  obtains (again) "lookup r_id i (reservations p) = Some r'" "p' = p" "r_state r' = (if rejected then Rejected else Cancelled)"
      "r_fee_actual r' = Some actual"
    | (first) r q1 q2 where "lookup r_id i (reservations p) = Some r" "r_state r = (if rejected then Uncertain else Reserved)"
      "rejected \<or> actual = 0" "fees env jid r actual p = Inr q1" "return_collateral env jid' ''return'' (JDict []) r q1 = Inr q2"
      "event env i (if rejected then ''rejected'' else ''cancelled'') evidence
         (update_reservation i (\<lambda>r. r\<lparr>r_state := (if rejected then Rejected else Cancelled), r_slot_held := False,
            r_collateral_outcome := Some Returned\<rparr>) q2) = Inr p'"
      "lookup r_id i (reservations p') = Some r'"
proof -
  let ?state = "if rejected then Rejected else Cancelled"
  obtain r where r: "lookup r_id i (reservations p) = Some r"
    and rest: "(if r_state r = ?state then
          if r_fee_actual r \<noteq> Some actual then Inl (Conflict ''repeated release has a different actual fee'') else Inr (r, p)
        else if r_state r \<noteq> (if rejected then Uncertain else Reserved)
        then Inl (Conflict ''only definitive rejection or a proven-unsent intent can release immediately'')
        else if \<not> rejected \<and> actual \<noteq> 0
        then Inl (Conflict ''an unsent cancellation cannot have a submission charge'') else
        bindE (fees env jid r actual p) (\<lambda>p.
        bindE (return_collateral env jid' ''return'' (JDict []) r p) (\<lambda>p.
        bindE (event env i (if rejected then ''rejected'' else ''cancelled'') evidence
                 (update_reservation i (\<lambda>r. r\<lparr>r_state := ?state, r_slot_held := False,
                    r_collateral_outcome := Some Returned\<rparr>) p)) (row i)))) = Inr (r', p')"
    using assms unfolding release_unstarted_def raise_if_Inr Let_def bindE_Inr locked_Inr by blast
  show ?thesis
  proof (cases "r_state r = ?state")
    case True
    with rest r show ?thesis by (intro again) (auto split: if_splits)
  next
    case False
    with rest obtain q1 q2 where "r_state r = (if rejected then Uncertain else Reserved)" "rejected \<or> actual = 0"
      "fees env jid r actual p = Inr q1" "return_collateral env jid' ''return'' (JDict []) r q1 = Inr q2"
      "event env i (if rejected then ''rejected'' else ''cancelled'') evidence
         (update_reservation i (\<lambda>r. r\<lparr>r_state := ?state, r_slot_held := False, r_collateral_outcome := Some Returned\<rparr>) q2) = Inr p'"
      "lookup r_id i (reservations p') = Some r'"
      unfolding if_not_P [OF False] raise_if_Inr bindE_Inr row_Inr by blast
    with r show ?thesis by (intro first)
  qed
qed

text \<open>Paying the fee and returning the collateral settles both accounts of a reservation.\<close>

lemma fees_and_return_settle:
  assumes ok: "reservations_ok p" and i: "lookup r_id i (reservations p) = Some r" and due: "r_fee_actual r = None" "r_collateral_outcome r = None"
    and fee: "fees env jid r actual p = Inr q1" and ret: "return_collateral env jid' ''return'' (JDict []) r q1 = Inr q2"
  shows "balance (ledger q2) (held i) = 0" and "balance (ledger q2) (committed_fee i) = 0"
    and "j \<noteq> i \<Longrightarrow> balance (ledger q2) (held j) = balance (ledger p) (held j)"
    and "j \<noteq> i \<Longrightarrow> balance (ledger q2) (committed_fee j) = balance (ledger p) (committed_fee j)"
    and "x \<noteq> reservation_key i ''fee'' \<Longrightarrow> x \<noteq> reservation_key i ''return'' \<Longrightarrow> recorded (ledger q2) x = recorded (ledger p) x"
    and "balance (ledger q2) (available (r_member_id r)) = balance (ledger p) (available (r_member_id r)) + r_amount r"
    and "reservations q2 = modify r_id i (\<lambda>r. r\<lparr>r_fee_actual := Some actual\<rparr>) (reservations p)"
    and "0 \<le> actual \<and> actual \<le> r_fee_limit r"
proof -
  note own = reservations_ok_own [OF ok i]
  have f: "\<not> recorded (ledger p) (reservation_key (r_id r) ''fee'')" "\<not> recorded (ledger p) (reservation_key (r_id r) ''return'')"
    using own(3,5) due by (auto simp: journals_due_def)
  note F = fees_effect [OF fee f(1)]
  have "\<not> recorded (ledger q1) (reservation_key (r_id r) ''return'')" using F(4) f(2) by simp
  note R = return_collateral_effect [OF ret this]
  have b: "balance (ledger q2) k = balance (ledger p) k + amount_of (fee_movements r actual) k + amount_of (return_movements r) k" for k
    using F(3) R(2) by simp
  show "balance (ledger q2) (held i) = 0" "balance (ledger q2) (committed_fee i) = 0"
    using own(1,2,5) due by (simp_all add: b fee_movements_def return_movements_def collateral_due_def fee_due_def)
  show "j \<noteq> i \<Longrightarrow> balance (ledger q2) (held j) = balance (ledger p) (held j)"
    "j \<noteq> i \<Longrightarrow> balance (ledger q2) (committed_fee j) = balance (ledger p) (committed_fee j)"
    "balance (ledger q2) (available (r_member_id r)) = balance (ledger p) (available (r_member_id r)) + r_amount r"
    using own(5) by (auto simp: b fee_movements_def return_movements_def)
  show "x \<noteq> reservation_key i ''fee'' \<Longrightarrow> x \<noteq> reservation_key i ''return'' \<Longrightarrow> recorded (ledger q2) x = recorded (ledger p) x"
    using F(4) R(3) own(5) by simp
  have "reservations q2 = reservations q1" by (subst R(1)) simp
  also have "\<dots> = modify r_id i (\<lambda>r. r\<lparr>r_fee_actual := Some actual\<rparr>) (reservations p)" by (subst F(2)) (simp add: own(5))
  finally show "reservations q2 = modify r_id i (\<lambda>r. r\<lparr>r_fee_actual := Some actual\<rparr>) (reservations p)" .
  show "0 \<le> actual \<and> actual \<le> r_fee_limit r" by (rule F(1))
qed

lemma reservations_ok_release_unstarted:
  assumes ok: "reservations_ok p" and run: "release_unstarted env jid jid' i rejected actual evidence p = Inr (r', p')"
  shows "reservations_ok p'"
  using run
proof (cases rule: release_unstarted_cases)
  case again
  with ok show ?thesis by simp
next
  case (first r q1 q2)
  let ?f = "\<lambda>r. r\<lparr>r_fee_actual := Some actual, r_state := (if rejected then Rejected else Cancelled), r_slot_held := False,
            r_collateral_outcome := Some Returned\<rparr>"
  note own = reservations_ok_own [OF ok first(1)]
  have due: "r_fee_actual r = None" "r_collateral_outcome r = None" using own(4) first(2) by (auto simp: row_ok_def split: if_splits)
  note S = fees_and_return_settle [OF ok first(1) due first(4,5)]
  have led: "ledger p' = ledger q2" by (rule update_then_event(3) [OF first(6)])
  show ?thesis
  proof (rule reservations_ok_update [OF ok first(1), of ?f])
    show "row_ok (?f r)" using own(4) S(8) by (simp add: row_ok_def)
    show "reservations p' = modify r_id i ?f (reservations p)"
      unfolding update_then_event(2) [OF first(6)] S(7) by (subst modify_modify) simp_all
    show "balance (ledger p') (held i) = collateral_due (Some (?f r))" "balance (ledger p') (committed_fee i) = fee_due (Some (?f r))"
      using S(1,2) by (simp_all add: led collateral_due_def fee_due_def)
    show "journals_due (ledger p') i (Some (?f r))" by (simp add: journals_due_def)
    fix j assume "j \<noteq> i"
    then show "balance (ledger p') (held j) = balance (ledger p) (held j) \<and>
        balance (ledger p') (committed_fee j) = balance (ledger p) (committed_fee j) \<and>
        (\<forall>kind. CHR '':'' \<notin> set kind \<longrightarrow> recorded (ledger p') (reservation_key j kind) = recorded (ledger p) (reservation_key j kind))"
      using S(3,4,5) by (simp add: led other_journals)
  qed simp_all
qed

lemma release_unhanded_cases:
  assumes "release_unhanded env jid i actor reason ek p = Inr (r', p')"
  obtains (again) "lookup r_id i (reservations p) = Some r'" "r_state r' = Cancelled" "r_collateral_outcome r' = Some Returned"
      "event env i ''unhanded_returned'' (unhanded_evidence env r' actor reason ek) p = Inr p'"
    | (first) r q where "lookup r_id i (reservations p) = Some r" "r_state r = Accepted" "\<not> blank (r_benchmark_id r)" "r_slot_held r"
      "r_handed_over_at r = None" "paused p" "r_offer_expires_at r \<le> clock env"
      "the (r_benchmark_id r) \<notin> set (map bp_benchmark_id (benchmark_payloads p) @ map bg_benchmark_id (benchmark_progress p))"
      "return_collateral env jid ''unhanded-return'' (unhanded_evidence env r actor reason ek) r p = Inr q"
      "event env i ''unhanded_returned'' (unhanded_evidence env r actor reason ek)
         (update_reservation i (\<lambda>r. r\<lparr>r_state := Cancelled, r_slot_held := False, r_collateral_outcome := Some Returned\<rparr>) q) = Inr p'"
      "lookup r_id i (reservations p') = Some r'"
proof -
  obtain r where r: "lookup r_id i (reservations p) = Some r"
    and rest: "(if r_state r = Cancelled \<and> r_collateral_outcome r = Some Returned
        then bindE (event env i ''unhanded_returned'' (unhanded_evidence env r actor reason ek) p) (\<lambda>p. Inr (r, p))
        else if r_state r \<noteq> Accepted \<or> blank (r_benchmark_id r) \<or> \<not> r_slot_held r
        then Inl (Conflict ''only an accepted, collateral-backed assignment can be returned'')
        else if r_handed_over_at r \<noteq> None
        then Inl (Conflict ''member confirmed handover; collateral cannot be returned as unhanded'')
        else if \<not> paused p then Inl (Conflict ''pause new work before returning unhanded collateral'')
        else if r_offer_expires_at r > clock env then Inl (Conflict ''member offer has not expired'')
        else if the (r_benchmark_id r) \<in> set (map bp_benchmark_id (benchmark_payloads p) @ map bg_benchmark_id (benchmark_progress p))
        then Inl (Conflict ''benchmark already has member results or progress evidence'') else
        bindE (return_collateral env jid ''unhanded-return'' (unhanded_evidence env r actor reason ek) r p) (\<lambda>p.
        bindE (event env i ''unhanded_returned'' (unhanded_evidence env r actor reason ek)
                 (update_reservation i (\<lambda>r. r\<lparr>r_state := Cancelled, r_slot_held := False,
                    r_collateral_outcome := Some Returned\<rparr>) p)) (row i))) = Inr (r', p')"
    using assms unfolding release_unhanded_def raise_if_Inr Let_def bindE_Inr locked_Inr by blast
  show ?thesis
  proof (cases "r_state r = Cancelled \<and> r_collateral_outcome r = Some Returned")
    case True
    with rest r show ?thesis by (intro again) (auto simp: bindE_Inr)
  next
    case False
    from rest have "\<not> (r_state r \<noteq> Accepted \<or> blank (r_benchmark_id r) \<or> \<not> r_slot_held r) \<and> \<not> r_handed_over_at r \<noteq> None \<and>
        \<not> \<not> paused p \<and> \<not> r_offer_expires_at r > clock env \<and> the (r_benchmark_id r) \<notin> set (map bp_benchmark_id (benchmark_payloads p) @ map bg_benchmark_id (benchmark_progress p)) \<and>
        (\<exists>q. return_collateral env jid ''unhanded-return'' (unhanded_evidence env r actor reason ek) r p = Inr q \<and>
          (\<exists>s. event env i ''unhanded_returned'' (unhanded_evidence env r actor reason ek)
                 (update_reservation i (\<lambda>r. r\<lparr>r_state := Cancelled, r_slot_held := False,
                    r_collateral_outcome := Some Returned\<rparr>) q) = Inr s \<and> lookup r_id i (reservations s) = Some r' \<and> p' = s))"
      unfolding if_not_P [OF False] raise_if_Inr bindE_Inr row_Inr by blast
    with r show ?thesis by (elim conjE exE) (rule first; simp)
  qed
qed

lemma reservations_ok_release_unhanded:
  assumes ok: "reservations_ok p" and run: "release_unhanded env jid i actor reason ek p = Inr (r', p')"
  shows "reservations_ok p'"
  using run
proof (cases rule: release_unhanded_cases)
  case again
  note e = event_effect(1) [OF again(4)]
  have "reservations p' = reservations p" "ledger p' = ledger p" by (subst e, simp)+
  with ok show ?thesis by (simp add: reservations_ok_def slots_held_def)
next
  case (first r q)
  let ?f = "\<lambda>r. r\<lparr>r_state := Cancelled, r_slot_held := False, r_collateral_outcome := Some Returned\<rparr>"
  note own = reservations_ok_own [OF ok first(1)]
  have due: "r_collateral_outcome r = None" "r_fee_actual r \<noteq> None" using own(4) first(2) by (auto simp: row_ok_def)
  have "\<not> recorded (ledger p) (reservation_key (r_id r) ''unhanded-return'')"
    using own(3,5) due by (auto simp: journals_due_def)
  note R = return_collateral_effect [OF first(9) this]
  have led: "ledger p' = ledger q" by (rule update_then_event(3) [OF first(10)])
  have rows: "reservations q = reservations p" by (subst R(1)) simp
  show ?thesis
  proof (rule reservations_ok_update [OF ok first(1), of ?f])
    show "row_ok (?f r)" using own(4) due by (auto simp: row_ok_def split: option.splits)
    show "reservations p' = modify r_id i ?f (reservations p)" unfolding update_then_event(2) [OF first(10)] rows by simp
    show "balance (ledger p') (held i) = collateral_due (Some (?f r))" "balance (ledger p') (committed_fee i) = fee_due (Some (?f r))"
      using own(1,2,5) R(2) due by (auto simp: led return_movements_def collateral_due_def fee_due_def)
    show "journals_due (ledger p') i (Some (?f r))"
      using own(3,5) R(3) due(2) by (simp add: led journals_due_def)
    fix j assume "j \<noteq> i"
    then show "balance (ledger p') (held j) = balance (ledger p) (held j) \<and>
        balance (ledger p') (committed_fee j) = balance (ledger p) (committed_fee j) \<and>
        (\<forall>kind. CHR '':'' \<notin> set kind \<longrightarrow> recorded (ledger p') (reservation_key j kind) = recorded (ledger p) (reservation_key j kind))"
      using R(2,3) own(5) by (simp add: led other_journals return_movements_def)
  qed simp_all
qed

lemma accept_cases:
  assumes "accept env jid i bid assignment actual evidence p = Inr (r', p')"
  obtains (again) "lookup r_id i (reservations p) = Some r'" "p' = p" "r_benchmark_id r' = Some bid"
      "r_assignment_digest r' = Some (fingerprint env assignment)" "r_fee_actual r' = Some actual"
    | (first) r q where "lookup r_id i (reservations p) = Some r" "blank (r_benchmark_id r)" "r_state r = Uncertain" "bid \<noteq> []"
      "fees env jid r actual p = Inr q" "lookup r_benchmark_id (Some bid) (reservations q) = None"
      "event env i ''accepted'' (JDict [(''benchmark_id'', JStr bid), (''digest'', JStr (fingerprint env assignment)), (''evidence'', evidence)])
         (update_reservation i (\<lambda>r. r\<lparr>r_state := Accepted, r_benchmark_id := Some bid, r_assignment := Some assignment,
            r_assignment_digest := Some (fingerprint env assignment), r_assignment_payload := Some (canonical assignment)\<rparr>) q) = Inr p'"
      "lookup r_id i (reservations p') = Some r'"
proof -
  have bid: "bid \<noteq> []" using assms unfolding accept_def raise_if_Inr by blast
  obtain r where r: "lookup r_id i (reservations p) = Some r"
    and rest: "(if \<not> blank (r_benchmark_id r) then
          if (r_benchmark_id r, r_assignment_digest r, r_fee_actual r) \<noteq> (Some bid, Some (fingerprint env assignment), Some actual)
          then Inl (Conflict ''benchmark acceptance differs from recorded assignment'')
          else Inr (r, p)
        else if r_state r \<noteq> Uncertain then Inl (Conflict ''acceptance requires a potentially sent submission'') else
        bindE (fees env jid r actual p) (\<lambda>p.
          if lookup r_benchmark_id (Some bid) (reservations p) \<noteq> None then Inl (IntegrityError ''reservations'') else
          bindE (event env i ''accepted''
                   (JDict [(''benchmark_id'', JStr bid), (''digest'', JStr (fingerprint env assignment)), (''evidence'', evidence)])
                   (update_reservation i (\<lambda>r. r\<lparr>r_state := Accepted, r_benchmark_id := Some bid,
                      r_assignment := Some assignment, r_assignment_digest := Some (fingerprint env assignment),
                      r_assignment_payload := Some (canonical assignment)\<rparr>) p)) (row i))) = Inr (r', p')"
    using assms unfolding accept_def raise_if_Inr Let_def bindE_Inr locked_Inr by blast
  show ?thesis
  proof (cases "blank (r_benchmark_id r)")
    case False
    with rest r show ?thesis by (intro again) (auto split: if_splits)
  next
    case True
    then have n: "\<not> \<not> blank (r_benchmark_id r)" by simp
    from rest have "\<not> r_state r \<noteq> Uncertain \<and> (\<exists>q. fees env jid r actual p = Inr q \<and>
        \<not> lookup r_benchmark_id (Some bid) (reservations q) \<noteq> None \<and> (\<exists>s. event env i ''accepted''
                   (JDict [(''benchmark_id'', JStr bid), (''digest'', JStr (fingerprint env assignment)), (''evidence'', evidence)])
                   (update_reservation i (\<lambda>r. r\<lparr>r_state := Accepted, r_benchmark_id := Some bid,
                      r_assignment := Some assignment, r_assignment_digest := Some (fingerprint env assignment),
                      r_assignment_payload := Some (canonical assignment)\<rparr>) q) = Inr s \<and> lookup r_id i (reservations s) = Some r' \<and> p' = s))"
      unfolding if_not_P [OF n] raise_if_Inr bindE_Inr row_Inr by blast
    with r True bid show ?thesis by (elim conjE exE) (rule first; simp)
  qed
qed

lemma reservations_ok_accept:
  assumes ok: "reservations_ok p" and run: "accept env jid i bid assignment actual evidence p = Inr (r', p')"
  shows "reservations_ok p'"
  using run
proof (cases rule: accept_cases)
  case again
  with ok show ?thesis by simp
next
  case (first r q)
  let ?f = "\<lambda>r. r\<lparr>r_fee_actual := Some actual, r_state := Accepted, r_benchmark_id := Some bid, r_assignment := Some assignment,
            r_assignment_digest := Some (fingerprint env assignment), r_assignment_payload := Some (canonical assignment)\<rparr>"
  note own = reservations_ok_own [OF ok first(1)]
  have due: "r_fee_actual r = None" "r_collateral_outcome r = None" "r_slot_held r" using own(4) first(3) by (auto simp: row_ok_def)
  have "\<not> recorded (ledger p) (reservation_key (r_id r) ''fee'')" using own(3,5) due by (auto simp: journals_due_def)
  note F = fees_effect [OF first(5) this]
  have led: "ledger p' = ledger q" by (rule update_then_event(3) [OF first(7)])
  have rows: "reservations q = modify r_id i (\<lambda>r. r\<lparr>r_fee_actual := Some actual\<rparr>) (reservations p)"
    by (subst F(2)) (simp add: own(5))
  show ?thesis
  proof (rule reservations_ok_update [OF ok first(1), of ?f])
    show "row_ok (?f r)" using own(4) due F(1) first(4) by (auto simp: row_ok_def blank_def)
    show "reservations p' = modify r_id i ?f (reservations p)"
      unfolding update_then_event(2) [OF first(7)] rows by (subst modify_modify) simp_all
    show "balance (ledger p') (held i) = collateral_due (Some (?f r))" "balance (ledger p') (committed_fee i) = fee_due (Some (?f r))"
      using own(1,2,5) F(3) due by (simp_all add: led fee_movements_def collateral_due_def fee_due_def)
    show "journals_due (ledger p') i (Some (?f r))"
      using own(3,5) F(4) by (simp add: led journals_due_def)
    fix j assume "j \<noteq> i"
    then show "balance (ledger p') (held j) = balance (ledger p) (held j) \<and>
        balance (ledger p') (committed_fee j) = balance (ledger p) (committed_fee j) \<and>
        (\<forall>kind. CHR '':'' \<notin> set kind \<longrightarrow> recorded (ledger p') (reservation_key j kind) = recorded (ledger p) (reservation_key j kind))"
      using F(3,4) own(5) by (simp add: led other_journals fee_movements_def)
  qed (use due in simp_all)
qed

section \<open>Reservation\<close>


lemma reserve_cases:
  assumes "reserve env new_id jid member_id request_key rnd resource selection payload fee_limit expires_at expiry_text p = Inr (r', p')"
  obtains (again) "r' \<in> set (reservations p)" "r_member_id r' = member_id" "r_request_key r' = request_key" "p' = p"
      "r_request_hash r' = request_hash env rnd resource selection payload fee_limit expiry_text"
    | (first) m base amount counts where "lookup m_id member_id (members p) = Some m" "track_counts payload = Some counts"
      "List.find (\<lambda>r. r_member_id r = member_id \<and> r_request_key r = request_key) (reservations p) = None"
      "blocked env p = Inr None" "clock env < expires_at" "slots_held member_id p < 2"
      "collateral counts (MDecimal (m_multiplier m)) (JInt 18) = Inr (base, amount)"
      "check env (m_wallet m) resource amount fee_limit payload None p = Inr ()" "check_fee env fee_limit None p = Inr ()"
      "0 \<le> fee_limit"
      "open_reservation env jid (new_reservation env new_id m request_key
         (request_hash env rnd resource selection payload fee_limit expiry_text) rnd resource base amount
         selection payload fee_limit expires_at) p = Inr (r', p')"
proof -
  let ?hash = "request_hash env rnd resource selection payload fee_limit expiry_text"
  have fee: "0 \<le> fee_limit" using assms unfolding reserve_def raise_if_Inr bindE_Inr units_Inr by auto
  obtain counts where counts: "track_counts payload = Some counts"
    using assms unfolding reserve_def raise_if_Inr bindE_Inr units_Inr by (cases "track_counts payload") auto
  note run = assms [unfolded reserve_def raise_if_Inr bindE_Inr [of "units b v" for b v] counts option.case Let_def
      bindE_Inr [of "member_lock k q" for k q] member_lock_Inr]
  then obtain m where m: "lookup m_id member_id (members p) = Some m" by blast
  show ?thesis
  proof (cases "List.find (\<lambda>r. r_member_id r = member_id \<and> r_request_key r = request_key) (reservations p)")
    case (Some existing)
    then have e: "existing \<in> set (reservations p) \<and> r_member_id existing = member_id \<and> r_request_key existing = request_key"
      by (auto simp: find_Some_iff)
    from run Some have "r_request_hash existing = ?hash \<and> existing = r' \<and> p = p'" by (auto split: if_splits)
    with e show ?thesis by (intro again) auto
  next
    case None
    with run m obtain base amount where
      g: "blocked env p = Inr None" "clock env < expires_at" "slots_held member_id p < 2"
        "collateral counts (MDecimal (m_multiplier m)) (JInt 18) = Inr (base, amount)"
        "check env (m_wallet m) resource amount fee_limit payload None p = Inr ()" "check_fee env fee_limit None p = Inr ()"
        "open_reservation env jid (new_reservation env new_id m request_key ?hash rnd resource base amount
           selection payload fee_limit expires_at) p = Inr (r', p')"
      by (auto simp: bindE_Inr [of "blocked env p"] bindE_Inr [of "collateral c v d" for c v d]
          bindE_Inr [of "check a b c d e f g h" for a b c d e f g h] bindE_Inr [of "check_fee a b c d" for a b c d] not_le split: if_splits)
    show ?thesis by (rule first [OF m counts None g(1-6) fee g(7)])
  qed
qed

lemma open_reservation_new:
  assumes "open_reservation env jid r p = Inr (r', p')"
  shows "lookup r_id (r_id r) (reservations p) = None"
proof -
  obtain j q led where q: "(if r_amount r \<noteq> 0 \<or> r_fee_limit r \<noteq> 0
            then on_ledger (post env jid (reservation_key (r_id r) ''reserve'') ''benchmark_reservation''
                   (reserve_movements (r_member_id r) (r_id r) (r_amount r) (r_fee_limit r))
                   (JDict [(''member_id'', JStr (r_member_id r)), (''multiplier_revision'', JInt (r_multiplier_revision r))]) None) (p\<lparr>ledger := led\<rparr>)
            else Inr ([], p\<lparr>ledger := led\<rparr>)) = Inr (j, q)"
    and none: "lookup r_id (r_id r) (reservations q) = None"
    using assms unfolding open_reservation_def bindE_Inr on_ledger_Inr raise_if_Inr by (fastforce simp: bindE_Inr on_ledger_Inr split: if_splits)
  have "reservations q = reservations p" by (subst optional_post_frame(1) [OF q]) simp
  with none show ?thesis by simp
qed

lemma open_reservation_effect:
  assumes run: "open_reservation env jid r p = Inr (r', p')" and fresh: "\<not> recorded (ledger p) (reservation_key (r_id r) ''reserve'')"
  shows "r' = r" and "lookup r_id (r_id r) (reservations p) = None" and "reservations p' = reservations p @ [r]"
    and "balance (ledger p') k = balance (ledger p) k + amount_of (reserve_movements (r_member_id r) (r_id r) (r_amount r) (r_fee_limit r)) k"
    and "x \<noteq> reservation_key (r_id r) ''reserve'' \<Longrightarrow> recorded (ledger p') x = recorded (ledger p) x"
    and "p' = p\<lparr>ledger := ledger p', reservations := reservations p @ [r], reservation_events := reservation_events p'\<rparr>"
    and "ledger_by reservation_journals (\<lambda>k. reservation_accounts k \<or> k = available (r_member_id r) \<or> k = OPERATOR_FEES) (ledger p) (ledger p')"
    and "event env (r_id r) ''reserved'' (JDict [(''request_hash'', JStr (r_request_hash r))]) (p\<lparr>ledger := ledger p', reservations := reservations p @ [r]\<rparr>) = Inr p'"
proof -
  let ?mv = "reserve_movements (r_member_id r) (r_id r) (r_amount r) (r_fee_limit r)"
  obtain q1 q2 j q where 1: "account (held (r_id r)) KCollateral AssetTIG Custody (ledger p) = Inr q1"
    and 2: "account (committed_fee (r_id r)) KOperatorCommitment AssetTIG Protocol (snd q1) = Inr q2"
    and 3: "(if r_amount r \<noteq> 0 \<or> r_fee_limit r \<noteq> 0
            then on_ledger (post env jid (reservation_key (r_id r) ''reserve'') ''benchmark_reservation'' ?mv
                   (JDict [(''member_id'', JStr (r_member_id r)), (''multiplier_revision'', JInt (r_multiplier_revision r))]) None) (p\<lparr>ledger := snd q2\<rparr>)
            else Inr ([], p\<lparr>ledger := snd q2\<rparr>)) = Inr (j, q)"
    and 4: "lookup r_id (r_id r) (reservations q) = None" "event env (r_id r) ''reserved'' (JDict [(''request_hash'', JStr (r_request_hash r))])
              (q\<lparr>reservations := reservations q @ [r]\<rparr>) = Inr p'" "r' = r"
    using run unfolding open_reservation_def bindE_Inr on_ledger_Inr raise_if_Inr by (fastforce simp: bindE_Inr on_ledger_Inr split: if_splits)
  note frame = optional_post_frame [OF 3]
  note e = event_effect(1) [OF 4(2)]
  have a: "account (held (r_id r)) KCollateral AssetTIG Custody (ledger p) = Inr (fst q1, snd q1)"
    "account (committed_fee (r_id r)) KOperatorCommitment AssetTIG Protocol (snd q1) = Inr (fst q2, snd q2)" using 1 2 by simp_all
  have q: "q = p\<lparr>ledger := ledger q\<rparr>" by (subst frame(1)) simp
  have rows: "reservations q = reservations p" by (subst q) simp
  have led: "ledger p' = ledger q" by (subst e) simp
  show "r' = r" by (rule 4(3))
  show "lookup r_id (r_id r) (reservations p) = None" using 4(1) rows by simp
  show "reservations p' = reservations p @ [r]" by (subst e) (simp add: rows)
  have rec: "recorded (snd q2) x = recorded (ledger p) x" for x
    using account_recorded [OF a(1)] account_recorded [OF a(2)] by simp
  have "balance (ledger q) k = balance (ledger (p\<lparr>ledger := snd q2\<rparr>)) k + amount_of ?mv k"
    by (rule optional_post [OF 3]) (use fresh rec in \<open>auto simp: reserve_movements_def\<close>)
  then show "balance (ledger p') k = balance (ledger p) k + amount_of ?mv k"
    using account_cases(2) [OF a(1), of k] account_cases(2) [OF a(2), of k] by (simp add: led)
  show "x \<noteq> reservation_key (r_id r) ''reserve'' \<Longrightarrow> recorded (ledger p') x = recorded (ledger p) x"
    using frame(2) rec by (simp add: led)
  have start: "q\<lparr>reservations := reservations q @ [r]\<rparr> = p\<lparr>ledger := ledger p', reservations := reservations p @ [r]\<rparr>"
    unfolding led by (subst q) (simp add: rows)
  show ev: "event env (r_id r) ''reserved'' (JDict [(''request_hash'', JStr (r_request_hash r))]) (p\<lparr>ledger := ledger p', reservations := reservations p @ [r]\<rparr>) = Inr p'"
    using 4(2) unfolding start .
  show "p' = p\<lparr>ledger := ledger p', reservations := reservations p @ [r], reservation_events := reservation_events p'\<rparr>"
    using event_effect(1) [OF ev] by simp
  let ?A = "\<lambda>k. reservation_accounts k \<or> k = available (r_member_id r) \<or> k = OPERATOR_FEES"
  have "ledger_by reservation_journals ?A (ledger p) (snd q2)"
    by (rule by_account [OF ledger_by_opened [OF a(1)] a(2)])
  moreover have "ledger_by reservation_journals ?A (snd q2) (ledger q)"
    using frame(3) [of reservation_journals ?A] by (auto simp: reservation_journals_def reservation_accounts_def reserve_movements_def)
  ultimately show "ledger_by reservation_journals ?A (ledger p) (ledger p')"
    unfolding led by (rule ledger_by_trans [rotated])
qed

lemma reservations_ok_reserve:
  assumes ok: "reservations_ok p" and run: "reserve env new_id jid member_id request_key rnd resource selection payload fee_limit expires_at expiry_text p = Inr (r', p')"
  shows "reservations_ok p'"
  using run
proof (cases rule: reserve_cases)
  case again
  with ok show ?thesis by simp
next
  case (first m base amount counts)
  let ?r = "new_reservation env new_id m request_key (request_hash env rnd resource selection payload fee_limit expiry_text)
      rnd resource base amount selection payload fee_limit expires_at"
  have m: "m_id m = member_id" using lookup_SomeD [OF first(1)] by simp
  have "0 \<le> amount" using collateral_range [OF first(7)] by simp
  have none: "lookup r_id new_id (reservations p) = None"
    using open_reservation_new [OF first(11)] by (simp add: new_reservation_def)
  have due: "balance (ledger p) (held new_id) = collateral_due None" "balance (ledger p) (committed_fee new_id) = fee_due None"
    "journals_due (ledger p) new_id None"
    using ok none unfolding reservations_ok_def by metis+
  then have "\<not> recorded (ledger p) (reservation_key new_id ''reserve'')" "\<not> recorded (ledger p) (reservation_key new_id ''fee'')"
    "\<not> recorded (ledger p) (reservation_key new_id ''return'')" "\<not> recorded (ledger p) (reservation_key new_id ''unhanded-return'')"
    "balance (ledger p) (held new_id) = 0" "balance (ledger p) (committed_fee new_id) = 0"
    by (simp_all add: journals_due_def collateral_due_def fee_due_def)
  note fresh = this
  have id: "r_id ?r = new_id" by (simp add: new_reservation_def)
  note O = open_reservation_effect [OF first(11), unfolded id, OF fresh(1)]
  have look: "lookup r_id j (reservations p') = (if j = new_id then Some ?r else lookup r_id j (reservations p))" for j
    using none by (auto simp: O(3) lookup_append id split: option.splits)
  have "row_ok ?r" using \<open>0 \<le> amount\<close> first(10) by (simp add: row_ok_def new_reservation_def blank_def)
  moreover have "slots_held k p' \<le> 2" for k
    using ok first(6) m by (cases "k = member_id") (auto simp: slots_held_def O(3) new_reservation_def reservations_ok_def)
  moreover have "balance (ledger p') (held j) = collateral_due (lookup r_id j (reservations p')) \<and>
      balance (ledger p') (committed_fee j) = fee_due (lookup r_id j (reservations p'))" for j
    using ok fresh(5,6) by (auto simp: look O(4) reserve_movements_def new_reservation_def reservations_ok_def collateral_due_def fee_due_def)
  moreover have "journals_due (ledger p') j (lookup r_id j (reservations p'))" for j
  proof (cases "j = new_id")
    case True
    with fresh O(5) show ?thesis by (simp add: look journals_due_def)
  next
    case False
    with ok O(5) show ?thesis by (simp add: look journals_due_def reservations_ok_def)
  qed
  moreover have "distinct (map r_id (reservations p'))"
    using ok none by (simp add: O(3) id reservations_ok_def lookup_None_iff)
  ultimately show ?thesis using ok unfolding reservations_ok_def O(3) by auto
qed

end
