(* ===== verification/Hex.thy ===== *)
theory Hex
  imports Members
begin

text \<open>
  The hexadecimal text of \<open>pool_manager/pool_v2/chain.py\<close>: \<open>hex_bytes\<close> checks data of a
  known size, \<open>quantity\<close> reads an integer, and \<open>hex_text\<close> and \<open>padded_hex\<close> are Python's
  \<open>hex(n)\<close> and \<open>f"{n:064x}"\<close>. The last section shows that what is written is what is read.
\<close>

section \<open>Reading and writing\<close>

text \<open>\<open>hex_bytes(value, size)\<close>.\<close>

definition hex_bytes :: "nat \<Rightarrow> json \<Rightarrow> string result" where
  "hex_bytes n value =
     (case value of
        JStr s \<Rightarrow> if take 2 s = ''0x'' \<and> length s = 2 + 2 * n \<and> list_all is_hex (drop 2 s) then Inr (lower s)
          else Inl (FundsError ''malformed chain hash or ABI data'')
      | _ \<Rightarrow> Inl (FundsError ''malformed chain hash or ABI data''))"

definition hex_value :: "char \<Rightarrow> nat" where
  "hex_value c = (let n = of_char (lower_char c) :: nat in if n \<ge> 97 then n - 87 else n - 48)"

definition parse_hex :: "string \<Rightarrow> nat" where
  "parse_hex s = foldl (\<lambda>v c. 16 * v + hex_value c) 0 s"

text \<open>\<open>quantity(value)\<close>.\<close>

definition quantity :: "json \<Rightarrow> int result" where
  "quantity value =
     (case value of
        JStr s \<Rightarrow> if take 2 s = ''0x'' \<and> drop 2 s \<noteq> [] \<and> list_all is_hex (drop 2 s) then Inr (int (parse_hex (drop 2 s)))
          else Inl (FundsError ''malformed chain quantity'')
      | _ \<Rightarrow> Inl (FundsError ''malformed chain quantity''))"

fun hex_digits :: "nat \<Rightarrow> string" where
  "hex_digits n = (if n < 16 then [hex_digit n] else hex_digits (n div 16) @ [hex_digit (n mod 16)])"

declare hex_digits.simps [simp del]

definition hex_text :: "int \<Rightarrow> string" where
  "hex_text n = (if n < 0 then ''-'' else []) @ ''0x'' @ hex_digits (nat \<bar>n\<bar>)"

text \<open>Padding with zeros to at least the given width.\<close>

definition padded_hex :: "nat \<Rightarrow> nat \<Rightarrow> string" where
  "padded_hex width n = replicate (width - length (hex_digits n)) (CHR ''0'') @ hex_digits n"

section \<open>Round trips\<close>

lemma hex_digit_ok:
  assumes "n < 16"
  shows "is_hex (hex_digit n)" and "hex_value (hex_digit n) = n"
proof -
  have code: "of_char (hex_digit n) = (if n < 10 then 48 + n else 87 + n)"
    using assms by (simp add: hex_digit_def of_char_of)
  then have "lower_char (hex_digit n) = hex_digit n" using assms by (simp add: lower_char_def)
  with code assms show "is_hex (hex_digit n)" "hex_value (hex_digit n) = n"
    by (auto simp: hex_value_def is_hex_def is_digit_def)
qed

lemma hex_digits_hex: "list_all is_hex (hex_digits n)"
proof (induction n rule: hex_digits.induct)
  case (1 n)
  then show ?case by (cases "n < 16") (simp_all add: hex_digits.simps [of n] hex_digit_ok)
qed

lemma hex_digits_nonempty [simp]: "hex_digits n \<noteq> []"
  by (simp add: hex_digits.simps [of n])

lemma parse_hex_snoc: "parse_hex (s @ [c]) = 16 * parse_hex s + hex_value c"
  by (simp add: parse_hex_def)

lemma parse_hex_digits [simp]: "parse_hex (hex_digits n) = n"
proof (induction n rule: hex_digits.induct)
  case (1 n)
  show ?case
  proof (cases "n < 16")
    case True
    then show ?thesis by (simp add: hex_digits.simps [of n] parse_hex_def hex_digit_ok)
  next
    case False
    with 1 show ?thesis by (simp add: hex_digits.simps [of n] parse_hex_snoc hex_digit_ok)
  qed
qed

lemma parse_hex_zeros: "parse_hex (replicate k (CHR ''0'') @ s) = parse_hex s"
  by (induction k) (simp_all add: parse_hex_def hex_value_def lower_char_def)

lemma parse_padded_hex [simp]: "parse_hex (padded_hex width n) = n"
  by (simp add: padded_hex_def parse_hex_zeros)

lemma quantity_hex_text: "0 \<le> n \<Longrightarrow> quantity (JStr (hex_text n)) = Inr n"
  by (simp add: quantity_def hex_text_def hex_digits_hex)

lemma length_hex_digits: "n < 16 ^ k \<Longrightarrow> 0 < k \<Longrightarrow> length (hex_digits n) \<le> k"
proof (induction k arbitrary: n)
  case (Suc k)
  show ?case
  proof (cases "n < 16")
    case True
    then show ?thesis by (simp add: hex_digits.simps [of n])
  next
    case False
    then have "0 < k" using Suc.prems by (cases k) auto
    moreover have "n div 16 < 16 ^ k" using Suc.prems(1) by (simp add: div_less_iff_less_mult mult.commute)
    ultimately have "length (hex_digits (n div 16)) \<le> k" by (intro Suc.IH)
    with False show ?thesis by (simp add: hex_digits.simps [of n])
  qed
qed simp

lemma length_padded_hex: "n < 16 ^ k \<Longrightarrow> 0 < k \<Longrightarrow> length (padded_hex k n) = k"
  using length_hex_digits [of n k] by (simp add: padded_hex_def)

lemma padded_hex_hex: "list_all is_hex (padded_hex k n)"
  by (simp add: padded_hex_def list_all_append hex_digits_hex)
    (simp add: list_all_iff is_hex_def is_digit_def)

end
