(* ===== verification/Payload.thy ===== *)
theory Payload
  imports Money "HOL-Library.AList"
begin

text \<open>
  Reading decoded responses: Python's subscripts and the checked readers that open
  \<open>pool_manager/pool_v2/protocol.py\<close>. A loop that may raise is \<open>mapE\<close> (one result per
  element) or \<open>foldE\<close> (an accumulator); both stop at the first error.
\<close>

section \<open>Loops that may raise\<close>

fun mapE :: "('a \<Rightarrow> 'e + 'b) \<Rightarrow> 'a list \<Rightarrow> 'e + 'b list" where
  "mapE f [] = Inr []"
| "mapE f (x # xs) = bindE (f x) (\<lambda>y. bindE (mapE f xs) (\<lambda>ys. Inr (y # ys)))"

fun foldE :: "('a \<Rightarrow> 's \<Rightarrow> 'e + 's) \<Rightarrow> 'a list \<Rightarrow> 's \<Rightarrow> 'e + 's" where
  "foldE f [] s = Inr s"
| "foldE f (x # xs) s = bindE (f x s) (foldE f xs)"

lemma mapE_Inr: "mapE f xs = Inr ys \<longleftrightarrow> list_all2 (\<lambda>x y. f x = Inr y) xs ys"
proof (induction xs arbitrary: ys)
  case (Cons x xs)
  then show ?case by (cases ys) (auto simp: bindE_Inr)
qed auto

lemma mapE_length: "mapE f xs = Inr ys \<Longrightarrow> length ys = length xs"
  by (auto simp: mapE_Inr dest: list_all2_lengthD)

lemma mapE_set: "mapE f xs = Inr ys \<Longrightarrow> y \<in> set ys \<Longrightarrow> \<exists>x \<in> set xs. f x = Inr y"
proof (induction xs arbitrary: ys)
  case (Cons x xs)
  then show ?case by (auto simp: bindE_Inr)
qed simp

lemma mapE_all: "mapE f xs = Inr ys \<Longrightarrow> x \<in> set xs \<Longrightarrow> \<exists>y \<in> set ys. f x = Inr y"
proof (induction xs arbitrary: ys)
  case (Cons x xs)
  then show ?case by (auto simp: bindE_Inr)
qed simp

lemma mapE_map: "mapE f xs = Inr ys \<Longrightarrow> (\<And>x y. f x = Inr y \<Longrightarrow> g y = h x) \<Longrightarrow> map g ys = map h xs"
  by (auto simp: mapE_Inr list_all2_conv_all_nth intro!: nth_equalityI)

text \<open>A check raises or passes.\<close>

definition require :: "bool \<Rightarrow> error \<Rightarrow> unit result" where
  "require b e = (if b then Inr () else Inl e)"

lemma require_Inr [outcome]: "require b e = Inr u \<longleftrightarrow> b"
  by (simp add: require_def)

section \<open>Subscripts\<close>

text \<open>\<open>value[key]\<close> on decoded JSON; a list or a text cannot be subscripted by a text.\<close>

definition subscript :: "json \<Rightarrow> string \<Rightarrow> json result" where
  "subscript value key =
     (case value of
        JDict items \<Rightarrow> (case dict_get key items of None \<Rightarrow> Inl KeyError | Some v \<Rightarrow> Inr v)
      | _ \<Rightarrow> Inl TypeError)"

definition item :: "(string \<times> json) list \<Rightarrow> string \<Rightarrow> json result" where
  "item items key = (case dict_get key items of None \<Rightarrow> Inl KeyError | Some v \<Rightarrow> Inr v)"

text \<open>\<open>value.get(key)\<close> on a dict; anything else has no such method.\<close>

definition get :: "string \<Rightarrow> (string \<times> json) list \<Rightarrow> json" where
  "get key items = (case dict_get key items of None \<Rightarrow> JNull | Some v \<Rightarrow> v)"

definition json_get :: "json \<Rightarrow> string \<Rightarrow> json result" where
  "json_get value key = (case value of JDict items \<Rightarrow> Inr (get key items) | _ \<Rightarrow> Inl AttributeError)"

text \<open>A path of subscripts.\<close>

fun path :: "json \<Rightarrow> string list \<Rightarrow> json result" where
  "path v [] = Inr v"
| "path v (k # ks) = bindE (subscript v k) (\<lambda>w. path w ks)"

text \<open>\<open>d[key] = value\<close> on a decoded object, in place.\<close>

definition assign :: "string \<Rightarrow> json \<Rightarrow> json \<Rightarrow> json result" where
  "assign key v value = (case value of JDict items \<Rightarrow> Inr (JDict (AList.update key v items)) | _ \<Rightarrow> Inl TypeError)"

fun assign_at :: "string list \<Rightarrow> string \<Rightarrow> json \<Rightarrow> json \<Rightarrow> json result" where
  "assign_at [] key v value = assign key v value"
| "assign_at (p # ps) key v value =
     bindE (subscript value p) (\<lambda>inner. bindE (assign_at ps key v inner) (\<lambda>inner. assign p inner value))"

text \<open>
  A value used as a dict key: the dicts of a decoded response have text keys, an unhashable
  value raises and any other is a key that no entry has.
\<close>

definition hashable :: "json \<Rightarrow> json result" where
  "hashable v = (case v of JList _ \<Rightarrow> Inl TypeError | JDict _ \<Rightarrow> Inl TypeError | _ \<Rightarrow> Inr v)"

definition find_key :: "json \<Rightarrow> (string \<times> 'a) list \<Rightarrow> (string \<times> 'a) option result" where
  "find_key v d = bindE (hashable v) (\<lambda>v. Inr (case v of JStr k \<Rightarrow> map_option (Pair k) (map_of d k) | _ \<Rightarrow> None))"

text \<open>\<open>x in container\<close> and \<open>set(container)\<close>.\<close>

fun occurs_in :: "string \<Rightarrow> string \<Rightarrow> bool" where
  "occurs_in t [] \<longleftrightarrow> t = []"
| "occurs_in t (c # s) \<longleftrightarrow> take (length t) (c # s) = t \<or> occurs_in t s"

definition member_of :: "json \<Rightarrow> json \<Rightarrow> bool result" where
  "member_of x container =
     (case container of
        JDict items \<Rightarrow> bindE (find_key x items) (\<lambda>r. Inr (r \<noteq> None))
      | JList xs \<Rightarrow> Inr (list_ex (json_eq x) xs)
      | JStr s \<Rightarrow> (case x of JStr t \<Rightarrow> Inr (occurs_in t s) | _ \<Rightarrow> Inl TypeError)
      | _ \<Rightarrow> Inl TypeError)"

definition iterate :: "json \<Rightarrow> json list result" where
  "iterate container =
     (case container of
        JDict items \<Rightarrow> Inr (map (JStr \<circ> fst) items)
      | JList xs \<Rightarrow> Inr xs
      | JStr s \<Rightarrow> Inr (map (\<lambda>c. JStr [c]) s)
      | _ \<Rightarrow> Inl TypeError)"

definition elements :: "json \<Rightarrow> json list result" where
  "elements container = bindE (iterate container) (mapE hashable)"

text \<open>\<open>not value\<close>.\<close>

definition falsy :: "json \<Rightarrow> bool" where
  "falsy v = (v \<in> {JNull, JBool False, JInt 0, JFloat ''0.0'', JFloat ''-0.0'', JStr [], JList [], JDict []})"

lemma subscript_Inr [outcome]: "subscript v k = Inr w \<longleftrightarrow> (\<exists>items. v = JDict items \<and> dict_get k items = Some w)"
  by (auto simp: subscript_def split: json.splits option.splits)

lemma item_Inr [outcome]: "item items k = Inr w \<longleftrightarrow> dict_get k items = Some w"
  by (auto simp: item_def split: option.splits)

lemma dict_get_map_of: "dict_get k items = map_of items k"
  by (induction items) auto

lemma dict_get_update [simp]: "dict_get k (AList.update j v items) = (if k = j then Some v else dict_get k items)"
  by (simp add: dict_get_map_of AList.update_conv')

lemma find_key_Some: "find_key v d = Inr (Some (k, x)) \<longleftrightarrow> v = JStr k \<and> map_of d k = Some x"
  by (auto simp: find_key_def hashable_def bindE_Inr split: json.splits)

section \<open>Checked readers\<close>

abbreviation malformed :: "string \<Rightarrow> 'a result" where
  "malformed message \<equiv> Inl (ProtocolDataError message)"

text \<open>\<open>_object\<close>, \<open>_array\<close>, \<open>_integer\<close>, \<open>_text\<close>, \<open>_index\<close> and \<open>_counts\<close>.\<close>

definition p_object :: "json \<Rightarrow> string \<Rightarrow> (string \<times> json) list result" where
  "p_object value label = (case value of JDict items \<Rightarrow> Inr items | _ \<Rightarrow> malformed (label @ '': expected an object''))"

definition p_array :: "json \<Rightarrow> string \<Rightarrow> json list result" where
  "p_array value label = (case value of JList xs \<Rightarrow> Inr xs | _ \<Rightarrow> malformed (label @ '': expected an array''))"

definition p_integer :: "json \<Rightarrow> string \<Rightarrow> int \<Rightarrow> int result" where
  "p_integer value label minimum =
     (case value of
        JInt n \<Rightarrow> if n < minimum then malformed (label @ '': expected an integer >= '' @ int_text minimum) else Inr n
      | _ \<Rightarrow> malformed (label @ '': expected an integer >= '' @ int_text minimum))"

definition p_text :: "json \<Rightarrow> string \<Rightarrow> string result" where
  "p_text value label =
     (case value of
        JStr s \<Rightarrow> if s = [] then malformed (label @ '': expected a nonempty string'') else Inr s
      | _ \<Rightarrow> malformed (label @ '': expected a nonempty string''))"

text \<open>A value that an earlier check showed to be text.\<close>

definition as_text :: "string \<Rightarrow> json \<Rightarrow> string result" where
  "as_text message v = (case v of JStr s \<Rightarrow> Inr s | _ \<Rightarrow> malformed message)"

lemma as_text_Inr [outcome]: "as_text message v = Inr s \<longleftrightarrow> v = JStr s"
  by (auto simp: as_text_def split: json.splits)

definition index_row :: "string \<Rightarrow> string \<Rightarrow> json \<Rightarrow> (string \<times> json) list \<Rightarrow> (string \<times> json) list result" where
  "index_row key label row result =
     bindE (p_object row label) (\<lambda>items.
     bindE (p_text (get key items) (label @ ''.'' @ key)) (\<lambda>identity.
       if identity \<in> fst ` set result then malformed (label @ '': duplicate '' @ identity)
       else Inr (result @ [(identity, row)])))"

definition p_index :: "json \<Rightarrow> string \<Rightarrow> string \<Rightarrow> (string \<times> json) list result" where
  "p_index rows key label = bindE (p_array rows label) (\<lambda>xs. foldE (index_row key label) xs [])"

definition p_counts :: "json \<Rightarrow> string \<Rightarrow> (string \<times> int) list result" where
  "p_counts value label =
     bindE (p_object value label) (mapE (\<lambda>(k, v). bindE (p_text (JStr k) label) (\<lambda>k. bindE (p_integer v label 0) (\<lambda>n. Inr (k, n)))))"

lemma p_object_Inr [outcome]: "p_object v l = Inr items \<longleftrightarrow> v = JDict items"
  by (auto simp: p_object_def split: json.splits)

lemma p_array_Inr [outcome]: "p_array v l = Inr xs \<longleftrightarrow> v = JList xs"
  by (auto simp: p_array_def split: json.splits)

lemma p_integer_Inr [outcome]: "p_integer v l m = Inr n \<longleftrightarrow> v = JInt n \<and> m \<le> n"
  by (auto simp: p_integer_def split: json.splits)

lemma p_text_Inr [outcome]: "p_text v l = Inr s \<longleftrightarrow> v = JStr s \<and> s \<noteq> []"
  by (auto simp: p_text_def split: json.splits)

lemma index_row_Inr:
  "index_row key label x acc = Inr s \<longleftrightarrow>
   (\<exists>items i. x = JDict items \<and> get key items = JStr i \<and> i \<noteq> [] \<and> i \<notin> fst ` set acc \<and> s = acc @ [(i, x)])"
  by (auto simp: index_row_def bindE_Inr outcome)

lemma foldE_index_distinct:
  "foldE (index_row key label) xs acc = Inr r \<Longrightarrow> distinct (map fst acc) \<Longrightarrow> distinct (map fst r)"
proof (induction xs arbitrary: acc)
  case (Cons x xs)
  from Cons.prems(1) obtain s where s: "index_row key label x acc = Inr s" "foldE (index_row key label) xs s = Inr r"
    by (auto simp: bindE_Inr)
  from s(1) Cons.prems(2) have "distinct (map fst s)" by (auto simp: index_row_Inr)
  with Cons.IH s(2) show ?case .
qed simp

lemma p_index_distinct: "p_index rows key label = Inr r \<Longrightarrow> distinct (map fst r)"
  unfolding p_index_def bindE_Inr using foldE_index_distinct [of key label _ "[]" r] by auto

lemma p_counts_nonneg: "p_counts v label = Inr d \<Longrightarrow> (k, n) \<in> set d \<Longrightarrow> 0 \<le> n"
  by (auto simp: p_counts_def bindE_Inr outcome dest!: mapE_set split: prod.splits)

text \<open>A malformed field is reported as such: \<open>except (KeyError, TypeError, AttributeError)\<close>.\<close>

definition guard_fields :: "string \<Rightarrow> 'a result \<Rightarrow> 'a result" where
  "guard_fields label m =
     (case m of Inl KeyError \<Rightarrow> malformed label | Inl TypeError \<Rightarrow> malformed label | Inl AttributeError \<Rightarrow> malformed label | _ \<Rightarrow> m)"

lemma guard_fields_Inr [outcome]: "guard_fields label m = Inr x \<longleftrightarrow> m = Inr x"
  by (auto simp: guard_fields_def split: sum.splits error.splits)

end
