(* ===== verification/Withdrawals.thy ===== *)
theory Withdrawals
  imports Benchmarks Hex Payload
begin

text \<open>
  \<open>pool_manager/pool_v2/withdrawals.py\<close>: a withdrawal is requested by a member or the operator,
  reviewed, sent from custody by hand under a reserved nonce and gas budget, and reconciled
  against the finalized transaction of that nonce. Every operation is one transaction, but
  \<open>reconcile\<close>, whose first transaction keeps the chain evidence even when the second fails.
\<close>

section \<open>Requests\<close>

definition pending :: "string \<Rightarrow> string" where "pending identity = ''withdrawal:'' @ identity"

definition gas_hold :: "string \<Rightarrow> string" where "gas_hold identity = ''withdrawal-gas:'' @ identity"

abbreviation operator_tig :: string where "operator_tig \<equiv> ''operator:custody:TIG''"
abbreviation operator_native :: string where "operator_native \<equiv> ''operator:custody:NATIVE''"

definition withdrawal_key :: "string \<Rightarrow> string \<Rightarrow> string" where
  "withdrawal_key identity kind = ''withdrawal:'' @ identity @ '':'' @ kind"

definition attempt_key :: "string \<Rightarrow> string \<Rightarrow> string" where
  "attempt_key identity kind = ''withdrawal-attempt:'' @ identity @ '':'' @ kind"

definition seven_days :: timestamp where "seven_days = seconds (7 * 86400)"

text \<open>Open the withdrawal's account and move the amount into it, before the row is inserted.\<close>

definition hold_funds :: "env \<Rightarrow> string \<Rightarrow> string \<Rightarrow> string \<Rightarrow> string \<Rightarrow> int \<Rightarrow> json \<Rightarrow> pool \<Rightarrow> (unit \<times> pool) result" where
  "hold_funds env jid identity kind source amount details p =
     bindE (on_ledger (post env jid (withdrawal_key identity ''reserve'') kind
       [(source, - amount), (pending identity, amount)] details None) p) (\<lambda>(_, p). Inr ((), p))"

definition insert_withdrawal :: "withdrawal_row \<Rightarrow> pool \<Rightarrow> (withdrawal_row \<times> pool) result" where
  "insert_withdrawal w p =
     (if lookup w_id (w_id w) (withdrawals p) \<noteq> None then Inl (IntegrityError ''withdrawals'')
      else Inr (w, p\<lparr>withdrawals := withdrawals p @ [w]\<rparr>))"

definition request :: "env \<Rightarrow> string \<Rightarrow> string \<Rightarrow> string \<Rightarrow> string \<Rightarrow> int \<Rightarrow> pool \<Rightarrow> (withdrawal_row \<times> pool) result" where
  "request env new_id jid member_id request_key amount p =
     bindE (units True (JInt amount)) (\<lambda>_.
       if request_key = [] \<or> length request_key > 128
       then Inl (FundsError ''withdrawal requires a bounded idempotency key'') else
       bindE (member_lock member_id p) (\<lambda>member.
         case List.find (\<lambda>w. w_member_id w = Some member_id \<and> w_request_key w = request_key) (withdrawals p) of
           Some existing \<Rightarrow>
             if w_amount existing \<noteq> amount then Inl (Conflict ''withdrawal key was reused with a different amount'')
             else Inr (existing, p)
         | None \<Rightarrow>
             if (case m_last_paid_at member of None \<Rightarrow> False | Some t \<Rightarrow> clock env < t + seven_days)
             then Inl (Conflict ''seven days must pass after the previous successful withdrawal'')
             else if \<exists>w \<in> set (withdrawals p). w_member_id w = Some member_id \<and> withdrawal_pending (w_state w)
             then Inl (Conflict ''member already has a pending withdrawal'') else
             bindE (on_ledger (account (pending new_id) KWithdrawal AssetTIG Custody) p) (\<lambda>(_, p).
             bindE (hold_funds env jid new_id ''withdrawal_reservation'' (available member_id) amount (JDict []) p) (\<lambda>(_, p).
             insert_withdrawal \<lparr>w_id = new_id, w_kind = MemberWithdrawal, w_member_id = Some member_id, w_request_key = request_key,
               w_amount = amount, w_recipient = m_withdrawal_wallet member, w_state = WRequested, w_paid_event = None,
               w_operator_reserve = None\<rparr> p))))"

definition withdrawal_locked :: "string \<Rightarrow> pool \<Rightarrow> withdrawal_row result" where
  "withdrawal_locked identity p =
     (case lookup w_id identity (withdrawals p) of
        None \<Rightarrow> Inl (FundsError ''unknown withdrawal request'')
      | Some w \<Rightarrow>
          (case w_member_id w of
             None \<Rightarrow> Inr w
           | Some m \<Rightarrow> bindE (member_lock m p) (\<lambda>_. Inr w)))"

definition withdrawal_event :: "string \<Rightarrow> string \<Rightarrow> string \<Rightarrow> json \<Rightarrow> string \<Rightarrow> pool \<Rightarrow> pool result" where
  "withdrawal_event identity kind actor details key p =
     (if actor = [] \<or> key = [] then Inl (FundsError ''withdrawal action requires actor and event key'') else
      case lookup we_key key (withdrawal_events p) of
        Some previous \<Rightarrow>
          if (we_withdrawal_id previous, we_kind previous, we_actor previous) \<noteq> (identity, kind, actor) \<or>
             \<not> json_eq (we_details previous) details
          then Inl (Conflict ''withdrawal event key was reused with different inputs'')
          else Inr p
      | None \<Rightarrow> Inr (p\<lparr>withdrawal_events := withdrawal_events p @
          [\<lparr>we_key = key, we_withdrawal_id = identity, we_kind = kind, we_actor = actor, we_details = details\<rparr>]\<rparr>))"

text \<open>\<open>SELECT balance ... FOR UPDATE\<close>; the missing row of an unknown account cannot be subscripted.\<close>

definition account_balance :: "string \<Rightarrow> pool \<Rightarrow> int result" where
  "account_balance k p =
     (case lookup acc_id k (accounts (ledger p)) of None \<Rightarrow> Inl TypeError | Some a \<Rightarrow> Inr (acc_balance a))"

definition request_operator :: "env \<Rightarrow> string \<Rightarrow> string \<Rightarrow> string \<Rightarrow> int \<Rightarrow> network \<Rightarrow> json \<Rightarrow> int \<Rightarrow> string \<Rightarrow> string \<Rightarrow> pool \<Rightarrow>
    (withdrawal_row \<times> pool) result" where
  "request_operator env new_id jid request_key amount net recipient retain actor reason p =
     bindE (units True (JInt amount)) (\<lambda>_.
     bindE (units False (JInt retain)) (\<lambda>_.
     bindE (address recipient) (\<lambda>wallet.
       if wallet = net_custody net then Inl (FundsError ''operator income wallet must differ from pool custody'')
       else if request_key = [] \<or> length request_key > 128 \<or> actor = [] \<or> reason = []
       then Inl (FundsError ''operator withdrawal requires a bounded key, actor and reason'') else
       bindE (bind net p) (\<lambda>(_, p).
       let details = [(''recipient'', JStr wallet), (''reserve'', JInt retain), (''reason'', JStr reason)] in
       case List.find (\<lambda>w. w_kind w = OperatorWithdrawal \<and> w_request_key w = request_key) (withdrawals p) of
         Some previous \<Rightarrow>
           if (w_amount previous, w_recipient previous, w_operator_reserve previous) \<noteq> (amount, wallet, Some retain)
           then Inl (Conflict ''operator withdrawal request key was reused with different inputs'') else
           bindE (withdrawal_event (w_id previous) ''requested'' actor (JDict details) (''operator-request:'' @ w_id previous) p)
             (\<lambda>p. Inr (previous, p))
       | None \<Rightarrow>
           if \<exists>w \<in> set (withdrawals p). w_kind w = OperatorWithdrawal \<and> withdrawal_pending (w_state w)
           then Inl (Conflict ''operator already has a pending withdrawal'') else
           bindE (on_ledger (account (pending new_id) KWithdrawal AssetTIG Custody) p) (\<lambda>(_, p).
           bindE (account_balance operator_tig p) (\<lambda>funds.
             if funds < amount + retain
             then Inl (InsufficientFunds ''operator funds must cover the withdrawal and retained operating reserve'') else
             bindE (hold_funds env jid new_id ''operator_withdrawal_reservation'' operator_tig amount
                      (JDict ((''actor'', JStr actor) # details)) p) (\<lambda>(_, p).
             bindE (insert_withdrawal \<lparr>w_id = new_id, w_kind = OperatorWithdrawal, w_member_id = None,
                 w_request_key = request_key, w_amount = amount, w_recipient = wallet, w_state = WRequested,
                 w_paid_event = None, w_operator_reserve = Some retain\<rparr> p) (\<lambda>(w, p).
             bindE (withdrawal_event new_id ''requested'' actor (JDict details) (''operator-request:'' @ new_id) p) (\<lambda>p.
               Inr (w, p))))))))))"

text \<open>\<open>UPDATE withdrawals SET ... WHERE id = identity\<close>.\<close>

definition update_withdrawal :: "string \<Rightarrow> (withdrawal_row \<Rightarrow> withdrawal_row) \<Rightarrow> pool \<Rightarrow> pool" where
  "update_withdrawal identity f p = p\<lparr>withdrawals := modify w_id identity f (withdrawals p)\<rparr>"

section \<open>Review and release\<close>

definition approve :: "string \<Rightarrow> network \<Rightarrow> string \<Rightarrow> string \<Rightarrow> json \<Rightarrow> pool \<Rightarrow> (withdrawal_review_row \<times> pool) result" where
  "approve identity net fee_model actor evidence p =
     (if fee_model \<notin> set FEE_MODELS \<or> actor = [] \<or> \<not> truthy evidence \<or> \<not> net_require_finalized net
      then Inl (FundsError ''review requires a verified fee model, operator and evidence'') else
      bindE (bind net p) (\<lambda>(_, p).
      bindE (withdrawal_locked identity p) (\<lambda>w.
        case lookup wr_withdrawal_id identity (withdrawal_reviews p) of
          Some previous \<Rightarrow>
            if (wr_chain_id previous, wr_token previous, wr_sender previous, wr_fee_model previous, wr_confirmations previous) \<noteq>
               (net_chain_id net, net_token net, net_custody net, fee_model, net_confirmations net)
            then Inl (Conflict ''withdrawal payment route is already frozen'')
            else Inr (previous, p)
        | None \<Rightarrow>
            if w_state w \<noteq> WRequested then Inl (Conflict ''only a pending request can be approved'')
            else if w_recipient w = net_custody net
            then Inl (Conflict ''a withdrawal cannot send back to the pool custody wallet'')
            else let r = \<lparr>wr_withdrawal_id = identity, wr_chain_id = net_chain_id net, wr_token = net_token net,
                   wr_sender = net_custody net, wr_fee_model = fee_model, wr_confirmations = net_confirmations net,
                   wr_actor = actor, wr_evidence = evidence\<rparr>
              in Inr (r, update_withdrawal identity (\<lambda>w. w\<lparr>w_state := WApproved\<rparr>)
                   (p\<lparr>withdrawal_reviews := withdrawal_reviews p @ [r]\<rparr>)))))"

fun withdrawal_state_text :: "withdrawal_state \<Rightarrow> string" where
  "withdrawal_state_text WRequested = ''requested''"
| "withdrawal_state_text WApproved = ''approved''"
| "withdrawal_state_text WUncertain = ''uncertain''"
| "withdrawal_state_text WPaid = ''paid''"
| "withdrawal_state_text WRejected = ''rejected''"
| "withdrawal_state_text WCancelled = ''cancelled''"

definition source_account :: "withdrawal_row \<Rightarrow> string" where
  "source_account w = (if w_kind w = OperatorWithdrawal then operator_tig
     else available (case w_member_id w of None \<Rightarrow> ''None'' | Some m \<Rightarrow> m))"

text \<open>Where \<open>member_id\<close> is given, the owner cancels; otherwise the operator rejects.\<close>

definition release :: "env \<Rightarrow> string \<Rightarrow> string \<Rightarrow> string \<Rightarrow> string \<Rightarrow> string \<Rightarrow> string option \<Rightarrow> pool \<Rightarrow>
    (withdrawal_row \<times> pool) result" where
  "release env jid identity actor reason event_key member_id p =
     (if reason = [] then Inl (FundsError ''withdrawal release requires a reason'') else
      let state = (if blank member_id then WRejected else WCancelled) in
      bindE (withdrawal_locked identity p) (\<lambda>w.
        if \<not> blank member_id \<and> w_member_id w \<noteq> member_id
        then Inl (FundsError ''withdrawal belongs to another member'')
        else if w_state w \<notin> {WRequested, WApproved, state}
        then Inl (Conflict ''potentially sent or paid withdrawals cannot be released'') else
        bindE (withdrawal_event identity (withdrawal_state_text state) actor (JDict [(''reason'', JStr reason)])
                 (if blank member_id then ''operator:'' @ event_key else ''member:'' @ the member_id @ '':'' @ event_key) p) (\<lambda>p.
          if w_state w = state then Inr (w, p) else
          bindE (on_ledger (post env jid (withdrawal_key identity ''release'') ''withdrawal_release''
                   [(pending identity, - w_amount w), (source_account w, w_amount w)]
                   (JDict [(''actor'', JStr actor), (''reason'', JStr reason), (''state'', JStr (withdrawal_state_text state))]) None) p)
            (\<lambda>(_, p). Inr (w\<lparr>w_state := state\<rparr>, update_withdrawal identity (\<lambda>w. w\<lparr>w_state := state\<rparr>) p)))))"

section \<open>Sending\<close>

text \<open>The route and policy of the approval bind every later step.\<close>

definition weaker_policy :: "network \<Rightarrow> withdrawal_review_row \<Rightarrow> bool" where
  "weaker_policy net review \<longleftrightarrow> \<not> net_require_finalized net \<or> net_confirmations net < wr_confirmations review"

definition operating_reserve_held :: "withdrawal_row \<Rightarrow> int option \<Rightarrow> pool \<Rightarrow> unit result" where
  "operating_reserve_held w operator_reserve p =
     (if w_kind w \<noteq> OperatorWithdrawal then Inr () else
      case w_operator_reserve w of
        None \<Rightarrow> Inl TypeError
      | Some n \<Rightarrow> bindE (account_balance operator_tig p) (\<lambda>funds.
          if funds < max n (case operator_reserve of None \<Rightarrow> 0 | Some m \<Rightarrow> m)
          then Inl (InsufficientFunds ''restore the operator operating reserve before preparing payment'')
          else Inr ()))"

text \<open>The guards of a new send, in the order of the code; they give the review of the withdrawal.\<close>

definition send_guards :: "env \<Rightarrow> custody_preflight \<Rightarrow> withdrawal_row \<Rightarrow> int option \<Rightarrow> int \<Rightarrow> pool \<Rightarrow> withdrawal_review_row result" where
  "send_guards env preflight w operator_reserve fee_limit p =
     (let net = pf_network preflight; age = clock env - pf_checked_at preflight in
      if \<not> (seconds (-5) \<le> age \<and> age \<le> seconds 20)
      then Inl (Conflict ''custody preflight is stale; refresh before starting an attempt'')
      else if w_state w \<noteq> WApproved then Inl (Conflict ''withdrawal is not approved for a new send attempt'') else
      bindE (operating_reserve_held w operator_reserve p) (\<lambda>_.
      case lookup wr_withdrawal_id (w_id w) (withdrawal_reviews p) of
        None \<Rightarrow> Inl (Conflict ''withdrawal network or custody route differs from its approval'')
      | Some review \<Rightarrow>
          if (wr_chain_id review, wr_token review, wr_sender review) \<noteq> (net_chain_id net, net_token net, net_custody net)
          then Inl (Conflict ''withdrawal network or custody route differs from its approval'')
          else if weaker_policy net review then Inl (Conflict ''withdrawal confirmation policy cannot be weakened'')
          else if (backing (ledger p) AssetTIG Custody, backing (ledger p) AssetNATIVE Custody) \<noteq>
                  (pf_token_balance preflight, pf_native_balance preflight)
          then Inl (Conflict ''confirmed wallet balances do not reconcile to all recorded custody funds'') else
          bindE (observer_status_of env p) (\<lambda>observed.
            if os_initialized observed \<and> \<not> os_ready observed
            then Inl (Conflict ''custody observer requires reconciliation before another payment attempt'') else
            bindE (check_gas env fee_limit p) (\<lambda>_. Inr review))))"

definition new_attempt :: "env \<Rightarrow> string \<Rightarrow> string \<Rightarrow> string \<Rightarrow> custody_preflight \<Rightarrow> int \<Rightarrow> string \<Rightarrow> withdrawal_review_row \<Rightarrow>
    withdrawal_attempt_row" where
  "new_attempt env new_id identity request_key preflight fee_limit actor review =
     \<lparr>wa_id = new_id, wa_withdrawal_id = identity, wa_request_key = request_key, wa_chain_id = wr_chain_id review,
       wa_sender = wr_sender review, wa_nonce = pf_nonce preflight, wa_fee_limit = fee_limit, wa_actor = actor,
       wa_preflight = preflight, wa_sent_at = clock env\<rparr>"

text \<open>Reserve the nonce, hold the gas budget, and record the attempt.\<close>

definition open_attempt :: "env \<Rightarrow> string \<Rightarrow> withdrawal_attempt_row \<Rightarrow> pool \<Rightarrow> (withdrawal_attempt_row \<times> pool) result" where
  "open_attempt env jid a p =
     bindE (reserve_nonce (wa_id a) (pf_network (wa_preflight a)) (wa_nonce a) ''withdrawal'' p) (\<lambda>(_, p).
     bindE (on_ledger (account (gas_hold (wa_id a)) KOperatorCommitment AssetNATIVE Custody) p) (\<lambda>(_, p).
     bindE (on_ledger (post env jid (attempt_key (wa_id a) ''gas'') ''operator_withdrawal_fee_reservation''
              [(operator_native, - wa_fee_limit a), (gas_hold (wa_id a), wa_fee_limit a)]
              (JDict [(''withdrawal_id'', JStr (wa_withdrawal_id a)), (''actor'', JStr (wa_actor a))]) None) p) (\<lambda>(_, p).
       if lookup wa_id (wa_id a) (withdrawal_attempts p) \<noteq> None then Inl (IntegrityError ''withdrawal_attempts'') else
       Inr (a, update_withdrawal (wa_withdrawal_id a) (\<lambda>w. w\<lparr>w_state := WUncertain\<rparr>)
              (p\<lparr>withdrawal_attempts := withdrawal_attempts p @ [a]\<rparr>)))))"

definition begin_attempt :: "env \<Rightarrow> string \<Rightarrow> string \<Rightarrow> string \<Rightarrow> string \<Rightarrow> custody_preflight \<Rightarrow> int \<Rightarrow> string \<Rightarrow> int option \<Rightarrow> pool \<Rightarrow>
    (withdrawal_attempt_row \<times> pool) result" where
  "begin_attempt env new_id jid identity request_key preflight fee_limit actor operator_reserve p =
     bindE (units True (JInt fee_limit)) (\<lambda>_.
     bindE (case operator_reserve of None \<Rightarrow> Inr 0 | Some n \<Rightarrow> units False (JInt n)) (\<lambda>_.
       if request_key = [] \<or> length request_key > 128 \<or> actor = []
       then Inl (FundsError ''sending requires a verified custody preflight, bounded key and actor'') else
       bindE (bind (pf_network preflight) p) (\<lambda>(_, p).
       bindE (withdrawal_locked identity p) (\<lambda>w.
       case List.find (\<lambda>a. wa_withdrawal_id a = identity \<and> wa_request_key a = request_key) (withdrawal_attempts p) of
         Some previous \<Rightarrow>
           if wa_fee_limit previous \<noteq> fee_limit
           then Inl (Conflict ''send attempt key was reused with a different fee limit'')
           else Inr (previous, p)
       | None \<Rightarrow>
           bindE (send_guards env preflight w operator_reserve fee_limit p) (\<lambda>review.
             open_attempt env jid (new_attempt env new_id identity request_key preflight fee_limit actor review) p)))))"

definition claim_transaction :: "string \<Rightarrow> json \<Rightarrow> string \<Rightarrow> pool \<Rightarrow> (unit \<times> pool) result" where
  "claim_transaction attempt_id hash actor p =
     bindE (hex_bytes 32 hash) (\<lambda>h.
       if actor = [] then Inl (FundsError ''transaction claim requires operator identity'') else
       case lookup wa_id attempt_id (withdrawal_attempts p) of
         None \<Rightarrow> Inl (FundsError ''unknown withdrawal attempt'')
       | Some attempt \<Rightarrow>
           if \<exists>c \<in> set (withdrawal_transaction_claims p).
             (wc_attempt_id c, wc_chain_id c, wc_tx_hash c) = (attempt_id, wa_chain_id attempt, h)
           then Inr ((), p)
           else Inr ((), p\<lparr>withdrawal_transaction_claims := withdrawal_transaction_claims p @
             [\<lparr>wc_attempt_id = attempt_id, wc_chain_id = wa_chain_id attempt, wc_tx_hash = h, wc_actor = actor\<rparr>]\<rparr>))"

section \<open>Reconciliation\<close>

definition policy_weakened :: "confirmed_transaction \<Rightarrow> confirmed_transfer option \<Rightarrow> withdrawal_review_row \<Rightarrow> bool" where
  "policy_weakened t transfer review \<longleftrightarrow> weaker_policy (tx_network t) review \<or>
     (case transfer of None \<Rightarrow> False | Some tf \<Rightarrow> weaker_policy (tf_network tf) review)"

text \<open>The first transaction keeps the evidence of a matching finalized transaction.\<close>

definition keep_evidence :: "string \<Rightarrow> confirmed_transaction \<Rightarrow> confirmed_transfer option \<Rightarrow> pool \<Rightarrow> (unit \<times> pool) result" where
  "keep_evidence attempt_id t transfer p =
     (case lookup wa_id attempt_id (withdrawal_attempts p) of
        None \<Rightarrow> Inl (FundsError ''unknown withdrawal attempt'')
      | Some initial \<Rightarrow>
          if (net_chain_id (tx_network t), tx_sender t, tx_nonce t) \<noteq> (wa_chain_id initial, wa_sender initial, wa_nonce initial)
          then Inl (Conflict ''transaction does not match the frozen chain, sender or nonce'') else
          case lookup wr_withdrawal_id (wa_withdrawal_id initial) (withdrawal_reviews p) of
            None \<Rightarrow> Inl TypeError
          | Some review \<Rightarrow>
              if tx_fee_model t \<noteq> wr_fee_model review
              then Inl (Conflict ''transaction uses a different fee rule from its frozen approval'')
              else if policy_weakened t transfer review
              then Inl (Conflict ''withdrawal confirmation policy cannot be weakened'')
              else if tx_block_timestamp t + seconds 5 < wa_sent_at initial
              then Inl (Conflict ''transaction predates the recorded send attempt'')
              else bindE (save_transaction t p) (\<lambda>(_, p). Inr ((), p)))"

text \<open>An empty self-send: nothing moved, no call data and no logs.\<close>

definition empty_self_send :: "confirmed_transaction \<Rightarrow> bool result" where
  "empty_self_send t =
     bindE (subscript (tx_evidence t) ''transaction'') (\<lambda>tx.
       if tx_recipient t \<noteq> Some (tx_sender t) \<or> tx_value t \<noteq> 0 then Inr False else
       case tx of
         JDict items \<Rightarrow>
           if dict_get ''input'' items \<notin> {Some (JStr ''0x''), Some (JStr [])} then Inr False else
           bindE (subscript (tx_evidence t) ''receipt'') (\<lambda>receipt.
           bindE (subscript receipt ''logs'') (\<lambda>logs. Inr (\<not> truthy logs)))
       | _ \<Rightarrow> Inl AttributeError)"

definition transfer_matches :: "confirmed_transfer \<Rightarrow> withdrawal_review_row \<Rightarrow> withdrawal_row \<Rightarrow> confirmed_transaction \<Rightarrow> bool" where
  "transfer_matches tf review w t \<longleftrightarrow>
     (net_chain_id (tf_network tf), net_token (tf_network tf), tf_sender tf, tf_recipient tf, tf_amount tf, tf_tx_hash tf, tf_block_hash tf) =
     (wr_chain_id review, wr_token review, wr_sender review, w_recipient w, w_amount w, tx_hash t, tx_block_hash t)"

text \<open>What the finalized transaction means for the attempt, and the store with its transfer saved.\<close>

definition send_result :: "confirmed_transaction \<Rightarrow> confirmed_transfer option \<Rightarrow> withdrawal_review_row \<Rightarrow> withdrawal_row \<Rightarrow> pool \<Rightarrow>
    (send_outcome \<times> pool) result" where
  "send_result t transfer review w p =
     (if \<not> tx_successful t then
        (if transfer \<noteq> None then Inl (Conflict ''failed transaction cannot contain a successful withdrawal'') else Inr (OFailed, p))
      else case transfer of
        Some tf \<Rightarrow>
          if \<not> transfer_matches tf review w t
          then Inl (Conflict ''verified transfer does not match the full frozen withdrawal'') else
          bindE (save_transfer tf p) (\<lambda>(_, p).
            if \<exists>x \<in> set (withdrawals p). w_paid_event x = Some (event_id tf)
            then Inl (Conflict ''token event already paid another withdrawal'')
            else Inr (OPaid, p))
      | None \<Rightarrow>
          bindE (empty_self_send t) (\<lambda>empty.
            if \<not> empty then Inl (Conflict ''successful unmatched transaction needs explicit wallet reconciliation'')
            else Inr (OCancelled, p)))"

fun send_outcome_text :: "send_outcome \<Rightarrow> string" where
  "send_outcome_text OPaid = ''paid''"
| "send_outcome_text OFailed = ''failed''"
| "send_outcome_text OCancelled = ''cancelled''"

definition gas_movements :: "string \<Rightarrow> int \<Rightarrow> int \<Rightarrow> movement list" where
  "gas_movements attempt_id fee_limit fee =
     [(gas_hold attempt_id, - fee_limit), (operator_native, fee_limit - fee), (''external:custody:NATIVE'', fee)]"

definition payment_movements :: "withdrawal_row \<Rightarrow> movement list" where
  "payment_movements w = [(pending (w_id w), - w_amount w), (''external:custody:TIG'', w_amount w)]"

definition optional_text :: "string option \<Rightarrow> json" where
  "optional_text s = (case s of None \<Rightarrow> JNull | Some t \<Rightarrow> JStr t)"

text \<open>Insert the outcome of the attempt; its keys are checked as the table does.\<close>

definition insert_outcome :: "withdrawal_outcome_row \<Rightarrow> pool \<Rightarrow> (withdrawal_outcome_row \<times> pool) result" where
  "insert_outcome out p =
     (if lookup wo_attempt_id (wo_attempt_id out) (withdrawal_attempt_outcomes p) \<noteq> None
        \<or> lookup (\<lambda>o'. (wo_chain_id o', wo_tx_hash o')) (wo_chain_id out, wo_tx_hash out) (withdrawal_attempt_outcomes p) \<noteq> None
      then Inl (IntegrityError ''withdrawal_attempt_outcomes'')
      else Inr (out, p\<lparr>withdrawal_attempt_outcomes := withdrawal_attempt_outcomes p @ [out]\<rparr>))"

text \<open>A paid withdrawal names its event, and its member's seven days start.\<close>

definition mark_paid :: "withdrawal_row \<Rightarrow> string \<Rightarrow> timestamp \<Rightarrow> pool \<Rightarrow> pool" where
  "mark_paid w event_text paid_at p =
     (let p = update_withdrawal (w_id w) (\<lambda>w. w\<lparr>w_state := WPaid, w_paid_event := Some event_text\<rparr>) p
      in case w_member_id w of
           None \<Rightarrow> p
         | Some m \<Rightarrow> p\<lparr>members := modify m_id m (\<lambda>x. x\<lparr>m_last_paid_at := Some paid_at\<rparr>) (members p)\<rparr>)"

definition record_send :: "env \<Rightarrow> string \<Rightarrow> string \<Rightarrow> confirmed_transaction \<Rightarrow> confirmed_transfer option \<Rightarrow> withdrawal_attempt_row \<Rightarrow>
    withdrawal_row \<Rightarrow> send_outcome \<Rightarrow> pool \<Rightarrow> (withdrawal_outcome_row \<times> pool) result" where
  "record_send env jid attempt_id t transfer attempt w outcome p =
     (let transfer_event = map_option event_id transfer in
      bindE (on_ledger (post env jid (attempt_key attempt_id ''reconcile'') (''withdrawal_'' @ send_outcome_text outcome)
               (gas_movements attempt_id (wa_fee_limit attempt) (tx_fee t) @ (if outcome = OPaid then payment_movements w else []))
               (JDict [(''withdrawal_id'', JStr (w_id w)), (''attempt_id'', JStr attempt_id),
                 (''chain_id'', JInt (net_chain_id (tx_network t))), (''tx_hash'', JStr (tx_hash t)), (''fee'', JInt (tx_fee t)),
                 (''fee_model'', JStr (tx_fee_model t)), (''transfer_event'', optional_text transfer_event)]) None) p) (\<lambda>(journal_id, p).
      bindE (record_payment attempt_id t transfer_event journal_id None None None p) (\<lambda>(_, p).
      bindE (insert_outcome \<lparr>wo_attempt_id = attempt_id, wo_chain_id = net_chain_id (tx_network t), wo_tx_hash = tx_hash t,
               wo_outcome = outcome, wo_fee = tx_fee t, wo_journal_id = journal_id\<rparr> p) (\<lambda>(result, p).
        Inr (result, if outcome = OPaid then mark_paid w (the transfer_event) (tx_block_timestamp t) p
                     else update_withdrawal (w_id w) (\<lambda>w. w\<lparr>w_state := WApproved\<rparr>) p)))))"

definition settle_attempt :: "env \<Rightarrow> string \<Rightarrow> string \<Rightarrow> confirmed_transaction \<Rightarrow> confirmed_transfer option \<Rightarrow> pool \<Rightarrow>
    (withdrawal_outcome_row \<times> pool) result" where
  "settle_attempt env jid attempt_id t transfer p =
     bindE (bind (tx_network t) p) (\<lambda>(_, p).
     case lookup wa_id attempt_id (withdrawal_attempts p) of
       None \<Rightarrow> Inl (FundsError ''unknown withdrawal attempt'')
     | Some attempt \<Rightarrow>
     bindE (withdrawal_locked (wa_withdrawal_id attempt) p) (\<lambda>w.
     case lookup wr_withdrawal_id (w_id w) (withdrawal_reviews p) of
       None \<Rightarrow> Inl TypeError
     | Some review \<Rightarrow>
         if (net_chain_id (tx_network t), tx_sender t, tx_nonce t, tx_fee_model t) \<noteq>
            (wa_chain_id attempt, wa_sender attempt, wa_nonce attempt, wr_fee_model review)
         then Inl (Conflict ''transaction does not match the frozen chain, sender, nonce or fee rule'')
         else if policy_weakened t transfer review
         then Inl (Conflict ''withdrawal confirmation policy cannot be weakened'')
         else if tx_block_number t \<le> pf_block_number (wa_preflight attempt)
         then Inl (Conflict ''transaction predates the recorded send attempt'') else
         case lookup wo_attempt_id attempt_id (withdrawal_attempt_outcomes p) of
           Some previous \<Rightarrow>
             if wo_tx_hash previous \<noteq> tx_hash t then Inl (Conflict ''attempt already has a different final transaction'')
             else if wo_outcome previous = OPaid \<and> (transfer = None \<or> w_paid_event w \<noteq> map_option event_id transfer)
             then Inl (Conflict ''payment replay must identify the same exact transfer event'') else
             (case transfer of
                None \<Rightarrow> Inr (previous, p)
              | Some tf \<Rightarrow> bindE (save_transfer tf p) (\<lambda>(_, p). Inr (previous, p)))
         | None \<Rightarrow>
             if w_state w \<noteq> WUncertain then Inl (Conflict ''withdrawal has no unresolved send to reconcile'') else
             bindE (send_result t transfer review w p) (\<lambda>(outcome, p).
               record_send env jid attempt_id t transfer attempt w outcome p)))"

definition reconcile :: "env \<Rightarrow> string \<Rightarrow> string \<Rightarrow> confirmed_transaction \<Rightarrow> confirmed_transfer option \<Rightarrow> pool \<Rightarrow>
    withdrawal_outcome_row result \<times> pool" where
  "reconcile env jid attempt_id t transfer p =
     (case commit (keep_evidence attempt_id t transfer) p of
        (Inl e, p) \<Rightarrow> (Inl e, p)
      | (Inr _, p) \<Rightarrow> commit (settle_attempt env jid attempt_id t transfer) p)"

text \<open>
  \<open>reconcile_sponsored\<close>: a payment that another account broadcast under custody's authorization.
  The gas hold returns to the operator in full, and the relayer's fee is evidence only.
\<close>

definition sponsored_replay :: "string \<Rightarrow> sponsored_withdrawal \<Rightarrow> withdrawal_row \<Rightarrow> withdrawal_outcome_row \<Rightarrow> pool \<Rightarrow>
    (withdrawal_outcome_row \<times> pool) result" where
  "sponsored_replay attempt_id recovery w previous p =
     (let t = sw_transaction recovery; tf = sw_transfer recovery in
      if wo_tx_hash previous \<noteq> tx_hash t \<or> wo_outcome previous \<noteq> OPaid \<or> w_paid_event w \<noteq> Some (event_id tf)
         \<or> wo_fee previous \<noteq> 0
         \<or> (case lookup ca_send_id attempt_id (custody_authorization_payments p) of
              None \<Rightarrow> True | Some a \<Rightarrow> ca_delegate a \<noteq> sw_delegate recovery)
      then Inl (Conflict ''attempt already has different financial attribution'') else
      bindE (save_transaction t p) (\<lambda>(_, p). bindE (save_transfer tf p) (\<lambda>(_, p). Inr (previous, p))))"

definition record_sponsored :: "env \<Rightarrow> string \<Rightarrow> string \<Rightarrow> sponsored_withdrawal \<Rightarrow> withdrawal_attempt_row \<Rightarrow> withdrawal_row \<Rightarrow>
    string \<Rightarrow> string \<Rightarrow> pool \<Rightarrow> (withdrawal_outcome_row \<times> pool) result" where
  "record_sponsored env jid attempt_id recovery attempt w actor reason p =
     (let t = sw_transaction recovery; tf = sw_transfer recovery in
      bindE (on_ledger (post env jid (attempt_key attempt_id ''reconcile'') ''withdrawal_paid''
               ([(gas_hold attempt_id, - wa_fee_limit attempt), (operator_native, wa_fee_limit attempt)] @ payment_movements w)
               (JDict [(''withdrawal_id'', JStr (w_id w)), (''attempt_id'', JStr attempt_id),
                 (''chain_id'', JInt (net_chain_id (tx_network t))), (''tx_hash'', JStr (tx_hash t)), (''fee'', JInt 0),
                 (''relayer_fee'', JInt (tx_fee t)), (''fee_model'', JStr (tx_fee_model t)), (''transfer_event'', JStr (event_id tf)),
                 (''actor'', JStr actor), (''reason'', JStr reason), (''route'', JStr ''initial-eip7702-sponsored'')]) None) p)
        (\<lambda>(journal_id, p).
      bindE (record_payment attempt_id t (Some (event_id tf)) journal_id (Some recovery) (Some actor) (Some reason) p) (\<lambda>(_, p).
      bindE (insert_outcome \<lparr>wo_attempt_id = attempt_id, wo_chain_id = net_chain_id (tx_network t), wo_tx_hash = tx_hash t,
               wo_outcome = OPaid, wo_fee = 0, wo_journal_id = journal_id\<rparr> p) (\<lambda>(result, p).
        Inr (result, mark_paid w (event_id tf) (tx_block_timestamp t) p)))))"

definition reconcile_sponsored :: "env \<Rightarrow> string \<Rightarrow> string \<Rightarrow> sponsored_withdrawal \<Rightarrow> string \<Rightarrow> string \<Rightarrow> pool \<Rightarrow>
    (withdrawal_outcome_row \<times> pool) result" where
  "reconcile_sponsored env jid attempt_id recovery actor reason p =
     (if actor = [] \<or> reason = []
      then Inl (FundsError ''verified sponsored recovery and operator review required'') else
      let t = sw_transaction recovery; tf = sw_transfer recovery; net = tx_network t in
      if \<not> tx_successful t \<or> tx_sender t = net_custody net
      then Inl (Conflict ''recovery must be a successful externally sponsored transaction'') else
      bindE (bind net p) (\<lambda>(_, p).
      case lookup wa_id attempt_id (withdrawal_attempts p) of
        None \<Rightarrow> Inl (FundsError ''unknown withdrawal attempt'')
      | Some attempt \<Rightarrow>
      bindE (withdrawal_locked (wa_withdrawal_id attempt) p) (\<lambda>w.
      case lookup wr_withdrawal_id (w_id w) (withdrawal_reviews p) of
        None \<Rightarrow> Inl TypeError
      | Some review \<Rightarrow>
          if (wa_chain_id attempt, wa_sender attempt, wa_nonce attempt, wr_token review, wr_fee_model review) \<noteq>
             (net_chain_id net, net_custody net, sw_custody_nonce recovery, net_token net, tx_fee_model t)
          then Inl (Conflict ''sponsored recovery differs from the frozen custody route'')
          else if weaker_policy net review \<or> tf_network tf \<noteq> net
          then Inl (Conflict ''sponsored recovery cannot weaken finality or change network'')
          else if tx_block_timestamp t + seconds 5 < wa_sent_at attempt
                  \<or> tx_block_number t \<le> pf_block_number (wa_preflight attempt)
          then Inl (Conflict ''sponsored payment predates the prepared attempt'')
          else if (tf_sender tf, tf_recipient tf, tf_amount tf, tf_tx_hash tf, tf_block_hash tf) \<noteq>
                  (wa_sender attempt, w_recipient w, w_amount w, tx_hash t, tx_block_hash t)
          then Inl (Conflict ''sponsored token event differs from the full frozen withdrawal'') else
          case lookup wo_attempt_id attempt_id (withdrawal_attempt_outcomes p) of
            Some previous \<Rightarrow> sponsored_replay attempt_id recovery w previous p
          | None \<Rightarrow>
              if w_state w \<noteq> WUncertain then Inl (Conflict ''withdrawal has no unresolved payment to recover'') else
              bindE (save_transaction t p) (\<lambda>(_, p).
              bindE (save_transfer tf p) (\<lambda>(_, p).
                if \<exists>x \<in> set (withdrawals p). w_paid_event x = Some (event_id tf)
                then Inl (Conflict ''token event already paid another withdrawal'')
                else record_sponsored env jid attempt_id recovery attempt w actor reason p)))))"

section \<open>Instructions\<close>

text \<open>What the operator enters into the custody wallet by hand.\<close>

record wallet_transaction =
  wt_from :: string
  wt_to :: string
  wt_chain_id :: string
  wt_nonce :: string
  wt_value :: string
  wt_data :: string

record send_instructions =
  si_attempt :: withdrawal_attempt_row
  si_withdrawal :: withdrawal_row
  si_token :: string
  si_fee_model :: string
  si_outcome :: "send_outcome option"
  si_final_tx_hash :: "string option"
  si_claimed_tx_hashes :: "string list"
  si_transaction :: wallet_transaction

definition transfer_call :: "string \<Rightarrow> int \<Rightarrow> string" where
  "transfer_call recipient amount = ''0xa9059cbb'' @ replicate 24 (CHR ''0'') @ drop 2 recipient @ padded_hex 64 (nat amount)"

definition instructions :: "string \<Rightarrow> pool \<Rightarrow> send_instructions result" where
  "instructions attempt_id p =
     (case lookup wa_id attempt_id (withdrawal_attempts p) of
        None \<Rightarrow> Inl (FundsError ''unknown withdrawal attempt'')
      | Some a \<Rightarrow>
          (case (lookup w_id (wa_withdrawal_id a) (withdrawals p), lookup wr_withdrawal_id (wa_withdrawal_id a) (withdrawal_reviews p)) of
             (Some w, Some r) \<Rightarrow>
               let out = lookup wo_attempt_id attempt_id (withdrawal_attempt_outcomes p) in
               Inr \<lparr>si_attempt = a, si_withdrawal = w, si_token = wr_token r, si_fee_model = wr_fee_model r,
                 si_outcome = map_option wo_outcome out, si_final_tx_hash = map_option wo_tx_hash out,
                 si_claimed_tx_hashes = map wc_tx_hash (filter (\<lambda>c. wc_attempt_id c = attempt_id) (withdrawal_transaction_claims p)),
                 si_transaction = \<lparr>wt_from = wa_sender a, wt_to = wr_token r, wt_chain_id = hex_text (wa_chain_id a),
                   wt_nonce = hex_text (wa_nonce a), wt_value = ''0x0'', wt_data = transfer_call (w_recipient w) (w_amount w)\<rparr>\<rparr>
           | _ \<Rightarrow> Inl (FundsError ''unknown withdrawal attempt'')))"

end
