(* ===== verification/Frames.thy ===== *)
theory Frames
  imports Benchmarks
begin

text \<open>
  What an operation may change besides the ledger. \<open>pool_by K A p p'\<close> holds of every step of a
  component that posts under keys of \<open>K\<close>, moves funds between accounts of \<open>A\<close>, records
  transfers, and leaves members, reservations and attributions alone; the invariants of those
  components then need no further proof.
\<close>

section \<open>The relation\<close>

text \<open>The members of the pool but for the time of their last payment.\<close>

definition unpaid :: "member_row \<Rightarrow> member_row" where
  "unpaid m = m\<lparr>m_last_paid_at := None\<rparr>"

definition same_members :: "pool \<Rightarrow> pool \<Rightarrow> bool" where
  "same_members p p' \<longleftrightarrow> map unpaid (members p') = map unpaid (members p)"

lemma same_members_refl [simp]: "members p' = members p \<Longrightarrow> same_members p p'"
  by (simp add: same_members_def)

definition pool_by :: "(string \<Rightarrow> bool) \<Rightarrow> (string \<Rightarrow> bool) \<Rightarrow> pool \<Rightarrow> pool \<Rightarrow> bool" where
  "pool_by K A p p' \<longleftrightarrow> ledger_by K A (ledger p) (ledger p') \<and> same_members p p' \<and>
     multiplier_changes p' = multiplier_changes p \<and> reservations p' = reservations p \<and>
     transfer_attributions p' = transfer_attributions p \<and>
     (\<forall>e. lookup tr_event_id e (transfers p) \<noteq> None \<longrightarrow> lookup tr_event_id e (transfers p') = lookup tr_event_id e (transfers p))"

lemma pool_by_intro:
  "ledger_by K A (ledger p) (ledger p') \<Longrightarrow> same_members p p' \<Longrightarrow> multiplier_changes p' = multiplier_changes p \<Longrightarrow>
   reservations p' = reservations p \<Longrightarrow> transfer_attributions p' = transfer_attributions p \<Longrightarrow> transfers p' = transfers p \<Longrightarrow>
   pool_by K A p p'"
  by (simp add: pool_by_def)

lemma pool_by_refl [simp]: "pool_by K A p p"
  by (simp add: pool_by_def by_nothing)

lemma pool_by_trans: "pool_by K A p q \<Longrightarrow> pool_by K A q r \<Longrightarrow> pool_by K A p r"
  unfolding pool_by_def same_members_def by (metis ledger_by_trans)

lemma pool_by_bind: "bind net p = Inr (u, q) \<Longrightarrow> pool_by K A p q"
  by (drule bind_cases(1)) (simp add: pool_by_def by_nothing)

lemma pool_by_save_transfer:
  assumes "save_transfer t p = Inr (new, q)"
  shows "pool_by K A p q"
  using save_transfer_effect(4) [OF assms] unfolding pool_by_def
  by (auto simp: by_nothing) (subst save_transfer_effect(3) [OF assms], simp add: by_nothing)+

lemma save_transaction_frame:
  assumes "save_transaction t p = Inr (new, q)"
  shows "q = p\<lparr>custody_identity := custody_identity q, chain_transactions := chain_transactions q\<rparr>"
  using assms
proof (cases rule: save_transaction_cases)
  case (old previous)
  then show ?thesis using bind_cases(1) [OF old(4)] by simp
next
  case (new r)
  then show ?thesis using bind_cases(1) [OF new(3)] by simp
qed

lemma pool_by_save_transaction:
  assumes "save_transaction t p = Inr (new, q)"
  shows "pool_by K A p q"
  unfolding pool_by_def by (subst save_transaction_frame [OF assms], simp add: by_nothing)+

section \<open>Invariants it keeps\<close>

lemma same_members_fields:
  assumes "same_members p p'"
  shows "map m_id (members p') = map m_id (members p)" and "map m_wallet (members p') = map m_wallet (members p)"
    and "x \<in> set (members p') \<Longrightarrow> \<exists>y \<in> set (members p). unpaid x = unpaid y"
proof -
  have "map m_id (members p') = map m_id (map unpaid (members p'))" "map m_wallet (members p') = map m_wallet (map unpaid (members p'))"
    by (simp_all add: unpaid_def comp_def)
  with assms show "map m_id (members p') = map m_id (members p)" "map m_wallet (members p') = map m_wallet (members p)"
    by (simp_all add: same_members_def unpaid_def comp_def)
  assume "x \<in> set (members p')"
  then have "unpaid x \<in> set (map unpaid (members p))" using assms unfolding same_members_def by (metis imageI list.set_map)
  then show "\<exists>y \<in> set (members p). unpaid x = unpaid y" by auto
qed

lemma unpaid_fields: "unpaid x = unpaid y \<Longrightarrow> m_id x = m_id y \<and> m_multiplier x = m_multiplier y \<and> m_revision x = m_revision y"
  by (cases x; cases y) (simp add: unpaid_def)

lemma ledger_by_account_ids: "ledger_by K A led led' \<Longrightarrow> account_ids led \<subseteq> account_ids led'"
  using ledger_by_accounts [of K A led led'] by (auto simp: lookup_account_iff)

lemma members_ok_by:
  assumes "members_ok p" and "pool_by K A p p'"
  shows "members_ok p'"
proof -
  note step = assms(2) [unfolded pool_by_def]
  note same = same_members_fields [OF step [THEN conjunct2, THEN conjunct1]]
  have ids: "account_ids (ledger p) \<subseteq> account_ids (ledger p')" using step ledger_by_account_ids by blast
  have "\<forall>m \<in> set (members p'). available (m_id m) \<in> account_ids (ledger p') \<and>
        0 \<le> decimal_rat (m_multiplier m) \<and> decimal_rat (m_multiplier m) \<le> 1 \<and>
        m_revision m = int (length (filter (\<lambda>c. mc_member c = m_id m) (multiplier_changes p')))"
  proof
    fix m assume "m \<in> set (members p')"
    then obtain y where "y \<in> set (members p)" "unpaid m = unpaid y" using same(3) by blast
    with assms(1) ids step unpaid_fields [of m y] show "available (m_id m) \<in> account_ids (ledger p') \<and>
        0 \<le> decimal_rat (m_multiplier m) \<and> decimal_rat (m_multiplier m) \<le> 1 \<and>
        m_revision m = int (length (filter (\<lambda>c. mc_member c = m_id m) (multiplier_changes p')))"
      unfolding members_ok_def by (metis subsetD)
  qed
  moreover have "m_id ` set (members p') = m_id ` set (members p)" using same(1) by (metis list.set_map)
  ultimately show ?thesis using assms(1) step same(1,2) unfolding members_ok_def by simp
qed

lemma deposits_ok_by:
  assumes "deposits_ok p" and "pool_by K A p p'" and "\<And>k. K k \<Longrightarrow> \<not> deposit_keys k"
  shows "deposits_ok p'"
  using assms(2) unfolding pool_by_def by (intro deposits_ok_frame [OF assms(1) _ assms(3)]) auto

lemma reservations_ok_by:
  assumes "reservations_ok p" and "pool_by K A p p'" and "\<And>k. K k \<Longrightarrow> \<not> reservation_journals k" and "\<And>k. A k \<Longrightarrow> \<not> reservation_accounts k"
  shows "reservations_ok p'"
  using assms(2) unfolding pool_by_def by (intro reservations_ok_frame [OF assms(1) _ _ assms(3,4)]) auto

end
