(* ===== verification/Withdrawal_Safety.thy ===== *)
theory Withdrawal_Safety
  imports Withdrawals Frames
begin

text \<open>
  What withdrawals keep true: the account of a pending withdrawal holds exactly its amount and
  the account of an unresolved send exactly its gas budget; an owner has at most one pending
  withdrawal, a withdrawal at most one unresolved send, and a token event pays at most once.
\<close>

section \<open>Names\<close>

lemma withdrawal_key_inject [simp]:
  "CHR '':'' \<notin> set k \<Longrightarrow> CHR '':'' \<notin> set k' \<Longrightarrow> withdrawal_key i k = withdrawal_key j k' \<longleftrightarrow> i = j \<and> k = k'"
  "CHR '':'' \<notin> set k \<Longrightarrow> CHR '':'' \<notin> set k' \<Longrightarrow> attempt_key i k = attempt_key j k' \<longleftrightarrow> i = j \<and> k = k'"
  "withdrawal_key i k \<noteq> attempt_key j k'" "attempt_key j k' \<noteq> withdrawal_key i k"
  using split_last_colon [of i k j k'] by (auto simp: withdrawal_key_def attempt_key_def)

lemma withdrawal_account_names [simp]:
  "pending i = pending j \<longleftrightarrow> i = j" "gas_hold i = gas_hold j \<longleftrightarrow> i = j"
  "pending i \<noteq> gas_hold j" "gas_hold j \<noteq> pending i"
  "pending i \<noteq> available m" "available m \<noteq> pending i" "gas_hold i \<noteq> available m" "available m \<noteq> gas_hold i"
  "pending i \<noteq> operator_tig" "operator_tig \<noteq> pending i" "gas_hold i \<noteq> operator_tig" "operator_tig \<noteq> gas_hold i"
  "pending i \<noteq> operator_native" "operator_native \<noteq> pending i" "gas_hold i \<noteq> operator_native" "operator_native \<noteq> gas_hold i"
  "pending i \<noteq> ''external:custody:TIG''" "''external:custody:TIG'' \<noteq> pending i"
  "gas_hold i \<noteq> ''external:custody:TIG''" "''external:custody:TIG'' \<noteq> gas_hold i"
  "pending i \<noteq> ''external:custody:NATIVE''" "''external:custody:NATIVE'' \<noteq> pending i"
  "gas_hold i \<noteq> ''external:custody:NATIVE''" "''external:custody:NATIVE'' \<noteq> gas_hold i"
  by (simp_all add: pending_def gas_hold_def available_def)

lemma source_account_names [simp]:
  "source_account w \<noteq> pending i" "pending i \<noteq> source_account w" "source_account w \<noteq> gas_hold i" "gas_hold i \<noteq> source_account w"
  by (auto simp: source_account_def split: option.splits)

section \<open>The invariant\<close>

definition pending_due :: "withdrawal_row option \<Rightarrow> int" where
  "pending_due w = (case w of None \<Rightarrow> 0 | Some w \<Rightarrow> if withdrawal_pending (w_state w) then w_amount w else 0)"

definition gas_due :: "withdrawal_attempt_row option \<Rightarrow> withdrawal_outcome_row option \<Rightarrow> int" where
  "gas_due a out = (case (a, out) of (Some a, None) \<Rightarrow> wa_fee_limit a | _ \<Rightarrow> 0)"

definition released :: "withdrawal_row option \<Rightarrow> bool" where
  "released w \<longleftrightarrow> (case w of None \<Rightarrow> False | Some w \<Rightarrow> w_state w = WRejected \<or> w_state w = WCancelled)"

text \<open>The money: balances, and which journals an identifier can already have.\<close>

definition sends_money_ok :: "ledger_state \<Rightarrow> withdrawal_row list \<Rightarrow> withdrawal_attempt_row list \<Rightarrow> withdrawal_outcome_row list \<Rightarrow> bool" where
  "sends_money_ok led ws as os \<longleftrightarrow> (\<forall>i.
     balance led (pending i) = pending_due (lookup w_id i ws) \<and>
     balance led (gas_hold i) = gas_due (lookup wa_id i as) (lookup wo_attempt_id i os) \<and>
     (recorded led (withdrawal_key i ''reserve'') \<longrightarrow> lookup w_id i ws \<noteq> None) \<and>
     (recorded led (withdrawal_key i ''release'') \<longrightarrow> released (lookup w_id i ws)) \<and>
     (recorded led (attempt_key i ''gas'') \<longrightarrow> lookup wa_id i as \<noteq> None) \<and>
     (recorded led (attempt_key i ''reconcile'') \<longrightarrow> lookup wo_attempt_id i os \<noteq> None))"

definition withdrawal_row_ok :: "withdrawal_row \<Rightarrow> bool" where
  "withdrawal_row_ok w \<longleftrightarrow> 1 \<le> w_amount w \<and> (w_kind w = OperatorWithdrawal \<longleftrightarrow> w_member_id w = None) \<and>
     (w_state w = WPaid \<longleftrightarrow> w_paid_event w \<noteq> None) \<and> (w_kind w = OperatorWithdrawal \<longleftrightarrow> w_operator_reserve w \<noteq> None)"

text \<open>Two rows that are the same: one pending withdrawal per owner, one withdrawal per event.\<close>

definition one_row :: "withdrawal_row \<Rightarrow> withdrawal_row \<Rightarrow> bool" where
  "one_row w v \<longleftrightarrow> (withdrawal_pending (w_state w) \<and> withdrawal_pending (w_state v) \<and> w_member_id w = w_member_id v \<longrightarrow> w_id w = w_id v) \<and>
     (w_paid_event w \<noteq> None \<and> w_paid_event w = w_paid_event v \<longrightarrow> w_id w = w_id v)"

definition withdrawal_rows_ok :: "withdrawal_row list \<Rightarrow> bool" where
  "withdrawal_rows_ok ws \<longleftrightarrow> distinct (map w_id ws) \<and> (\<forall>i w. lookup w_id i ws = Some w \<longrightarrow> withdrawal_row_ok w) \<and>
     (\<forall>i j w v. lookup w_id i ws = Some w \<longrightarrow> lookup w_id j ws = Some v \<longrightarrow> one_row w v)"

text \<open>An unresolved send belongs to an uncertain withdrawal, of which it is the only one.\<close>

definition unresolved :: "withdrawal_attempt_row list \<Rightarrow> withdrawal_outcome_row list \<Rightarrow> string \<Rightarrow> withdrawal_attempt_row \<Rightarrow> bool" where
  "unresolved as os i a \<longleftrightarrow> lookup wa_id i as = Some a \<and> lookup wo_attempt_id i os = None"

definition attempts_ok :: "withdrawal_row list \<Rightarrow> withdrawal_attempt_row list \<Rightarrow> withdrawal_outcome_row list \<Rightarrow> bool" where
  "attempts_ok ws as os \<longleftrightarrow>
     (\<forall>i a. unresolved as os i a \<longrightarrow>
        1 \<le> wa_fee_limit a \<and> (\<exists>w. lookup w_id (wa_withdrawal_id a) ws = Some w \<and> w_state w = WUncertain)) \<and>
     (\<forall>i j a b. unresolved as os i a \<longrightarrow> unresolved as os j b \<longrightarrow> wa_withdrawal_id a = wa_withdrawal_id b \<longrightarrow> i = j) \<and>
     (\<forall>i. lookup wo_attempt_id i os \<noteq> None \<longrightarrow> lookup wa_id i as \<noteq> None)"

definition sends_ok :: "ledger_state \<Rightarrow> withdrawal_row list \<Rightarrow> withdrawal_attempt_row list \<Rightarrow> withdrawal_outcome_row list \<Rightarrow> bool" where
  "sends_ok led ws as os \<longleftrightarrow> sends_money_ok led ws as os \<and> withdrawal_rows_ok ws \<and> attempts_ok ws as os"

definition withdrawals_ok :: "pool \<Rightarrow> bool" where
  "withdrawals_ok p \<longleftrightarrow> sends_ok (ledger p) (withdrawals p) (withdrawal_attempts p) (withdrawal_attempt_outcomes p)"

section \<open>Steps on the money\<close>

lemma sends_money_account:
  assumes "sends_money_ok led ws as os" and "account k kind a loc led = Inr (j, led')"
  shows "sends_money_ok led' ws as os"
  using assms by (simp add: sends_money_ok_def account_recorded [OF assms(2)] account_cases(2) [OF assms(2)])

lemma sends_money_post:
  assumes ok: "sends_money_ok led ws as os" and run: "post env jid ek kind mv det rv led = Inr (j, led')" and fresh: "\<not> recorded led ek"
    and w: "\<And>i. pending_due (lookup w_id i ws') = pending_due (lookup w_id i ws) + amount_of mv (pending i)"
    and g: "\<And>i. gas_due (lookup wa_id i as') (lookup wo_attempt_id i os') = gas_due (lookup wa_id i as) (lookup wo_attempt_id i os) + amount_of mv (gas_hold i)"
    and keep: "\<And>i. (lookup w_id i ws \<noteq> None \<or> ek = withdrawal_key i ''reserve'' \<longrightarrow> lookup w_id i ws' \<noteq> None) \<and>
        (released (lookup w_id i ws) \<or> ek = withdrawal_key i ''release'' \<longrightarrow> released (lookup w_id i ws')) \<and>
        (lookup wa_id i as \<noteq> None \<or> ek = attempt_key i ''gas'' \<longrightarrow> lookup wa_id i as' \<noteq> None) \<and>
        (lookup wo_attempt_id i os \<noteq> None \<or> ek = attempt_key i ''reconcile'' \<longrightarrow> lookup wo_attempt_id i os' \<noteq> None)"
  shows "sends_money_ok led' ws' as' os'"
proof -
  have bal: "balance led' k = balance led k + amount_of mv k" for k
    by (rule post_balance [OF run]) (use fresh in \<open>simp add: recorded_def\<close>)
  have rec: "recorded led' x \<longleftrightarrow> recorded led x \<or> x = ek" for x
    using post_recorded [OF run] by auto
  show ?thesis
    unfolding sends_money_ok_def
  proof
    fix i
    from ok have "balance led (pending i) = pending_due (lookup w_id i ws)"
      "balance led (gas_hold i) = gas_due (lookup wa_id i as) (lookup wo_attempt_id i os)"
      "recorded led (withdrawal_key i ''reserve'') \<longrightarrow> lookup w_id i ws \<noteq> None"
      "recorded led (withdrawal_key i ''release'') \<longrightarrow> released (lookup w_id i ws)"
      "recorded led (attempt_key i ''gas'') \<longrightarrow> lookup wa_id i as \<noteq> None"
      "recorded led (attempt_key i ''reconcile'') \<longrightarrow> lookup wo_attempt_id i os \<noteq> None"
      unfolding sends_money_ok_def by blast+
    with keep [of i] w [of i] g [of i] show "balance led' (pending i) = pending_due (lookup w_id i ws') \<and>
      balance led' (gas_hold i) = gas_due (lookup wa_id i as') (lookup wo_attempt_id i os') \<and>
      (recorded led' (withdrawal_key i ''reserve'') \<longrightarrow> lookup w_id i ws' \<noteq> None) \<and>
      (recorded led' (withdrawal_key i ''release'') \<longrightarrow> released (lookup w_id i ws')) \<and>
      (recorded led' (attempt_key i ''gas'') \<longrightarrow> lookup wa_id i as' \<noteq> None) \<and>
      (recorded led' (attempt_key i ''reconcile'') \<longrightarrow> lookup wo_attempt_id i os' \<noteq> None)"
      unfolding bal rec by auto
  qed
qed

lemma withdrawal_rows_insert:
  assumes "withdrawal_rows_ok ws" and "lookup w_id (w_id w) ws = None" and "withdrawal_row_ok w" and "w_paid_event w = None"
    and "\<And>v. v \<in> set ws \<Longrightarrow> withdrawal_pending (w_state v) \<Longrightarrow> w_member_id v \<noteq> w_member_id w"
  shows "withdrawal_rows_ok (ws @ [w])"
proof -
  have look: "lookup w_id i (ws @ [w]) = (if i = w_id w then Some w else lookup w_id i ws)" for i
    using assms(2) by (auto simp: lookup_append split: option.splits)
  have "one_row w v \<and> one_row v w" if "lookup w_id j ws = Some v" for j v
    using assms(4) assms(5) [of v] lookup_SomeD [OF that] by (auto simp: one_row_def)
  moreover have "one_row w w" by (simp add: one_row_def)
  ultimately show ?thesis
    using assms(1-3) by (auto simp: withdrawal_rows_ok_def look lookup_None_iff)
qed

lemma withdrawal_rows_modify:
  assumes ok: "withdrawal_rows_ok ws" and i: "lookup w_id i ws = Some w" and keep: "\<And>x. w_id (f x) = w_id x"
    and row: "withdrawal_row_ok (f w)" and member: "w_member_id (f w) = w_member_id w"
    and pend: "withdrawal_pending (w_state (f w)) \<Longrightarrow> withdrawal_pending (w_state w)"
    and paid: "\<And>v. v \<in> set ws \<Longrightarrow> w_paid_event (f w) \<noteq> None \<Longrightarrow> w_paid_event v = w_paid_event (f w) \<Longrightarrow> v = w"
  shows "withdrawal_rows_ok (modify w_id i f ws)"
proof -
  have look: "lookup w_id j (modify w_id i f ws) = (if j = i then Some (f w) else lookup w_id j ws)" for j
    using keep i by (simp add: lookup_modify)
  have wi: "w_id w = i" using lookup_SomeD [OF i] by simp
  have both: "one_row (f w) v \<and> one_row v (f w)" if v: "lookup w_id j ws = Some v" for j v
  proof -
    have "one_row w v" using ok i v unfolding withdrawal_rows_ok_def by blast
    moreover have "w_paid_event (f w) \<noteq> None \<Longrightarrow> w_paid_event v = w_paid_event (f w) \<Longrightarrow> v = w"
      using paid lookup_SomeD [OF v] by blast
    ultimately show ?thesis using pend member keep [of w] unfolding one_row_def by metis
  qed
  moreover have "one_row (f w) (f w)" by (simp add: one_row_def)
  moreover have "distinct (map w_id (modify w_id i f ws))" using ok keep by (simp add: withdrawal_rows_ok_def)
  moreover have "withdrawal_row_ok v" if "lookup w_id j (modify w_id i f ws) = Some v" for j v
    using that ok row unfolding look withdrawal_rows_ok_def by (cases "j = i") auto
  moreover have "one_row v u" if "lookup w_id j (modify w_id i f ws) = Some v" "lookup w_id k (modify w_id i f ws) = Some u" for j k v u
    using that ok both \<open>one_row (f w) (f w)\<close> unfolding look withdrawal_rows_ok_def by (cases "j = i"; cases "k = i") auto
  ultimately show ?thesis unfolding withdrawal_rows_ok_def by blast
qed

section \<open>Steps on the attempts\<close>

lemma attempts_insert_withdrawal:
  assumes "attempts_ok ws as os" and "lookup w_id (w_id w) ws = None"
  shows "attempts_ok (ws @ [w]) as os"
proof -
  have "lookup w_id i ws = Some v \<Longrightarrow> lookup w_id i (ws @ [w]) = Some v" for i v
    by (rule lookup_snoc_old)
  then show ?thesis using assms(1) unfolding attempts_ok_def by blast
qed

lemma attempts_modify_withdrawal:
  assumes ok: "attempts_ok ws as os" and i: "lookup w_id i ws = Some w" and keep: "\<And>x. w_id (f x) = w_id x"
    and still: "w_state w = WUncertain \<Longrightarrow> w_state (f w) = WUncertain"
  shows "attempts_ok (modify w_id i f ws) as os"
proof -
  have "\<exists>v. lookup w_id k (modify w_id i f ws) = Some v \<and> w_state v = WUncertain"
    if "lookup w_id k ws = Some u" "w_state u = WUncertain" for k u
    using that i still keep by (cases "k = i") (auto simp: lookup_modify)
  then show ?thesis using ok unfolding attempts_ok_def by meson
qed

lemma attempts_begin:
  assumes ok: "attempts_ok ws as os" and i: "lookup w_id i ws = Some w" and keep: "\<And>x. w_id (f x) = w_id x"
    and w: "w_state w \<noteq> WUncertain" "w_state (f w) = WUncertain"
    and a: "lookup wa_id (wa_id a) as = None" "wa_withdrawal_id a = i" "1 \<le> wa_fee_limit a"
  shows "attempts_ok (modify w_id i f ws) (as @ [a]) os"
proof -
  have look: "lookup w_id j (modify w_id i f ws) = (if j = i then Some (f w) else lookup w_id j ws)" for j
    using keep i by (simp add: lookup_modify)
  have att: "lookup wa_id j (as @ [a]) = (if j = wa_id a then Some a else lookup wa_id j as)" for j
    using a(1) by (auto simp: lookup_append split: option.splits)
  have old: "\<exists>v. lookup w_id (wa_withdrawal_id b) ws = Some v \<and> w_state v = WUncertain" "wa_withdrawal_id b \<noteq> i" "1 \<le> wa_fee_limit b"
    if "unresolved as os j b" for j b
    using ok that i w(1) unfolding attempts_ok_def by (metis option.inject)+
  have new: "unresolved (as @ [a]) os j b \<Longrightarrow> unresolved as os j b \<or> (j = wa_id a \<and> b = a)" for j b
    by (auto simp: unresolved_def att split: if_splits)
  show ?thesis
    unfolding attempts_ok_def
  proof (intro conjI allI impI)
    fix j b assume b: "unresolved (as @ [a]) os j b"
    with new have "unresolved as os j b \<or> b = a" by blast
    then show "1 \<le> wa_fee_limit b" using old(3) a(3) by blast
    show "\<exists>w. lookup w_id (wa_withdrawal_id b) (modify w_id i f ws) = Some w \<and> w_state w = WUncertain"
      using new [OF b] old(1,2) [of j b] a(2) w(2) by (auto simp: look)
    fix k c assume c: "unresolved (as @ [a]) os k c" and same: "wa_withdrawal_id b = wa_withdrawal_id c"
    show "j = k"
    proof (cases "unresolved as os j b \<and> unresolved as os k c")
      case True
      with same ok show ?thesis unfolding attempts_ok_def by blast
    next
      case False
      with new [OF b] new [OF c] old(2) same a(2) show ?thesis by metis
    qed
  next
    fix j assume "lookup wo_attempt_id j os \<noteq> None"
    then show "lookup wa_id j (as @ [a]) \<noteq> None" using ok by (auto simp: att attempts_ok_def)
  qed
qed

lemma attempts_outcome:
  assumes ok: "attempts_ok ws as os" and i: "lookup w_id i ws = Some w" and keep: "\<And>x. w_id (f x) = w_id x"
    and a: "unresolved as os (wo_attempt_id out) a" "wa_withdrawal_id a = i"
  shows "attempts_ok (modify w_id i f ws) as (os @ [out])"
proof -
  have look: "lookup w_id j (modify w_id i f ws) = (if j = i then Some (f w) else lookup w_id j ws)" for j
    using keep i by (simp add: lookup_modify)
  have out: "lookup wo_attempt_id j (os @ [out]) = (if j = wo_attempt_id out then Some out else lookup wo_attempt_id j os)" for j
    using a(1) by (auto simp: unresolved_def lookup_append split: option.splits)
  have new: "unresolved as os j b \<and> j \<noteq> wo_attempt_id out" if "unresolved as (os @ [out]) j b" for j b
    using that by (auto simp: unresolved_def out split: if_splits)
  have other: "wa_withdrawal_id b \<noteq> i" if "unresolved as (os @ [out]) j b" for j b
    using new [OF that] a ok unfolding attempts_ok_def by blast
  show ?thesis
    unfolding attempts_ok_def
  proof (intro conjI allI impI)
    fix j b assume b: "unresolved as (os @ [out]) j b"
    then show "1 \<le> wa_fee_limit b" using ok new unfolding attempts_ok_def by blast
    show "\<exists>w. lookup w_id (wa_withdrawal_id b) (modify w_id i f ws) = Some w \<and> w_state w = WUncertain"
      using new [OF b] other [OF b] ok unfolding attempts_ok_def look by auto
    fix k c assume "unresolved as (os @ [out]) k c" "wa_withdrawal_id b = wa_withdrawal_id c"
    then show "j = k" using new b ok unfolding attempts_ok_def by blast
  next
    fix j assume "lookup wo_attempt_id j (os @ [out]) \<noteq> None"
    then show "lookup wa_id j as \<noteq> None" using ok a(1) by (auto simp: out attempts_ok_def unresolved_def split: if_splits)
  qed
qed

section \<open>What the operations do\<close>

lemma find_SomeD: "List.find P xs = Some x \<Longrightarrow> x \<in> set xs \<and> P x"
  by (auto simp: find_Some_iff)

lemma withdrawal_event_Inr:
  assumes "withdrawal_event i kind actor details key p = Inr p'"
  shows "p' = p\<lparr>withdrawal_events := withdrawal_events p'\<rparr>" and "lookup we_key key (withdrawal_events p') \<noteq> None"
  using assms by (auto simp: withdrawal_event_def lookup_append split: option.splits if_splits)

lemma withdrawal_locked_Inr: "withdrawal_locked i p = Inr w \<Longrightarrow> lookup w_id i (withdrawals p) = Some w \<and> w_id w = i"
  by (auto simp: withdrawal_locked_def bindE_Inr split: option.splits dest: lookup_SomeD)

lemma hold_funds_Inr:
  "hold_funds env jid i kind src n details p = Inr (u, p') \<longleftrightarrow>
    (\<exists>j led. post env jid (withdrawal_key i ''reserve'') kind [(src, - n), (pending i, n)] details None (ledger p) = Inr (j, led) \<and>
       p' = p\<lparr>ledger := led\<rparr>)"
  by (auto simp: hold_funds_def outcome)

lemma insert_withdrawal_Inr:
  "insert_withdrawal w p = Inr (v, p') \<longleftrightarrow> lookup w_id (w_id w) (withdrawals p) = None \<and> v = w \<and> p' = p\<lparr>withdrawals := withdrawals p @ [w]\<rparr>"
  by (auto simp: insert_withdrawal_def)

text \<open>Both kinds of request reserve in the same way.\<close>

definition opened_by :: "env \<Rightarrow> string \<Rightarrow> string \<Rightarrow> json \<Rightarrow> withdrawal_row \<Rightarrow> ledger_state \<Rightarrow> ledger_state \<Rightarrow> bool" where
  "opened_by env jid kind details w led led' \<longleftrightarrow> (\<exists>i led1 j.
     account (pending (w_id w)) KWithdrawal AssetTIG Custody led = Inr (i, led1) \<and>
     post env jid (withdrawal_key (w_id w) ''reserve'') kind [(source_account w, - w_amount w), (pending (w_id w), w_amount w)]
       details None led1 = Inr (j, led'))"

lemma request_cases:
  assumes "request env new_id jid m key n p = Inr (w, p')"
  obtains (old) "p' = p" "w \<in> set (withdrawals p)" "w_member_id w = Some m" "w_request_key w = key" "w_amount w = n"
    | (new) member led where "1 \<le> n" "lookup m_id m (members p) = Some member"
      "w = \<lparr>w_id = new_id, w_kind = MemberWithdrawal, w_member_id = Some m, w_request_key = key, w_amount = n,
         w_recipient = m_withdrawal_wallet member, w_state = WRequested, w_paid_event = None, w_operator_reserve = None\<rparr>"
      "\<not> (\<exists>v \<in> set (withdrawals p). w_member_id v = Some m \<and> withdrawal_pending (w_state v))"
      "lookup w_id new_id (withdrawals p) = None"
      "opened_by env jid ''withdrawal_reservation'' (JDict []) w (ledger p) led"
      "p' = p\<lparr>ledger := led, withdrawals := withdrawals p @ [w]\<rparr>"
proof -
  obtain member where n: "1 \<le> n" and member: "lookup m_id m (members p) = Some member"
    and run: "(case List.find (\<lambda>w. w_member_id w = Some m \<and> w_request_key w = key) (withdrawals p) of
           Some existing \<Rightarrow>
             if w_amount existing \<noteq> n then Inl (Conflict ''withdrawal key was reused with a different amount'')
             else Inr (existing, p)
         | None \<Rightarrow>
             if (case m_last_paid_at member of None \<Rightarrow> False | Some t \<Rightarrow> clock env < t + seven_days)
             then Inl (Conflict ''seven days must pass after the previous successful withdrawal'')
             else if \<exists>w \<in> set (withdrawals p). w_member_id w = Some m \<and> withdrawal_pending (w_state w)
             then Inl (Conflict ''member already has a pending withdrawal'') else
             bindE (on_ledger (account (pending new_id) KWithdrawal AssetTIG Custody) p) (\<lambda>(_, p).
             bindE (hold_funds env jid new_id ''withdrawal_reservation'' (available m) n (JDict []) p) (\<lambda>(_, p).
             insert_withdrawal \<lparr>w_id = new_id, w_kind = MemberWithdrawal, w_member_id = Some m, w_request_key = key,
               w_amount = n, w_recipient = m_withdrawal_wallet member, w_state = WRequested, w_paid_event = None,
               w_operator_reserve = None\<rparr> p))) = Inr (w, p')"
    using assms unfolding request_def bindE_Inr raise_if_Inr member_lock_Inr units_Inr by auto
  show ?thesis
  proof (cases "List.find (\<lambda>w. w_member_id w = Some m \<and> w_request_key w = key) (withdrawals p)")
    case (Some existing)
    with run show ?thesis by (intro old) (auto simp: find_Some_iff split: if_splits)
  next
    case None
    with run show ?thesis
      by (intro new [of member "ledger p'"]) (use n member in \<open>auto simp: bindE_Inr raise_if_Inr on_ledger_Inr hold_funds_Inr insert_withdrawal_Inr
          opened_by_def source_account_def split: if_splits\<close>)
  qed
qed

lemma account_balance_Inr: "account_balance k p = Inr n \<Longrightarrow> balance (ledger p) k = n"
  by (auto simp: account_balance_def balance_def split: option.splits)

lemma request_operator_cases:
  assumes "request_operator env new_id jid key n net recipient retain actor reason p = Inr (w, p')"
  obtains (old) q where "bind net p = Inr ((), q)" "p' = q\<lparr>withdrawal_events := withdrawal_events p'\<rparr>" "w \<in> set (withdrawals p)"
    | (new) wallet q led where "bind net p = Inr ((), q)" "1 \<le> n" "0 \<le> retain" "address recipient = Inr wallet" "wallet \<noteq> net_custody net"
      "w = \<lparr>w_id = new_id, w_kind = OperatorWithdrawal, w_member_id = None, w_request_key = key, w_amount = n,
         w_recipient = wallet, w_state = WRequested, w_paid_event = None, w_operator_reserve = Some retain\<rparr>"
      "\<not> (\<exists>v \<in> set (withdrawals p). w_kind v = OperatorWithdrawal \<and> withdrawal_pending (w_state v))"
      "lookup w_id new_id (withdrawals p) = None" "n + retain \<le> balance (ledger p) operator_tig"
      "opened_by env jid ''operator_withdrawal_reservation'' (JDict [(''actor'', JStr actor), (''recipient'', JStr wallet),
         (''reserve'', JInt retain), (''reason'', JStr reason)]) w (ledger p) led"
      "p' = q\<lparr>ledger := led, withdrawals := withdrawals p @ [w], withdrawal_events := withdrawal_events p'\<rparr>"
proof -
  obtain wallet q where n: "1 \<le> n" and retain: "0 \<le> retain" and wallet: "address recipient = Inr wallet" "wallet \<noteq> net_custody net"
    and q: "bind net p = Inr ((), q)"
    and run: "(case List.find (\<lambda>w. w_kind w = OperatorWithdrawal \<and> w_request_key w = key) (withdrawals q) of
         Some previous \<Rightarrow>
           if (w_amount previous, w_recipient previous, w_operator_reserve previous) \<noteq> (n, wallet, Some retain)
           then Inl (Conflict ''operator withdrawal request key was reused with different inputs'') else
           bindE (withdrawal_event (w_id previous) ''requested'' actor
             (JDict [(''recipient'', JStr wallet), (''reserve'', JInt retain), (''reason'', JStr reason)]) (''operator-request:'' @ w_id previous) q)
             (\<lambda>p. Inr (previous, p))
       | None \<Rightarrow>
           if \<exists>w \<in> set (withdrawals q). w_kind w = OperatorWithdrawal \<and> withdrawal_pending (w_state w)
           then Inl (Conflict ''operator already has a pending withdrawal'') else
           bindE (on_ledger (account (pending new_id) KWithdrawal AssetTIG Custody) q) (\<lambda>(_, p).
           bindE (account_balance operator_tig p) (\<lambda>funds.
             if funds < n + retain
             then Inl (InsufficientFunds ''operator funds must cover the withdrawal and retained operating reserve'') else
             bindE (hold_funds env jid new_id ''operator_withdrawal_reservation'' operator_tig n
                      (JDict [(''actor'', JStr actor), (''recipient'', JStr wallet), (''reserve'', JInt retain), (''reason'', JStr reason)]) p) (\<lambda>(_, p).
             bindE (insert_withdrawal \<lparr>w_id = new_id, w_kind = OperatorWithdrawal, w_member_id = None,
                 w_request_key = key, w_amount = n, w_recipient = wallet, w_state = WRequested,
                 w_paid_event = None, w_operator_reserve = Some retain\<rparr> p) (\<lambda>(w, p).
             bindE (withdrawal_event new_id ''requested'' actor
               (JDict [(''recipient'', JStr wallet), (''reserve'', JInt retain), (''reason'', JStr reason)]) (''operator-request:'' @ new_id) p) (\<lambda>p.
               Inr (w, p))))))) = Inr (w, p')"
    using assms unfolding request_operator_def bindE_Inr raise_if_Inr units_Inr Let_def by auto
  have q': "withdrawals q = withdrawals p" "ledger q = ledger p" using bind_cases(1) [OF q] by simp_all
  show ?thesis
  proof (cases "List.find (\<lambda>w. w_kind w = OperatorWithdrawal \<and> w_request_key w = key) (withdrawals q)")
    case (Some existing)
    with run have "withdrawal_event (w_id existing) ''requested'' actor
        (JDict [(''recipient'', JStr wallet), (''reserve'', JInt retain), (''reason'', JStr reason)]) (''operator-request:'' @ w_id existing) q = Inr p'"
      "w = existing" by (auto simp: bindE_Inr split: if_splits)
    moreover have "existing \<in> set (withdrawals p)" using Some q' by (auto simp: find_Some_iff)
    ultimately show ?thesis using withdrawal_event_Inr(1) by (intro old [OF q]) auto
  next
    case None
    note run = run [unfolded None option.case raise_if_Inr]
    obtain p1 where p1: "on_ledger (account (pending new_id) KWithdrawal AssetTIG Custody) q = Inr (pending new_id, p1)"
      using run by (auto simp: bindE_Inr on_ledger_Inr dest: account_cases(1))
    obtain funds where funds: "account_balance operator_tig p1 = Inr funds" "n + retain \<le> funds"
      using run by (auto simp: p1 bindE_Inr raise_if_Inr)
    have w: "w = \<lparr>w_id = new_id, w_kind = OperatorWithdrawal, w_member_id = None, w_request_key = key, w_amount = n,
         w_recipient = wallet, w_state = WRequested, w_paid_event = None, w_operator_reserve = Some retain\<rparr>"
      using run by (auto simp: p1 bindE_Inr raise_if_Inr funds(1) insert_withdrawal_Inr)
    obtain p2 u where p2: "hold_funds env jid new_id ''operator_withdrawal_reservation'' operator_tig n
        (JDict [(''actor'', JStr actor), (''recipient'', JStr wallet), (''reserve'', JInt retain), (''reason'', JStr reason)]) p1 = Inr (u, p2)"
      and p3: "lookup w_id new_id (withdrawals p2) = None"
        "withdrawal_event new_id ''requested'' actor
           (JDict [(''recipient'', JStr wallet), (''reserve'', JInt retain), (''reason'', JStr reason)]) (''operator-request:'' @ new_id)
           (p2\<lparr>withdrawals := withdrawals p2 @ [w]\<rparr>) = Inr p'"
      using run by (auto simp: p1 bindE_Inr raise_if_Inr funds(1) insert_withdrawal_Inr)
    have bal: "balance (ledger p1) operator_tig = balance (ledger p) operator_tig"
      using p1 q' by (auto simp: on_ledger_Inr account_cases(2))
    have ws: "withdrawals p2 = withdrawals p" using p1 p2 q' by (auto simp: on_ledger_Inr hold_funds_Inr)
    show ?thesis
    proof (rule new [OF q n retain wallet w, of "ledger p2"])
      show "\<not> (\<exists>v \<in> set (withdrawals p). w_kind v = OperatorWithdrawal \<and> withdrawal_pending (w_state v))" using run q' by simp
      show "lookup w_id new_id (withdrawals p) = None" using p3(1) ws by simp
      show "n + retain \<le> balance (ledger p) operator_tig" using account_balance_Inr [OF funds(1)] funds(2) bal by simp
      show "opened_by env jid ''operator_withdrawal_reservation'' (JDict [(''actor'', JStr actor), (''recipient'', JStr wallet),
         (''reserve'', JInt retain), (''reason'', JStr reason)]) w (ledger p) (ledger p2)"
        using p1 p2 q' by (auto simp: opened_by_def w source_account_def on_ledger_Inr hold_funds_Inr)
      have "p2 = q\<lparr>ledger := ledger p2\<rparr>" using p1 p2 by (auto simp: on_ledger_Inr hold_funds_Inr)
      then have p2': "p2\<lparr>withdrawals := withdrawals p2 @ [w]\<rparr> = q\<lparr>ledger := ledger p2, withdrawals := withdrawals p @ [w]\<rparr>"
        using ws by (metis pool.surjective pool.update_convs)
      show "p' = q\<lparr>ledger := ledger p2, withdrawals := withdrawals p @ [w], withdrawal_events := withdrawal_events p'\<rparr>"
        using withdrawal_event_Inr(1) [OF p3(2)] unfolding p2' by simp
    qed
  qed
qed

definition review_of :: "string \<Rightarrow> network \<Rightarrow> string \<Rightarrow> string \<Rightarrow> json \<Rightarrow> withdrawal_review_row" where
  "review_of i net fee_model actor evidence = \<lparr>wr_withdrawal_id = i, wr_chain_id = net_chain_id net, wr_token = net_token net,
     wr_sender = net_custody net, wr_fee_model = fee_model, wr_confirmations = net_confirmations net, wr_actor = actor,
     wr_evidence = evidence\<rparr>"

lemma approve_cases:
  assumes "approve i net fee_model actor evidence p = Inr (r, p')"
  obtains (old) "bind net p = Inr ((), p')" "lookup wr_withdrawal_id i (withdrawal_reviews p) = Some r"
    | (new) q w where "bind net p = Inr ((), q)" "lookup w_id i (withdrawals p) = Some w" "w_state w = WRequested"
      "lookup wr_withdrawal_id i (withdrawal_reviews p) = None" "w_recipient w \<noteq> net_custody net"
      "r = review_of i net fee_model actor evidence" "net_require_finalized net"
      "p' = q\<lparr>withdrawals := modify w_id i (\<lambda>w. w\<lparr>w_state := WApproved\<rparr>) (withdrawals p),
         withdrawal_reviews := withdrawal_reviews p @ [r]\<rparr>"
proof -
  obtain q where q: "bind net p = Inr ((), q)" and fin: "net_require_finalized net"
    and rest: "bindE (withdrawal_locked i q) (\<lambda>w. (case lookup wr_withdrawal_id i (withdrawal_reviews q) of
          Some previous \<Rightarrow>
            if (wr_chain_id previous, wr_token previous, wr_sender previous, wr_fee_model previous, wr_confirmations previous) \<noteq>
               (net_chain_id net, net_token net, net_custody net, fee_model, net_confirmations net)
            then Inl (Conflict ''withdrawal payment route is already frozen'')
            else Inr (previous, q)
        | None \<Rightarrow>
            if w_state w \<noteq> WRequested then Inl (Conflict ''only a pending request can be approved'')
            else if w_recipient w = net_custody net
            then Inl (Conflict ''a withdrawal cannot send back to the pool custody wallet'')
            else Inr (review_of i net fee_model actor evidence, update_withdrawal i (\<lambda>w. w\<lparr>w_state := WApproved\<rparr>)
                   (q\<lparr>withdrawal_reviews := withdrawal_reviews q @ [review_of i net fee_model actor evidence]\<rparr>))) ) = Inr (r, p')"
    using assms unfolding approve_def bindE_Inr [of "bind net p"] raise_if_Inr review_of_def [symmetric] Let_def by auto
  obtain w where w: "withdrawal_locked i q = Inr w"
    and run: "(case lookup wr_withdrawal_id i (withdrawal_reviews q) of
          Some previous \<Rightarrow>
            if (wr_chain_id previous, wr_token previous, wr_sender previous, wr_fee_model previous, wr_confirmations previous) \<noteq>
               (net_chain_id net, net_token net, net_custody net, fee_model, net_confirmations net)
            then Inl (Conflict ''withdrawal payment route is already frozen'')
            else Inr (previous, q)
        | None \<Rightarrow>
            if w_state w \<noteq> WRequested then Inl (Conflict ''only a pending request can be approved'')
            else if w_recipient w = net_custody net
            then Inl (Conflict ''a withdrawal cannot send back to the pool custody wallet'')
            else Inr (review_of i net fee_model actor evidence, update_withdrawal i (\<lambda>w. w\<lparr>w_state := WApproved\<rparr>)
                   (q\<lparr>withdrawal_reviews := withdrawal_reviews q @ [review_of i net fee_model actor evidence]\<rparr>))) = Inr (r, p')"
    using rest unfolding bindE_Inr [of "withdrawal_locked i q"] by blast
  have q': "withdrawals q = withdrawals p" "withdrawal_reviews q = withdrawal_reviews p" using bind_cases(1) [OF q] by simp_all
  show ?thesis
  proof (cases "lookup wr_withdrawal_id i (withdrawal_reviews q)")
    case (Some previous)
    with run q q' show ?thesis by (intro old) (auto split: if_splits)
  next
    case None
    with run w q' show ?thesis
      by (intro new [OF q, of w]) (use fin in \<open>auto simp: update_withdrawal_def split: if_splits dest: withdrawal_locked_Inr\<close>)
  qed
qed

lemma release_cases:
  assumes "release env jid i actor reason ek m p = Inr (w', p')"
  defines "state \<equiv> (if blank m then WRejected else WCancelled)"
  obtains (old) "p' = p\<lparr>withdrawal_events := withdrawal_events p'\<rparr>" "lookup w_id i (withdrawals p) = Some w'" "w_state w' = state"
    | (new) w j led where "lookup w_id i (withdrawals p) = Some w" "w_state w = WRequested \<or> w_state w = WApproved"
      "w' = w\<lparr>w_state := state\<rparr>" "\<not> blank m \<Longrightarrow> w_member_id w = m"
      "post env jid (withdrawal_key i ''release'') ''withdrawal_release'' [(pending i, - w_amount w), (source_account w, w_amount w)]
         (JDict [(''actor'', JStr actor), (''reason'', JStr reason), (''state'', JStr (withdrawal_state_text state))]) None (ledger p) = Inr (j, led)"
      "p' = p\<lparr>ledger := led, withdrawals := modify w_id i (\<lambda>w. w\<lparr>w_state := state\<rparr>) (withdrawals p), withdrawal_events := withdrawal_events p'\<rparr>"
proof -
  obtain w q where w: "withdrawal_locked i p = Inr w" and member: "\<not> blank m \<Longrightarrow> w_member_id w = m"
    and st: "w_state w \<in> {WRequested, WApproved, state}"
    and q: "withdrawal_event i (withdrawal_state_text state) actor (JDict [(''reason'', JStr reason)])
        (if blank m then ''operator:'' @ ek else ''member:'' @ the m @ '':'' @ ek) p = Inr q"
    and run: "(if w_state w = state then Inr (w, q) else
          bindE (on_ledger (post env jid (withdrawal_key i ''release'') ''withdrawal_release''
                   [(pending i, - w_amount w), (source_account w, w_amount w)]
                   (JDict [(''actor'', JStr actor), (''reason'', JStr reason), (''state'', JStr (withdrawal_state_text state))]) None) q)
            (\<lambda>(_, p). Inr (w\<lparr>w_state := state\<rparr>, update_withdrawal i (\<lambda>w. w\<lparr>w_state := state\<rparr>) p))) = Inr (w', p')"
    using assms(1) unfolding release_def bindE_Inr raise_if_Inr Let_def state_def [symmetric] by auto
  have q': "q = p\<lparr>withdrawal_events := withdrawal_events q\<rparr>" by (rule withdrawal_event_Inr(1) [OF q])
  have same: "withdrawals q = withdrawals p" "ledger q = ledger p" by (subst q', simp)+
  note look = withdrawal_locked_Inr [OF w]
  show ?thesis
  proof (cases "w_state w = state")
    case True
    with run q' look show ?thesis by (intro old) auto
  next
    case False
    obtain j led where post: "post env jid (withdrawal_key i ''release'') ''withdrawal_release'' [(pending i, - w_amount w), (source_account w, w_amount w)]
         (JDict [(''actor'', JStr actor), (''reason'', JStr reason), (''state'', JStr (withdrawal_state_text state))]) None (ledger p) = Inr (j, led)"
      and w': "w' = w\<lparr>w_state := state\<rparr>" and p': "p' = update_withdrawal i (\<lambda>w. w\<lparr>w_state := state\<rparr>) (q\<lparr>ledger := led\<rparr>)"
      using run unfolding if_not_P [OF False] bindE_Inr by (auto simp: on_ledger_Inr same)
    have "p' = p\<lparr>ledger := led, withdrawals := modify w_id i (\<lambda>w. w\<lparr>w_state := state\<rparr>) (withdrawals p), withdrawal_events := withdrawal_events q\<rparr>"
      unfolding p' update_withdrawal_def using arg_cong [OF q', of "\<lambda>x. x\<lparr>ledger := led, withdrawals := modify w_id i (\<lambda>w. w\<lparr>w_state := state\<rparr>) (withdrawals p)\<rparr>"]
      by (simp add: same)
    moreover from this have "withdrawal_events q = withdrawal_events p'" by simp
    ultimately have "p' = p\<lparr>ledger := led, withdrawals := modify w_id i (\<lambda>w. w\<lparr>w_state := state\<rparr>) (withdrawals p), withdrawal_events := withdrawal_events p'\<rparr>"
      by simp
    moreover have "w_state w = WRequested \<or> w_state w = WApproved" using st False by blast
    ultimately show ?thesis using look [THEN conjunct1] post w' member by (intro new [of w j led])
  qed
qed

lemma reserve_nonce_Inr:
  assumes "reserve_nonce i net n kind p = Inr (u, p')"
  shows "p' = p\<lparr>custody_identity := custody_identity p', custody_sends := custody_sends p'\<rparr>"
    and "custody_sends p' = custody_sends p @ [\<lparr>cs_id = i, cs_chain_id = net_chain_id net, cs_sender = net_custody net, cs_nonce = n, cs_kind = kind\<rparr>]"
    and "\<not> (\<exists>s \<in> set (custody_sends p). (cs_chain_id s, cs_sender s, cs_nonce s) = (net_chain_id net, net_custody net, n))"
    and "lookup cs_id i (custody_sends p) = None" and "0 \<le> n"
proof -
  obtain q where q: "bind net p = Inr ((), q)" and "0 \<le> n"
    and fresh: "\<not> (\<exists>s \<in> set (custody_sends q). (cs_chain_id s, cs_sender s, cs_nonce s) = (net_chain_id net, net_custody net, n))"
      "lookup cs_id i (custody_sends q) = None"
    and p': "p' = q\<lparr>custody_sends := custody_sends q @
        [\<lparr>cs_id = i, cs_chain_id = net_chain_id net, cs_sender = net_custody net, cs_nonce = n, cs_kind = kind\<rparr>]\<rparr>"
    using assms unfolding reserve_nonce_def bindE_Inr raise_if_Inr units_Inr by (auto split: if_splits)
  have "custody_sends q = custody_sends p" using bind_cases(1) [OF q] by simp
  with fresh p' show "custody_sends p' = custody_sends p @ [\<lparr>cs_id = i, cs_chain_id = net_chain_id net, cs_sender = net_custody net, cs_nonce = n, cs_kind = kind\<rparr>]"
    and "\<not> (\<exists>s \<in> set (custody_sends p). (cs_chain_id s, cs_sender s, cs_nonce s) = (net_chain_id net, net_custody net, n))"
    and "lookup cs_id i (custody_sends p) = None" by simp_all
  show "0 \<le> n" by fact
  show "p' = p\<lparr>custody_identity := custody_identity p', custody_sends := custody_sends p'\<rparr>"
    using bind_cases(1) [OF q] p' by simp
qed

lemma open_attempt_cases:
  assumes "open_attempt env jid a p = Inr (b, p')"
  obtains led1 led j k where "b = a" "lookup wa_id (wa_id a) (withdrawal_attempts p) = None"
    "account (gas_hold (wa_id a)) KOperatorCommitment AssetNATIVE Custody (ledger p) = Inr (k, led1)"
    "post env jid (attempt_key (wa_id a) ''gas'') ''operator_withdrawal_fee_reservation''
       [(operator_native, - wa_fee_limit a), (gas_hold (wa_id a), wa_fee_limit a)]
       (JDict [(''withdrawal_id'', JStr (wa_withdrawal_id a)), (''actor'', JStr (wa_actor a))]) None led1 = Inr (j, led)"
    "\<not> (\<exists>s \<in> set (custody_sends p). (cs_chain_id s, cs_sender s, cs_nonce s) =
        (net_chain_id (pf_network (wa_preflight a)), net_custody (pf_network (wa_preflight a)), wa_nonce a))"
    "p' = p\<lparr>ledger := led, custody_identity := custody_identity p', custody_sends := custody_sends p',
       withdrawals := modify w_id (wa_withdrawal_id a) (\<lambda>w. w\<lparr>w_state := WUncertain\<rparr>) (withdrawals p),
       withdrawal_attempts := withdrawal_attempts p @ [a]\<rparr>"
proof -
  obtain q u where q: "reserve_nonce (wa_id a) (pf_network (wa_preflight a)) (wa_nonce a) ''withdrawal'' p = Inr (u, q)"
    using assms unfolding open_attempt_def bindE_Inr by auto
  note frame = reserve_nonce_Inr [OF q]
  have same: "withdrawals q = withdrawals p" "ledger q = ledger p" "withdrawal_attempts q = withdrawal_attempts p" by (subst frame(1), simp)+
  obtain k led1 j led where led: "account (gas_hold (wa_id a)) KOperatorCommitment AssetNATIVE Custody (ledger p) = Inr (k, led1)"
    "post env jid (attempt_key (wa_id a) ''gas'') ''operator_withdrawal_fee_reservation''
       [(operator_native, - wa_fee_limit a), (gas_hold (wa_id a), wa_fee_limit a)]
       (JDict [(''withdrawal_id'', JStr (wa_withdrawal_id a)), (''actor'', JStr (wa_actor a))]) None led1 = Inr (j, led)"
    and new: "lookup wa_id (wa_id a) (withdrawal_attempts p) = None" "b = a"
    and p': "p' = q\<lparr>ledger := led, withdrawals := modify w_id (wa_withdrawal_id a) (\<lambda>w. w\<lparr>w_state := WUncertain\<rparr>) (withdrawals p),
        withdrawal_attempts := withdrawal_attempts p @ [a]\<rparr>"
    using assms unfolding open_attempt_def by (auto simp: q bindE_Inr on_ledger_Inr raise_if_Inr update_withdrawal_def same)
  show ?thesis
  proof (rule that [OF new(2,1) led frame(3)])
    show "p' = p\<lparr>ledger := led, custody_identity := custody_identity p', custody_sends := custody_sends p',
       withdrawals := modify w_id (wa_withdrawal_id a) (\<lambda>w. w\<lparr>w_state := WUncertain\<rparr>) (withdrawals p),
       withdrawal_attempts := withdrawal_attempts p @ [a]\<rparr>"
      unfolding p' using arg_cong [OF frame(1), of "\<lambda>x. x\<lparr>ledger := led,
        withdrawals := modify w_id (wa_withdrawal_id a) (\<lambda>w. w\<lparr>w_state := WUncertain\<rparr>) (withdrawals p),
        withdrawal_attempts := withdrawal_attempts p @ [a]\<rparr>"] by simp
  qed
qed

lemma send_guards_Inr:
  assumes "send_guards env pre w retain limit p = Inr review"
  shows "w_state w = WApproved" and "lookup wr_withdrawal_id (w_id w) (withdrawal_reviews p) = Some review"
    and "(wr_chain_id review, wr_token review, wr_sender review) = (net_chain_id (pf_network pre), net_token (pf_network pre), net_custody (pf_network pre))"
    and "backing (ledger p) AssetTIG Custody = pf_token_balance pre" and "backing (ledger p) AssetNATIVE Custody = pf_native_balance pre"
    and "seconds (-5) \<le> clock env - pf_checked_at pre" and "clock env - pf_checked_at pre \<le> seconds 20"
    and "check_gas env limit p = Inr ()" and "operating_reserve_held w retain p = Inr ()" and "\<not> weaker_policy (pf_network pre) review"
  using assms by (auto simp: send_guards_def Let_def bindE_Inr split: if_splits option.splits)

text \<open>What a new attempt requires, and what it does.\<close>

lemma begin_attempt_cases:
  assumes "begin_attempt env new_id jid i key pre limit actor retain p = Inr (a, p')"
  obtains (old) "bind (pf_network pre) p = Inr ((), p')" "a \<in> set (withdrawal_attempts p)" "wa_withdrawal_id a = i" "wa_fee_limit a = limit"
    | (new) q w review where "bind (pf_network pre) p = Inr ((), q)" "lookup w_id i (withdrawals p) = Some w" "1 \<le> limit"
      "send_guards env pre w retain limit q = Inr review"
      "open_attempt env jid (new_attempt env new_id i key pre limit actor review) q = Inr (a, p')"
proof -
  obtain q where q: "bind (pf_network pre) p = Inr ((), q)" and limit: "1 \<le> limit"
    and run: "bindE (withdrawal_locked i q) (\<lambda>w.
       case List.find (\<lambda>a. wa_withdrawal_id a = i \<and> wa_request_key a = key) (withdrawal_attempts q) of
         Some previous \<Rightarrow>
           if wa_fee_limit previous \<noteq> limit
           then Inl (Conflict ''send attempt key was reused with a different fee limit'')
           else Inr (previous, q)
       | None \<Rightarrow>
           bindE (send_guards env pre w retain limit q) (\<lambda>review.
             open_attempt env jid (new_attempt env new_id i key pre limit actor review) q)) = Inr (a, p')"
    using assms unfolding begin_attempt_def bindE_Inr [of "bind (pf_network pre) p"] raise_if_Inr bindE_Inr [of "units True (JInt limit)"]
      bindE_Inr [of "case retain of None \<Rightarrow> Inr 0 | Some n \<Rightarrow> units False (JInt n)"] units_Inr by auto
  have q': "withdrawals q = withdrawals p" "withdrawal_attempts q = withdrawal_attempts p" using bind_cases(1) [OF q] by simp_all
  obtain w where w: "withdrawal_locked i q = Inr w" using run unfolding bindE_Inr by blast
  show ?thesis
  proof (cases "List.find (\<lambda>a. wa_withdrawal_id a = i \<and> wa_request_key a = key) (withdrawal_attempts q)")
    case (Some previous)
    then have "a = previous" "p' = q" "wa_fee_limit a = limit" using run w by (auto split: if_splits)
    with find_SomeD [OF Some] q q' show ?thesis by (intro old) simp_all
  next
    case None
    with run obtain review where "send_guards env pre w retain limit q = Inr review"
      "open_attempt env jid (new_attempt env new_id i key pre limit actor review) q = Inr (a, p')"
      by (auto simp: w bindE_Inr)
    with q limit withdrawal_locked_Inr [OF w] q' show ?thesis by (intro new [of q w review]) simp_all
  qed
qed

section \<open>Outcomes\<close>

lemma record_payment_frame:
  assumes "record_payment i t ev j auth actor reason p = Inr (u, p')"
  shows "p' = p\<lparr>custody_payments := custody_payments p', custody_authorization_payments := custody_authorization_payments p'\<rparr>"
  using assms unfolding record_payment_def Let_def
  by (auto split: if_splits option.splits prod.splits)

text \<open>A finished send: its gas hold is settled, and the withdrawal is paid or approved again.\<close>

definition finish :: "send_outcome \<Rightarrow> string option \<Rightarrow> withdrawal_row \<Rightarrow> withdrawal_row" where
  "finish outcome ev w = (if outcome = OPaid then w\<lparr>w_state := WPaid, w_paid_event := ev\<rparr> else w\<lparr>w_state := WApproved\<rparr>)"

lemma finish_simps [simp]: "w_id (finish out ev w) = w_id w" "w_member_id (finish out ev w) = w_member_id w"
  by (simp_all add: finish_def)

definition outcome_row :: "string \<Rightarrow> confirmed_transaction \<Rightarrow> send_outcome \<Rightarrow> int \<Rightarrow> string \<Rightarrow> withdrawal_outcome_row" where
  "outcome_row a t outcome fee j = \<lparr>wo_attempt_id = a, wo_chain_id = net_chain_id (tx_network t), wo_tx_hash = tx_hash t,
     wo_outcome = outcome, wo_fee = fee, wo_journal_id = j\<rparr>"

lemma insert_outcome_Inr:
  "insert_outcome out p = Inr (o', p') \<longleftrightarrow> lookup wo_attempt_id (wo_attempt_id out) (withdrawal_attempt_outcomes p) = None \<and>
     lookup (\<lambda>o'. (wo_chain_id o', wo_tx_hash o')) (wo_chain_id out, wo_tx_hash out) (withdrawal_attempt_outcomes p) = None \<and>
     o' = out \<and> p' = p\<lparr>withdrawal_attempt_outcomes := withdrawal_attempt_outcomes p @ [out]\<rparr>"
  by (auto simp: insert_outcome_def)

lemma mark_paid_frame:
  "mark_paid w ev t p = p\<lparr>withdrawals := modify w_id (w_id w) (finish OPaid (Some ev)) (withdrawals p), members := members (mark_paid w ev t p)\<rparr>"
  "same_members p (mark_paid w ev t p)"
proof -
  have f: "finish OPaid (Some ev) = (\<lambda>w. w\<lparr>w_state := WPaid, w_paid_event := Some ev\<rparr>)" by (rule ext) (simp add: finish_def)
  have "unpaid (if m_id x = m then x\<lparr>m_last_paid_at := Some t\<rparr> else x) = unpaid x" for x m by (simp add: unpaid_def)
  then have "map unpaid (modify m_id m (\<lambda>x. x\<lparr>m_last_paid_at := Some t\<rparr>) xs) = map unpaid xs" for m xs
    by (simp add: modify_def)
  then show "same_members p (mark_paid w ev t p)"
    by (simp add: mark_paid_def update_withdrawal_def Let_def same_members_def split: option.splits)
  show "mark_paid w ev t p = p\<lparr>withdrawals := modify w_id (w_id w) (finish OPaid (Some ev)) (withdrawals p), members := members (mark_paid w ev t p)\<rparr>"
    by (simp add: mark_paid_def update_withdrawal_def Let_def f split: option.splits)
qed

text \<open>What either way of recording an outcome does.\<close>

definition finished :: "env \<Rightarrow> string \<Rightarrow> string \<Rightarrow> json \<Rightarrow> movement list \<Rightarrow> withdrawal_row \<Rightarrow> send_outcome \<Rightarrow> string option \<Rightarrow> int \<Rightarrow>
    confirmed_transaction \<Rightarrow> pool \<Rightarrow> withdrawal_outcome_row \<Rightarrow> pool \<Rightarrow> bool" where
  "finished env jid a details mv w outcome ev fee t p out p' \<longleftrightarrow> (\<exists>j led.
     post env jid (attempt_key a ''reconcile'') (''withdrawal_'' @ send_outcome_text outcome) mv details None (ledger p) = Inr (j, led) \<and>
     out = outcome_row a t outcome fee j \<and> lookup wo_attempt_id a (withdrawal_attempt_outcomes p) = None \<and>
     lookup (\<lambda>o'. (wo_chain_id o', wo_tx_hash o')) (net_chain_id (tx_network t), tx_hash t) (withdrawal_attempt_outcomes p) = None \<and>
     same_members p p' \<and>
     p' = p\<lparr>ledger := led, custody_payments := custody_payments p', custody_authorization_payments := custody_authorization_payments p',
       withdrawals := modify w_id (w_id w) (finish outcome ev) (withdrawals p), members := members p',
       withdrawal_attempt_outcomes := withdrawal_attempt_outcomes p @ [out]\<rparr>)"

lemma finished_intro:
  assumes post: "post env jid (attempt_key a ''reconcile'') (''withdrawal_'' @ send_outcome_text outcome) mv details None (ledger p) = Inr (j, led)"
    and pay: "record_payment a t ev j auth actor reason (p\<lparr>ledger := led\<rparr>) = Inr (u, q)"
    and out: "insert_outcome (outcome_row a t outcome fee j) q = Inr (out, r)"
    and p': "p' = (if outcome = OPaid then mark_paid w (the ev) paid r else update_withdrawal (w_id w) (\<lambda>w. w\<lparr>w_state := WApproved\<rparr>) r)"
    and ev: "outcome = OPaid \<Longrightarrow> ev \<noteq> None"
  shows "finished env jid a details mv w outcome ev fee t p out p'"
proof -
  note q = record_payment_frame [OF pay]
  have os: "withdrawal_attempt_outcomes q = withdrawal_attempt_outcomes p" "withdrawals q = withdrawals p" by (subst q, simp)+
  note o' = out [unfolded insert_outcome_Inr]
  have r: "r = p\<lparr>ledger := led, custody_payments := custody_payments q, custody_authorization_payments := custody_authorization_payments q,
      withdrawal_attempt_outcomes := withdrawal_attempt_outcomes p @ [out]\<rparr>"
    using o' os arg_cong [OF q, of "\<lambda>x. x\<lparr>withdrawal_attempt_outcomes := withdrawal_attempt_outcomes p @ [out]\<rparr>"] by simp
  have rw: "withdrawals r = withdrawals p" and rm: "members r = members p" by (simp_all add: r)
  have fw: "outcome \<noteq> OPaid \<Longrightarrow> finish outcome ev = (\<lambda>w. w\<lparr>w_state := WApproved\<rparr>)" by (rule ext) (simp add: finish_def)
  have frame: "p' = r\<lparr>withdrawals := modify w_id (w_id w) (finish outcome ev) (withdrawals p), members := members p'\<rparr> \<and> same_members p p'"
  proof (cases "outcome = OPaid")
    case True
    have "same_members p (mark_paid w (the ev) paid r)"
      using mark_paid_frame(2) [of r w "the ev" paid] by (simp add: same_members_def rm)
    with mark_paid_frame(1) [of w "the ev" paid r] ev True show ?thesis by (auto simp: p' rw)
  next
    case False
    then show ?thesis by (simp add: p' update_withdrawal_def rw fw rm)
  qed
  have "p' = p\<lparr>ledger := led, custody_payments := custody_payments q, custody_authorization_payments := custody_authorization_payments q,
       withdrawals := modify w_id (w_id w) (finish outcome ev) (withdrawals p), members := members p',
       withdrawal_attempt_outcomes := withdrawal_attempt_outcomes p @ [out]\<rparr>"
    by (rule trans [OF frame [THEN conjunct1]]) (simp add: r)
  moreover from arg_cong [OF this, of custody_payments] arg_cong [OF this, of custody_authorization_payments]
  have "custody_payments q = custody_payments p'" "custody_authorization_payments q = custody_authorization_payments p'" by simp_all
  ultimately have "p' = p\<lparr>ledger := led, custody_payments := custody_payments p', custody_authorization_payments := custody_authorization_payments p',
       withdrawals := modify w_id (w_id w) (finish outcome ev) (withdrawals p), members := members p',
       withdrawal_attempt_outcomes := withdrawal_attempt_outcomes p @ [out]\<rparr>" by simp
  moreover have "out = outcome_row a t outcome fee j" "lookup wo_attempt_id a (withdrawal_attempt_outcomes p) = None"
    "lookup (\<lambda>o'. (wo_chain_id o', wo_tx_hash o')) (net_chain_id (tx_network t), tx_hash t) (withdrawal_attempt_outcomes p) = None"
    using o' by (simp_all add: os outcome_row_def)
  ultimately show ?thesis using post frame [THEN conjunct2] unfolding finished_def by blast
qed

definition settle_movements :: "string \<Rightarrow> withdrawal_attempt_row \<Rightarrow> withdrawal_row \<Rightarrow> send_outcome \<Rightarrow> int \<Rightarrow> movement list" where
  "settle_movements i a w outcome fee = gas_movements i (wa_fee_limit a) fee @ (if outcome = OPaid then payment_movements w else [])"

definition settle_details :: "string \<Rightarrow> confirmed_transaction \<Rightarrow> withdrawal_row \<Rightarrow> string option \<Rightarrow> json" where
  "settle_details i t w ev = JDict [(''withdrawal_id'', JStr (w_id w)), (''attempt_id'', JStr i),
     (''chain_id'', JInt (net_chain_id (tx_network t))), (''tx_hash'', JStr (tx_hash t)), (''fee'', JInt (tx_fee t)),
     (''fee_model'', JStr (tx_fee_model t)), (''transfer_event'', optional_text ev)]"

lemma record_send_finished:
  assumes "record_send env jid i t transfer a w outcome p = Inr (out, p')" and "outcome = OPaid \<Longrightarrow> transfer \<noteq> None"
  shows "finished env jid i (settle_details i t w (map_option event_id transfer)) (settle_movements i a w outcome (tx_fee t)) w outcome
     (map_option event_id transfer) (tx_fee t) t p out p'"
proof -
  obtain j led u q r where post: "post env jid (attempt_key i ''reconcile'') (''withdrawal_'' @ send_outcome_text outcome)
      (settle_movements i a w outcome (tx_fee t)) (settle_details i t w (map_option event_id transfer)) None (ledger p) = Inr (j, led)"
    and pay: "record_payment i t (map_option event_id transfer) j None None None (p\<lparr>ledger := led\<rparr>) = Inr (u, q)"
    and out: "insert_outcome (outcome_row i t outcome (tx_fee t) j) q = Inr (out, r)"
    and p': "p' = (if outcome = OPaid then mark_paid w (the (map_option event_id transfer)) (tx_block_timestamp t) r
        else update_withdrawal (w_id w) (\<lambda>w. w\<lparr>w_state := WApproved\<rparr>) r)"
    using assms(1) unfolding record_send_def Let_def settle_movements_def [symmetric] settle_details_def [symmetric] outcome_row_def [symmetric]
    by (auto simp: bindE_Inr on_ledger_Inr)
  from finished_intro [OF post pay out p'] assms(2) show ?thesis by auto
qed

text \<open>What the checks of a matching transaction give, in either transaction of \<open>reconcile\<close>.\<close>

definition route_matches :: "withdrawal_attempt_row \<Rightarrow> withdrawal_review_row \<Rightarrow> confirmed_transaction \<Rightarrow> confirmed_transfer option \<Rightarrow> bool" where
  "route_matches a review t transfer \<longleftrightarrow>
     (net_chain_id (tx_network t), tx_sender t, tx_nonce t, tx_fee_model t) = (wa_chain_id a, wa_sender a, wa_nonce a, wr_fee_model review) \<and>
     \<not> policy_weakened t transfer review \<and> pf_block_number (wa_preflight a) < tx_block_number t"

lemma settle_attempt_cases:
  assumes "settle_attempt env jid i t transfer p = Inr (out, p')"
  obtains (old) q a w where "bind (tx_network t) p = Inr ((), q)" "lookup wo_attempt_id i (withdrawal_attempt_outcomes p) = Some out"
      "lookup wa_id i (withdrawal_attempts p) = Some a" "lookup w_id (wa_withdrawal_id a) (withdrawals p) = Some w"
      "wo_tx_hash out = tx_hash t" "wo_outcome out = OPaid \<Longrightarrow> transfer \<noteq> None \<and> w_paid_event w = map_option event_id transfer"
      "case transfer of None \<Rightarrow> p' = q | Some tf \<Rightarrow> \<exists>new. save_transfer tf q = Inr (new, p')"
    | (new) q a w review r outcome where "bind (tx_network t) p = Inr ((), q)"
      "lookup wa_id i (withdrawal_attempts p) = Some a" "lookup w_id (wa_withdrawal_id a) (withdrawals p) = Some w"
      "lookup wr_withdrawal_id (w_id w) (withdrawal_reviews p) = Some review"
      "route_matches a review t transfer" "lookup wo_attempt_id i (withdrawal_attempt_outcomes p) = None"
      "w_state w = WUncertain" "send_result t transfer review w q = Inr (outcome, r)"
      "record_send env jid i t transfer a w outcome r = Inr (out, p')"
proof -
  let ?B = "\<lambda>q. (case lookup wa_id i (withdrawal_attempts q) of
       None \<Rightarrow> Inl (FundsError ''unknown withdrawal attempt'')
     | Some attempt \<Rightarrow>
     bindE (withdrawal_locked (wa_withdrawal_id attempt) q) (\<lambda>w.
     case lookup wr_withdrawal_id (w_id w) (withdrawal_reviews q) of
       None \<Rightarrow> Inl TypeError
     | Some review \<Rightarrow>
         if (net_chain_id (tx_network t), tx_sender t, tx_nonce t, tx_fee_model t) \<noteq>
            (wa_chain_id attempt, wa_sender attempt, wa_nonce attempt, wr_fee_model review)
         then Inl (Conflict ''transaction does not match the frozen chain, sender, nonce or fee rule'')
         else if policy_weakened t transfer review
         then Inl (Conflict ''withdrawal confirmation policy cannot be weakened'')
         else if tx_block_number t \<le> pf_block_number (wa_preflight attempt)
         then Inl (Conflict ''transaction predates the recorded send attempt'') else
         case lookup wo_attempt_id i (withdrawal_attempt_outcomes q) of
           Some previous \<Rightarrow>
             if wo_tx_hash previous \<noteq> tx_hash t then Inl (Conflict ''attempt already has a different final transaction'')
             else if wo_outcome previous = OPaid \<and> (transfer = None \<or> w_paid_event w \<noteq> map_option event_id transfer)
             then Inl (Conflict ''payment replay must identify the same exact transfer event'') else
             (case transfer of
                None \<Rightarrow> Inr (previous, q)
              | Some tf \<Rightarrow> bindE (save_transfer tf q) (\<lambda>(_, p). Inr (previous, p)))
         | None \<Rightarrow>
             if w_state w \<noteq> WUncertain then Inl (Conflict ''withdrawal has no unresolved send to reconcile'') else
             bindE (send_result t transfer review w q) (\<lambda>(outcome, p).
               record_send env jid i t transfer attempt w outcome p)))"
  obtain q where q: "bind (tx_network t) p = Inr ((), q)" and run: "?B q = Inr (out, p')"
    using assms unfolding settle_attempt_def bindE_Inr [of "bind (tx_network t) p"] by auto
  have q': "withdrawals q = withdrawals p" "withdrawal_reviews q = withdrawal_reviews p" "withdrawal_attempts q = withdrawal_attempts p"
    "withdrawal_attempt_outcomes q = withdrawal_attempt_outcomes p" using bind_cases(1) [OF q] by simp_all
  obtain a where a: "lookup wa_id i (withdrawal_attempts p) = Some a"
    using run by (cases "lookup wa_id i (withdrawal_attempts p)") (simp_all add: q')
  obtain w where lock: "withdrawal_locked (wa_withdrawal_id a) q = Inr w"
    using run by (cases "withdrawal_locked (wa_withdrawal_id a) q") (simp_all add: q' a)
  have w: "lookup w_id (wa_withdrawal_id a) (withdrawals p) = Some w" using withdrawal_locked_Inr [OF lock] q' by simp
  obtain review where review: "lookup wr_withdrawal_id (w_id w) (withdrawal_reviews p) = Some review"
    using run by (cases "lookup wr_withdrawal_id (w_id w) (withdrawal_reviews p)") (simp_all add: q' a lock)
  note run = run [unfolded q' a option.case lock bindE_simps review raise_if_Inr]
  then have route: "route_matches a review t transfer" unfolding route_matches_def by (simp add: not_le)
  show ?thesis
  proof (cases "lookup wo_attempt_id i (withdrawal_attempt_outcomes p)")
    case (Some previous)
    then have "out = previous" "wo_tx_hash out = tx_hash t"
      "wo_outcome out = OPaid \<Longrightarrow> transfer \<noteq> None \<and> w_paid_event w = map_option event_id transfer"
      "case transfer of None \<Rightarrow> p' = q | Some tf \<Rightarrow> \<exists>new. save_transfer tf q = Inr (new, p')"
      using run by (auto simp: bindE_Inr split: if_splits option.splits)
    with Some q a w show ?thesis by (intro old) auto
  next
    case None
    then obtain outcome r where "w_state w = WUncertain" "send_result t transfer review w q = Inr (outcome, r)"
      "record_send env jid i t transfer a w outcome r = Inr (out, p')"
      using run by (auto simp: bindE_Inr split: if_splits)
    with None q a w review route show ?thesis by (intro new) simp_all
  qed
qed

lemma send_result_cases:
  assumes "send_result t transfer review w p = Inr (outcome, p')"
  obtains (failed) "\<not> tx_successful t" "transfer = None" "outcome = OFailed" "p' = p"
    | (paid) tf new where "tx_successful t" "transfer = Some tf" "outcome = OPaid" "transfer_matches tf review w t"
      "save_transfer tf p = Inr (new, p')" "\<not> (\<exists>x \<in> set (withdrawals p). w_paid_event x = Some (event_id tf))"
    | (cancelled) "tx_successful t" "transfer = None" "outcome = OCancelled" "p' = p" "empty_self_send t = Inr True"
proof (cases "tx_successful t")
  case False
  with assms show ?thesis by (intro failed) (auto simp: send_result_def split: if_splits)
next
  case True
  show ?thesis
  proof (cases transfer)
    case None
    with True assms show ?thesis by (intro cancelled) (auto simp: send_result_def bindE_Inr split: if_splits)
  next
    case (Some tf)
    with True assms obtain new where new: "transfer_matches tf review w t" "save_transfer tf p = Inr (new, p')" "outcome = OPaid"
      "\<not> (\<exists>x \<in> set (withdrawals p'). w_paid_event x = Some (event_id tf))"
      by (auto simp: send_result_def bindE_Inr split: if_splits)
    have "withdrawals p' = withdrawals p" by (subst save_transfer_effect(3) [OF new(2)]) simp
    with True Some new show ?thesis by (intro paid) simp_all
  qed
qed

definition sponsored_details :: "string \<Rightarrow> sponsored_withdrawal \<Rightarrow> withdrawal_row \<Rightarrow> string \<Rightarrow> string \<Rightarrow> json" where
  "sponsored_details i x w actor reason =
     JDict [(''withdrawal_id'', JStr (w_id w)), (''attempt_id'', JStr i),
       (''chain_id'', JInt (net_chain_id (tx_network (sw_transaction x)))), (''tx_hash'', JStr (tx_hash (sw_transaction x))), (''fee'', JInt 0),
       (''relayer_fee'', JInt (tx_fee (sw_transaction x))), (''fee_model'', JStr (tx_fee_model (sw_transaction x))),
       (''transfer_event'', JStr (event_id (sw_transfer x))), (''actor'', JStr actor), (''reason'', JStr reason),
       (''route'', JStr ''initial-eip7702-sponsored'')]"

definition sponsored_movements :: "string \<Rightarrow> withdrawal_attempt_row \<Rightarrow> withdrawal_row \<Rightarrow> movement list" where
  "sponsored_movements i a w = [(gas_hold i, - wa_fee_limit a), (operator_native, wa_fee_limit a)] @ payment_movements w"

lemma record_sponsored_finished:
  assumes "record_sponsored env jid i x a w actor reason p = Inr (out, p')"
  shows "finished env jid i (sponsored_details i x w actor reason) (sponsored_movements i a w) w OPaid
     (Some (event_id (sw_transfer x))) 0 (sw_transaction x) p out p'"
proof -
  let ?t = "sw_transaction x" and ?ev = "Some (event_id (sw_transfer x))"
  obtain j led u q r where post: "post env jid (attempt_key i ''reconcile'') (''withdrawal_'' @ send_outcome_text OPaid)
      (sponsored_movements i a w) (sponsored_details i x w actor reason) None (ledger p) = Inr (j, led)"
    and pay: "record_payment i ?t ?ev j (Some x) (Some actor) (Some reason) (p\<lparr>ledger := led\<rparr>) = Inr (u, q)"
    and out: "insert_outcome (outcome_row i ?t OPaid 0 j) q = Inr (out, r)"
    and p': "p' = (if OPaid = OPaid then mark_paid w (the ?ev) (tx_block_timestamp ?t) r
        else update_withdrawal (w_id w) (\<lambda>w. w\<lparr>w_state := WApproved\<rparr>) r)"
    using assms unfolding record_sponsored_def Let_def sponsored_movements_def sponsored_details_def outcome_row_def
    by (auto simp: bindE_Inr on_ledger_Inr)
  from finished_intro [OF post pay out p'] show ?thesis by simp
qed

lemma reconcile_sponsored_cases:
  assumes "reconcile_sponsored env jid i x actor reason p = Inr (out, p')"
  obtains (old) q q' a w where "bind (tx_network (sw_transaction x)) p = Inr ((), q)"
      "lookup wa_id i (withdrawal_attempts p) = Some a" "lookup w_id (wa_withdrawal_id a) (withdrawals p) = Some w"
      "lookup wo_attempt_id i (withdrawal_attempt_outcomes p) = Some out" "wo_tx_hash out = tx_hash (sw_transaction x)"
      "wo_outcome out = OPaid" "w_paid_event w = Some (event_id (sw_transfer x))"
      "\<exists>new. save_transaction (sw_transaction x) q = Inr (new, q')" "\<exists>new. save_transfer (sw_transfer x) q' = Inr (new, p')"
    | (new) q q1 q2 a w where "bind (tx_network (sw_transaction x)) p = Inr ((), q)"
      "lookup wa_id i (withdrawal_attempts p) = Some a" "lookup w_id (wa_withdrawal_id a) (withdrawals p) = Some w"
      "(tf_sender (sw_transfer x), tf_recipient (sw_transfer x), tf_amount (sw_transfer x)) = (wa_sender a, w_recipient w, w_amount w)"
      "lookup wo_attempt_id i (withdrawal_attempt_outcomes p) = None" "w_state w = WUncertain"
      "\<exists>new. save_transaction (sw_transaction x) q = Inr (new, q1)" "\<exists>new. save_transfer (sw_transfer x) q1 = Inr (new, q2)"
      "\<not> (\<exists>v \<in> set (withdrawals q2). w_paid_event v = Some (event_id (sw_transfer x)))"
      "record_sponsored env jid i x a w actor reason q2 = Inr (out, p')"
proof -
  let ?t = "sw_transaction x" and ?tf = "sw_transfer x"
  let ?net = "tx_network ?t"
  note unfolded = assms [unfolded reconcile_sponsored_def Let_def raise_if_Inr bindE_Inr [of "bind ?net p"]]
  then obtain q where q: "bind ?net p = Inr ((), q)" by auto
  note run = unfolded [unfolded q sum.inject, THEN conjunct2, THEN conjunct2, simplified]
  have q': "withdrawals q = withdrawals p" "withdrawal_reviews q = withdrawal_reviews p" "withdrawal_attempts q = withdrawal_attempts p"
    "withdrawal_attempt_outcomes q = withdrawal_attempt_outcomes p" using bind_cases(1) [OF q] by simp_all
  obtain a where a: "lookup wa_id i (withdrawal_attempts p) = Some a"
    using run by (cases "lookup wa_id i (withdrawal_attempts p)") (simp_all add: q')
  obtain w where lock: "withdrawal_locked (wa_withdrawal_id a) q = Inr w"
    using run by (cases "withdrawal_locked (wa_withdrawal_id a) q") (simp_all add: q' a)
  have w: "lookup w_id (wa_withdrawal_id a) (withdrawals p) = Some w" using withdrawal_locked_Inr [OF lock] q' by simp
  obtain review where review: "lookup wr_withdrawal_id (w_id w) (withdrawal_reviews p) = Some review"
    using run by (cases "lookup wr_withdrawal_id (w_id w) (withdrawal_reviews p)") (simp_all add: q' a lock)
  note run = run [unfolded q' a option.case lock bindE_simps review, simplified]
  show ?thesis
  proof (cases "lookup wo_attempt_id i (withdrawal_attempt_outcomes p)")
    case (Some previous)
    then have replay: "sponsored_replay i x w previous q = Inr (out, p')" using run by (auto split: if_splits)
    then obtain q1 where "out = previous" "wo_tx_hash out = tx_hash ?t" "wo_outcome out = OPaid" "w_paid_event w = Some (event_id ?tf)"
      "\<exists>new. save_transaction ?t q = Inr (new, q1)" "\<exists>new. save_transfer ?tf q1 = Inr (new, p')"
      unfolding sponsored_replay_def Let_def raise_if_Inr bindE_Inr by (auto simp: bindE_Inr)
    with Some q a w show ?thesis by (intro old) auto
  next
    case None
    from run None have m: "(tf_sender ?tf, tf_recipient ?tf, tf_amount ?tf) = (wa_sender a, w_recipient w, w_amount w)" "w_state w = WUncertain"
      by (auto split: if_splits)
    from run None obtain q1 q2 where s: "\<exists>new. save_transaction ?t q = Inr (new, q1)" "\<exists>new. save_transfer ?tf q1 = Inr (new, q2)"
      "\<not> (\<exists>v \<in> set (withdrawals q2). w_paid_event v = Some (event_id ?tf))"
      "record_sponsored env jid i x a w actor reason q2 = Inr (out, p')"
      by (auto simp: bindE_Inr split: if_splits)
    with None q a w m show ?thesis by (intro new)
  qed
qed

section \<open>Every operation keeps the invariant\<close>

definition withdrawal_journals :: "string \<Rightarrow> bool" where
  "withdrawal_journals k \<longleftrightarrow> (\<exists>i kind. k = withdrawal_key i kind \<or> k = attempt_key i kind)"

definition withdrawal_accounts :: "string \<Rightarrow> bool" where
  "withdrawal_accounts k \<longleftrightarrow> (\<exists>i. k = pending i \<or> k = gas_hold i)"

text \<open>The accounts a withdrawal moves funds between.\<close>

definition payment_accounts :: "string \<Rightarrow> bool" where
  "payment_accounts k \<longleftrightarrow> withdrawal_accounts k \<or> k = operator_tig \<or> k = operator_native \<or> (\<exists>m. k = available m) \<or>
     k = ''external:custody:TIG'' \<or> k = ''external:custody:NATIVE''"

lemma withdrawal_journals_simps [simp]: "withdrawal_journals (withdrawal_key i k)" "withdrawal_journals (attempt_key i k)"
  by (auto simp: withdrawal_journals_def)

lemma payment_accounts_simps [simp]: "payment_accounts (pending i)" "payment_accounts (gas_hold i)" "payment_accounts operator_tig"
  "payment_accounts operator_native" "payment_accounts (available m)" "payment_accounts ''external:custody:TIG''"
  "payment_accounts ''external:custody:NATIVE''" "payment_accounts (source_account w)"
  by (auto simp: payment_accounts_def withdrawal_accounts_def source_account_def)

lemma withdrawal_names_disjoint:
  "withdrawal_journals k \<Longrightarrow> \<not> reservation_journals k" "withdrawal_journals k \<Longrightarrow> \<not> deposit_keys k"
  "payment_accounts k \<Longrightarrow> \<not> reservation_accounts k"
  by (auto simp: withdrawal_journals_def reservation_journals_def deposit_keys_def withdrawal_key_def attempt_key_def reservation_key_def
      payment_accounts_def withdrawal_accounts_def reservation_accounts_def pending_def gas_hold_def held_def committed_fee_def available_def)

text \<open>Operations of the other components leave withdrawals alone.\<close>

lemma withdrawals_ok_frame:
  assumes ok: "withdrawals_ok p" and led: "ledger_by K A (ledger p) (ledger p')"
    and same: "withdrawals p' = withdrawals p" "withdrawal_attempts p' = withdrawal_attempts p"
      "withdrawal_attempt_outcomes p' = withdrawal_attempt_outcomes p"
    and K: "\<And>k. K k \<Longrightarrow> \<not> withdrawal_journals k" and A: "\<And>k. A k \<Longrightarrow> \<not> withdrawal_accounts k"
  shows "withdrawals_ok p'"
proof -
  have "recorded (ledger p') (withdrawal_key i kind) = recorded (ledger p) (withdrawal_key i kind)"
    "recorded (ledger p') (attempt_key i kind) = recorded (ledger p) (attempt_key i kind)" for i kind
    using K by (intro ledger_by_recorded [OF led]; force)+
  moreover have "balance (ledger p') (pending i) = balance (ledger p) (pending i)"
    "balance (ledger p') (gas_hold i) = balance (ledger p) (gas_hold i)" for i
    using A by (intro ledger_by_balance [OF led]; auto simp: withdrawal_accounts_def)+
  ultimately show ?thesis using ok by (simp add: withdrawals_ok_def sends_ok_def sends_money_ok_def same)
qed

lemma withdrawals_ok_same:
  "withdrawals_ok p \<Longrightarrow> ledger p' = ledger p \<Longrightarrow> withdrawals p' = withdrawals p \<Longrightarrow> withdrawal_attempts p' = withdrawal_attempts p \<Longrightarrow>
   withdrawal_attempt_outcomes p' = withdrawal_attempt_outcomes p \<Longrightarrow> withdrawals_ok p'"
  by (simp add: withdrawals_ok_def)

lemma sends_ok_open:
  assumes ok: "sends_ok led ws as os" and run: "opened_by env jid kind details w led led'"
    and new: "lookup w_id (w_id w) ws = None" "withdrawal_row_ok w" "w_state w = WRequested"
    and only: "\<And>v. v \<in> set ws \<Longrightarrow> withdrawal_pending (w_state v) \<Longrightarrow> w_member_id v \<noteq> w_member_id w"
  shows "sends_ok led' (ws @ [w]) as os" and "ledger_by withdrawal_journals payment_accounts led led'"
proof -
  obtain i led1 j where acc: "account (pending (w_id w)) KWithdrawal AssetTIG Custody led = Inr (i, led1)"
    and post: "post env jid (withdrawal_key (w_id w) ''reserve'') kind [(source_account w, - w_amount w), (pending (w_id w), w_amount w)]
       details None led1 = Inr (j, led')"
    using run unfolding opened_by_def by blast
  have money: "sends_money_ok led1 ws as os" using ok sends_money_account [OF _ acc] by (simp add: sends_ok_def)
  have fresh: "\<not> recorded led1 (withdrawal_key (w_id w) ''reserve'')" using money new(1) by (auto simp: sends_money_ok_def)
  have look: "lookup w_id k (ws @ [w]) = (if k = w_id w then Some w else lookup w_id k ws)" for k
    using new(1) by (auto simp: lookup_append split: option.splits)
  have "sends_money_ok led' (ws @ [w]) as os"
    by (rule sends_money_post [OF money post fresh]) (use new in \<open>auto simp: look pending_due_def released_def split: option.splits\<close>)
  moreover have "w_paid_event w = None" using new(2,3) by (simp add: withdrawal_row_ok_def)
  ultimately show "sends_ok led' (ws @ [w]) as os"
    using ok withdrawal_rows_insert [OF _ new(1,2) _ only] attempts_insert_withdrawal [OF _ new(1)] by (simp add: sends_ok_def)
  show "ledger_by withdrawal_journals payment_accounts led led'"
    by (rule by_post [OF ledger_by_opened [OF acc] post]) auto
qed

lemma sends_ok_row: "sends_ok led ws as os \<Longrightarrow> lookup w_id i ws = Some w \<Longrightarrow> withdrawal_row_ok w \<and> w_id w = i"
  using lookup_SomeD [of w_id i ws w] by (simp add: sends_ok_def withdrawal_rows_ok_def)

lemma sends_ok_release:
  assumes ok: "sends_ok led ws as os" and i: "lookup w_id i ws = Some w" and st: "w_state w = WRequested \<or> w_state w = WApproved"
    and state: "state = WRejected \<or> state = WCancelled"
    and post: "post env jid (withdrawal_key i ''release'') kind [(pending i, - w_amount w), (source_account w, w_amount w)] details None led = Inr (j, led')"
  shows "sends_ok led' (modify w_id i (\<lambda>w. w\<lparr>w_state := state\<rparr>) ws) as os" and "ledger_by withdrawal_journals payment_accounts led led'"
    and "balance led' (source_account w) = balance led (source_account w) + w_amount w" and "balance led' (pending i) = 0"
proof -
  let ?f = "\<lambda>w. w\<lparr>w_state := state\<rparr>"
  have money: "sends_money_ok led ws as os" using ok by (simp add: sends_ok_def)
  have fresh: "\<not> recorded led (withdrawal_key i ''release'')"
  proof
    assume "recorded led (withdrawal_key i ''release'')"
    then have "released (lookup w_id i ws)" using money by (simp add: sends_money_ok_def)
    with i st show False by (auto simp: released_def)
  qed
  have look: "lookup w_id k (modify w_id i ?f ws) = (if k = i then Some (?f w) else lookup w_id k ws)" for k
    using i by (simp add: lookup_modify)
  have "sends_money_ok led' (modify w_id i ?f ws) as os"
    by (rule sends_money_post [OF money post fresh]) (use i st state in \<open>auto simp: look pending_due_def released_def\<close>)
  moreover have "withdrawal_rows_ok (modify w_id i ?f ws)"
  proof (rule withdrawal_rows_modify)
    show "withdrawal_row_ok (?f w)" using sends_ok_row [OF ok i] st state by (auto simp: withdrawal_row_ok_def)
    show "v = w" if "w_paid_event (?f w) \<noteq> None" for v
      using sends_ok_row [OF ok i] st that by (auto simp: withdrawal_row_ok_def)
  qed (use ok i st state in \<open>auto simp: sends_ok_def\<close>)
  moreover have "attempts_ok (modify w_id i ?f ws) as os"
    by (rule attempts_modify_withdrawal [OF _ i]) (use ok st in \<open>auto simp: sends_ok_def\<close>)
  ultimately show "sends_ok led' (modify w_id i ?f ws) as os" by (simp add: sends_ok_def)
  show "ledger_by withdrawal_journals payment_accounts led led'" by (rule ledger_by_posted [OF post]) auto
  have bal: "balance led' k = balance led k + amount_of [(pending i, - w_amount w), (source_account w, w_amount w)] k" for k
    by (rule post_balance [OF post]) (use fresh in \<open>simp add: recorded_def\<close>)
  show "balance led' (source_account w) = balance led (source_account w) + w_amount w" by (simp add: bal)
  have "balance led (pending i) = w_amount w" using money i st by (auto simp: sends_money_ok_def pending_due_def)
  then show "balance led' (pending i) = 0" by (simp add: bal)
qed

lemma sends_ok_approve:
  assumes ok: "sends_ok led ws as os" and i: "lookup w_id i ws = Some w" and st: "w_state w = WRequested"
  shows "sends_ok led (modify w_id i (\<lambda>w. w\<lparr>w_state := WApproved\<rparr>) ws) as os"
proof -
  let ?f = "\<lambda>w. w\<lparr>w_state := WApproved\<rparr>"
  have look: "lookup w_id k (modify w_id i ?f ws) = (if k = i then Some (?f w) else lookup w_id k ws)" for k
    using i by (simp add: lookup_modify)
  have due: "pending_due (lookup w_id k (modify w_id i ?f ws)) = pending_due (lookup w_id k ws)"
    "released (lookup w_id k (modify w_id i ?f ws)) = released (lookup w_id k ws)"
    "lookup w_id k (modify w_id i ?f ws) \<noteq> None \<longleftrightarrow> lookup w_id k ws \<noteq> None" for k
    using i st by (auto simp: look pending_due_def released_def)
  have "sends_money_ok led (modify w_id i ?f ws) as os"
    using ok unfolding sends_ok_def sends_money_ok_def due by blast
  moreover have "withdrawal_rows_ok (modify w_id i ?f ws)"
  proof (rule withdrawal_rows_modify)
    show "withdrawal_row_ok (?f w)" using sends_ok_row [OF ok i] st by (auto simp: withdrawal_row_ok_def)
    show "v = w" if "w_paid_event (?f w) \<noteq> None" for v
      using sends_ok_row [OF ok i] st that by (auto simp: withdrawal_row_ok_def)
  qed (use ok i st in \<open>auto simp: sends_ok_def\<close>)
  moreover have "attempts_ok (modify w_id i ?f ws) as os"
    by (rule attempts_modify_withdrawal [OF _ i]) (use ok st in \<open>auto simp: sends_ok_def\<close>)
  ultimately show ?thesis by (simp add: sends_ok_def)
qed

lemma sends_ok_begin:
  assumes ok: "sends_ok led ws as os" and i: "lookup w_id i ws = Some w" and st: "w_state w = WApproved"
    and a: "lookup wa_id (wa_id a) as = None" "wa_withdrawal_id a = i" "1 \<le> wa_fee_limit a"
    and acc: "account (gas_hold (wa_id a)) kind0 as0 loc led = Inr (k0, led1)"
    and post: "post env jid (attempt_key (wa_id a) ''gas'') kind [(operator_native, - wa_fee_limit a), (gas_hold (wa_id a), wa_fee_limit a)] details None led1 = Inr (j, led')"
  shows "sends_ok led' (modify w_id i (\<lambda>w. w\<lparr>w_state := WUncertain\<rparr>) ws) (as @ [a]) os"
    and "ledger_by withdrawal_journals payment_accounts led led'"
proof -
  let ?f = "\<lambda>w. w\<lparr>w_state := WUncertain\<rparr>"
  have money: "sends_money_ok led1 ws as os" using ok sends_money_account [OF _ acc] by (simp add: sends_ok_def)
  have none: "lookup wo_attempt_id (wa_id a) os = None"
    using ok a(1) by (cases "lookup wo_attempt_id (wa_id a) os") (auto simp: sends_ok_def attempts_ok_def)
  have fresh: "\<not> recorded led1 (attempt_key (wa_id a) ''gas'')" using money a(1) by (auto simp: sends_money_ok_def)
  have look: "lookup w_id k (modify w_id i ?f ws) = (if k = i then Some (?f w) else lookup w_id k ws)" for k
    using i by (simp add: lookup_modify)
  have att: "lookup wa_id k (as @ [a]) = (if k = wa_id a then Some a else lookup wa_id k as)" for k
    using a(1) by (auto simp: lookup_append split: option.splits)
  have "sends_money_ok led' (modify w_id i ?f ws) (as @ [a]) os"
    by (rule sends_money_post [OF money post fresh])
      (use i st a none in \<open>auto simp: look att pending_due_def released_def gas_due_def\<close>)
  moreover have "withdrawal_rows_ok (modify w_id i ?f ws)"
  proof (rule withdrawal_rows_modify)
    show "withdrawal_row_ok (?f w)" using sends_ok_row [OF ok i] st by (auto simp: withdrawal_row_ok_def)
    show "v = w" if "w_paid_event (?f w) \<noteq> None" for v
      using sends_ok_row [OF ok i] st that by (auto simp: withdrawal_row_ok_def)
  qed (use ok i st in \<open>auto simp: sends_ok_def\<close>)
  moreover have "attempts_ok (modify w_id i ?f ws) (as @ [a]) os"
    by (rule attempts_begin [OF _ i]) (use ok st a in \<open>auto simp: sends_ok_def\<close>)
  ultimately show "sends_ok led' (modify w_id i ?f ws) (as @ [a]) os" by (simp add: sends_ok_def)
  show "ledger_by withdrawal_journals payment_accounts led led'"
    by (rule by_post [OF ledger_by_opened [OF acc] post]) auto
qed

lemma sends_ok_finish:
  assumes ok: "sends_ok led ws as os" and i: "lookup w_id i ws = Some w" and st: "w_state w = WUncertain"
    and a: "lookup wa_id (wo_attempt_id out) as = Some a" "lookup wo_attempt_id (wo_attempt_id out) os = None" "wa_withdrawal_id a = i"
    and post: "post env jid (attempt_key (wo_attempt_id out) ''reconcile'') kind mv details None led = Inr (j, led')"
    and mv: "\<And>k. amount_of mv (pending k) = (if k = i \<and> outcome = OPaid then - w_amount w else 0)"
      "\<And>k. amount_of mv (gas_hold k) = (if k = wo_attempt_id out then - wa_fee_limit a else 0)"
    and ev: "outcome = OPaid \<Longrightarrow> ev \<noteq> None \<and> \<not> (\<exists>v \<in> set ws. w_paid_event v = ev)"
  shows "sends_ok led' (modify w_id i (finish outcome ev) ws) as (os @ [out])"
    and "balance led' k = balance led k + amount_of mv k"
proof -
  let ?f = "finish outcome ev"
  have money: "sends_money_ok led ws as os" using ok by (simp add: sends_ok_def)
  have fresh: "\<not> recorded led (attempt_key (wo_attempt_id out) ''reconcile'')"
  proof
    assume "recorded led (attempt_key (wo_attempt_id out) ''reconcile'')"
    then have "lookup wo_attempt_id (wo_attempt_id out) os \<noteq> None" using money unfolding sends_money_ok_def by blast
    with a(2) show False by simp
  qed
  have look: "lookup w_id k (modify w_id i ?f ws) = (if k = i then Some (?f w) else lookup w_id k ws)" for k
    using i by (simp add: lookup_modify)
  have out: "lookup wo_attempt_id k (os @ [out]) = (if k = wo_attempt_id out then Some out else lookup wo_attempt_id k os)" for k
    using a(2) by (auto simp: lookup_append split: option.splits)
  have f: "withdrawal_pending (w_state (?f w)) \<longleftrightarrow> outcome \<noteq> OPaid" "w_amount (?f w) = w_amount w" "w_kind (?f w) = w_kind w"
    "w_operator_reserve (?f w) = w_operator_reserve w" "\<not> released (Some (?f w))" "w_state (?f w) = (if outcome = OPaid then WPaid else WApproved)"
    "w_paid_event (?f w) = (if outcome = OPaid then ev else w_paid_event w)"
    by (auto simp: finish_def released_def)
  have row: "withdrawal_row_ok w" using sends_ok_row [OF ok i] by simp
  then have unpaid_w: "w_paid_event w = None" using st by (simp add: withdrawal_row_ok_def)
  have "sends_money_ok led' (modify w_id i ?f ws) as (os @ [out])"
  proof (rule sends_money_post [OF money post fresh])
    fix k
    show "pending_due (lookup w_id k (modify w_id i ?f ws)) = pending_due (lookup w_id k ws) + amount_of mv (pending k)"
      using i st mv(1) [of k] by (auto simp: look pending_due_def finish_def)
    show "gas_due (lookup wa_id k as) (lookup wo_attempt_id k (os @ [out])) = gas_due (lookup wa_id k as) (lookup wo_attempt_id k os) + amount_of mv (gas_hold k)"
      using a mv(2) [of k] by (simp add: out gas_due_def)
    have "released (lookup w_id k ws) \<Longrightarrow> k \<noteq> i" using i st by (auto simp: released_def)
    then show "(lookup w_id k ws \<noteq> None \<or> attempt_key (wo_attempt_id out) ''reconcile'' = withdrawal_key k ''reserve'' \<longrightarrow>
            lookup w_id k (modify w_id i ?f ws) \<noteq> None) \<and>
        (released (lookup w_id k ws) \<or> attempt_key (wo_attempt_id out) ''reconcile'' = withdrawal_key k ''release'' \<longrightarrow>
            released (lookup w_id k (modify w_id i ?f ws))) \<and>
        (lookup wa_id k as \<noteq> None \<or> attempt_key (wo_attempt_id out) ''reconcile'' = attempt_key k ''gas'' \<longrightarrow> lookup wa_id k as \<noteq> None) \<and>
        (lookup wo_attempt_id k os \<noteq> None \<or> attempt_key (wo_attempt_id out) ''reconcile'' = attempt_key k ''reconcile'' \<longrightarrow>
            lookup wo_attempt_id k (os @ [out]) \<noteq> None)"
      by (simp add: look out)
  qed
  moreover have "withdrawal_rows_ok (modify w_id i ?f ws)"
  proof (rule withdrawal_rows_modify)
    show "withdrawal_row_ok (?f w)" using row st ev unpaid_w by (auto simp: withdrawal_row_ok_def f)
    show "v = w" if "v \<in> set ws" "w_paid_event (?f w) \<noteq> None" "w_paid_event v = w_paid_event (?f w)" for v
      using that ev unpaid_w by (auto simp: f split: if_splits)
  qed (use ok i st in \<open>auto simp: sends_ok_def\<close>)
  moreover have "attempts_ok (modify w_id i ?f ws) as (os @ [out])"
    by (rule attempts_outcome [OF _ i]) (use ok a in \<open>auto simp: sends_ok_def unresolved_def\<close>)
  ultimately show "sends_ok led' (modify w_id i ?f ws) as (os @ [out])" by (simp add: sends_ok_def)
  show "balance led' k = balance led k + amount_of mv k"
    by (rule post_balance [OF post]) (use fresh in \<open>simp add: recorded_def\<close>)
qed

text \<open>Each operation, with what it may change.\<close>

abbreviation withdrawal_step :: "pool \<Rightarrow> pool \<Rightarrow> bool" where
  "withdrawal_step \<equiv> pool_by withdrawal_journals payment_accounts"

lemma request_ok:
  assumes ok: "withdrawals_ok p" and run: "request env new_id jid m key n p = Inr (w, p')"
  shows "withdrawals_ok p'" and "withdrawal_step p p'"
proof -
  from run have "withdrawals_ok p' \<and> withdrawal_step p p'"
  proof (cases rule: request_cases)
    case old
    with ok show ?thesis by simp
  next
    case (new member led)
    have row: "withdrawal_row_ok w" "w_state w = WRequested" "lookup w_id (w_id w) (withdrawals p) = None" "w_member_id w = Some m"
      using new(1,5) by (simp_all add: new(3) withdrawal_row_ok_def)
    note S = sends_ok_open [OF ok [unfolded withdrawals_ok_def] new(6) row(3,1,2)]
    have "sends_ok led (withdrawals p @ [w]) (withdrawal_attempts p) (withdrawal_attempt_outcomes p)"
      by (rule S(1)) (use new(4) row(4) in auto)
    moreover have "ledger_by withdrawal_journals payment_accounts (ledger p) led"
      by (rule S(2)) (use new(4) row(4) in auto)
    ultimately show ?thesis unfolding new(7) withdrawals_ok_def pool_by_def by simp
  qed
  then show "withdrawals_ok p'" "withdrawal_step p p'" by simp_all
qed

lemma request_operator_ok:
  assumes ok: "withdrawals_ok p" and run: "request_operator env new_id jid key n net recipient retain actor reason p = Inr (w, p')"
  shows "withdrawals_ok p'" and "withdrawal_step p p'"
proof -
  from run have "withdrawals_ok p' \<and> withdrawal_step p p'"
  proof (cases rule: request_operator_cases)
    case (old q)
    have q: "withdrawals_ok q" "withdrawal_step p q" using ok pool_by_bind [OF old(1)] by (simp_all add: withdrawals_ok_def bind_cases(1) [OF old(1)])
    have "withdrawals_ok p'" by (rule withdrawals_ok_same [OF q(1)]) (subst old(2), simp)+
    moreover have "withdrawal_step q p'" unfolding pool_by_def by (subst old(2), simp add: by_nothing)+
    ultimately show ?thesis using q(2) pool_by_trans by blast
  next
    case (new wallet q led)
    have row: "withdrawal_row_ok w" "w_state w = WRequested" "lookup w_id (w_id w) (withdrawals p) = None" "w_member_id w = None"
      using new(2,8) by (simp_all add: new(6) withdrawal_row_ok_def)
    have kinds: "v \<in> set (withdrawals p) \<Longrightarrow> w_member_id v = None \<Longrightarrow> w_kind v = OperatorWithdrawal" for v
    proof -
      assume v: "v \<in> set (withdrawals p)" "w_member_id v = None"
      then have "lookup w_id (w_id v) (withdrawals p) = Some v"
        using ok lookup_Some_iff [of w_id "withdrawals p" "w_id v" v] by (simp add: withdrawals_ok_def sends_ok_def withdrawal_rows_ok_def)
      with v ok show "w_kind v = OperatorWithdrawal" using sends_ok_row by (auto simp: withdrawals_ok_def withdrawal_row_ok_def)
    qed
    note S = sends_ok_open [OF ok [unfolded withdrawals_ok_def] new(10) row(3,1,2)]
    have only: "w_member_id v \<noteq> w_member_id w" if "v \<in> set (withdrawals p)" "withdrawal_pending (w_state v)" for v
      using new(7) kinds [OF that(1)] that row(4) by auto
    have "sends_ok led (withdrawals p @ [w]) (withdrawal_attempts p) (withdrawal_attempt_outcomes p)"
      and led: "ledger_by withdrawal_journals payment_accounts (ledger p) led"
      by (rule S; use only in blast)+
    then have "withdrawals_ok p'" unfolding withdrawals_ok_def by (subst (1 2 3 4) new(11)) (simp add: bind_cases(1) [OF new(1)])
    moreover have "withdrawal_step p p'"
      using led unfolding pool_by_def by (subst new(11), simp add: bind_cases(1) [OF new(1)])+
    ultimately show ?thesis by simp
  qed
  then show "withdrawals_ok p'" "withdrawal_step p p'" by simp_all
qed

lemma approve_ok:
  assumes ok: "withdrawals_ok p" and run: "approve i net fee_model actor evidence p = Inr (r, p')"
  shows "withdrawals_ok p'" and "withdrawal_step p p'"
proof -
  from run have "withdrawals_ok p' \<and> withdrawal_step p p'"
  proof (cases rule: approve_cases)
    case old
    with ok show ?thesis using pool_by_bind [OF old(1)] by (simp add: withdrawals_ok_def bind_cases(1) [OF old(1)])
  next
    case (new q w)
    have "withdrawals_ok p'"
      using sends_ok_approve [OF ok [unfolded withdrawals_ok_def] new(2,3)] by (simp add: withdrawals_ok_def new(8) bind_cases(1) [OF new(1)])
    moreover have "withdrawal_step q p'" by (simp add: new(8) pool_by_def by_nothing)
    ultimately show ?thesis using pool_by_trans [OF pool_by_bind [OF new(1)]] by blast
  qed
  then show "withdrawals_ok p'" "withdrawal_step p p'" by simp_all
qed

lemma release_ok:
  assumes ok: "withdrawals_ok p" and run: "release env jid i actor reason ek m p = Inr (w', p')"
  shows "withdrawals_ok p'" and "withdrawal_step p p'"
proof -
  from run have "withdrawals_ok p' \<and> withdrawal_step p p'"
  proof (cases rule: release_cases)
    case old
    have "withdrawals_ok p'" by (rule withdrawals_ok_same [OF ok]) (subst old(1), simp)+
    moreover have "withdrawal_step p p'" unfolding pool_by_def by (subst old(1), simp add: by_nothing)+
    ultimately show ?thesis ..
  next
    case (new w j led)
    let ?state = "if blank m then WRejected else WCancelled"
    have st: "?state = WRejected \<or> ?state = WCancelled" by simp
    note S = sends_ok_release [OF ok [unfolded withdrawals_ok_def] new(1,2) st new(5)]
    have "withdrawals_ok p'" using S(1) unfolding withdrawals_ok_def by (subst (1 2 3 4) new(6)) simp
    moreover have "withdrawal_step p p'" using S(2) unfolding pool_by_def by (subst new(6), simp)+
    ultimately show ?thesis ..
  qed
  then show "withdrawals_ok p'" "withdrawal_step p p'" by simp_all
qed

lemma begin_attempt_ok:
  assumes ok: "withdrawals_ok p" and run: "begin_attempt env new_id jid i key pre limit actor retain p = Inr (a, p')"
  shows "withdrawals_ok p'" and "withdrawal_step p p'"
proof -
  from run have "withdrawals_ok p' \<and> withdrawal_step p p'"
  proof (cases rule: begin_attempt_cases)
    case old
    with ok show ?thesis using pool_by_bind [OF old(1)] by (simp add: withdrawals_ok_def bind_cases(1) [OF old(1)])
  next
    case (new q w review)
    let ?a = "new_attempt env new_id i key pre limit actor review"
    have a: "wa_withdrawal_id ?a = i" "wa_fee_limit ?a = limit" "wa_id ?a = new_id" by (simp_all add: new_attempt_def)
    have same: "ledger q = ledger p" "withdrawals q = withdrawals p" "withdrawal_attempts q = withdrawal_attempts p"
      "withdrawal_attempt_outcomes q = withdrawal_attempt_outcomes p" by (simp_all add: bind_cases(1) [OF new(1)])
    from new(5) show ?thesis
    proof (cases rule: open_attempt_cases)
      case (1 led1 led j k)
      note S = sends_ok_begin [OF ok [unfolded withdrawals_ok_def] new(2) send_guards_Inr(1) [OF new(4)], of ?a, OF 1(2) [unfolded same] a(1) _ 1(3,4) [unfolded same]]
      have "sends_ok led (modify w_id i (\<lambda>w. w\<lparr>w_state := WUncertain\<rparr>) (withdrawals p)) (withdrawal_attempts p @ [?a]) (withdrawal_attempt_outcomes p)"
        and led: "ledger_by withdrawal_journals payment_accounts (ledger q) led"
        using new(3) by (auto simp: a same intro!: S)
      then have "withdrawals_ok p'" unfolding withdrawals_ok_def by (subst (1 2 3 4) 1(6)) (simp add: same a 1(1))
      moreover have "withdrawal_step q p'" using led unfolding pool_by_def by (subst 1(6), simp)+
      ultimately show ?thesis using pool_by_trans [OF pool_by_bind [OF new(1)]] by blast
    qed
  qed
  then show "withdrawals_ok p'" "withdrawal_step p p'" by simp_all
qed

lemma finished_ok:
  assumes ok: "withdrawals_ok p" and fin: "finished env jid i details mv w outcome ev fee t p out p'"
    and a: "lookup wa_id i (withdrawal_attempts p) = Some a" "lookup w_id (wa_withdrawal_id a) (withdrawals p) = Some w"
    and st: "w_state w = WUncertain"
    and mv: "\<And>k. amount_of mv (pending k) = (if k = w_id w \<and> outcome = OPaid then - w_amount w else 0)"
      "\<And>k. amount_of mv (gas_hold k) = (if k = i then - wa_fee_limit a else 0)" "\<And>x. x \<in> fst ` set mv \<Longrightarrow> payment_accounts x"
    and ev: "outcome = OPaid \<Longrightarrow> ev \<noteq> None \<and> \<not> (\<exists>v \<in> set (withdrawals p). w_paid_event v = ev)"
  shows "withdrawals_ok p'" and "withdrawal_step p p'" and "balance (ledger p') k = balance (ledger p) k + amount_of mv k"
    and "lookup w_id (w_id w) (withdrawals p') = Some (finish outcome ev w)"
proof -
  obtain j led where post: "post env jid (attempt_key i ''reconcile'') (''withdrawal_'' @ send_outcome_text outcome) mv details None (ledger p) = Inr (j, led)"
    and out: "out = outcome_row i t outcome fee j" "lookup wo_attempt_id i (withdrawal_attempt_outcomes p) = None"
    and members: "same_members p p'"
    and p': "p' = p\<lparr>ledger := led, custody_payments := custody_payments p', custody_authorization_payments := custody_authorization_payments p',
       withdrawals := modify w_id (w_id w) (finish outcome ev) (withdrawals p), members := members p',
       withdrawal_attempt_outcomes := withdrawal_attempt_outcomes p @ [out]\<rparr>"
    using fin unfolding finished_def by blast
  have id: "wo_attempt_id out = i" by (simp add: out(1) outcome_row_def)
  have wi: "wa_withdrawal_id a = w_id w" using lookup_SomeD [OF a(2)] by simp
  note S = sends_ok_finish [OF ok [unfolded withdrawals_ok_def], of "w_id w" w out a, unfolded id, OF a(2) [unfolded wi] st a(1) out(2) wi post mv(1,2) ev]
  have led: "ledger p' = led" by (subst p') simp
  show "withdrawals_ok p'" using S(1) unfolding withdrawals_ok_def by (subst (1 2 3 4) p') simp
  show "balance (ledger p') k = balance (ledger p) k + amount_of mv k" using S(2) by (simp add: led)
  have step: "ledger_by withdrawal_journals payment_accounts (ledger p) (ledger p')"
    unfolding led by (rule ledger_by_posted [OF post]) (use mv(3) in auto)
  show "withdrawal_step p p'" using step members unfolding pool_by_def by (subst (2 3 4 5) p') simp
  have "lookup w_id (w_id w) (modify w_id (w_id w) (finish outcome ev) (withdrawals p)) = Some (finish outcome ev w)"
    using a(2) wi by (simp add: lookup_modify)
  then show "lookup w_id (w_id w) (withdrawals p') = Some (finish outcome ev w)" by (subst p') simp
qed

lemma settle_amounts:
  "amount_of (settle_movements i a w outcome fee) (pending k) = (if k = w_id w \<and> outcome = OPaid then - w_amount w else 0)"
  "amount_of (settle_movements i a w outcome fee) (gas_hold k) = (if k = i then - wa_fee_limit a else 0)"
  "amount_of (sponsored_movements i a w) (pending k) = (if k = w_id w then - w_amount w else 0)"
  "amount_of (sponsored_movements i a w) (gas_hold k) = (if k = i then - wa_fee_limit a else 0)"
  "x \<in> fst ` set (settle_movements i a w outcome fee) \<Longrightarrow> payment_accounts x"
  "x \<in> fst ` set (sponsored_movements i a w) \<Longrightarrow> payment_accounts x"
  by (auto simp: settle_movements_def sponsored_movements_def gas_movements_def payment_movements_def split: if_splits)

lemma withdrawals_ok_save:
  assumes "withdrawals_ok p"
  shows "bind net p = Inr (u, q) \<Longrightarrow> withdrawals_ok q"
    and "save_transfer tf p = Inr (new, q) \<Longrightarrow> withdrawals_ok q"
    and "save_transaction t p = Inr (new, q) \<Longrightarrow> withdrawals_ok q"
proof -
  assume n: "bind net p = Inr (u, q)"
  show "withdrawals_ok q" by (rule withdrawals_ok_same [OF assms]) (simp_all add: bind_cases(1) [OF n])
next
  assume t: "save_transfer tf p = Inr (new, q)"
  show "withdrawals_ok q" by (rule withdrawals_ok_same [OF assms]) (subst save_transfer_effect(3) [OF t], simp)+
next
  assume t: "save_transaction t p = Inr (new, q)"
  show "withdrawals_ok q" by (rule withdrawals_ok_same [OF assms]) (subst save_transaction_frame [OF t], simp)+
qed

text \<open>Recording chain facts leaves the tables of withdrawals as they are.\<close>

lemma save_keeps:
  "bind net p = Inr (u, q) \<Longrightarrow> withdrawals q = withdrawals p \<and> withdrawal_attempts q = withdrawal_attempts p"
  "save_transfer tf p = Inr (new, q) \<Longrightarrow> withdrawals q = withdrawals p \<and> withdrawal_attempts q = withdrawal_attempts p"
  "save_transaction t p = Inr (new, q) \<Longrightarrow> withdrawals q = withdrawals p \<and> withdrawal_attempts q = withdrawal_attempts p"
proof -
  assume n: "bind net p = Inr (u, q)"
  show "withdrawals q = withdrawals p \<and> withdrawal_attempts q = withdrawal_attempts p" by (simp add: bind_cases(1) [OF n])
next
  assume t: "save_transfer tf p = Inr (new, q)"
  show "withdrawals q = withdrawals p \<and> withdrawal_attempts q = withdrawal_attempts p"
    by (subst (1 2) save_transfer_effect(3) [OF t]) simp
next
  assume t: "save_transaction t p = Inr (new, q)"
  show "withdrawals q = withdrawals p \<and> withdrawal_attempts q = withdrawal_attempts p"
    by (subst (1 2) save_transaction_frame [OF t]) simp
qed

text \<open>A settled attempt: the transfer is recorded and the money has moved, or nothing moved at all.\<close>

lemma settle_attempt_ok:
  assumes ok: "withdrawals_ok p" and run: "settle_attempt env jid i t transfer p = Inr (out, p')"
  shows "withdrawals_ok p'" and "withdrawal_step p p'"
proof -
  from run have "withdrawals_ok p' \<and> withdrawal_step p p'"
  proof (cases rule: settle_attempt_cases)
    case (old q a w)
    have q: "withdrawals_ok q" "withdrawal_step p q" using withdrawals_ok_save(1) [OF ok old(1)] pool_by_bind [OF old(1)] by simp_all
    show ?thesis
    proof (cases transfer)
      case None
      with old(7) q show ?thesis by simp
    next
      case (Some tf)
      then obtain new where "save_transfer tf q = Inr (new, p')" using old(7) by auto
      with q show ?thesis using withdrawals_ok_save(2) pool_by_save_transfer pool_by_trans by blast
    qed
  next
    case (new q a w review r outcome)
    have q: "withdrawals_ok q" "withdrawal_step p q" using withdrawals_ok_save(1) [OF ok new(1)] pool_by_bind [OF new(1)] by simp_all
    have same: "withdrawals q = withdrawals p" "withdrawal_attempts q = withdrawal_attempts p" by (simp_all add: bind_cases(1) [OF new(1)])
    have r: "withdrawals_ok r \<and> withdrawal_step q r \<and> withdrawals r = withdrawals p \<and> withdrawal_attempts r = withdrawal_attempts p \<and>
        (outcome = OPaid \<longrightarrow> map_option event_id transfer \<noteq> None \<and> \<not> (\<exists>v \<in> set (withdrawals p). w_paid_event v = map_option event_id transfer))"
      using new(8)
    proof (cases rule: send_result_cases)
      case (paid tf n)
      have "withdrawals r = withdrawals q" "withdrawal_attempts r = withdrawal_attempts q"
        by (subst save_transfer_effect(3) [OF paid(5)], simp)+
      with paid same show ?thesis using withdrawals_ok_save(2) [OF q(1) paid(5)] pool_by_save_transfer [OF paid(5)] by simp
    qed (use q same in simp_all)
    have fin: "finished env jid i (settle_details i t w (map_option event_id transfer)) (settle_movements i a w outcome (tx_fee t)) w outcome
       (map_option event_id transfer) (tx_fee t) t r out p'"
      by (rule record_send_finished [OF new(9)]) (use r in auto)
    have "withdrawals_ok p' \<and> withdrawal_step r p'"
      using finished_ok(1,2) [OF _ fin, of a] r new(2,3,7) settle_amounts by auto
    with q(2) r show ?thesis using pool_by_trans by blast
  qed
  then show "withdrawals_ok p'" "withdrawal_step p p'" by simp_all
qed

lemma keep_evidence_cases:
  assumes "keep_evidence i t transfer p = Inr (u, p')"
  obtains a review new where "lookup wa_id i (withdrawal_attempts p) = Some a"
    "lookup wr_withdrawal_id (wa_withdrawal_id a) (withdrawal_reviews p) = Some review" "save_transaction t p = Inr (new, p')"
    "(net_chain_id (tx_network t), tx_sender t, tx_nonce t, tx_fee_model t) = (wa_chain_id a, wa_sender a, wa_nonce a, wr_fee_model review)"
    "\<not> policy_weakened t transfer review" "wa_sent_at a \<le> tx_block_timestamp t + seconds 5"
proof (cases "lookup wa_id i (withdrawal_attempts p)")
  case None
  with assms show ?thesis by (simp add: keep_evidence_def)
next
  case (Some a)
  show ?thesis
  proof (cases "lookup wr_withdrawal_id (wa_withdrawal_id a) (withdrawal_reviews p)")
    case None
    with Some assms show ?thesis by (simp add: keep_evidence_def split: if_splits)
  next
    case (Some review)
    with \<open>lookup wa_id i _ = Some a\<close> assms show ?thesis
      by (auto simp: keep_evidence_def bindE_Inr intro: that split: if_splits)
  qed
qed

lemma keep_evidence_ok:
  assumes "withdrawals_ok p" and "keep_evidence i t transfer p = Inr (u, p')"
  shows "withdrawals_ok p'" and "withdrawal_step p p'"
  using assms(2) by (auto elim!: keep_evidence_cases dest: withdrawals_ok_save(3) [OF assms(1)] pool_by_save_transaction)

lemma reconcile_ok:
  assumes ok: "withdrawals_ok p" and run: "reconcile env jid i t transfer p = (result, p')"
  shows "withdrawals_ok p'" and "withdrawal_step p p'"
proof -
  have "withdrawals_ok p' \<and> withdrawal_step p p'"
  proof (cases "keep_evidence i t transfer p")
    case (Inl e)
    with run ok show ?thesis by (simp add: reconcile_def commit_def)
  next
    case (Inr x)
    then obtain u q where q: "keep_evidence i t transfer p = Inr (u, q)" by (cases x) auto
    have qok: "withdrawals_ok q" "withdrawal_step p q" using keep_evidence_ok [OF ok q] by simp_all
    show ?thesis
    proof (cases "settle_attempt env jid i t transfer q")
      case (Inl e)
      with run q qok show ?thesis by (simp add: reconcile_def commit_def)
    next
      case (Inr y)
      then obtain out where "settle_attempt env jid i t transfer q = Inr (out, p')"
        using run q by (cases y) (simp add: reconcile_def commit_def)
      from settle_attempt_ok [OF qok(1) this] qok(2) show ?thesis using pool_by_trans by blast
    qed
  qed
  then show "withdrawals_ok p'" "withdrawal_step p p'" by simp_all
qed

lemma reconcile_sponsored_ok:
  assumes ok: "withdrawals_ok p" and run: "reconcile_sponsored env jid i x actor reason p = Inr (out, p')"
  shows "withdrawals_ok p'" and "withdrawal_step p p'"
proof -
  from run have "withdrawals_ok p' \<and> withdrawal_step p p'"
  proof (cases rule: reconcile_sponsored_cases)
    case (old q q' a w)
    then obtain n1 n2 where s: "save_transaction (sw_transaction x) q = Inr (n1, q')" "save_transfer (sw_transfer x) q' = Inr (n2, p')" by blast
    have "withdrawals_ok p'" using withdrawals_ok_save ok old(1) s by blast
    moreover have "withdrawal_step p p'"
      using pool_by_trans [OF pool_by_bind [OF old(1)] pool_by_trans [OF pool_by_save_transaction [OF s(1)] pool_by_save_transfer [OF s(2)]]] .
    ultimately show ?thesis ..
  next
    case (new q q1 q2 a w)
    then obtain n1 n2 where s: "save_transaction (sw_transaction x) q = Inr (n1, q1)" "save_transfer (sw_transfer x) q1 = Inr (n2, q2)" by blast
    have "withdrawals_ok q2" using withdrawals_ok_save ok new(1) s by blast
    moreover have "withdrawal_step p q2"
      using pool_by_trans [OF pool_by_bind [OF new(1)] pool_by_trans [OF pool_by_save_transaction [OF s(1)] pool_by_save_transfer [OF s(2)]]] .
    moreover have "withdrawals q2 = withdrawals p" "withdrawal_attempts q2 = withdrawal_attempts p"
      using save_keeps(1) [OF new(1)] save_keeps(3) [OF s(1)] save_keeps(2) [OF s(2)] by simp_all
    ultimately show ?thesis
      using finished_ok(1,2) [OF _ record_sponsored_finished [OF new(10)], of a] new(2,3,6,9) settle_amounts pool_by_trans by auto
  qed
  then show "withdrawals_ok p'" "withdrawal_step p p'" by simp_all
qed

lemma claim_transaction_ok:
  assumes "withdrawals_ok p" and "claim_transaction i h actor p = Inr (u, p')"
  shows "withdrawals_ok p'" and "withdrawal_step p p'"
proof -
  have p': "p' = p\<lparr>withdrawal_transaction_claims := withdrawal_transaction_claims p'\<rparr>"
    using assms(2) by (auto simp: claim_transaction_def bindE_Inr split: if_splits option.splits)
  show "withdrawals_ok p'" by (rule withdrawals_ok_same [OF assms(1)]) (subst p', simp)+
  show "withdrawal_step p p'" unfolding pool_by_def by (subst p', simp add: by_nothing)+
qed

end
