(* ===== verification/Withdrawal_Properties.thy ===== *)
theory Withdrawal_Properties
  imports Withdrawal_Safety
begin

text \<open>
  The properties of withdrawals over the invariant of \<open>Withdrawal_Safety\<close>: what opening, sending,
  settling and releasing a withdrawal move, that each happens once, that an outcome is final, and
  that the instructions shown to the operator decode to the frozen payment.
\<close>

section \<open>A withdrawal over time\<close>

text \<open>Every operation of the component, as a step on the store.\<close>

inductive withdrawal_op :: "pool \<Rightarrow> pool \<Rightarrow> bool" where
  op_request: "request env new_id jid m key n p = Inr (w, p') \<Longrightarrow> withdrawal_op p p'"
| op_request_operator: "request_operator env new_id jid key n net recipient retain actor reason p = Inr (w, p') \<Longrightarrow> withdrawal_op p p'"
| op_approve: "approve i net fee_model actor evidence p = Inr (r, p') \<Longrightarrow> withdrawal_op p p'"
| op_release: "release env jid i actor reason ek m p = Inr (w, p') \<Longrightarrow> withdrawal_op p p'"
| op_begin: "begin_attempt env new_id jid i key pre limit actor retain p = Inr (a, p') \<Longrightarrow> withdrawal_op p p'"
| op_claim: "claim_transaction i h actor p = Inr (u, p') \<Longrightarrow> withdrawal_op p p'"
| op_reconcile: "reconcile env jid i t transfer p = (result, p') \<Longrightarrow> withdrawal_op p p'"
| op_sponsored: "reconcile_sponsored env jid i x actor reason p = Inr (out, p') \<Longrightarrow> withdrawal_op p p'"

inductive_cases withdrawal_opE: "withdrawal_op p p'"

lemma withdrawal_op_ok:
  assumes "withdrawal_op p p'" and "withdrawals_ok p"
  shows "withdrawals_ok p'" and "withdrawal_step p p'"
  using assms(1)
  by (cases; metis request_ok request_operator_ok approve_ok release_ok begin_attempt_ok claim_transaction_ok reconcile_ok
      reconcile_sponsored_ok assms(2))+

definition final :: "withdrawal_row \<Rightarrow> bool" where
  "final w \<longleftrightarrow> w_state w \<in> {WPaid, WRejected, WCancelled}"

text \<open>The row of a withdrawal that was rejected, cancelled or paid is never touched again.\<close>

lemma modify_keeps: "lookup w_id i ws = Some w \<Longrightarrow> final w \<Longrightarrow> lookup w_id k ws = Some v \<Longrightarrow> \<not> final v \<Longrightarrow>
    (\<And>x. w_id (f x) = w_id x) \<Longrightarrow> lookup w_id i (modify w_id k f ws) = Some w"
  by (auto simp: lookup_modify)

lemma finished_keeps:
  assumes "finished env jid a details mv v outcome ev fee t p out p'" and "lookup w_id i (withdrawals p) = Some w" and "final w"
    and "lookup w_id (w_id v) (withdrawals p) = Some v" and "w_state v = WUncertain"
  shows "lookup w_id i (withdrawals p') = Some w"
proof -
  obtain q where p': "p' = q\<lparr>withdrawals := modify w_id (w_id v) (finish outcome ev) (withdrawals p), members := members p',
       withdrawal_attempt_outcomes := withdrawal_attempt_outcomes p @ [out]\<rparr>"
    using assms(1) unfolding finished_def by blast
  have "lookup w_id i (modify w_id (w_id v) (finish outcome ev) (withdrawals p)) = Some w"
    by (rule modify_keeps [OF assms(2,3,4)]) (use assms(5) in \<open>auto simp: final_def\<close>)
  then show ?thesis by (subst p') simp
qed

lemma settle_keeps:
  assumes "settle_attempt env jid a t transfer p = Inr (out, p')" and "lookup w_id i (withdrawals p) = Some w" and "final w"
  shows "lookup w_id i (withdrawals p') = Some w"
  using assms(1)
proof (cases rule: settle_attempt_cases)
  case (old q b v)
  have "withdrawals q = withdrawals p" using save_keeps(1) [OF old(1)] by simp
  moreover have "withdrawals p' = withdrawals q" using old(7) save_keeps(2) by (cases transfer) auto
  ultimately show ?thesis using assms(2) by simp
next
  case (new q b v review r outcome)
  have "withdrawals r = withdrawals p"
    using new(8) save_keeps(1) [OF new(1)] save_keeps(2) by (cases rule: send_result_cases) auto
  then have look: "lookup w_id i (withdrawals r) = Some w" "lookup w_id (w_id v) (withdrawals r) = Some v"
    using assms(2) new(3) lookup_SomeD [OF new(3)] by simp_all
  have "outcome = OPaid \<Longrightarrow> transfer \<noteq> None" using new(8) by (cases rule: send_result_cases) simp_all
  from record_send_finished [OF new(9) this] look(1) assms(3) look(2) new(7) show ?thesis by (rule finished_keeps)
qed

lemma withdrawal_op_final:
  assumes "withdrawal_op p p'" and i: "lookup w_id i (withdrawals p) = Some w" and fin: "final w"
  shows "lookup w_id i (withdrawals p') = Some w"
  using assms(1)
proof cases
  case (op_request env new_id jid m key n v)
  then show ?thesis by (cases rule: request_cases) (use i in \<open>auto simp: lookup_append\<close>)
next
  case (op_request_operator env new_id jid key n net recipient retain actor reason v)
  then show ?thesis
  proof (cases rule: request_operator_cases)
    case (old q)
    show ?thesis by (subst old(2)) (use i save_keeps(1) [OF old(1)] in simp)
  next
    case (new wallet q led)
    show ?thesis by (subst new(11)) (use i in \<open>simp add: lookup_append\<close>)
  qed
next
  case (op_approve k net fee_model actor evidence r)
  then show ?thesis
  proof (cases rule: approve_cases)
    case old
    with i show ?thesis using save_keeps(1) [OF old(1)] by simp
  next
    case (new q v)
    have "lookup w_id i (modify w_id k (\<lambda>w. w\<lparr>w_state := WApproved\<rparr>) (withdrawals p)) = Some w"
      by (rule modify_keeps [OF i fin new(2)]) (use new(3) in \<open>auto simp: final_def\<close>)
    with new(8) show ?thesis by simp
  qed
next
  case (op_release env jid k actor reason ek m v)
  then show ?thesis
  proof (cases rule: release_cases)
    case old
    show ?thesis by (subst old(1)) (use i in simp)
  next
    case (new v j led)
    have "lookup w_id i (modify w_id k (\<lambda>w. w\<lparr>w_state := if blank m then WRejected else WCancelled\<rparr>) (withdrawals p)) = Some w"
      by (rule modify_keeps [OF i fin new(1)]) (use new(2) in \<open>auto simp: final_def\<close>)
    then show ?thesis by (subst new(6)) simp
  qed
next
  case (op_begin env new_id jid k key pre limit actor retain a)
  then show ?thesis
  proof (cases rule: begin_attempt_cases)
    case old
    with i show ?thesis using save_keeps(1) [OF old(1)] by simp
  next
    case (new q v review)
    let ?a = "new_attempt env new_id k key pre limit actor review"
    have k: "wa_withdrawal_id ?a = k" by (simp add: new_attempt_def)
    have q: "withdrawals q = withdrawals p" using save_keeps(1) [OF new(1)] by simp
    from new(5) show ?thesis
    proof (cases rule: open_attempt_cases)
      case (1 led1 led j x)
      have "lookup w_id i (modify w_id k (\<lambda>w. w\<lparr>w_state := WUncertain\<rparr>) (withdrawals p)) = Some w"
        by (rule modify_keeps [OF i fin new(2)]) (use send_guards_Inr(1) [OF new(4)] in \<open>auto simp: final_def\<close>)
      then show ?thesis by (subst 1(6)) (simp add: q k)
    qed
  qed
next
  case (op_claim k h actor u)
  then have "withdrawals p' = withdrawals p" by (auto simp: claim_transaction_def bindE_Inr split: if_splits option.splits)
  with i show ?thesis by simp
next
  case (op_reconcile env jid a t transfer result)
  show ?thesis
  proof (cases "keep_evidence a t transfer p")
    case (Inl e)
    with op_reconcile i show ?thesis by (simp add: reconcile_def commit_def)
  next
    case (Inr x)
    then obtain u q where q: "keep_evidence a t transfer p = Inr (u, q)" by (cases x) auto
    then have iq: "lookup w_id i (withdrawals q) = Some w" using i save_keeps(3) by (auto elim!: keep_evidence_cases)
    show ?thesis
    proof (cases "settle_attempt env jid a t transfer q")
      case (Inl e)
      with op_reconcile q iq show ?thesis by (simp add: reconcile_def commit_def)
    next
      case (Inr y)
      then obtain out where "settle_attempt env jid a t transfer q = Inr (out, p')"
        using op_reconcile q by (cases y) (simp add: reconcile_def commit_def)
      then show ?thesis by (rule settle_keeps [OF _ iq fin])
    qed
  qed
next
  case (op_sponsored env jid a x actor reason out)
  then show ?thesis
  proof (cases rule: reconcile_sponsored_cases)
    case (old q q' b v)
    then have "withdrawals p' = withdrawals p" using save_keeps by metis
    with i show ?thesis by simp
  next
    case (new q q1 q2 b v)
    then have q2: "withdrawals q2 = withdrawals p" using save_keeps by metis
    from new(3,6) i fin lookup_SomeD [OF new(3)] show ?thesis
      by (intro finished_keeps [OF record_sponsored_finished [OF new(10)]]) (auto simp: q2)
  qed
qed

section \<open>Repeating an operation\<close>

lemma bind_again:
  assumes "bind net p = Inr (u, q)" and "custody_identity q' = custody_identity q" and "protocol_identity q' = protocol_identity q"
  shows "bind net q' = Inr ((), q')"
  using bind_cases(1) [OF assms(1)] bind_cases(2) [OF assms(1)] assms(2,3) by (auto simp: bind_def split: if_splits)

lemma save_transaction_again:
  assumes run: "save_transaction t p = Inr (new, q)" and id: "custody_identity q' = custody_identity q" "protocol_identity q' = protocol_identity q"
    and tx: "chain_transactions q' = chain_transactions q"
  shows "save_transaction t q' = Inr (False, q')"
proof -
  let ?look = "\<lambda>p. lookup (\<lambda>c. (ct_chain_id c, ct_tx_hash c)) (net_chain_id (tx_network t), tx_hash t) (chain_transactions p)"
  have "bind (tx_network t) q' = Inr ((), q') \<and> (\<exists>previous. ?look q' = Some previous \<and> previous\<lparr>ct_evidence := tx_evidence t\<rparr> = transaction_row t)"
    using run
  proof (cases rule: save_transaction_cases)
    case (old previous)
    have "chain_transactions q = chain_transactions p" using bind_cases(1) [OF old(4)] by simp
    with old(1,3) bind_again [OF old(4) id] show ?thesis by (simp add: tx)
  next
    case (new r)
    have "custody_identity q' = custody_identity r" "protocol_identity q' = protocol_identity r" using id new(4) by simp_all
    with new(1) bind_again [OF new(3)] show ?thesis by (simp add: tx new(4) lookup_append transaction_row_def)
  qed
  then show ?thesis by (auto simp: save_transaction_def transaction_row_def)
qed

text \<open>A finished send replays: nothing changes and the recorded outcome is returned.\<close>

lemma reconcile_again:
  assumes evidence: "keep_evidence i t transfer p = Inr (u, q)" and run: "settle_attempt env jid i t transfer q = Inr (out, p')"
    and new: "lookup wo_attempt_id i (withdrawal_attempt_outcomes q) = None"
  shows "reconcile env' jid' i t transfer p' = (Inr out, p')"
  using run
proof (cases rule: settle_attempt_cases)
  case (old q1 a w)
  with new show ?thesis by simp
next
  case (new q1 a w review r outcome)
  note b = bind_cases(1) [OF new(1)]
  have r: "r = q1\<lparr>custody_identity := custody_identity r, transfers := transfers r\<rparr> \<and>
      (\<forall>tf. transfer = Some tf \<longrightarrow> save_transfer tf r = Inr (False, r)) \<and> (outcome = OPaid \<longleftrightarrow> transfer \<noteq> None) \<and>
      custody_identity r = custody_identity q1"
    using new(8)
  proof (cases rule: send_result_cases)
    case (paid tf n)
    have "custody_identity r = custody_identity q1"
      using paid(5)
    proof (cases rule: save_transfer_cases)
      case (old previous)
      with paid(4) new(5) bind_cases(1) [OF old(4)] b show ?thesis
        by (auto simp: bind_def split: if_splits)
    next
      case (new s)
      then show ?thesis using bind_cases(1) [OF new(3)] b by (auto simp: bind_def split: if_splits)
    qed
    with paid(2,3) save_transfer_effect(2,3) [OF paid(5)] show ?thesis by simp
  qed simp_all
  have fin: "finished env jid i (settle_details i t w (map_option event_id transfer)) (settle_movements i a w outcome (tx_fee t)) w outcome
       (map_option event_id transfer) (tx_fee t) t r out p'"
    by (rule record_send_finished [OF new(9)]) (use r in auto)
  then obtain j led where out: "out = outcome_row i t outcome (tx_fee t) j" and none: "lookup wo_attempt_id i (withdrawal_attempt_outcomes r) = None"
    and members: "same_members r p'"
    and p': "p' = r\<lparr>ledger := led, custody_payments := custody_payments p', custody_authorization_payments := custody_authorization_payments p',
       withdrawals := modify w_id (w_id w) (finish outcome (map_option event_id transfer)) (withdrawals r), members := members p',
       withdrawal_attempt_outcomes := withdrawal_attempt_outcomes r @ [out]\<rparr>"
    unfolding finished_def by blast
  from r have r_eq: "r = q1\<lparr>custody_identity := custody_identity r, transfers := transfers r\<rparr>"
    and r_tf: "\<And>tf. transfer = Some tf \<Longrightarrow> save_transfer tf r = Inr (False, r)" and r_paid: "outcome = OPaid \<longleftrightarrow> transfer \<noteq> None"
    and r_id: "custody_identity r = custody_identity q1" by blast+
  have q1: "withdrawal_attempts q1 = withdrawal_attempts q" "withdrawal_reviews q1 = withdrawal_reviews q" "chain_transactions q1 = chain_transactions q"
    "withdrawal_attempt_outcomes q1 = withdrawal_attempt_outcomes q" "withdrawals q1 = withdrawals q" "members q1 = members q"
    "protocol_identity q1 = protocol_identity q" by (simp_all add: b)
  have rq: "withdrawal_attempts r = withdrawal_attempts q1" "withdrawal_reviews r = withdrawal_reviews q1" "chain_transactions r = chain_transactions q1"
    "withdrawal_attempt_outcomes r = withdrawal_attempt_outcomes q1" "withdrawals r = withdrawals q1" "members r = members q1"
    "protocol_identity r = protocol_identity q1" by (subst r_eq, simp)+
  have pr: "withdrawal_attempts p' = withdrawal_attempts r" "withdrawal_reviews p' = withdrawal_reviews r" "chain_transactions p' = chain_transactions r"
    "withdrawal_attempt_outcomes p' = withdrawal_attempt_outcomes r @ [out]" "custody_identity p' = custody_identity r"
    "protocol_identity p' = protocol_identity r" "transfers p' = transfers r"
    "withdrawals p' = modify w_id (w_id w) (finish outcome (map_option event_id transfer)) (withdrawals r)" by (subst p', simp)+
  have wid: "wa_withdrawal_id a = w_id w" using lookup_SomeD [OF new(3)] by simp
  have w': "lookup w_id (wa_withdrawal_id a) (withdrawals p') = Some (finish outcome (map_option event_id transfer) w)"
    using new(3) by (simp add: pr(8) rq q1 lookup_modify wid)
  have o': "lookup wo_attempt_id i (withdrawal_attempt_outcomes p') = Some out"
    using none by (simp add: pr(4) lookup_append out outcome_row_def)
  have bound: "bind (tx_network t) p' = Inr ((), p')"
    by (rule bind_again [OF new(1)]) (simp_all add: pr rq r_id)
  have locked': "withdrawal_locked (wa_withdrawal_id a) p' = Inr (finish outcome (map_option event_id transfer) w)"
  proof (cases "w_member_id w")
    case None
    with w' show ?thesis by (simp add: withdrawal_locked_def)
  next
    case (Some m)
    have "m \<in> m_id ` set (members q)"
      using run unfolding settle_attempt_def new(1) bindE_simps prod.case q1 new(2) option.case
      by (auto simp: bindE_Inr withdrawal_locked_def new(3) q1 Some member_lock_Inr dest: lookup_SomeD split: option.splits)
    then have "m \<in> m_id ` set (members p')"
      using same_members_fields(1) [OF members] by (metis list.set_map rq(6) q1(6))
    then obtain x where "lookup m_id m (members p') = Some x" by (cases "lookup m_id m (members p')") (auto simp: lookup_None_iff)
    with w' Some show ?thesis by (simp add: withdrawal_locked_def member_lock_def)
  qed
  have replay: "settle_attempt env' jid' i t transfer p' = Inr (out, p')"
  proof -
    have o: "wo_tx_hash out = tx_hash t" "wo_outcome out = outcome" by (simp_all add: out outcome_row_def)
    have ev: "outcome = OPaid \<longrightarrow> transfer \<noteq> None \<and> w_paid_event (finish outcome (map_option event_id transfer) w) = map_option event_id transfer"
      using r_paid by (simp add: finish_def)
    have tf: "save_transfer tf p' = Inr (False, p')" if "transfer = Some tf" for tf
      by (rule save_transfer_again [of tf r]) (use r_tf that in \<open>simp_all add: pr\<close>)
    have rev: "lookup wr_withdrawal_id (w_id w) (withdrawal_reviews p') = Some review" "lookup wa_id i (withdrawal_attempts p') = Some a"
      using new(2,4) by (simp_all add: pr rq q1)
    show ?thesis
      using new(5) ev tf unfolding settle_attempt_def bound bindE_simps prod.case rev(2) option.case locked'
      by (auto simp: rev o' o route_matches_def split: option.splits)
  qed
  from evidence show ?thesis
  proof (cases rule: keep_evidence_cases)
    case (1 a' review' n)
    have at: "a' = a" "lookup wa_id i (withdrawal_attempts p') = Some a" "lookup wr_withdrawal_id (wa_withdrawal_id a) (withdrawal_reviews p') = Some review'"
      using 1(1,2) new(2) save_transaction_frame [OF 1(3)] by (simp_all add: pr rq q1) (metis option.inject pool.ext_inject pool.surjective pool.update_convs(4,8))+
    have "custody_identity q1 = custody_identity q"
      using 1(3)
    proof (cases rule: save_transaction_cases)
      case (old previous)
      then show ?thesis using bind_cases(1) [OF old(4)] b by (auto simp: bind_def split: if_splits)
    next
      case (new s)
      then show ?thesis using bind_cases(1) [OF new(3)] b by (auto simp: bind_def split: if_splits)
    qed
    then have "save_transaction t p' = Inr (False, p')"
      by (intro save_transaction_again [OF 1(3)]) (simp_all add: pr rq q1 r_id)
    then have "keep_evidence i t transfer p' = Inr ((), p')" using 1(4,5,6) at by (simp add: keep_evidence_def)
    with replay show ?thesis by (simp add: reconcile_def commit_def)
  qed
qed

section \<open>Properties\<close>

text \<open>What one reconciliation moves.\<close>

lemma reconcile_moves:
  assumes ok: "withdrawals_ok p" and a: "lookup wa_id i (withdrawal_attempts p) = Some a"
    and w: "lookup w_id (wa_withdrawal_id a) (withdrawals p) = Some w" and none: "lookup wo_attempt_id i (withdrawal_attempt_outcomes p) = None"
    and run: "reconcile env jid i t transfer p = (Inr out, p')"
  shows "balance (ledger p') k = balance (ledger p) k + amount_of (settle_movements i a w (wo_outcome out) (tx_fee t)) k"
    and "lookup w_id (w_id w) (withdrawals p') = Some (finish (wo_outcome out) (map_option event_id transfer) w)"
    and "w_state w = WUncertain" and "wo_outcome out = OPaid \<longleftrightarrow> transfer \<noteq> None"
    and "reconcile env' jid' i t transfer p' = (Inr out, p')"
proof -
  obtain u q where q: "keep_evidence i t transfer p = Inr (u, q)" and settle: "settle_attempt env jid i t transfer q = Inr (out, p')"
    using run by (auto simp: reconcile_def commit_def split: sum.splits prod.splits)
  obtain n where save: "save_transaction t p = Inr (n, q)" using q by (auto elim!: keep_evidence_cases)
  have frame: "withdrawal_attempt_outcomes q = withdrawal_attempt_outcomes p" "ledger q = ledger p" "withdrawals q = withdrawals p"
    "withdrawal_attempts q = withdrawal_attempts p" by (subst save_transaction_frame [OF save], simp)+
  show again: "reconcile env' jid' i t transfer p' = (Inr out, p')"
    by (rule reconcile_again [OF q settle]) (simp add: frame none)
  have qok: "withdrawals_ok q" using keep_evidence_ok [OF ok q] by simp
  from settle have "balance (ledger p') k = balance (ledger p) k + amount_of (settle_movements i a w (wo_outcome out) (tx_fee t)) k \<and>
    lookup w_id (w_id w) (withdrawals p') = Some (finish (wo_outcome out) (map_option event_id transfer) w) \<and>
    w_state w = WUncertain \<and> (wo_outcome out = OPaid \<longleftrightarrow> transfer \<noteq> None)"
  proof (cases rule: settle_attempt_cases)
    case (old q1 b v)
    with none frame show ?thesis by simp
  next
    case (new q1 b v review r outcome)
    have bv: "b = a" "v = w" using new(2,3) a w frame by simp_all
    have q1: "withdrawals_ok q1" "withdrawals q1 = withdrawals p" "withdrawal_attempts q1 = withdrawal_attempts p" "ledger q1 = ledger p"
      using withdrawals_ok_save(1) [OF qok new(1)] save_keeps(1) [OF new(1)] frame bind_cases(1) [OF new(1)] by simp_all
    have r: "withdrawals_ok r \<and> withdrawals r = withdrawals p \<and> withdrawal_attempts r = withdrawal_attempts p \<and> ledger r = ledger p \<and>
        (outcome = OPaid \<longleftrightarrow> transfer \<noteq> None) \<and>
        (outcome = OPaid \<longrightarrow> map_option event_id transfer \<noteq> None \<and> \<not> (\<exists>v \<in> set (withdrawals p). w_paid_event v = map_option event_id transfer))"
      using new(8)
    proof (cases rule: send_result_cases)
      case (paid tf n)
      have "ledger r = ledger q1" by (subst save_transfer_effect(3) [OF paid(5)]) simp
      with paid q1 save_keeps(2) [OF paid(5)] withdrawals_ok_save(2) [OF q1(1) paid(5)] show ?thesis by simp
    qed (use q1 in simp_all)
    have fin: "finished env jid i (settle_details i t w (map_option event_id transfer)) (settle_movements i a w outcome (tx_fee t)) w outcome
       (map_option event_id transfer) (tx_fee t) t r out p'"
      by (rule record_send_finished [OF new(9) [unfolded bv]]) (use r in auto)
    then have o: "wo_outcome out = outcome" unfolding finished_def by (auto simp: outcome_row_def)
    have st: "w_state w = WUncertain" using new(7) bv by simp
    have "balance (ledger p') k = balance (ledger r) k + amount_of (settle_movements i a w outcome (tx_fee t)) k"
      "lookup w_id (w_id w) (withdrawals p') = Some (finish outcome (map_option event_id transfer) w)"
      using finished_ok(3,4) [OF _ fin, of a] r a w st settle_amounts by auto
    with r o st show ?thesis by simp
  qed
  then show "balance (ledger p') k = balance (ledger p) k + amount_of (settle_movements i a w (wo_outcome out) (tx_fee t)) k"
    and "lookup w_id (w_id w) (withdrawals p') = Some (finish (wo_outcome out) (map_option event_id transfer) w)"
    and "w_state w = WUncertain" and "wo_outcome out = OPaid \<longleftrightarrow> transfer \<noteq> None"
    by simp_all
qed

text \<open>
  C16. Reconciling an unresolved send settles it once: the attempt's gas budget is released, the
  fee leaves the pool and the rest returns to the operator; when the transfer is confirmed the
  withdrawn amount leaves the pool too and the withdrawal is paid with that event, and otherwise
  the amount stays held and the withdrawal can be sent again. A second reconciliation with the
  same evidence, at any later time, returns the same outcome and changes nothing.
\<close>

theorem reconcile_settles_once:
  assumes "withdrawals_ok p" and "lookup wa_id i (withdrawal_attempts p) = Some a"
    and "lookup w_id (wa_withdrawal_id a) (withdrawals p) = Some w" and "lookup wo_attempt_id i (withdrawal_attempt_outcomes p) = None"
    and "reconcile env jid i t transfer p = (Inr out, p')"
  shows "balance (ledger p') (gas_hold i) = 0 \<and>
    balance (ledger p') operator_native = balance (ledger p) operator_native + wa_fee_limit a - tx_fee t \<and>
    balance (ledger p') ''external:custody:NATIVE'' = balance (ledger p) ''external:custody:NATIVE'' + tx_fee t \<and>
    (if transfer \<noteq> None
     then wo_outcome out = OPaid \<and> balance (ledger p') (pending (w_id w)) = 0 \<and>
       balance (ledger p') ''external:custody:TIG'' = balance (ledger p) ''external:custody:TIG'' + w_amount w \<and>
       lookup w_id (w_id w) (withdrawals p') = Some (w\<lparr>w_state := WPaid, w_paid_event := map_option event_id transfer\<rparr>)
     else wo_outcome out \<noteq> OPaid \<and> balance (ledger p') (pending (w_id w)) = w_amount w \<and>
       balance (ledger p') ''external:custody:TIG'' = balance (ledger p) ''external:custody:TIG'' \<and>
       lookup w_id (w_id w) (withdrawals p') = Some (w\<lparr>w_state := WApproved\<rparr>)) \<and>
    reconcile env' jid' i t transfer p' = (Inr out, p')"
proof -
  note M = reconcile_moves [OF assms]
  have wid: "wa_withdrawal_id a = w_id w" using lookup_SomeD [OF assms(3)] by simp
  have "balance (ledger p) (gas_hold i) = wa_fee_limit a" "balance (ledger p) (pending (w_id w)) = w_amount w"
    using assms(1-4) M(3) wid by (auto simp: withdrawals_ok_def sends_ok_def sends_money_ok_def gas_due_def pending_due_def)
  moreover have "amount_of (settle_movements i a w (wo_outcome out) (tx_fee t)) operator_native = wa_fee_limit a - tx_fee t"
    "amount_of (settle_movements i a w (wo_outcome out) (tx_fee t)) ''external:custody:NATIVE'' = tx_fee t"
    "amount_of (settle_movements i a w (wo_outcome out) (tx_fee t)) ''external:custody:TIG'' = (if wo_outcome out = OPaid then w_amount w else 0)"
    by (auto simp: settle_movements_def gas_movements_def payment_movements_def)
  ultimately show ?thesis
    using M(4) by (auto simp: M(1,2,5) settle_amounts finish_def)
qed

text \<open>
  C19. Once a withdrawal is paid, rejected or cancelled its row never changes again, whatever
  operations on withdrawals follow.
\<close>

theorem withdrawal_outcome_final:
  assumes "withdrawal_op\<^sup>*\<^sup>* p p'" and "lookup w_id i (withdrawals p) = Some w" and "w_state w \<in> {WPaid, WRejected, WCancelled}"
  shows "lookup w_id i (withdrawals p') = Some w"
  using assms by (induction rule: rtranclp_induct) (auto intro: withdrawal_op_final simp: final_def)

text \<open>
  C17. Rejecting or cancelling a pending withdrawal that was never sent gives its whole amount back
  to the account it came from, and nothing is left held; while a send is unresolved it is refused.
\<close>

theorem release_returns_all:
  assumes "withdrawals_ok p" and "lookup w_id i (withdrawals p) = Some w"
  shows "(release env jid i actor reason ek m p = Inr (w', p') \<longrightarrow> withdrawal_pending (w_state w) \<longrightarrow>
      balance (ledger p') (source_account w) = balance (ledger p) (source_account w) + w_amount w \<and>
      balance (ledger p') (pending i) = 0 \<and> w_state w' = (if blank m then WRejected else WCancelled) \<and>
      lookup w_id i (withdrawals p') = Some w' \<and> (blank m \<or> w_member_id w = m)) \<and>
    (unresolved (withdrawal_attempts p) (withdrawal_attempt_outcomes p) k a \<longrightarrow> wa_withdrawal_id a = i \<longrightarrow>
      \<not> (\<exists>r. release env jid i actor reason ek m p = Inr r))"
proof (rule conjI; intro impI)
  assume run: "release env jid i actor reason ek m p = Inr (w', p')" and pend: "withdrawal_pending (w_state w)"
  let ?state = "if blank m then WRejected else WCancelled"
  from run show "balance (ledger p') (source_account w) = balance (ledger p) (source_account w) + w_amount w \<and>
      balance (ledger p') (pending i) = 0 \<and> w_state w' = ?state \<and> lookup w_id i (withdrawals p') = Some w' \<and> (blank m \<or> w_member_id w = m)"
  proof (cases rule: release_cases)
    case old
    with assms(2) pend show "balance (ledger p') (source_account w) = balance (ledger p) (source_account w) + w_amount w \<and>
      balance (ledger p') (pending i) = 0 \<and> w_state w' = ?state \<and> lookup w_id i (withdrawals p') = Some w' \<and> (blank m \<or> w_member_id w = m)"
      by (auto split: if_splits)
  next
    case (new v j led)
    have v: "v = w" using new(1) assms(2) by simp
    have st: "?state = WRejected \<or> ?state = WCancelled" by simp
    note S = sends_ok_release(3,4) [OF assms(1) [unfolded withdrawals_ok_def] new(1,2) st new(5)]
    have "ledger p' = led" by (subst new(6)) simp
    moreover have "lookup w_id i (withdrawals p') = Some w'"
      by (subst new(6)) (use new(1,3) lookup_SomeD [OF new(1)] in \<open>simp add: lookup_modify\<close>)
    ultimately show "balance (ledger p') (source_account w) = balance (ledger p) (source_account w) + w_amount w \<and>
      balance (ledger p') (pending i) = 0 \<and> w_state w' = ?state \<and> lookup w_id i (withdrawals p') = Some w' \<and> (blank m \<or> w_member_id w = m)"
      using S new(3,4) v by auto
  qed
next
  assume "unresolved (withdrawal_attempts p) (withdrawal_attempt_outcomes p) k a" "wa_withdrawal_id a = i"
  then have "w_state w = WUncertain"
    using assms unfolding withdrawals_ok_def sends_ok_def attempts_ok_def by (metis option.inject)
  then show "\<not> (\<exists>r. release env jid i actor reason ek m p = Inr r)"
    using assms(2) by (auto elim!: release_cases split: if_splits)
qed

section \<open>An example\<close>

text \<open>A withdrawal of 30 units, approved, and its first send with a gas budget of 5 units.\<close>

definition wd_row :: "withdrawal_state \<Rightarrow> withdrawal_row" where
  "wd_row state = \<lparr>w_id = ''w1'', w_kind = MemberWithdrawal, w_member_id = Some ''m1'', w_request_key = ''key'', w_amount = 30,
     w_recipient = ''0x00000000000000000000000000000000000000aa'', w_state = state, w_paid_event = None, w_operator_reserve = None\<rparr>"

definition wd_preflight :: custody_preflight where
  "wd_preflight = \<lparr>pf_network = demo_net, pf_nonce = 0, pf_token_balance = 40, pf_native_balance = 9, pf_block_number = 1,
     pf_checked_at = 0, pf_evidence = JNull\<rparr>"

definition wd_review :: withdrawal_review_row where
  "wd_review = review_of ''w1'' demo_net ''ethereum'' ''op'' (JBool True)"

definition wd_attempt :: withdrawal_attempt_row where
  "wd_attempt = new_attempt demo_env ''a1'' ''w1'' ''key'' wd_preflight 5 ''op'' wd_review"

definition wd_accounts :: "int \<Rightarrow> int \<Rightarrow> account_row list" where
  "wd_accounts native gas =
     [(demo_account ''external:custody:TIG'' KExternal AssetTIG)\<lparr>acc_balance := -40\<rparr>,
      (demo_account ''external:custody:NATIVE'' KExternal AssetNATIVE)\<lparr>acc_balance := -9\<rparr>,
      demo_account ''operator:custody:TIG'' KOperator AssetTIG,
      (demo_account ''operator:custody:NATIVE'' KOperator AssetNATIVE)\<lparr>acc_balance := native\<rparr>,
      (demo_account (available ''m1'') KMember AssetTIG)\<lparr>acc_balance := 10\<rparr>,
      (demo_account (pending ''w1'') KWithdrawal AssetTIG)\<lparr>acc_balance := 30\<rparr>,
      (demo_account (gas_hold ''a1'') KOperatorCommitment AssetNATIVE)\<lparr>acc_balance := gas\<rparr>]"

definition wd_approved :: pool where
  "wd_approved = demo_member\<lparr>ledger := empty_ledger\<lparr>accounts := wd_accounts 9 0\<rparr>,
     withdrawals := [wd_row WApproved], withdrawal_reviews := [wd_review],
     spending_caps := [\<lparr>sc_id = ''s'', sc_event_key = ''k'', sc_window_seconds = 3600, sc_tig_fee_window = 9, sc_tig_fee_attempt = 9,
       sc_native_fee_window = 9, sc_native_fee_attempt = 9, sc_actor = ''op'', sc_reason = ''r'', sc_created_at = 0\<rparr>]\<rparr>"

definition wd_sent :: pool where
  "wd_sent = wd_approved\<lparr>ledger := empty_ledger\<lparr>accounts := wd_accounts 4 5\<rparr>, withdrawals := [wd_row WUncertain],
     withdrawal_attempts := [wd_attempt],
     custody_sends := [\<lparr>cs_id = ''a1'', cs_chain_id = 1, cs_sender = ''0x0b'', cs_nonce = 0, cs_kind = ''withdrawal''\<rparr>]\<rparr>"

definition wd_transaction :: confirmed_transaction where
  "wd_transaction = \<lparr>tx_network = demo_net, tx_hash = ''0xt9'', tx_sender = ''0x0b'', tx_recipient = Some ''0x0c'', tx_nonce = 0,
     tx_successful = True, tx_value = 0, tx_fee = 2, tx_fee_model = ''ethereum'', tx_block_number = 2, tx_block_hash = ''0xh9'',
     tx_block_timestamp = 5, tx_evidence = JNull\<rparr>"

definition wd_transfer :: confirmed_transfer where
  "wd_transfer = \<lparr>tf_network = demo_net, tf_tx_hash = ''0xt9'', tf_log_index = 0, tf_block_number = 2, tf_block_hash = ''0xh9'',
     tf_block_timestamp = 5, tf_sender = ''0x0b'', tf_recipient = ''0x00000000000000000000000000000000000000aa'',
     tf_amount = 30, tf_evidence = JNull\<rparr>"

definition wd_paid :: pool where "wd_paid = snd (reconcile demo_env ''j3'' ''a1'' wd_transaction (Some wd_transfer) wd_sent)"

lemma wd_paid_run: "reconcile demo_env ''j3'' ''a1'' wd_transaction (Some wd_transfer) wd_sent =
    (Inr \<lparr>wo_attempt_id = ''a1'', wo_chain_id = 1, wo_tx_hash = ''0xt9'', wo_outcome = OPaid, wo_fee = 2, wo_journal_id = ''j3''\<rparr>, wd_paid)"
proof -
  have "fst (reconcile demo_env ''j3'' ''a1'' wd_transaction (Some wd_transfer) wd_sent) =
    Inr \<lparr>wo_attempt_id = ''a1'', wo_chain_id = 1, wo_tx_hash = ''0xt9'', wo_outcome = OPaid, wo_fee = 2, wo_journal_id = ''j3''\<rparr>"
    by code_simp
  then show ?thesis by (simp add: wd_paid_def prod_eq_iff)
qed

lemmas wd_defs = withdrawals_ok_def sends_ok_def sends_money_ok_def withdrawal_rows_ok_def attempts_ok_def unresolved_def
  wd_approved_def wd_sent_def wd_accounts_def demo_member_def empty_pool_def empty_ledger_def recorded_def balance_def
  demo_account_def pending_due_def gas_due_def wd_row_def wd_attempt_def new_attempt_def wd_preflight_def withdrawal_row_ok_def one_row_def

lemma wd_ok: "withdrawals_ok wd_approved" "withdrawals_ok wd_sent"
  by (auto simp: wd_defs simp flip: pending_def gas_hold_def)

lemma wd_sent_rows: "lookup wa_id ''a1'' (withdrawal_attempts wd_sent) = Some wd_attempt"
  "lookup w_id (wa_withdrawal_id wd_attempt) (withdrawals wd_sent) = Some (wd_row WUncertain)"
  "lookup wo_attempt_id ''a1'' (withdrawal_attempt_outcomes wd_sent) = None" "w_id (wd_row state) = ''w1''"
  by (simp_all add: wd_defs)

lemma result_run: "(case r of Inl _ \<Rightarrow> False | Inr x \<Rightarrow> True) \<Longrightarrow> \<exists>x p. r = Inr (x, p)"
  by (cases r) auto

theorem reconcile_settles_once_witness:
  "balance (ledger wd_paid) (pending ''w1'') = 0 \<and> balance (ledger wd_paid) (gas_hold ''a1'') = 0 \<and>
   (\<exists>out. reconcile demo_env ''j9'' ''a1'' wd_transaction (Some wd_transfer) wd_paid = (Inr out, wd_paid))"
  using reconcile_settles_once [OF wd_ok(2) wd_sent_rows(1,2,3) wd_paid_run, of demo_env "''j9''"] wd_sent_rows(4) by auto

theorem withdrawal_outcome_final_witness:
  "\<exists>p w. lookup w_id ''w1'' (withdrawals wd_paid) = Some w \<and> withdrawal_op\<^sup>*\<^sup>* wd_paid p \<and> lookup w_id ''w1'' (withdrawals p) = Some w"
proof -
  have "withdrawal_op wd_paid (snd (reconcile demo_env ''j9'' ''a1'' wd_transaction None wd_paid))"
    by (rule op_reconcile [of demo_env "''j9''" "''a1''" wd_transaction None _ "fst (reconcile demo_env ''j9'' ''a1'' wd_transaction None wd_paid)"]) simp
  then have step: "withdrawal_op\<^sup>*\<^sup>* wd_paid (snd (reconcile demo_env ''j9'' ''a1'' wd_transaction None wd_paid))" by blast
  obtain w where w: "lookup w_id ''w1'' (withdrawals wd_paid) = Some w" "w_state w = WPaid"
    using reconcile_moves(2,4) [OF wd_ok(2) wd_sent_rows(1,2,3) wd_paid_run] wd_sent_rows(4) by (auto simp: finish_def)
  with withdrawal_outcome_final [OF step w(1)] step show ?thesis by blast
qed

theorem release_returns_all_witness:
  "(\<exists>w' p'. release demo_env ''j9'' ''w1'' ''op'' ''reason'' ''k'' None wd_approved = Inr (w', p') \<and>
     balance (ledger p') (pending ''w1'') = 0 \<and> w_state w' = WRejected) \<and>
   \<not> (\<exists>r. release demo_env ''j9'' ''w1'' ''op'' ''reason'' ''k'' None wd_sent = Inr r)"
proof -
  have "case release demo_env ''j9'' ''w1'' ''op'' ''reason'' ''k'' None wd_approved of Inl _ \<Rightarrow> False | Inr x \<Rightarrow> True" by code_simp
  then obtain w' p' where run: "release demo_env ''j9'' ''w1'' ''op'' ''reason'' ''k'' None wd_approved = Inr (w', p')"
    using result_run by blast
  have row: "lookup w_id ''w1'' (withdrawals wd_approved) = Some (wd_row WApproved)" "withdrawal_pending (w_state (wd_row WApproved))"
    by (simp_all add: wd_defs)
  have "unresolved (withdrawal_attempts wd_sent) (withdrawal_attempt_outcomes wd_sent) ''a1'' wd_attempt" "wa_withdrawal_id wd_attempt = ''w1''"
    using wd_sent_rows lookup_SomeD [OF wd_sent_rows(2)] by (simp_all add: unresolved_def)
  then have "\<not> (\<exists>r. release demo_env ''j9'' ''w1'' ''op'' ''reason'' ''k'' None wd_sent = Inr r)"
    using release_returns_all [OF wd_ok(2), of "''w1''" "wd_row WUncertain"] wd_sent_rows(2) by metis
  moreover have "balance (ledger p') (pending ''w1'') = 0 \<and> w_state w' = WRejected"
    using release_returns_all [OF wd_ok(1) row(1)] run row(2) by (auto simp: blank_def)
  ultimately show ?thesis using run by blast
qed

section \<open>Instructions\<close>

text \<open>
  C29. The instructions of an attempt say what was frozen: the ABI-encoded call decodes to the
  withdrawal's recipient and amount, and the nonce and chain read back as those of the attempt.
\<close>

theorem instructions_roundtrip:
  assumes "instructions i p = Inr s" and "take 2 (w_recipient (si_withdrawal s)) = ''0x''" and "length (w_recipient (si_withdrawal s)) = 42"
    and "0 \<le> w_amount (si_withdrawal s)" and "w_amount (si_withdrawal s) < 16 ^ 64"
    and "0 \<le> wa_nonce (si_attempt s)" and "0 \<le> wa_chain_id (si_attempt s)"
  shows "(let call = wt_data (si_transaction s) in
      length call = 138 \<and> take 10 call = ''0xa9059cbb'' \<and>
      ''0x'' @ take 40 (drop 34 call) = w_recipient (si_withdrawal s) \<and>
      quantity (JStr (''0x'' @ drop 74 call)) = Inr (w_amount (si_withdrawal s))) \<and>
    quantity (JStr (wt_nonce (si_transaction s))) = Inr (wa_nonce (si_attempt s)) \<and>
    quantity (JStr (wt_chain_id (si_transaction s))) = Inr (wa_chain_id (si_attempt s)) \<and>
    wt_from (si_transaction s) = wa_sender (si_attempt s) \<and> wt_to (si_transaction s) = si_token s"
proof -
  have t: "si_transaction s = \<lparr>wt_from = wa_sender (si_attempt s), wt_to = si_token s, wt_chain_id = hex_text (wa_chain_id (si_attempt s)),
      wt_nonce = hex_text (wa_nonce (si_attempt s)), wt_value = ''0x0'', wt_data = transfer_call (w_recipient (si_withdrawal s)) (w_amount (si_withdrawal s))\<rparr>"
    using assms(1) by (auto simp: instructions_def Let_def split: option.splits)
  let ?w = "si_withdrawal s" and ?r = "drop 2 (w_recipient (si_withdrawal s))" and ?n = "padded_hex 64 (nat (w_amount (si_withdrawal s)))"
  have r: "length ?r = 40" "w_recipient ?w = ''0x'' @ ?r"
    using assms(2,3) append_take_drop_id [of 2 "w_recipient ?w"] by simp_all
  have n: "length ?n = 64" "quantity (JStr (''0x'' @ ?n)) = Inr (w_amount ?w)"
  proof -
    show len: "length ?n = 64" using assms(4,5) by (intro length_padded_hex) (simp_all add: nat_less_iff)
    then have "?n \<noteq> []" by (metis list.size(3) zero_neq_numeral)
    then show "quantity (JStr (''0x'' @ ?n)) = Inr (w_amount ?w)"
      using padded_hex_hex [of 64 "nat (w_amount ?w)"] assms(4) by (simp add: quantity_def)
  qed
  have call: "transfer_call (w_recipient ?w) (w_amount ?w) = ''0xa9059cbb'' @ replicate 24 (CHR ''0'') @ ?r @ ?n"
    by (simp add: transfer_call_def)
  have "drop 34 (''0xa9059cbb'' @ replicate 24 (CHR ''0'') @ ?r @ ?n) = ?r @ ?n"
    "drop 74 (''0xa9059cbb'' @ replicate 24 (CHR ''0'') @ ?r @ ?n) = ?n"
    using r(1) by (simp_all add: drop_append)
  moreover have "take 10 (''0xa9059cbb'' @ replicate 24 (CHR ''0'') @ ?r @ ?n) = ''0xa9059cbb''" by simp
  moreover have "length (''0xa9059cbb'' @ replicate 24 (CHR ''0'') @ ?r @ ?n) = 138" using r(1) n(1) by simp
  moreover have "take 40 (?r @ ?n) = ?r" using r(1) by simp
  ultimately show ?thesis
    using n(2) r(2) quantity_hex_text assms(6,7) unfolding t Let_def by (simp only: call wallet_transaction.simps)
qed

lemma wd_instructions_run: "case instructions ''a1'' wd_sent of Inl _ \<Rightarrow> False | Inr s \<Rightarrow>
    take 2 (w_recipient (si_withdrawal s)) = ''0x'' \<and> length (w_recipient (si_withdrawal s)) = 42 \<and>
    w_amount (si_withdrawal s) = 30 \<and> wa_nonce (si_attempt s) = 0 \<and> wa_chain_id (si_attempt s) = 1"
  by code_simp

theorem instructions_roundtrip_witness:
  "\<exists>s. instructions ''a1'' wd_sent = Inr s \<and> quantity (JStr (''0x'' @ drop 74 (wt_data (si_transaction s)))) = Inr 30"
proof -
  obtain s where s: "instructions ''a1'' wd_sent = Inr s" "take 2 (w_recipient (si_withdrawal s)) = ''0x''"
    "length (w_recipient (si_withdrawal s)) = 42" "w_amount (si_withdrawal s) = 30" "wa_nonce (si_attempt s) = 0" "wa_chain_id (si_attempt s) = 1"
    using wd_instructions_run by (auto split: sum.splits)
  from instructions_roundtrip [OF s(1,2,3)] s(4,5,6) show ?thesis by (auto simp: s(1) Let_def)
qed

section \<open>Opening\<close>

text \<open>
  C18. A new send starts only from an approved withdrawal, with a preflight that matches the
  recorded custody funds and a nonce no earlier send reserved. It commits exactly the gas budget,
  keeps the whole amount held, and is the only unresolved send of the withdrawal.
\<close>

theorem begin_attempt_commits:
  assumes "withdrawals_ok p" and "begin_attempt env new_id jid i key pre limit actor retain p = Inr (a, p')"
    and "lookup wa_id (wa_id a) (withdrawal_attempts p) = None"
  shows "(\<exists>w. lookup w_id i (withdrawals p) = Some w \<and> w_state w = WApproved \<and>
      lookup w_id i (withdrawals p') = Some (w\<lparr>w_state := WUncertain\<rparr>) \<and> balance (ledger p') (pending i) = w_amount w) \<and>
    balance (ledger p') (gas_hold (wa_id a)) = limit \<and> balance (ledger p') operator_native = balance (ledger p) operator_native - limit \<and>
    backing (ledger p) AssetTIG Custody = pf_token_balance pre \<and> backing (ledger p) AssetNATIVE Custody = pf_native_balance pre \<and>
    \<not> (\<exists>s \<in> set (custody_sends p). (cs_chain_id s, cs_sender s, cs_nonce s) = (net_chain_id (pf_network pre), net_custody (pf_network pre), pf_nonce pre)) \<and>
    unresolved (withdrawal_attempts p') (withdrawal_attempt_outcomes p') (wa_id a) a \<and>
    (\<forall>k b. unresolved (withdrawal_attempts p') (withdrawal_attempt_outcomes p') k b \<longrightarrow> wa_withdrawal_id b = i \<longrightarrow> k = wa_id a)"
  using assms(2)
proof (cases rule: begin_attempt_cases)
  case old
  with assms(3) show ?thesis by (auto simp: lookup_None_iff)
next
  case (new q w review)
  let ?a = "new_attempt env new_id i key pre limit actor review"
  note ok' = begin_attempt_ok(1) [OF assms(1,2)]
  note q = bind_cases(1) [OF new(1)]
  have ids: "wa_withdrawal_id ?a = i" "wa_fee_limit ?a = limit" "wa_id ?a = new_id" "wa_preflight ?a = pre" "wa_nonce ?a = pf_nonce pre"
    by (simp_all add: new_attempt_def)
  note G = send_guards_Inr [OF new(4)]
  from new(5) show ?thesis
  proof (cases rule: open_attempt_cases)
    case (1 led1 led j k)
    have w': "lookup w_id i (withdrawals p') = Some (w\<lparr>w_state := WUncertain\<rparr>)"
      by (subst 1(6)) (use new(2) ids q lookup_SomeD [OF new(2)] in \<open>simp add: lookup_modify\<close>)
    have a': "lookup wa_id new_id (withdrawal_attempts p') = Some a"
      by (subst 1(6)) (use 1(1,2) ids q in \<open>simp add: lookup_append\<close>)
    have none: "lookup wo_attempt_id new_id (withdrawal_attempt_outcomes p') = None"
    proof -
      have "lookup wa_id new_id (withdrawal_attempts p) = None" using 1(2) ids q by simp
      then have "lookup wo_attempt_id new_id (withdrawal_attempt_outcomes p) = None"
        using assms(1) unfolding withdrawals_ok_def sends_ok_def attempts_ok_def by blast
      then show ?thesis by (subst 1(6)) (simp add: q)
    qed
    have un: "unresolved (withdrawal_attempts p') (withdrawal_attempt_outcomes p') new_id a" using a' none by (simp add: unresolved_def)
    have "balance (ledger p') (pending i) = w_amount w" "balance (ledger p') (gas_hold new_id) = limit"
      using ok' w' a' none 1(1) ids by (auto simp: withdrawals_ok_def sends_ok_def sends_money_ok_def pending_due_def gas_due_def)
    moreover have "balance (ledger p') operator_native = balance (ledger p) operator_native - limit"
    proof -
      have "\<not> recorded (ledger p) (attempt_key new_id ''gas'')"
        using assms(1) 1(2) ids q by (auto simp: withdrawals_ok_def sends_ok_def sends_money_ok_def)
      then have "balance led operator_native = balance led1 operator_native - limit"
        using post_balance [OF 1(4), of operator_native] account_cases(4) [OF 1(3)] ids q by (simp add: recorded_def)
      moreover have "ledger p' = led" by (subst 1(6)) simp
      ultimately show ?thesis using account_cases(2) [OF 1(3), of operator_native] q by simp
    qed
    moreover have "k = new_id" if "unresolved (withdrawal_attempts p') (withdrawal_attempt_outcomes p') k b" "wa_withdrawal_id b = i" for k b
      using ok' that un 1(1) ids(1) unfolding withdrawals_ok_def sends_ok_def attempts_ok_def by metis
    moreover have "wa_id a = new_id" using 1(1) ids(3) by simp
    moreover have "backing (ledger p) AssetTIG Custody = pf_token_balance pre" "backing (ledger p) AssetNATIVE Custody = pf_native_balance pre"
      using G(4,5) by (simp_all add: q)
    moreover have "\<not> (\<exists>s \<in> set (custody_sends p). (cs_chain_id s, cs_sender s, cs_nonce s) =
        (net_chain_id (pf_network pre), net_custody (pf_network pre), pf_nonce pre))"
      using 1(5) unfolding ids by (simp add: q)
    ultimately show ?thesis using new(2) G(1) w' un by blast
  qed
qed

theorem begin_attempt_commits_witness:
  "\<exists>a p'. begin_attempt demo_env ''a1'' ''j2'' ''w1'' ''key'' wd_preflight 5 ''op'' None wd_approved = Inr (a, p') \<and>
     balance (ledger p') (gas_hold (wa_id a)) = 5 \<and> unresolved (withdrawal_attempts p') (withdrawal_attempt_outcomes p') (wa_id a) a"
proof -
  have "case begin_attempt demo_env ''a1'' ''j2'' ''w1'' ''key'' wd_preflight 5 ''op'' None wd_approved of Inl _ \<Rightarrow> False | Inr x \<Rightarrow> True"
    by code_simp
  then obtain a p' where run: "begin_attempt demo_env ''a1'' ''j2'' ''w1'' ''key'' wd_preflight 5 ''op'' None wd_approved = Inr (a, p')"
    using result_run by blast
  have "lookup wa_id (wa_id a) (withdrawal_attempts wd_approved) = None" by (simp add: wd_defs)
  from begin_attempt_commits [OF wd_ok(1) run this] run show ?thesis by blast
qed

text \<open>
  C23. A member's request moves exactly its amount from the available account into its own
  account, to be paid to the member's frozen wallet; until it is resolved every further request
  under another key is refused, and the same request again returns the same withdrawal.
\<close>

theorem request_holds_once:
  assumes "withdrawals_ok p" and "request env new_id jid m key n p = Inr (w, p')" and "lookup w_id (w_id w) (withdrawals p) = None"
  shows "1 \<le> n \<and> w_amount w = n \<and> w_state w = WRequested \<and>
    balance (ledger p') (available m) = balance (ledger p) (available m) - n \<and> balance (ledger p') (pending (w_id w)) = n \<and>
    (\<exists>x. lookup m_id m (members p) = Some x \<and> w_recipient w = m_withdrawal_wallet x) \<and>
    (\<forall>env' i j k v. List.find (\<lambda>w. w_member_id w = Some m \<and> w_request_key w = k) (withdrawals p') = None \<longrightarrow>
       \<not> (\<exists>r. request env' i j m k v p' = Inr r)) \<and>
    (\<forall>env' i j. List.find (\<lambda>w. w_member_id w = Some m \<and> w_request_key w = key) (withdrawals p) = None \<longrightarrow>
       request env' i j m key n p' = Inr (w, p'))"
  using assms(2)
proof (cases rule: request_cases)
  case old
  with assms(3) show ?thesis by (auto simp: lookup_None_iff)
next
  case (new member led)
  note ok' = request_ok(1) [OF assms(1,2)]
  have fields: "w_amount w = n" "w_state w = WRequested" "w_id w = new_id" "w_member_id w = Some m" "source_account w = available m"
    "w_recipient w = m_withdrawal_wallet member" "w_request_key w = key"
    by (simp_all add: new(3) source_account_def)
  obtain i led1 j where acc: "account (pending new_id) KWithdrawal AssetTIG Custody (ledger p) = Inr (i, led1)"
    and post: "post env jid (withdrawal_key new_id ''reserve'') ''withdrawal_reservation'' [(available m, - n), (pending new_id, n)]
       (JDict []) None led1 = Inr (j, led)"
    using new(6) unfolding opened_by_def fields by blast
  have "\<not> recorded led1 (withdrawal_key new_id ''reserve'')"
    using assms(1) new(5) account_recorded [OF acc] by (auto simp: withdrawals_ok_def sends_ok_def sends_money_ok_def)
  then have "balance led (available m) = balance (ledger p) (available m) - n"
    using post_balance [OF post, of "available m"] account_cases(2) [OF acc, of "available m"] by (simp add: recorded_def)
  moreover have w': "lookup w_id new_id (withdrawals p') = Some w" using new(5,7) fields by (simp add: lookup_append)
  moreover have "balance (ledger p') (pending new_id) = n"
    using ok' w' fields by (auto simp: withdrawals_ok_def sends_ok_def sends_money_ok_def pending_due_def)
  moreover have "\<not> (\<exists>r. request env' i j m k v p' = Inr r)"
    if none: "List.find (\<lambda>w. w_member_id w = Some m \<and> w_request_key w = k) (withdrawals p') = None" for env' i j k v
  proof
    assume "\<exists>r. request env' i j m k v p' = Inr r"
    then obtain x q where "request env' i j m k v p' = Inr (x, q)" by fastforce
    then show False
      using none fields new(7) by (cases rule: request_cases) (auto simp: find_None_iff)
  qed
  moreover have "request env' i j m key n p' = Inr (w, p')"
    if "List.find (\<lambda>w. w_member_id w = Some m \<and> w_request_key w = key) (withdrawals p) = None" for env' i j
  proof -
    have "List.find P (xs @ [x]) = Some x" if "List.find P xs = None" "P x" for P and xs :: "withdrawal_row list" and x
      using that by (induction xs) (auto split: if_splits)
    from this [OF that] fields have "List.find (\<lambda>w. w_member_id w = Some m \<and> w_request_key w = key) (withdrawals p') = Some w"
      using new(7) by simp
    moreover have "units True (JInt n) = Inr n" "\<not> (key = [] \<or> length key > 128)"
      using assms(2) new(1) by (auto simp: units_def request_def)
    ultimately show ?thesis using new(2,7) fields by (simp add: request_def member_lock_def)
  qed
  ultimately show ?thesis using new(1,2,7) fields by auto
qed

definition wd_start :: pool where
  "wd_start = demo_member\<lparr>ledger := empty_ledger\<lparr>accounts := [(demo_account (available ''m1'') KMember AssetTIG)\<lparr>acc_balance := 40\<rparr>]\<rparr>\<rparr>"

theorem request_holds_once_witness:
  "\<exists>w p'. request demo_env ''w1'' ''j1'' ''m1'' ''key'' 30 wd_start = Inr (w, p') \<and> balance (ledger p') (pending (w_id w)) = 30 \<and>
     balance (ledger p') (available ''m1'') = balance (ledger wd_start) (available ''m1'') - 30"
proof -
  have "case request demo_env ''w1'' ''j1'' ''m1'' ''key'' 30 wd_start of Inl _ \<Rightarrow> False | Inr x \<Rightarrow> True" by code_simp
  then obtain w p' where run: "request demo_env ''w1'' ''j1'' ''m1'' ''key'' 30 wd_start = Inr (w, p')"
    using result_run by blast
  have ok: "withdrawals_ok wd_start" by (auto simp: wd_defs wd_start_def pending_def gas_hold_def available_def)
  have none: "lookup w_id (w_id w) (withdrawals wd_start) = None" by (simp add: wd_start_def wd_defs)
  note T = request_holds_once [OF ok run none]
  from T have "balance (ledger p') (pending (w_id w)) = 30" by (elim conjE)
  moreover from T have "balance (ledger p') (available ''m1'') = balance (ledger wd_start) (available ''m1'') - 30" by (elim conjE)
  ultimately show ?thesis using run by blast
qed

end
