(* ===== verification/Protocol.thy ===== *)
theory Protocol
  imports Payload "HOL-Library.Product_Lexorder"
begin

text \<open>
  \<open>pool_manager/pool_v2/protocol.py\<close>: an observation (the raw responses collected between two
  reads of one block) becomes a snapshot only when it is complete and consistent, and the
  qualifying bundles of a snapshot earn exact fractional credit. A Python set built from a
  response is the array it was built from, with its elements distinct; \<open>Counter\<close>s are
  association lists. The interpreter's own message after \<open>malformed protocol field\<close> is left out.
\<close>

section \<open>Bundles and snapshots\<close>

record scored_bundle =
  bu_benchmark_id :: string
  bu_active_index :: int
  bu_player_id :: string
  bu_challenge_id :: string
  bu_algorithm_id :: string
  bu_track_id :: string
  bu_quality :: int

text \<open>
  The challenge of an algorithm without bundles is whatever the response says, so it stays a
  decoded value in the keys of the qualifier counts.
\<close>

type_synonym group_key = "string \<times> json \<times> string \<times> string"

definition group :: "scored_bundle \<Rightarrow> group_key" where
  "group b = (bu_player_id b, JStr (bu_challenge_id b), bu_algorithm_id b, bu_track_id b)"

record snapshot =
  sn_block_id :: string
  sn_previous_block_id :: string
  sn_height :: int
  sn_round :: int
  sn_timestamp :: int
  sn_bundles :: "scored_bundle list"
  sn_qualifiers :: "(group_key \<times> int) list"
  sn_precommits :: "(string \<times> json) list"
  sn_algorithms :: "(string \<times> json) list"
  sn_challenges :: "(string \<times> json) list"
  sn_selection_references :: "((string \<times> string) \<times> (scored_bundle \<times> json)) list option"
  sn_scoped :: bool

definition SCOPED_FORMAT :: string where "SCOPED_FORMAT = ''pool-scoped-v2''"

section \<open>The block\<close>

text \<open>Both reads name the same block with the same details and configuration.\<close>

record block_header =
  bh_id :: string
  bh_details :: json
  bh_data :: json
  bh_height :: int
  bh_round :: int
  bh_timestamp :: int
  bh_previous :: string

definition same_block :: "json \<Rightarrow> json \<Rightarrow> json \<Rightarrow> json \<Rightarrow> bool result" where
  "same_block start end_block block_id details =
     bindE (subscript end_block ''id'') (\<lambda>i. if i \<noteq> block_id then Inr False else
     bindE (subscript end_block ''details'') (\<lambda>d. if \<not> json_eq d details then Inr False else
     bindE (subscript end_block ''config'') (\<lambda>c.
     bindE (subscript start ''config'') (\<lambda>c'. Inr (json_eq c c')))))"

definition read_header :: "json \<Rightarrow> block_header result" where
  "read_header observation =
     bindE (path observation [''start'', ''block'']) (\<lambda>start.
     bindE (p_object start ''start.block'') (\<lambda>_.
     bindE (path observation [''end'', ''block'']) (\<lambda>end_block.
     bindE (p_object end_block ''end.block'') (\<lambda>_.
     bindE (subscript start ''details'') (\<lambda>details.
     bindE (p_object details ''block.details'') (\<lambda>_.
     bindE (subscript start ''id'') (\<lambda>i. bindE (p_text i ''block.id'') (\<lambda>block_id.
     bindE (same_block start end_block i details) (\<lambda>same.
     if \<not> same then malformed ''block changed while collecting the observation'' else
     bindE (subscript details ''height'') (\<lambda>v. bindE (p_integer v ''block.height'' 0) (\<lambda>height.
     bindE (subscript details ''round'') (\<lambda>v. bindE (p_integer v ''block.round'' 1) (\<lambda>round_number.
     bindE (subscript details ''timestamp'') (\<lambda>v. bindE (p_integer v ''block.timestamp'' 0) (\<lambda>timestamp.
     bindE (subscript details ''prev_block_id'') (\<lambda>v. bindE (p_text v ''block.prev_block_id'') (\<lambda>previous.
     bindE (subscript start ''data'') (\<lambda>data.
       Inr \<lparr>bh_id = block_id, bh_details = details, bh_data = data, bh_height = height, bh_round = round_number,
            bh_timestamp = timestamp, bh_previous = previous\<rparr>))))))))))))))))))"

text \<open>One kind of active identifiers: distinct, and as many as the block counts.\<close>

definition active_ids :: "json \<Rightarrow> json \<Rightarrow> (string \<times> json) list \<Rightarrow> string option \<Rightarrow> string \<Rightarrow> string list result" where
  "active_ids observation details active scope kind =
     bindE (item active kind) (\<lambda>v. bindE (p_array v (''active_ids.'' @ kind)) (\<lambda>vs.
     bindE (mapE (\<lambda>v. p_text v kind) vs) (\<lambda>ids.
     bindE (path details [''num_active'', kind]) (\<lambda>v. bindE (p_integer v (''num_active.'' @ kind) 0) (\<lambda>expected.
     if \<not> distinct ids then malformed (''active '' @ kind @ '' ID count is inconsistent'')
     else if kind = ''benchmark'' \<and> scope \<noteq> None
     then bindE (path observation [''scope'', ''active_benchmark_count'']) (\<lambda>count.
       if \<not> json_eq count (JInt expected) \<or> int (length ids) > expected
       then malformed ''scoped active benchmark IDs contradict the block's count'' else Inr ids)
     else if int (length ids) \<noteq> expected then malformed (''active '' @ kind @ '' ID count is inconsistent'')
     else Inr ids)))))"

text \<open>The records of the active identifiers.\<close>

definition active_records :: "string \<Rightarrow> string list \<Rightarrow> (string \<times> json) list \<Rightarrow> (string \<times> json) list result" where
  "active_records kind ids rows =
     (if \<exists>i \<in> set ids. map_of rows i = None then malformed (''missing active '' @ kind @ '' records'')
      else Inr (map (\<lambda>i. (i, the (map_of rows i))) ids))"

section \<open>Player feeds\<close>

text \<open>Which feeds the observation must hold: every OPoW player's, or the pool's own.\<close>

definition read_feeds :: "json \<Rightarrow> string option \<Rightarrow> string list \<Rightarrow> string list \<Rightarrow> (string \<times> json) list result" where
  "read_feeds observation scope opow_ids benchmark_ids =
     bindE (subscript observation ''players'') (\<lambda>v. bindE (p_object v ''players'') (\<lambda>players.
     case scope of
       None \<Rightarrow>
         if set (map fst players) \<noteq> set opow_ids
         then malformed ''player observations do not cover the active OPoW players'' else Inr players
     | Some player \<Rightarrow>
         if set (map fst players) \<noteq> (if player \<in> set opow_ids then {player} else {})
         then malformed ''scoped observation must hold exactly the pool's own feed'' else
         if player \<in> set opow_ids then Inr players else
         bindE (json_get observation ''pool_pending'') (\<lambda>v. bindE (p_object v ''pool_pending'') (\<lambda>_.
           if benchmark_ids \<noteq> [] then malformed ''inactive pool has active benchmark credit''
           else Inr [(player, v)]))))"

record feed_tables =
  ft_precommits :: "(string \<times> json) list"
  ft_benchmarks :: "(string \<times> json) list"
  ft_proofs :: "(string \<times> json) list"
  ft_frauds :: "string list"

definition merge_rows :: "string \<Rightarrow> (string \<times> json) list \<Rightarrow> (string \<times> json) list \<Rightarrow> (string \<times> json) list result" where
  "merge_rows field target rows =
     (if \<exists>k \<in> set (map fst rows). k \<in> set (map fst target)
      then malformed (field @ '': record belongs to multiple player responses'') else Inr (target @ rows))"

definition owned_by :: "string \<Rightarrow> string \<Rightarrow> string \<times> json \<Rightarrow> unit result" where
  "owned_by message player = (\<lambda>(_, record_row). bindE (path record_row [''settings'', ''player_id'']) (\<lambda>p.
     require (p = JStr player) (ProtocolDataError message)))"

definition read_feed :: "string \<times> json \<Rightarrow> feed_tables \<Rightarrow> feed_tables result" where
  "read_feed feed t = (case feed of (player, payload) \<Rightarrow>
     bindE (subscript payload ''precommits'') (\<lambda>v. bindE (p_index v ''benchmark_id'' ''precommits'') (\<lambda>rows.
     bindE (merge_rows ''precommits'' (ft_precommits t) rows) (\<lambda>precommits.
     bindE (mapE (owned_by ''precommit owner differs from the requested player'' player) rows) (\<lambda>_.
     bindE (subscript payload ''benchmarks'') (\<lambda>v. bindE (p_index v ''id'' ''benchmarks'') (\<lambda>rows.
     bindE (merge_rows ''benchmarks'' (ft_benchmarks t) rows) (\<lambda>benchmarks.
     bindE (subscript payload ''proofs'') (\<lambda>v. bindE (p_index v ''benchmark_id'' ''proofs'') (\<lambda>rows.
     bindE (merge_rows ''proofs'' (ft_proofs t) rows) (\<lambda>proofs.
     bindE (subscript payload ''frauds'') (\<lambda>v. bindE (p_index v ''benchmark_id'' ''frauds'') (\<lambda>rows.
       Inr \<lparr>ft_precommits = precommits, ft_benchmarks = benchmarks, ft_proofs = proofs,
            ft_frauds = ft_frauds t @ map fst rows\<rparr>)))))))))))))"

definition missing_rows :: "string \<Rightarrow> string list \<Rightarrow> (string \<times> json) list \<Rightarrow> unit result" where
  "missing_rows name ids rows =
     (let missing = filter (\<lambda>i. map_of rows i = None) ids in
      require (missing = []) (ProtocolDataError
        (''missing '' @ int_text (int (length missing)) @ '' active benchmark '' @ name)))"

definition read_feed_tables :: "(string \<times> json) list \<Rightarrow> string list \<Rightarrow> feed_tables result" where
  "read_feed_tables feeds benchmark_ids =
     bindE (foldE read_feed feeds \<lparr>ft_precommits = [], ft_benchmarks = [], ft_proofs = [], ft_frauds = []\<rparr>) (\<lambda>t.
     bindE (missing_rows ''precommits'' benchmark_ids (ft_precommits t)) (\<lambda>_.
     bindE (missing_rows ''benchmarks'' benchmark_ids (ft_benchmarks t)) (\<lambda>_.
     bindE (missing_rows ''proofs'' benchmark_ids (ft_proofs t)) (\<lambda>_.
     bindE (require (\<not> (\<exists>k \<in> set (ft_frauds t). k \<in> set benchmark_ids))
       (ProtocolDataError ''a failed-verification benchmark appears in the active set'')) (\<lambda>_. Inr t)))))"

section \<open>Active benchmarks\<close>

definition confirmed_by :: "int \<Rightarrow> string \<Rightarrow> json \<Rightarrow> unit result" where
  "confirmed_by height name record_row =
     bindE (path record_row [''state'', ''block_confirmed'']) (\<lambda>v.
     bindE (p_integer v (name @ ''.block_confirmed'') 0) (\<lambda>confirmed.
       require (confirmed \<le> height) (ProtocolDataError (name @ '' confirmed after the observed block''))))"

text \<open>A present null invokes the algorithm's defaults; an absent field is a gap.\<close>

definition valid_hyperparameters :: "json result \<Rightarrow> bool" where
  "valid_hyperparameters r = (case r of Inr JNull \<Rightarrow> True | Inr (JDict _) \<Rightarrow> True | _ \<Rightarrow> False)"

definition precommit_fields :: "json \<Rightarrow> int result" where
  "precommit_fields pre_details =
     bindE (subscript pre_details ''block_started'') (\<lambda>v. bindE (p_integer v ''precommit.block_started'' 0) (\<lambda>_.
     bindE (subscript pre_details ''num_bundles'') (\<lambda>v. bindE (p_integer v ''precommit.num_bundles'' 1) (\<lambda>num_bundles.
     bindE (subscript pre_details ''fuel_budget'') (\<lambda>v. bindE (p_integer v ''precommit.fuel_budget'' 0) (\<lambda>_.
     bindE (subscript pre_details ''compute_type'') (\<lambda>v. bindE (p_text v ''precommit.compute_type'') (\<lambda>_.
       if valid_hyperparameters (subscript pre_details ''hyperparameters'') then Inr num_bundles
       else malformed ''missing or invalid precommit hyperparameters''))))))))"

text \<open>The challenge, algorithm and track a benchmark ran on; the track is read, not yet checked.\<close>

definition benchmark_scope ::
    "(string \<times> json) list \<Rightarrow> (string \<times> json) list \<Rightarrow> json \<Rightarrow> (string \<times> json \<times> string \<times> json) result" where
  "benchmark_scope algorithms challenges settings =
     bindE (subscript settings ''challenge_id'') (\<lambda>c.
     bindE (subscript settings ''algorithm_id'') (\<lambda>a.
     bindE (subscript settings ''track_id'') (\<lambda>track.
     bindE (find_key c challenges) (\<lambda>challenge.
       case challenge of None \<Rightarrow> malformed ''active benchmark refers to an unavailable challenge or algorithm''
       | Some (challenge_id, challenge_row) \<Rightarrow>
     bindE (find_key a algorithms) (\<lambda>algorithm.
       case algorithm of None \<Rightarrow> malformed ''active benchmark refers to an unavailable challenge or algorithm''
       | Some (algorithm_id, algorithm_row) \<Rightarrow>
     bindE (path algorithm_row [''details'', ''challenge_id'']) (\<lambda>owner.
       if owner \<noteq> JStr challenge_id then malformed ''benchmark algorithm/challenge mismatch''
       else Inr (challenge_id, challenge_row, algorithm_id, track)))))))"

definition read_quality :: "json \<Rightarrow> int result" where
  "read_quality v = bindE (p_integer v ''bundle quality'' (- (2 ^ 31))) (\<lambda>quality.
     if quality \<ge> 2 ^ 31 then malformed ''bundle quality exceeds the protocol int32 range'' else Inr quality)"

text \<open>
  A track can retire while an old benchmark remains in the live feed: its bundles are skipped.
  A track that is not text is refused here; the code refuses it later, when the challenge's
  tracks are compared with its counts.
\<close>

definition scored :: "string \<Rightarrow> string \<Rightarrow> string \<Rightarrow> string \<Rightarrow> json \<Rightarrow> json list \<Rightarrow> scored_bundle list result" where
  "scored benchmark_id player challenge_id algorithm_id track scores =
     bindE (as_text ''challenge qualifier totals omit an active track'' track) (\<lambda>track_id.
     bindE (mapE read_quality scores) (\<lambda>qualities.
       Inr (map (\<lambda>(i, q). \<lparr>bu_benchmark_id = benchmark_id, bu_active_index = int i, bu_player_id = player,
         bu_challenge_id = challenge_id, bu_algorithm_id = algorithm_id, bu_track_id = track_id, bu_quality = q\<rparr>)
         (enumerate 0 qualities))))"

definition benchmark_scores :: "json \<Rightarrow> int \<Rightarrow> json list result" where
  "benchmark_scores details num_bundles =
     bindE (subscript details ''average_quality_by_bundle'') (\<lambda>v. bindE (p_array v ''bundle scores'') (\<lambda>scores.
     bindE (subscript details ''num_active_bundles'') (\<lambda>v. bindE (p_integer v ''num_active_bundles'' 1) (\<lambda>active_count.
       if int (length scores) \<noteq> active_count \<or> active_count > num_bundles
       then malformed ''active bundle count differs from score count'' else Inr scores))))"

definition stopped_early :: "int \<Rightarrow> json \<Rightarrow> json \<Rightarrow> unit result" where
  "stopped_early height proof_row details =
     bindE (path proof_row [''details'', ''block_active'']) (\<lambda>v. bindE (p_integer v ''proof.block_active'' 0) (\<lambda>activated.
       if activated > height then malformed ''active benchmark has an incompatible lifecycle state'' else
       bindE (subscript details ''stopped'') (\<lambda>stopped.
         require (stopped = JBool False) (ProtocolDataError ''active benchmark has an incompatible lifecycle state''))))"

definition active_benchmark ::
    "int \<Rightarrow> (string \<times> json) list \<Rightarrow> (string \<times> json) list \<Rightarrow> feed_tables \<Rightarrow> string \<Rightarrow> scored_bundle list result" where
  "active_benchmark height algorithms challenges t benchmark_id =
     (let precommit = the (map_of (ft_precommits t) benchmark_id);
          benchmark = the (map_of (ft_benchmarks t) benchmark_id);
          proof_row = the (map_of (ft_proofs t) benchmark_id) in
     bindE (subscript precommit ''settings'') (\<lambda>settings.
     bindE (subscript precommit ''details'') (\<lambda>pre_details.
     bindE (subscript benchmark ''details'') (\<lambda>details.
     bindE (confirmed_by height ''precommit'' precommit) (\<lambda>_.
     bindE (confirmed_by height ''benchmark'' benchmark) (\<lambda>_.
     bindE (confirmed_by height ''proof'' proof_row) (\<lambda>_.
     bindE (stopped_early height proof_row details) (\<lambda>_.
     bindE (precommit_fields pre_details) (\<lambda>num_bundles.
     bindE (benchmark_scope algorithms challenges settings) (\<lambda>(challenge_id, challenge_row, algorithm_id, track).
     bindE (benchmark_scores details num_bundles) (\<lambda>scores.
     bindE (path challenge_row [''config'', ''active_tracks'']) (\<lambda>tracks.
     bindE (member_of track tracks) (\<lambda>live. if \<not> live then Inr [] else
     bindE (path settings [''player_id'']) (\<lambda>player.
     bindE (as_text ''precommit owner differs from the requested player'' player) (\<lambda>player_id.
       scored benchmark_id player_id challenge_id algorithm_id track scores)))))))))))))))"

definition active_bundles ::
    "int \<Rightarrow> (string \<times> json) list \<Rightarrow> (string \<times> json) list \<Rightarrow> feed_tables \<Rightarrow> string list \<Rightarrow> scored_bundle list result" where
  "active_bundles height algorithms challenges t ids =
     bindE (mapE (active_benchmark height algorithms challenges t) (sort ids)) (\<lambda>bundles. Inr (concat bundles))"

section \<open>Qualifier totals\<close>

type_synonym 'k counter = "('k \<times> int) list"

definition count_of :: "'k \<Rightarrow> 'k counter \<Rightarrow> int" where
  "count_of k c = (case map_of c k of None \<Rightarrow> 0 | Some n \<Rightarrow> n)"

definition increase :: "'k \<Rightarrow> int \<Rightarrow> 'k counter \<Rightarrow> 'k counter" where
  "increase k n c = AList.update k (count_of k c + n) c"

definition nonzero :: "'k counter \<Rightarrow> 'k counter" where "nonzero c = filter (\<lambda>(_, n). n \<noteq> 0) c"

definition same_dict :: "('k \<times> 'v) list \<Rightarrow> ('k \<times> 'v) list \<Rightarrow> bool" where
  "same_dict a b \<longleftrightarrow> list_all (\<lambda>k. map_of a k = map_of b k) (map fst a @ map fst b)"

record totals =
  to_qualifiers :: "group_key counter"
  to_players :: "(string \<times> json \<times> string) counter"
  to_challenges :: "(json \<times> string) counter"

definition candidates :: "group_key \<Rightarrow> scored_bundle list \<Rightarrow> int" where
  "candidates key bundles = int (length (filter (\<lambda>b. group b = key) bundles))"

definition count_player ::
    "string option \<Rightarrow> scored_bundle list \<Rightarrow> json \<Rightarrow> string \<Rightarrow> string \<Rightarrow> string \<times> int \<Rightarrow> totals \<Rightarrow> totals result" where
  "count_player scope bundles challenge_id algorithm_id track_id player_count t =
     (case player_count of (player_id, n) \<Rightarrow>
      let key = (player_id, challenge_id, algorithm_id, track_id) in
      bindE (hashable challenge_id) (\<lambda>_.
      if (scope = None \<or> scope = Some player_id) \<and> n > candidates key bundles
      then malformed ''qualifying count exceeds the available eligible bundles'' else
      Inr \<lparr>to_qualifiers = AList.update key n (to_qualifiers t),
           to_players = increase (player_id, challenge_id, track_id) n (to_players t),
           to_challenges = increase (challenge_id, track_id) n (to_challenges t)\<rparr>))"

definition count_track ::
    "string option \<Rightarrow> scored_bundle list \<Rightarrow> json \<Rightarrow> string \<Rightarrow> string \<times> json \<Rightarrow> totals \<Rightarrow> totals result" where
  "count_track scope bundles challenge_id algorithm_id track t =
     (case track of (track_id, counts) \<Rightarrow>
      bindE (p_counts counts ''algorithm player qualifiers'') (\<lambda>counts.
        foldE (count_player scope bundles challenge_id algorithm_id track_id) counts t))"

definition exact_adoption :: "json \<Rightarrow> bool" where
  "exact_adoption v = (case v of JStr s \<Rightarrow> s \<noteq> [] \<and> list_all (\<lambda>c. 48 \<le> (of_char c :: nat) \<and> (of_char c :: nat) \<le> 57) s | _ \<Rightarrow> False)"

definition count_algorithm :: "string option \<Rightarrow> scored_bundle list \<Rightarrow> string \<times> json \<Rightarrow> totals \<Rightarrow> totals result" where
  "count_algorithm scope bundles algorithm t = (case algorithm of (algorithm_id, algorithm_row) \<Rightarrow>
     bindE (subscript algorithm_row ''block_data'') (\<lambda>v. bindE (p_object v ''algorithm.block_data'') (\<lambda>block_data.
     bindE (item block_data ''adoption'') (\<lambda>adoption.
       if \<not> exact_adoption adoption then malformed ''algorithm adoption must be an exact nonnegative unit string'' else
     bindE (path algorithm_row [''details'', ''challenge_id'']) (\<lambda>challenge_id.
     bindE (item block_data ''num_qualifiers_by_track_by_player'') (\<lambda>v. bindE (p_object v ''algorithm qualifiers'') (\<lambda>tracks.
       foldE (count_track scope bundles challenge_id algorithm_id) tracks t)))))))"

definition count_qualifiers :: "string option \<Rightarrow> scored_bundle list \<Rightarrow> (string \<times> json) list \<Rightarrow> totals result" where
  "count_qualifiers scope bundles algorithms =
     foldE (count_algorithm scope bundles) algorithms \<lparr>to_qualifiers = [], to_players = [], to_challenges = []\<rparr>"

text \<open>What the OPoW records and the challenges publish.\<close>

definition expected_player ::
    "(string \<times> json) list \<Rightarrow> string \<Rightarrow> (string \<times> json \<times> string) counter \<Rightarrow> (string \<times> json \<times> string) counter result" where
  "expected_player opow player_id expected =
     bindE (path (the (map_of opow player_id)) [''block_data'', ''num_qualifiers_by_challenge_by_track'']) (\<lambda>v.
     bindE (p_object v ''OPoW qualifiers'') (\<lambda>counts.
       foldE (\<lambda>(challenge_id, tracks) expected. bindE (p_counts tracks ''OPoW track qualifiers'') (\<lambda>tracks.
         Inr (foldl (\<lambda>e (track_id, n). AList.update (player_id, JStr challenge_id, track_id) n e) expected tracks)))
         counts expected))"

definition expected_players :: "(string \<times> json) list \<Rightarrow> string list \<Rightarrow> (string \<times> json \<times> string) counter result" where
  "expected_players opow ids = foldE (expected_player opow) ids []"

definition expected_challenge :: "string \<times> json \<Rightarrow> (json \<times> string) counter \<Rightarrow> (json \<times> string) counter result" where
  "expected_challenge challenge expected = (case challenge of (challenge_id, challenge_row) \<Rightarrow>
     bindE (path challenge_row [''block_data'', ''num_qualifiers_by_track'']) (\<lambda>v.
     bindE (p_counts v ''challenge qualifiers'') (\<lambda>counts.
     bindE (path challenge_row [''config'', ''active_tracks'']) (\<lambda>v. bindE (elements v) (\<lambda>tracks.
       if set (map (JStr \<circ> fst) counts) \<noteq> set tracks
       then malformed ''challenge qualifier totals omit an active track'' else
       Inr (foldl (\<lambda>e (track_id, n). AList.update (JStr challenge_id, track_id) n e) expected counts))))))"

definition expected_challenges :: "(string \<times> json) list \<Rightarrow> (json \<times> string) counter result" where
  "expected_challenges challenges = foldE expected_challenge challenges []"

definition reconcile_totals ::
    "string option \<Rightarrow> scored_bundle list \<Rightarrow> (string \<times> json) list \<Rightarrow> (string \<times> json) list \<Rightarrow> (string \<times> json) list \<Rightarrow>
     string list \<Rightarrow> group_key counter result" where
  "reconcile_totals scope bundles algorithms challenges opow opow_ids =
     bindE (count_qualifiers scope bundles algorithms) (\<lambda>t.
     bindE (expected_players opow opow_ids) (\<lambda>players.
     if \<not> same_dict (nonzero (to_players t)) (nonzero players)
     then malformed ''algorithm qualifiers do not reconcile with OPoW player totals'' else
     bindE (expected_challenges challenges) (\<lambda>published.
     if \<not> same_dict (nonzero (to_challenges t)) (nonzero published)
     then malformed ''algorithm qualifiers do not reconcile with challenge totals'' else
     Inr (case scope of None \<Rightarrow> to_qualifiers t
          | Some player \<Rightarrow> filter (\<lambda>(key, _). fst key = player) (to_qualifiers t)))))"

section \<open>Snapshots\<close>

definition snapshot_of ::
    "string option \<Rightarrow> block_header \<Rightarrow> string list \<Rightarrow> (string \<times> json) list \<Rightarrow> (string \<times> json) list \<Rightarrow> feed_tables \<Rightarrow>
     scored_bundle list \<Rightarrow> group_key counter \<Rightarrow> snapshot" where
  "snapshot_of scope h ids algorithms challenges t bundles qualifiers =
     \<lparr>sn_block_id = bh_id h, sn_previous_block_id = bh_previous h, sn_height = bh_height h, sn_round = bh_round h,
      sn_timestamp = bh_timestamp h, sn_bundles = bundles, sn_qualifiers = qualifiers,
      sn_precommits = map (\<lambda>i. (i, the (map_of (ft_precommits t) i))) ids,
      sn_algorithms = algorithms, sn_challenges = challenges, sn_selection_references = None,
      sn_scoped = (scope \<noteq> None)\<rparr>"

text \<open>\<open>_validate_snapshot\<close>.\<close>

definition validate_block :: "string option \<Rightarrow> json \<Rightarrow> snapshot result" where
  "validate_block scope observation =
     bindE (read_header observation) (\<lambda>h.
     bindE (subscript (bh_data h) ''active_ids'') (\<lambda>v. bindE (p_object v ''block.active_ids'') (\<lambda>active.
     bindE (active_ids observation (bh_details h) active scope ''benchmark'') (\<lambda>benchmark_ids.
     bindE (active_ids observation (bh_details h) active scope ''opow'') (\<lambda>opow_ids.
     bindE (active_ids observation (bh_details h) active scope ''code'') (\<lambda>code_ids.
     bindE (active_ids observation (bh_details h) active scope ''challenge'') (\<lambda>challenge_ids.
     bindE (path observation [''algorithms'', ''codes'']) (\<lambda>v. bindE (p_index v ''id'' ''codes'') (\<lambda>all_algorithms.
     bindE (path observation [''challenges'', ''challenges'']) (\<lambda>v. bindE (p_index v ''id'' ''challenges'') (\<lambda>all_challenges.
     bindE (path observation [''opow'', ''opow'']) (\<lambda>v. bindE (p_index v ''player_id'' ''opow'') (\<lambda>opow.
     bindE (active_records ''code'' code_ids all_algorithms) (\<lambda>algorithms.
     bindE (active_records ''challenge'' challenge_ids all_challenges) (\<lambda>challenges.
     bindE (active_records ''opow'' opow_ids opow) (\<lambda>_.
     bindE (read_feeds observation scope opow_ids benchmark_ids) (\<lambda>feeds.
     bindE (read_feed_tables feeds benchmark_ids) (\<lambda>t.
     bindE (active_bundles (bh_height h) algorithms challenges t benchmark_ids) (\<lambda>bundles.
     bindE (reconcile_totals scope bundles algorithms challenges opow opow_ids) (\<lambda>qualifiers.
       Inr (snapshot_of scope h benchmark_ids algorithms challenges t bundles qualifiers)))))))))))))))))))))"

text \<open>\<open>_validate_scoped\<close>.\<close>

definition hex64 :: "string \<Rightarrow> bool" where
  "hex64 s \<longleftrightarrow> length s = 64 \<and> list_all (\<lambda>c. c \<in> set ''0123456789abcdef'') s"

definition validate_scoped :: "json \<Rightarrow> snapshot result" where
  "validate_scoped observation =
     bindE (json_get observation ''pool_player_id'') (\<lambda>v. bindE (p_text v ''pool player'') (\<lambda>player.
     bindE (subscript observation ''scope'') (\<lambda>v. bindE (p_object v ''scope'') (\<lambda>scope.
     bindE (item scope ''active_benchmark_count'') (\<lambda>v. bindE (p_integer v ''active benchmark count'' 0) (\<lambda>_.
     bindE (item scope ''active_benchmark_ids_sha256'') (\<lambda>v. bindE (p_text v ''active benchmark digest'') (\<lambda>digest.
       if \<not> hex64 digest then malformed ''active benchmark digest must be a SHA-256 hex string''
       else validate_block (Some player) observation))))))))"

section \<open>Equal bundle credit\<close>

text \<open>The groups in the order their first bundle appears, each sorted best first, then split into ties.\<close>

fun group_order :: "scored_bundle list \<Rightarrow> group_key list \<Rightarrow> group_key list" where
  "group_order [] seen = []"
| "group_order (b # bs) seen =
     (if group b \<in> set seen then group_order bs seen else group b # group_order bs (group b # seen))"

definition best_first :: "scored_bundle list \<Rightarrow> scored_bundle list" where
  "best_first = sort_key (\<lambda>b. (- bu_quality b, bu_benchmark_id b, bu_active_index b))"

function ties :: "scored_bundle list \<Rightarrow> scored_bundle list list" where
  "ties [] = []"
| "ties (b # bs) = (b # takeWhile (\<lambda>c. bu_quality c = bu_quality b) bs) # ties (dropWhile (\<lambda>c. bu_quality c = bu_quality b) bs)"
  by pat_completeness auto

termination
  by (relation "measure length") (simp_all add: length_dropWhile_le le_imp_less_Suc)

type_synonym credits = "((string \<times> int) \<times> rat) list"

definition credit_key :: "scored_bundle \<Rightarrow> string \<times> int" where
  "credit_key b = (bu_benchmark_id b, bu_active_index b)"

definition award :: "scored_bundle list \<Rightarrow> int \<times> credits \<Rightarrow> int \<times> credits" where
  "award tied s =
     (case s of (remaining, credits) \<Rightarrow>
      let awarded = min remaining (int (length tied)); share = Fract awarded (int (length tied)) in
      (remaining - awarded, foldl (\<lambda>d b. AList.update (credit_key b) share d) credits tied))"

definition credit_group :: "snapshot \<Rightarrow> group_key \<Rightarrow> credits \<Rightarrow> credits result" where
  "credit_group s key credits =
     (case fold award (ties (best_first (filter (\<lambda>b. group b = key) (sn_bundles s)))) (count_of key (sn_qualifiers s), credits) of
        (remaining, credits) \<Rightarrow> if remaining \<noteq> 0 then malformed ''unallocated qualifying credit'' else Inr credits)"

definition equal_bundle_credit :: "snapshot \<Rightarrow> credits result" where
  "equal_bundle_credit s =
     bindE (foldE (credit_group s) (group_order (sn_bundles s) []) []) (\<lambda>credits.
       if sum_list (map snd credits) \<noteq> of_int (sum_list (map snd (sn_qualifiers s)))
       then malformed ''qualifying credit does not reconcile exactly'' else Inr credits)"

section \<open>Reports\<close>

definition report_confirmed :: "(string \<times> json) list \<Rightarrow> int option result" where
  "report_confirmed report =
     (if get ''state'' report = JNull then Inr None else
      bindE (subscript (get ''state'' report) ''block_confirmed'') (\<lambda>v.
      bindE (p_integer v ''report.block_confirmed'' 0) (\<lambda>n. Inr (Some n))))"

definition known_result :: "json \<Rightarrow> bool" where
  "known_result v \<longleftrightarrow> v \<in> {JStr ''nonreproducible'', JStr ''reproducible'', JStr ''inconclusive''}"

text \<open>A decision without authoritative confirmation is still pending.\<close>

definition arbitration_result :: "int option \<Rightarrow> json option \<Rightarrow> json result" where
  "arbitration_result confirmed arbitration =
     (case arbitration of None \<Rightarrow> Inr JNull
      | Some a \<Rightarrow>
        bindE (path a [''details'', ''result'']) (\<lambda>decision. bindE (hashable decision) (\<lambda>_.
        if \<not> known_result decision then malformed ''unknown arbitration result'' else
        bindE (json_get a ''state'') (\<lambda>state. if state = JNull then Inr JNull else
        bindE (subscript state ''block_confirmed'') (\<lambda>v. bindE (p_integer v ''arbitration.block_confirmed'' 0) (\<lambda>decided.
        if (case confirmed of None \<Rightarrow> True | Some c \<Rightarrow> decided < c)
        then malformed ''arbitration confirmation precedes its report'' else Inr decision))))))"

definition validate_report :: "(string \<times> json) list \<Rightarrow> string \<times> json \<Rightarrow> (string \<times> json) result" where
  "validate_report arbitrations report = (case report of (report_id, row) \<Rightarrow>
     bindE (subscript row ''details'') (\<lambda>v. bindE (p_object v ''report.details'') (\<lambda>details.
     bindE (item details ''benchmark_id'') (\<lambda>v. bindE (p_text v ''report.benchmark_id'') (\<lambda>_.
     bindE (item details ''benchmarker'') (\<lambda>v. bindE (p_text v ''report.benchmarker'') (\<lambda>_.
     bindE (item details ''nonce'') (\<lambda>v. bindE (p_integer v ''report.nonce'' 0) (\<lambda>_.
     bindE (item details ''round'') (\<lambda>v. bindE (p_integer v ''report.round'' 1) (\<lambda>_.
     bindE (p_object row ''reports'') (\<lambda>items.
     bindE (report_confirmed items) (\<lambda>confirmed.
     bindE (arbitration_result confirmed (map_of arbitrations report_id)) (\<lambda>decision.
       Inr (report_id, JDict (AList.update ''result'' decision details))))))))))))))))"

definition validate_reports :: "json \<Rightarrow> (string \<times> json) list result" where
  "validate_reports payload =
     guard_fields ''missing or malformed report field'' (
     bindE (subscript payload ''reports'') (\<lambda>v. bindE (p_index v ''id'' ''reports'') (\<lambda>reports.
     bindE (subscript payload ''arbitrations'') (\<lambda>v. bindE (p_index v ''report_id'' ''arbitrations'') (\<lambda>arbitrations.
       if \<exists>k \<in> set (map fst arbitrations). map_of reports k = None
       then malformed ''arbitration has no matching report'' else
       mapE (validate_report arbitrations) reports)))))"

end
