(* ===== verification/Compact.thy ===== *)
theory Compact
  imports Protocol
begin

text \<open>
  \<open>pool_manager/pool_v2/compact.py\<close>, \<open>validate_compact\<close>: a stored network capture that keeps
  only the pool's own feed is replayed as a scoped view through the strict validator; the best
  reference of every algorithm and track is kept beside it. \<open>protocol.validate_snapshot\<close>
  chooses the validator by the format of the observation.
\<close>

section \<open>Digests and counts\<close>

definition p_digest :: "json \<Rightarrow> string result" where
  "p_digest v = (case v of JStr s \<Rightarrow> if hex64 s then Inr s else malformed ''compact capture has an invalid source digest''
     | _ \<Rightarrow> malformed ''compact capture has an invalid source digest'')"

definition known_version :: "(string \<times> json) list \<Rightarrow> bool" where
  "known_version observation = (case dict_get ''source_identity_version'' observation of None \<Rightarrow> True | Some v \<Rightarrow> v = JInt 1 \<or> v = JInt 2)"

definition source_digests :: "(string \<times> json) list \<Rightarrow> unit result" where
  "source_digests observation =
     bindE (item observation ''source_semantic_digests'') (\<lambda>digests.
     if falsy digests then malformed ''compact capture needs its validated network digest'' else
     bindE (iterate digests) (\<lambda>vs. bindE (mapE p_digest vs) (\<lambda>_.
     bindE (case dict_get ''compatible_projection_digests'' observation of None \<Rightarrow> Inr [] | Some v \<Rightarrow> iterate v) (\<lambda>vs.
     bindE (mapE p_digest vs) (\<lambda>_.
     bindE (item observation ''source_semantic_digest'') (\<lambda>v. bindE (p_digest v) (\<lambda>digest.
     bindE (member_of (JStr digest) digests) (\<lambda>found.
       require found (ProtocolDataError ''compact canonical source identity is missing'')))))))))"

text \<open>A count of the original block against a length; a count that is no integer is refused.\<close>

definition count_value :: "json \<Rightarrow> int result" where
  "count_value v = (case v of JInt n \<Rightarrow> Inr n | JBool b \<Rightarrow> Inr (if b then 1 else 0) | _ \<Rightarrow> Inl TypeError)"

definition original_counts :: "json \<Rightarrow> int \<Rightarrow> int \<Rightarrow> int \<Rightarrow> bool \<Rightarrow> bool result" where
  "original_counts counts codes challenges active pool_active =
     bindE (subscript counts ''code'') (\<lambda>v. bindE (count_value v) (\<lambda>n. if codes \<noteq> n then Inr False else
     bindE (subscript counts ''challenge'') (\<lambda>v. bindE (count_value v) (\<lambda>n. if challenges \<noteq> n then Inr False else
     bindE (subscript counts ''benchmark'') (\<lambda>v. bindE (count_value v) (\<lambda>n. if active > n then Inr False else
     bindE (subscript counts ''opow'') (\<lambda>v. bindE (count_value v) (\<lambda>n. Inr ((if pool_active then 1 else 0) \<le> n)))))))))"

section \<open>The pool's feed\<close>

definition compact_rows :: "string \<Rightarrow> json \<Rightarrow> string \<times> string \<Rightarrow> unit result" where
  "compact_rows player feed field = (case field of (name, key) \<Rightarrow>
     bindE (subscript feed name) (\<lambda>v. bindE (p_index v key (''compact pool '' @ name)) (\<lambda>records.
       if name \<noteq> ''precommits'' then Inr () else
       bindE (mapE (owned_by ''compact precommit owner differs from the pool'' player) records) (\<lambda>_. Inr ()))))"

definition compact_feed :: "(string \<times> json) list \<Rightarrow> string \<Rightarrow> bool \<Rightarrow> unit result" where
  "compact_feed observation player pool_active =
     bindE (item observation ''players'') (\<lambda>players. case players of JDict feeds \<Rightarrow>
       (let feed = (case dict_get player feeds of None \<Rightarrow> get ''pool_pending'' observation | Some v \<Rightarrow> v) in
        if set (map fst feeds) \<noteq> (if pool_active then {player} else {})
        then malformed ''compact capture contains an unexpected player feed'' else
        bindE (mapE (compact_rows player feed) [(''precommits'', ''benchmark_id''), (''benchmarks'', ''id''),
          (''proofs'', ''benchmark_id''), (''frauds'', ''benchmark_id'')]) (\<lambda>_. Inr ()))
     | _ \<Rightarrow> Inl AttributeError)"

definition compact_active :: "(string \<times> json) list \<Rightarrow> bool \<Rightarrow> json list result" where
  "compact_active observation pool_active =
     bindE (item observation ''pool_active_benchmark_ids'') (\<lambda>v. case v of JList active \<Rightarrow>
       bindE (mapE hashable active) (\<lambda>_.
       if \<not> distinct active then malformed ''compact active benchmarks must be unique''
       else if active \<noteq> [] \<and> \<not> pool_active then malformed ''inactive pool has active benchmark credit''
       else Inr active)
     | _ \<Rightarrow> malformed ''compact active benchmarks must be unique'')"

section \<open>The scoped view\<close>

definition compact_track :: "string \<Rightarrow> string \<times> json \<Rightarrow> string \<times> json \<Rightarrow> (json \<times> string) counter \<Rightarrow> (json \<times> string) counter result" where
  "compact_track player code track t = (case track of (track_id, v) \<Rightarrow> case v of JDict counts \<Rightarrow>
       if \<exists>k \<in> set (map fst counts). k \<noteq> player then malformed ''compact qualifiers include another player'' else
       bindE (path (snd code) [''details'', ''challenge_id'']) (\<lambda>challenge. bindE (hashable challenge) (\<lambda>challenge.
       bindE (p_integer (case dict_get player counts of None \<Rightarrow> JInt 0 | Some n \<Rightarrow> n) ''pool qualifiers'' 0) (\<lambda>n.
         Inr (increase (challenge, track_id) n t))))
     | _ \<Rightarrow> Inl AttributeError)"

definition compact_code :: "string \<Rightarrow> string \<times> json \<Rightarrow> (json \<times> string) counter \<Rightarrow> (json \<times> string) counter result" where
  "compact_code player code t =
     bindE (path (snd code) [''block_data'', ''num_qualifiers_by_track_by_player'']) (\<lambda>v. case v of
       JDict tracks \<Rightarrow> foldE (compact_track player code) tracks t | _ \<Rightarrow> Inl AttributeError)"

text \<open>The totals of the pool's qualifiers stand for the challenge's published counts.\<close>

definition scoped_challenge :: "(json \<times> string) counter \<Rightarrow> json \<Rightarrow> json result" where
  "scoped_challenge t challenge =
     bindE (subscript challenge ''id'') (\<lambda>i.
     bindE (path challenge [''config'', ''active_tracks'']) (\<lambda>v. bindE (elements v) (\<lambda>tracks.
     bindE (mapE (as_text ''challenge qualifiers: expected a nonempty string'') tracks) (\<lambda>tracks.
       assign ''block_data'' (JDict [(''num_qualifiers_by_track'',
         JDict (foldl (\<lambda>d track. AList.update track (JInt (count_of (i, track) t)) d) [] tracks))]) challenge))))"

definition scoped_view ::
    "json \<Rightarrow> (string \<times> json) list \<Rightarrow> (string \<times> json) list \<Rightarrow> string \<Rightarrow> bool \<Rightarrow> json list \<Rightarrow> (json \<times> string) counter \<Rightarrow> json result" where
  "scoped_view observation codes challenges player pool_active active t =
     (let ids = [(''code'', map JStr (sort (map fst codes))), (''challenge'', map JStr (sort (map fst challenges))),
        (''opow'', if pool_active then [JStr player] else []), (''benchmark'', active)];
        num_active = JDict (map (\<lambda>(kind, xs). (kind, JInt (int (length xs)))) ids) in
     bindE (assign_at [''start'', ''block''] ''data'' (JDict [(''active_ids'', JDict (map (\<lambda>(kind, xs). (kind, JList xs)) ids))]) observation) (\<lambda>view.
     bindE (assign_at [''start'', ''block'', ''details''] ''num_active'' num_active view) (\<lambda>view.
     bindE (path view [''start'', ''block'', ''details'']) (\<lambda>details.
     bindE (assign_at [''end'', ''block''] ''details'' details view) (\<lambda>view.
     bindE (path view [''challenges'', ''challenges'']) (\<lambda>v. bindE (iterate v) (\<lambda>rows.
     bindE (mapE (scoped_challenge t) rows) (\<lambda>rows.
       assign_at [''challenges''] ''challenges'' (JList rows) view))))))))"

section \<open>Selection references\<close>

definition bundle_fields :: "string list" where
  "bundle_fields = [''benchmark_id'', ''active_index'', ''player_id'', ''challenge_id'', ''algorithm_id'', ''track_id'', ''quality'']"

text \<open>\<open>Bundle(**fields)\<close>: exactly the fields of the dataclass, not yet checked.\<close>

definition bundle_arguments :: "json \<Rightarrow> (string \<times> json) list result" where
  "bundle_arguments v = (case v of JDict items \<Rightarrow> if set (map fst items) = set bundle_fields then Inr items else Inl TypeError
     | _ \<Rightarrow> Inl TypeError)"

type_synonym selection_table = "((string \<times> string) \<times> (scored_bundle \<times> json)) list"

definition reference_scope ::
    "(string \<times> json) list \<Rightarrow> (string \<times> json) list \<Rightarrow> selection_table \<Rightarrow> json \<Rightarrow> json \<Rightarrow> json \<Rightarrow> (string \<times> string \<times> string) result" where
  "reference_scope codes challenges best challenge algorithm track =
     bindE (hashable algorithm) (\<lambda>_. bindE (hashable track) (\<lambda>_.
     if \<exists>((a, b), _) \<in> set best. algorithm = JStr a \<and> track = JStr b then malformed ''compact selection reference has an invalid scope'' else
     bindE (find_key algorithm codes) (\<lambda>code. case code of None \<Rightarrow> malformed ''compact selection reference has an invalid scope''
       | Some (algorithm_id, code_row) \<Rightarrow>
     bindE (find_key challenge challenges) (\<lambda>found. case found of None \<Rightarrow> malformed ''compact selection reference has an invalid scope''
       | Some (challenge_id, challenge_row) \<Rightarrow>
     bindE (path code_row [''details'', ''challenge_id'']) (\<lambda>owner.
     if owner \<noteq> JStr challenge_id then malformed ''compact selection reference has an invalid algorithm/track'' else
     bindE (path challenge_row [''config'', ''active_tracks'']) (\<lambda>tracks. bindE (member_of track tracks) (\<lambda>live.
     if \<not> live then malformed ''compact selection reference has an invalid algorithm/track'' else
     bindE (as_text ''compact selection reference has an invalid algorithm/track'' track) (\<lambda>track_id.
       Inr (challenge_id, algorithm_id, track_id)))))))))"

definition read_reference ::
    "(string \<times> json) list \<Rightarrow> (string \<times> json) list \<Rightarrow> json \<Rightarrow> selection_table \<Rightarrow> selection_table result" where
  "read_reference codes challenges row best =
     bindE (subscript row ''bundle'') (\<lambda>v. bindE (bundle_arguments v) (\<lambda>b.
     bindE (reference_scope codes challenges best (get ''challenge_id'' b) (get ''algorithm_id'' b) (get ''track_id'' b)) (\<lambda>(challenge_id, algorithm_id, track_id).
     bindE (p_text (get ''benchmark_id'' b) ''reference benchmark'') (\<lambda>benchmark_id.
     bindE (p_text (get ''player_id'' b) ''reference player'') (\<lambda>player_id.
     bindE (p_integer (get ''active_index'' b) ''reference bundle index'' 0) (\<lambda>active_index.
     bindE (p_integer (get ''quality'' b) ''reference quality'' (- (2 ^ 31))) (\<lambda>quality.
     if quality \<ge> 2 ^ 31 then malformed ''reference quality exceeds int32'' else
     bindE (subscript row ''hyperparameters'') (\<lambda>parameters.
     if \<not> valid_hyperparameters (Inr parameters) then malformed ''compact reference hyperparameters are invalid'' else
       Inr (best @ [((algorithm_id, track_id), (\<lparr>bu_benchmark_id = benchmark_id, bu_active_index = active_index, bu_player_id = player_id,
         bu_challenge_id = challenge_id, bu_algorithm_id = algorithm_id, bu_track_id = track_id, bu_quality = quality\<rparr>, parameters))])))))))))"

text \<open>No bundle of the pool beats the reference of its algorithm and track.\<close>

definition bundle_rank :: "scored_bundle \<Rightarrow> int \<times> string \<times> int" where
  "bundle_rank b = (- bu_quality b, bu_benchmark_id b, bu_active_index b)"

definition check_reference :: "snapshot \<Rightarrow> selection_table \<Rightarrow> scored_bundle \<Rightarrow> unit result" where
  "check_reference s best b =
     (case map_of best (bu_algorithm_id b, bu_track_id b) of None \<Rightarrow> malformed ''compact selection summary omits an active pool reference''
      | Some (reference, parameters) \<Rightarrow>
        if bundle_rank b < bundle_rank reference then malformed ''compact reference is worse than an available pool bundle'' else
        case map_of (sn_precommits s) (bu_benchmark_id reference) of None \<Rightarrow> Inr ()
        | Some precommit \<Rightarrow> bindE (path precommit [''details'', ''hyperparameters'']) (\<lambda>used.
            require (json_eq parameters used) (ProtocolDataError ''compact pool reference parameters differ from its precommit'')))"

section \<open>Validation\<close>

definition same_keys :: "json \<Rightarrow> json \<Rightarrow> bool result" where
  "same_keys start end_block = foldE (\<lambda>key same. if \<not> same then Inr False else
     bindE (subscript start key) (\<lambda>a. bindE (subscript end_block key) (\<lambda>b. Inr (json_eq a b)))) [''id'', ''details'', ''config''] True"

definition compact_header :: "(string \<times> json) list \<Rightarrow> (string \<times> bool) result" where
  "compact_header observation =
     (if \<not> known_version observation then malformed ''unsupported compact source identity version'' else
      bindE (item observation ''pool_player_id'') (\<lambda>v. bindE (p_text v ''compact pool player'') (\<lambda>player.
      bindE (item observation ''pool_active'') (\<lambda>v. case v of JBool pool_active \<Rightarrow>
        bindE (source_digests observation) (\<lambda>_. Inr (player, pool_active))
      | _ \<Rightarrow> malformed ''compact pool activity must be explicit''))))"

definition validate_compact :: "json \<Rightarrow> snapshot result" where
  "validate_compact value =
     bindE (case value of JDict items \<Rightarrow> Inr items | _ \<Rightarrow> Inl AttributeError) (\<lambda>observation.
     bindE (compact_header observation) (\<lambda>(player, pool_active).
     bindE (path value [''start'', ''block'']) (\<lambda>start. bindE (path value [''end'', ''block'']) (\<lambda>end_block.
     bindE (same_keys start end_block) (\<lambda>same. if \<not> same then malformed ''compact observation crossed a block boundary'' else
     bindE (path value [''algorithms'', ''codes'']) (\<lambda>v. bindE (p_index v ''id'' ''compact codes'') (\<lambda>codes.
     bindE (path value [''challenges'', ''challenges'']) (\<lambda>v. bindE (p_index v ''id'' ''compact challenges'') (\<lambda>challenges.
     bindE (compact_feed observation player pool_active) (\<lambda>_.
     bindE (compact_active observation pool_active) (\<lambda>active.
     bindE (path start [''details'', ''num_active'']) (\<lambda>counts.
     bindE (original_counts counts (int (length codes)) (int (length challenges)) (int (length active)) pool_active) (\<lambda>agree.
     if \<not> agree then malformed ''compact scope contradicts the original block counts'' else
     bindE (foldE (compact_code player) codes []) (\<lambda>t.
     bindE (scoped_view value codes challenges player pool_active active t) (\<lambda>view.
     bindE (validate_block None view) (\<lambda>s.
     bindE (item observation ''selection_references'') (\<lambda>v. bindE (iterate v) (\<lambda>rows.
     bindE (foldE (read_reference codes challenges) rows []) (\<lambda>best.
     bindE (mapE (check_reference s best) (sn_bundles s)) (\<lambda>_.
       Inr (s\<lparr>sn_selection_references := Some best\<rparr>)))))))))))))))))))))"

text \<open>\<open>protocol.validate_snapshot\<close>.\<close>

definition validate_snapshot :: "json \<Rightarrow> snapshot result" where
  "validate_snapshot observation =
     guard_fields ''missing or malformed protocol field'' (
     bindE (json_get observation ''format'') (\<lambda>kind.
       if kind = JStr ''pool-network-v1'' then validate_compact observation
       else if kind = JStr SCOPED_FORMAT then validate_scoped observation
       else validate_block None observation))"

end
