(* ===== verification/Protocol_Properties.thy ===== *)
theory Protocol_Properties
  imports Compact
begin

text \<open>
  What a validated snapshot promises, and the credit of its bundles: every validated snapshot
  can be credited, and a bundle's credit is the share of the remaining qualifiers its tie gets.
\<close>

section \<open>Ties\<close>

lemma concat_ties: "concat (ties bs) = bs"
  by (induction bs rule: ties.induct) simp_all

lemma ties_nonempty: "t \<in> set (ties bs) \<Longrightarrow> t \<noteq> []"
  by (induction bs rule: ties.induct) auto

text \<open>In a list sorted best first the bundles before a tie are the better ones.\<close>

abbreviation descending :: "scored_bundle list \<Rightarrow> bool" where
  "descending \<equiv> sorted_wrt (\<lambda>a b. bu_quality b \<le> bu_quality a)"

lemma descending_split:
  assumes "descending (b # bs)"
  shows "takeWhile (\<lambda>c. bu_quality c = bu_quality b) bs = filter (\<lambda>c. bu_quality c = bu_quality b) bs"
    and "dropWhile (\<lambda>c. bu_quality c = bu_quality b) bs = filter (\<lambda>c. bu_quality c < bu_quality b) bs"
  using assms
proof (induction bs)
  case (Cons c bs)
  { case 1 then show ?case using Cons by (auto simp: filter_empty_conv eq_commute [of "[]"]) next
    case 2 then show ?case using Cons by (auto intro!: filter_True [symmetric] intro: order.strict_trans1) }
qed simp_all

lemma ties_split:
  assumes "ties bs = pre @ t # post" and "descending bs" and "b \<in> set t"
  shows "concat pre = filter (\<lambda>c. bu_quality b < bu_quality c) bs \<and> t = filter (\<lambda>c. bu_quality c = bu_quality b) bs"
  using assms
proof (induction bs arbitrary: pre rule: ties.induct)
  case (2 a bs)
  note tie = descending_split [OF "2.prems"(2)]
  have rest: "descending (filter (\<lambda>c. bu_quality c < bu_quality a) bs)"
    using "2.prems"(2) by (auto intro: sorted_wrt_filter)
  have below: "\<forall>c \<in> set bs. bu_quality c \<le> bu_quality a" using "2.prems"(2) by auto
  show ?case
  proof (cases pre)
    case Nil
    then have t: "t = a # filter (\<lambda>c. bu_quality c = bu_quality a) bs" using "2.prems"(1) tie by simp
    then have "bu_quality b = bu_quality a" using "2.prems"(3) by auto
    moreover from this below have "filter (\<lambda>c. bu_quality b < bu_quality c) (a # bs) = []" by (auto simp: filter_empty_conv)
    ultimately show ?thesis using Nil t by simp
  next
    case (Cons g pre')
    then have g: "g = a # filter (\<lambda>c. bu_quality c = bu_quality a) bs"
      and split: "ties (filter (\<lambda>c. bu_quality c < bu_quality a) bs) = pre' @ t # post"
      using "2.prems"(1) tie by simp_all
    have IH: "concat pre' = filter (\<lambda>c. bu_quality b < bu_quality c) (filter (\<lambda>c. bu_quality c < bu_quality a) bs)"
      "t = filter (\<lambda>c. bu_quality c = bu_quality b) (filter (\<lambda>c. bu_quality c < bu_quality a) bs)"
      using "2.IH" [of pre'] split rest "2.prems"(3) tie by auto
    from "2.prems"(3) have "b \<in> set (filter (\<lambda>c. bu_quality c = bu_quality b) (filter (\<lambda>c. bu_quality c < bu_quality a) bs))"
      unfolding IH(2) [symmetric] .
    then have less: "bu_quality b < bu_quality a" by simp
    have "filter (\<lambda>c. bu_quality b < bu_quality c) bs =
        filter (\<lambda>c. bu_quality c = bu_quality a) bs @ filter (\<lambda>c. bu_quality b < bu_quality c) (filter (\<lambda>c. bu_quality c < bu_quality a) bs)"
    proof -
      have "filter (\<lambda>c. bu_quality b < bu_quality c) bs = filter (\<lambda>c. bu_quality b < bu_quality c)
          (takeWhile (\<lambda>c. bu_quality c = bu_quality a) bs @ dropWhile (\<lambda>c. bu_quality c = bu_quality a) bs)" by simp
      also have "\<dots> = filter (\<lambda>c. bu_quality c = bu_quality a) bs @ filter (\<lambda>c. bu_quality b < bu_quality c) (filter (\<lambda>c. bu_quality c < bu_quality a) bs)"
        unfolding filter_append tie using less by (auto intro: filter_cong)
      finally show ?thesis .
    qed
    then show ?thesis using IH less Cons g by (auto intro: filter_cong)
  qed
qed simp

lemma sort_key_descending: "descending (best_first bs)"
proof -
  have "sorted (map (\<lambda>b. (- bu_quality b, bu_benchmark_id b, bu_active_index b)) (best_first bs))"
    unfolding best_first_def by simp
  then show ?thesis unfolding sorted_map by (rule sorted_wrt_mono_rel [rotated]) auto
qed

lemma length_filter_best_first: "length (filter P (best_first bs)) = length (filter P bs)"
  by (metis best_first_def mset_filter mset_sort size_mset)

section \<open>Awarding a group\<close>

lemma map_of_award:
  "map_of (foldl (\<lambda>d b. AList.update (credit_key b) share d) credits tied) k =
   (if k \<in> credit_key ` set tied then Some share else map_of credits k)"
  by (induction tied arbitrary: credits) (auto simp: AList.update_conv')

text \<open>The credit of a tie: what remains for it, spread evenly.\<close>

definition tie_share :: "int \<Rightarrow> nat \<Rightarrow> nat \<Rightarrow> rat" where
  "tie_share q better tied = Fract (min (max 0 (q - int better)) (int tied)) (int tied)"

lemma fold_award:
  assumes "fold award gs (r, credits) = (r', credits')" and "0 \<le> r"
    and "distinct (map credit_key (concat gs))"
  shows "r' = max 0 (r - int (length (concat gs)))"
    and "k \<notin> credit_key ` set (concat gs) \<Longrightarrow> map_of credits' k = map_of credits k"
    and "gs = pre @ t # post \<Longrightarrow> b \<in> set t \<Longrightarrow>
      map_of credits' (credit_key b) = Some (tie_share r (length (concat pre)) (length t))"
  using assms
proof (induction gs arbitrary: r credits pre k)
  case (Cons g gs)
  define share where "share r = Fract (min r (int (length g))) (int (length g))" for r
  define credits1 where "credits1 r credits = foldl (\<lambda>d b. AList.update (credit_key b) (share r) d) credits g" for r credits
  define r1 where "r1 r = r - min r (int (length g))" for r
  have step: "award g (r, credits) = (r1 r, credits1 r credits)" for r credits
    by (simp add: award_def Let_def share_def credits1_def r1_def)
  have r1: "0 \<le> r \<Longrightarrow> 0 \<le> r1 r" "r1 r = max 0 (r - int (length g))" for r by (simp_all add: r1_def)
  { case 1
    have rest: "fold award gs (r1 r, credits1 r credits) = (r', credits')" using 1(1) by (simp only: fold_Cons o_apply step)
    have "r' = max 0 (r1 r - int (length (concat gs)))" using Cons.IH(1) [OF rest r1(1) [OF 1(2)]] 1(3) by simp
    then show ?case using r1(2) by simp
  next
    case 2
    have rest: "fold award gs (r1 r, credits1 r credits) = (r', credits')" using 2(2) by (simp only: fold_Cons o_apply step)
    have "map_of credits' k = map_of (credits1 r credits) k" using Cons.IH(2) [OF _ rest r1(1) [OF 2(3)], of k] 2 by auto
    then show ?case using 2(1) by (auto simp: credits1_def map_of_award)
  next
    case 3
    have rest: "fold award gs (r1 r, credits1 r credits) = (r', credits')" using 3(3) by (simp only: fold_Cons o_apply step)
    show ?case
    proof (cases pre)
      case Nil
      with 3 have t: "t = g" by simp
      with 3(2,5) have "credit_key b \<notin> credit_key ` set (concat gs)" by auto
      then have "map_of credits' (credit_key b) = map_of (credits1 r credits) (credit_key b)" using Cons.IH(2) [OF _ rest r1(1) [OF 3(4)], of "credit_key b"] 3(5) by simp
      then show ?thesis using 3 Nil t by (simp add: credits1_def map_of_award share_def tie_share_def)
    next
      case (Cons p pre')
      with 3 have gs: "gs = pre' @ t # post" "p = g" by simp_all
      then have "map_of credits' (credit_key b) = Some (tie_share (r1 r) (length (concat pre')) (length t))"
        using Cons.IH(3) [OF gs(1) 3(2) rest r1(1) [OF 3(4)]] 3(5) by simp
      moreover have "max 0 (r1 r - int (length (concat pre'))) = max 0 (r - int (length (concat pre)))"
        using Cons gs(2) r1(2) by auto
      ultimately show ?thesis by (simp add: tie_share_def)
    qed }
qed auto

section \<open>Crediting every group\<close>

lemma sum_update_fresh:
  "k \<notin> fst ` set d \<Longrightarrow> sum_list (map snd (AList.update k (v :: rat) d)) = sum_list (map snd d) + v"
  by (induction d) auto

lemma sum_award:
  assumes "distinct (map credit_key tied)" and "credit_key ` set tied \<inter> fst ` set credits = {}"
  shows "sum_list (map snd (foldl (\<lambda>d b. AList.update (credit_key b) (share :: rat) d) credits tied)) =
      sum_list (map snd credits) + of_nat (length tied) * share"
    and "fst ` set (foldl (\<lambda>d b. AList.update (credit_key b) share d) credits tied) = fst ` set credits \<union> credit_key ` set tied"
  using assms
proof (induction tied arbitrary: credits)
  case (Cons b tied)
  { case 1
    then have "sum_list (map snd (foldl (\<lambda>d b. AList.update (credit_key b) share d) (AList.update (credit_key b) share credits) tied))
        = sum_list (map snd (AList.update (credit_key b) share credits)) + of_nat (length tied) * share"
      by (intro Cons.IH(1)) (auto simp: dom_update)
    with 1 show ?case by (simp add: sum_update_fresh algebra_simps)
  next
    case 2
    then have "fst ` set (foldl (\<lambda>d b. AList.update (credit_key b) share d) (AList.update (credit_key b) share credits) tied)
        = fst ` set (AList.update (credit_key b) share credits) \<union> credit_key ` set tied"
      by (intro Cons.IH(2)) (auto simp: dom_update)
    then show ?case by (auto simp: dom_update) }
qed simp_all

lemma fold_award_total:
  assumes "fold award gs (r, credits) = (r', credits')" and "\<forall>t \<in> set gs. t \<noteq> []"
    and "distinct (map credit_key (concat gs))" and "credit_key ` set (concat gs) \<inter> fst ` set credits = {}"
  shows "sum_list (map snd credits') = sum_list (map snd credits) + of_int (r - r') \<and>
    fst ` set credits' = fst ` set credits \<union> credit_key ` set (concat gs)"
  using assms
proof (induction gs arbitrary: r credits)
  case (Cons g gs)
  define share where "share = Fract (min r (int (length g))) (int (length g))"
  define credits1 where "credits1 = foldl (\<lambda>d b. AList.update (credit_key b) share d) credits g"
  define r1 where "r1 = r - min r (int (length g))"
  have step: "award g (r, credits) = (r1, credits1)"
    by (simp add: award_def Let_def share_def credits1_def r1_def)
  have rest: "fold award gs (r1, credits1) = (r', credits')" using Cons.prems(1) by (simp only: fold_Cons o_apply step)
  have sum1: "sum_list (map snd credits1) = sum_list (map snd credits) + of_int (r - r1)"
    and keys1: "fst ` set credits1 = fst ` set credits \<union> credit_key ` set g"
    using sum_award [of g credits share] Cons.prems unfolding credits1_def
    by (auto simp: share_def r1_def Fract_of_int_quotient)
  have "sum_list (map snd credits') = sum_list (map snd credits1) + of_int (r1 - r') \<and>
      fst ` set credits' = fst ` set credits1 \<union> credit_key ` set (concat gs)"
    using Cons.prems keys1 by (intro Cons.IH rest) (simp_all add: image_Un Int_Un_distrib Int_Un_distrib2 Int_commute)
  then show ?case using sum1 keys1 by (simp add: Un_assoc image_Un)
qed simp

lemma group_order_set: "set (group_order bs seen) = group ` set bs - set seen"
  by (induction bs seen rule: group_order.induct) auto

lemma group_order_distinct: "distinct (group_order bs seen)"
  by (induction bs seen rule: group_order.induct) (auto simp: group_order_set)

definition members_of :: "snapshot \<Rightarrow> group_key \<Rightarrow> scored_bundle list" where
  "members_of s key = filter (\<lambda>b. group b = key) (sn_bundles s)"

definition member_credit :: "snapshot \<Rightarrow> group_key \<Rightarrow> scored_bundle \<Rightarrow> rat" where
  "member_credit s key b = tie_share (count_of key (sn_qualifiers s))
      (length (filter (\<lambda>c. bu_quality b < bu_quality c) (members_of s key)))
      (length (filter (\<lambda>c. bu_quality c = bu_quality b) (members_of s key)))"

text \<open>What validation establishes, and crediting needs.\<close>

definition creditable :: "snapshot \<Rightarrow> bool" where
  "creditable s \<longleftrightarrow> distinct (map credit_key (sn_bundles s)) \<and> distinct (map fst (sn_qualifiers s)) \<and>
     (\<forall>(key, n) \<in> set (sn_qualifiers s). 0 \<le> n \<and> n \<le> candidates key (sn_bundles s))"

lemma count_of_bounds:
  assumes "creditable s" shows "0 \<le> count_of key (sn_qualifiers s)" "count_of key (sn_qualifiers s) \<le> int (length (members_of s key))"
  using assms by (fastforce simp: creditable_def count_of_def candidates_def members_of_def dest: map_of_SomeD split: option.splits)+

lemma credit_group_effect:
  assumes s: "creditable s" and fresh: "credit_key ` set (members_of s key) \<inter> fst ` set credits = {}"
  obtains credits' where "credit_group s key credits = Inr credits'"
    and "sum_list (map snd credits') = sum_list (map snd credits) + of_int (count_of key (sn_qualifiers s))"
    and "fst ` set credits' = fst ` set credits \<union> credit_key ` set (members_of s key)"
    and "\<And>b. b \<in> set (members_of s key) \<Longrightarrow> map_of credits' (credit_key b) = Some (member_credit s key b)"
    and "\<And>k. k \<notin> credit_key ` set (members_of s key) \<Longrightarrow> map_of credits' k = map_of credits k"
proof -
  define q where "q = count_of key (sn_qualifiers s)"
  define bs where "bs = best_first (members_of s key)"
  obtain r' credits' where run: "fold award (ties bs) (q, credits) = (r', credits')" by (metis surj_pair)
  have mset: "mset bs = mset (members_of s key)" by (simp add: bs_def best_first_def)
  then have set_bs: "set bs = set (members_of s key)" by (rule mset_eq_setD)
  have q: "0 \<le> q" "q \<le> int (length bs)"
    using count_of_bounds [OF s, of key] mset by (simp_all add: q_def flip: size_mset)
  have "distinct (map credit_key (members_of s key))"
    using s by (auto simp: creditable_def members_of_def distinct_map intro: inj_on_subset)
  then have dist: "distinct (map credit_key (concat (ties bs)))"
    unfolding concat_ties by (metis mset mset_map mset_eq_imp_distinct_iff)
  note award = fold_award [OF run q(1) dist] and total = fold_award_total [OF run _ dist]
  have "r' = 0" using award(1) q(2) by (simp add: concat_ties)
  moreover have "map_of credits' (credit_key b) = Some (tie_share q
      (length (filter (\<lambda>c. bu_quality b < bu_quality c) (members_of s key)))
      (length (filter (\<lambda>c. bu_quality c = bu_quality b) (members_of s key))))" if "b \<in> set (members_of s key)" for b
  proof -
    have "b \<in> set (concat (ties bs))" using that by (simp add: concat_ties set_bs)
    then obtain t where "t \<in> set (ties bs)" "b \<in> set t" by auto
    then obtain pre post where t: "ties bs = pre @ t # post" "b \<in> set t" by (meson split_list)
    note split = ties_split [OF t(1) sort_key_descending [of "members_of s key", folded bs_def] t(2)]
    show ?thesis
      using award(3) [OF t] split length_filter_best_first [of _ "members_of s key", folded bs_def] by simp
  qed
  moreover have "map_of credits' k = map_of credits k" if "k \<notin> credit_key ` set (members_of s key)" for k
    using award(2) that by (simp only: concat_ties set_bs)
  moreover have "sum_list (map snd credits') = sum_list (map snd credits) + of_int q \<and>
      fst ` set credits' = fst ` set credits \<union> credit_key ` set (members_of s key)"
    using total fresh \<open>r' = 0\<close> by (simp add: ties_nonempty concat_ties set_bs)
  ultimately show thesis
    using run by (intro that [of credits']) (simp_all add: credit_group_def bs_def q_def member_credit_def flip: members_of_def)
qed

lemma credit_groups_effect:
  assumes s: "creditable s" and "distinct keys" and "\<forall>key \<in> set keys. credit_key ` set (members_of s key) \<inter> fst ` set credits = {}"
  shows "\<exists>credits'. foldE (credit_group s) keys credits = Inr credits' \<and>
    sum_list (map snd credits') = sum_list (map snd credits) + of_int (\<Sum>key \<leftarrow> keys. count_of key (sn_qualifiers s)) \<and>
    fst ` set credits' = fst ` set credits \<union> (\<Union>key \<in> set keys. credit_key ` set (members_of s key)) \<and>
    (\<forall>key \<in> set keys. \<forall>b \<in> set (members_of s key). map_of credits' (credit_key b) = Some (member_credit s key b)) \<and>
    (\<forall>k. k \<notin> (\<Union>key \<in> set keys. credit_key ` set (members_of s key)) \<longrightarrow> map_of credits' k = map_of credits k)"
  using assms(2,3)
proof (induction keys arbitrary: credits)
  case (Cons key keys)
  have inj: "inj_on credit_key (set (sn_bundles s))" using s by (simp add: creditable_def distinct_map)
  have apart: "credit_key ` set (members_of s key') \<inter> credit_key ` set (members_of s key) = {}" if "key' \<in> set keys" for key'
    using Cons.prems(1) that inj by (auto simp: members_of_def dest: inj_onD)
  obtain credits1 where step: "credit_group s key credits = Inr credits1"
    and sum1: "sum_list (map snd credits1) = sum_list (map snd credits) + of_int (count_of key (sn_qualifiers s))"
    and keys1: "fst ` set credits1 = fst ` set credits \<union> credit_key ` set (members_of s key)"
    and in1: "\<And>b. b \<in> set (members_of s key) \<Longrightarrow> map_of credits1 (credit_key b) = Some (member_credit s key b)"
    and out1: "\<And>k. k \<notin> credit_key ` set (members_of s key) \<Longrightarrow> map_of credits1 k = map_of credits k"
    using credit_group_effect [OF s, of key credits] Cons.prems(2) by auto
  have "distinct keys" and "\<forall>key' \<in> set keys. credit_key ` set (members_of s key') \<inter> fst ` set credits1 = {}"
    using Cons.prems apart by (auto simp: keys1 Int_Un_distrib)
  from Cons.IH [OF this] obtain credits' where rest: "foldE (credit_group s) keys credits1 = Inr credits'"
    "sum_list (map snd credits') = sum_list (map snd credits1) + of_int (\<Sum>key \<leftarrow> keys. count_of key (sn_qualifiers s))"
    "fst ` set credits' = fst ` set credits1 \<union> (\<Union>key \<in> set keys. credit_key ` set (members_of s key))"
    and in': "\<forall>key \<in> set keys. \<forall>b \<in> set (members_of s key). map_of credits' (credit_key b) = Some (member_credit s key b)"
    and out': "\<forall>k. k \<notin> (\<Union>key \<in> set keys. credit_key ` set (members_of s key)) \<longrightarrow> map_of credits' k = map_of credits1 k"
    by (elim exE conjE) (rule that; assumption)
  have mine: "map_of credits' (credit_key b) = map_of credits1 (credit_key b)" if "b \<in> set (members_of s key)" for b
  proof (rule out' [rule_format])
    have "credit_key b \<in> credit_key ` set (members_of s key)" using that by simp
    with apart show "credit_key b \<notin> (\<Union>key \<in> set keys. credit_key ` set (members_of s key))" by (meson UN_E disjoint_iff)
  qed
  have "map_of credits' (credit_key b) = Some (member_credit s k b)" if "k \<in> set (key # keys)" "b \<in> set (members_of s k)" for k b
  proof (cases "k = key")
    case True
    with mine [of b] in1 [of b] that(2) show ?thesis by simp
  next
    case False
    with in' that show ?thesis by simp
  qed
  moreover have "map_of credits' k = map_of credits k" if "k \<notin> (\<Union>key \<in> set (key # keys). credit_key ` set (members_of s key))" for k
    using that out1 [of k] out' [rule_format, of k] by simp
  ultimately show ?case
    using step rest sum1 keys1 by (intro exI [of _ credits'] conjI) (simp_all add: Un_assoc)
qed simp

text \<open>The qualifiers of the groups that have bundles are all the qualifiers.\<close>

lemma sum_counts:
  assumes "distinct (map fst d)" and "distinct keys" and "\<forall>(k, n) \<in> set d. n \<noteq> (0::int) \<longrightarrow> k \<in> set keys"
  shows "(\<Sum>k \<leftarrow> keys. count_of k d) = sum_list (map snd d)"
  using assms(1,3)
proof (induction d)
  case Nil
  then show ?case by (simp add: count_of_def)
next
  case (Cons p d)
  obtain k n where p: "p = (k, n)" by (cases p)
  have absent: "count_of k d = 0" using Cons.prems(1) p by (force simp: count_of_def map_of_eq_None_iff split: option.splits dest: map_of_SomeD)
  have split: "count_of j ((k, n) # d) = count_of j d + (if j = k then n else 0)" for j
    using absent by (simp add: count_of_def)
  have "(\<Sum>j \<leftarrow> keys. if j = k then n else 0) = (if k \<in> set keys then n else 0)"
    using assms(2) by (induction keys) auto
  then show ?case using Cons by (auto simp: p split sum_list_addf)
qed

definition bundle_credit :: "snapshot \<Rightarrow> scored_bundle \<Rightarrow> rat" where
  "bundle_credit s b = tie_share (count_of (group b) (sn_qualifiers s))
     (length (filter (\<lambda>c. group c = group b \<and> bu_quality b < bu_quality c) (sn_bundles s)))
     (length (filter (\<lambda>c. group c = group b \<and> bu_quality c = bu_quality b) (sn_bundles s)))"

lemma creditable_credits:
  assumes s: "creditable s"
  obtains credits where "equal_bundle_credit s = Inr credits"
    and "sum_list (map snd credits) = of_int (sum_list (map snd (sn_qualifiers s)))"
    and "fst ` set credits = credit_key ` set (sn_bundles s)"
    and "\<And>b. b \<in> set (sn_bundles s) \<Longrightarrow> map_of credits (credit_key b) = Some (bundle_credit s b)"
proof -
  let ?keys = "group_order (sn_bundles s) []"
  have keys: "set ?keys = group ` set (sn_bundles s)" by (simp add: group_order_set)
  obtain credits where run: "foldE (credit_group s) ?keys [] = Inr credits"
    and sum: "sum_list (map snd credits) = of_int (\<Sum>key \<leftarrow> ?keys. count_of key (sn_qualifiers s))"
    and dom: "fst ` set credits = (\<Union>key \<in> set ?keys. credit_key ` set (members_of s key))"
    and val: "\<And>key b. key \<in> set ?keys \<Longrightarrow> b \<in> set (members_of s key) \<Longrightarrow> map_of credits (credit_key b) = Some (member_credit s key b)"
    using credit_groups_effect [OF s group_order_distinct, of "sn_bundles s" "[]" "[]"] by auto
  have "k \<in> set ?keys" if "(k, n) \<in> set (sn_qualifiers s)" "n \<noteq> 0" for k n
  proof -
    have "0 < candidates k (sn_bundles s)" using s that by (fastforce simp: creditable_def)
    then have "filter (\<lambda>b. group b = k) (sn_bundles s) \<noteq> []" by (auto simp: candidates_def)
    then show ?thesis by (force simp: keys filter_empty_conv)
  qed
  then have total: "(\<Sum>key \<leftarrow> ?keys. count_of key (sn_qualifiers s)) = sum_list (map snd (sn_qualifiers s))"
    using s by (intro sum_counts group_order_distinct) (auto simp: creditable_def)
  have "map_of credits (credit_key b) = Some (bundle_credit s b)" if "b \<in> set (sn_bundles s)" for b
    using val [of "group b" b] that by (simp add: keys members_of_def member_credit_def bundle_credit_def conj_commute)
  moreover have "fst ` set credits = credit_key ` set (sn_bundles s)"
    unfolding dom keys by (auto simp: members_of_def)
  ultimately show thesis
    using run sum total by (intro that [of credits]) (simp_all add: equal_bundle_credit_def)
qed

section \<open>Validated snapshots can be credited\<close>

lemma enumerate_fst: "map fst (enumerate n xs) = [n..<n + length xs]"
  by (simp add: enumerate_eq_zip)

lemma scored_bundles:
  assumes "scored i p c a track scores = Inr bs"
  shows "(\<forall>b \<in> set bs. bu_benchmark_id b = i) \<and> distinct (map bu_active_index bs)"
proof -
  obtain t qs where bs: "bs = map (\<lambda>(j, q). \<lparr>bu_benchmark_id = i, bu_active_index = int j, bu_player_id = p, bu_challenge_id = c,
      bu_algorithm_id = a, bu_track_id = t, bu_quality = q\<rparr>) (enumerate 0 qs)"
    using assms by (auto simp: scored_def bindE_Inr)
  have "map bu_active_index bs = map (int \<circ> fst) (enumerate 0 qs)" unfolding bs by (simp add: case_prod_beta)
  also have "\<dots> = map int [0..<length qs]" by (simp flip: map_map add: enumerate_fst)
  finally show ?thesis using bs by (auto simp: distinct_map)
qed

lemma active_benchmark_bundles:
  assumes "active_benchmark h as cs t i = Inr bs"
  shows "(\<forall>b \<in> set bs. bu_benchmark_id b = i) \<and> distinct (map bu_active_index bs)"
  using assms unfolding active_benchmark_def Let_def
  by (auto simp: bindE_Inr dest: scored_bundles split: if_split_asm)

lemma distinct_credit_keys:
  assumes "mapE (active_benchmark h as cs t) ids = Inr bss" and "distinct ids"
  shows "distinct (map credit_key (concat bss)) \<and> (\<forall>b \<in> set (concat bss). bu_benchmark_id b \<in> set ids)"
  using assms
proof (induction ids arbitrary: bss)
  case (Cons i ids)
  then obtain bs rest where bss: "bss = bs # rest" "active_benchmark h as cs t i = Inr bs" "mapE (active_benchmark h as cs t) ids = Inr rest"
    by (auto simp: bindE_Inr)
  note mine = active_benchmark_bundles [OF bss(2)] and IH = Cons.IH [OF bss(3)]
  have "distinct (map credit_key bs)"
    using mine by (auto simp: distinct_map inj_on_def credit_key_def)
  moreover have "credit_key ` set bs \<inter> credit_key ` set (concat rest) = {}"
    using mine IH Cons.prems(2) by (fastforce simp: credit_key_def)
  ultimately show ?case using mine IH Cons.prems(2) bss(1) by auto
qed simp

definition totals_ok :: "string option \<Rightarrow> scored_bundle list \<Rightarrow> totals \<Rightarrow> bool" where
  "totals_ok scope bundles t \<longleftrightarrow> distinct (map fst (to_qualifiers t)) \<and>
     (\<forall>(key, n) \<in> set (to_qualifiers t). 0 \<le> n \<and> (scope = None \<or> scope = Some (fst key) \<longrightarrow> n \<le> candidates key bundles))"

lemma set_update: "set (AList.update k v d) \<subseteq> insert (k, v) (set d)"
  by (induction d) auto

lemma count_player_ok:
  assumes "count_player scope bundles c a track (p, n) t = Inr t'" and "totals_ok scope bundles t" and "0 \<le> n"
  shows "totals_ok scope bundles t'"
  using assms set_update [of "(p, c, a, track)" n "to_qualifiers t"]
  by (auto simp: count_player_def totals_ok_def Let_def bindE_Inr outcome distinct_update)

lemma foldE_invariant:
  "foldE f xs s = Inr s' \<Longrightarrow> P s \<Longrightarrow> (\<And>x s s'. x \<in> set xs \<Longrightarrow> P s \<Longrightarrow> f x s = Inr s' \<Longrightarrow> P s') \<Longrightarrow> P s'"
proof (induction xs arbitrary: s)
  case (Cons x xs)
  then obtain s1 where "f x s = Inr s1" "foldE f xs s1 = Inr s'" by (auto simp: bindE_Inr)
  then show ?case using Cons by (meson list.set_intros)
qed simp

lemma count_track_ok:
  assumes "count_track scope bundles c a tr t = Inr t'" and "totals_ok scope bundles t"
  shows "totals_ok scope bundles t'"
proof -
  obtain track v where tr: "tr = (track, v)" by (cases tr)
  obtain counts where c: "p_counts v ''algorithm player qualifiers'' = Inr counts"
    and f: "foldE (count_player scope bundles c a track) counts t = Inr t'"
    using assms(1) unfolding count_track_def tr prod.case bindE_Inr by blast
  show ?thesis
    by (rule foldE_invariant [where P = "totals_ok scope bundles", OF f assms(2)]) (use p_counts_nonneg [OF c] count_player_ok in force)
qed

lemma count_algorithm_ok:
  assumes "count_algorithm scope bundles al t = Inr t'" and "totals_ok scope bundles t"
  shows "totals_ok scope bundles t'"
proof -
  obtain a row where al: "al = (a, row)" by (cases al)
  obtain c tracks where f: "foldE (count_track scope bundles c a) tracks t = Inr t'"
    using assms(1) unfolding count_algorithm_def al prod.case bindE_Inr raise_if_Inr by blast
  show ?thesis by (rule foldE_invariant [where P = "totals_ok scope bundles", OF f assms(2)]) (rule count_track_ok)
qed

lemma count_qualifiers_ok:
  assumes "count_qualifiers scope bundles algorithms = Inr t" shows "totals_ok scope bundles t"
  using assms unfolding count_qualifiers_def
  by (rule foldE_invariant) (simp_all add: count_algorithm_ok, simp add: totals_ok_def)

lemma validate_block_creditable:
  assumes "validate_block scope observation = Inr s" shows "creditable s"
proof -
  obtain h active ids opow_ids algorithms challenges opow t bundles qualifiers
    where ids: "active_ids observation (bh_details h) active scope ''benchmark'' = Inr ids"
      and b: "active_bundles (bh_height h) algorithms challenges t ids = Inr bundles"
      and q: "reconcile_totals scope bundles algorithms challenges opow opow_ids = Inr qualifiers"
      and s: "s = snapshot_of scope h ids algorithms challenges t bundles qualifiers"
    using assms unfolding validate_block_def bindE_Inr by blast
  have "distinct ids" using ids unfolding active_ids_def bindE_Inr by (auto split: if_splits simp: bindE_Inr)
  moreover obtain bss where "mapE (active_benchmark (bh_height h) algorithms challenges t) (sort ids) = Inr bss" "bundles = concat bss"
    using b by (auto simp: active_bundles_def bindE_Inr)
  ultimately have "distinct (map credit_key bundles)" using distinct_credit_keys by (metis distinct_sort)
  moreover obtain to where "count_qualifiers scope bundles algorithms = Inr to"
    and quals: "qualifiers = (case scope of None \<Rightarrow> to_qualifiers to | Some player \<Rightarrow> filter (\<lambda>(key, _). fst key = player) (to_qualifiers to))"
    using q unfolding reconcile_totals_def bindE_Inr raise_if_Inr by blast
  then have "totals_ok scope bundles to" by (simp add: count_qualifiers_ok)
  then have "distinct (map fst qualifiers) \<and> (\<forall>(key, n) \<in> set qualifiers. 0 \<le> n \<and> n \<le> candidates key bundles)"
    unfolding quals totals_ok_def by (cases scope) (auto intro: distinct_map_filter)
  ultimately show ?thesis by (simp add: s creditable_def snapshot_of_def)
qed

lemma validate_scoped_creditable: "validate_scoped observation = Inr s \<Longrightarrow> creditable s"
  unfolding validate_scoped_def bindE_Inr raise_if_Inr using validate_block_creditable by blast

lemma validate_compact_block:
  assumes "validate_compact observation = Inr s"
  obtains view s' best checks where "validate_block None view = Inr s'" "s = s'\<lparr>sn_selection_references := Some best\<rparr>"
    "mapE (check_reference s' best) (sn_bundles s') = Inr checks"
proof -
  obtain items where items: "observation = JDict items" using assms by (cases observation) (auto simp: validate_compact_def)
  show thesis
    using assms that unfolding validate_compact_def items json.case bindE_simps bindE_Inr case_prod_beta raise_if_Inr sum.inject by blast
qed

lemma creditable_references [simp]: "creditable (s\<lparr>sn_selection_references := r\<rparr>) \<longleftrightarrow> creditable s"
  by (simp add: creditable_def)

lemma validate_snapshot_creditable:
  assumes "validate_snapshot observation = Inr s" shows "creditable s"
proof -
  have "validate_compact observation = Inr s \<or> validate_scoped observation = Inr s \<or> validate_block None observation = Inr s"
    using assms by (auto simp: validate_snapshot_def outcome split: if_splits)
  moreover have "creditable s" if c: "validate_compact observation = Inr s"
    by (rule validate_compact_block [OF c]) (simp add: validate_block_creditable)
  ultimately show ?thesis using validate_scoped_creditable validate_block_creditable by blast
qed

section \<open>The share of a tie\<close>

lemma tie_share_eq:
  assumes "0 < tied"
  shows "tie_share q better tied = min 1 (max 0 (of_int (q - int better) / of_nat tied))"
proof -
  define d where "d = q - int better"
  consider "d \<le> 0" | "0 < d" "d < int tied" | "int tied \<le> d" by linarith
  then have "Fract (min (max 0 d) (int tied)) (int tied) = min 1 (max 0 (of_int d / of_nat tied))"
  proof cases
    case 1
    then have "of_int d / of_nat tied \<le> (0::rat)" by (simp add: divide_nonpos_nonneg)
    with 1 show ?thesis by (simp add: Fract_of_int_quotient max_def min_def)
  next
    case 2
    then have "(of_int d :: rat) < of_int (int tied)" by (simp only: of_int_less_iff)
    then have "of_int d / of_nat tied < (1::rat)" "0 < of_int d / (of_nat tied :: rat)" using assms 2 by (simp_all add: divide_less_eq)
    with 2 show ?thesis by (simp add: Fract_of_int_quotient max_def min_def)
  next
    case 3
    then have "(of_int (int tied) :: rat) \<le> of_int d" by (simp only: of_int_le_iff)
    then have "(1::rat) \<le> of_int d / of_nat tied" using assms by (simp add: le_divide_eq)
    with 3 assms show ?thesis by (simp add: Fract_of_int_quotient max_def min_def)
  qed
  then show ?thesis by (simp add: tie_share_def d_def)
qed

lemma tie_share_range: "0 < tied \<Longrightarrow> 0 \<le> tie_share q better tied \<and> tie_share q better tied \<le> 1"
  by (simp add: tie_share_eq)

lemma tie_share_next:
  assumes "0 < tied" "better + tied \<le> better'" "tie_share q better tied < 1"
  shows "tie_share q better' tied' = 0"
proof -
  have "min (max 0 (q - int better)) (int tied) < int tied"
    using assms(1,3) by (simp add: tie_share_def Fract_of_int_quotient divide_simps)
  then have "q - int better' < 0" using assms(2) by linarith
  then show ?thesis by (simp add: tie_share_def Fract_of_int_quotient)
qed

lemma strictly_better:
  assumes "bu_quality c < bu_quality b"
  shows "length (filter (\<lambda>x. group x = g \<and> bu_quality b < bu_quality x) bs) + length (filter (\<lambda>x. group x = g \<and> bu_quality x = bu_quality b) bs)
    \<le> length (filter (\<lambda>x. group x = g \<and> bu_quality c < bu_quality x) bs)"
  using assms by (induction bs) auto

lemma bundle_credit_order:
  assumes "b \<in> set (sn_bundles s)" "c \<in> set (sn_bundles s)" "group b = group c" "bu_quality c < bu_quality b"
  shows "bundle_credit s b < 1 \<Longrightarrow> bundle_credit s c = 0"
proof -
  let ?n = "\<lambda>P. length (filter (\<lambda>x. group x = group b \<and> P x) (sn_bundles s))"
  have "0 < ?n (\<lambda>x. bu_quality x = bu_quality b)" using assms(1) by (auto simp: filter_empty_conv)
  moreover have "?n (\<lambda>x. bu_quality b < bu_quality x) + ?n (\<lambda>x. bu_quality x = bu_quality b) \<le> ?n (\<lambda>x. bu_quality c < bu_quality x)"
    by (rule strictly_better [OF assms(4)])
  ultimately show "bundle_credit s b < 1 \<Longrightarrow> bundle_credit s c = 0"
    unfolding bundle_credit_def assms(3) [symmetric] by (rule tie_share_next)
qed

section \<open>A concrete capture\<close>

text \<open>One player's benchmark \<open>b\<close> with two tied bundles and a worse one, of which two qualify.\<close>

definition demo_block :: json where
  "demo_block = JDict [(''id'', JStr ''h''), (''config'', JDict []),
     (''details'', JDict [(''height'', JInt 9), (''round'', JInt 1), (''timestamp'', JInt 5), (''prev_block_id'', JStr ''g''),
       (''num_active'', JDict [(''benchmark'', JInt 1), (''opow'', JInt 1), (''code'', JInt 1), (''challenge'', JInt 1)])]),
     (''data'', JDict [(''active_ids'', JDict [(''benchmark'', JList [JStr ''b'']), (''opow'', JList [JStr ''p'']),
       (''code'', JList [JStr ''a'']), (''challenge'', JList [JStr ''c''])])])]"

definition demo_feed :: json where
  "demo_feed = (let state = (''state'', JDict [(''block_confirmed'', JInt 3)]) in
     JDict [(''precommits'', JList [JDict [(''benchmark_id'', JStr ''b''), state,
       (''settings'', JDict [(''player_id'', JStr ''p''), (''challenge_id'', JStr ''c''), (''algorithm_id'', JStr ''a''), (''track_id'', JStr ''t'')]),
       (''details'', JDict [(''block_started'', JInt 2), (''num_bundles'', JInt 3), (''fuel_budget'', JInt 7),
         (''compute_type'', JStr ''cpu''), (''hyperparameters'', JNull)])]]),
      (''benchmarks'', JList [JDict [(''id'', JStr ''b''), state, (''details'', JDict [(''stopped'', JBool False),
         (''average_quality_by_bundle'', JList [JInt 6, JInt 4, JInt 6]), (''num_active_bundles'', JInt 3)])]]),
      (''proofs'', JList [JDict [(''benchmark_id'', JStr ''b''), state, (''details'', JDict [(''block_active'', JInt 4)])]]),
      (''frauds'', JList [])])"

definition demo_observation :: "int \<Rightarrow> json" where
  "demo_observation n = JDict [(''start'', JDict [(''block'', demo_block)]), (''end'', JDict [(''block'', demo_block)]),
     (''algorithms'', JDict [(''codes'', JList [JDict [(''id'', JStr ''a''), (''details'', JDict [(''challenge_id'', JStr ''c'')]),
       (''block_data'', JDict [(''adoption'', JStr ''0''), (''num_qualifiers_by_track_by_player'', JDict [(''t'', JDict [(''p'', JInt n)])])])]])]),
     (''challenges'', JDict [(''challenges'', JList [JDict [(''id'', JStr ''c''), (''config'', JDict [(''active_tracks'', JDict [(''t'', JNull)])]),
       (''block_data'', JDict [(''num_qualifiers_by_track'', JDict [(''t'', JInt n)])])]])]),
     (''opow'', JDict [(''opow'', JList [JDict [(''player_id'', JStr ''p''),
       (''block_data'', JDict [(''num_qualifiers_by_challenge_by_track'', JDict [(''c'', JDict [(''t'', JInt n)])])])]])]),
     (''players'', JDict [(''p'', demo_feed)])]"

lemma demo_valid: "case validate_snapshot (demo_observation 1) of Inl _ \<Rightarrow> False | Inr s \<Rightarrow>
    length (sn_bundles s) = 3 \<and> map bu_quality (sn_bundles s) = [6, 4, 6] \<and>
    group (sn_bundles s ! 0) = group (sn_bundles s ! 1) \<and>
    equal_bundle_credit s = Inr [((''b'', 0), 1 / 2), ((''b'', 2), 1 / 2), ((''b'', 1), 0)]"
  by code_simp

section \<open>Properties\<close>

text \<open>
  C8. Every snapshot that passes validation, in any of the three formats, can be credited:
  the distribution never stops on unallocated credit, it credits exactly the snapshot's
  bundles, and the credits add up to the qualifiers.
\<close>

theorem validated_snapshot_credits:
  assumes "validate_snapshot observation = Inr s"
  shows "\<exists>credits. equal_bundle_credit s = Inr credits \<and> fst ` set credits = credit_key ` set (sn_bundles s) \<and>
    sum_list (map snd credits) = of_int (sum_list (map snd (sn_qualifiers s)))"
proof -
  from creditable_credits [OF validate_snapshot_creditable [OF assms]] show ?thesis by metis
qed

theorem validated_snapshot_credits_witness:
  "\<exists>s credits. validate_snapshot (demo_observation 1) = Inr s \<and> equal_bundle_credit s = Inr credits \<and> sum_list (map snd credits) = 1"
proof -
  obtain s where s: "validate_snapshot (demo_observation 1) = Inr s"
    and c: "equal_bundle_credit s = Inr [((''b'', 0), 1 / 2), ((''b'', 2), 1 / 2), ((''b'', 1), 0)]"
    using demo_valid by (auto split: sum.splits)
  from validated_snapshot_credits [OF s] c s show ?thesis by fastforce
qed

text \<open>
  C20. The sorting and tie splitting compute a reference formula: a bundle's credit is its
  share of the qualifiers that the better bundles of its group leave, spread over its tie and
  cut to between zero and one.
\<close>

theorem equal_bundle_credit_formula:
  assumes "validate_snapshot observation = Inr s" and "equal_bundle_credit s = Inr credits" and "b \<in> set (sn_bundles s)"
  shows "map_of credits (credit_key b) = Some (min 1 (max 0 (of_int (count_of (group b) (sn_qualifiers s) -
      int (length (filter (\<lambda>c. group c = group b \<and> bu_quality b < bu_quality c) (sn_bundles s)))) /
    of_nat (length (filter (\<lambda>c. group c = group b \<and> bu_quality c = bu_quality b) (sn_bundles s))))))"
proof -
  obtain credits' where "equal_bundle_credit s = Inr credits'" "map_of credits' (credit_key b) = Some (bundle_credit s b)"
    using creditable_credits [OF validate_snapshot_creditable [OF assms(1)]] assms(3) by metis
  with assms(2) have "map_of credits (credit_key b) = Some (bundle_credit s b)" by simp
  moreover have "filter (\<lambda>c. group c = group b \<and> bu_quality c = bu_quality b) (sn_bundles s) \<noteq> []"
    using assms(3) by (auto simp: filter_empty_conv)
  ultimately show ?thesis by (simp add: bundle_credit_def tie_share_eq)
qed

theorem equal_bundle_credit_formula_witness:
  "\<exists>s credits. validate_snapshot (demo_observation 1) = Inr s \<and> equal_bundle_credit s = Inr credits \<and>
    map_of credits (credit_key (sn_bundles s ! 0)) \<noteq> None"
proof -
  obtain s credits where s: "validate_snapshot (demo_observation 1) = Inr s" "equal_bundle_credit s = Inr credits" "length (sn_bundles s) = 3"
    using demo_valid by (auto split: sum.splits)
  have "sn_bundles s ! 0 \<in> set (sn_bundles s)" using s(3) by simp
  from equal_bundle_credit_formula [OF s(1,2) this] s show ?thesis by auto
qed

text \<open>
  C21. Credit is fair within a group (one player, challenge, algorithm and track): it lies
  between zero and one, bundles of equal quality earn the same, and a worse bundle earns
  nothing until every better one is fully credited.
\<close>

theorem equal_bundle_credit_fair:
  assumes "validate_snapshot observation = Inr s" and "equal_bundle_credit s = Inr credits"
    and "b \<in> set (sn_bundles s)" and "c \<in> set (sn_bundles s)" and "group b = group c" and "bu_quality c \<le> bu_quality b"
  shows "\<exists>x y. map_of credits (credit_key b) = Some x \<and> map_of credits (credit_key c) = Some y \<and> 0 \<le> y \<and> y \<le> x \<and> x \<le> 1 \<and>
    (bu_quality b = bu_quality c \<longrightarrow> x = y) \<and> (bu_quality c < bu_quality b \<and> y \<noteq> 0 \<longrightarrow> x = 1)"
proof -
  obtain credits' where c': "equal_bundle_credit s = Inr credits'"
    "\<And>b. b \<in> set (sn_bundles s) \<Longrightarrow> map_of credits' (credit_key b) = Some (bundle_credit s b)"
    using creditable_credits [OF validate_snapshot_creditable [OF assms(1)]] by metis
  have range: "0 \<le> bundle_credit s x \<and> bundle_credit s x \<le> 1" if "x \<in> set (sn_bundles s)" for x
    unfolding bundle_credit_def using that by (intro tie_share_range) (auto simp: filter_empty_conv)
  have same: "bu_quality b = bu_quality c \<Longrightarrow> bundle_credit s b = bundle_credit s c"
    using assms(5) by (simp add: bundle_credit_def)
  have strict: "bu_quality c < bu_quality b \<Longrightarrow> bundle_credit s b < 1 \<Longrightarrow> bundle_credit s c = 0"
    by (rule bundle_credit_order [OF assms(3-5)])
  have "bundle_credit s c \<le> bundle_credit s b \<and> (bu_quality c < bu_quality b \<and> bundle_credit s c \<noteq> 0 \<longrightarrow> bundle_credit s b = 1)"
    using same strict range [OF assms(3)] range [OF assms(4)] assms(6) by (cases "bu_quality b = bu_quality c"; cases "bundle_credit s b < 1") auto
  then show ?thesis using c' assms(2-4) same range [OF assms(3)] range [OF assms(4)] by simp
qed

theorem equal_bundle_credit_fair_witness:
  "\<exists>s credits x. validate_snapshot (demo_observation 1) = Inr s \<and> equal_bundle_credit s = Inr credits \<and>
    map_of credits (credit_key (sn_bundles s ! 0)) = Some x \<and> x \<le> 1"
proof -
  obtain s credits where s: "validate_snapshot (demo_observation 1) = Inr s" "equal_bundle_credit s = Inr credits" "length (sn_bundles s) = 3"
    and q: "map bu_quality (sn_bundles s) = [6, 4, 6]" and g: "group (sn_bundles s ! 0) = group (sn_bundles s ! 1)"
    using demo_valid by (auto split: sum.splits)
  have "bu_quality (sn_bundles s ! 0) = map bu_quality (sn_bundles s) ! 0" "bu_quality (sn_bundles s ! 1) = map bu_quality (sn_bundles s) ! 1"
    using s(3) by simp_all
  then have "bu_quality (sn_bundles s ! 1) \<le> bu_quality (sn_bundles s ! 0)" by (simp add: q)
  moreover have "sn_bundles s ! 0 \<in> set (sn_bundles s)" "sn_bundles s ! 1 \<in> set (sn_bundles s)" using s(3) by simp_all
  ultimately show ?thesis using equal_bundle_credit_fair [OF s(1,2) _ _ g] s(1,2) by blast
qed






end
