(* ===== verification/Evidence.thy ===== *)
theory Evidence
  imports Compact Hex Ledger
begin

text \<open>
  \<open>pool_manager/pool_v2/block_observer.py\<close>, the evidence store: \<open>_pack\<close> splits an observation
  into content-addressed chunks, \<open>_unpack\<close> replays it, and \<open>_semantic\<close> is the digest of what a
  block says. Compression is left out (gzip only changes how a chunk is stored); \<open>json.loads\<close> of a
  stored value is that value with its keys in sorted order, which is the order the text has.
\<close>

section \<open>Chunks\<close>

definition PAGE_TARGET :: nat where "PAGE_TARGET = 8"
definition ITEM_PAGE_TARGET :: nat where "ITEM_PAGE_TARGET = 32"
definition PAGE_MAXIMUM :: int where "PAGE_MAXIMUM = 1024"
definition BLOB_THRESHOLD :: int where "BLOB_THRESHOLD = 8192"

text \<open>The tree of a manifest as the JSON value it is stored as.\<close>

fun node_json :: "evidence_node \<Rightarrow> json" where
  "node_json (NDict children) = JDict [(''dict'', JList (map (\<lambda>(k, n). JList [JStr k, node_json n]) children))]"
| "node_json (NRecords ds) = JDict [(''records'', JList (map JStr ds))]"
| "node_json (NPages ds) = JDict [(''pages'', JList (map JStr ds))]"
| "node_json (NItems ds) = JDict [(''items'', JList (map JStr ds))]"
| "node_json (NBlob d) = JDict [(''blob'', JStr d)]"
| "node_json (NValue v) = JDict [(''value'', v)]"

fun raw :: "chunk \<Rightarrow> string" where
  "raw (JsonChunk v) = canonical v"
| "raw (TreeChunk n) = canonical (node_json n)"
| "raw (BytesChunk s) = s"

text \<open>\<open>bytes.fromhex\<close> on a digest and \<open>bytes.hex()\<close>.\<close>

fun from_hex :: "string \<Rightarrow> string" where
  "from_hex (a # b # s) = char_of (16 * hex_value a + hex_value b) # from_hex s"
| "from_hex _ = []"

definition byte_hex :: "char \<Rightarrow> string" where
  "byte_hex c = (let n = (of_char c :: nat) in [hex_digit (n div 16), hex_digit (n mod 16)])"

definition to_hex :: "string \<Rightarrow> string" where "to_hex s = concat (map byte_hex s)"

fun chop :: "nat \<Rightarrow> 'a list \<Rightarrow> 'a list list" where
  "chop 0 xs = []"
| "chop (Suc n) xs = (if xs = [] then [] else take (Suc n) xs # chop (Suc n) (drop (Suc n) xs))"

text \<open>\<open>_pages\<close>: a page ends after an element whose digest selects it, or when it is full.\<close>

definition selected :: "env \<Rightarrow> nat \<Rightarrow> string \<Rightarrow> bool" where
  "selected env target v \<longleftrightarrow> parse_hex (take 4 (sha256 env v)) mod target = 0"

fun pages_from :: "env \<Rightarrow> nat \<Rightarrow> string list \<Rightarrow> string list \<Rightarrow> string list list" where
  "pages_from env target page [] = (if page = [] then [] else [page])"
| "pages_from env target page (v # vs) =
     (let page' = page @ [v] in
      if selected env target v \<or> int (length page') \<ge> PAGE_MAXIMUM then page' # pages_from env target [] vs
      else pages_from env target page' vs)"

definition pages :: "env \<Rightarrow> nat \<Rightarrow> string list \<Rightarrow> string list list" where
  "pages env target values = pages_from env target [] values"

section \<open>Packing\<close>

type_synonym chunks = "(string \<times> chunk) list"
type_synonym packed = "evidence_node \<times> json \<times> chunks"

definition store :: "env \<Rightarrow> chunk \<Rightarrow> string \<times> chunk" where
  "store env c = (sha256 env (raw c), c)"

definition is_dict :: "json \<Rightarrow> bool" where "is_dict v = (case v of JDict _ \<Rightarrow> True | _ \<Rightarrow> False)"
definition is_text :: "json \<Rightarrow> bool" where "is_text v = (case v of JStr _ \<Rightarrow> True | _ \<Rightarrow> False)"
definition text_of :: "json \<Rightarrow> string" where "text_of v = (case v of JStr s \<Rightarrow> s | _ \<Rightarrow> [])"

text \<open>\<open>path[-3:-1] == ("data", "active_ids")\<close>.\<close>

definition active_path :: "string list \<Rightarrow> bool" where
  "active_path ks \<longleftrightarrow> 3 \<le> length ks \<and> take 2 (drop (length ks - 3) ks) = [''data'', ''active_ids'']"

definition pack_leaf :: "env \<Rightarrow> bool \<Rightarrow> json \<Rightarrow> packed" where
  "pack_leaf env paged v =
     (if paged \<and> int (length (canonical v)) > BLOB_THRESHOLD
      then (let c = store env (JsonChunk v) in (NBlob (fst c), v, [c])) else (NValue v, v, []))"

definition page_chunk :: "string list \<Rightarrow> chunk" where
  "page_chunk page = BytesChunk (concat (map from_hex page))"

definition pack_records :: "env \<Rightarrow> bool \<Rightarrow> json list \<Rightarrow> packed" where
  "pack_records env paged xs =
     (let encoded = map (\<lambda>x. store env (JsonChunk x)) xs in
      if \<not> paged then (NRecords (map fst encoded), JList xs, encoded) else
      let ordered = sort_key fst (zip (map fst encoded) xs);
          stored = map (\<lambda>page. store env (page_chunk page)) (pages env PAGE_TARGET (map fst ordered)) in
      (NPages (map fst stored), JList (map snd ordered), encoded @ stored))"

definition pack_items :: "env \<Rightarrow> string list \<Rightarrow> packed" where
  "pack_items env xs =
     (let ordered = sort xs;
          stored = map (\<lambda>page. store env (JsonChunk (JList (map JStr page)))) (pages env ITEM_PAGE_TARGET ordered) in
      (NItems (map fst stored), JList (map JStr ordered), stored))"

definition pack_list :: "env \<Rightarrow> bool \<Rightarrow> string list \<Rightarrow> json list \<Rightarrow> packed" where
  "pack_list env paged ks xs =
     (if list_all is_dict xs then pack_records env paged xs
      else if paged \<and> xs \<noteq> [] \<and> list_all is_text xs \<and> active_path ks then pack_items env (map text_of xs)
      else pack_leaf env paged (JList xs))"

fun encode :: "env \<Rightarrow> bool \<Rightarrow> string list \<Rightarrow> json \<Rightarrow> packed" where
  "encode env paged ks (JDict items) =
     (let children = sort_key fst (map (\<lambda>(k, v). (k, encode env paged (ks @ [k]) v)) items) in
      (NDict (map (\<lambda>(k, n, _, _). (k, n)) children), JDict (map (\<lambda>(k, _, v, _). (k, v)) children),
       concat (map (\<lambda>(_, _, _, cs). cs) children)))"
| "encode env paged ks (JList xs) = pack_list env paged ks xs"
| "encode env paged ks v = pack_leaf env paged v"

text \<open>The chunks are a dict by digest: the first chunk of a digest stays.\<close>

fun first_wins :: "chunks \<Rightarrow> chunks" where
  "first_wins [] = []"
| "first_wins ((d, c) # cs) = (d, c) # filter (\<lambda>x. fst x \<noteq> d) (first_wins cs)"

definition pack :: "env \<Rightarrow> bool \<Rightarrow> json \<Rightarrow> packed" where
  "pack env paged observation = (case encode env paged [] observation of (n, v, cs) \<Rightarrow> (n, v, first_wins cs))"

definition canonical_observation :: "env \<Rightarrow> json \<Rightarrow> json" where
  "canonical_observation env observation = fst (snd (pack env True observation))"

definition manifest_chunk :: "env \<Rightarrow> evidence_node \<Rightarrow> string \<times> chunk" where
  "manifest_chunk env n = store env (TreeChunk n)"

section \<open>Replay\<close>

text \<open>\<open>_fetch\<close>: every wanted chunk, each of which must match its checksum.\<close>

definition fetch :: "env \<Rightarrow> chunks \<Rightarrow> string list \<Rightarrow> chunks result" where
  "fetch env table wanted =
     (let found = filter (\<lambda>(d, _). d \<in> set wanted) table in
      if \<exists>(d, c) \<in> set found. sha256 env (raw c) \<noteq> d then malformed ''stored observation chunk failed its checksum''
      else if \<exists>d \<in> set wanted. map_of found d = None then malformed ''stored observation is missing raw evidence''
      else Inr found)"

text \<open>\<open>json.loads\<close> of a chunk; bytes that were not written as JSON do not parse.\<close>

definition loads :: "chunk \<Rightarrow> json result" where
  "loads c = (case c of JsonChunk v \<Rightarrow> Inr (sort_keys v) | TreeChunk n \<Rightarrow> Inr (sort_keys (node_json n))
     | BytesChunk _ \<Rightarrow> Inl (ValueError ''Expecting value''))"

definition page_digests :: "chunk \<Rightarrow> string list result" where
  "page_digests c =
     (if raw c = [] \<or> length (raw c) mod 32 \<noteq> 0 then malformed ''stored observation page is not a digest list''
      else Inr (map to_hex (chop 32 (raw c))))"

definition page_items :: "chunk \<Rightarrow> string list result" where
  "page_items c = bindE (loads c) (\<lambda>v.
     case v of JList xs \<Rightarrow> if list_all is_text xs then Inr (map text_of xs) else malformed ''stored observation page is not a string list''
     | _ \<Rightarrow> malformed ''stored observation page is not a string list'')"

text \<open>The tree's nodes without dicts, which hold its references.\<close>

fun leaves :: "evidence_node \<Rightarrow> evidence_node list" where
  "leaves (NDict children) = concat (map (\<lambda>(_, n). leaves n) children)"
| "leaves n = [n]"

definition page_refs :: "evidence_node \<Rightarrow> string list" where
  "page_refs n = concat (map (\<lambda>l. case l of NPages ds \<Rightarrow> ds | _ \<Rightarrow> []) (leaves n))"
definition item_refs :: "evidence_node \<Rightarrow> string list" where
  "item_refs n = concat (map (\<lambda>l. case l of NItems ds \<Rightarrow> ds | _ \<Rightarrow> []) (leaves n))"
definition blob_refs :: "evidence_node \<Rightarrow> string list" where
  "blob_refs n = concat (map (\<lambda>l. case l of NBlob d \<Rightarrow> [d] | _ \<Rightarrow> []) (leaves n))"
definition record_refs :: "evidence_node \<Rightarrow> string list" where
  "record_refs n = concat (map (\<lambda>l. case l of NRecords ds \<Rightarrow> ds | _ \<Rightarrow> []) (leaves n))"

definition at_digest :: "(string \<times> 'a) list \<Rightarrow> string \<Rightarrow> 'a result" where
  "at_digest d k = (case map_of d k of None \<Rightarrow> Inl KeyError | Some v \<Rightarrow> Inr v)"

record replay_tables =
  rt_pages :: "(string \<times> string list) list"
  rt_items :: "(string \<times> string list) list"
  rt_blobs :: "(string \<times> json) list"
  rt_records :: "(string \<times> json) list"

fun decode :: "replay_tables \<Rightarrow> evidence_node \<Rightarrow> json result" where
  "decode t (NDict children) = bindE (mapE (\<lambda>(k, r). bindE r (\<lambda>v. Inr (k, v))) (map (\<lambda>(k, n). (k, decode t n)) children)) (\<lambda>items. Inr (JDict items))"
| "decode t (NPages ds) = bindE (mapE (at_digest (rt_pages t)) ds) (\<lambda>ps. bindE (mapE (at_digest (rt_records t)) (concat ps)) (\<lambda>vs. Inr (JList vs)))"
| "decode t (NItems ds) = bindE (mapE (at_digest (rt_items t)) ds) (\<lambda>ps. Inr (JList (map JStr (concat ps))))"
| "decode t (NBlob d) = at_digest (rt_blobs t) d"
| "decode t (NRecords ds) = bindE (mapE (at_digest (rt_records t)) ds) (\<lambda>vs. Inr (JList vs))"
| "decode t (NValue v) = Inr v"

definition read_chunks :: "(chunk \<Rightarrow> 'a result) \<Rightarrow> env \<Rightarrow> chunks \<Rightarrow> string list \<Rightarrow> (string \<times> 'a) list result" where
  "read_chunks f env table wanted =
     bindE (fetch env table wanted) (mapE (\<lambda>(d, c). bindE (f c) (\<lambda>v. Inr (d, v))))"

definition replay :: "env \<Rightarrow> chunks \<Rightarrow> evidence_node \<Rightarrow> json result" where
  "replay env table n =
     bindE (read_chunks page_digests env table (page_refs n)) (\<lambda>ps.
     bindE (read_chunks page_items env table (item_refs n)) (\<lambda>its.
     bindE (read_chunks loads env table (blob_refs n)) (\<lambda>bs.
     bindE (read_chunks loads env table (record_refs n @ concat (map snd ps))) (\<lambda>rs.
       decode \<lparr>rt_pages = ps, rt_items = its, rt_blobs = bs, rt_records = rs\<rparr> n))))"

definition one_chunk :: "env \<Rightarrow> chunks \<Rightarrow> string \<Rightarrow> chunk result" where
  "one_chunk env table d = bindE (fetch env table [d]) (\<lambda>found. at_digest found d)"

text \<open>A manifest reference names the chunk of a tree; another chunk has no node to replay.\<close>

definition load_tree :: "env \<Rightarrow> chunks \<Rightarrow> manifest \<Rightarrow> evidence_node result" where
  "load_tree env table m =
     (case m of Inline n \<Rightarrow> Inr n
      | ManifestRef d \<Rightarrow> bindE (one_chunk env table d) (\<lambda>c. case c of TreeChunk n \<Rightarrow> Inr n | _ \<Rightarrow> Inl KeyError)
      | _ \<Rightarrow> Inl KeyError)"

text \<open>\<open>_unpack\<close>.\<close>

definition unpack :: "env \<Rightarrow> chunks \<Rightarrow> manifest \<Rightarrow> json result" where
  "unpack env table m =
     (case m of
        ExpiredManifest at_time \<Rightarrow> malformed (''block evidence expired under the retention policy on '' @ at_time)
      | CompactRef d \<Rightarrow> bindE (one_chunk env table d) loads
      | _ \<Rightarrow> bindE (load_tree env table m) (replay env table))"

definition manifest_references :: "env \<Rightarrow> chunks \<Rightarrow> manifest \<Rightarrow> string list result" where
  "manifest_references env table m =
     (case m of
        ExpiredManifest _ \<Rightarrow> Inr []
      | CompactRef d \<Rightarrow> Inr [d]
      | _ \<Rightarrow>
        bindE (load_tree env table m) (\<lambda>n.
        bindE (read_chunks page_digests env table (page_refs n)) (\<lambda>ps.
          Inr ((case m of ManifestRef d \<Rightarrow> [d] | _ \<Rightarrow> []) @ item_refs n @ blob_refs n @ record_refs n @ page_refs n @ concat (map snd ps)))))"

section \<open>What a block says\<close>

definition group_scores :: "scored_bundle list \<Rightarrow> (string \<times> json) list" where
  "group_scores bundles = map (\<lambda>i. (i, JList (map (\<lambda>b. JInt (bu_quality b)) (filter (\<lambda>b. bu_benchmark_id b = i) bundles))))
     (remdups (map bu_benchmark_id bundles))"

text \<open>The qualifiers as sorted tuples; a challenge that is not text sorts first.\<close>

definition qualifier_tuples :: "group_key counter \<Rightarrow> json" where
  "qualifier_tuples qualifiers = JList (map (\<lambda>((player, challenge, algorithm, track), n).
       JList [JStr player, challenge, JStr algorithm, JStr track, JInt n])
     (sort_key (\<lambda>((player, challenge, algorithm, track), n). (player, text_of challenge, algorithm, track, n)) qualifiers))"

definition bundle_json :: "scored_bundle \<Rightarrow> json" where
  "bundle_json b = JDict [(''benchmark_id'', JStr (bu_benchmark_id b)), (''active_index'', JInt (bu_active_index b)),
     (''player_id'', JStr (bu_player_id b)), (''challenge_id'', JStr (bu_challenge_id b)), (''algorithm_id'', JStr (bu_algorithm_id b)),
     (''track_id'', JStr (bu_track_id b)), (''quality'', JInt (bu_quality b))]"

definition pool_feed :: "json \<Rightarrow> (string \<times> json) list result" where
  "pool_feed observation = bindE (json_get observation ''pool_player_id'') (\<lambda>player.
     if falsy player then Inr [] else
     bindE (subscript observation ''players'') (\<lambda>players. case players of JDict feeds \<Rightarrow>
       bindE (find_key player feeds) (\<lambda>found. bindE (json_get observation ''pool_pending'') (\<lambda>waiting.
         Inr [(''pool_player_id'', player), (''pool_feed'', case found of None \<Rightarrow> waiting | Some (_, feed) \<Rightarrow> feed)]))
     | _ \<Rightarrow> Inl AttributeError))"

definition reference_fields :: "snapshot \<Rightarrow> json \<Rightarrow> (string \<times> json) list result" where
  "reference_fields s observation =
     (case sn_selection_references s of None \<Rightarrow> Inr []
      | Some best \<Rightarrow> bindE (subscript observation ''source_semantic_digest'') (\<lambda>digest.
          Inr [(''selection_references'', JList (map (\<lambda>(_, b, parameters). JDict [(''bundle'', bundle_json b), (''hyperparameters'', parameters)])
            (sort_key fst best))), (''source_semantic_digest'', digest)]))"

definition semantic :: "env \<Rightarrow> snapshot \<Rightarrow> json \<Rightarrow> string result" where
  "semantic env s observation =
     bindE (path observation [''start'', ''block'', ''config'']) (\<lambda>config.
     bindE (json_get observation ''source_identity_version'') (\<lambda>version.
     bindE (pool_feed observation) (\<lambda>feed.
     bindE (reference_fields s observation) (\<lambda>references.
       Inr (fingerprint env (JDict ([(''block_id'', JStr (sn_block_id s)), (''previous'', JStr (sn_previous_block_id s)),
         (''height'', JInt (sn_height s)), (''round'', JInt (sn_round s)), (''timestamp'', JInt (sn_timestamp s)),
         (''config'', if version = JInt 2 then canonical_observation env config else config),
         (''scores'', JDict (group_scores (sn_bundles s))), (''precommits'', JDict (sn_precommits s)),
         (''algorithms'', JDict (sn_algorithms s)), (''challenges'', JDict (sn_challenges s)),
         (''qualifiers'', qualifier_tuples (sn_qualifiers s))] @ feed @ references)))))))"

end
