(* ===== verification/Coverage.thy ===== *)
theory Coverage
  imports Evidence Benchmarks
begin

text \<open>
  \<open>pool_manager/pool_v2/block_observer.py\<close>, the block history: the collection stream, the reviewed
  tolerance for missing blocks, the prelaunch waiver, and the coverage of a reward round that
  settlement relies on.
\<close>

section \<open>The stream\<close>

abbreviation stored :: "pool \<Rightarrow> observation_tables" where "stored p \<equiv> observations p"

text \<open>The view \<open>unresolved_observation_conflicts\<close>.\<close>

definition unresolved_conflicts :: "pool \<Rightarrow> observation_alert_row list" where
  "unresolved_conflicts p = filter (\<lambda>a. oa_kind a = ''conflicting-block'' \<and> oa_id a \<notin> set (observation_conflict_resolutions (stored p)))
     (observation_alerts (stored p))"

definition conflict_at :: "int \<Rightarrow> pool \<Rightarrow> bool" where
  "conflict_at h p \<longleftrightarrow> list_ex (\<lambda>a. oa_height a = Some h) (unresolved_conflicts p)"

definition block_at :: "int \<Rightarrow> pool \<Rightarrow> observed_block_row option" where
  "block_at h p = lookup ob_height h (observed_blocks (stored p))"

definition initialize_stream :: "json \<Rightarrow> pool \<Rightarrow> (unit \<times> pool) result" where
  "initialize_stream launch_height p =
     (case launch_height of JInt h \<Rightarrow>
        if h < 0 then Inl (ValueError ''explicit nonnegative collection start height required'') else
        (case observation_stream (stored p) of
           Some stream \<Rightarrow> if os_launch_height stream \<noteq> h then malformed ''collection start cannot change after initialization'' else Inr ((), p)
         | None \<Rightarrow> Inr ((), p\<lparr>observations := (stored p)\<lparr>observation_stream :=
             Some \<lparr>os_launch_height = h, os_latest_seen_height = h - 1, os_contiguous_height = h - 1\<rparr>\<rparr>\<rparr>))
      | _ \<Rightarrow> Inl (ValueError ''explicit nonnegative collection start height required''))"

text \<open>\<open>_advance\<close>: follow the stored blocks from the contiguous height while they link.\<close>

fun advance_from :: "int \<Rightarrow> string option \<Rightarrow> observed_block_row list \<Rightarrow> int" where
  "advance_from h previous [] = h"
| "advance_from h previous (b # bs) =
     (if ob_height b \<noteq> h + 1 \<or> (case previous of Some i \<Rightarrow> i \<noteq> [] \<and> ob_previous_id b \<noteq> i | None \<Rightarrow> False) then h
      else advance_from (ob_height b) (Some (ob_id b)) bs)"

definition advance :: "int \<Rightarrow> pool \<Rightarrow> pool" where
  "advance contiguous p =
     (let rows = sort_key ob_height (filter (\<lambda>b. contiguous < ob_height b \<and> \<not> conflict_at (ob_height b) p) (observed_blocks (stored p)));
          height = advance_from contiguous (map_option ob_id (block_at contiguous p)) rows in
      p\<lparr>observations := (stored p)\<lparr>observation_stream :=
        map_option (\<lambda>s. s\<lparr>os_contiguous_height := height\<rparr>) (observation_stream (stored p))\<rparr>\<rparr>)"

section \<open>Missing-block policy\<close>

definition GAP_POLICY :: string where "GAP_POLICY = ''bounded-zero-credit-v1''"

text \<open>The latest append-only revision.\<close>

definition gap_policy :: "pool \<Rightarrow> gap_policy_row result" where
  "gap_policy p =
     (case missing_block_policies (stored p) of [] \<Rightarrow> malformed ''the missing-block tolerance policy is not recorded''
      | _ \<Rightarrow> Inr (last (sort_key mp_revision (missing_block_policies (stored p)))))"

definition nonneg_int :: "json \<Rightarrow> bool" where
  "nonneg_int v = (case v of JInt n \<Rightarrow> 0 \<le> n | _ \<Rightarrow> False)"

definition filled_text :: "json \<Rightarrow> bool" where
  "filled_text v = (case v of JStr s \<Rightarrow> strip s \<noteq> [] | _ \<Rightarrow> False)"

text \<open>A revision is numbered by a sequence: above every earlier one.\<close>

definition next_revision :: "pool \<Rightarrow> int" where
  "next_revision p = 1 + foldr max (map mp_revision (missing_block_policies (stored p))) 0"

definition set_gap_policy :: "json \<Rightarrow> json \<Rightarrow> json \<Rightarrow> json \<Rightarrow> pool \<Rightarrow> (gap_policy_row \<times> pool) result" where
  "set_gap_policy max_missing warn_missing actor reason p =
     (if \<not> nonneg_int max_missing \<or> \<not> nonneg_int warn_missing then Inl (ValueError ''missing-block limits must be nonnegative integers'')
      else if int_of warn_missing > int_of max_missing then Inl (ValueError ''the warning level cannot exceed the settlement limit'')
      else if \<not> filled_text actor \<or> \<not> filled_text reason then Inl (ValueError ''a policy change requires an actor and reason'')
      else bindE (gap_policy p) (\<lambda>tolerance.
        if mp_max_missing_per_round tolerance = int_of max_missing \<and> mp_warn_missing_per_round tolerance = int_of warn_missing then Inr (tolerance, p)
        else let row = \<lparr>mp_revision = next_revision p, mp_policy = GAP_POLICY, mp_max_missing_per_round = int_of max_missing,
               mp_warn_missing_per_round = int_of warn_missing, mp_actor = strip (text_of actor), mp_reason = strip (text_of reason)\<rparr>
          in Inr (row, p\<lparr>observations := (stored p)\<lparr>missing_block_policies := missing_block_policies (stored p) @ [row]\<rparr>\<rparr>)))"

section \<open>The prelaunch waiver\<close>

definition WAIVER_POLICY :: string where "WAIVER_POLICY = ''one-time-prelaunch-zero-pool-credit-v1''"

definition waiver_arguments :: "json \<Rightarrow> json \<Rightarrow> json \<Rightarrow> json \<Rightarrow> unit result" where
  "waiver_arguments height actor reason evidence =
     (if \<not> nonneg_int height then Inl (ValueError ''a nonnegative missing block height is required'')
      else if \<not> filled_text actor \<or> \<not> filled_text reason then Inl (ValueError ''gap waiver requires an actor and reason'')
      else if \<not> is_dict evidence \<or> evidence = JDict [] then Inl (ValueError ''gap waiver requires nonempty evidence'') else Inr ())"

text \<open>The captured neighbours of the missing height, in one verified round.\<close>

definition waiver_neighbors :: "int \<Rightarrow> pool \<Rightarrow> (observed_block_row \<times> observed_block_row \<times> int) result" where
  "waiver_neighbors h p =
     (case (block_at (h - 1) p, block_at h p, block_at (h + 1) p) of
        (Some b, None, Some a) \<Rightarrow>
          (let length = ob_blocks_per_round b; round_number = (if length \<noteq> 0 then h div length + 1 else 0) in
           if length \<le> 0 \<or> ob_blocks_per_round a \<noteq> length \<or> ob_round b \<noteq> round_number \<or> ob_round a \<noteq> round_number
           then malformed ''waiver height must be bracketed within one verified round''
           else if lookup ob_id (ob_previous_id a) (observed_blocks (stored p)) \<noteq> None
           then malformed ''the successor points to an already recorded block at another height''
           else if conflict_at (h - 1) p \<or> conflict_at h p \<or> conflict_at (h + 1) p
           then malformed ''conflicting neighbor evidence prevents a gap waiver''
           else Inr (b, a, round_number))
      | _ \<Rightarrow> malformed ''waiver requires one missing height between two captured blocks'')"

definition waiver_guards :: "int \<Rightarrow> pool \<Rightarrow> unit result" where
  "waiver_guards h p =
     (if new_work_paused p \<noteq> Some True then malformed ''prelaunch gap waiver requires new work to remain paused''
      else if reservations p \<noteq> [] then malformed ''prelaunch gap waiver is unavailable after pool reservations exist''
      else case observation_stream (stored p) of None \<Rightarrow> malformed ''waiver height is outside the observed stream''
        | Some stream \<Rightarrow> if h < os_launch_height stream \<or> h \<ge> os_latest_seen_height stream
            then malformed ''waiver height is outside the observed stream'' else Inr ())"

definition waive_prelaunch_gap :: "json \<Rightarrow> json \<Rightarrow> json \<Rightarrow> json \<Rightarrow> pool \<Rightarrow> (gap_waiver_row \<times> pool) result" where
  "waive_prelaunch_gap height actor reason evidence p =
     bindE (waiver_arguments height actor reason evidence) (\<lambda>_.
     let h = int_of height in
     case List.find (\<lambda>w. gw_height w = h \<or> gw_policy w = WAIVER_POLICY) (observation_gap_waivers (stored p)) of
       Some previous \<Rightarrow>
         if gw_height previous = h \<and> gw_actor previous = strip (text_of actor) \<and> gw_reason previous = strip (text_of reason) \<and>
            json_eq (gw_evidence previous) evidence then Inr (previous, p)
         else malformed ''the one-time prelaunch gap waiver is already recorded''
     | None \<Rightarrow>
         bindE (waiver_guards h p) (\<lambda>_.
         bindE (waiver_neighbors h p) (\<lambda>(b, a, round_number).
         let row = \<lparr>gw_height = h, gw_round_number = round_number, gw_assumed_block_id = ob_previous_id a,
           gw_previous_observed_block_id = ob_id b, gw_next_observed_block_id = ob_id a, gw_policy = WAIVER_POLICY,
           gw_actor = strip (text_of actor), gw_reason = strip (text_of reason), gw_evidence = evidence\<rparr>
         in Inr (row, p\<lparr>observations := (stored p)\<lparr>observation_gap_waivers := observation_gap_waivers (stored p) @ [row]\<rparr>\<rparr>))))"

section \<open>Round coverage\<close>

record coverage =
  co_round :: int
  co_policy :: string
  co_policy_revision :: int
  co_max_missing :: int
  co_warn_missing :: int
  co_blocks_per_round :: "int option"
  co_ended :: bool
  co_observed :: int
  co_credited :: int
  co_uncredited :: int
  co_missing :: int
  co_missing_heights :: "int list"
  co_waived_heights :: "int list"
  co_conflicting :: bool
  co_complete :: bool
  co_credited_complete :: bool
  co_warning :: bool

definition no_coverage :: "int \<Rightarrow> gap_policy_row \<Rightarrow> coverage" where
  "no_coverage round_number tolerance = \<lparr>co_round = round_number, co_policy = mp_policy tolerance, co_policy_revision = mp_revision tolerance,
     co_max_missing = mp_max_missing_per_round tolerance, co_warn_missing = mp_warn_missing_per_round tolerance,
     co_blocks_per_round = None, co_ended = False, co_observed = 0, co_credited = 0, co_uncredited = 0, co_missing = 0,
     co_missing_heights = [], co_waived_heights = [], co_conflicting = False, co_complete = False, co_credited_complete = False,
     co_warning = False\<rparr>"

definition round_block :: "int \<Rightarrow> pool \<Rightarrow> int \<Rightarrow> observed_block_row option" where
  "round_block round_number p h = List.find (\<lambda>b. ob_height b = h \<and> ob_round b = round_number) (observed_blocks (stored p))"

definition waived_in :: "int \<Rightarrow> pool \<Rightarrow> int \<Rightarrow> bool" where
  "waived_in round_number p h \<longleftrightarrow> list_ex (\<lambda>w. gw_height w = h \<and> gw_round_number w = round_number) (observation_gap_waivers (stored p))"

definition is_credited :: "pool \<Rightarrow> string \<Rightarrow> bool" where
  "is_credited p block_id \<longleftrightarrow> lookup cr_block_id block_id (credited_blocks (stored p)) \<noteq> None"

definition missing_heights :: "int \<Rightarrow> int \<Rightarrow> pool \<Rightarrow> int list" where
  "missing_heights round_number per_round p = filter (\<lambda>h. round_block round_number p h = None \<and> \<not> waived_in round_number p h)
     [(round_number - 1) * per_round..round_number * per_round - 1]"

definition waived_heights :: "int \<Rightarrow> int \<Rightarrow> pool \<Rightarrow> int list" where
  "waived_heights round_number per_round p = filter (\<lambda>h. round_block round_number p h = None \<and> waived_in round_number p h)
     [(round_number - 1) * per_round..round_number * per_round - 1]"

definition uncredited_heights :: "int \<Rightarrow> int \<Rightarrow> pool \<Rightarrow> int list" where
  "uncredited_heights round_number per_round p = filter (\<lambda>h. case round_block round_number p h of None \<Rightarrow> False
     | Some b \<Rightarrow> \<not> is_credited p (ob_id b)) [(round_number - 1) * per_round..round_number * per_round - 1]"

text \<open>\<open>round_gaps\<close> on a round whose blocks agree on its length.\<close>

definition gaps_of :: "int \<Rightarrow> gap_policy_row \<Rightarrow> int \<Rightarrow> pool \<Rightarrow> coverage" where
  "gaps_of round_number tolerance per_round p =
     (let first = (round_number - 1) * per_round; last = round_number * per_round - 1;
          missing = missing_heights round_number per_round p; waived = waived_heights round_number per_round p;
          uncredited = int (length (uncredited_heights round_number per_round p));
          conflicting = list_ex (\<lambda>a. case oa_height a of None \<Rightarrow> False | Some h \<Rightarrow> first \<le> h \<and> h \<le> last) (unresolved_conflicts p);
          ended = (case observation_stream (stored p) of None \<Rightarrow> False | Some s \<Rightarrow> os_latest_seen_height s \<ge> last);
          complete = (ended \<and> \<not> conflicting \<and> int (length missing) \<le> mp_max_missing_per_round tolerance);
          observed = per_round - int (length missing) - int (length waived) in
      (no_coverage round_number tolerance)\<lparr>co_blocks_per_round := Some per_round, co_ended := ended, co_observed := observed,
        co_credited := observed - uncredited, co_uncredited := uncredited, co_missing := int (length missing),
        co_missing_heights := slice_to (max 100 (mp_max_missing_per_round tolerance)) missing, co_waived_heights := waived,
        co_conflicting := conflicting, co_complete := complete, co_credited_complete := complete \<and> uncredited = 0,
        co_warning := int (length missing) > mp_warn_missing_per_round tolerance\<rparr>)"

definition round_gaps :: "int \<Rightarrow> pool \<Rightarrow> coverage result" where
  "round_gaps round_number p =
     bindE (gap_policy p) (\<lambda>tolerance.
     case remdups (map ob_blocks_per_round (filter (\<lambda>b. ob_round b = round_number) (observed_blocks (stored p)))) of
       [per_round] \<Rightarrow> Inr (gaps_of round_number tolerance per_round p)
     | _ \<Rightarrow> Inr (no_coverage round_number tolerance))"

definition round_coverage :: "bool \<Rightarrow> int \<Rightarrow> pool \<Rightarrow> bool result" where
  "round_coverage require_credits round_number p = bindE (round_gaps round_number p) (\<lambda>c.
     Inr (if require_credits then co_credited_complete c else co_complete c))"

section \<open>Status\<close>

datatype round_state = RoundOpen | RoundHeld | RoundWarning | RoundTolerated

record round_missing =
  rm_round :: int
  rm_missing :: int
  rm_waived :: int
  rm_ended :: bool
  rm_state :: round_state

definition waived_at :: "pool \<Rightarrow> int \<Rightarrow> bool" where
  "waived_at p h \<longleftrightarrow> lookup gw_height h (observation_gap_waivers (stored p)) \<noteq> None"

definition gap_heights :: "observation_stream_row \<Rightarrow> pool \<Rightarrow> int list" where
  "gap_heights stream p = filter (\<lambda>h. block_at h p = None) [os_contiguous_height stream + 1..os_latest_seen_height stream]"

definition missing_state :: "int \<Rightarrow> gap_policy_row \<Rightarrow> bool \<Rightarrow> int \<Rightarrow> int \<Rightarrow> round_state" where
  "missing_state per_round tolerance ended missing waived =
     (if \<not> ended then RoundOpen
      else if missing > mp_max_missing_per_round tolerance \<or> missing + waived \<ge> per_round then RoundHeld
      else if missing > mp_warn_missing_per_round tolerance then RoundWarning else RoundTolerated)"

text \<open>\<open>_missing_by_round\<close>: rounds by the length of the newest block (\<open>/\<close> of SQL on heights).\<close>

definition missing_by_round :: "observation_stream_row \<Rightarrow> gap_policy_row \<Rightarrow> pool \<Rightarrow> round_missing list" where
  "missing_by_round stream tolerance p =
     (if observed_blocks (stored p) = [] then [] else
      let per_round = ob_blocks_per_round (last (sort_key ob_height (observed_blocks (stored p))));
          gaps = gap_heights stream p;
          round_of = (\<lambda>h. h div per_round + 1) in
      map (\<lambda>r. let missing = int (length (filter (\<lambda>h. round_of h = r \<and> \<not> waived_at p h) gaps));
                   waived = int (length (filter (\<lambda>h. round_of h = r \<and> waived_at p h) gaps));
                   ended = (os_latest_seen_height stream \<ge> r * per_round - 1) in
          \<lparr>rm_round = r, rm_missing = missing, rm_waived = waived, rm_ended = ended,
           rm_state = missing_state per_round tolerance ended missing waived\<rparr>)
        (sort (remdups (map round_of gaps))))"

record stream_status =
  ss_stream :: observation_stream_row
  ss_missing_heights :: "int list"
  ss_waived_missing_heights :: "int list"
  ss_unresolved_missing_heights :: "int list"
  ss_conflicting_heights :: "int option list"
  ss_resolved_conflicting_heights :: "int option list"
  ss_latest_timestamp :: "int option"
  ss_policy :: gap_policy_row
  ss_missing_by_round :: "round_missing list"
  ss_held_rounds :: "int list"

text \<open>A nullable height sorts last, as PostgreSQL orders nulls.\<close>

definition distinct_heights :: "observation_alert_row list \<Rightarrow> int option list" where
  "distinct_heights alerts = (let hs = remdups (map oa_height alerts) in
     map Some (sort (concat (map (\<lambda>h. case h of None \<Rightarrow> [] | Some n \<Rightarrow> [n]) hs))) @ (if None \<in> set hs then [None] else []))"

text \<open>\<open>status\<close>; \<open>None\<close> when collection is not initialized.\<close>

definition stream_status_of :: "pool \<Rightarrow> stream_status option result" where
  "stream_status_of p =
     (case observation_stream (stored p) of None \<Rightarrow> Inr None
      | Some stream \<Rightarrow>
        let missing = take 100 (gap_heights stream p) in
        bindE (gap_policy p) (\<lambda>tolerance.
        let by_round = missing_by_round stream tolerance p in
        Inr (Some \<lparr>ss_stream = stream, ss_missing_heights = missing, ss_waived_missing_heights = filter (waived_at p) missing,
          ss_unresolved_missing_heights = filter (\<lambda>h. \<not> waived_at p h) missing,
          ss_conflicting_heights = take 100 (distinct_heights (unresolved_conflicts p)),
          ss_resolved_conflicting_heights = take 100 (distinct_heights
            (filter (\<lambda>a. oa_id a \<in> set (observation_conflict_resolutions (stored p))) (observation_alerts (stored p)))),
          ss_latest_timestamp = (case map ob_timestamp (observed_blocks (stored p)) of [] \<Rightarrow> None | t # ts \<Rightarrow> Some (foldr max ts t)),
          ss_policy = tolerance, ss_missing_by_round = by_round,
          ss_held_rounds = map rm_round (filter (\<lambda>r. rm_state r = RoundHeld) by_round)\<rparr>)))"

section \<open>Reading a block back\<close>

definition load_copy :: "env \<Rightarrow> observed_block_row \<Rightarrow> compact_copy_row \<Rightarrow> json result" where
  "load_copy env b c =
     (if cb_expired_at c \<noteq> None then malformed ''compact block evidence expired under the retention policy''
      else if cb_source_semantic_digest c \<noteq> ob_semantic_digest b then malformed ''compact replacement differs from the original block identity''
      else if sha256 env (canonical (cb_payload c)) \<noteq> cb_payload_sha256 c then malformed ''compact replacement failed its payload checksum''
      else Inr (sort_keys (cb_payload c)))"

definition read_block :: "env \<Rightarrow> string \<Rightarrow> pool \<Rightarrow> (json \<times> snapshot) result" where
  "read_block env block_id p =
     (case lookup ob_id block_id (observed_blocks (stored p)) of None \<Rightarrow> malformed ''complete block is not available in the pool archive''
      | Some b \<Rightarrow>
        (case lookup ap_id (ob_attempt_id b) (capture_attempts (stored p)) of None \<Rightarrow> malformed ''complete block is not available in the pool archive''
         | Some attempt \<Rightarrow>
           let copy = lookup cb_block_id block_id (compact_block_copies (stored p)) in
           if conflict_at (ob_height b) p then malformed ''conflicting observation requires investigation before use'' else
           bindE (case copy of Some c \<Rightarrow> load_copy env b c | None \<Rightarrow> unpack env (observation_chunks (stored p)) (ap_manifest attempt)) (\<lambda>observation.
           bindE (validate_snapshot observation) (\<lambda>s.
           bindE (semantic env s observation) (\<lambda>digest.
             if digest \<noteq> (case copy of Some c \<Rightarrow> if cb_projection_digest c = [] then ob_semantic_digest b else cb_projection_digest c
                | None \<Rightarrow> ob_semantic_digest b)
             then malformed ''stored block replay differs from its validated evidence'' else Inr (observation, s))))))"

end
