(* ===== verification/Qualifiers.thy ===== *)
theory Qualifiers
  imports Coverage
begin

text \<open>
  \<open>pool_manager/pool_v2/qualifiers.py\<close>: the credit of a stored block is booked once, to the
  members whose handed-over benchmarks earned it, and a round's credits are the sum over its
  blocks. A \<open>Fraction\<close> is stored as its reduced numerator and denominator.
\<close>

definition RULE :: string where "RULE = ''equal-cutoff-bundles-v1''"

section \<open>One block\<close>

text \<open>The benchmarks of the pool's player, and what they earned.\<close>

definition owned_ids :: "string \<Rightarrow> snapshot \<Rightarrow> string list result" where
  "owned_ids player s =
     bindE (mapE (\<lambda>(i, row). bindE (path row [''settings'', ''player_id'']) (\<lambda>p. Inr (i, p = JStr player))) (sn_precommits s)) (\<lambda>rows.
       Inr (map fst (filter snd rows)))"

definition add_credit :: "'k \<Rightarrow> rat \<Rightarrow> ('k \<times> rat) list \<Rightarrow> ('k \<times> rat) list" where
  "add_credit k x d = AList.update k ((case map_of d k of None \<Rightarrow> 0 | Some y \<Rightarrow> y) + x) d"

definition by_benchmark :: "string list \<Rightarrow> credits \<Rightarrow> (string \<times> rat) list" where
  "by_benchmark owned credits = foldl (\<lambda>d ((i, _), x). if i \<in> set owned then add_credit i x d else d) [] credits"

definition owners :: "string list \<Rightarrow> pool \<Rightarrow> (string \<times> reservation_row) list" where
  "owners owned p = concat (map (\<lambda>r. case r_benchmark_id r of Some i \<Rightarrow> if i \<in> set owned then [(i, r)] else [] | None \<Rightarrow> []) (reservations p))"

text \<open>
  Every owned benchmark has a reservation, and one that was never handed over earned nothing
  and had its collateral returned.
\<close>

definition unhanded :: "(string \<times> reservation_row) list \<Rightarrow> string list" where
  "unhanded rows = map fst (filter (\<lambda>(_, r). r_handed_over_at r = None) rows)"

definition ownership_known :: "string list \<Rightarrow> (string \<times> reservation_row) list \<Rightarrow> (string \<times> rat) list \<Rightarrow> bool" where
  "ownership_known owned rows credits \<longleftrightarrow>
     set (map fst rows) = set owned \<and>
     list_all (\<lambda>(_, r). r_handed_over_at r = None \<longrightarrow> r_state r = Cancelled \<and> r_collateral_outcome r = Some Returned) rows \<and>
     (\<forall>i \<in> set (unhanded rows). i \<notin> set (map fst credits))"

definition owner_digest :: "env \<Rightarrow> (string \<times> reservation_row) list \<Rightarrow> string" where
  "owner_digest env rows = fingerprint env (JDict (map (\<lambda>(i, r). (i, JStr (r_member_id r))) rows))"

definition expected_credit :: "string \<Rightarrow> snapshot \<Rightarrow> int" where
  "expected_credit player s = sum_where (\<lambda>((p, _, _, _), _). p = player) snd (sn_qualifiers s)"

definition credit_rows :: "string \<Rightarrow> (string \<times> reservation_row) list \<Rightarrow> (string \<times> rat) list \<Rightarrow> benchmark_credit_row list" where
  "credit_rows block_id rows credits = map (\<lambda>(i, x). case quotient_of x of (n, d) \<Rightarrow>
     \<lparr>bc_block_id = block_id, bc_benchmark_id = i, bc_member_id = (case map_of rows i of Some r \<Rightarrow> r_member_id r | None \<Rightarrow> []),
      bc_numerator = n, bc_denominator = d\<rparr>) (sort_key fst credits)"

definition book_credit :: "env \<Rightarrow> string \<Rightarrow> string \<Rightarrow> string list \<Rightarrow> (string \<times> rat) list \<Rightarrow> int \<Rightarrow> pool \<Rightarrow> (rat \<times> pool) result" where
  "book_credit env block_id player owned credits expected p =
     (let rows = owners owned p; total = sum_list (map snd credits) in
      if \<not> ownership_known owned rows credits then malformed ''pool benchmark ownership or confirmed handover is missing''
      else if total \<noteq> of_int expected then malformed ''member credit does not reconcile to pool qualifying totals'' else
      case lookup cr_block_id block_id (credited_blocks (stored p)) of
        Some previous \<Rightarrow>
          if cr_player_id previous \<noteq> player \<or> cr_rule previous \<noteq> RULE \<or> cr_ownership_digest previous \<noteq> owner_digest env rows \<or>
             Fract (cr_total_num previous) (cr_total_den previous) \<noteq> total
          then malformed ''replayed ownership or credit differs from the recorded block'' else Inr (total, p)
      | None \<Rightarrow> (case quotient_of total of (n, d) \<Rightarrow>
          Inr (total, p\<lparr>observations := (stored p)\<lparr>
            credited_blocks := credited_blocks (stored p) @ [\<lparr>cr_block_id = block_id, cr_player_id = player, cr_rule = RULE,
              cr_ownership_digest = owner_digest env rows, cr_total_num = n, cr_total_den = d\<rparr>],
            benchmark_credits := benchmark_credits (stored p) @ credit_rows block_id rows credits\<rparr>\<rparr>)))"

definition credit_block :: "env \<Rightarrow> string \<Rightarrow> string \<Rightarrow> pool \<Rightarrow> (rat \<times> pool) result" where
  "credit_block env block_id player p =
     bindE (read_block env block_id p) (\<lambda>(_, s).
     bindE (owned_ids player s) (\<lambda>owned.
     bindE (equal_bundle_credit s) (\<lambda>credits.
       book_credit env block_id player owned (by_benchmark owned credits) (expected_credit player s) p)))"

section \<open>One round\<close>

definition round_block_ids :: "int \<Rightarrow> pool \<Rightarrow> string list" where
  "round_block_ids round_number p = map ob_id (filter (\<lambda>b. ob_round b = round_number) (observed_blocks (stored p)))"

definition sum_credits :: "benchmark_credit_row list \<Rightarrow> (string \<times> rat) list" where
  "sum_credits rows = foldl (\<lambda>d c. add_credit (bc_member_id c) (Fract (bc_numerator c) (bc_denominator c)) d) [] rows"

definition round_credits :: "int \<Rightarrow> pool \<Rightarrow> (string \<times> rat) list result" where
  "round_credits round_number p =
     bindE (round_coverage True round_number p) (\<lambda>covered.
     if \<not> covered then malformed ''reward round has incomplete block or credit coverage''
     else Inr (sum_credits (filter (\<lambda>c. bc_block_id c \<in> set (round_block_ids round_number p)) (benchmark_credits (stored p)))))"

end
