(* ===== verification/Reports.thy ===== *)
theory Reports
  imports Qualifiers
begin

text \<open>
  \<open>pool_manager/pool_v2/reports.py\<close>: the protocol's fraud reports are captured per reporting
  round, their confirmed facts never forgotten, and sealed for a creation round once the
  reporting windows have ended. A captured payload is kept as the value it encodes. Reading a
  block and the transaction after it are separate transactions of the code.
\<close>

section \<open>Evidence anchors\<close>

abbreviation booked :: "pool \<Rightarrow> round_tables" where "booked p \<equiv> rounds p"

text \<open>\<open>require_block\<close>.\<close>

definition require_block :: "string \<Rightarrow> pool \<Rightarrow> unit result" where
  "require_block block_id p =
     (if list_ex (\<lambda>b. ob_id b = block_id \<and> conflict_at (ob_height b) p) (observed_blocks (stored p))
      then Inl (Conflict ''settlement evidence has a conflicting observed block'') else Inr ())"

definition deadline :: "env \<Rightarrow> int \<Rightarrow> string \<Rightarrow> pool \<Rightarrow> snapshot result" where
  "deadline env creation_round block_id p =
     bindE (read_block env block_id p) (\<lambda>(_, s).
       if sn_round s < creation_round + 3 then Inl (Conflict ''the end of creation round X+2 has not been observed'') else Inr s)"

definition anchor_height :: "string \<Rightarrow> pool \<Rightarrow> int result" where
  "anchor_height block_id p = bindE (require_block block_id p) (\<lambda>_.
     case lookup ob_id block_id (observed_blocks (stored p)) of
       None \<Rightarrow> malformed ''report evidence needs a complete observed block anchor'' | Some b \<Rightarrow> Inr (ob_height b))"

section \<open>Scope\<close>

text \<open>The reporting rounds already known for benchmarks of the creation round.\<close>

definition known_rounds :: "int \<Rightarrow> pool \<Rightarrow> int list" where
  "known_rounds creation_round p =
     map rr_reporting_round (filter (\<lambda>m. rr_creation_round m = creation_round) (benchmark_reporting_rounds (booked p))) @
     map cf_reporting_round (filter (\<lambda>c. list_ex (\<lambda>r. r_benchmark_id r = Some (cf_benchmark_id c) \<and> r_creation_round r = creation_round)
       (reservations p)) (confirmed_reports (booked p)))"

definition check_scope :: "int \<Rightarrow> int list \<Rightarrow> pool \<Rightarrow> unit result" where
  "check_scope creation_round reporting_rounds p =
     (if \<exists>r \<in> set (known_rounds creation_round p). r \<notin> set reporting_rounds
      then Inl (Conflict ''reporting scope omits a known benchmark reporting round'') else Inr ())"

definition scope_rounds :: "json list \<Rightarrow> int list result" where
  "scope_rounds reporting_rounds =
     (if reporting_rounds = [] \<or> list_ex (\<lambda>v. case v of JInt n \<Rightarrow> n \<le> 0 | _ \<Rightarrow> True) reporting_rounds \<or>
         \<not> distinct (map int_of reporting_rounds)
      then Inl (FundsError ''explicit, unique protocol reporting rounds required'') else Inr (sort (map int_of reporting_rounds)))"

definition report_scope :: "json \<Rightarrow> json list \<Rightarrow> string \<Rightarrow> json \<Rightarrow> pool \<Rightarrow> (unit \<times> pool) result" where
  "report_scope creation_round reporting_rounds adapter_version evidence p =
     bindE (units True creation_round) (\<lambda>creation_round.
     bindE (scope_rounds reporting_rounds) (\<lambda>values.
     if adapter_version = [] \<or> falsy evidence then Inl (FundsError ''reporting-round mapping requires adapter version and evidence'') else
     bindE (check_scope creation_round values p) (\<lambda>_.
     case lookup rs_creation_round creation_round (round_report_scopes (booked p)) of
       Some previous \<Rightarrow>
         if rs_reporting_rounds previous = values \<and> rs_adapter_version previous = adapter_version \<and> json_eq (rs_evidence previous) evidence
         then Inr ((), p) else Inl (Conflict ''reporting-round scope is already frozen'')
     | None \<Rightarrow> Inr ((), p\<lparr>rounds := (booked p)\<lparr>round_report_scopes := round_report_scopes (booked p) @
         [\<lparr>rs_creation_round = creation_round, rs_reporting_rounds = values, rs_adapter_version = adapter_version, rs_evidence = evidence\<rparr>]\<rparr>\<rparr>))))"

section \<open>Confirmed facts\<close>

type_synonym report_fact = "int \<times> string \<times> string \<times> int \<times> int"

record report_facts =
  fa_validated :: "(string \<times> json) list"
  fa_facts :: "(string \<times> report_fact) list"
  fa_arbitrations :: "(string \<times> string \<times> int) list"

text \<open>The fields \<open>validate_reports\<close> has checked.\<close>

definition fact_of :: "int \<Rightarrow> int \<Rightarrow> string \<times> json \<Rightarrow> (string \<times> report_fact) list result" where
  "fact_of reporting_round height = (\<lambda>(identity, report).
     bindE (subscript report ''details'') (\<lambda>details.
     bindE (subscript details ''round'') (\<lambda>r.
     if r \<noteq> JInt reporting_round then malformed ''report response differs from its requested reporting round'' else
     bindE (json_get report ''state'') (\<lambda>state. if state = JNull then Inr [] else
     bindE (subscript state ''block_confirmed'') (\<lambda>v. bindE (p_integer v ''report confirmation'' 0) (\<lambda>confirmed.
     if confirmed > height then malformed ''report confirmation follows the captured block'' else
     bindE (subscript details ''benchmark_id'') (\<lambda>b. bindE (subscript details ''benchmarker'') (\<lambda>w. bindE (subscript details ''nonce'') (\<lambda>n.
       Inr [(identity, (reporting_round, text_of b, text_of w, int_of n, confirmed))])))))))))"

definition arbitration_of :: "(string \<times> json) list \<Rightarrow> int \<Rightarrow> string \<Rightarrow> (string \<times> string \<times> int) list result" where
  "arbitration_of decisions height identity =
     (case map_of decisions identity of None \<Rightarrow> Inr []
      | Some a \<Rightarrow>
        bindE (json_get a ''state'') (\<lambda>state. if state = JNull then Inr [] else
        bindE (subscript state ''block_confirmed'') (\<lambda>v. bindE (p_integer v ''arbitration confirmation'' 0) (\<lambda>confirmed.
        if confirmed > height then malformed ''arbitration confirmation follows the captured block'' else
        bindE (path a [''details'', ''result'']) (\<lambda>r. Inr [(identity, text_of r, confirmed)])))))"

definition facts :: "json \<Rightarrow> int \<Rightarrow> int \<Rightarrow> report_facts result" where
  "facts payload reporting_round height =
     bindE (validate_reports payload) (\<lambda>validated.
     bindE (subscript payload ''reports'') (\<lambda>v. bindE (p_index v ''id'' ''reports'') (\<lambda>rows.
     bindE (subscript payload ''arbitrations'') (\<lambda>v. bindE (p_index v ''report_id'' ''arbitrations'') (\<lambda>decisions.
     bindE (mapE (\<lambda>row. bindE (fact_of reporting_round height row) (\<lambda>f. bindE (arbitration_of decisions height (fst row)) (\<lambda>a. Inr (f, a)))) rows) (\<lambda>found.
       Inr \<lparr>fa_validated = validated, fa_facts = concat (map fst found), fa_arbitrations = concat (map snd found)\<rparr>))))))"

definition fact_row :: "confirmed_report_row \<Rightarrow> report_fact" where
  "fact_row c = (cf_reporting_round c, cf_benchmark_id c, cf_benchmarker c, cf_nonce c, cf_confirmed_height c)"

text \<open>The recorded arbitrations of reports of a reporting round, up to a height.\<close>

definition arbitrations_by :: "int \<Rightarrow> int \<Rightarrow> pool \<Rightarrow> confirmed_arbitration_row list" where
  "arbitrations_by reporting_round height p = filter (\<lambda>a. ab_confirmed_height a \<le> height \<and>
     (case lookup cf_report_id (ab_report_id a) (confirmed_reports (booked p)) of None \<Rightarrow> False | Some c \<Rightarrow> cf_reporting_round c = reporting_round))
     (confirmed_arbitrations (booked p))"

definition reports_by :: "int \<Rightarrow> int \<Rightarrow> pool \<Rightarrow> confirmed_report_row list" where
  "reports_by reporting_round height p = filter (\<lambda>c. cf_reporting_round c = reporting_round \<and> cf_confirmed_height c \<le> height)
     (confirmed_reports (booked p))"

definition require_known_facts :: "int \<Rightarrow> int \<Rightarrow> json \<Rightarrow> pool \<Rightarrow> unit result" where
  "require_known_facts reporting_round height payload p =
     bindE (facts payload reporting_round height) (\<lambda>f.
     if list_ex (\<lambda>c. map_of (fa_facts f) (cf_report_id c) \<noteq> Some (fact_row c)) (reports_by reporting_round height p)
     then Inl (Conflict ''report seal omits or contradicts confirmed evidence learned during replay'')
     else if list_ex (\<lambda>a. map_of (fa_arbitrations f) (ab_report_id a) \<noteq> Some (ab_result a, ab_confirmed_height a)) (arbitrations_by reporting_round height p)
     then Inl (Conflict ''report seal omits or contradicts an already confirmed arbitration'') else Inr ())"

section \<open>Captures\<close>

record capture_result =
  cx_id :: string
  cx_complete :: bool
  cx_error :: "string option"

definition option_json :: "string option \<Rightarrow> json" where
  "option_json v = (case v of None \<Rightarrow> JNull | Some s \<Rightarrow> JStr s)"

definition or_empty :: "json \<Rightarrow> json" where
  "or_empty v = (if falsy v then JDict [] else v)"

fun error_text :: "error \<Rightarrow> string" where
  "error_text (ProtocolDataError m) = m"
| "error_text (FundsError m) = m"
| "error_text (Conflict m) = m"
| "error_text _ = []"

text \<open>\<open>except (ProtocolDataError, KeyError, TypeError)\<close>.\<close>

definition caught :: "error \<Rightarrow> bool" where
  "caught e = (case e of ProtocolDataError _ \<Rightarrow> True | KeyError \<Rightarrow> True | TypeError \<Rightarrow> True | _ \<Rightarrow> False)"

definition capture_digest :: "env \<Rightarrow> string \<Rightarrow> json \<Rightarrow> string option \<Rightarrow> string" where
  "capture_digest env digest metadata error =
     fingerprint env (JDict [(''sha256'', JStr digest), (''metadata'', or_empty metadata), (''error'', option_json error)])"

text \<open>A capture that omits or contradicts a confirmed fact is kept, as incomplete.\<close>

definition contradiction :: "report_facts \<Rightarrow> int \<Rightarrow> int \<Rightarrow> pool \<Rightarrow> string option \<Rightarrow> string option" where
  "contradiction f reporting_round height p error =
     (let known = filter (\<lambda>c. (cf_reporting_round c = reporting_round \<and> cf_confirmed_height c \<le> height) \<or>
            cf_report_id c \<in> set (map fst (fa_facts f))) (confirmed_reports (booked p));
          error = (if list_ex (\<lambda>c. map_of (fa_facts f) (cf_report_id c) \<noteq> Some (fact_row c)) known
            then Some ''capture omits or contradicts a previously confirmed report'' else error);
          decided = filter (\<lambda>a. case lookup cf_report_id (ab_report_id a) (confirmed_reports (booked p)) of None \<Rightarrow> False
            | Some c \<Rightarrow> (cf_reporting_round c = reporting_round \<and> ab_confirmed_height a \<le> height) \<or>
                ab_report_id a \<in> set (map fst (fa_arbitrations f))) (confirmed_arbitrations (booked p)) in
      if list_ex (\<lambda>a. map_of (fa_arbitrations f) (ab_report_id a) \<noteq> Some (ab_result a, ab_confirmed_height a)) decided
      then Some ''capture omits or contradicts a previously confirmed arbitration'' else error)"

text \<open>\<open>INSERT ... ON CONFLICT DO NOTHING\<close>.\<close>

definition insert_new :: "('r \<Rightarrow> 'k) \<Rightarrow> 'r \<Rightarrow> 'r list \<Rightarrow> 'r list" where
  "insert_new key r rows = (if lookup key (key r) rows = None then rows @ [r] else rows)"

definition confirm_facts :: "string \<Rightarrow> report_facts \<Rightarrow> round_tables \<Rightarrow> round_tables" where
  "confirm_facts capture_id f t =
     t\<lparr>confirmed_reports := foldl (\<lambda>rows (i, r, b, w, n, h). insert_new cf_report_id
         \<lparr>cf_report_id = i, cf_reporting_round = r, cf_benchmark_id = b, cf_benchmarker = w, cf_nonce = n, cf_confirmed_height = h,
          cf_capture_id = capture_id\<rparr> rows) (confirmed_reports t) (fa_facts f),
       confirmed_arbitrations := foldl (\<lambda>rows (i, v, h). insert_new ab_report_id
         \<lparr>ab_report_id = i, ab_result = v, ab_confirmed_height = h, ab_capture_id = capture_id\<rparr> rows)
         (confirmed_arbitrations t) (fa_arbitrations f)\<rparr>"

definition no_facts :: report_facts where "no_facts = \<lparr>fa_validated = [], fa_facts = [], fa_arbitrations = []\<rparr>"

definition read_facts :: "json \<Rightarrow> int \<Rightarrow> int \<Rightarrow> string option \<Rightarrow> (report_facts \<times> string option) result" where
  "read_facts payload reporting_round height error =
     (case facts payload reporting_round height of
        Inr f \<Rightarrow> Inr (f, error) | Inl e \<Rightarrow> if caught e then Inr (no_facts, Some (error_text e)) else Inl e)"

definition record_reports :: "env \<Rightarrow> string \<Rightarrow> json \<Rightarrow> string \<Rightarrow> json \<Rightarrow> json \<Rightarrow> string option \<Rightarrow> pool \<Rightarrow> (capture_result \<times> pool) result" where
  "record_reports env new_id reporting_round block_id payload metadata error p =
     bindE (units True reporting_round) (\<lambda>reporting_round.
     bindE (anchor_height block_id p) (\<lambda>height.
     let digest = sha256 env (canonical payload); input = capture_digest env digest metadata error in
     bindE (read_facts payload reporting_round height error) (\<lambda>(f, error).
     case List.find (\<lambda>c. rc_reporting_round c = reporting_round \<and> rc_block_id c = block_id \<and> rc_input_digest c = input) (report_captures (booked p)) of
       Some c \<Rightarrow> Inr (\<lparr>cx_id = rc_id c, cx_complete = rc_complete c, cx_error = rc_error c\<rparr>, p)
     | None \<Rightarrow>
         (let error = contradiction f reporting_round height p error;
              capture = \<lparr>rc_id = new_id, rc_reporting_round = reporting_round, rc_block_id = block_id, rc_payload_sha256 = digest,
                rc_input_digest = input, rc_payload = payload, rc_metadata = or_empty metadata, rc_complete = (error = None), rc_error = error,
                rc_created_at = clock env, rc_expired_at = None\<rparr>;
              tables = (booked p)\<lparr>report_captures := report_captures (booked p) @ [capture]\<rparr> in
          Inr (\<lparr>cx_id = new_id, cx_complete = (error = None), cx_error = error\<rparr>,
            p\<lparr>rounds := (if error = None then confirm_facts new_id f tables else tables)\<rparr>)))))"

section \<open>Reporting indexes\<close>

definition is_benchmark_id :: "json \<Rightarrow> bool" where
  "is_benchmark_id v = (case v of JStr s \<Rightarrow> length s = 32 \<and> list_all (\<lambda>c. c \<in> set ''0123456789abcdef'') s | _ \<Rightarrow> False)"

text \<open>The identifiers of a reporting index, or the reason it is malformed.\<close>

definition index_ids :: "json \<Rightarrow> string list result" where
  "index_ids payload = bindE (subscript payload ''benchmark_ids'') (\<lambda>v. case v of
       JList xs \<Rightarrow> if list_all is_benchmark_id xs \<and> distinct xs then Inr (map text_of xs) else malformed ''malformed reportable benchmark index''
     | _ \<Rightarrow> malformed ''malformed reportable benchmark index'')"

text \<open>\<open>(row['assignment'] or {}).get('settings', {})\<close> names this player and challenge.\<close>

definition assigned_to :: "string \<Rightarrow> string \<Rightarrow> json option \<Rightarrow> bool result" where
  "assigned_to player challenge assignment =
     (case assignment of
        Some (JDict items) \<Rightarrow>
          (case dict_get ''settings'' items of
             None \<Rightarrow> Inr False
           | Some settings \<Rightarrow> bindE (json_get settings ''player_id'') (\<lambda>a. bindE (json_get settings ''challenge_id'') (\<lambda>b.
               Inr (a = JStr player \<and> b = JStr challenge))))
      | None \<Rightarrow> Inr False
      | Some v \<Rightarrow> if falsy v then Inr False else Inl AttributeError)"

definition check_index_row :: "int \<Rightarrow> string \<Rightarrow> string \<Rightarrow> pool \<Rightarrow> reservation_row \<Rightarrow> string option \<Rightarrow> string option result" where
  "check_index_row reporting_round player challenge p r error =
     bindE (assigned_to player challenge (r_assignment r)) (\<lambda>owned.
     let error = (if owned then error else Some ''reporting index ownership differs from the immutable assignment'') in
     case lookup (Some \<circ> rr_benchmark_id) (r_benchmark_id r) (benchmark_reporting_rounds (booked p)) of
       Some m \<Rightarrow> Inr (if rr_reporting_round m \<noteq> reporting_round then Some ''benchmark appears in conflicting protocol reporting rounds'' else error)
     | None \<Rightarrow> Inr error)"

definition benchmark_key :: "reservation_row \<Rightarrow> string" where
  "benchmark_key r = (case r_benchmark_id r of Some i \<Rightarrow> i | None \<Rightarrow> [])"

definition indexed_reservations :: "string list \<Rightarrow> pool \<Rightarrow> reservation_row list" where
  "indexed_reservations ids p = filter (\<lambda>r. r_benchmark_id r \<noteq> None \<and> benchmark_key r \<in> set ids) (reservations p)"

definition add_reporting_rounds :: "string \<Rightarrow> int \<Rightarrow> reservation_row list \<Rightarrow> round_tables \<Rightarrow> round_tables" where
  "add_reporting_rounds capture_id reporting_round rows t =
     t\<lparr>benchmark_reporting_rounds := foldl (\<lambda>ms r. insert_new rr_benchmark_id
        \<lparr>rr_benchmark_id = benchmark_key r, rr_creation_round = r_creation_round r, rr_reporting_round = reporting_round, rr_capture_id = capture_id\<rparr> ms)
        (benchmark_reporting_rounds t) rows\<rparr>"

definition read_index :: "json \<Rightarrow> string option \<Rightarrow> (string list \<times> string option) result" where
  "read_index payload error =
     (case index_ids payload of Inr ids \<Rightarrow> Inr (ids, error)
      | Inl e \<Rightarrow> if caught e then Inr ([], Some (error_text e)) else Inl e)"

definition record_index :: "env \<Rightarrow> string \<Rightarrow> json \<Rightarrow> string \<Rightarrow> string \<Rightarrow> string \<Rightarrow> json \<Rightarrow> json \<Rightarrow> string option \<Rightarrow> pool \<Rightarrow> (capture_result \<times> pool) result" where
  "record_index env new_id reporting_round block_id player challenge payload metadata error p =
     bindE (units True reporting_round) (\<lambda>reporting_round.
     bindE (anchor_height block_id p) (\<lambda>_.
     let digest = sha256 env (canonical payload); input = capture_digest env digest metadata error in
     bindE (read_index payload error) (\<lambda>(ids, error).
     case List.find (\<lambda>c. ic_reporting_round c = reporting_round \<and> ic_block_id c = block_id \<and> ic_player_id c = player \<and>
         ic_challenge_id c = challenge \<and> ic_input_digest c = input) (report_index_captures (booked p)) of
       Some c \<Rightarrow> Inr (\<lparr>cx_id = ic_id c, cx_complete = ic_complete c, cx_error = ic_error c\<rparr>, p)
     | None \<Rightarrow>
         (let owned = indexed_reservations ids p in
          bindE (foldE (check_index_row reporting_round player challenge p) owned error) (\<lambda>error.
          let capture = \<lparr>ic_id = new_id, ic_reporting_round = reporting_round, ic_block_id = block_id, ic_player_id = player,
                ic_challenge_id = challenge, ic_payload_sha256 = digest, ic_input_digest = input, ic_payload = payload,
                ic_metadata = or_empty metadata, ic_complete = (error = None), ic_error = error\<rparr>;
              tables = (booked p)\<lparr>report_index_captures := report_index_captures (booked p) @ [capture]\<rparr> in
          Inr (\<lparr>cx_id = new_id, cx_complete = (error = None), cx_error = error\<rparr>,
            p\<lparr>rounds := (if error = None then add_reporting_rounds new_id reporting_round owned tables else tables)\<rparr>))))))"

datatype confirmation = NoAnchor | KnownRound int | Indexed capture_result

definition confirmation_metadata :: "string \<Rightarrow> int \<Rightarrow> json" where
  "confirmation_metadata anchor_id height = JDict [(''source'', JStr ''tig-confirmation-reporting-round-v1''),
     (''confirmed_block_id'', JStr anchor_id), (''benchmark_confirmed_height'', JInt height)]"

definition record_confirmation_round :: "env \<Rightarrow> string \<Rightarrow> string \<Rightarrow> int \<Rightarrow> string \<Rightarrow> pool \<Rightarrow> (confirmation \<times> pool) result" where
  "record_confirmation_round env new_id benchmark_id confirmed_height block_id p =
     (case (block_at confirmed_height p, lookup r_benchmark_id (Some benchmark_id) (reservations p)) of
        (Some anchor, Some owner) \<Rightarrow>
          (case lookup rr_benchmark_id benchmark_id (benchmark_reporting_rounds (booked p)) of
             Some m \<Rightarrow> if rr_reporting_round m \<noteq> ob_round anchor then Inl (Conflict ''confirmation header contradicts the recorded reporting round'')
               else Inr (KnownRound (rr_reporting_round m), p)
           | None \<Rightarrow>
               bindE (case r_assignment owner of None \<Rightarrow> Inl TypeError | Some a \<Rightarrow> subscript a ''settings'') (\<lambda>settings.
               bindE (subscript settings ''player_id'') (\<lambda>player. bindE (subscript settings ''challenge_id'') (\<lambda>challenge.
               bindE (record_index env new_id (JInt (ob_round anchor)) block_id (text_of player) (text_of challenge)
                 (JDict [(''benchmark_ids'', JList [JStr benchmark_id])]) (confirmation_metadata (ob_id anchor) confirmed_height) None p) (\<lambda>(result, p).
                 Inr (Indexed result, p))))))
      | _ \<Rightarrow> Inr (NoAnchor, p))"

section \<open>Seals\<close>

text \<open>The newest capture of a reporting round: by block height, then by the time it was stored.\<close>

definition anchored :: "report_capture_row \<Rightarrow> pool \<Rightarrow> observed_block_row option" where
  "anchored c p = lookup ob_id (rc_block_id c) (observed_blocks (stored p))"

definition newest_capture :: "int \<Rightarrow> pool \<Rightarrow> string option" where
  "newest_capture reporting_round p =
     (let rows = filter (\<lambda>c. rc_reporting_round c = reporting_round \<and> anchored c p \<noteq> None) (report_captures (booked p)) in
      if rows = [] then None
      else Some (rc_id (last (sort_key (\<lambda>c. (case anchored c p of Some b \<Rightarrow> ob_height b | None \<Rightarrow> 0, rc_created_at c)) rows))))"

definition submission_period :: "report_capture_row \<Rightarrow> int result" where
  "submission_period c = (case rc_metadata c of
     JDict items \<Rightarrow> p_integer (case dict_get ''report_submission_period'' items of None \<Rightarrow> JInt 2 | Some v \<Rightarrow> v) ''report submission period'' 0
   | _ \<Rightarrow> Inl AttributeError)"

text \<open>The stored payload of the newest capture of its round, checked against the confirmed facts.\<close>

definition capture_payload :: "env \<Rightarrow> string \<Rightarrow> report_capture_row \<times> observed_block_row \<Rightarrow> pool \<Rightarrow> json result" where
  "capture_payload env changed c p = (case c of (c, b) \<Rightarrow>
     if newest_capture (rc_reporting_round c) p \<noteq> Some (rc_id c) then Inl (Conflict changed)
     else if rc_expired_at c \<noteq> None then Inl (Conflict ''report capture payload expired under the retention policy'')
     else if sha256 env (canonical (rc_payload c)) \<noteq> rc_payload_sha256 c then Inl (Conflict ''stored report payload checksum failed'')
     else bindE (require_known_facts (rc_reporting_round c) (ob_height b) (sort_keys (rc_payload c)) p) (\<lambda>_. Inr (sort_keys (rc_payload c))))"

definition captures_of :: "string list \<Rightarrow> pool \<Rightarrow> (report_capture_row \<times> observed_block_row) list" where
  "captures_of ids p = concat (map (\<lambda>c. if rc_id c \<in> set ids then (case anchored c p of Some b \<Rightarrow> [(c, b)] | None \<Rightarrow> []) else [])
     (report_captures (booked p)))"

definition seal_capture :: "env \<Rightarrow> int \<Rightarrow> pool \<Rightarrow> report_capture_row \<times> observed_block_row \<Rightarrow> (string \<times> json) list \<Rightarrow> (string \<times> json) list result" where
  "seal_capture env creation_round p cb combined = (case cb of (c, b) \<Rightarrow>
     bindE (require_block (rc_block_id c) p) (\<lambda>_.
     if \<not> rc_complete c \<or> ob_round b < creation_round + 3 then Inl (Conflict ''report capture is incomplete or predates the end of X+2'') else
     bindE (submission_period c) (\<lambda>period.
     if ob_round b < rc_reporting_round c + period + 1 then Inl (Conflict ''capture predates the end of its protocol reporting window'') else
     bindE (capture_payload env ''a later report observation must be reconciled before sealing'' cb p) (\<lambda>payload.
     bindE (validate_reports payload) (\<lambda>values.
     if \<exists>k \<in> set (map fst values). k \<in> set (map fst combined) then Inl (Conflict ''report appears in multiple reporting rounds'')
     else Inr (combined @ values))))))"

definition seal_digest :: "env \<Rightarrow> int \<Rightarrow> int list \<Rightarrow> string list \<Rightarrow> (string \<times> json) list \<Rightarrow> string" where
  "seal_digest env creation_round scope capture_ids combined =
     fingerprint env (JDict [(''round'', JInt creation_round), (''scope'', JList (map JInt scope)),
       (''captures'', JList (map JStr (sort capture_ids))), (''reports'', JDict combined)])"

definition seal :: "env \<Rightarrow> string \<Rightarrow> int \<Rightarrow> string list \<Rightarrow> string \<Rightarrow> pool \<Rightarrow> (report_seal_row \<times> pool) result" where
  "seal env new_id creation_round capture_ids block_id p =
     bindE (deadline env creation_round block_id p) (\<lambda>_.
     if capture_ids = [] \<or> \<not> distinct capture_ids then Inl (FundsError ''unique complete report captures required'') else
     bindE (require_block block_id p) (\<lambda>_.
     case lookup rs_creation_round creation_round (round_report_scopes (booked p)) of
       None \<Rightarrow> Inl (Conflict ''verified protocol reporting-round scope is missing'')
     | Some scope \<Rightarrow>
         bindE (check_scope creation_round (rs_reporting_rounds scope) p) (\<lambda>_.
         let captures = captures_of capture_ids p in
         if length captures \<noteq> length capture_ids \<or> sort (map (rc_reporting_round \<circ> fst) captures) \<noteq> rs_reporting_rounds scope
         then Inl (Conflict ''captures do not cover every required reporting round exactly once'') else
         bindE (foldE (seal_capture env creation_round p) captures []) (\<lambda>combined.
         let digest = seal_digest env creation_round (rs_reporting_rounds scope) capture_ids combined in
         case lookup sl_input_digest digest (round_report_seals (booked p)) of
           Some previous \<Rightarrow> Inr (previous, p)
         | None \<Rightarrow>
             (let s = \<lparr>sl_id = new_id, sl_creation_round = creation_round, sl_block_id = block_id, sl_capture_ids = sort capture_ids,
                sl_reports = combined, sl_input_digest = digest\<rparr> in
              Inr (s, p\<lparr>rounds := (booked p)\<lparr>round_report_seals := round_report_seals (booked p) @ [s]\<rparr>\<rparr>))))))"

definition check_sealed :: "env \<Rightarrow> int \<Rightarrow> pool \<Rightarrow> report_capture_row \<times> observed_block_row \<Rightarrow> unit result" where
  "check_sealed env creation_round p cb = (case cb of (c, b) \<Rightarrow>
     bindE (require_block (rc_block_id c) p) (\<lambda>_.
     bindE (submission_period c) (\<lambda>period.
     if ob_round b < max (creation_round + 3) (rc_reporting_round c + period + 1) then Inl (Conflict ''sealed capture predates the final reporting window'') else
     bindE (capture_payload env ''report observations changed after this seal; reconcile a new version'' cb p) (\<lambda>_. Inr ()))))"

definition require_seal :: "env \<Rightarrow> string \<Rightarrow> int \<Rightarrow> pool \<Rightarrow> report_seal_row result" where
  "require_seal env identity creation_round p =
     (case List.find (\<lambda>s. sl_id s = identity \<and> sl_creation_round s = creation_round) (round_report_seals (booked p)) of
        None \<Rightarrow> Inl (Conflict ''a matching post-X+2 report seal is required'')
      | Some s \<Rightarrow>
          (case lookup rs_creation_round creation_round (round_report_scopes (booked p)) of None \<Rightarrow> Inl TypeError
           | Some scope \<Rightarrow>
               bindE (check_scope creation_round (rs_reporting_rounds scope) p) (\<lambda>_.
               bindE (require_block (sl_block_id s) p) (\<lambda>_.
               bindE (mapE (check_sealed env creation_round p) (captures_of (sl_capture_ids s) p)) (\<lambda>_. Inr s)))))"

end
