(* ===== verification/Settlement.thy ===== *)
theory Settlement
  imports Reports
begin

text \<open>
  \<open>pool_manager/pool_v2/settlement.py\<close>: a benchmark's collateral is returned or forfeited once
  its outcome and the sealed reports are known; a round's earnings are declared, funded by
  attributed receipts and by the operator's reimbursement, and allocated once: five percent to
  the operator, the rest to the members by credit. \<open>jid\<close> is the fresh identifier of the journal.
\<close>

definition SETTLEMENT_RULE :: string where "SETTLEMENT_RULE = ''round-credit-five-percent-v1''"

definition pot :: "int \<Rightarrow> string" where "pot round_number = ''round:'' @ int_text round_number"

definition round_key :: "int \<Rightarrow> string \<Rightarrow> string" where
  "round_key round_number kind = ''round:'' @ int_text round_number @ '':'' @ kind"

definition finalize_key :: "string \<Rightarrow> string" where
  "finalize_key reservation_id = ''collateral:'' @ reservation_id @ '':finalize''"

text \<open>A posting that is left out when there is nothing to move.\<close>

definition post_amount :: "env \<Rightarrow> string \<Rightarrow> string \<Rightarrow> string \<Rightarrow> int \<Rightarrow> movement list \<Rightarrow> json \<Rightarrow> pool \<Rightarrow> (string option \<times> pool) result" where
  "post_amount env jid key kind amount movements details p =
     (if amount = 0 then Inr (None, p)
      else bindE (on_ledger (post env jid key kind movements details None) p) (\<lambda>(j, p). Inr (Some j, p)))"

section \<open>Collateral\<close>

fun outcome_name :: "collateral_outcome \<Rightarrow> string" where
  "outcome_name Returned = ''returned''"
| "outcome_name Forfeited = ''forfeited''"

text \<open>A report's nonce against the stored assignment; a missing field means incomplete metadata.\<close>

definition report_matches :: "json \<Rightarrow> reservation_row \<Rightarrow> bool result" where
  "report_matches report r =
     bindE (subscript report ''benchmarker'') (\<lambda>owner.
     bindE (case r_assignment r of None \<Rightarrow> Inl TypeError | Some a \<Rightarrow> Inr a) (\<lambda>assignment.
     bindE (path assignment [''settings'', ''player_id'']) (\<lambda>player. if \<not> json_eq owner player then Inr False else
     bindE (subscript report ''nonce'') (\<lambda>nonce.
     bindE (subscript assignment ''num_nonces'') (\<lambda>v. bindE (count_value v) (\<lambda>total. Inr (int_of nonce < total)))))))"

definition incomplete_metadata :: "'a result \<Rightarrow> 'a result" where
  "incomplete_metadata m = (case m of Inl KeyError \<Rightarrow> Inl (Conflict ''complete benchmark metadata is needed to reconcile this report'')
     | Inl TypeError \<Rightarrow> Inl (Conflict ''complete benchmark metadata is needed to reconcile this report'') | _ \<Rightarrow> m)"

definition check_related :: "reservation_row \<Rightarrow> json \<Rightarrow> json result" where
  "check_related r report =
     bindE (subscript report ''result'') (\<lambda>decision.
     if decision = JNull then Inl (Conflict ''this benchmark still has unresolved arbitration'') else
     bindE (incomplete_metadata (bindE (report_matches report r) (\<lambda>ok.
       if ok then Inr () else Inl (Conflict ''report ownership or nonce differs from the stored assignment'')))) (\<lambda>_. Inr decision))"

definition related_reports :: "report_seal_row \<Rightarrow> reservation_row \<Rightarrow> json list result" where
  "related_reports s r =
     bindE (mapE (\<lambda>(_, v). bindE (subscript v ''benchmark_id'') (\<lambda>b. Inr (v, b = option_json (r_benchmark_id r)))) (sl_reports s)) (\<lambda>rows.
       Inr (map fst (filter snd rows)))"

text \<open>Unhanded work only expires; handed-over work is forfeited when it never became active or was not reproducible.\<close>

definition decide_outcome :: "reservation_row \<Rightarrow> json list \<Rightarrow> collateral_outcome result" where
  "decide_outcome r decisions =
     (if r_handed_over_at r = None
      then (if r_state r \<noteq> Expired then Inl (Conflict ''unhanded work requires reconciled definitive expiry'') else Inr Returned)
      else Inr (if r_active_at_height r = None \<or> JStr ''nonreproducible'' \<in> set decisions then Forfeited else Returned))"

datatype finalization =
    Finalization finalization_row
  | PreviouslyFinalized string collateral_outcome int

definition finalization_details :: "string \<Rightarrow> int \<Rightarrow> string \<Rightarrow> collateral_outcome \<Rightarrow> json" where
  "finalization_details reservation_id round_number seal_id result = JDict [(''reservation_id'', JStr reservation_id),
     (''creation_round'', JInt round_number), (''report_seal_id'', JStr seal_id), (''outcome'', JStr (outcome_name result))]"

definition apply_outcome :: "env \<Rightarrow> string \<Rightarrow> reservation_row \<Rightarrow> string \<Rightarrow> collateral_outcome \<Rightarrow> pool \<Rightarrow> (finalization_row \<times> pool) result" where
  "apply_outcome env jid r seal_id result p =
     bindE (if result = Returned then Inr (available (r_member_id r), p)
            else on_ledger (account (pot (r_creation_round r)) KRound AssetTIG Custody) p) (\<lambda>(destination, p).
     bindE (post_amount env jid (finalize_key (r_id r)) (''collateral_'' @ outcome_name result) (r_amount r)
       [(held (r_id r), - r_amount r), (destination, r_amount r)]
       (finalization_details (r_id r) (r_creation_round r) seal_id result) p) (\<lambda>(journal, p).
     bindE (event env (r_id r) ''collateral_finalized'' (JDict [(''outcome'', JStr (outcome_name result)), (''amount'', JInt (r_amount r)),
       (''report_seal_id'', JStr seal_id)]) (update_reservation (r_id r) (\<lambda>x. x\<lparr>r_collateral_outcome := Some result\<rparr>) p)) (\<lambda>p.
     let row = \<lparr>fz_reservation_id = r_id r, fz_outcome = result, fz_amount = r_amount r, fz_report_seal_id = seal_id, fz_journal_id = journal\<rparr>
     in Inr (row, p\<lparr>rounds := (booked p)\<lparr>collateral_finalizations := collateral_finalizations (booked p) @ [row]\<rparr>\<rparr>))))"

definition finalize_guards :: "env \<Rightarrow> reservation_row \<Rightarrow> string \<Rightarrow> pool \<Rightarrow> collateral_outcome result" where
  "finalize_guards env r seal_id p =
     bindE (require_seal env seal_id (r_creation_round r) p) (\<lambda>s.
     if r_state r \<notin> {Active, VerificationFailed, Expired} \<or> r_slot_held r
     then Inl (Conflict ''a definitive benchmark outcome is still missing'') else
     bindE (related_reports s r) (\<lambda>related. bindE (mapE (check_related r) related) (decide_outcome r)))"

definition finalize_collateral :: "env \<Rightarrow> string \<Rightarrow> string \<Rightarrow> string \<Rightarrow> pool \<Rightarrow> (finalization \<times> pool) result" where
  "finalize_collateral env jid reservation_id seal_id p =
     (if lookup r_id reservation_id (reservations p) = None then Inl (FundsError ''unknown collateral reservation'') else
      bindE (locked reservation_id p) (\<lambda>r.
      case lookup fz_reservation_id reservation_id (collateral_finalizations (booked p)) of
        Some previous \<Rightarrow> Inr (Finalization previous, p)
      | None \<Rightarrow>
          (case r_collateral_outcome r of
             Some result \<Rightarrow> Inr (PreviouslyFinalized (r_id r) result (r_amount r), p)
           | None \<Rightarrow> bindE (finalize_guards env r seal_id p) (\<lambda>result.
               bindE (apply_outcome env jid r seal_id result p) (\<lambda>(row, p). Inr (Finalization row, p))))))"

section \<open>Funding a round\<close>

definition earnings_of :: "int \<Rightarrow> pool \<Rightarrow> round_earnings_row option" where
  "earnings_of round_number p = lookup ea_round round_number (round_earnings (booked p))"

definition declare_earnings :: "env \<Rightarrow> json \<Rightarrow> json \<Rightarrow> json \<Rightarrow> string \<Rightarrow> json \<Rightarrow> pool \<Rightarrow> (round_earnings_row \<times> pool) result" where
  "declare_earnings env round_number expected_received_net withheld_operating_cost block_id evidence p =
     bindE (units True round_number) (\<lambda>round_number.
     bindE (units False expected_received_net) (\<lambda>net.
     bindE (units False withheld_operating_cost) (\<lambda>cost.
     if falsy evidence then Inl (FundsError ''final round earnings require protocol attribution evidence'') else
     bindE (deadline env round_number block_id p) (\<lambda>_.
     bindE (require_block block_id p) (\<lambda>_.
     case earnings_of round_number p of
       Some previous \<Rightarrow>
         if ea_expected_received_net previous \<noteq> net \<or> ea_withheld_operating_cost previous \<noteq> cost \<or> \<not> json_eq (ea_evidence previous) evidence
         then Inl (Conflict ''final round earnings are already frozen'') else Inr (previous, p)
     | None \<Rightarrow>
         bindE (on_ledger (account (pot round_number) KRound AssetTIG Custody) p) (\<lambda>(_, p).
         let row = \<lparr>ea_round = round_number, ea_expected_received_net = net, ea_withheld_operating_cost = cost, ea_block_id = block_id,
           ea_evidence = evidence\<rparr>
         in Inr (row, p\<lparr>rounds := (booked p)\<lparr>round_earnings := round_earnings (booked p) @ [row]\<rparr>\<rparr>)))))))"

definition round_received :: "int \<Rightarrow> pool \<Rightarrow> int" where
  "round_received round_number p = sum_where (\<lambda>x. rp_round x = round_number) rp_amount (round_receipts (booked p))"

definition settled :: "int \<Rightarrow> pool \<Rightarrow> settlement_row option" where
  "settled round_number p = lookup st_round round_number (round_settlements (booked p))"

definition receipt_guards :: "confirmed_transfer \<Rightarrow> int \<Rightarrow> pool \<Rightarrow> round_earnings_row result" where
  "receipt_guards t round_number p =
     (case earnings_of round_number p of None \<Rightarrow> Inl (Conflict ''final earnings must be attributed before their receipts'')
      | Some earnings \<Rightarrow>
          if settled round_number p \<noteq> None then Inl (Conflict ''round has already settled'')
          else if lookup tr_event_id (event_id t) (transfers p) = None
          then Inl (Conflict ''receipt must first be observed by the confirmed transfer indexer'') else Inr earnings)"

definition attribute_receipt :: "env \<Rightarrow> string \<Rightarrow> json \<Rightarrow> confirmed_transfer \<Rightarrow> json \<Rightarrow> pool \<Rightarrow> (round_receipt_row \<times> pool) result" where
  "attribute_receipt env jid round_number t evidence p =
     bindE (units True round_number) (\<lambda>round_number.
     bindE (units True (JInt (tf_amount t))) (\<lambda>_.
     if falsy evidence then Inl (FundsError ''reward receipt requires verified protocol-round attribution'')
     else if tf_recipient t \<noteq> net_custody (tf_network t) \<or> tf_sender t = net_custody (tf_network t)
     then Inl (FundsError ''reward receipt must be incoming to configured custody'') else
     bindE (bind (tf_network t) p) (\<lambda>(_, p).
     case lookup rp_event_id (event_id t) (round_receipts (booked p)) of
       Some previous \<Rightarrow>
         if rp_round previous \<noteq> round_number \<or> rp_amount previous \<noteq> tf_amount t
         then Inl (Conflict ''reward receipt already belongs to a different round'')
         else bindE (save_transfer t p) (\<lambda>(_, p). Inr (previous, p))
     | None \<Rightarrow>
         bindE (receipt_guards t round_number p) (\<lambda>earnings.
         bindE (save_transfer t p) (\<lambda>(_, p).
         if lookup at_event_id (event_id t) (transfer_attributions p) \<noteq> None
         then Inl (Conflict ''receipt is already assigned; deposits cannot also become round rewards'')
         else if round_received round_number p + tf_amount t > ea_expected_received_net earnings
         then Inl (Conflict ''receipts exceed the declared final net round earnings'') else
         bindE (attribute env jid t (pot round_number) ''protocol-reward-adapter'' evidence p) (\<lambda>(_, p).
         let row = \<lparr>rp_event_id = event_id t, rp_round = round_number, rp_amount = tf_amount t, rp_evidence = evidence\<rparr>
         in Inr (row, p\<lparr>rounds := (booked p)\<lparr>round_receipts := round_receipts (booked p) @ [row]\<rparr>\<rparr>)))))))"

definition reimburse_operating_cost :: "env \<Rightarrow> string \<Rightarrow> int \<Rightarrow> pool \<Rightarrow> (round_reimbursement_row \<times> pool) result" where
  "reimburse_operating_cost env jid round_number p =
     (case lookup rb_round round_number (round_reimbursements (booked p)) of
        Some previous \<Rightarrow> Inr (previous, p)
      | None \<Rightarrow>
          (case earnings_of round_number p of None \<Rightarrow> Inl (Conflict ''final round operating-charge classification is missing'')
           | Some earnings \<Rightarrow>
               if settled round_number p \<noteq> None then Inl (Conflict ''round has already settled'') else
               let amount = ea_withheld_operating_cost earnings in
               bindE (post_amount env jid (round_key round_number ''reimburse'') ''operator_cost_reimbursement'' amount
                 [(''operator:custody:TIG'', - amount), (pot round_number, amount)]
                 (JDict [(''round'', JInt round_number), (''withheld_operating_cost'', JInt amount)]) p) (\<lambda>(journal, p).
               let row = \<lparr>rb_round = round_number, rb_amount = amount, rb_journal_id = journal\<rparr>
               in Inr (row, p\<lparr>rounds := (booked p)\<lparr>round_reimbursements := round_reimbursements (booked p) @ [row]\<rparr>\<rparr>))))"

section \<open>Allocation\<close>

text \<open>Everything the allocation is computed from, read under the locks.\<close>

record round_inputs =
  ri_round :: int
  ri_seal_id :: string
  ri_credits :: "(string \<times> rat) list"
  ri_receipts :: "(string \<times> int) list"
  ri_reimbursed :: int
  ri_forfeitures :: "(string \<times> int) list"
  ri_expected :: int
  ri_coverage :: coverage

definition credit_pair :: "rat \<Rightarrow> json" where
  "credit_pair x = (case quotient_of x of (n, d) \<Rightarrow> JList [JInt n, JInt d])"

definition int_dict :: "(string \<times> int) list \<Rightarrow> json" where
  "int_dict d = JDict (map (\<lambda>(k, n). (k, JInt n)) d)"

definition inputs_json :: "round_inputs \<Rightarrow> json" where
  "inputs_json i = JDict [(''round'', JInt (ri_round i)), (''rule'', JStr SETTLEMENT_RULE), (''report_seal_id'', JStr (ri_seal_id i)),
     (''credits'', JDict (map (\<lambda>(k, x). (k, credit_pair x)) (sort_key fst (ri_credits i)))),
     (''receipts'', int_dict (ri_receipts i)), (''cost_reimbursement'', JInt (ri_reimbursed i)),
     (''forfeitures'', int_dict (ri_forfeitures i)), (''expected_received_net'', JInt (ri_expected i)),
     (''missing_heights'', JList (map JInt (co_missing_heights (ri_coverage i)))),
     (''waived_heights'', JList (map JInt (co_waived_heights (ri_coverage i)))),
     (''missing_block_policy'', JDict [(''policy'', JStr (co_policy (ri_coverage i))), (''revision'', JInt (co_policy_revision (ri_coverage i))),
       (''max_missing_per_round'', JInt (co_max_missing (ri_coverage i)))])]"

definition input_digest :: "env \<Rightarrow> round_inputs \<Rightarrow> string" where
  "input_digest env i = fingerprint env (inputs_json i)"

definition input_amount :: "round_inputs \<Rightarrow> int" where
  "input_amount i = sum_list (map snd (ri_receipts i)) + ri_reimbursed i + sum_list (map snd (ri_forfeitures i))"

definition receipts_of :: "int \<Rightarrow> pool \<Rightarrow> (string \<times> int) list" where
  "receipts_of round_number p = sort_key fst (map (\<lambda>x. (rp_event_id x, rp_amount x))
     (filter (\<lambda>x. rp_round x = round_number) (round_receipts (booked p))))"

definition created_in :: "int \<Rightarrow> string \<Rightarrow> pool \<Rightarrow> bool" where
  "created_in round_number i p \<longleftrightarrow> (case lookup r_id i (reservations p) of None \<Rightarrow> False | Some r \<Rightarrow> r_creation_round r = round_number)"

definition forfeitures_of :: "int \<Rightarrow> pool \<Rightarrow> (string \<times> int) list" where
  "forfeitures_of round_number p = sort_key fst (map (\<lambda>f. (fz_reservation_id f, fz_amount f))
     (filter (\<lambda>f. fz_outcome f = Forfeited \<and> created_in round_number (fz_reservation_id f) p) (collateral_finalizations (booked p))))"

definition reimbursed_of :: "int \<Rightarrow> pool \<Rightarrow> int" where
  "reimbursed_of round_number p = (case lookup rb_round round_number (round_reimbursements (booked p)) of None \<Rightarrow> 0 | Some r \<Rightarrow> rb_amount r)"

text \<open>The checks of \<open>_settle\<close> between its locks and the calculation.\<close>

definition gather_inputs :: "env \<Rightarrow> int \<Rightarrow> string \<Rightarrow> (string \<times> rat) list \<Rightarrow> pool \<Rightarrow> round_inputs result" where
  "gather_inputs env round_number seal_id credits p =
     bindE (require_seal env seal_id round_number p) (\<lambda>_.
     bindE (round_gaps round_number p) (\<lambda>c.
     if \<not> co_credited_complete c then Inl (Conflict ''reward-round credit coverage is incomplete'') else
     case earnings_of round_number p of None \<Rightarrow> Inl (Conflict ''final net earnings are not established'')
     | Some earnings \<Rightarrow>
     bindE (require_block (ea_block_id earnings) p) (\<lambda>_.
     if list_ex (\<lambda>r. r_creation_round r = round_number \<and> r_collateral_outcome r = None) (reservations p)
     then Inl (Conflict ''creation-round collateral outcomes are still unresolved'')
     else if sum_list (map snd (receipts_of round_number p)) \<noteq> ea_expected_received_net earnings
     then Inl (Conflict ''final reward receipts have not all been received'')
     else if reimbursed_of round_number p \<noteq> ea_withheld_operating_cost earnings
     then Inl (Conflict ''operator funding has not replaced withheld operating charges'')
     else Inr \<lparr>ri_round = round_number, ri_seal_id = seal_id, ri_credits = credits, ri_receipts = receipts_of round_number p,
       ri_reimbursed = reimbursed_of round_number p, ri_forfeitures = forfeitures_of round_number p,
       ri_expected = ea_expected_received_net earnings, ri_coverage = c\<rparr>)))"

text \<open>The round's account holds exactly its inputs; the members who are paid exist.\<close>

definition check_pot :: "int \<Rightarrow> int \<Rightarrow> pool \<Rightarrow> unit result" where
  "check_pot round_number amount p =
     (case lookup acc_id (pot round_number) (accounts (ledger p)) of None \<Rightarrow> Inl TypeError
      | Some a \<Rightarrow> if acc_balance a \<noteq> amount then Inl (Conflict ''round account differs from its complete funding inputs'') else Inr ())"

definition calculate :: "round_inputs \<Rightarrow> pool \<Rightarrow> (int \<times> (string \<times> int) list) result" where
  "calculate i p =
     bindE (check_pot (ri_round i) (input_amount i) p) (\<lambda>_.
     bindE (allocate_rewards (input_amount i) (ri_credits i)) (\<lambda>(operator, allocations).
     bindE (mapE (\<lambda>k. member_lock k p) (sort (map fst allocations))) (\<lambda>_. Inr (operator, allocations))))"

definition payment_movements_of :: "int \<Rightarrow> int \<Rightarrow> int \<Rightarrow> (string \<times> int) list \<Rightarrow> movement list" where
  "payment_movements_of round_number amount operator allocations =
     [(pot round_number, - amount), (''operator:custody:TIG'', operator)] @ map (\<lambda>(k, n). (available k, n)) (sort_key fst allocations)"

definition book_settlement :: "env \<Rightarrow> string \<Rightarrow> round_inputs \<Rightarrow> int \<Rightarrow> (string \<times> int) list \<Rightarrow> pool \<Rightarrow> (settlement_row \<times> pool) result" where
  "book_settlement env jid i operator allocations p =
     bindE (post_amount env jid (round_key (ri_round i) ''settle'') ''round_rewards'' (input_amount i)
       (payment_movements_of (ri_round i) (input_amount i) operator allocations) (inputs_json i) p) (\<lambda>(journal, p).
     let row = \<lparr>st_round = ri_round i, st_rule = SETTLEMENT_RULE, st_input_digest = input_digest env i, st_inputs = inputs_json i,
       st_pot = input_amount i, st_operator_allocation = operator, st_member_allocations = allocations, st_journal_id = journal\<rparr>
     in Inr (row, p\<lparr>rounds := (booked p)\<lparr>round_settlements := round_settlements (booked p) @ [row]\<rparr>\<rparr>))"

datatype settlement =
    Settlement settlement_row
  | Preview string round_inputs int int "(string \<times> int) list"

definition reviewed :: "string option \<Rightarrow> settlement_row \<Rightarrow> settlement_row result" where
  "reviewed expected_digest previous =
     (if expected_digest \<noteq> None \<and> expected_digest \<noteq> Some (st_input_digest previous)
      then Inl (Conflict ''settlement differs from the reviewed preview'') else Inr previous)"

text \<open>\<open>_settle(database, round_number, seal_id, post, expected_digest)\<close>.\<close>

definition settle :: "env \<Rightarrow> string \<Rightarrow> json \<Rightarrow> string \<Rightarrow> bool \<Rightarrow> string option \<Rightarrow> pool \<Rightarrow> (settlement \<times> pool) result" where
  "settle env jid round_number seal_id do_post expected_digest p =
     bindE (units True round_number) (\<lambda>round_number.
     case settled round_number p of
       Some previous \<Rightarrow> bindE (reviewed expected_digest previous) (\<lambda>row. Inr (Settlement row, p))
     | None \<Rightarrow>
         bindE (round_credits round_number p) (\<lambda>credits.
         bindE (gather_inputs env round_number seal_id credits p) (\<lambda>i.
         bindE (calculate i p) (\<lambda>(operator, allocations).
         if \<not> do_post then Inr (Preview (input_digest env i) i (input_amount i) operator allocations, p)
         else if expected_digest \<noteq> None \<and> expected_digest \<noteq> Some (input_digest env i)
         then Inl (Conflict ''settlement inputs changed; review a fresh preview'')
         else bindE (book_settlement env jid i operator allocations p) (\<lambda>(row, p). Inr (Settlement row, p))))))"

definition preview :: "env \<Rightarrow> json \<Rightarrow> string \<Rightarrow> pool \<Rightarrow> (settlement \<times> pool) result" where
  "preview env round_number seal_id p = settle env [] round_number seal_id False None p"

definition allocate :: "env \<Rightarrow> string \<Rightarrow> json \<Rightarrow> string \<Rightarrow> string option \<Rightarrow> pool \<Rightarrow> (settlement \<times> pool) result" where
  "allocate env jid round_number seal_id expected_digest p = settle env jid round_number seal_id True expected_digest p"

end
