(* ===== verification/Settlement_Safety.thy ===== *)
theory Settlement_Safety
  imports Settlement Frames
begin

text \<open>
  What holds of the rounds in every state: the account of a round contains exactly the receipts,
  the reimbursement and the forfeited collateral booked for it, less what was paid out; each of
  its journals is booked only with its row; and its receipts never exceed the declared earnings.
\<close>

section \<open>Names of keys and accounts\<close>

lemma int_text_no_colon: "CHR '':'' \<notin> set (int_text n)"
proof -
  have "CHR '':'' \<notin> set (nat_text k)" for k using nat_text_digits [of "CHR '':''" k] by auto
  then show ?thesis by (simp add: int_text_def)
qed

lemma round_key_inject: "CHR '':'' \<notin> set kind \<Longrightarrow> CHR '':'' \<notin> set kind' \<Longrightarrow> round_key r kind = round_key r' kind' \<longleftrightarrow> r = r' \<and> kind = kind'"
  using split_last_colon [of "''round:'' @ int_text r" kind "''round:'' @ int_text r'" kind'] by (auto simp: round_key_def)

lemma settlement_names [simp]:
  "pot r = pot r' \<longleftrightarrow> r = r'"
  "pot r \<noteq> available m" "available m \<noteq> pot r" "pot r \<noteq> held i" "held i \<noteq> pot r"
  "pot r \<noteq> ''operator:custody:TIG''" "''operator:custody:TIG'' \<noteq> pot r" "pot r \<noteq> ''unattributed:TIG''" "''unattributed:TIG'' \<noteq> pot r"
  "available m \<noteq> ''operator:custody:TIG''" "''operator:custody:TIG'' \<noteq> available m"
  "held i \<noteq> ''operator:custody:TIG''" "''operator:custody:TIG'' \<noteq> held i"
  "finalize_key i = finalize_key j \<longleftrightarrow> i = j" "finalize_key i \<noteq> round_key r k" "round_key r k \<noteq> finalize_key i"
  "round_key r ''settle'' = round_key r' ''settle'' \<longleftrightarrow> r = r'" "round_key r ''reimburse'' = round_key r' ''reimburse'' \<longleftrightarrow> r = r'"
  "pot r \<noteq> committed_fee i" "committed_fee i \<noteq> pot r" "available m \<noteq> committed_fee i" "committed_fee i \<noteq> available m"
  "committed_fee i \<noteq> held j" "held j \<noteq> committed_fee i"
  "''operator:custody:TIG'' \<noteq> committed_fee i" "committed_fee i \<noteq> ''operator:custody:TIG''"
  "round_key r ''settle'' \<noteq> round_key r' ''reimburse''" "round_key r ''reimburse'' \<noteq> round_key r' ''settle''"
  by (simp_all add: round_key_inject) (auto simp: pot_def available_def held_def committed_fee_def finalize_key_def round_key_def)

definition settlement_journals :: "string \<Rightarrow> bool" where
  "settlement_journals k \<longleftrightarrow> (\<exists>i. k = finalize_key i) \<or> (\<exists>r. k = round_key r ''settle'' \<or> k = round_key r ''reimburse'')"

definition pot_accounts :: "string \<Rightarrow> bool" where "pot_accounts k \<longleftrightarrow> (\<exists>r. k = pot r)"

section \<open>The invariant\<close>

definition forfeited :: "int \<Rightarrow> pool \<Rightarrow> int" where
  "forfeited r p = sum_where (\<lambda>f. fz_outcome f = Forfeited \<and> created_in r (fz_reservation_id f) p) fz_amount (collateral_finalizations (booked p))"

definition paid_out :: "int \<Rightarrow> pool \<Rightarrow> int" where
  "paid_out r p = (case settled r p of None \<Rightarrow> 0 | Some s \<Rightarrow> st_pot s)"

definition pots_ok :: "pool \<Rightarrow> bool" where
  "pots_ok p \<longleftrightarrow> (\<forall>r. balance (ledger p) (pot r) = round_received r p + reimbursed_of r p + forfeited r p - paid_out r p)"

definition settlement_journals_ok :: "pool \<Rightarrow> bool" where
  "settlement_journals_ok p \<longleftrightarrow>
     (\<forall>r. recorded (ledger p) (round_key r ''settle'') \<longrightarrow> settled r p \<noteq> None) \<and>
     (\<forall>r. recorded (ledger p) (round_key r ''reimburse'') \<longrightarrow> lookup rb_round r (round_reimbursements (booked p)) \<noteq> None) \<and>
     (\<forall>i. recorded (ledger p) (finalize_key i) \<longrightarrow> lookup fz_reservation_id i (collateral_finalizations (booked p)) \<noteq> None)"

definition funding_ok :: "pool \<Rightarrow> bool" where
  "funding_ok p \<longleftrightarrow> (\<forall>r. round_received r p \<le> (case earnings_of r p of None \<Rightarrow> 0 | Some e \<Rightarrow> ea_expected_received_net e)) \<and>
     (\<forall>f \<in> set (collateral_finalizations (booked p)). lookup r_id (fz_reservation_id f) (reservations p) \<noteq> None)"

definition rounds_ok :: "pool \<Rightarrow> bool" where
  "rounds_ok p \<longleftrightarrow> pots_ok p \<and> settlement_journals_ok p \<and> funding_ok p"

text \<open>Reservations keep their identifier and their creation round.\<close>

definition same_creation :: "pool \<Rightarrow> pool \<Rightarrow> bool" where
  "same_creation p p' \<longleftrightarrow> (\<forall>i r. lookup r_id i (reservations p) = Some r \<longrightarrow>
     (\<exists>r'. lookup r_id i (reservations p') = Some r' \<and> r_creation_round r' = r_creation_round r))"

lemma same_creation_refl [simp]: "reservations p' = reservations p \<Longrightarrow> same_creation p p'"
  by (simp add: same_creation_def)

lemma created_in_same: "same_creation p p' \<Longrightarrow> lookup r_id i (reservations p) \<noteq> None \<Longrightarrow> created_in r i p' = created_in r i p"
  by (fastforce simp: same_creation_def created_in_def)

lemma forfeited_same:
  assumes "same_creation p p'" and "rounds p' = rounds p" and "funding_ok p"
  shows "forfeited r p' = forfeited r p"
  unfolding forfeited_def assms(2)
  by (rule sum_where_cong) (use created_in_same [OF assms(1)] assms(3) in \<open>auto simp: funding_ok_def\<close>)

text \<open>Operations of the other components leave the rounds alone.\<close>

lemma rounds_ok_frame:
  assumes ok: "rounds_ok p" and led: "ledger_by K A (ledger p) (ledger p')" and same: "rounds p' = rounds p" "same_creation p p'"
    and K: "\<And>k. K k \<Longrightarrow> \<not> settlement_journals k" and A: "\<And>k. A k \<Longrightarrow> \<not> pot_accounts k"
  shows "rounds_ok p'"
proof -
  have "balance (ledger p') (pot r) = balance (ledger p) (pot r)" for r
    using A by (intro ledger_by_balance [OF led]) (auto simp: pot_accounts_def)
  moreover have "recorded (ledger p') k = recorded (ledger p) k" if "settlement_journals k" for k
    using K that by (intro ledger_by_recorded [OF led]) auto
  moreover have "forfeited r p' = forfeited r p" for r using forfeited_same same ok by (simp add: rounds_ok_def)
  moreover have "lookup r_id i (reservations p) \<noteq> None \<Longrightarrow> lookup r_id i (reservations p') \<noteq> None" for i
    using same(2) unfolding same_creation_def by blast
  ultimately show ?thesis
    using ok unfolding rounds_ok_def pots_ok_def settlement_journals_ok_def funding_ok_def settlement_journals_def
      round_received_def reimbursed_of_def paid_out_def settled_def earnings_of_def same
    by (metis (no_types, lifting))
qed

section \<open>Posting an amount\<close>

lemma post_amount_effect:
  assumes run: "post_amount env jid key kind a mv details p = Inr (j, p')" and fresh: "\<not> recorded (ledger p) key"
    and skip: "a = 0 \<Longrightarrow> amount_of mv k = 0"
  shows "p' = p\<lparr>ledger := ledger p'\<rparr>" and "balance (ledger p') k = balance (ledger p) k + amount_of mv k"
    and "recorded (ledger p') x \<longrightarrow> recorded (ledger p) x \<or> x = key"
    and "K key \<Longrightarrow> (\<And>x. x \<in> fst ` set mv \<Longrightarrow> A x) \<Longrightarrow> ledger_by K A (ledger p) (ledger p')"
proof -
  have "p' = p\<lparr>ledger := ledger p'\<rparr> \<and> balance (ledger p') k = balance (ledger p) k + amount_of mv k \<and>
    (recorded (ledger p') x \<longrightarrow> recorded (ledger p) x \<or> x = key) \<and>
    (K key \<longrightarrow> (\<forall>x \<in> fst ` set mv. A x) \<longrightarrow> ledger_by K A (ledger p) (ledger p'))"
  proof (cases "a = 0")
    case True
    have none: "amount_of mv k = 0" using True by (rule skip)
    have "p' = p" using run True by (simp add: post_amount_def)
    with none show ?thesis by (simp add: by_nothing)
  next
    case False
    with run obtain i where post: "post env jid key kind mv details None (ledger p) = Inr (i, ledger p')" and p': "p' = p\<lparr>ledger := ledger p'\<rparr>"
      by (auto simp: post_amount_def bindE_Inr on_ledger_Inr)
    have "balance (ledger p') k = balance (ledger p) k + amount_of mv k"
      using post by (rule post_balance) (use fresh in \<open>simp add: recorded_def\<close>)
    moreover have "ledger_by K A (ledger p) (ledger p')" if "K key" "\<forall>x \<in> fst ` set mv. A x"
      using ledger_by_posted [OF post, of K A] that by blast
    ultimately show ?thesis using p' post_recorded [OF post] by blast
  qed
  then show "p' = p\<lparr>ledger := ledger p'\<rparr>" and "balance (ledger p') k = balance (ledger p) k + amount_of mv k"
    and "recorded (ledger p') x \<longrightarrow> recorded (ledger p) x \<or> x = key"
    and "K key \<Longrightarrow> (\<And>x. x \<in> fst ` set mv \<Longrightarrow> A x) \<Longrightarrow> ledger_by K A (ledger p) (ledger p')"
    by blast+
qed

section \<open>Finalizing collateral\<close>

lemma apply_outcome_cases:
  assumes "apply_outcome env jid r seal_id result p = Inr (fz, p')"
  obtains dest q j q1 q2 where "(if result = Returned then dest = available (r_member_id r) \<and> q = p
      else dest = pot (r_creation_round r) \<and> on_ledger (account dest KRound AssetTIG Custody) p = Inr (dest, q))"
    and "post_amount env jid (finalize_key (r_id r)) (''collateral_'' @ outcome_name result) (r_amount r)
       [(held (r_id r), - r_amount r), (dest, r_amount r)] (finalization_details (r_id r) (r_creation_round r) seal_id result) q = Inr (j, q1)"
    and "event env (r_id r) ''collateral_finalized'' (JDict [(''outcome'', JStr (outcome_name result)), (''amount'', JInt (r_amount r)),
       (''report_seal_id'', JStr seal_id)]) (update_reservation (r_id r) (\<lambda>x. x\<lparr>r_collateral_outcome := Some result\<rparr>) q1) = Inr q2"
    and "fz = \<lparr>fz_reservation_id = r_id r, fz_outcome = result, fz_amount = r_amount r, fz_report_seal_id = seal_id, fz_journal_id = j\<rparr>"
    and "p' = q2\<lparr>rounds := (booked q2)\<lparr>collateral_finalizations := collateral_finalizations (booked q2) @ [fz]\<rparr>\<rparr>"
proof -
  obtain dest q where first: "(if result = Returned then Inr (available (r_member_id r), p)
      else on_ledger (account (pot (r_creation_round r)) KRound AssetTIG Custody) p) = Inr (dest, q)"
    and rest: "bindE (post_amount env jid (finalize_key (r_id r)) (''collateral_'' @ outcome_name result) (r_amount r)
       [(held (r_id r), - r_amount r), (dest, r_amount r)] (finalization_details (r_id r) (r_creation_round r) seal_id result) q) (\<lambda>(journal, p).
     bindE (event env (r_id r) ''collateral_finalized'' (JDict [(''outcome'', JStr (outcome_name result)), (''amount'', JInt (r_amount r)),
       (''report_seal_id'', JStr seal_id)]) (update_reservation (r_id r) (\<lambda>x. x\<lparr>r_collateral_outcome := Some result\<rparr>) p)) (\<lambda>p.
     let fz = \<lparr>fz_reservation_id = r_id r, fz_outcome = result, fz_amount = r_amount r, fz_report_seal_id = seal_id, fz_journal_id = journal\<rparr>
     in Inr (fz, p\<lparr>rounds := (booked p)\<lparr>collateral_finalizations := collateral_finalizations (booked p) @ [fz]\<rparr>\<rparr>))) = Inr (fz, p')"
    using assms unfolding apply_outcome_def bindE_Inr [of "if _ then _ else _"] by auto
  have "(if result = Returned then dest = available (r_member_id r) \<and> q = p
      else dest = pot (r_creation_round r) \<and> on_ledger (account dest KRound AssetTIG Custody) p = Inr (dest, q))"
  proof (cases "result = Returned")
    case False
    then have opened: "on_ledger (account (pot (r_creation_round r)) KRound AssetTIG Custody) p = Inr (dest, q)" using first by simp
    moreover have "dest = pot (r_creation_round r)" using opened unfolding on_ledger_Inr by (auto dest: account_cases(1))
    ultimately show ?thesis using False by simp
  qed (use first in simp)
  then show thesis using rest by (auto simp: bindE_Inr Let_def intro!: that)
qed

lemma finalize_collateral_cases:
  assumes "finalize_collateral env jid i seal_id p = Inr (out, p')"
  obtains (previous) fz where "lookup fz_reservation_id i (collateral_finalizations (booked p)) = Some fz" "out = Finalization fz" "p' = p"
    | (already) r result where "lookup r_id i (reservations p) = Some r" "r_collateral_outcome r = Some result"
        "out = PreviouslyFinalized (r_id r) result (r_amount r)" "p' = p"
    | (new) r result fz where "lookup r_id i (reservations p) = Some r" "r_id r = i" "lookup fz_reservation_id i (collateral_finalizations (booked p)) = None"
        "r_collateral_outcome r = None" "finalize_guards env r seal_id p = Inr result"
        "apply_outcome env jid r seal_id result p = Inr (fz, p')" "out = Finalization fz"
proof -
  obtain r where r: "lookup r_id i (reservations p) = Some r"
    and run: "(case lookup fz_reservation_id i (collateral_finalizations (booked p)) of
        Some previous \<Rightarrow> Inr (Finalization previous, p)
      | None \<Rightarrow>
          (case r_collateral_outcome r of
             Some result \<Rightarrow> Inr (PreviouslyFinalized (r_id r) result (r_amount r), p)
           | None \<Rightarrow> bindE (finalize_guards env r seal_id p) (\<lambda>result.
               bindE (apply_outcome env jid r seal_id result p) (\<lambda>(fz, p). Inr (Finalization fz, p))))) = Inr (out, p')"
    using assms unfolding finalize_collateral_def raise_if_Inr bindE_Inr locked_Inr by blast
  have "r_id r = i" using r by (auto dest: lookup_SomeD)
  then show thesis
    using run r that by (auto simp: bindE_Inr split: option.splits)
qed

definition outcome_account :: "reservation_row \<Rightarrow> collateral_outcome \<Rightarrow> string" where
  "outcome_account r result = (if result = Returned then available (r_member_id r) else pot (r_creation_round r))"

definition outcome_movements :: "reservation_row \<Rightarrow> collateral_outcome \<Rightarrow> movement list" where
  "outcome_movements r result = [(held (r_id r), - r_amount r), (outcome_account r result, r_amount r)]"

lemma apply_outcome_effect:
  assumes run: "apply_outcome env jid r seal_id result p = Inr (fz, p')" and fresh: "\<not> recorded (ledger p) (finalize_key (r_id r))"
  shows "reservations p' = modify r_id (r_id r) (\<lambda>x. x\<lparr>r_collateral_outcome := Some result\<rparr>) (reservations p)"
    and "rounds p' = (booked p)\<lparr>collateral_finalizations := collateral_finalizations (booked p) @ [fz]\<rparr>"
    and "p' = p\<lparr>ledger := ledger p', reservations := reservations p', reservation_events := reservation_events p', rounds := rounds p'\<rparr>"
    and "balance (ledger p') k = balance (ledger p) k + amount_of (outcome_movements r result) k"
    and "recorded (ledger p') x \<longrightarrow> recorded (ledger p) x \<or> x = finalize_key (r_id r)"
    and "ledger_by (\<lambda>k. k = finalize_key (r_id r)) (\<lambda>k. k = held (r_id r) \<or> k = outcome_account r result) (ledger p) (ledger p')"
    and "fz_reservation_id fz = r_id r \<and> fz_outcome fz = result \<and> fz_amount fz = r_amount r"
proof -
  obtain dest q j q1 q2 where first: "if result = Returned then dest = available (r_member_id r) \<and> q = p
      else dest = pot (r_creation_round r) \<and> on_ledger (account dest KRound AssetTIG Custody) p = Inr (dest, q)"
    and post: "post_amount env jid (finalize_key (r_id r)) (''collateral_'' @ outcome_name result) (r_amount r)
       [(held (r_id r), - r_amount r), (dest, r_amount r)] (finalization_details (r_id r) (r_creation_round r) seal_id result) q = Inr (j, q1)"
    and ev: "event env (r_id r) ''collateral_finalized'' (JDict [(''outcome'', JStr (outcome_name result)), (''amount'', JInt (r_amount r)),
       (''report_seal_id'', JStr seal_id)]) (update_reservation (r_id r) (\<lambda>x. x\<lparr>r_collateral_outcome := Some result\<rparr>) q1) = Inr q2"
    and fz: "fz = \<lparr>fz_reservation_id = r_id r, fz_outcome = result, fz_amount = r_amount r, fz_report_seal_id = seal_id, fz_journal_id = j\<rparr>"
    and p': "p' = q2\<lparr>rounds := (booked q2)\<lparr>collateral_finalizations := collateral_finalizations (booked q2) @ [fz]\<rparr>\<rparr>"
    by (rule apply_outcome_cases [OF run])
  have dest: "dest = outcome_account r result" using first by (simp add: outcome_account_def split: if_splits)
  obtain led where q: "q = p\<lparr>ledger := led\<rparr>" "balance led k = balance (ledger p) k" "\<And>x. recorded led x = recorded (ledger p) x"
    "\<And>K A. ledger_by K A (ledger p) led"
  proof (cases "result = Returned")
    case True
    then show thesis using first by (intro that [of "ledger p"]) (simp_all add: by_nothing)
  next
    case False
    then obtain led where "account dest KRound AssetTIG Custody (ledger p) = Inr (dest, led)" "q = p\<lparr>ledger := led\<rparr>"
      using first by (auto simp: on_ledger_Inr)
    then show thesis by (intro that [of led]) (auto simp: account_cases(2) account_recorded ledger_by_opened)
  qed
  have fresh': "\<not> recorded (ledger q) (finalize_key (r_id r))" using fresh by (simp add: q)
  have "r_amount r = 0 \<Longrightarrow> amount_of [(held (r_id r), - r_amount r), (dest, r_amount r)] k = 0" by simp
  note eff = post_amount_effect [OF post fresh' this]
  note upd = update_then_event [OF ev]
  obtain l1 where "q1 = q\<lparr>ledger := l1\<rparr>" using eff(1) by blast
  then have q1: "q1 = p\<lparr>ledger := l1\<rparr>" by (simp add: q(1))
  obtain ev' where q2: "q2 = q1\<lparr>reservations := modify r_id (r_id r) (\<lambda>x. x\<lparr>r_collateral_outcome := Some result\<rparr>) (reservations q1), reservation_events := ev'\<rparr>"
    using upd(1) by blast
  have all: "p' = p\<lparr>ledger := l1, reservations := modify r_id (r_id r) (\<lambda>x. x\<lparr>r_collateral_outcome := Some result\<rparr>) (reservations p),
      reservation_events := ev', rounds := (booked p)\<lparr>collateral_finalizations := collateral_finalizations (booked p) @ [fz]\<rparr>\<rparr>"
    by (simp add: p' q2 q1)
  have same: "ledger p' = ledger q1" by (simp add: all q1)
  show "reservations p' = modify r_id (r_id r) (\<lambda>x. x\<lparr>r_collateral_outcome := Some result\<rparr>) (reservations p)"
    "rounds p' = (booked p)\<lparr>collateral_finalizations := collateral_finalizations (booked p) @ [fz]\<rparr>"
    "p' = p\<lparr>ledger := ledger p', reservations := reservations p', reservation_events := reservation_events p', rounds := rounds p'\<rparr>"
    by (simp_all add: all)
  show "balance (ledger p') k = balance (ledger p) k + amount_of (outcome_movements r result) k"
    unfolding same outcome_movements_def dest [symmetric] using eff(2) q(2) by (simp add: q(1))
  show "recorded (ledger p') x \<longrightarrow> recorded (ledger p) x \<or> x = finalize_key (r_id r)"
    unfolding same using eff(3) q(3) by (simp add: q(1))
  show "ledger_by (\<lambda>k. k = finalize_key (r_id r)) (\<lambda>k. k = held (r_id r) \<or> k = outcome_account r result) (ledger p) (ledger p')"
  proof -
    have "ledger_by (\<lambda>k. k = finalize_key (r_id r)) (\<lambda>k. k = held (r_id r) \<or> k = outcome_account r result) (ledger q) (ledger q1)"
      by (rule eff(4)) (auto simp: dest)
    then show ?thesis unfolding same using ledger_by_trans q(1,4) by simp
  qed
  show "fz_reservation_id fz = r_id r \<and> fz_outcome fz = result \<and> fz_amount fz = r_amount r" by (simp add: fz)
qed

lemma sum_where_snoc: "sum_where P f (xs @ [x]) = sum_where P f xs + (if P x then f x else 0)"
  by (simp add: sum_where_append)

lemma lookup_snoc: "lookup key k (xs @ [x]) = (case lookup key k xs of Some y \<Rightarrow> Some y | None \<Rightarrow> if key x = k then Some x else None)"
  by (simp add: lookup_append split: option.splits)

lemma same_creation_modify:
  assumes "reservations p' = modify r_id i f (reservations p)" and "\<And>x. r_id (f x) = r_id x" and "\<And>x. r_creation_round (f x) = r_creation_round x"
  shows "same_creation p p'"
  using assms by (auto simp: same_creation_def lookup_modify)

lemma finalize_collateral_ok:
  assumes run: "finalize_collateral env jid i seal_id p = Inr (out, p')" and ok: "rounds_ok p" and rok: "reservations_ok p"
  shows "rounds_ok p' \<and> reservations_ok p'"
  using run
proof (cases rule: finalize_collateral_cases)
  case (new r result fz)
  have fresh: "\<not> recorded (ledger p) (finalize_key (r_id r))"
    using ok new(2,3) by (auto simp: rounds_ok_def settlement_journals_ok_def)
  note eff = apply_outcome_effect [OF new(6) fresh]
  have creation: "same_creation p p'" by (rule same_creation_modify [OF eff(1)]) simp_all
  have creation': "created_in x j p' = created_in x j p" if "lookup r_id j (reservations p) \<noteq> None" for x j
    by (rule created_in_same [OF creation that])
  have old: "sum_where (\<lambda>f. fz_outcome f = Forfeited \<and> created_in x (fz_reservation_id f) p') fz_amount (collateral_finalizations (booked p)) = forfeited x p" for x
    unfolding forfeited_def by (rule sum_where_cong) (use creation' ok in \<open>auto simp: rounds_ok_def funding_ok_def\<close>)
  have mine: "created_in x (r_id r) p' \<longleftrightarrow> r_creation_round r = x" for x
    using creation' [of "r_id r" x] new(1,2) by (simp add: created_in_def)
  have forfeits: "forfeited x p' = forfeited x p + (if result = Forfeited \<and> r_creation_round r = x then r_amount r else 0)" for x
    using old [of x] mine [of x] eff(7) unfolding forfeited_def eff(2) by (simp add: sum_where_snoc forfeited_def)
  have pot_moves: "amount_of (outcome_movements r result) (pot x) = (if result = Forfeited \<and> r_creation_round r = x then r_amount r else 0)" for x
    by (cases result) (auto simp: outcome_movements_def outcome_account_def)
  have same: "round_received x p' = round_received x p" "reimbursed_of x p' = reimbursed_of x p" "paid_out x p' = paid_out x p"
    "earnings_of x p' = earnings_of x p" "settled x p' = settled x p" for x
    by (simp_all add: round_received_def reimbursed_of_def paid_out_def earnings_of_def settled_def eff(2))
  have rec1: "recorded (ledger p') (round_key x kind) \<Longrightarrow> recorded (ledger p) (round_key x kind)" for x kind
    using eff(5) [of "round_key x kind"] by simp
  have rec2: "recorded (ledger p') (finalize_key j) \<Longrightarrow> recorded (ledger p) (finalize_key j) \<or> j = r_id r" for j
    using eff(5) [of "finalize_key j"] by simp
  have "pots_ok p'"
    using ok unfolding rounds_ok_def pots_ok_def eff(4) same forfeits pot_moves by simp
  moreover have "settlement_journals_ok p'"
    unfolding settlement_journals_ok_def same using rec1 rec2 ok eff(7)
    by (fastforce simp: rounds_ok_def settlement_journals_ok_def eff(2) lookup_snoc split: option.splits)
  moreover have "funding_ok p'"
    using ok creation new(1,2) eff(7) unfolding rounds_ok_def funding_ok_def same
    by (auto simp: eff(2) same_creation_def) (metis not_None_eq)+
  moreover have "reservations_ok p'"
  proof (rule reservations_ok_update [OF rok new(1) _ _ _ _ eff(1) [unfolded new(2)]])
    note own = reservations_ok_own [OF rok new(1)]
    have guards: "r_state r \<in> {Active, VerificationFailed, Expired}" "\<not> r_slot_held r"
      using new(5) unfolding finalize_guards_def bindE_Inr raise_if_Inr by auto
    show "row_ok (r\<lparr>r_collateral_outcome := Some result\<rparr>)" using own(4) guards by (auto simp: row_ok_def)
    have other: "recorded (ledger p') (reservation_key j kind) = recorded (ledger p) (reservation_key j kind)" for j kind
      by (rule ledger_by_recorded [OF eff(6)]) (simp add: finalize_key_def reservation_key_def)
    have bal: "balance (ledger p') (committed_fee j) = balance (ledger p) (committed_fee j)" for j
      by (rule ledger_by_balance [OF eff(6)]) (auto simp: outcome_account_def pot_def committed_fee_def available_def held_def)
    show "balance (ledger p') (held i) = collateral_due (Some (r\<lparr>r_collateral_outcome := Some result\<rparr>))"
      using own(1) new(2,4) unfolding eff(4) by (simp add: outcome_movements_def outcome_account_def collateral_due_def)
    show "balance (ledger p') (committed_fee i) = fee_due (Some (r\<lparr>r_collateral_outcome := Some result\<rparr>))"
      using own(2) by (simp add: bal fee_due_def)
    show "journals_due (ledger p') i (Some (r\<lparr>r_collateral_outcome := Some result\<rparr>))"
      using own(3) by (simp add: journals_due_def other)
    show "balance (ledger p') (held j) = balance (ledger p) (held j) \<and> balance (ledger p') (committed_fee j) = balance (ledger p) (committed_fee j) \<and>
        (\<forall>kind. CHR '':'' \<notin> set kind \<longrightarrow> recorded (ledger p') (reservation_key j kind) = recorded (ledger p) (reservation_key j kind))" if "j \<noteq> i" for j
    proof -
      have "balance (ledger p') (held j) = balance (ledger p) (held j)"
        using that new(2) unfolding eff(4) by (cases result) (simp_all add: outcome_movements_def outcome_account_def)
      then show ?thesis using other bal by blast
    qed
  qed simp_all
  ultimately show ?thesis by (simp add: rounds_ok_def)
qed (use ok rok in simp_all)

section \<open>Funding\<close>

lemma rounds_ok_rows:
  assumes ok: "rounds_ok p" and led: "\<And>r. balance (ledger p') (pot r) = balance (ledger p) (pot r)"
    "\<And>k. settlement_journals k \<Longrightarrow> recorded (ledger p') k \<Longrightarrow> recorded (ledger p) k"
    and same: "rounds p' = rounds p" "reservations p' = reservations p"
  shows "rounds_ok p'"
  using ok led(2) unfolding rounds_ok_def pots_ok_def settlement_journals_ok_def funding_ok_def settlement_journals_def
    round_received_def reimbursed_of_def paid_out_def settled_def earnings_of_def forfeited_def created_in_def led(1) same
  by blast

lemma declare_earnings_cases:
  assumes "declare_earnings env n net cost block_id evidence p = Inr (ea, p')"
  obtains (old) r where "n = JInt r" "earnings_of r p = Some ea" "p' = p"
    | (new) r led where "n = JInt r" "earnings_of r p = None" "account (pot r) KRound AssetTIG Custody (ledger p) = Inr (pot r, led)"
        "ea_round ea = r" "0 \<le> ea_expected_received_net ea" "0 \<le> ea_withheld_operating_cost ea"
        "p' = p\<lparr>ledger := led, rounds := (booked p)\<lparr>round_earnings := round_earnings (booked p) @ [ea]\<rparr>\<rparr>"
proof -
  obtain r x y where args: "n = JInt r" "net = JInt x" "cost = JInt y" "0 \<le> x" "0 \<le> y"
    and run: "(case earnings_of r p of
       Some previous \<Rightarrow>
         if ea_expected_received_net previous \<noteq> x \<or> ea_withheld_operating_cost previous \<noteq> y \<or> \<not> json_eq (ea_evidence previous) evidence
         then Inl (Conflict ''final round earnings are already frozen'') else Inr (previous, p)
     | None \<Rightarrow>
         bindE (on_ledger (account (pot r) KRound AssetTIG Custody) p) (\<lambda>(_, p).
         let row = \<lparr>ea_round = r, ea_expected_received_net = x, ea_withheld_operating_cost = y, ea_block_id = block_id,
           ea_evidence = evidence\<rparr>
         in Inr (row, p\<lparr>rounds := (booked p)\<lparr>round_earnings := round_earnings (booked p) @ [row]\<rparr>\<rparr>))) = Inr (ea, p')"
    using assms unfolding declare_earnings_def raise_if_Inr bindE_Inr units_Inr by auto
  show thesis
  proof (cases "earnings_of r p")
    case None
    then obtain j led where opened: "account (pot r) KRound AssetTIG Custody (ledger p) = Inr (j, led)"
      and rest: "ea = \<lparr>ea_round = r, ea_expected_received_net = x, ea_withheld_operating_cost = y, ea_block_id = block_id, ea_evidence = evidence\<rparr>"
        "p' = p\<lparr>ledger := led, rounds := (booked p)\<lparr>round_earnings := round_earnings (booked p) @ [ea]\<rparr>\<rparr>"
      using run by (auto simp: bindE_Inr on_ledger_Inr Let_def)
    have "j = pot r" using opened by (rule account_cases(1))
    then show thesis using args rest opened None by (intro new) simp_all
  next
    case (Some previous)
    then show thesis using run args by (intro old) (auto split: if_split_asm)
  qed
qed

lemma declare_earnings_ok:
  assumes "declare_earnings env n net cost block_id evidence p = Inr (ea, p')" and ok: "rounds_ok p"
  shows "rounds_ok p'"
  using assms(1)
proof (cases rule: declare_earnings_cases)
  case (new r led)
  note opened = account_cases(2) [OF new(3)] account_recorded [OF new(3)]
  have same: "round_received x p' = round_received x p" "reimbursed_of x p' = reimbursed_of x p" "paid_out x p' = paid_out x p"
    "forfeited x p' = forfeited x p" "settled x p' = settled x p" for x
    by (simp_all add: new(7) round_received_def reimbursed_of_def paid_out_def settled_def forfeited_def created_in_def)
  have "earnings_of x p' = (if earnings_of x p = None \<and> x = r then Some ea else earnings_of x p)" for x
    using new(4) by (auto simp: new(7) earnings_of_def lookup_snoc split: option.splits)
  moreover have "round_received r p \<le> 0" using ok new(2) by (auto simp: rounds_ok_def funding_ok_def dest: spec [of _ r])
  ultimately have "round_received x p' \<le> (case earnings_of x p' of None \<Rightarrow> 0 | Some e \<Rightarrow> ea_expected_received_net e)" for x
    using ok new(2,5) by (auto simp: same rounds_ok_def funding_ok_def dest: spec [of _ x])
  moreover have "pots_ok p'" "settlement_journals_ok p'"
    using ok unfolding rounds_ok_def pots_ok_def settlement_journals_ok_def same by (simp_all add: new(7) opened)
  ultimately show ?thesis using ok by (auto simp: rounds_ok_def funding_ok_def new(7))
qed (use ok in simp)

lemma attribute_receipt_cases:
  assumes "attribute_receipt env jid n t evidence p = Inr (rp, p')"
  obtains (old) r q0 where "n = JInt r" "lookup rp_event_id (event_id t) (round_receipts (booked p)) = Some rp" "rp_round rp = r" "rp_amount rp = tf_amount t"
        "bind (tf_network t) p = Inr ((), q0)" "save_transfer t q0 = Inr (False, p') \<or> save_transfer t q0 = Inr (True, p')"
    | (new) r q0 u q earnings d q' where "n = JInt r" "lookup rp_event_id (event_id t) (round_receipts (booked p)) = None"
        "bind (tf_network t) p = Inr ((), q0)" "save_transfer t q0 = Inr (u, q)" "earnings_of r p = Some earnings" "settled r p = None"
        "lookup at_event_id (event_id t) (transfer_attributions q) = None"
        "round_received r p + tf_amount t \<le> ea_expected_received_net earnings" "1 \<le> tf_amount t"
        "attribute env jid t (pot r) ''protocol-reward-adapter'' evidence q = Inr (d, q')"
        "rp = \<lparr>rp_event_id = event_id t, rp_round = r, rp_amount = tf_amount t, rp_evidence = evidence\<rparr>"
        "p' = q'\<lparr>rounds := (booked q')\<lparr>round_receipts := round_receipts (booked q') @ [rp]\<rparr>\<rparr>"
proof -
  obtain r q0 where r: "n = JInt r" and amount: "1 \<le> tf_amount t" and q0: "bind (tf_network t) p = Inr ((), q0)"
    and run: "(case lookup rp_event_id (event_id t) (round_receipts (booked q0)) of
       Some previous \<Rightarrow>
         if rp_round previous \<noteq> r \<or> rp_amount previous \<noteq> tf_amount t
         then Inl (Conflict ''reward receipt already belongs to a different round'')
         else bindE (save_transfer t q0) (\<lambda>(_, p). Inr (previous, p))
     | None \<Rightarrow>
         bindE (receipt_guards t r q0) (\<lambda>earnings.
         bindE (save_transfer t q0) (\<lambda>(_, p).
         if lookup at_event_id (event_id t) (transfer_attributions p) \<noteq> None
         then Inl (Conflict ''receipt is already assigned; deposits cannot also become round rewards'')
         else if round_received r p + tf_amount t > ea_expected_received_net earnings
         then Inl (Conflict ''receipts exceed the declared final net round earnings'') else
         bindE (attribute env jid t (pot r) ''protocol-reward-adapter'' evidence p) (\<lambda>(_, p).
         let row = \<lparr>rp_event_id = event_id t, rp_round = r, rp_amount = tf_amount t, rp_evidence = evidence\<rparr>
         in Inr (row, p\<lparr>rounds := (booked p)\<lparr>round_receipts := round_receipts (booked p) @ [row]\<rparr>\<rparr>))))) = Inr (rp, p')"
    using assms unfolding attribute_receipt_def raise_if_Inr bindE_Inr units_Inr by auto
  have same: "rounds q0 = rounds p" by (subst bind_cases(1) [OF q0]) simp
  show thesis
  proof (cases "lookup rp_event_id (event_id t) (round_receipts (booked q0))")
    case None
    then obtain earnings u q d q' where parts: "receipt_guards t r q0 = Inr earnings" "save_transfer t q0 = Inr (u, q)"
      "lookup at_event_id (event_id t) (transfer_attributions q) = None" "round_received r q + tf_amount t \<le> ea_expected_received_net earnings"
      "attribute env jid t (pot r) ''protocol-reward-adapter'' evidence q = Inr (d, q')"
      "rp = \<lparr>rp_event_id = event_id t, rp_round = r, rp_amount = tf_amount t, rp_evidence = evidence\<rparr>"
      "p' = q'\<lparr>rounds := (booked q')\<lparr>round_receipts := round_receipts (booked q') @ [rp]\<rparr>\<rparr>"
      using run by (auto simp: bindE_Inr raise_if_Inr Let_def)
    have "rounds q = rounds p" by (subst save_transfer_effect(3) [OF parts(2)]) (simp add: same)
    then have guards: "earnings_of r p = Some earnings" "settled r p = None" "round_received r p + tf_amount t \<le> ea_expected_received_net earnings"
      using parts(1,4) by (auto simp: same receipt_guards_def earnings_of_def settled_def round_received_def split: option.splits if_split_asm)
    show thesis by (rule new [OF r _ q0 parts(2) guards(1,2) parts(3) guards(3) amount parts(5-7)]) (use None in \<open>simp add: same\<close>)
  next
    case (Some previous)
    have "\<not> (rp_round previous \<noteq> r \<or> rp_amount previous \<noteq> tf_amount t)" and saved: "bindE (save_transfer t q0) (\<lambda>(_, p). Inr (previous, p)) = Inr (rp, p')"
      using run unfolding Some option.case raise_if_Inr by simp_all
    then obtain u where "rp_round previous = r" "rp_amount previous = tf_amount t" "save_transfer t q0 = Inr (u, p')" "rp = previous"
      by (cases "save_transfer t q0") auto
    then show thesis using old r q0 Some by (cases u) (auto simp: same)
  qed
qed

lemma saved_after_bind:
  assumes "bind (tf_network t) p = Inr ((), q0)" and "save_transfer t q0 = Inr (u, q)"
  shows "rounds q = rounds p" "reservations q = reservations p" "ledger q = ledger p" "transfer_attributions q = transfer_attributions p"
    "members q = members p" "multiplier_changes q = multiplier_changes p" and "deposits_ok p \<Longrightarrow> deposits_ok q"
proof -
  show "rounds q = rounds p" "reservations q = reservations p" "ledger q = ledger p" "transfer_attributions q = transfer_attributions p"
    "members q = members p" "multiplier_changes q = multiplier_changes p"
    by (subst save_transfer_effect(3) [OF assms(2)], subst bind_cases(1) [OF assms(1)], simp)+
  show "deposits_ok q" if "deposits_ok p"
    by (rule deposits_ok_save_transfer [OF _ assms(2)], rule deposits_ok_by [OF that pool_by_bind [OF assms(1)], of "\<lambda>_. False"]) simp
qed

lemma attribute_receipt_ok:
  assumes run: "attribute_receipt env jid n t evidence p = Inr (rp, p')" and ok: "rounds_ok p" and dok: "deposits_ok p"
  shows "rounds_ok p' \<and> deposits_ok p'"
  using run
proof (cases rule: attribute_receipt_cases)
  case (old r q0)
  then obtain u where saved: "save_transfer t q0 = Inr (u, p')" by auto
  note same = saved_after_bind [OF old(5) saved]
  have "rounds_ok p'" by (rule rounds_ok_rows [OF ok]) (simp_all add: same)
  then show ?thesis using same(7) [OF dok] by simp
next
  case (new r q0 u q earnings d q')
  note same = saved_after_bind [OF new(3,4)]
  have dq: "deposits_ok q" using same(7) [OF dok] .
  have dq': "deposits_ok q'" by (rule deposits_ok_attribute [OF dq new(10)])
  have bal: "balance (ledger q') (pot x) = balance (ledger p) (pot x) + (if x = r then tf_amount t else 0)" for x
    using attribute_balance [OF dq new(10), of "pot x"] new(7) by (simp add: same)
  obtain led ats where q': "q' = q\<lparr>ledger := led, transfer_attributions := ats\<rparr>"
    using new(10) by (cases rule: attribute_cases) (use new(7) in auto)
  have rows: "rounds p' = (booked p)\<lparr>round_receipts := round_receipts (booked p) @ [rp]\<rparr>" "reservations p' = reservations p" "ledger p' = led"
    by (simp_all add: new(12) q' same)
  have fields: "round_received x p' = round_received x p + (if x = r then tf_amount t else 0)" "reimbursed_of x p' = reimbursed_of x p"
    "paid_out x p' = paid_out x p" "forfeited x p' = forfeited x p" "settled x p' = settled x p" "earnings_of x p' = earnings_of x p" for x
    by (simp_all add: round_received_def reimbursed_of_def paid_out_def settled_def forfeited_def created_in_def earnings_of_def rows sum_where_snoc new(11))
  have rec: "recorded led k \<Longrightarrow> recorded (ledger p) k" if "settlement_journals k" for k
  proof -
    have "k \<noteq> attribution_key (event_id t)" using that by (auto simp: settlement_journals_def finalize_key_def round_key_def)
    with new(10) show "recorded led k \<Longrightarrow> recorded (ledger p) k"
    proof (cases rule: attribute_cases)
      case inner: (new j leda)
      have "led = leda" using arg_cong [OF inner(4), of ledger] by (simp add: q')
      then show "recorded led k \<Longrightarrow> recorded (ledger p) k"
        using optional_post_recorded(2) [OF inner(3), of k] \<open>k \<noteq> _\<close> by (simp add: same)
    qed (use new(7) in simp)
  qed
  have "pots_ok p'"
    using ok bal by (simp add: rounds_ok_def pots_ok_def fields rows q')
  moreover have "settlement_journals_ok p'"
    using ok rec by (auto simp: rounds_ok_def settlement_journals_ok_def fields rows settlement_journals_def)
  moreover have "funding_ok p'"
    using ok new(5,8) by (auto simp: rounds_ok_def funding_ok_def fields rows dest: spec [of _ r])
  ultimately show ?thesis
    using dq' by (simp add: rounds_ok_def deposits_ok_def new(12))
qed

lemma reimburse_cases:
  assumes "reimburse_operating_cost env jid r p = Inr (rb, p')"
  obtains (old) "lookup rb_round r (round_reimbursements (booked p)) = Some rb" "p' = p"
    | (new) earnings j q where "lookup rb_round r (round_reimbursements (booked p)) = None" "earnings_of r p = Some earnings" "settled r p = None"
        "post_amount env jid (round_key r ''reimburse'') ''operator_cost_reimbursement'' (ea_withheld_operating_cost earnings)
           [(''operator:custody:TIG'', - ea_withheld_operating_cost earnings), (pot r, ea_withheld_operating_cost earnings)]
           (JDict [(''round'', JInt r), (''withheld_operating_cost'', JInt (ea_withheld_operating_cost earnings))]) p = Inr (j, q)"
        "rb = \<lparr>rb_round = r, rb_amount = ea_withheld_operating_cost earnings, rb_journal_id = j\<rparr>"
        "p' = q\<lparr>rounds := (booked q)\<lparr>round_reimbursements := round_reimbursements (booked q) @ [rb]\<rparr>\<rparr>"
  using assms
  by (auto simp: reimburse_operating_cost_def bindE_Inr Let_def intro: old new split: option.splits if_split_asm)

lemma reimburse_ok:
  assumes run: "reimburse_operating_cost env jid r p = Inr (rb, p')" and ok: "rounds_ok p"
  shows "rounds_ok p'"
  using run
proof (cases rule: reimburse_cases)
  case (new earnings j q)
  let ?a = "ea_withheld_operating_cost earnings"
  have fresh: "\<not> recorded (ledger p) (round_key r ''reimburse'')"
    using ok new(1) by (auto simp: rounds_ok_def settlement_journals_ok_def)
  have "?a = 0 \<Longrightarrow> amount_of [(''operator:custody:TIG'', - ?a), (pot r, ?a)] k = 0" for k by simp
  note eff = post_amount_effect [OF new(4) fresh this]
  obtain led where q: "q = p\<lparr>ledger := led\<rparr>" using eff(1) by blast
  have rows: "rounds p' = (booked p)\<lparr>round_reimbursements := round_reimbursements (booked p) @ [rb]\<rparr>" "reservations p' = reservations p"
    "ledger p' = ledger q"
    by (simp_all add: new(6) q)
  have fields: "round_received x p' = round_received x p" "reimbursed_of x p' = reimbursed_of x p + (if x = r then ?a else 0)"
    "paid_out x p' = paid_out x p" "forfeited x p' = forfeited x p" "settled x p' = settled x p" "earnings_of x p' = earnings_of x p" for x
    using new(1) by (auto simp: round_received_def reimbursed_of_def paid_out_def settled_def forfeited_def created_in_def earnings_of_def
      rows lookup_snoc new(5) split: option.splits)
  have "pots_ok p'" using ok eff(2) [of "pot _"] by (simp add: rounds_ok_def pots_ok_def fields rows)
  moreover have "settlement_journals_ok p'"
    using ok eff(3) [of "round_key _ _"] eff(3) [of "finalize_key _"] new(5)
    by (fastforce simp: rounds_ok_def settlement_journals_ok_def fields rows lookup_snoc split: option.splits)
  moreover have "funding_ok p'" using ok by (simp add: rounds_ok_def funding_ok_def fields rows)
  ultimately show ?thesis by (simp add: rounds_ok_def)
qed (use ok in simp)

section \<open>Allocation\<close>

lemma add_credit_keys: "distinct (map fst d) \<Longrightarrow> distinct (map fst (add_credit k x d))"
  by (simp add: add_credit_def AList.distinct_update)

lemma sum_credits_keys: "distinct (map fst (sum_credits rows))"
proof -
  have "distinct (map fst d) \<Longrightarrow> distinct (map fst (foldl (\<lambda>d c. add_credit (bc_member_id c) (Fract (bc_numerator c) (bc_denominator c)) d) d rows))" for d
    by (induction rows arbitrary: d) (simp_all add: add_credit_keys)
  then show ?thesis by (simp add: sum_credits_def)
qed

lemma round_credits_keys: "round_credits r p = Inr credits \<Longrightarrow> distinct (map fst credits)"
  by (auto simp: round_credits_def bindE_Inr sum_credits_keys split: if_split_asm)

lemma sum_where_filter: "sum_list (map f (filter P rows)) = sum_where P f rows"
  by (simp add: sum_where_def)

lemma receipts_of_total: "sum_list (map snd (receipts_of r p)) = round_received r p"
  by (simp add: receipts_of_def round_received_def sum_list_sort_key comp_def sum_where_filter)

lemma forfeitures_of_total: "sum_list (map snd (forfeitures_of r p)) = forfeited r p"
  by (simp add: forfeitures_of_def forfeited_def sum_list_sort_key comp_def sum_where_filter)

lemma payments_at:
  assumes "distinct (map fst alloc)"
  shows "amount_of (map (\<lambda>(k, n). (available k, n)) alloc) (available m) = (case map_of alloc m of None \<Rightarrow> 0 | Some n \<Rightarrow> n)"
  using assms
proof (induction alloc)
  case (Cons x alloc)
  show ?case
  proof (cases "fst x = m")
    case True
    then have "map_of alloc m = None" using Cons.prems by (auto simp: map_of_eq_None_iff)
    then show ?thesis using Cons True by (cases x) (simp add: available_def)
  next
    case False
    then show ?thesis using Cons by (cases x) (simp add: available_def)
  qed
qed simp

lemma payments_elsewhere: "\<forall>m. k \<noteq> available m \<Longrightarrow> amount_of (map (\<lambda>(k, n). (available k, n)) alloc) k = 0"
  by (induction alloc) auto

lemma settle_cases:
  assumes "settle env jid n seal_id do_post expected p = Inr (out, p')"
  obtains (old) r st where "n = JInt r" "settled r p = Some st" "out = Settlement st" "p' = p" "expected = None \<or> expected = Some (st_input_digest st)"
    | (preview) r credits i fee alloc where "n = JInt r" "settled r p = None" "round_credits r p = Inr credits"
        "gather_inputs env r seal_id credits p = Inr i" "calculate i p = Inr (fee, alloc)" "\<not> do_post"
        "out = Preview (input_digest env i) i (input_amount i) fee alloc" "p' = p"
    | (booked) r credits i fee alloc st where "n = JInt r" "settled r p = None" "round_credits r p = Inr credits"
        "gather_inputs env r seal_id credits p = Inr i" "calculate i p = Inr (fee, alloc)" "do_post"
        "expected = None \<or> expected = Some (input_digest env i)"
        "book_settlement env jid i fee alloc p = Inr (st, p')" "out = Settlement st"
proof -
  obtain r where r: "n = JInt r" and run: "(case settled r p of
       Some previous \<Rightarrow> bindE (reviewed expected previous) (\<lambda>row. Inr (Settlement row, p))
     | None \<Rightarrow>
         bindE (round_credits r p) (\<lambda>credits.
         bindE (gather_inputs env r seal_id credits p) (\<lambda>i.
         bindE (calculate i p) (\<lambda>(operator, allocations).
         if \<not> do_post then Inr (Preview (input_digest env i) i (input_amount i) operator allocations, p)
         else if expected \<noteq> None \<and> expected \<noteq> Some (input_digest env i)
         then Inl (Conflict ''settlement inputs changed; review a fresh preview'')
         else bindE (book_settlement env jid i operator allocations p) (\<lambda>(row, p). Inr (Settlement row, p)))))) = Inr (out, p')"
    using assms unfolding settle_def bindE_Inr units_Inr by blast
  show thesis
  proof (cases "settled r p")
    case None
    obtain credits where c: "round_credits r p = Inr credits" using run None by (cases "round_credits r p") auto
    obtain i where g: "gather_inputs env r seal_id credits p = Inr i"
      using run None c by (cases "gather_inputs env r seal_id credits p") auto
    obtain fee alloc where a: "calculate i p = Inr (fee, alloc)" using run None c g by (cases "calculate i p") auto
    note parts = c g a
    have rest: "(if \<not> do_post then Inr (Preview (input_digest env i) i (input_amount i) fee alloc, p)
         else if expected \<noteq> None \<and> expected \<noteq> Some (input_digest env i)
         then Inl (Conflict ''settlement inputs changed; review a fresh preview'')
         else bindE (book_settlement env jid i fee alloc p) (\<lambda>(row, p). Inr (Settlement row, p))) = Inr (out, p')"
      using run by (simp only: None option.case parts bindE_simps prod.case)
    show thesis
    proof (cases do_post)
      case True
      then obtain st where "expected = None \<or> expected = Some (input_digest env i)" "book_settlement env jid i fee alloc p = Inr (st, p')"
        "out = Settlement st"
        using rest by (auto simp: bindE_Inr raise_if_Inr)
      then show thesis using True by (intro booked [OF r None parts])
    next
      case False
      then show thesis using rest by (intro preview [OF r None parts]) simp_all
    qed
  next
    case (Some st)
    then have "reviewed expected st = Inr st \<and> out = Settlement st \<and> p' = p"
      using run by (auto simp: reviewed_def bindE_Inr split: if_split_asm)
    then show thesis using Some r by (intro old) (auto simp: reviewed_def split: if_split_asm)
  qed
qed

lemma gathered:
  assumes "gather_inputs env r seal_id credits p = Inr i"
  shows "ri_round i = r" "ri_credits i = credits" "ri_receipts i = receipts_of r p" "ri_reimbursed i = reimbursed_of r p"
    "ri_forfeitures i = forfeitures_of r p" "ri_seal_id i = seal_id" "round_received r p = ri_expected i"
    "input_amount i = round_received r p + reimbursed_of r p + forfeited r p"
    "\<forall>x \<in> set (reservations p). r_creation_round x = r \<longrightarrow> r_collateral_outcome x \<noteq> None"
    "\<exists>e. earnings_of r p = Some e \<and> round_received r p = ea_expected_received_net e \<and> reimbursed_of r p = ea_withheld_operating_cost e"
proof -
  have "\<exists>e c. earnings_of r p = Some e \<and> \<not> list_ex (\<lambda>x. r_creation_round x = r \<and> r_collateral_outcome x = None) (reservations p) \<and>
      \<not> sum_list (map snd (receipts_of r p)) \<noteq> ea_expected_received_net e \<and> \<not> reimbursed_of r p \<noteq> ea_withheld_operating_cost e \<and>
      \<lparr>ri_round = r, ri_seal_id = seal_id, ri_credits = credits, ri_receipts = receipts_of r p,
       ri_reimbursed = reimbursed_of r p, ri_forfeitures = forfeitures_of r p,
       ri_expected = ea_expected_received_net e, ri_coverage = c\<rparr> = i"
  proof (cases "earnings_of r p")
    case None
    then show ?thesis using assms by (auto simp: gather_inputs_def bindE_Inr raise_if_Inr)
  next
    case (Some e)
    then show ?thesis using assms unfolding gather_inputs_def Some option.case bindE_Inr raise_if_Inr sum.inject by blast
  qed
  then obtain e c where parts: "earnings_of r p = Some e" "\<forall>x \<in> set (reservations p). r_creation_round x = r \<longrightarrow> r_collateral_outcome x \<noteq> None"
    "round_received r p = ea_expected_received_net e" "reimbursed_of r p = ea_withheld_operating_cost e"
    and i: "i = \<lparr>ri_round = r, ri_seal_id = seal_id, ri_credits = credits, ri_receipts = receipts_of r p,
       ri_reimbursed = reimbursed_of r p, ri_forfeitures = forfeitures_of r p, ri_expected = ea_expected_received_net e, ri_coverage = c\<rparr>"
    by (auto simp: list_ex_iff receipts_of_total)
  show "ri_round i = r" "ri_credits i = credits" "ri_receipts i = receipts_of r p" "ri_reimbursed i = reimbursed_of r p"
    "ri_forfeitures i = forfeitures_of r p" "ri_seal_id i = seal_id" "round_received r p = ri_expected i"
    "input_amount i = round_received r p + reimbursed_of r p + forfeited r p"
    using parts(3) by (simp_all add: i input_amount_def receipts_of_total forfeitures_of_total)
  show "\<forall>x \<in> set (reservations p). r_creation_round x = r \<longrightarrow> r_collateral_outcome x \<noteq> None" by (rule parts(2))
  show "\<exists>e. earnings_of r p = Some e \<and> round_received r p = ea_expected_received_net e \<and> reimbursed_of r p = ea_withheld_operating_cost e"
    using parts by blast
qed

lemma calculated:
  assumes "calculate i p = Inr (fee, alloc)"
  shows "allocate_rewards (input_amount i) (ri_credits i) = Inr (fee, alloc)"
    and "\<forall>m \<in> set (map fst alloc). lookup m_id m (members p) \<noteq> None"
    and "balance (ledger p) (pot (ri_round i)) = input_amount i"
proof -
  obtain rows where parts: "check_pot (ri_round i) (input_amount i) p = Inr ()" "allocate_rewards (input_amount i) (ri_credits i) = Inr (fee, alloc)"
    "mapE (\<lambda>k. member_lock k p) (sort (map fst alloc)) = Inr rows"
    using assms by (auto simp: calculate_def bindE_Inr)
  show "allocate_rewards (input_amount i) (ri_credits i) = Inr (fee, alloc)" by (rule parts(2))
  show "balance (ledger p) (pot (ri_round i)) = input_amount i"
    using parts(1) by (auto simp: check_pot_def balance_def split: option.splits if_split_asm)
  show "\<forall>m \<in> set (map fst alloc). lookup m_id m (members p) \<noteq> None"
    using mapE_all [OF parts(3)] by (force simp: member_lock_Inr)
qed

definition allocation_at :: "int \<Rightarrow> int \<Rightarrow> int \<Rightarrow> (string \<times> int) list \<Rightarrow> string \<Rightarrow> int" where
  "allocation_at r amount fee alloc k = amount_of (payment_movements_of r amount fee alloc) k"

lemma allocation_at:
  assumes "distinct (map fst alloc)"
  shows "allocation_at r amount fee alloc (pot x) = (if x = r then - amount else 0)"
    and "allocation_at r amount fee alloc ''operator:custody:TIG'' = fee"
    and "allocation_at r amount fee alloc (available m) = (case map_of alloc m of None \<Rightarrow> 0 | Some n \<Rightarrow> n)"
proof -
  have sorted: "amount_of (map (\<lambda>(k, n). (available k, n)) (sort_key fst alloc)) k = amount_of (map (\<lambda>(k, n). (available k, n)) alloc) k" for k
    unfolding amount_of_def by (rule sum_where_mset) simp
  show "allocation_at r amount fee alloc (pot x) = (if x = r then - amount else 0)"
    by (simp add: allocation_at_def payment_movements_of_def sorted payments_elsewhere)
  show "allocation_at r amount fee alloc ''operator:custody:TIG'' = fee"
    by (simp add: allocation_at_def payment_movements_of_def sorted payments_elsewhere)
  show "allocation_at r amount fee alloc (available m) = (case map_of alloc m of None \<Rightarrow> 0 | Some n \<Rightarrow> n)"
    using payments_at [OF assms, of m] by (simp add: allocation_at_def payment_movements_of_def sorted)
qed

lemma nothing_allocated:
  assumes "fee + sum_list (map snd alloc) = 0" and "0 \<le> (fee :: int)" and "\<forall>n \<in> set (map snd alloc). 0 \<le> n"
  shows "amount_of (payment_movements_of r 0 fee alloc) k = 0"
proof -
  have zero: "fee = 0 \<and> sum_list (map snd alloc) = 0" using assms(1,2) sum_list_nonneg [of "map snd alloc"] assms(3) by auto
  then have all: "\<forall>n \<in> set (map snd alloc). n = 0" using assms(3) sum_list_nonneg_eq_0_iff [of "map snd alloc"] by auto
  have "amount_of (map (\<lambda>(k, n). (available k, n)) xs) k = 0" if "\<forall>n \<in> set (map snd xs). n = 0" for xs
    using that by (induction xs) auto
  then show ?thesis using all zero by (simp add: payment_movements_of_def)
qed

definition payees :: "int \<Rightarrow> (string \<times> int) list \<Rightarrow> string \<Rightarrow> bool" where
  "payees r alloc k \<longleftrightarrow> k = pot r \<or> k = ''operator:custody:TIG'' \<or> (\<exists>m \<in> set (map fst alloc). k = available m)"

lemma book_settlement_effect:
  assumes run: "book_settlement env jid i fee alloc p = Inr (st, p')" and fresh: "\<not> recorded (ledger p) (round_key (ri_round i) ''settle'')"
    and total: "fee + sum_list (map snd alloc) = input_amount i" "0 \<le> fee" "\<forall>n \<in> set (map snd alloc). 0 \<le> n"
  shows "rounds p' = (booked p)\<lparr>round_settlements := round_settlements (booked p) @ [st]\<rparr>"
    and "p' = p\<lparr>ledger := ledger p', rounds := rounds p'\<rparr>"
    and "balance (ledger p') k = balance (ledger p) k + allocation_at (ri_round i) (input_amount i) fee alloc k"
    and "recorded (ledger p') x \<longrightarrow> recorded (ledger p) x \<or> x = round_key (ri_round i) ''settle''"
    and "ledger_by (\<lambda>k. k = round_key (ri_round i) ''settle'') (payees (ri_round i) alloc) (ledger p) (ledger p')"
    and "st_round st = ri_round i \<and> st_pot st = input_amount i \<and> st_operator_allocation st = fee \<and> st_member_allocations st = alloc \<and>
      st_input_digest st = input_digest env i"
proof -
  obtain j q where post: "post_amount env jid (round_key (ri_round i) ''settle'') ''round_rewards'' (input_amount i)
       (payment_movements_of (ri_round i) (input_amount i) fee alloc) (inputs_json i) p = Inr (j, q)"
    and st: "st = \<lparr>st_round = ri_round i, st_rule = SETTLEMENT_RULE, st_input_digest = input_digest env i, st_inputs = inputs_json i,
       st_pot = input_amount i, st_operator_allocation = fee, st_member_allocations = alloc, st_journal_id = j\<rparr>"
    and p': "p' = q\<lparr>rounds := (booked q)\<lparr>round_settlements := round_settlements (booked q) @ [st]\<rparr>\<rparr>"
    using run by (auto simp: book_settlement_def bindE_Inr Let_def)
  have "input_amount i = 0 \<Longrightarrow> amount_of (payment_movements_of (ri_round i) (input_amount i) fee alloc) k = 0" for k
    using nothing_allocated [of fee alloc] total by simp
  note eff = post_amount_effect [OF post fresh this]
  obtain led where q: "q = p\<lparr>ledger := led\<rparr>" using eff(1) by blast
  show "rounds p' = (booked p)\<lparr>round_settlements := round_settlements (booked p) @ [st]\<rparr>"
    "p' = p\<lparr>ledger := ledger p', rounds := rounds p'\<rparr>" by (simp_all add: p' q)
  show "balance (ledger p') k = balance (ledger p) k + allocation_at (ri_round i) (input_amount i) fee alloc k"
    using eff(2) by (simp add: p' allocation_at_def)
  show "recorded (ledger p') x \<longrightarrow> recorded (ledger p) x \<or> x = round_key (ri_round i) ''settle''"
    using eff(3) by (simp add: p')
  have "ledger_by (\<lambda>k. k = round_key (ri_round i) ''settle'') (payees (ri_round i) alloc) (ledger p) (ledger q)"
    by (rule eff(4)) (force simp: payees_def payment_movements_of_def)+
  then show "ledger_by (\<lambda>k. k = round_key (ri_round i) ''settle'') (payees (ri_round i) alloc) (ledger p) (ledger p')" by (simp add: p')
  show "st_round st = ri_round i \<and> st_pot st = input_amount i \<and> st_operator_allocation st = fee \<and> st_member_allocations st = alloc \<and>
      st_input_digest st = input_digest env i" by (simp add: st)
qed

lemma booked_total:
  assumes "round_credits r p = Inr credits" and "gather_inputs env r seal_id credits p = Inr i" and "calculate i p = Inr (fee, alloc)"
  shows "fee + sum_list (map snd alloc) = input_amount i" "0 \<le> fee" "\<forall>n \<in> set (map snd alloc). 0 \<le> n"
    "map fst alloc = map fst credits" "distinct (map fst alloc)"
proof -
  have "allocate_rewards (input_amount i) credits = Inr (fee, alloc)" using calculated(1) [OF assms(3)] gathered(2) [OF assms(2)] by simp
  then show "fee + sum_list (map snd alloc) = input_amount i" "0 \<le> fee" "\<forall>n \<in> set (map snd alloc). 0 \<le> n"
    "map fst alloc = map fst credits" "distinct (map fst alloc)"
    using allocation_conserved [OF _ round_credits_keys [OF assms(1)]] round_credits_keys [OF assms(1)] by metis+
qed

lemma settle_ok:
  assumes run: "settle env jid n seal_id do_post expected p = Inr (out, p')" and ok: "rounds_ok p"
  shows "rounds_ok p'"
  using run
proof (cases rule: settle_cases)
  case (booked r credits i fee alloc st)
  have round [simp]: "ri_round i = r" using gathered(1) [OF booked(4)] .
  have fresh: "\<not> recorded (ledger p) (round_key (ri_round i) ''settle'')"
    using ok booked(2) by (auto simp: rounds_ok_def settlement_journals_ok_def)
  note total = booked_total [OF booked(3-5)]
  note eff = book_settlement_effect [OF booked(8) fresh total(1-3)]
  have reservations: "reservations p' = reservations p" by (subst eff(2)) simp
  have fields: "round_received x p' = round_received x p" "reimbursed_of x p' = reimbursed_of x p"
    "settled x p' = (if x = r then Some st else settled x p)" "forfeited x p' = forfeited x p" "earnings_of x p' = earnings_of x p" for x
    using booked(2) eff(6) by (auto simp: round_received_def reimbursed_of_def settled_def forfeited_def created_in_def earnings_of_def
      eff(1) reservations lookup_snoc split: option.splits)
  have "balance (ledger p) (pot r) = input_amount i" using calculated(3) [OF booked(5)] by simp
  then have "pots_ok p'" using ok eff(6) gathered(8) [OF booked(4)] booked(2)
    by (auto simp: rounds_ok_def pots_ok_def fields eff(3) allocation_at [OF total(5)] paid_out_def)
  moreover have "settlement_journals_ok p'"
    unfolding settlement_journals_ok_def
  proof (intro conjI allI impI)
    have old: "settlement_journals_ok p" using ok by (simp add: rounds_ok_def)
    show "settled x p' \<noteq> None" if "recorded (ledger p') (round_key x ''settle'')" for x
      using that eff(4) [of "round_key x ''settle''"] old by (auto simp: settlement_journals_ok_def fields)
    show "lookup rb_round x (round_reimbursements (booked p')) \<noteq> None" if "recorded (ledger p') (round_key x ''reimburse'')" for x
      using that eff(4) [of "round_key x ''reimburse''"] old by (simp add: settlement_journals_ok_def eff(1))
    show "lookup fz_reservation_id x (collateral_finalizations (booked p')) \<noteq> None" if "recorded (ledger p') (finalize_key x)" for x
      using that eff(4) [of "finalize_key x"] old by (simp add: settlement_journals_ok_def eff(1))
  qed
  moreover have "funding_ok p'" using ok by (simp add: rounds_ok_def funding_ok_def fields eff(1) reservations)
  ultimately show ?thesis by (simp add: rounds_ok_def)
qed (use ok in simp_all)

end
