(* ===== verification/Settlement_Properties.thy ===== *)
theory Settlement_Properties
  imports Settlement_Safety
begin

text \<open>The properties of \<open>settlement.py\<close> and their witnesses.\<close>

section \<open>A funded round\<close>

text \<open>
  A round of one block, credited to the only member, whose receipts and reimbursement have
  arrived; and a reservation of it that expired after it was handed over.
\<close>

definition sd_block :: observed_block_row where
  "sd_block = \<lparr>ob_id = ''b0'', ob_height = 0, ob_previous_id = ''g'', ob_round = 1, ob_timestamp = 0, ob_blocks_per_round = 1,
     ob_semantic_digest = ''d'', ob_attempt_id = ''a''\<rparr>"

definition sd_observations :: observation_tables where
  "sd_observations = empty_observations\<lparr>observed_blocks := [sd_block],
     observation_stream := Some \<lparr>os_launch_height = 0, os_latest_seen_height = 5, os_contiguous_height = 0\<rparr>,
     missing_block_policies := [\<lparr>mp_revision = 1, mp_policy = GAP_POLICY, mp_max_missing_per_round = 0, mp_warn_missing_per_round = 0,
       mp_actor = ''ops'', mp_reason = ''start''\<rparr>],
     credited_blocks := [\<lparr>cr_block_id = ''b0'', cr_player_id = ''w'', cr_rule = RULE, cr_ownership_digest = ''o'', cr_total_num = 1, cr_total_den = 1\<rparr>],
     benchmark_credits := [\<lparr>bc_block_id = ''b0'', bc_benchmark_id = ''n'', bc_member_id = ''m1'', bc_numerator = 1, bc_denominator = 1\<rparr>]\<rparr>"

definition sd_rounds :: round_tables where
  "sd_rounds = empty_rounds\<lparr>round_report_scopes := [\<lparr>rs_creation_round = 1, rs_reporting_rounds = [1], rs_adapter_version = ''v'', rs_evidence = JNull\<rparr>],
     round_report_seals := [\<lparr>sl_id = ''s1'', sl_creation_round = 1, sl_block_id = ''b0'', sl_capture_ids = [], sl_reports = [], sl_input_digest = ''i''\<rparr>],
     round_earnings := [\<lparr>ea_round = 1, ea_expected_received_net = 90, ea_withheld_operating_cost = 10, ea_block_id = ''b0'', ea_evidence = JNull\<rparr>],
     round_receipts := [\<lparr>rp_event_id = ''e1'', rp_round = 1, rp_amount = 90, rp_evidence = JNull\<rparr>],
     round_reimbursements := [\<lparr>rb_round = 1, rb_amount = 10, rb_journal_id = None\<rparr>]\<rparr>"

definition sd_account :: "string \<Rightarrow> account_kind \<Rightarrow> int \<Rightarrow> account_row" where
  "sd_account k kind n = \<lparr>acc_id = k, acc_kind = kind, acc_asset = AssetTIG, acc_location = Custody, acc_balance = n\<rparr>"

definition sd_pool :: pool where
  "sd_pool = demo_member\<lparr>ledger := empty_ledger\<lparr>accounts := [sd_account (pot 1) KRound 100,
       sd_account ''operator:custody:TIG'' KOperator 3, sd_account (available ''m1'') KMember 7]\<rparr>,
     observations := sd_observations, rounds := sd_rounds\<rparr>"

lemma sd_rounds_ok: "rounds_ok sd_pool"
proof -
  have pots: "balance (ledger sd_pool) (pot r) = (if r = 1 then 100 else 0)" for r
    by (simp add: sd_pool_def sd_account_def balance_def)
  have "round_received r sd_pool = (if r = 1 then 90 else 0)" "reimbursed_of r sd_pool = (if r = 1 then 10 else 0)" for r
    by (simp_all add: round_received_def reimbursed_of_def sd_pool_def sd_rounds_def)
  moreover have "forfeited r sd_pool = 0" "paid_out r sd_pool = 0" for r
    by (simp_all add: forfeited_def paid_out_def settled_def sd_pool_def sd_rounds_def empty_rounds_def)
  moreover have "earnings_of r sd_pool = (if r = 1 then Some (hd (round_earnings sd_rounds)) else None)" for r
    by (simp add: earnings_of_def sd_pool_def sd_rounds_def)
  ultimately show ?thesis
    by (simp add: rounds_ok_def pots_ok_def pots settlement_journals_ok_def funding_ok_def)
      (simp add: recorded_def sd_pool_def sd_rounds_def empty_ledger_def empty_rounds_def)
qed

definition sd_paid :: pool where
  "sd_paid = (case allocate demo_env ''j1'' (JInt 1) ''s1'' None sd_pool of Inl _ \<Rightarrow> empty_pool | Inr r \<Rightarrow> snd r)"

lemma sd_allocated: "case allocate demo_env ''j1'' (JInt 1) ''s1'' None sd_pool of Inl _ \<Rightarrow> False
    | Inr (Settlement st, p) \<Rightarrow> st_pot st = 100 \<and> st_operator_allocation st = 5 \<and> st_member_allocations st = [(''m1'', 95)] | _ \<Rightarrow> False"
  by code_simp

section \<open>Allocation\<close>

lemma booked_round:
  assumes run: "settle env jid n seal_id True expected p = Inr (out, p')" and ok: "rounds_ok p"
    and "n = JInt r" and fresh: "settled r p = None"
  obtains credits i fee alloc st where "round_credits r p = Inr credits" "gather_inputs env r seal_id credits p = Inr i"
    "calculate i p = Inr (fee, alloc)" "out = Settlement st" "settled r p' = Some st"
    "st_pot st = input_amount i" "st_operator_allocation st = fee" "st_member_allocations st = alloc" "st_input_digest st = input_digest env i"
    "balance (ledger p) (pot r) = input_amount i" "input_amount i = round_received r p + reimbursed_of r p + forfeited r p"
    "fee + sum_list (map snd alloc) = input_amount i" "\<forall>x \<in> set (map snd alloc). 0 \<le> x" "0 \<le> fee" "distinct (map fst alloc)"
    "\<forall>k. balance (ledger p') k = balance (ledger p) k + allocation_at r (input_amount i) fee alloc k"
    "\<forall>k. \<not> payees r alloc k \<longrightarrow> balance (ledger p') k = balance (ledger p) k"
    "expected = None \<or> expected = Some (input_digest env i)"
  using run
proof (cases rule: settle_cases)
  case (booked s credits i fee alloc st)
  then have [simp]: "s = r" using assms(3) by simp
  have round [simp]: "ri_round i = r" using gathered(1) [OF booked(4)] by simp
  have journal: "\<not> recorded (ledger p) (round_key (ri_round i) ''settle'')"
    using ok booked(2) by (auto simp: rounds_ok_def settlement_journals_ok_def)
  note total = booked_total [OF booked(3-5)]
  note eff = book_settlement_effect [OF booked(8) journal total(1-3)]
  have "settled r p' = Some st" using fresh eff(6) by (simp add: settled_def eff(1) lookup_snoc)
  moreover have "balance (ledger p) (pot r) = input_amount i" using calculated(3) [OF booked(5)] by simp
  moreover have "balance (ledger p') k = balance (ledger p) k" if "\<not> payees r alloc k" for k
    by (rule ledger_by_balance [OF eff(5)]) (use that in simp)
  ultimately show thesis
    using that [of credits i fee alloc st] booked(3-5,7,9) total gathered(8) [OF booked(4)] eff(3,6) by simp
qed (use assms in simp_all)

text \<open>
  C5. Settling a round pays out exactly what the round was funded with, once: the round's
  account held its receipts, the operator's reimbursement and the forfeited collateral, is empty
  afterwards, and the operator and each member with credit are paid their allocation, which add
  up to it; no other account changes, and allocating the round again pays nothing.
\<close>

theorem allocate_pays_pot:
  assumes "rounds_ok p" and "settled r p = None" and "allocate env jid (JInt r) seal_id expected p = Inr (out, p')"
  shows "\<exists>st. out = Settlement st \<and> st_pot st = round_received r p + reimbursed_of r p + forfeited r p \<and>
    balance (ledger p) (pot r) = st_pot st \<and> balance (ledger p') (pot r) = 0 \<and>
    balance (ledger p') ''operator:custody:TIG'' = balance (ledger p) ''operator:custody:TIG'' + st_operator_allocation st \<and>
    (\<forall>m. balance (ledger p') (available m) = balance (ledger p) (available m) +
       (case map_of (st_member_allocations st) m of None \<Rightarrow> 0 | Some a \<Rightarrow> a)) \<and>
    st_operator_allocation st + sum_list (map snd (st_member_allocations st)) = st_pot st \<and>
    0 \<le> st_operator_allocation st \<and> (\<forall>a \<in> set (map snd (st_member_allocations st)). 0 \<le> a) \<and>
    (\<forall>k. k \<noteq> pot r \<and> k \<noteq> ''operator:custody:TIG'' \<and> (\<forall>m. k \<noteq> available m) \<longrightarrow> balance (ledger p') k = balance (ledger p) k) \<and>
    allocate env' jid' (JInt r) seal' None p' = Inr (Settlement st, p')"
proof -
  obtain credits i fee alloc st where parts0: "round_credits r p = Inr credits" "gather_inputs env r seal_id credits p = Inr i"
    "calculate i p = Inr (fee, alloc)" and parts: "out = Settlement st" "settled r p' = Some st"
    "st_pot st = input_amount i" "st_operator_allocation st = fee" "st_member_allocations st = alloc" "st_input_digest st = input_digest env i"
    "balance (ledger p) (pot r) = input_amount i" "input_amount i = round_received r p + reimbursed_of r p + forfeited r p"
    "fee + sum_list (map snd alloc) = input_amount i" "\<forall>x \<in> set (map snd alloc). 0 \<le> x" "0 \<le> fee" "distinct (map fst alloc)"
    "\<forall>k. balance (ledger p') k = balance (ledger p) k + allocation_at r (input_amount i) fee alloc k"
    "\<forall>k. \<not> payees r alloc k \<longrightarrow> balance (ledger p') k = balance (ledger p) k"
    "expected = None \<or> expected = Some (input_digest env i)"
    by (rule booked_round [OF assms(3) [unfolded allocate_def] assms(1) refl assms(2)])
  have "1 \<le> r" using assms(3) by (auto simp: allocate_def settle_def bindE_Inr units_Inr)
  then have "units True (JInt r) = Inr r" by (simp add: units_Inr)
  then have "allocate env' jid' (JInt r) seal' None p' = Inr (Settlement st, p')"
    using parts(2) by (simp add: allocate_def settle_def reviewed_def)
  moreover have "balance (ledger p') k = balance (ledger p) k" if "k \<noteq> pot r" "k \<noteq> ''operator:custody:TIG''" "\<forall>m. k \<noteq> available m" for k
    using that by (intro parts(14) [rule_format]) (auto simp: payees_def)
  moreover note pays = parts(13) [rule_format, of "pot r", unfolded allocation_at(1) [OF parts(12)]]
    parts(13) [rule_format, of "''operator:custody:TIG''", unfolded allocation_at(2) [OF parts(12)]] parts(13) [rule_format, of "available _", unfolded allocation_at(3) [OF parts(12)]]
  ultimately show ?thesis
    using parts(7-11) by (intro exI [of _ st]) (simp add: parts(1,3-5))
qed

theorem allocate_pays_pot_witness:
  "balance (ledger sd_paid) (pot 1) = 0 \<and> balance (ledger sd_paid) (available ''m1'') = 102"
proof -
  obtain st where run: "allocate demo_env ''j1'' (JInt 1) ''s1'' None sd_pool = Inr (Settlement st, sd_paid)"
    and alloc: "st_member_allocations st = [(''m1'', 95)]"
    using sd_allocated unfolding sd_paid_def by (auto split: sum.splits settlement.splits)
  have start: "settled 1 sd_pool = None" "balance (ledger sd_pool) (available ''m1'') = 7" by code_simp+
  from allocate_pays_pot [OF sd_rounds_ok start(1) run] show ?thesis using alloc start(2) by auto
qed

section \<open>Preview\<close>

text \<open>
  C31. A preview moves nothing, and it is what allocating in the same state books: the same
  digest, inputs and allocations. An allocation reviewed under another digest is refused.
\<close>

theorem preview_is_allocation:
  assumes "preview env n seal_id p = Inr (Preview digest i amount fee alloc, p')"
  shows "p' = p \<and> amount = input_amount i \<and> digest = input_digest env i \<and>
    (\<forall>out q. allocate env jid n seal_id (Some digest) p = Inr (out, q) \<longrightarrow>
       (\<exists>st. out = Settlement st \<and> st_pot st = amount \<and> st_operator_allocation st = fee \<and> st_member_allocations st = alloc \<and>
         st_input_digest st = digest \<and> st_inputs st = inputs_json i)) \<and>
    (\<forall>other. other \<noteq> digest \<longrightarrow> allocate env jid n seal_id (Some other) p = Inl (Conflict ''settlement inputs changed; review a fresh preview''))"
  using assms unfolding preview_def
proof (cases rule: settle_cases)
  case (preview r credits j fee' alloc')
  then have same: "j = i" "fee' = fee" "alloc' = alloc" "amount = input_amount i" "digest = input_digest env i" by simp_all
  have units: "units True (JInt r) = Inr r"
    using assms preview(1) by (cases "units True (JInt r)") (auto simp: preview_def settle_def bindE_Inr units_Inr)
  have run: "allocate env jid n seal_id (Some d) p =
      (if d \<noteq> digest then Inl (Conflict ''settlement inputs changed; review a fresh preview'')
       else bindE (book_settlement env jid i fee alloc p) (\<lambda>(row, p). Inr (Settlement row, p)))" for d
    using preview(2-5) by (simp add: allocate_def settle_def preview(1) units same)
  have "\<exists>st. out = Settlement st \<and> st_pot st = amount \<and> st_operator_allocation st = fee \<and> st_member_allocations st = alloc \<and>
         st_input_digest st = digest \<and> st_inputs st = inputs_json i"
    if "allocate env jid n seal_id (Some digest) p = Inr (out, q)" for out q
    using that by (auto simp: run book_settlement_def bindE_Inr Let_def same)
  with run preview(8) same show ?thesis by auto
qed simp_all

lemma sd_previewed: "case preview demo_env (JInt 1) ''s1'' sd_pool of Inl _ \<Rightarrow> False
    | Inr (Preview digest i amount fee alloc, p) \<Rightarrow> digest \<noteq> ''other'' \<and> amount = 100 \<and> fee = 5 | _ \<Rightarrow> False"
  by code_simp

theorem preview_is_allocation_witness:
  "\<exists>digest i alloc. preview demo_env (JInt 1) ''s1'' sd_pool = Inr (Preview digest i 100 5 alloc, sd_pool) \<and> input_amount i = 100 \<and>
     allocate demo_env ''j1'' (JInt 1) ''s1'' (Some ''other'') sd_pool = Inl (Conflict ''settlement inputs changed; review a fresh preview'')"
proof -
  obtain digest i alloc p where run: "preview demo_env (JInt 1) ''s1'' sd_pool = Inr (Preview digest i 100 5 alloc, p)" "digest \<noteq> ''other''"
    using sd_previewed by (auto split: sum.splits settlement.splits)
  from preview_is_allocation [OF run(1), where jid = "''j1''"] run show ?thesis by auto
qed

section \<open>Collateral\<close>

text \<open>
  C30. Collateral is finalized once, to one place: all of it returns to the member's available
  balance, or all of it is forfeited to the account of the round the work was created in, and
  the held account is empty; finalizing it again, under any seal, answers the same and moves nothing.
\<close>

theorem finalize_collateral_once:
  assumes "rounds_ok p" and "reservations_ok p" and "lookup r_id k (reservations p) = Some r"
    and "r_collateral_outcome r = None" and "lookup fz_reservation_id k (collateral_finalizations (booked p)) = None"
    and "finalize_collateral env jid k seal_id p = Inr (out, p')"
  shows "\<exists>fz. out = Finalization fz \<and> fz_amount fz = r_amount r \<and>
    balance (ledger p) (held k) = r_amount r \<and> balance (ledger p') (held k) = 0 \<and>
    balance (ledger p') (outcome_account r (fz_outcome fz)) = balance (ledger p) (outcome_account r (fz_outcome fz)) + r_amount r \<and>
    (\<forall>x. x \<noteq> held k \<and> x \<noteq> outcome_account r (fz_outcome fz) \<longrightarrow> balance (ledger p') x = balance (ledger p) x) \<and>
    (fz_outcome fz = Forfeited \<longrightarrow> r_handed_over_at r \<noteq> None) \<and>
    finalize_collateral env' jid' k seal' p' = Inr (Finalization fz, p')"
  using assms(6)
proof (cases rule: finalize_collateral_cases)
  case (new s result fz)
  then have [simp]: "s = r" "r_id r = k" using assms(3) by simp_all
  have fresh: "\<not> recorded (ledger p) (finalize_key (r_id s))"
    using assms(1,5) by (auto simp: rounds_ok_def settlement_journals_ok_def)
  note eff = apply_outcome_effect [OF new(6) fresh]
  have held_now: "balance (ledger p) (held k) = r_amount r"
    using reservations_ok_own(1) [OF assms(2,3)] assms(4) by (simp add: collateral_due_def)
  have apart: "held k \<noteq> outcome_account r result" by (simp add: outcome_account_def)
  have moves: "amount_of (outcome_movements r result) x = (if x = held k then - r_amount r else if x = outcome_account r result then r_amount r else 0)" for x
    using apart by (auto simp: outcome_movements_def)
  have "result = Forfeited \<longrightarrow> r_handed_over_at r \<noteq> None"
    using new(5) unfolding finalize_guards_def bindE_Inr raise_if_Inr by (auto simp: decide_outcome_def split: if_split_asm)
  moreover have "lookup fz_reservation_id k (collateral_finalizations (booked p')) = Some fz"
    using assms(5) eff(7) by (simp add: eff(2) lookup_snoc)
  moreover have "locked k p = Inr r"
    using assms(3,6) unfolding finalize_collateral_def raise_if_Inr bindE_Inr locked_Inr by auto
  then have "locked k p' = Inr (r\<lparr>r_collateral_outcome := Some result\<rparr>)"
    unfolding locked_Inr by (subst eff(3)) (simp add: eff(1) lookup_modify)
  ultimately show ?thesis
    using eff(7) held_now apart new(7)
    by (intro exI [of _ fz]) (auto simp: eff(4) moves finalize_collateral_def locked_Inr bindE_Inr)
qed (use assms in simp_all)

definition sd_reservation :: reservation_row where
  "sd_reservation = \<lparr>r_id = ''r1'', r_member_id = ''m1'', r_request_key = ''k'', r_request_hash = ''h'', r_creation_round = 1, r_resource = ''CPU'',
     r_base_amount = 20, r_multiplier = Finite False 1 0, r_multiplier_revision = 0, r_amount = 20, r_selection = JNull, r_payload = JNull,
     r_payload_text = None, r_offer_expires_at = 0, r_fee_limit = 4, r_fee_actual = Some 4, r_state = Expired, r_slot_held = False,
     r_collateral_outcome = None, r_benchmark_id = Some ''n1'', r_assignment = None, r_assignment_digest = None, r_assignment_payload = None,
     r_handed_over_at = Some 1, r_active_at_height = None, r_created_at = 0\<rparr>"

definition sd_working :: pool where
  "sd_working = demo_member\<lparr>ledger := empty_ledger\<lparr>accounts := [sd_account (held ''r1'') KCollateral 20]\<rparr>,
     reservations := [sd_reservation], observations := sd_observations,
     rounds := empty_rounds\<lparr>round_report_scopes := round_report_scopes sd_rounds, round_report_seals := round_report_seals sd_rounds\<rparr>\<rparr>"

lemma sd_working_ok: "rounds_ok sd_working \<and> reservations_ok sd_working"
proof -
  have "balance (ledger sd_working) (pot r) = 0" "balance (ledger sd_working) (held i) = (if i = ''r1'' then 20 else 0)"
    "balance (ledger sd_working) (committed_fee i) = 0" for r i
    by (simp_all add: sd_working_def sd_account_def balance_def held_def committed_fee_def pot_def)
  moreover have "\<not> recorded (ledger sd_working) k" for k by (simp add: recorded_def sd_working_def empty_ledger_def)
  moreover have "lookup r_id i (reservations sd_working) = (if i = ''r1'' then Some sd_reservation else None)" for i
    by (simp add: sd_working_def sd_reservation_def)
  moreover have "row_ok sd_reservation" "slots_held m sd_working \<le> 2" for m
    by (simp_all add: row_ok_def sd_reservation_def slots_held_def sd_working_def blank_def)
  moreover have "round_received r sd_working = 0" "reimbursed_of r sd_working = 0" "forfeited r sd_working = 0" "paid_out r sd_working = 0"
    "earnings_of r sd_working = None" "collateral_finalizations (booked sd_working) = []" "reservations sd_working = [sd_reservation]" for r
    by (simp_all add: round_received_def reimbursed_of_def forfeited_def paid_out_def settled_def earnings_of_def sd_working_def empty_rounds_def)
  ultimately show ?thesis
    by (simp add: rounds_ok_def pots_ok_def settlement_journals_ok_def funding_ok_def reservations_ok_def journals_due_def collateral_due_def fee_due_def)
      (simp add: sd_reservation_def)
qed

definition sd_forfeited :: pool where
  "sd_forfeited = (case finalize_collateral demo_env ''j1'' ''r1'' ''s1'' sd_working of Inl _ \<Rightarrow> empty_pool | Inr r \<Rightarrow> snd r)"

lemma sd_finalized: "case finalize_collateral demo_env ''j1'' ''r1'' ''s1'' sd_working of Inl _ \<Rightarrow> False
    | Inr (Finalization fz, p) \<Rightarrow> fz_outcome fz = Forfeited | _ \<Rightarrow> False"
  by code_simp

theorem finalize_collateral_once_witness:
  "balance (ledger sd_forfeited) (pot 1) = 20 \<and> balance (ledger sd_forfeited) (held ''r1'') = 0"
proof -
  obtain fz where run: "finalize_collateral demo_env ''j1'' ''r1'' ''s1'' sd_working = Inr (Finalization fz, sd_forfeited)"
    and out: "fz_outcome fz = Forfeited"
    using sd_finalized unfolding sd_forfeited_def by (auto split: sum.splits finalization.splits)
  have start: "lookup r_id ''r1'' (reservations sd_working) = Some sd_reservation" "r_collateral_outcome sd_reservation = None"
    "lookup fz_reservation_id ''r1'' (collateral_finalizations (booked sd_working)) = None"
    "balance (ledger sd_working) (pot 1) = 0" "outcome_account sd_reservation Forfeited = pot 1" "r_amount sd_reservation = 20" by code_simp+
  from finalize_collateral_once [OF _ _ start(1-3) run] sd_working_ok show ?thesis using out start(4-6) by auto
qed

end
