(* ===== verification/Funding.thy ===== *)
theory Funding
  imports Pilot Hex Payload
begin

text \<open>
  \<open>pool_manager/pool_v2/funding.py\<close>: the public observation of the pool's protocol fee balance.
  \<open>verify\<close> reads a capture into its policy, balance and confirmed top-ups; \<open>record\<close> keeps it and
  the facts it confirms, and raises an alert when a confirmed top-up changed. The client of the
  protocol's public API is a parameter of \<open>capture\<close>.
\<close>

section \<open>Verification\<close>

text \<open>\<open>value == 1\<close>.\<close>

definition equals_one :: "json \<Rightarrow> bool" where
  "equals_one v \<longleftrightarrow> v \<in> {JInt 1, JBool True, JFloat ''1.0''}"

text \<open>Both ends of the capture show the same block.\<close>

fun same_fields :: "json \<Rightarrow> json \<Rightarrow> string list list \<Rightarrow> unit result" where
  "same_fields first final [] = Inr ()"
| "same_fields first final (ks # rest) =
     bindE (path first ks) (\<lambda>a. bindE (path final ks) (\<lambda>b.
       if \<not> json_eq a b then Inl (Conflict ''protocol block changed during funding capture'') else same_fields first final rest))"

definition parse_time :: "env \<Rightarrow> json \<Rightarrow> (timestamp \<times> bool) result" where
  "parse_time env v = (case v of
     JStr s \<Rightarrow> (case fromisoformat env s of None \<Rightarrow> Inl (ValueError ''Invalid isoformat string'') | Some t \<Rightarrow> Inr t)
   | _ \<Rightarrow> Inl TypeError)"

definition checked_time :: "env \<Rightarrow> string \<Rightarrow> json \<Rightarrow> timestamp result" where
  "checked_time env message v = bindE (parse_time env v) (\<lambda>(t, aware). if \<not> aware then Inl (FundsError message) else Inr t)"

text \<open>One confirmed top-up, as \<open>verify\<close> returns it.\<close>

record topup_fact =
  tu_id :: string
  tu_tx_hash :: string
  tu_log_index :: int
  tu_amount :: int
  tu_height :: int

definition is_topup_id :: "json \<Rightarrow> bool" where
  "is_topup_id v = (case v of JStr s \<Rightarrow> length s = 32 \<and> list_all (\<lambda>c. c \<in> set ''0123456789abcdef'') s | _ \<Rightarrow> False)"

definition identity_of :: "json \<Rightarrow> string" where
  "identity_of v = (case v of JStr s \<Rightarrow> s | _ \<Rightarrow> [])"

text \<open>One row of the top-up list, after the identities seen before it.\<close>

definition topup_details :: "string \<Rightarrow> json \<Rightarrow> (string \<times> int \<times> int) result" where
  "topup_details player details =
     bindE (bindE (subscript details ''player_id'') address) (\<lambda>owner.
     if owner \<noteq> player then Inl (FundsError ''top-up belongs to a different player'') else
     bindE (bindE (subscript details ''tx_hash'') (hex_bytes 32)) (\<lambda>hash.
     bindE (subscript details ''log_idx'') (\<lambda>v. bindE (p_integer v ''top-up log index'' 0) (\<lambda>index.
     bindE (bindE (subscript details ''amount'') funding_amount) (\<lambda>amount.
     if amount \<le> 0 then Inl (FundsError ''protocol top-up amount must be positive'') else Inr (hash, index, amount))))))"

definition read_topup :: "string \<Rightarrow> int \<Rightarrow> json \<Rightarrow> string list \<times> topup_fact list \<Rightarrow> (string list \<times> topup_fact list) result" where
  "read_topup player height row = (\<lambda>(seen, found).
     bindE (subscript row ''id'') (\<lambda>identity.
     if \<not> is_topup_id identity \<or> identity_of identity \<in> set seen then Inl (FundsError ''invalid or repeated protocol top-up identity'') else
     bindE (bindE (subscript row ''details'') (topup_details player)) (\<lambda>(hash, index, amount).
     bindE (subscript row ''state'') (\<lambda>state.
     if state = JNull then Inr (seen @ [identity_of identity], found) else
     bindE (subscript state ''block_confirmed'') (\<lambda>v. bindE (p_integer v ''top-up confirmation height'' 1) (\<lambda>confirmed.
     if confirmed > height then Inl (FundsError ''top-up confirmation is after its observation block'') else
     Inr (seen @ [identity_of identity], found @ [\<lparr>tu_id = identity_of identity, tu_tx_hash = hash, tu_log_index = index,
       tu_amount = amount, tu_height = confirmed\<rparr>])))))))"

record funding_snapshot =
  fn_player_id :: string
  fn_block_id :: json
  fn_height :: int
  fn_checked_at :: timestamp
  fn_recipient :: string
  fn_minimum :: int
  fn_available :: int
  fn_topups :: "topup_fact list"

text \<open>The block both ends agree on: when it was checked and its height.\<close>

definition verify_block :: "env \<Rightarrow> json \<Rightarrow> json \<Rightarrow> json \<Rightarrow> (timestamp \<times> int) result" where
  "verify_block env data first final =
     bindE (same_fields first final [[''id''], [''details'', ''height''], [''config'', ''topups'']]) (\<lambda>_.
     bindE (bindE (subscript data ''checked_at'') (checked_time env ''protocol funding capture time needs a timezone'')) (\<lambda>checked.
     bindE (bindE (path first [''details'', ''timestamp'']) (\<lambda>v. p_integer v ''block timestamp'' 0)) (\<lambda>stamp.
     bindE (bindE (path first [''details'', ''height'']) (\<lambda>v. p_integer v ''block height'' 1)) (\<lambda>height.
     if \<not> (seconds (-5) \<le> checked - seconds stamp \<and> checked - seconds stamp \<le> seconds 120)
     then Inl (FundsError ''protocol funding block is stale'') else Inr (checked, height)))))"

definition verify_policy :: "string \<Rightarrow> json \<Rightarrow> (string \<times> int) result" where
  "verify_policy player first =
     bindE (path first [''config'', ''topups'']) (\<lambda>policy.
     bindE (bindE (subscript policy ''topup_address'') address) (\<lambda>recipient.
     bindE (bindE (subscript policy ''min_topup_amount'') funding_amount) (\<lambda>minimum.
     if minimum \<le> 0 \<or> recipient = player then Inl (FundsError ''invalid protocol top-up route or minimum'') else Inr (recipient, minimum))))"

text \<open>The balance of the player; a player the protocol does not know yet has none.\<close>

definition known_player :: "string \<Rightarrow> json \<Rightarrow> unit result" where
  "known_player player v =
     (case v of
        JNull \<Rightarrow> Inr ()
      | JDict items \<Rightarrow> bindE (bindE (item items ''id'') address) (\<lambda>w.
          if w \<noteq> player then Inl (FundsError ''protocol player response has a different identity'') else Inr ())
      | _ \<Rightarrow> Inl (FundsError ''protocol player response has a different identity''))"

definition no_state :: "json \<Rightarrow> bool result" where
  "no_state v = (if v = JNull then Inr True else bindE (subscript v ''state'') (\<lambda>state. Inr (state = JNull)))"

definition verify_available :: "string \<Rightarrow> json \<Rightarrow> json \<Rightarrow> int result" where
  "verify_available player feed v =
     bindE (known_player player v) (\<lambda>_.
     bindE (no_state v) (\<lambda>none.
     if none then bindE (subscript feed ''topups'') (\<lambda>ts.
       if \<not> falsy ts then Inl (FundsError ''uninitialized protocol player has inconsistent top-ups'') else Inr 0)
     else bindE (path v [''state'', ''available_fee_balance'']) funding_amount))"

definition verify_topups :: "string \<Rightarrow> int \<Rightarrow> json \<Rightarrow> topup_fact list result" where
  "verify_topups player height ts =
     (case ts of
        JList rows \<Rightarrow> bindE (foldE (read_topup player height) rows ([], [])) (\<lambda>(_, found). Inr found)
      | _ \<Rightarrow> Inl (FundsError ''complete top-up list required''))"

definition verify_funding :: "env \<Rightarrow> json \<Rightarrow> funding_snapshot result" where
  "verify_funding env data =
     bindE (json_get data ''version'') (\<lambda>version. bindE (json_get data ''error'') (\<lambda>failure.
     if \<not> equals_one version \<or> \<not> falsy failure then Inl (FundsError ''protocol funding capture is incomplete'') else
     bindE (bindE (subscript data ''player_id'') address) (\<lambda>player.
     bindE (path data [''start'', ''block'']) (\<lambda>first. bindE (path data [''end'', ''block'']) (\<lambda>final.
     bindE (verify_block env data first final) (\<lambda>(checked, height).
     bindE (verify_policy player first) (\<lambda>(recipient, minimum).
     bindE (subscript data ''player_data'') (\<lambda>feed.
     bindE (bindE (subscript feed ''player'') (verify_available player feed)) (\<lambda>available.
     bindE (bindE (subscript feed ''topups'') (verify_topups player height)) (\<lambda>found.
     bindE (subscript first ''id'') (\<lambda>block_id.
       Inr \<lparr>fn_player_id = player, fn_block_id = block_id, fn_height = height, fn_checked_at = checked, fn_recipient = recipient,
         fn_minimum = minimum, fn_available = available, fn_topups = found\<rparr>)))))))))))"

section \<open>Capture\<close>

text \<open>\<open>type(failure).__name__\<close>.\<close>

fun class_name :: "error \<Rightarrow> string" where
  "class_name (FundsError _) = ''FundsError''"
| "class_name (Conflict _) = ''Conflict''"
| "class_name (InsufficientFunds _) = ''InsufficientFunds''"
| "class_name (ProtocolDataError _) = ''ProtocolDataError''"
| "class_name (IntegrityError _) = ''IntegrityError''"
| "class_name (RpcFailure _ _ _) = ''RpcFailure''"
| "class_name (UnsupportedCustodyTransaction _) = ''UnsupportedCustodyTransaction''"
| "class_name (ValueError _) = ''ValueError''"
| "class_name KeyError = ''KeyError''"
| "class_name IndexError = ''IndexError''"
| "class_name TypeError = ''TypeError''"
| "class_name AttributeError = ''AttributeError''"

text \<open>
  \<open>client.get(path, params)\<close>, by the number of the call: the network may answer differently
  every time. What was read before a failure stays in the data.
\<close>

type_synonym api_client = "nat \<Rightarrow> string \<Rightarrow> (string \<times> json) list \<Rightarrow> json result"

definition read_start :: "api_client \<Rightarrow> (string \<times> json) list \<Rightarrow> (string \<times> json) list result" where
  "read_start client data = bindE (client 0 ''/get-block'' [(''include_data'', JStr ''true'')]) (\<lambda>v. Inr (AList.update ''start'' v data))"

definition read_player :: "api_client \<Rightarrow> (string \<times> json) list \<Rightarrow> (string \<times> json) list result" where
  "read_player client data =
     bindE (path (JDict data) [''start'', ''block'', ''id'']) (\<lambda>block_id.
     bindE (client 1 ''/get-player-data'' [(''block_id'', block_id), (''player_id'', get ''player_id'' data)]) (\<lambda>v.
       Inr (AList.update ''player_data'' v data)))"

definition read_end :: "api_client \<Rightarrow> (string \<times> json) list \<Rightarrow> (string \<times> json) list result" where
  "read_end client data = bindE (client 2 ''/get-block'' [(''include_data'', JStr ''true'')]) (\<lambda>v. Inr (AList.update ''end'' v data))"

definition failed_with :: "(string \<times> json) list \<Rightarrow> error \<Rightarrow> json" where
  "failed_with data e = JDict (AList.update ''error'' (JStr (class_name e)) data)"

definition capture_funding :: "env \<Rightarrow> api_client \<Rightarrow> json \<Rightarrow> json \<Rightarrow> json result" where
  "capture_funding env client base_url player_id =
     bindE (address player_id) (\<lambda>player.
     let data = [(''version'', JInt 1), (''player_id'', JStr player), (''api_origin'', base_url),
           (''checked_at'', JStr (isoformat env (clock env))), (''error'', JNull)] in
     Inr (case read_start client data of Inl e \<Rightarrow> failed_with data e | Inr data \<Rightarrow>
       (case read_player client data of Inl e \<Rightarrow> failed_with data e | Inr data \<Rightarrow>
       (case read_end client data of Inl e \<Rightarrow> failed_with data e | Inr data \<Rightarrow>
       (case verify_funding env (JDict data) of Inl e \<Rightarrow> failed_with data e | Inr _ \<Rightarrow> JDict data)))))"

section \<open>Recording\<close>

abbreviation topup_tables :: "pool \<Rightarrow> funding_tables" where "topup_tables p \<equiv> topup_funding p"

definition fact_row_of :: "string \<Rightarrow> string \<Rightarrow> topup_fact \<Rightarrow> topup_fact_row" where
  "fact_row_of player capture_id t = \<lparr>ff_topup_id = tu_id t, ff_player_id = player, ff_tx_hash = tu_tx_hash t, ff_log_index = tu_log_index t,
     ff_amount = tu_amount t, ff_height = tu_height t, ff_capture_id = capture_id\<rparr>"

text \<open>A fact by its identity or by its event; a new one is recorded, a different one conflicts.\<close>

definition known_topup :: "string \<Rightarrow> topup_fact \<Rightarrow> topup_fact_row list \<Rightarrow> topup_fact_row option" where
  "known_topup player t rows = List.find (\<lambda>f. ff_topup_id f = tu_id t \<or>
     (ff_player_id f = player \<and> ff_tx_hash f = tu_tx_hash t \<and> ff_log_index f = tu_log_index t)) rows"

definition confirm_topup :: "string \<Rightarrow> string \<Rightarrow> topup_fact \<Rightarrow> topup_fact_row list \<times> bool \<Rightarrow> topup_fact_row list \<times> bool" where
  "confirm_topup player capture_id t = (\<lambda>(rows, conflicting).
     case known_topup player t rows of
       Some f \<Rightarrow> (rows, conflicting \<or> f \<noteq> fact_row_of player (ff_capture_id f) t)
     | None \<Rightarrow> (rows @ [fact_row_of player capture_id t], conflicting))"

text \<open>A top-up that is pending again although it was confirmed at or before this height.\<close>

definition unconfirmed :: "int \<Rightarrow> topup_fact_row list \<Rightarrow> json \<Rightarrow> bool" where
  "unconfirmed height facts row =
     (case row of JDict items \<Rightarrow> get ''state'' items = JNull \<and>
        (case lookup ff_topup_id (identity_of (get ''id'' items)) facts of None \<Rightarrow> False | Some f \<Rightarrow> ff_height f \<le> height)
      | _ \<Rightarrow> False)"

definition topup_rows :: "json \<Rightarrow> json list" where
  "topup_rows data = (case path data [''player_data'', ''topups''] of Inr (JList rows) \<Rightarrow> rows | _ \<Rightarrow> [])"

text \<open>What a text column holds of a value; PostgreSQL's rendering of a list or an object is not modelled.\<close>

definition text_column :: "json \<Rightarrow> string option result" where
  "text_column v =
     (case v of
        JNull \<Rightarrow> Inr None
      | JStr s \<Rightarrow> Inr (Some s)
      | JInt n \<Rightarrow> Inr (Some (int_text n))
      | JBool b \<Rightarrow> Inr (Some (if b then ''true'' else ''false''))
      | JFloat s \<Rightarrow> Inr (Some s)
      | _ \<Rightarrow> Inl (IntegrityError ''funding_captures''))"

record funding_record =
  fr_capture_id :: string
  fr_complete :: bool
  fr_error :: "string option"

definition funding_owner :: "string \<Rightarrow> bool \<Rightarrow> pool \<Rightarrow> pool result" where
  "funding_owner player whole p =
     (if protocol_identity p \<noteq> None \<and> protocol_identity p \<noteq> Some player then Inl (Conflict ''protocol funding identity changed'')
      else if (case custody_identity p of None \<Rightarrow> False | Some c \<Rightarrow> ci_wallet c \<noteq> player)
      then Inl (Conflict ''direct protocol funding requires custody and benchmarker addresses to match'')
      else Inr (if whole then p\<lparr>protocol_identity := Some player\<rparr> else p))"

definition funding_capture_of :: "env \<Rightarrow> string \<Rightarrow> json \<Rightarrow> string \<Rightarrow> timestamp \<Rightarrow> funding_snapshot result \<Rightarrow> funding_capture_row result" where
  "funding_capture_of env identity data player checked verified =
     bindE (case verified of Inl _ \<Rightarrow> Inr None | Inr s \<Rightarrow> text_column (fn_block_id s)) (\<lambda>block_id.
       Inr \<lparr>fc_id = identity, fc_player_id = player, fc_block_id = block_id,
         fc_height = (case verified of Inl _ \<Rightarrow> None | Inr s \<Rightarrow> Some (fn_height s)),
         fc_available = (case verified of Inl _ \<Rightarrow> None | Inr s \<Rightarrow> Some (fn_available s)), fc_checked_at = checked,
         fc_complete = (case verified of Inl _ \<Rightarrow> False | Inr _ \<Rightarrow> True),
         fc_error = (case verified of Inl e \<Rightarrow> Some (class_name e) | Inr _ \<Rightarrow> None),
         fc_created_at = clock env, fc_payload = data, fc_expired_at = None\<rparr>)"

definition insert_capture :: "funding_capture_row \<Rightarrow> pool \<Rightarrow> pool" where
  "insert_capture c p = (if lookup fc_id (fc_id c) (funding_captures p) = None then p\<lparr>funding_captures := funding_captures p @ [c]\<rparr> else p)"

definition funding_alert :: "env \<Rightarrow> string \<Rightarrow> pool \<Rightarrow> pool" where
  "funding_alert env capture_id p =
     (if lookup fa_capture_id capture_id (funding_alerts p) = None
      then p\<lparr>funding_alerts := funding_alerts p @ [\<lparr>fa_capture_id = capture_id,
        fa_details = JDict [(''kind'', JStr ''confirmed-topup-conflict''), (''reason'', JStr ''Previously confirmed top-up identity or facts changed'')],
        fa_created_at = clock env\<rparr>]\<rparr> else p)"

text \<open>The facts of a complete capture, and whether they contradict those recorded.\<close>

definition confirm_topups :: "string \<Rightarrow> string \<Rightarrow> json \<Rightarrow> funding_snapshot \<Rightarrow> pool \<Rightarrow> pool \<times> bool" where
  "confirm_topups player capture_id data s p =
     (case fold (confirm_topup player capture_id) (fn_topups s) (protocol_topup_facts (topup_tables p), False) of
        (facts, changed) \<Rightarrow>
          (p\<lparr>topup_funding := (topup_tables p)\<lparr>protocol_topup_facts := facts\<rparr>\<rparr>,
           changed \<or> list_ex (unconfirmed (fn_height s) facts) (topup_rows data)))"

definition record_funding :: "env \<Rightarrow> json \<Rightarrow> pool \<Rightarrow> (funding_record \<times> pool) result" where
  "record_funding env data p =
     (let identity = fingerprint env data; verified = verify_funding env data in
      bindE (bindE (subscript data ''player_id'') address) (\<lambda>player.
      bindE (bindE (subscript data ''checked_at'') (checked_time env ''protocol capture time requires timezone'')) (\<lambda>checked.
      bindE (funding_owner player (case verified of Inl _ \<Rightarrow> False | Inr _ \<Rightarrow> True) p) (\<lambda>p.
      bindE (funding_capture_of env identity data player checked verified) (\<lambda>c.
      let p = insert_capture c p in
      case verified of
        Inl e \<Rightarrow> Inr (\<lparr>fr_capture_id = identity, fr_complete = False, fr_error = Some (class_name e)\<rparr>, p)
      | Inr s \<Rightarrow>
          (case confirm_topups player identity data s p of
             (p, conflicting) \<Rightarrow>
               Inr (\<lparr>fr_capture_id = identity, fr_complete = \<not> conflicting,
                      fr_error = (if conflicting then Some ''confirmed-topup-conflict'' else None)\<rparr>,
                 if conflicting then funding_alert env identity p else p)))))))"

section \<open>Reading back\<close>

definition read_capture :: "env \<Rightarrow> string \<Rightarrow> pool \<Rightarrow> json result" where
  "read_capture env identity p =
     (case lookup fc_id identity (funding_captures p) of
        None \<Rightarrow> Inl (FundsError ''unknown protocol funding capture'')
      | Some c \<Rightarrow>
          if fc_expired_at c \<noteq> None then Inl (FundsError ''protocol funding capture payload expired under the retention policy'')
          else if sha256 env (canonical (fc_payload c)) \<noteq> identity then Inl (Conflict ''protocol funding archive checksum differs'')
          else Inr (sort_keys (fc_payload c)))"

definition read_funding :: "env \<Rightarrow> string \<Rightarrow> pool \<Rightarrow> funding_snapshot result" where
  "read_funding env identity p = bindE (read_capture env identity p) (verify_funding env)"

end
