(* ===== verification/Topups.thy ===== *)
theory Topups
  imports Funding Withdrawals
begin

text \<open>
  \<open>pool_manager/pool_v2/topups.py\<close>: the operator tops up the pool's protocol fee balance from
  custody. The send is prepared under a reserved nonce, its cash is settled against the
  finalized transaction of that nonce, and the protocol balance is credited only when the
  protocol itself has confirmed the same token event.
\<close>

section \<open>Preparing a top-up\<close>

definition topup_held :: "string \<Rightarrow> asset \<Rightarrow> string" where
  "topup_held identity a = ''operator:topup:'' @ identity @ '':'' @ asset_text a"

definition topup_key :: "string \<Rightarrow> string \<Rightarrow> string" where
  "topup_key identity kind = ''topup:'' @ identity @ '':'' @ kind"

definition topup_wallet :: "env \<Rightarrow> custody_preflight \<Rightarrow> pool \<Rightarrow> unit result" where
  "topup_wallet env preflight p =
     (if (backing (ledger p) AssetTIG Custody, backing (ledger p) AssetNATIVE Custody) \<noteq>
         (pf_token_balance preflight, pf_native_balance preflight)
      then Inl (Conflict ''wallet balances do not reconcile before top-up'') else
      bindE (observer_status_of env p) (\<lambda>wallet.
        if os_initialized wallet \<and> \<not> os_ready wallet
        then Inl (Conflict ''custody observer requires reconciliation before top-up'') else Inr ()))"

definition topup_observation :: "env \<Rightarrow> string \<Rightarrow> pool \<Rightarrow> unit result" where
  "topup_observation env policy_capture p =
     bindE (funding_status_of env p) (\<lambda>protocol.
       if \<not> fs_ready protocol then Inl (Conflict ''protocol fee balance requires reconciliation before another top-up'')
       else if map_option fc_id (fs_observation protocol) \<noteq> Some policy_capture
       then Inl (Conflict ''top-up must use the most recent protocol policy observation'') else Inr ())"

text \<open>The guards of a new top-up, in the order of the code.\<close>

definition topup_guards :: "env \<Rightarrow> custody_preflight \<Rightarrow> string \<Rightarrow> funding_snapshot \<Rightarrow> int \<Rightarrow> int \<Rightarrow> pool \<Rightarrow> unit result" where
  "topup_guards env preflight policy_capture snapshot amount fee_limit p =
     bindE (prohibit_topup p) (\<lambda>_.
     let age = clock env - pf_checked_at preflight; policy_age = clock env - fn_checked_at snapshot; net = pf_network preflight in
     if \<not> (seconds (-5) \<le> age \<and> age \<le> seconds 20) \<or> \<not> (seconds (-5) \<le> policy_age \<and> policy_age \<le> seconds 120)
     then Inl (Conflict ''top-up preflight or protocol policy is stale'')
     else if \<not> net_require_finalized net \<or> net_custody net \<noteq> fn_player_id snapshot
     then Inl (Conflict ''top-up must fund the same finalized custody and benchmarker account'')
     else if amount < fn_minimum snapshot then Inl (FundsError ''top-up amount is below the captured protocol minimum'') else
     bindE (topup_wallet env preflight p) (\<lambda>_.
     bindE (topup_observation env policy_capture p) (\<lambda>_. check_gas env fee_limit p)))"

definition new_topup :: "env \<Rightarrow> string \<Rightarrow> string \<Rightarrow> custody_preflight \<Rightarrow> string \<Rightarrow> string \<Rightarrow> int \<Rightarrow> int \<Rightarrow> string \<Rightarrow> string \<Rightarrow>
    protocol_topup_row" where
  "new_topup env new_id request_key preflight policy_capture recipient amount fee_limit fee_model actor =
     \<lparr>pt_id = new_id, pt_request_key = request_key, pt_amount = amount, pt_fee_limit = fee_limit,
       pt_network = pf_network preflight, pt_recipient = recipient, pt_fee_model = fee_model, pt_policy_capture = policy_capture,
       pt_preflight = preflight, pt_actor = actor, pt_state = ''uncertain'', pt_sent_at = clock env\<rparr>"

definition topup_reserve_movements :: "protocol_topup_row \<Rightarrow> movement list" where
  "topup_reserve_movements t =
     [(operator_tig, - pt_amount t), (topup_held (pt_id t) AssetTIG, pt_amount t),
      (operator_native, - pt_fee_limit t), (topup_held (pt_id t) AssetNATIVE, pt_fee_limit t)]"

text \<open>Reserve the nonce, hold the amount and the gas budget, and record the top-up.\<close>

definition open_topup :: "env \<Rightarrow> string \<Rightarrow> protocol_topup_row \<Rightarrow> pool \<Rightarrow> (protocol_topup_row \<times> pool) result" where
  "open_topup env jid t p =
     bindE (reserve_nonce (pt_id t) (pt_network t) (pf_nonce (pt_preflight t)) ''protocol_topup'' p) (\<lambda>(_, p).
     bindE (on_ledger (account (topup_held (pt_id t) AssetTIG) KOperatorCommitment AssetTIG Custody) p) (\<lambda>(_, p).
     bindE (on_ledger (account (topup_held (pt_id t) AssetNATIVE) KOperatorCommitment AssetNATIVE Custody) p) (\<lambda>(_, p).
     bindE (on_ledger (post env jid (topup_key (pt_id t) ''reserve'') ''operator_topup_reservation'' (topup_reserve_movements t)
              (JDict [(''actor'', JStr (pt_actor t)), (''policy_capture'', JStr (pt_policy_capture t))]) None) p) (\<lambda>(_, p).
       if lookup pt_id (pt_id t) (protocol_topups p) \<noteq> None then Inl (IntegrityError ''protocol_topups'')
       else Inr (t, p\<lparr>protocol_topups := protocol_topups p @ [t]\<rparr>)))))"

definition begin_topup :: "env \<Rightarrow> string \<Rightarrow> string \<Rightarrow> string \<Rightarrow> custody_preflight \<Rightarrow> string \<Rightarrow> int \<Rightarrow> int \<Rightarrow> string \<Rightarrow> string \<Rightarrow> pool \<Rightarrow>
    (protocol_topup_row \<times> pool) result" where
  "begin_topup env new_id jid request_key preflight policy_capture amount fee_limit fee_model actor p =
     bindE (units True (JInt amount)) (\<lambda>_. bindE (units True (JInt fee_limit)) (\<lambda>_.
     if fee_model \<notin> set FEE_MODELS \<or> amount \<ge> 2 ^ 256 \<or> \<not> (1 \<le> length actor \<and> length actor \<le> 128)
        \<or> \<not> (1 \<le> length request_key \<and> length request_key \<le> 128)
     then Inl (FundsError ''top-up requires a verified preflight, fee rule, operator and bounded request key'') else
     bindE (read_funding env policy_capture p) (\<lambda>snapshot.
     bindE (bind (pf_network preflight) p) (\<lambda>(_, p).
     case lookup pt_request_key request_key (protocol_topups p) of
       Some previous \<Rightarrow>
         if (pt_amount previous, pt_fee_limit previous, pt_actor previous) \<noteq> (amount, fee_limit, actor)
         then Inl (Conflict ''top-up request key was reused'') else Inr (previous, p)
     | None \<Rightarrow>
         bindE (topup_guards env preflight policy_capture snapshot amount fee_limit p) (\<lambda>_.
           open_topup env jid (new_topup env new_id request_key preflight policy_capture (fn_recipient snapshot)
             amount fee_limit fee_model actor) p)))))"

section \<open>Instructions\<close>

record topup_instructions =
  ti_topup :: protocol_topup_row
  ti_chain_id :: int
  ti_sender :: string
  ti_nonce :: int
  ti_tx_hash :: "string option"
  ti_transfer_event :: "string option"
  ti_fee :: "int option"
  ti_token :: string
  ti_transaction :: wallet_transaction

definition topup_instructions_of :: "string \<Rightarrow> pool \<Rightarrow> topup_instructions result" where
  "topup_instructions_of identity p =
     (case (lookup pt_id identity (protocol_topups p), lookup cs_id identity (custody_sends p)) of
        (Some t, Some s) \<Rightarrow>
          let paid = lookup cp_send_id identity (custody_payments p); token = net_token (pt_network t) in
          Inr \<lparr>ti_topup = t, ti_chain_id = cs_chain_id s, ti_sender = cs_sender s, ti_nonce = cs_nonce s,
            ti_tx_hash = map_option cp_tx_hash paid, ti_transfer_event = Option.bind paid cp_transfer_event,
            ti_fee = map_option cp_fee paid, ti_token = token,
            ti_transaction = \<lparr>wt_from = cs_sender s, wt_to = token, wt_chain_id = hex_text (cs_chain_id s),
              wt_nonce = hex_text (cs_nonce s), wt_value = ''0x0'', wt_data = transfer_call (pt_recipient t) (pt_amount t)\<rparr>\<rparr>
      | _ \<Rightarrow> Inl (FundsError ''unknown operator top-up''))"

definition claim_topup :: "string \<Rightarrow> json \<Rightarrow> string \<Rightarrow> pool \<Rightarrow> (unit \<times> pool) result" where
  "claim_topup identity hash actor p =
     bindE (hex_bytes 32 hash) (\<lambda>h.
       if actor = [] then Inl (FundsError ''operator identity required'')
       else if lookup pt_id identity (protocol_topups p) = None then Inl (FundsError ''unknown operator top-up'') else
       let claims = topup_transaction_claims (topup_tables p) in
       Inr ((), if \<exists>c \<in> set claims. (tk_send_id c, tk_tx_hash c) = (identity, h) then p
         else p\<lparr>topup_funding := (topup_tables p)\<lparr>topup_transaction_claims :=
           claims @ [\<lparr>tk_send_id = identity, tk_tx_hash = h, tk_actor = actor\<rparr>]\<rparr>\<rparr>))"

section \<open>Settling the cash\<close>

definition topup_transfer_matches :: "topup_instructions \<Rightarrow> confirmed_transaction \<Rightarrow> confirmed_transfer \<Rightarrow> bool" where
  "topup_transfer_matches i t tf \<longleftrightarrow> (let net = pt_network (ti_topup i) in
     (net_chain_id (tf_network tf), net_token (tf_network tf), net_custody (tf_network tf), tf_sender tf, tf_recipient tf,
      tf_amount tf, tf_tx_hash tf, tf_block_hash tf) =
     (net_chain_id net, net_token net, net_custody net, ti_sender i, pt_recipient (ti_topup i),
      pt_amount (ti_topup i), tx_hash t, tx_block_hash t))"

text \<open>\<open>_transaction(row, transaction, transfer)\<close>.\<close>

definition topup_transaction :: "topup_instructions \<Rightarrow> confirmed_transaction \<Rightarrow> confirmed_transfer option \<Rightarrow> unit result" where
  "topup_transaction i t transfer =
     (let topup = ti_topup i; net = pt_network topup; tn = tx_network t in
      if (net_chain_id tn, net_token tn, net_custody tn, tx_sender t, tx_nonce t, tx_fee_model t) \<noteq>
         (net_chain_id net, net_token net, net_custody net, ti_sender i, ti_nonce i, pt_fee_model topup)
      then Inl (Conflict ''top-up transaction differs from the frozen route, nonce or fee rule'')
      else if \<not> net_require_finalized tn \<or> net_confirmations tn < net_confirmations net
      then Inl (Conflict ''top-up confirmation policy cannot be weakened'')
      else if tx_block_number t \<le> pf_block_number (pt_preflight topup) \<or> tx_block_timestamp t + seconds 5 < pt_sent_at topup
      then Inl (Conflict ''top-up transaction predates the recorded intent'') else
      case transfer of
        None \<Rightarrow> Inr ()
      | Some tf \<Rightarrow>
          if \<not> net_require_finalized (tf_network tf) \<or> net_confirmations (tf_network tf) < net_confirmations net
          then Inl (Conflict ''top-up confirmation policy cannot be weakened'')
          else if \<not> topup_transfer_matches i t tf
          then Inl (Conflict ''top-up token event does not match the full frozen amount and destination'') else Inr ())"

datatype topup_outcome = TopupFailed | TopupCancelled | TopupAwaiting

fun topup_outcome_text :: "topup_outcome \<Rightarrow> string" where
  "topup_outcome_text TopupFailed = ''failed''"
| "topup_outcome_text TopupCancelled = ''cancelled''"
| "topup_outcome_text TopupAwaiting = ''awaiting_protocol''"

definition topup_result :: "topup_instructions \<Rightarrow> confirmed_transaction \<Rightarrow> confirmed_transfer option \<Rightarrow> pool \<Rightarrow>
    (topup_outcome \<times> pool) result" where
  "topup_result i t transfer p =
     (if \<not> tx_successful t then
        (if transfer \<noteq> None then Inl (Conflict ''failed top-up cannot contain a successful token event'') else Inr (TopupFailed, p))
      else case transfer of
        Some tf \<Rightarrow>
          if tx_recipient t \<noteq> Some (ti_token i) \<or> tx_value t \<noteq> 0
          then Inl (Conflict ''top-up requires the frozen direct token transaction; reconcile other wallet costs explicitly'') else
          bindE (save_transfer tf p) (\<lambda>(_, p). Inr (TopupAwaiting, p))
      | None \<Rightarrow>
          bindE (empty_self_send t) (\<lambda>empty.
            if \<not> empty then Inl (Conflict ''unmatched successful top-up needs explicit wallet reconciliation'')
            else Inr (TopupCancelled, p)))"

definition cash_movements :: "protocol_topup_row \<Rightarrow> topup_outcome \<Rightarrow> int \<Rightarrow> movement list" where
  "cash_movements topup outcome fee =
     [(topup_held (pt_id topup) AssetTIG, - pt_amount topup),
      (if outcome = TopupAwaiting then ''external:custody:TIG'' else operator_tig, pt_amount topup),
      (topup_held (pt_id topup) AssetNATIVE, - pt_fee_limit topup),
      (operator_native, pt_fee_limit topup - fee), (''external:custody:NATIVE'', fee)]"

definition update_topup :: "string \<Rightarrow> string \<Rightarrow> pool \<Rightarrow> pool" where
  "update_topup identity state p = p\<lparr>protocol_topups := modify pt_id identity (\<lambda>t. t\<lparr>pt_state := state\<rparr>) (protocol_topups p)\<rparr>"

record topup_report =
  tp_id :: string
  tp_state :: string
  tp_fee :: int

definition record_topup :: "env \<Rightarrow> string \<Rightarrow> topup_instructions \<Rightarrow> confirmed_transaction \<Rightarrow> confirmed_transfer option \<Rightarrow>
    topup_outcome \<Rightarrow> pool \<Rightarrow> (topup_report \<times> pool) result" where
  "record_topup env jid i t transfer outcome p =
     (let topup = ti_topup i; identity = pt_id topup; transfer_event = map_option event_id transfer in
      bindE (on_ledger (post env jid (topup_key identity ''cash'') (''operator_topup_'' @ topup_outcome_text outcome)
               (cash_movements topup outcome (tx_fee t))
               (JDict [(''tx_hash'', JStr (tx_hash t)), (''transfer_event'', optional_text transfer_event),
                 (''fee'', JInt (tx_fee t)), (''fee_model'', JStr (tx_fee_model t))]) None) p) (\<lambda>(journal_id, p).
      bindE (record_payment identity t transfer_event journal_id None None None p) (\<lambda>(_, p).
        Inr (\<lparr>tp_id = identity, tp_state = topup_outcome_text outcome, tp_fee = tx_fee t\<rparr>,
          update_topup identity (topup_outcome_text outcome) p))))"

definition settle_topup :: "env \<Rightarrow> string \<Rightarrow> topup_instructions \<Rightarrow> confirmed_transaction \<Rightarrow> confirmed_transfer option \<Rightarrow> pool \<Rightarrow>
    (topup_report \<times> pool) result" where
  "settle_topup env jid i t transfer p =
     bindE (bind (tx_network t) p) (\<lambda>(_, p).
     case lookup pt_id (pt_id (ti_topup i)) (protocol_topups p) of
       None \<Rightarrow> Inl TypeError
     | Some topup \<Rightarrow>
         (case lookup cp_send_id (pt_id topup) (custody_payments p) of
            Some previous \<Rightarrow>
              if cp_tx_hash previous \<noteq> tx_hash t \<or> cp_transfer_event previous \<noteq> map_option event_id transfer
              then Inl (Conflict ''top-up already has a different final transaction or token event'')
              else Inr (\<lparr>tp_id = pt_id topup, tp_state = pt_state topup, tp_fee = cp_fee previous\<rparr>, p)
          | None \<Rightarrow>
              if pt_state topup \<noteq> ''uncertain'' then Inl (Conflict ''top-up no longer has an unresolved send'') else
              bindE (topup_result i t transfer p) (\<lambda>(outcome, p). record_topup env jid i t transfer outcome p)))"

text \<open>The evidence of a matching transaction is kept even when the settlement then fails.\<close>

definition reconcile_topup :: "env \<Rightarrow> string \<Rightarrow> string \<Rightarrow> confirmed_transaction \<Rightarrow> confirmed_transfer option \<Rightarrow> pool \<Rightarrow>
    topup_report result \<times> pool" where
  "reconcile_topup env jid identity t transfer p =
     (case bindE (topup_instructions_of identity p) (\<lambda>i. bindE (topup_transaction i t None) (\<lambda>_. Inr i)) of
        Inl e \<Rightarrow> (Inl e, p)
      | Inr i \<Rightarrow>
          (case commit (save_transaction t) p of
             (Inl e, p) \<Rightarrow> (Inl e, p)
           | (Inr _, p) \<Rightarrow>
               (case topup_transaction i t transfer of
                  Inl e \<Rightarrow> (Inl e, p)
                | Inr _ \<Rightarrow> commit (settle_topup env jid i t transfer) p)))"

section \<open>The protocol credit\<close>

definition event_matches :: "funding_snapshot \<Rightarrow> topup_instructions \<Rightarrow> pool \<Rightarrow> topup_fact list result" where
  "event_matches snapshot i p =
     (case Option.bind (ti_transfer_event i) (\<lambda>e. lookup tr_event_id e (transfers p)) of
        None \<Rightarrow> if fn_topups snapshot = [] then Inr [] else Inl TypeError
      | Some tr \<Rightarrow> Inr (filter (\<lambda>f. (tu_tx_hash f, tu_log_index f, tu_amount f) =
          (tr_tx_hash tr, tr_log_index tr, pt_amount (ti_topup i))) (fn_topups snapshot)))"

definition credit_movements :: "protocol_topup_row \<Rightarrow> movement list" where
  "credit_movements topup = [(''external:protocol:TIG'', - pt_amount topup), (OPERATOR_FEES, pt_amount topup)]"

definition insert_credit :: "topup_credit_row \<Rightarrow> pool \<Rightarrow> (topup_credit_row \<times> pool) result" where
  "insert_credit c p =
     (if lookup fc_id (tc_capture_id c) (funding_captures p) = None \<or> lookup jr_id (tc_journal_id c) (journals (ledger p)) = None
      then Inl (IntegrityError ''protocol_topup_credits'')
      else Inr (c, p\<lparr>topup_funding := (topup_tables p)\<lparr>protocol_topup_credits := protocol_topup_credits (topup_tables p) @ [c]\<rparr>\<rparr>))"

definition book_credit_of :: "env \<Rightarrow> string \<Rightarrow> string \<Rightarrow> protocol_topup_row \<Rightarrow> string \<Rightarrow> topup_fact \<Rightarrow> pool \<Rightarrow> (topup_credit_row \<times> pool) result" where
  "book_credit_of env jid capture_id topup transfer_event proven p =
     bindE (on_ledger (post env jid (topup_key (pt_id topup) ''protocol'') ''operator_protocol_funding'' (credit_movements topup)
              (JDict [(''topup_id'', JStr (tu_id proven)), (''capture_id'', JStr capture_id),
                (''transfer_event'', JStr transfer_event)]) None) p) (\<lambda>(journal_id, p).
     bindE (insert_credit \<lparr>tc_send_id = pt_id topup, tc_topup_id = tu_id proven, tc_capture_id = capture_id,
              tc_transfer_event = transfer_event, tc_journal_id = journal_id\<rparr> p) (\<lambda>(c, p).
       Inr (c, update_topup (pt_id topup) ''credited'' p)))"

definition credit_new :: "env \<Rightarrow> string \<Rightarrow> string \<Rightarrow> funding_snapshot \<Rightarrow> topup_instructions \<Rightarrow> pool \<Rightarrow> (topup_credit_row \<times> pool) result" where
  "credit_new env jid capture_id snapshot i p =
     bindE (event_matches snapshot i p) (\<lambda>matches.
       case matches of
         [proven] \<Rightarrow>
           if \<exists>c \<in> set (protocol_topup_credits (topup_tables p)).
                tc_topup_id c = tu_id proven \<or> Some (tc_transfer_event c) = ti_transfer_event i
           then Inl (Conflict ''protocol top-up credit has already been consumed'')
           else book_credit_of env jid capture_id (ti_topup i) (the (ti_transfer_event i)) proven p
       | _ \<Rightarrow> Inl (Conflict ''TIG has not uniquely confirmed this exact top-up event''))"

definition credit_topup :: "env \<Rightarrow> string \<Rightarrow> string \<Rightarrow> string \<Rightarrow> pool \<Rightarrow> (topup_credit_row \<times> pool) result" where
  "credit_topup env jid identity capture_id p =
     bindE (read_funding env capture_id p) (\<lambda>snapshot.
     bindE (topup_instructions_of identity p) (\<lambda>i.
     if fn_player_id snapshot \<noteq> ti_sender i then Inl (Conflict ''protocol confirmation belongs to another account'') else
     bindE (bind (pt_network (ti_topup i)) p) (\<lambda>(_, p).
     if funding_alerts p \<noteq> [] then Inl (Conflict ''confirmed protocol top-up history requires reconciliation before credit'') else
     case lookup tc_send_id identity (protocol_topup_credits (topup_tables p)) of
       Some old \<Rightarrow> Inr (old, p)
     | None \<Rightarrow>
         if pt_state (ti_topup i) \<noteq> ''awaiting_protocol''
         then Inl (Conflict ''verified outgoing token transfer is required before protocol credit'')
         else credit_new env jid capture_id snapshot i p)))"

end
