(* ===== verification/Topup_Safety.thy ===== *)
theory Topup_Safety
  imports Topups Withdrawal_Safety
begin

text \<open>
  What top-ups keep true: the accounts of an unresolved top-up hold exactly its amount and its
  gas budget, those of any other hold nothing; each of its journals is booked only in the state
  it belongs to; and no protocol top-up and no token event is credited twice.
\<close>

section \<open>Names\<close>

lemma asset_text_no_colon [simp]: "CHR '':'' \<notin> set (asset_text a)"
  by (cases a) simp_all

lemma topup_names [simp]:
  "topup_held i a = topup_held j b \<longleftrightarrow> i = j \<and> a = b"
  "topup_held i a \<noteq> operator_tig" "operator_tig \<noteq> topup_held i a" "topup_held i a \<noteq> operator_native" "operator_native \<noteq> topup_held i a"
  "topup_held i a \<noteq> ''external:custody:TIG''" "''external:custody:TIG'' \<noteq> topup_held i a"
  "topup_held i a \<noteq> ''external:custody:NATIVE''" "''external:custody:NATIVE'' \<noteq> topup_held i a"
  "topup_held i a \<noteq> ''external:protocol:TIG''" "''external:protocol:TIG'' \<noteq> topup_held i a"
  "topup_held i a \<noteq> OPERATOR_FEES" "OPERATOR_FEES \<noteq> topup_held i a"
proof -
  have "asset_text a = asset_text b \<longleftrightarrow> a = b" by (cases a; cases b) simp_all
  then show "topup_held i a = topup_held j b \<longleftrightarrow> i = j \<and> a = b"
    using split_last_colon [of "''operator:topup:'' @ i" "asset_text a" "''operator:topup:'' @ j" "asset_text b"]
    by (auto simp: topup_held_def)
qed (simp_all add: topup_held_def OPERATOR_FEES_def)

lemma topup_key_inject [simp]:
  "CHR '':'' \<notin> set k \<Longrightarrow> CHR '':'' \<notin> set k' \<Longrightarrow> topup_key i k = topup_key j k' \<longleftrightarrow> i = j \<and> k = k'"
  using split_last_colon [of "''topup:'' @ i" k "''topup:'' @ j" k'] by (auto simp: topup_key_def)

definition topup_journals :: "string \<Rightarrow> bool" where
  "topup_journals k \<longleftrightarrow> (\<exists>i kind. k = topup_key i kind)"

definition topup_holds :: "string \<Rightarrow> bool" where
  "topup_holds k \<longleftrightarrow> (\<exists>i a. k = topup_held i a)"

text \<open>The accounts a top-up moves funds between.\<close>

definition topup_accounts :: "string \<Rightarrow> bool" where
  "topup_accounts k \<longleftrightarrow> topup_holds k \<or> k = operator_tig \<or> k = operator_native \<or> k = ''external:custody:TIG'' \<or>
     k = ''external:custody:NATIVE'' \<or> k = ''external:protocol:TIG'' \<or> k = OPERATOR_FEES"

lemma topup_accounts_simps [simp]: "topup_journals (topup_key i kind)" "topup_accounts (topup_held i a)" "topup_accounts operator_tig"
  "topup_accounts operator_native" "topup_accounts ''external:custody:TIG''" "topup_accounts ''external:custody:NATIVE''"
  "topup_accounts ''external:protocol:TIG''" "topup_accounts OPERATOR_FEES"
  by (auto simp: topup_journals_def topup_accounts_def topup_holds_def)

section \<open>The invariant\<close>

definition topup_due :: "(protocol_topup_row \<Rightarrow> int) \<Rightarrow> protocol_topup_row option \<Rightarrow> int" where
  "topup_due f t = (case t of None \<Rightarrow> 0 | Some t \<Rightarrow> if pt_state t = ''uncertain'' then f t else 0)"

text \<open>What the two balances, the three journals, the row and the credit of one top-up agree on.\<close>

definition topup_row_ok :: "int \<Rightarrow> int \<Rightarrow> bool \<Rightarrow> bool \<Rightarrow> bool \<Rightarrow> protocol_topup_row option \<Rightarrow> topup_credit_row option \<Rightarrow> bool" where
  "topup_row_ok tig native reserved cash credited t c \<longleftrightarrow>
     tig = topup_due pt_amount t \<and> native = topup_due pt_fee_limit t \<and> (reserved \<longrightarrow> t \<noteq> None) \<and>
     (cash \<longrightarrow> (case t of None \<Rightarrow> False | Some t \<Rightarrow> pt_state t \<noteq> ''uncertain'')) \<and> (credited \<longrightarrow> c \<noteq> None) \<and>
     (c \<noteq> None \<longleftrightarrow> (case t of None \<Rightarrow> False | Some t \<Rightarrow> pt_state t = ''credited''))"

definition topup_money_ok :: "ledger_state \<Rightarrow> protocol_topup_row list \<Rightarrow> topup_credit_row list \<Rightarrow> bool" where
  "topup_money_ok led ts cs \<longleftrightarrow> (\<forall>i. topup_row_ok (balance led (topup_held i AssetTIG)) (balance led (topup_held i AssetNATIVE))
     (recorded led (topup_key i ''reserve'')) (recorded led (topup_key i ''cash'')) (recorded led (topup_key i ''protocol''))
     (lookup pt_id i ts) (lookup tc_send_id i cs))"

definition credits_once :: "topup_credit_row list \<Rightarrow> bool" where
  "credits_once cs \<longleftrightarrow> distinct (map tc_send_id cs) \<and> distinct (map tc_topup_id cs) \<and> distinct (map tc_transfer_event cs)"

definition topups_ok :: "pool \<Rightarrow> bool" where
  "topups_ok p \<longleftrightarrow> topup_money_ok (ledger p) (protocol_topups p) (protocol_topup_credits (topup_tables p)) \<and>
     credits_once (protocol_topup_credits (topup_tables p))"

text \<open>Operations of the other components leave top-ups alone.\<close>

lemma topups_ok_frame:
  assumes ok: "topups_ok p" and led: "ledger_by K A (ledger p) (ledger p')"
    and same: "protocol_topups p' = protocol_topups p"
      "protocol_topup_credits (topup_tables p') = protocol_topup_credits (topup_tables p)"
    and K: "\<And>k. K k \<Longrightarrow> \<not> topup_journals k" and A: "\<And>k. A k \<Longrightarrow> \<not> topup_holds k"
  shows "topups_ok p'"
proof -
  have "recorded (ledger p') (topup_key i kind) = recorded (ledger p) (topup_key i kind)" for i kind
    using K by (intro ledger_by_recorded [OF led]) force
  moreover have "balance (ledger p') (topup_held i a) = balance (ledger p) (topup_held i a)" for i a
    using A by (intro ledger_by_balance [OF led]) (auto simp: topup_holds_def)
  ultimately show ?thesis using ok by (simp add: topups_ok_def topup_money_ok_def same)
qed

lemma topup_money_account:
  assumes "topup_money_ok led ts cs" and "account k kind a loc led = Inr (j, led')"
  shows "topup_money_ok led' ts cs"
  using assms(1) account_cases(2) [OF assms(2)] account_recorded [OF assms(2)] by (simp add: topup_money_ok_def)

text \<open>A posting under a key of one top-up: what is left to show is about that top-up.\<close>

lemma topup_money_post:
  assumes money: "topup_money_ok led ts cs" and post: "post env jid (topup_key k kind) jkind mv det rv led = Inr (j, led')"
    and fresh: "\<not> recorded led (topup_key k kind)" and kind: "CHR '':'' \<notin> set kind"
    and other: "\<And>i a. i \<noteq> k \<Longrightarrow> amount_of mv (topup_held i a) = 0"
    and rows: "\<And>i. i \<noteq> k \<Longrightarrow> lookup pt_id i ts' = lookup pt_id i ts" "\<And>i. i \<noteq> k \<Longrightarrow> lookup tc_send_id i cs' = lookup tc_send_id i cs"
    and own: "topup_row_ok (balance led (topup_held k AssetTIG) + amount_of mv (topup_held k AssetTIG))
       (balance led (topup_held k AssetNATIVE) + amount_of mv (topup_held k AssetNATIVE))
       (recorded led (topup_key k ''reserve'') \<or> kind = ''reserve'') (recorded led (topup_key k ''cash'') \<or> kind = ''cash'')
       (recorded led (topup_key k ''protocol'') \<or> kind = ''protocol'') (lookup pt_id k ts') (lookup tc_send_id k cs')"
  shows "topup_money_ok led' ts' cs'"
  unfolding topup_money_ok_def
proof
  fix i
  have bal: "balance led' x = balance led x + amount_of mv x" for x
    by (rule post_balance [OF post]) (use fresh in \<open>simp add: recorded_def\<close>)
  note rec = post_recorded [OF post]
  show "topup_row_ok (balance led' (topup_held i AssetTIG)) (balance led' (topup_held i AssetNATIVE)) (recorded led' (topup_key i ''reserve''))
     (recorded led' (topup_key i ''cash'')) (recorded led' (topup_key i ''protocol'')) (lookup pt_id i ts') (lookup tc_send_id i cs')"
  proof (cases "i = k")
    case True
    with own kind show ?thesis by (simp add: bal rec eq_commute [of _ kind])
  next
    case False
    with money kind other [OF False] rows(1) [OF False] rows(2) [OF False] show ?thesis by (simp add: topup_money_ok_def bal rec)
  qed
qed

section \<open>Beginning\<close>

text \<open>Everything but the ledger, the custody tables and the top-ups stays as it is.\<close>

definition topup_step :: "pool \<Rightarrow> pool \<Rightarrow> bool" where
  "topup_step p p' \<longleftrightarrow> pool_by topup_journals topup_accounts p p' \<and>
     (withdrawals p', withdrawal_attempts p', withdrawal_attempt_outcomes p', rounds p') =
     (withdrawals p, withdrawal_attempts p, withdrawal_attempt_outcomes p, rounds p)"

lemma topup_step_refl [simp]: "topup_step p p"
  by (simp add: topup_step_def)

lemma topup_step_frame:
  "p' = p\<lparr>ledger := led, custody_identity := a, custody_sends := b, protocol_topups := c\<rparr> \<Longrightarrow>
   ledger_by topup_journals topup_accounts (ledger p) led \<Longrightarrow> topup_step p p'"
  by (simp add: topup_step_def pool_by_def)

lemma topup_step_trans: "topup_step p q \<Longrightarrow> topup_step q r \<Longrightarrow> topup_step p r"
  unfolding topup_step_def by (auto intro: pool_by_trans)

lemma topup_step_bind: "bind net p = Inr (u, q) \<Longrightarrow> topup_step p q"
  using bind_cases(1) [of net p u q] pool_by_bind [of net p u q] by (simp add: topup_step_def)

lemma topups_ok_bind: "bind net p = Inr (u, q) \<Longrightarrow> topups_ok q = topups_ok p"
  using bind_cases(1) [of net p u q] by (simp add: topups_ok_def)

lemma open_topup_cases:
  assumes "open_topup env jid t p = Inr (r, p')"
  obtains led1 led2 led j k l where "r = t" "lookup pt_id (pt_id t) (protocol_topups p) = None"
    "account (topup_held (pt_id t) AssetTIG) KOperatorCommitment AssetTIG Custody (ledger p) = Inr (k, led1)"
    "account (topup_held (pt_id t) AssetNATIVE) KOperatorCommitment AssetNATIVE Custody led1 = Inr (l, led2)"
    "post env jid (topup_key (pt_id t) ''reserve'') ''operator_topup_reservation'' (topup_reserve_movements t)
       (JDict [(''actor'', JStr (pt_actor t)), (''policy_capture'', JStr (pt_policy_capture t))]) None led2 = Inr (j, led)"
    "p' = p\<lparr>ledger := led, custody_identity := custody_identity p', custody_sends := custody_sends p',
       protocol_topups := protocol_topups p @ [t]\<rparr>"
proof -
  obtain q u where q: "reserve_nonce (pt_id t) (pt_network t) (pf_nonce (pt_preflight t)) ''protocol_topup'' p = Inr (u, q)"
    using assms unfolding open_topup_def bindE_Inr by auto
  note frame = reserve_nonce_Inr [OF q]
  have same: "ledger q = ledger p" "protocol_topups q = protocol_topups p" by (subst frame(1), simp)+
  obtain k led1 l led2 j led where led: "account (topup_held (pt_id t) AssetTIG) KOperatorCommitment AssetTIG Custody (ledger p) = Inr (k, led1)"
    "account (topup_held (pt_id t) AssetNATIVE) KOperatorCommitment AssetNATIVE Custody led1 = Inr (l, led2)"
    "post env jid (topup_key (pt_id t) ''reserve'') ''operator_topup_reservation'' (topup_reserve_movements t)
       (JDict [(''actor'', JStr (pt_actor t)), (''policy_capture'', JStr (pt_policy_capture t))]) None led2 = Inr (j, led)"
    and new: "lookup pt_id (pt_id t) (protocol_topups p) = None" "r = t"
    and p': "p' = q\<lparr>ledger := led, protocol_topups := protocol_topups p @ [t]\<rparr>"
    using assms unfolding open_topup_def by (auto simp: q bindE_Inr on_ledger_Inr raise_if_Inr same)
  show ?thesis
  proof (rule that [OF new(2,1) led])
    show "p' = p\<lparr>ledger := led, custody_identity := custody_identity p', custody_sends := custody_sends p',
       protocol_topups := protocol_topups p @ [t]\<rparr>"
      unfolding p' using arg_cong [OF frame(1), of "\<lambda>x. x\<lparr>ledger := led, protocol_topups := protocol_topups p @ [t]\<rparr>"] by simp
  qed
qed

lemma open_topup_effect:
  assumes ok: "topups_ok p" and run: "open_topup env jid t p = Inr (r, p')" and state: "pt_state t = ''uncertain''"
  shows "topups_ok p'" and "topup_step p p'" and "lookup pt_id (pt_id t) (protocol_topups p') = Some t"
    and "balance (ledger p') k = balance (ledger p) k + amount_of (topup_reserve_movements t) k"
proof -
  from run obtain led1 led2 led j k' l where new: "lookup pt_id (pt_id t) (protocol_topups p) = None"
    and acc: "account (topup_held (pt_id t) AssetTIG) KOperatorCommitment AssetTIG Custody (ledger p) = Inr (k', led1)"
      "account (topup_held (pt_id t) AssetNATIVE) KOperatorCommitment AssetNATIVE Custody led1 = Inr (l, led2)"
    and post: "post env jid (topup_key (pt_id t) ''reserve'') ''operator_topup_reservation'' (topup_reserve_movements t)
       (JDict [(''actor'', JStr (pt_actor t)), (''policy_capture'', JStr (pt_policy_capture t))]) None led2 = Inr (j, led)"
    and frame: "p' = p\<lparr>ledger := led, custody_identity := custody_identity p', custody_sends := custody_sends p',
       protocol_topups := protocol_topups p @ [t]\<rparr>" by (rule open_topup_cases)
  have led: "ledger p' = led" and ts: "protocol_topups p' = protocol_topups p @ [t]"
    and cs: "topup_tables p' = topup_tables p" by (subst frame, simp)+
  have money: "topup_money_ok led2 (protocol_topups p) (protocol_topup_credits (topup_tables p))"
    using ok topup_money_account [OF topup_money_account [OF _ acc(1)] acc(2)] by (simp add: topups_ok_def)
  then have own: "topup_row_ok (balance led2 (topup_held (pt_id t) AssetTIG)) (balance led2 (topup_held (pt_id t) AssetNATIVE))
     (recorded led2 (topup_key (pt_id t) ''reserve'')) (recorded led2 (topup_key (pt_id t) ''cash'')) (recorded led2 (topup_key (pt_id t) ''protocol''))
     (lookup pt_id (pt_id t) (protocol_topups p)) (lookup tc_send_id (pt_id t) (protocol_topup_credits (topup_tables p)))"
    by (simp add: topup_money_ok_def)
  then have fresh: "\<not> recorded led2 (topup_key (pt_id t) ''reserve'')" using new by (simp add: topup_row_ok_def)
  have "topup_money_ok led (protocol_topups p @ [t]) (protocol_topup_credits (topup_tables p))"
    by (rule topup_money_post [OF money post fresh])
      (use own new state in \<open>auto simp: topup_reserve_movements_def topup_row_ok_def topup_due_def lookup_append split: option.splits\<close>)
  then show "topups_ok p'" using ok by (simp add: topups_ok_def led ts cs)
  show "lookup pt_id (pt_id t) (protocol_topups p') = Some t" using new by (simp add: ts lookup_append)
  have "ledger_by topup_journals topup_accounts (ledger p) led"
    by (rule by_post [OF by_account [OF ledger_by_opened [OF acc(1)] acc(2)] post]) (auto simp: topup_reserve_movements_def)
  then show "topup_step p p'" by (rule topup_step_frame [OF frame])
  have "balance led k = balance led2 k + amount_of (topup_reserve_movements t) k"
    by (rule post_balance [OF post]) (use fresh in \<open>simp add: recorded_def\<close>)
  then show "balance (ledger p') k = balance (ledger p) k + amount_of (topup_reserve_movements t) k"
    using account_cases(2) [OF acc(1)] account_cases(2) [OF acc(2)] by (simp add: led)
qed

text \<open>What begins a top-up, and what recording chain facts leaves alone.\<close>

lemma begin_topup_cases:
  assumes "begin_topup env new_id jid key pre capture n limit model actor p = Inr (t, p')"
  obtains (old) "bind (pf_network pre) p = Inr ((), p')" "lookup pt_request_key key (protocol_topups p) = Some t"
      "pt_amount t = n" "pt_fee_limit t = limit" "pt_actor t = actor"
    | (new) q snapshot where "bind (pf_network pre) p = Inr ((), q)" "read_funding env capture p = Inr snapshot" "1 \<le> n" "1 \<le> limit"
      "lookup pt_request_key key (protocol_topups p) = None" "topup_guards env pre capture snapshot n limit q = Inr ()"
      "open_topup env jid (new_topup env new_id key pre capture (fn_recipient snapshot) n limit model actor) q = Inr (t, p')"
proof -
  obtain q snapshot where q: "bind (pf_network pre) p = Inr ((), q)" and snapshot: "read_funding env capture p = Inr snapshot"
    and pos: "1 \<le> n" "1 \<le> limit"
    and run: "(case lookup pt_request_key key (protocol_topups q) of
       Some previous \<Rightarrow>
         if (pt_amount previous, pt_fee_limit previous, pt_actor previous) \<noteq> (n, limit, actor)
         then Inl (Conflict ''top-up request key was reused'') else Inr (previous, q)
     | None \<Rightarrow>
         bindE (topup_guards env pre capture snapshot n limit q) (\<lambda>_.
           open_topup env jid (new_topup env new_id key pre capture (fn_recipient snapshot) n limit model actor) q)) = Inr (t, p')"
    using assms unfolding begin_topup_def raise_if_Inr bindE_Inr [of "bind (pf_network pre) p"] bindE_Inr [of "read_funding env capture p"]
      bindE_Inr [of "units True (JInt n)"] bindE_Inr [of "units True (JInt limit)"] units_Inr by auto
  have same: "protocol_topups q = protocol_topups p" using bind_cases(1) [OF q] by simp
  show ?thesis
  proof (cases "lookup pt_request_key key (protocol_topups q)")
    case (Some previous)
    with run q same show ?thesis by (intro old) (auto split: if_splits)
  next
    case None
    with run q same snapshot pos show ?thesis by (intro new) (auto simp: bindE_Inr)
  qed
qed

lemma begin_topup_ok:
  assumes ok: "topups_ok p" and run: "begin_topup env new_id jid key pre capture n limit model actor p = Inr (t, p')"
  shows "topups_ok p'" and "topup_step p p'"
proof -
  from run have "topups_ok p' \<and> topup_step p p'"
  proof (cases rule: begin_topup_cases)
    case old
    with ok show ?thesis using topup_step_bind topups_ok_bind by blast
  next
    case (new q snapshot)
    have "topups_ok q" "topup_step p q" using ok topup_step_bind [OF new(1)] topups_ok_bind [OF new(1)] by simp_all
    with open_topup_effect(1,2) [OF _ new(7)] topup_step_trans show ?thesis by (auto simp: new_topup_def)
  qed
  then show "topups_ok p'" "topup_step p p'" by simp_all
qed

text \<open>Rows of the other funding tables.\<close>

lemma topups_quiet:
  assumes "p' = p\<lparr>topup_funding := f\<rparr>" and "protocol_topup_credits f = protocol_topup_credits (topup_tables p)"
  shows "topups_ok p' = topups_ok p" and "topup_step p p'"
  using assms by (simp_all add: topups_ok_def topup_step_def pool_by_def by_nothing)

lemma claim_topup_ok:
  assumes ok: "topups_ok p" and run: "claim_topup i h actor p = Inr (u, p')"
  shows "topups_ok p'" and "topup_step p p'"
proof -
  let ?f = "\<lambda>claims. (topup_tables p)\<lparr>topup_transaction_claims := claims\<rparr>"
  have "p' = p \<or> (\<exists>claims. p' = p\<lparr>topup_funding := ?f claims\<rparr>)"
    using run unfolding claim_topup_def bindE_Inr raise_if_Inr Let_def by (auto split: if_splits)
  then consider "p' = p" | claims where "p' = p\<lparr>topup_funding := ?f claims\<rparr>" by blast
  then have "topups_ok p' \<and> topup_step p p'"
  proof cases
    case (2 claims)
    from topups_quiet [OF this] ok show ?thesis by simp
  qed (simp add: ok)
  then show "topups_ok p'" "topup_step p p'" by simp_all
qed

section \<open>Chain facts\<close>

text \<open>Binding the custody identity and recording chain facts touch nothing else.\<close>

definition besides_facts :: "pool \<Rightarrow> pool" where
  "besides_facts p = p\<lparr>custody_identity := None, transfers := [], chain_transactions := []\<rparr>"

definition facts_only :: "pool \<Rightarrow> pool \<Rightarrow> bool" where
  "facts_only p q \<longleftrightarrow> besides_facts q = besides_facts p \<and> topup_step p q"

lemma facts_only_refl [simp]: "facts_only p p"
  by (simp add: facts_only_def)

lemma facts_only_trans: "facts_only p q \<Longrightarrow> facts_only q r \<Longrightarrow> facts_only p r"
  unfolding facts_only_def by (auto intro: topup_step_trans)

lemma facts_only_same:
  assumes "facts_only p q"
  shows "ledger q = ledger p" and "protocol_topups q = protocol_topups p" and "topup_tables q = topup_tables p" and "funding_alerts q = funding_alerts p"
    and "custody_payments q = custody_payments p" and "topups_ok q = topups_ok p" and "custody_sends q = custody_sends p"
proof -
  have eq: "besides_facts q = besides_facts p" using assms by (simp add: facts_only_def)
  show same: "ledger q = ledger p" "protocol_topups q = protocol_topups p" "topup_tables q = topup_tables p"
    using arg_cong [OF eq, of ledger] arg_cong [OF eq, of protocol_topups] arg_cong [OF eq, of topup_funding] by (simp_all add: besides_facts_def)
  show "funding_alerts q = funding_alerts p" "custody_payments q = custody_payments p" "custody_sends q = custody_sends p"
    using arg_cong [OF eq, of funding_alerts] arg_cong [OF eq, of custody_payments] arg_cong [OF eq, of custody_sends] by (simp_all add: besides_facts_def)
  show "topups_ok q = topups_ok p" by (simp add: topups_ok_def same)
qed

lemma facts_only_bind: "bind net p = Inr (u, q) \<Longrightarrow> facts_only p q"
  using bind_cases(1) [of net p u q] topup_step_bind [of net p u q] by (simp add: facts_only_def besides_facts_def)

lemma topup_step_tables:
  assumes "pool_by topup_journals topup_accounts p q" and eq: "besides_facts q = besides_facts p"
  shows "facts_only p q"
proof -
  have "withdrawals q = withdrawals p" "withdrawal_attempts q = withdrawal_attempts p"
    "withdrawal_attempt_outcomes q = withdrawal_attempt_outcomes p" "rounds q = rounds p"
    using arg_cong [OF eq, of withdrawals] arg_cong [OF eq, of withdrawal_attempts] arg_cong [OF eq, of withdrawal_attempt_outcomes]
      arg_cong [OF eq, of rounds] by (simp_all add: besides_facts_def)
  with assms show ?thesis by (simp add: facts_only_def topup_step_def)
qed

lemma facts_only_save_transfer:
  assumes "save_transfer tf p = Inr (new, q)"
  shows "facts_only p q"
  by (rule topup_step_tables [OF pool_by_save_transfer [OF assms]]) (subst save_transfer_effect(3) [OF assms], simp add: besides_facts_def)

lemma facts_only_save_transaction:
  assumes "save_transaction t p = Inr (new, q)"
  shows "facts_only p q"
  by (rule topup_step_tables [OF pool_by_save_transaction [OF assms]]) (subst save_transaction_frame [OF assms], simp add: besides_facts_def)

section \<open>Settling the cash\<close>

lemma topup_result_cases:
  assumes "topup_result i t transfer p = Inr (outcome, p')"
  obtains (failed) "\<not> tx_successful t" "transfer = None" "outcome = TopupFailed" "p' = p"
    | (sent) tf new where "tx_successful t" "transfer = Some tf" "outcome = TopupAwaiting" "tx_recipient t = Some (ti_token i)" "tx_value t = 0"
      "save_transfer tf p = Inr (new, p')"
    | (cancelled) "tx_successful t" "transfer = None" "outcome = TopupCancelled" "p' = p" "empty_self_send t = Inr True"
proof (cases "tx_successful t")
  case False
  with assms show ?thesis by (intro failed) (auto simp: topup_result_def split: if_splits)
next
  case True
  show ?thesis
  proof (cases transfer)
    case None
    with True assms show ?thesis by (intro cancelled) (auto simp: topup_result_def bindE_Inr split: if_splits)
  next
    case (Some tf)
    with True assms show ?thesis by (auto simp: topup_result_def bindE_Inr intro: sent split: if_splits)
  qed
qed

lemma topup_result_facts:
  assumes "topup_result i t transfer p = Inr (outcome, p')"
  shows "facts_only p p'"
  using assms by (cases rule: topup_result_cases) (auto intro: facts_only_save_transfer)

lemma settle_topup_cases:
  assumes "settle_topup env jid i t transfer p = Inr (rep, p')"
  obtains (old) topup previous where "bind (tx_network t) p = Inr ((), p')" "lookup pt_id (pt_id (ti_topup i)) (protocol_topups p) = Some topup"
      "lookup cp_send_id (pt_id topup) (custody_payments p) = Some previous" "cp_tx_hash previous = tx_hash t"
      "cp_transfer_event previous = map_option event_id transfer"
      "rep = \<lparr>tp_id = pt_id topup, tp_state = pt_state topup, tp_fee = cp_fee previous\<rparr>"
    | (new) topup outcome q where "lookup pt_id (pt_id (ti_topup i)) (protocol_topups p) = Some topup" "pt_state topup = ''uncertain''"
      "lookup cp_send_id (pt_id topup) (custody_payments p) = None" "facts_only p q"
      "record_topup env jid i t transfer outcome q = Inr (rep, p')"
      "outcome = TopupAwaiting \<longleftrightarrow> transfer \<noteq> None" "outcome = TopupAwaiting \<or> \<not> tx_successful t \<or> empty_self_send t = Inr True"
proof -
  obtain q where q: "bind (tx_network t) p = Inr ((), q)"
    using assms unfolding settle_topup_def bindE_Inr [of "bind (tx_network t) p"] by auto
  note facts = facts_only_bind [OF q]
  note same = facts_only_same [OF facts]
  obtain topup where topup: "lookup pt_id (pt_id (ti_topup i)) (protocol_topups p) = Some topup"
    using assms by (auto simp: settle_topup_def q same split: option.splits)
  show ?thesis
  proof (cases "lookup cp_send_id (pt_id topup) (custody_payments p)")
    case (Some previous)
    with assms topup q show ?thesis by (intro old [OF _ topup Some]) (auto simp: settle_topup_def same split: if_splits)
  next
    case None
    then obtain outcome r where unsettled: "pt_state topup = ''uncertain''" and res: "topup_result i t transfer q = Inr (outcome, r)"
      and rec: "record_topup env jid i t transfer outcome r = Inr (rep, p')"
      using assms topup by (auto simp: settle_topup_def q same bindE_Inr split: if_splits)
    have "(outcome = TopupAwaiting \<longleftrightarrow> transfer \<noteq> None) \<and> (outcome = TopupAwaiting \<or> \<not> tx_successful t \<or> empty_self_send t = Inr True)"
      using res by (cases rule: topup_result_cases) simp_all
    with new [OF topup unsettled None facts_only_trans [OF facts topup_result_facts [OF res]] rec] show ?thesis by blast
  qed
qed

text \<open>The payment that settles a send, and how recording it changes the store.\<close>

lemma record_payment_new:
  assumes run: "record_payment i t ev j None None None p = Inr (u, p')" and none: "lookup cp_send_id i (custody_payments p) = None"
  shows "p' = p\<lparr>custody_payments := custody_payments p @ [\<lparr>cp_send_id = i, cp_chain_id = net_chain_id (tx_network t),
    cp_tx_hash = tx_hash t, cp_transfer_event = ev, cp_fee = tx_fee t, cp_journal_id = j\<rparr>]\<rparr>"
proof (cases "List.find (\<lambda>c. cp_send_id c = i \<or> (cp_chain_id c, cp_tx_hash c) = (net_chain_id (tx_network t), tx_hash t)) (custody_payments p)")
  case None
  with run show ?thesis by (auto simp: record_payment_def Let_def split: if_splits option.splits)
next
  case (Some old)
  with run have "cp_send_id old = i" by (auto simp: record_payment_def Let_def split: if_splits option.splits)
  with none find_SomeD [OF Some] show ?thesis by (auto simp: lookup_None_iff)
qed

lemma record_topup_cases:
  assumes "record_topup env jid i t transfer outcome p = Inr (rep, p')" and "lookup cp_send_id (pt_id (ti_topup i)) (custody_payments p) = None"
  obtains led j where "post env jid (topup_key (pt_id (ti_topup i)) ''cash'') (''operator_topup_'' @ topup_outcome_text outcome)
      (cash_movements (ti_topup i) outcome (tx_fee t))
      (JDict [(''tx_hash'', JStr (tx_hash t)), (''transfer_event'', optional_text (map_option event_id transfer)),
        (''fee'', JInt (tx_fee t)), (''fee_model'', JStr (tx_fee_model t))]) None (ledger p) = Inr (j, led)"
    "rep = \<lparr>tp_id = pt_id (ti_topup i), tp_state = topup_outcome_text outcome, tp_fee = tx_fee t\<rparr>"
    "p' = p\<lparr>ledger := led, custody_payments := custody_payments p @ [\<lparr>cp_send_id = pt_id (ti_topup i),
        cp_chain_id = net_chain_id (tx_network t), cp_tx_hash = tx_hash t, cp_transfer_event = map_option event_id transfer, cp_fee = tx_fee t,
        cp_journal_id = j\<rparr>],
      protocol_topups := modify pt_id (pt_id (ti_topup i)) (\<lambda>t. t\<lparr>pt_state := topup_outcome_text outcome\<rparr>) (protocol_topups p)\<rparr>"
proof -
  obtain j led u q where post: "post env jid (topup_key (pt_id (ti_topup i)) ''cash'') (''operator_topup_'' @ topup_outcome_text outcome)
      (cash_movements (ti_topup i) outcome (tx_fee t))
      (JDict [(''tx_hash'', JStr (tx_hash t)), (''transfer_event'', optional_text (map_option event_id transfer)),
        (''fee'', JInt (tx_fee t)), (''fee_model'', JStr (tx_fee_model t))]) None (ledger p) = Inr (j, led)"
    and pay: "record_payment (pt_id (ti_topup i)) t (map_option event_id transfer) j None None None (p\<lparr>ledger := led\<rparr>) = Inr (u, q)"
    and rep: "rep = \<lparr>tp_id = pt_id (ti_topup i), tp_state = topup_outcome_text outcome, tp_fee = tx_fee t\<rparr>"
    and p': "p' = update_topup (pt_id (ti_topup i)) (topup_outcome_text outcome) q"
    using assms(1) unfolding record_topup_def Let_def by (auto simp: bindE_Inr on_ledger_Inr)
  have q: "q = p\<lparr>ledger := led, custody_payments := custody_payments p @ [\<lparr>cp_send_id = pt_id (ti_topup i),
      cp_chain_id = net_chain_id (tx_network t), cp_tx_hash = tx_hash t, cp_transfer_event = map_option event_id transfer, cp_fee = tx_fee t,
      cp_journal_id = j\<rparr>]\<rparr>"
    using record_payment_new [OF pay] assms(2) by simp
  show ?thesis by (rule that [OF post rep]) (simp add: p' q update_topup_def)
qed

text \<open>An unresolved top-up settles: its holds are emptied, and its row, payment and journal agree from then on.\<close>

lemma record_topup_effect:
  assumes ok: "topups_ok p" and run: "record_topup env jid i t transfer outcome p = Inr (rep, p')"
    and row: "lookup pt_id (pt_id (ti_topup i)) (protocol_topups p) = Some (ti_topup i)" "pt_state (ti_topup i) = ''uncertain''"
    and unpaid: "lookup cp_send_id (pt_id (ti_topup i)) (custody_payments p) = None"
  shows "topups_ok p'" and "topup_step p p'"
    and "balance (ledger p') k = balance (ledger p) k + amount_of (cash_movements (ti_topup i) outcome (tx_fee t)) k"
    and "lookup pt_id (pt_id (ti_topup i)) (protocol_topups p') = Some ((ti_topup i)\<lparr>pt_state := topup_outcome_text outcome\<rparr>)"
    and "\<exists>y. lookup cp_send_id (pt_id (ti_topup i)) (custody_payments p') = Some y \<and> cp_tx_hash y = tx_hash t \<and>
      cp_transfer_event y = map_option event_id transfer \<and> cp_fee y = tx_fee t"
proof -
  let ?id = "pt_id (ti_topup i)" and ?mv = "cash_movements (ti_topup i) outcome (tx_fee t)"
  let ?cs = "protocol_topup_credits (topup_tables p)"
  let ?ts = "modify pt_id ?id (\<lambda>t. t\<lparr>pt_state := topup_outcome_text outcome\<rparr>) (protocol_topups p)"
  from run unpaid obtain led j where post: "post env jid (topup_key ?id ''cash'') (''operator_topup_'' @ topup_outcome_text outcome) ?mv
      (JDict [(''tx_hash'', JStr (tx_hash t)), (''transfer_event'', optional_text (map_option event_id transfer)),
        (''fee'', JInt (tx_fee t)), (''fee_model'', JStr (tx_fee_model t))]) None (ledger p) = Inr (j, led)"
    and p': "p' = p\<lparr>ledger := led, custody_payments := custody_payments p @ [\<lparr>cp_send_id = ?id,
        cp_chain_id = net_chain_id (tx_network t), cp_tx_hash = tx_hash t, cp_transfer_event = map_option event_id transfer, cp_fee = tx_fee t,
        cp_journal_id = j\<rparr>], protocol_topups := ?ts\<rparr>"
    by (rule record_topup_cases)
  have money: "topup_money_ok (ledger p) (protocol_topups p) ?cs" using ok by (simp add: topups_ok_def)
  have own: "topup_row_ok (balance (ledger p) (topup_held ?id AssetTIG)) (balance (ledger p) (topup_held ?id AssetNATIVE))
     (recorded (ledger p) (topup_key ?id ''reserve'')) (recorded (ledger p) (topup_key ?id ''cash'')) (recorded (ledger p) (topup_key ?id ''protocol''))
     (lookup pt_id ?id (protocol_topups p)) (lookup tc_send_id ?id ?cs)"
    using money by (simp add: topup_money_ok_def)
  then have fresh: "\<not> recorded (ledger p) (topup_key ?id ''cash'')" using row by (simp add: topup_row_ok_def)
  have state: "topup_outcome_text outcome \<noteq> ''uncertain''" "topup_outcome_text outcome \<noteq> ''credited''" by (cases outcome; simp)+
  have rows: "lookup pt_id x ?ts = (if x = ?id then Some ((ti_topup i)\<lparr>pt_state := topup_outcome_text outcome\<rparr>) else lookup pt_id x (protocol_topups p))" for x
    using row(1) by (simp add: lookup_modify)
  have "topup_money_ok led ?ts ?cs"
    by (rule topup_money_post [OF money post fresh])
      (use own row in \<open>auto simp: cash_movements_def topup_row_ok_def topup_due_def rows state\<close>)
  then show "topups_ok p'" using ok by (simp add: topups_ok_def p')
  show "balance (ledger p') k = balance (ledger p) k + amount_of ?mv k"
    using post_balance [OF post, of k] fresh by (simp add: p' recorded_def)
  show "lookup pt_id ?id (protocol_topups p') = Some ((ti_topup i)\<lparr>pt_state := topup_outcome_text outcome\<rparr>)" by (simp add: p' rows)
  show "\<exists>y. lookup cp_send_id ?id (custody_payments p') = Some y \<and> cp_tx_hash y = tx_hash t \<and>
      cp_transfer_event y = map_option event_id transfer \<and> cp_fee y = tx_fee t"
    using unpaid by (simp add: p' lookup_append)
  have "ledger_by topup_journals topup_accounts (ledger p) led"
    by (rule ledger_by_posted [OF post]) (auto simp: cash_movements_def)
  then show "topup_step p p'" by (simp add: topup_step_def pool_by_def p')
qed

lemma topup_instructions_Inr:
  assumes "topup_instructions_of identity p = Inr i"
  shows "lookup pt_id identity (protocol_topups p) = Some (ti_topup i)" and "pt_id (ti_topup i) = identity"
    and "ti_transfer_event i = Option.bind (lookup cp_send_id identity (custody_payments p)) cp_transfer_event"
    and "\<exists>s. lookup cs_id identity (custody_sends p) = Some s \<and> ti_sender i = cs_sender s \<and> ti_nonce i = cs_nonce s \<and> ti_chain_id i = cs_chain_id s"
    and "ti_token i = net_token (pt_network (ti_topup i))"
    and "wt_data (ti_transaction i) = transfer_call (pt_recipient (ti_topup i)) (pt_amount (ti_topup i))"
  using assms lookup_SomeD [of pt_id identity "protocol_topups p"] by (auto simp: topup_instructions_of_def Let_def split: option.splits)

lemma reconcile_topup_cases:
  assumes "reconcile_topup env jid identity t transfer p = (result, p')"
  obtains (refused) e where "result = Inl e" "facts_only p p'"
    | (settled) i q rep where "topup_instructions_of identity p = Inr i" "topup_transaction i t transfer = Inr ()" "facts_only p q"
      "settle_topup env jid i t transfer q = Inr (rep, p')" "result = Inr rep"
proof (cases "bindE (topup_instructions_of identity p) (\<lambda>i. bindE (topup_transaction i t None) (\<lambda>_. Inr i))")
  case (Inl e)
  with assms show ?thesis by (intro refused [of e]) (auto simp: reconcile_topup_def)
next
  case (Inr i)
  then have i: "topup_instructions_of identity p = Inr i" by (auto simp: bindE_Inr)
  show ?thesis
  proof (cases "save_transaction t p")
    case (Inl e)
    with assms Inr show ?thesis by (intro refused [of e]) (auto simp: reconcile_topup_def commit_def)
  next
    case (Inr x)
    then obtain new q where q: "save_transaction t p = Inr (new, q)" by (cases x) auto
    note facts = facts_only_save_transaction [OF q]
    show ?thesis
    proof (cases "topup_transaction i t transfer")
      case (Inl e)
      with assms q facts \<open>bindE _ _ = Inr i\<close> show ?thesis by (intro refused [of e]) (auto simp: reconcile_topup_def commit_def)
    next
      case (Inr u)
      have run: "commit (settle_topup env jid i t transfer) q = (result, p')"
        using assms q Inr \<open>bindE _ _ = Inr i\<close> by (simp add: reconcile_topup_def commit_def)
      show ?thesis
      proof (cases "settle_topup env jid i t transfer q")
        case (Inl e)
        with run facts show ?thesis by (intro refused [of e]) (auto simp: commit_def)
      next
        case (Inr y)
        then obtain rep r where "settle_topup env jid i t transfer q = Inr (rep, r)" by (cases y) auto
        with run i facts \<open>topup_transaction i t transfer = Inr u\<close> show ?thesis by (intro settled [of i q rep]) (auto simp: commit_def)
      qed
    qed
  qed
qed

lemma settle_topup_ok:
  assumes ok: "topups_ok p" and run: "settle_topup env jid i t transfer p = Inr (rep, p')"
    and row: "lookup pt_id (pt_id (ti_topup i)) (protocol_topups p) = Some (ti_topup i)"
  shows "topups_ok p'" and "topup_step p p'"
proof -
  from run have "topups_ok p' \<and> topup_step p p'"
  proof (cases rule: settle_topup_cases)
    case (old topup previous)
    with ok show ?thesis using topup_step_bind topups_ok_bind by blast
  next
    case (new topup outcome q)
    note same = facts_only_same [OF new(4)]
    have state: "pt_state (ti_topup i) = ''uncertain''" using new(1,2) row by simp
    have id: "topup = ti_topup i" using new(1) row by simp
    have q: "topups_ok q" "lookup pt_id (pt_id (ti_topup i)) (protocol_topups q) = Some (ti_topup i)"
      "lookup cp_send_id (pt_id (ti_topup i)) (custody_payments q) = None" using ok row new(3) id by (simp_all add: same)
    from record_topup_effect(1,2) [OF q(1) new(5) q(2) state q(3)] new(4) show ?thesis
      by (auto simp: facts_only_def intro: topup_step_trans)
  qed
  then show "topups_ok p'" "topup_step p p'" by simp_all
qed

lemma reconcile_topup_ok:
  assumes ok: "topups_ok p" and run: "reconcile_topup env jid identity t transfer p = (result, p')"
  shows "topups_ok p'" and "topup_step p p'"
proof -
  from run have "topups_ok p' \<and> topup_step p p'"
  proof (cases rule: reconcile_topup_cases)
    case (refused e)
    with ok facts_only_same(6) [OF refused(2)] show ?thesis by (simp add: facts_only_def)
  next
    case (settled i q rep)
    note same = facts_only_same [OF settled(3)]
    have "lookup pt_id (pt_id (ti_topup i)) (protocol_topups q) = Some (ti_topup i)"
      using topup_instructions_Inr(1,2) [OF settled(1)] by (simp add: same)
    from settle_topup_ok [OF _ settled(4) this] ok settled(3) same show ?thesis by (auto simp: facts_only_def intro: topup_step_trans)
  qed
  then show "topups_ok p'" "topup_step p p'" by simp_all
qed

section \<open>The protocol credit\<close>

lemma credit_topup_cases:
  assumes "credit_topup env jid identity capture p = Inr (c, p')"
  obtains (old) "facts_only p p'" "lookup tc_send_id identity (protocol_topup_credits (topup_tables p)) = Some c"
    | (new) snapshot i q f e led j where "read_funding env capture p = Inr snapshot" "topup_instructions_of identity p = Inr i"
      "facts_only p q" "transfers q = transfers p" "funding_alerts p = []" "lookup tc_send_id identity (protocol_topup_credits (topup_tables p)) = None"
      "pt_state (ti_topup i) = ''awaiting_protocol''" "event_matches snapshot i q = Inr [f]" "ti_transfer_event i = Some e"
      "\<not> (\<exists>c \<in> set (protocol_topup_credits (topup_tables p)). tc_topup_id c = tu_id f \<or> tc_transfer_event c = e)"
      "post env jid (topup_key identity ''protocol'') ''operator_protocol_funding'' (credit_movements (ti_topup i))
         (JDict [(''topup_id'', JStr (tu_id f)), (''capture_id'', JStr capture), (''transfer_event'', JStr e)]) None (ledger p) = Inr (j, led)"
      "c = \<lparr>tc_send_id = identity, tc_topup_id = tu_id f, tc_capture_id = capture, tc_transfer_event = e, tc_journal_id = j\<rparr>"
      "p' = q\<lparr>ledger := led, topup_funding := (topup_tables p)\<lparr>protocol_topup_credits := protocol_topup_credits (topup_tables p) @ [c]\<rparr>,
         protocol_topups := modify pt_id identity (\<lambda>t. t\<lparr>pt_state := ''credited''\<rparr>) (protocol_topups p)\<rparr>"
proof -
  obtain snapshot i q u where snapshot: "read_funding env capture p = Inr snapshot" and i: "topup_instructions_of identity p = Inr i"
    and q: "bind (pt_network (ti_topup i)) p = Inr (u, q)"
    using assms unfolding credit_topup_def bindE_Inr raise_if_Inr by auto
  note facts = facts_only_bind [OF q]
  note same = facts_only_same [OF facts]
  show ?thesis
  proof (cases "lookup tc_send_id identity (protocol_topup_credits (topup_tables p))")
    case (Some previous)
    with assms snapshot i q facts show ?thesis by (intro old) (auto simp: credit_topup_def same split: if_splits)
  next
    case None
    then have state: "pt_state (ti_topup i) = ''awaiting_protocol''" and alerts: "funding_alerts p = []"
      and run: "credit_new env jid capture snapshot i q = Inr (c, p')"
      using assms snapshot i q by (auto simp: credit_topup_def same split: if_splits)
    obtain f where f: "event_matches snapshot i q = Inr [f]"
      and unused: "\<not> (\<exists>c \<in> set (protocol_topup_credits (topup_tables p)). tc_topup_id c = tu_id f \<or> Some (tc_transfer_event c) = ti_transfer_event i)"
      and book: "book_credit_of env jid capture (ti_topup i) (the (ti_transfer_event i)) f q = Inr (c, p')"
    proof -
      obtain ms where ms: "event_matches snapshot i q = Inr ms"
        and run': "(case ms of
         [f] \<Rightarrow>
           if \<exists>c \<in> set (protocol_topup_credits (topup_tables q)).
                tc_topup_id c = tu_id f \<or> Some (tc_transfer_event c) = ti_transfer_event i
           then Inl (Conflict ''protocol top-up credit has already been consumed'')
           else book_credit_of env jid capture (ti_topup i) (the (ti_transfer_event i)) f q
       | _ \<Rightarrow> Inl (Conflict ''TIG has not uniquely confirmed this exact top-up event'')) = Inr (c, p')"
        using run unfolding credit_new_def bindE_Inr by blast
      then obtain f where "ms = [f]" by (cases ms; cases "tl ms") auto
      with ms run' that [of f] show ?thesis by (auto simp: same split: if_splits)
    qed
    obtain e where e: "ti_transfer_event i = Some e"
      using f by (auto simp: event_matches_def split: option.splits if_splits Option.bind_splits)
    have id: "pt_id (ti_topup i) = identity" using topup_instructions_Inr(2) [OF i] .
    obtain j led where post: "post env jid (topup_key identity ''protocol'') ''operator_protocol_funding'' (credit_movements (ti_topup i))
         (JDict [(''topup_id'', JStr (tu_id f)), (''capture_id'', JStr capture), (''transfer_event'', JStr e)]) None (ledger p) = Inr (j, led)"
      and c: "c = \<lparr>tc_send_id = identity, tc_topup_id = tu_id f, tc_capture_id = capture, tc_transfer_event = e, tc_journal_id = j\<rparr>"
      and p': "p' = q\<lparr>ledger := led, topup_funding := (topup_tables p)\<lparr>protocol_topup_credits := protocol_topup_credits (topup_tables p) @ [c]\<rparr>,
         protocol_topups := modify pt_id identity (\<lambda>t. t\<lparr>pt_state := ''credited''\<rparr>) (protocol_topups p)\<rparr>"
      using book by (auto simp: book_credit_of_def id e same bindE_Inr on_ledger_Inr insert_credit_def update_topup_def split: if_splits)
    have "transfers q = transfers p" using bind_cases(1) [OF q] by simp
    from new [OF snapshot i facts this alerts None state f e _ post c p'] unused e show ?thesis by auto
  qed
qed

lemma credit_new_effect:
  assumes ok: "topups_ok p" and facts: "facts_only p q"
    and row: "lookup pt_id identity (protocol_topups p) = Some topup" "pt_state topup = ''awaiting_protocol''" "pt_id topup = identity"
    and none: "lookup tc_send_id identity (protocol_topup_credits (topup_tables p)) = None"
    and unused: "\<not> (\<exists>c \<in> set (protocol_topup_credits (topup_tables p)). tc_topup_id c = tc_topup_id n \<or> tc_transfer_event c = tc_transfer_event n)"
    and post: "post env jid (topup_key identity ''protocol'') ''operator_protocol_funding'' (credit_movements topup) details None (ledger p) = Inr (j, led)"
    and n: "tc_send_id n = identity"
    and p': "p' = q\<lparr>ledger := led, topup_funding := (topup_tables p)\<lparr>protocol_topup_credits := protocol_topup_credits (topup_tables p) @ [n]\<rparr>,
         protocol_topups := modify pt_id identity (\<lambda>t. t\<lparr>pt_state := ''credited''\<rparr>) (protocol_topups p)\<rparr>"
  shows "topups_ok p'" and "topup_step p p'"
    and "balance (ledger p') k = balance (ledger p) k + amount_of (credit_movements topup) k"
proof -
  let ?cs = "protocol_topup_credits (topup_tables p)"
  let ?ts = "modify pt_id identity (\<lambda>t. t\<lparr>pt_state := ''credited''\<rparr>) (protocol_topups p)"
  have money: "topup_money_ok (ledger p) (protocol_topups p) ?cs" and once: "credits_once ?cs" using ok by (simp_all add: topups_ok_def)
  have own: "topup_row_ok (balance (ledger p) (topup_held identity AssetTIG)) (balance (ledger p) (topup_held identity AssetNATIVE))
     (recorded (ledger p) (topup_key identity ''reserve'')) (recorded (ledger p) (topup_key identity ''cash''))
     (recorded (ledger p) (topup_key identity ''protocol'')) (lookup pt_id identity (protocol_topups p)) (lookup tc_send_id identity ?cs)"
    using money by (simp add: topup_money_ok_def)
  then have fresh: "\<not> recorded (ledger p) (topup_key identity ''protocol'')" using none by (auto simp: topup_row_ok_def)
  have ts: "lookup pt_id x ?ts = (if x = identity then Some (topup\<lparr>pt_state := ''credited''\<rparr>) else lookup pt_id x (protocol_topups p))" for x
    using row by (simp add: lookup_modify)
  have cs: "lookup tc_send_id x (?cs @ [n]) = (if x = identity then Some n else lookup tc_send_id x ?cs)" for x
    using none n by (auto simp: lookup_append split: option.splits)
  have "topup_money_ok led ?ts (?cs @ [n])"
    by (rule topup_money_post [OF money post fresh])
      (use own row in \<open>auto simp: credit_movements_def topup_row_ok_def topup_due_def ts cs\<close>)
  moreover have "credits_once (?cs @ [n])" using once none unused n by (auto simp: credits_once_def lookup_None_iff)
  ultimately show "topups_ok p'" by (simp add: topups_ok_def p')
  show "balance (ledger p') k = balance (ledger p) k + amount_of (credit_movements topup) k"
    using post_balance [OF post, of k] fresh by (simp add: p' recorded_def)
  have "ledger_by topup_journals topup_accounts (ledger p) led"
    by (rule ledger_by_posted [OF post]) (auto simp: credit_movements_def)
  then show "topup_step p p'" using facts facts_only_same(1) [OF facts] by (auto simp: facts_only_def topup_step_def pool_by_def same_members_def p')
qed

lemma credit_topup_ok:
  assumes ok: "topups_ok p" and run: "credit_topup env jid identity capture p = Inr (c, p')"
  shows "topups_ok p'" and "topup_step p p'"
proof -
  from run have "topups_ok p' \<and> topup_step p p'"
  proof (cases rule: credit_topup_cases)
    case old
    with ok facts_only_same(6) [OF old(1)] show ?thesis by (simp add: facts_only_def)
  next
    case (new snapshot i q f e led j)
    have unused: "\<not> (\<exists>d \<in> set (protocol_topup_credits (topup_tables p)). tc_topup_id d = tc_topup_id c \<or> tc_transfer_event d = tc_transfer_event c)"
      and id: "tc_send_id c = identity" using new(10,12) by simp_all
    note row = topup_instructions_Inr(1) [OF new(2)] new(7) topup_instructions_Inr(2) [OF new(2)]
    from credit_new_effect(1,2) [OF ok new(3) row new(6) unused new(11) id new(13)] show ?thesis ..
  qed
  then show "topups_ok p'" "topup_step p p'" by simp_all
qed

end
