(* ===== verification/Topup_Properties.thy ===== *)
theory Topup_Properties
  imports Topup_Safety Withdrawal_Properties
begin

text \<open>
  The properties of top-ups over the invariant of \<open>Topup_Safety\<close>: a send is settled once and
  empties its holds, the protocol balance is credited once and only for a token event the
  protocol confirmed, and observations of the protocol never rewrite a confirmed fact.
\<close>

section \<open>Settling once\<close>

lemma settled_topup_final:
  assumes paid: "lookup cp_send_id identity (custody_payments p) = Some y" and run: "reconcile_topup env jid identity t transfer p = (result, p')"
  shows "ledger p' = ledger p" and "result = Inr rep \<Longrightarrow> tx_hash t = cp_tx_hash y \<and> map_option event_id transfer = cp_transfer_event y"
proof -
  from run have "ledger p' = ledger p \<and> (result = Inr rep \<longrightarrow> tx_hash t = cp_tx_hash y \<and> map_option event_id transfer = cp_transfer_event y)"
  proof (cases rule: reconcile_topup_cases)
    case (refused e)
    then show ?thesis using facts_only_same(1) by simp
  next
    case (settled i q r)
    note same = facts_only_same [OF settled(3)]
    have id: "pt_id (ti_topup i) = identity" using topup_instructions_Inr(2) [OF settled(1)] .
    from settled(4) show ?thesis
    proof (cases rule: settle_topup_cases)
      case (old topup previous)
      have "pt_id topup = identity" using lookup_SomeD [OF old(2)] id by simp
      with old paid facts_only_same(1) [OF facts_only_bind [OF old(1)]] same show ?thesis by auto
    next
      case (new topup outcome s)
      have "pt_id topup = identity" using lookup_SomeD [OF new(1)] id by simp
      with new(3) paid same show ?thesis by simp
    qed
  qed
  then show "ledger p' = ledger p" and "result = Inr rep \<Longrightarrow> tx_hash t = cp_tx_hash y \<and> map_option event_id transfer = cp_transfer_event y"
    by simp_all
qed

lemma settled_holds:
  assumes ok: "topups_ok p" and row: "lookup pt_id identity (protocol_topups p) = Some topup" "pt_state topup = topup_outcome_text outcome"
  shows "\<forall>a. balance (ledger p) (topup_held identity a) = 0"
proof
  fix a
  have "topup_outcome_text outcome \<noteq> ''uncertain''" by (cases outcome) simp_all
  moreover have "topup_row_ok (balance (ledger p) (topup_held identity AssetTIG)) (balance (ledger p) (topup_held identity AssetNATIVE))
     (recorded (ledger p) (topup_key identity ''reserve'')) (recorded (ledger p) (topup_key identity ''cash''))
     (recorded (ledger p) (topup_key identity ''protocol'')) (lookup pt_id identity (protocol_topups p))
     (lookup tc_send_id identity (protocol_topup_credits (topup_tables p)))"
    using ok by (simp add: topups_ok_def topup_money_ok_def)
  ultimately show "balance (ledger p) (topup_held identity a) = 0" using row by (cases a) (simp_all add: topup_row_ok_def topup_due_def)
qed

text \<open>
  C32. Reconciling a top-up settles its cash once. An unresolved top-up moves its held amount to the
  outside when the token event was found, back to the operator otherwise, returns the unused gas,
  and leaves both holds empty; a top-up that was settled before moves nothing. Afterwards no
  reconciliation moves funds again, and none with another transaction or event is accepted.
\<close>

theorem reconcile_topup_once:
  assumes ok: "topups_ok p" and run: "reconcile_topup env jid identity t transfer p = (Inr rep, p')"
  shows "((\<exists>topup outcome. lookup pt_id identity (protocol_topups p) = Some topup \<and> pt_state topup = ''uncertain'' \<and>
            tp_state rep = topup_outcome_text outcome \<and> tp_fee rep = tx_fee t \<and> (outcome = TopupAwaiting \<longleftrightarrow> transfer \<noteq> None) \<and>
            (\<forall>k. balance (ledger p') k = balance (ledger p) k + amount_of (cash_movements topup outcome (tx_fee t)) k) \<and>
            (\<forall>a. balance (ledger p') (topup_held identity a) = 0)) \<or>
         (lookup cp_send_id identity (custody_payments p) \<noteq> None \<and> ledger p' = ledger p)) \<and>
    (\<forall>env2 jid2 t2 transfer2 result p''. reconcile_topup env2 jid2 identity t2 transfer2 p' = (result, p'') \<longrightarrow> ledger p'' = ledger p' \<and>
       (\<forall>rep2. result = Inr rep2 \<longrightarrow> tx_hash t2 = tx_hash t \<and> map_option event_id transfer2 = map_option event_id transfer))"
proof -
  from run obtain i q where i: "topup_instructions_of identity p = Inr i" and facts: "facts_only p q"
    and settle: "settle_topup env jid i t transfer q = Inr (rep, p')"
    by (cases rule: reconcile_topup_cases) auto
  note same = facts_only_same [OF facts] and row = topup_instructions_Inr(1,2) [OF i]
  let ?moved = "\<exists>topup outcome. lookup pt_id identity (protocol_topups p) = Some topup \<and> pt_state topup = ''uncertain'' \<and>
            tp_state rep = topup_outcome_text outcome \<and> tp_fee rep = tx_fee t \<and> (outcome = TopupAwaiting \<longleftrightarrow> transfer \<noteq> None) \<and>
            (\<forall>k. balance (ledger p') k = balance (ledger p) k + amount_of (cash_movements topup outcome (tx_fee t)) k) \<and>
            (\<forall>a. balance (ledger p') (topup_held identity a) = 0)"
  let ?paid = "\<exists>y. lookup cp_send_id identity (custody_payments p') = Some y \<and> cp_tx_hash y = tx_hash t \<and>
            cp_transfer_event y = map_option event_id transfer"
  from settle have "(?moved \<or> (lookup cp_send_id identity (custody_payments p) \<noteq> None \<and> ledger p' = ledger p)) \<and> ?paid"
  proof (cases rule: settle_topup_cases)
    case (old topup previous)
    have "pt_id topup = identity" using lookup_SomeD [OF old(2)] row(2) by simp
    with old(3-5) facts_only_same [OF facts_only_bind [OF old(1)]] same show ?thesis by auto
  next
    case (new topup outcome r)
    have topup: "topup = ti_topup i" using new(1) row by (simp add: same)
    note more = facts_only_same [OF new(4)]
    have r: "topups_ok r" "lookup pt_id (pt_id (ti_topup i)) (protocol_topups r) = Some (ti_topup i)"
      "lookup cp_send_id (pt_id (ti_topup i)) (custody_payments r) = None" "pt_state (ti_topup i) = ''uncertain''"
      using ok row new(2,3) topup by (simp_all add: same more)
    note effect = record_topup_effect [OF r(1) new(5) r(2,4,3)]
    have rep: "tp_state rep = topup_outcome_text outcome" "tp_fee rep = tx_fee t"
      by (rule record_topup_cases [OF new(5) r(3)], simp)+
    have bal: "balance (ledger p') k = balance (ledger p) k + amount_of (cash_movements (ti_topup i) outcome (tx_fee t)) k" for k
      using effect(3) by (simp add: same more)
    have "\<forall>a. balance (ledger p') (topup_held identity a) = 0"
      using settled_holds [OF effect(1), of identity "(ti_topup i)\<lparr>pt_state := topup_outcome_text outcome\<rparr>"] effect(4) row(2) by simp
    then have ?moved using row(1) r(4) rep new(6) bal by blast
    with effect(5) row(2) show ?thesis by auto
  qed
  then have first: "?moved \<or> (lookup cp_send_id identity (custody_payments p) \<noteq> None \<and> ledger p' = ledger p)"
    and "?paid" by blast+
  then obtain y where y: "lookup cp_send_id identity (custody_payments p') = Some y" "cp_tx_hash y = tx_hash t"
    "cp_transfer_event y = map_option event_id transfer" by blast
  have "ledger p'' = ledger p' \<and>
      (\<forall>rep2. result = Inr rep2 \<longrightarrow> tx_hash t2 = tx_hash t \<and> map_option event_id transfer2 = map_option event_id transfer)"
    if "reconcile_topup env2 jid2 identity t2 transfer2 p' = (result, p'')" for env2 jid2 t2 transfer2 result p''
    using settled_topup_final [OF y(1) that] y(2,3) by auto
  with first show ?thesis by blast
qed

section \<open>Crediting once\<close>

text \<open>
  C33. The protocol balance is credited once per top-up: only while its cash is out, only when the
  capture confirms exactly one top-up with the transaction, log index and amount of its own token
  event, and by exactly that amount. No protocol top-up and no token event is credited twice, and
  asking again returns the recorded credit and moves nothing.
\<close>

theorem credit_topup_once:
  assumes ok: "topups_ok p" and run: "credit_topup env jid identity capture p = Inr (c, p')"
  shows "tc_send_id c = identity \<and> lookup tc_send_id identity (protocol_topup_credits (topup_funding p')) = Some c \<and>
    credits_once (protocol_topup_credits (topup_funding p')) \<and>
    ((lookup tc_send_id identity (protocol_topup_credits (topup_funding p)) = Some c \<and> ledger p' = ledger p) \<or>
     (\<exists>topup snapshot f tr. lookup pt_id identity (protocol_topups p) = Some topup \<and> pt_state topup = ''awaiting_protocol'' \<and>
        read_funding env capture p = Inr snapshot \<and> f \<in> set (fn_topups snapshot) \<and> tu_id f = tc_topup_id c \<and>
        lookup tr_event_id (tc_transfer_event c) (transfers p) = Some tr \<and>
        (tu_tx_hash f, tu_log_index f, tu_amount f) = (tr_tx_hash tr, tr_log_index tr, pt_amount topup) \<and>
        (\<forall>k. balance (ledger p') k = balance (ledger p) k + amount_of (credit_movements topup) k))) \<and>
    (\<forall>env2 jid2 capture2 c2 p''. credit_topup env2 jid2 identity capture2 p' = Inr (c2, p'') \<longrightarrow> c2 = c \<and> ledger p'' = ledger p')"
proof -
  let ?cs = "\<lambda>p. protocol_topup_credits (topup_funding p)"
  let ?moved = "\<exists>topup snapshot f tr. lookup pt_id identity (protocol_topups p) = Some topup \<and> pt_state topup = ''awaiting_protocol'' \<and>
        read_funding env capture p = Inr snapshot \<and> f \<in> set (fn_topups snapshot) \<and> tu_id f = tc_topup_id c \<and>
        lookup tr_event_id (tc_transfer_event c) (transfers p) = Some tr \<and>
        (tu_tx_hash f, tu_log_index f, tu_amount f) = (tr_tx_hash tr, tr_log_index tr, pt_amount topup) \<and>
        (\<forall>k. balance (ledger p') k = balance (ledger p) k + amount_of (credit_movements topup) k)"
  have once: "credits_once (?cs p')" using credit_topup_ok(1) [OF ok run] by (simp add: topups_ok_def)
  from run have moved: "((lookup tc_send_id identity (?cs p) = Some c \<and> ledger p' = ledger p) \<or> ?moved) \<and>
      lookup tc_send_id identity (?cs p') = Some c"
  proof (cases rule: credit_topup_cases)
    case old
    with facts_only_same [OF old(1)] show ?thesis by simp
  next
    case (new snapshot i q f e led j)
    have unused: "\<not> (\<exists>d \<in> set (?cs p). tc_topup_id d = tc_topup_id c \<or> tc_transfer_event d = tc_transfer_event c)"
      and id: "tc_send_id c = identity" and c: "tc_topup_id c = tu_id f" "tc_transfer_event c = e" using new(10,12) by simp_all
    note row = topup_instructions_Inr(1) [OF new(2)] new(7) topup_instructions_Inr(2) [OF new(2)]
    obtain tr where tr: "lookup tr_event_id e (transfers p) = Some tr"
      and f: "f \<in> set (fn_topups snapshot)" "(tu_tx_hash f, tu_log_index f, tu_amount f) = (tr_tx_hash tr, tr_log_index tr, pt_amount (ti_topup i))"
      using new(8,9) by (auto simp: event_matches_def new(4) split: option.splits if_splits dest: filter_eq_ConsD)
    have "\<forall>k. balance (ledger p') k = balance (ledger p) k + amount_of (credit_movements (ti_topup i)) k"
      using credit_new_effect(3) [OF ok new(3) row new(6) unused new(11) id new(13)] by blast
    with row(1,2) new(1) f tr c have ?moved by metis
    moreover have "lookup tc_send_id identity (?cs p') = Some c" using new(6) id by (simp add: new(13) lookup_append)
    ultimately show ?thesis by blast
  qed
  then have "lookup tc_send_id identity (?cs p') = Some c" by blast
  moreover from this have "tc_send_id c = identity" by (rule lookup_SomeD [THEN conjunct2])
  moreover have "c2 = c \<and> ledger p'' = ledger p'" if again: "credit_topup env2 jid2 identity capture2 p' = Inr (c2, p'')" for env2 jid2 capture2 c2 p''
    using again
  proof (cases rule: credit_topup_cases)
    case old
    with facts_only_same(1) [OF old(1)] moved show ?thesis by simp
  next
    case (new snapshot i q f e led j)
    with moved show ?thesis by simp
  qed
  ultimately show ?thesis using once moved by blast
qed

section \<open>Confirmed facts\<close>

lemma confirm_all:
  assumes "fold (confirm_topup player capture) ts (rows, changed) = (rows', changed')"
  shows "\<exists>new. rows' = rows @ new" and "changed \<Longrightarrow> changed'"
    and "\<not> changed' \<Longrightarrow> t \<in> set ts \<Longrightarrow> \<exists>f \<in> set rows'. f = fact_row_of player (ff_capture_id f) t"
proof -
  have "(\<exists>new. rows' = rows @ new) \<and> (changed \<longrightarrow> changed') \<and>
      (\<not> changed' \<longrightarrow> (\<forall>t \<in> set ts. \<exists>f \<in> set rows'. f = fact_row_of player (ff_capture_id f) t))"
    using assms
  proof (induction ts arbitrary: rows changed)
    case (Cons u ts)
    obtain r c where step: "confirm_topup player capture u (rows, changed) = (r, c)" by fastforce
    have r: "(\<exists>new. r = rows @ new) \<and> (changed \<longrightarrow> c) \<and> (\<not> c \<longrightarrow> (\<exists>f \<in> set r. f = fact_row_of player (ff_capture_id f) u))"
      using step find_SomeD [of _ rows] by (auto simp: confirm_topup_def known_topup_def fact_row_of_def split: option.splits)
    from Cons.prems step have "fold (confirm_topup player capture) ts (r, c) = (rows', changed')" by simp
    from Cons.IH [OF this] r show ?case by auto
  qed simp
  then show "\<exists>new. rows' = rows @ new" and "changed \<Longrightarrow> changed'"
    and "\<not> changed' \<Longrightarrow> t \<in> set ts \<Longrightarrow> \<exists>f \<in> set rows'. f = fact_row_of player (ff_capture_id f) t" by blast+
qed

lemma verify_funding_player:
  "verify_funding env data = Inr s \<Longrightarrow> bindE (subscript data ''player_id'') address = Inr (fn_player_id s)"
  unfolding verify_funding_def bindE_Inr raise_if_Inr by (auto simp: bindE_Inr)

text \<open>Recording a capture: the store before its facts, and then its facts and its alert.\<close>

lemma record_funding_cases:
  assumes "record_funding env data p = Inr (r, p')"
  obtains (incomplete) e c q where "verify_funding env data = Inl e" "p' = insert_capture c (p\<lparr>protocol_identity := q\<rparr>)"
      "r = \<lparr>fr_capture_id = fingerprint env data, fr_complete = False, fr_error = Some (class_name e)\<rparr>" "q = protocol_identity p"
    | (complete) s c q conflicting where "verify_funding env data = Inr s"
      "confirm_topups (fn_player_id s) (fingerprint env data) data s (insert_capture c (p\<lparr>protocol_identity := Some (fn_player_id s)\<rparr>)) = (q, conflicting)"
      "p' = (if conflicting then funding_alert env (fingerprint env data) q else q)"
      "r = \<lparr>fr_capture_id = fingerprint env data, fr_complete = \<not> conflicting,
         fr_error = (if conflicting then Some ''confirmed-topup-conflict'' else None)\<rparr>"
proof -
  obtain player checked p1 c where player: "bindE (subscript data ''player_id'') address = Inr player"
    and owner: "funding_owner player (case verify_funding env data of Inl _ \<Rightarrow> False | Inr _ \<Rightarrow> True) p = Inr p1"
    and c: "funding_capture_of env (fingerprint env data) data player checked (verify_funding env data) = Inr c"
    and run: "(case verify_funding env data of
        Inl e \<Rightarrow> Inr (\<lparr>fr_capture_id = fingerprint env data, fr_complete = False, fr_error = Some (class_name e)\<rparr>, insert_capture c p1)
      | Inr s \<Rightarrow>
          (case confirm_topups player (fingerprint env data) data s (insert_capture c p1) of
             (p, conflicting) \<Rightarrow>
               Inr (\<lparr>fr_capture_id = fingerprint env data, fr_complete = \<not> conflicting,
                      fr_error = (if conflicting then Some ''confirmed-topup-conflict'' else None)\<rparr>,
                 if conflicting then funding_alert env (fingerprint env data) p else p))) = (Inr (r, p') :: (funding_record \<times> pool) result)"
    using assms unfolding record_funding_def Let_def bindE_Inr by blast
  show ?thesis
  proof (cases "verify_funding env data")
    case (Inl e)
    with owner have "p1 = p\<lparr>protocol_identity := protocol_identity p\<rparr>" by (auto simp: funding_owner_def split: if_splits)
    with Inl run show ?thesis by (intro incomplete [OF Inl]) auto
  next
    case (Inr s)
    have "player = fn_player_id s" using verify_funding_player [OF Inr] player by simp
    moreover have "p1 = p\<lparr>protocol_identity := Some player\<rparr>" using owner Inr by (auto simp: funding_owner_def split: if_splits)
    moreover obtain q conflicting where q: "confirm_topups player (fingerprint env data) data s (insert_capture c p1) = (q, conflicting)"
      by fastforce
    ultimately show ?thesis using run Inr q complete [OF Inr, of c q conflicting] by simp
  qed
qed

text \<open>
  C34. A confirmed fact is final. Recording a capture only appends to the confirmed top-ups and
  moves no money; it is complete only when every top-up it confirms is recorded exactly as
  observed. When it contradicts a recorded fact an alert stays, and no top-up can be credited.
\<close>

theorem funding_facts_final:
  assumes run: "record_funding env data p = Inr (r, p')"
  shows "(\<exists>new. protocol_topup_facts (topup_funding p') = protocol_topup_facts (topup_funding p) @ new) \<and>
    ledger p' = ledger p \<and> protocol_topups p' = protocol_topups p \<and>
    protocol_topup_credits (topup_funding p') = protocol_topup_credits (topup_funding p) \<and>
    (fr_complete r \<longrightarrow> (\<exists>s. verify_funding env data = Inr s \<and> protocol_identity p' = Some (fn_player_id s) \<and>
       (\<forall>t \<in> set (fn_topups s). \<exists>f \<in> set (protocol_topup_facts (topup_funding p')). f = fact_row_of (fn_player_id s) (ff_capture_id f) t))) \<and>
    (fr_error r = Some ''confirmed-topup-conflict'' \<longrightarrow> funding_alerts p' \<noteq> [] \<and>
       (\<forall>env2 jid identity capture. \<exists>e. credit_topup env2 jid identity capture p' = Inl e))"
proof -
  have names: "class_name e \<noteq> ''confirmed-topup-conflict''" for e by (cases e) simp_all
  have refused: "\<exists>e. credit_topup env2 jid identity capture q = Inl e" if "funding_alerts q \<noteq> []" for env2 jid identity capture q
  proof (cases "credit_topup env2 jid identity capture q")
    case (Inr x)
    then obtain c q1 where "credit_topup env2 jid identity capture q = Inr (c, q1)" by (cases x) auto
    then have "funding_alerts q = []"
      unfolding credit_topup_def bindE_Inr raise_if_Inr by (auto dest!: facts_only_bind facts_only_same(4) split: if_splits)
    with that show ?thesis by simp
  qed simp
  from run show ?thesis
  proof (cases rule: record_funding_cases)
    case (incomplete e c q)
    then show ?thesis using names by (auto simp: insert_capture_def)
  next
    case (complete s c q conflicting)
    let ?p = "insert_capture c (p\<lparr>protocol_identity := Some (fn_player_id s)\<rparr>)"
    have base: "topup_funding ?p = topup_funding p" "ledger ?p = ledger p" "protocol_topups ?p = protocol_topups p"
      "protocol_identity ?p = Some (fn_player_id s)" by (simp_all add: insert_capture_def)
    obtain rows changed where rows: "fold (confirm_topup (fn_player_id s) (fingerprint env data)) (fn_topups s)
        (protocol_topup_facts (topup_funding p), False) = (rows, changed)" by fastforce
    have q: "q = ?p\<lparr>topup_funding := (topup_funding p)\<lparr>protocol_topup_facts := rows\<rparr>\<rparr>" and more: "\<not> conflicting \<Longrightarrow> \<not> changed"
      using complete(2) rows by (auto simp: confirm_topups_def base)
    have alert: "funding_alert env i q = q\<lparr>funding_alerts := funding_alerts (funding_alert env i q)\<rparr>"
      "funding_alerts (funding_alert env i q) \<noteq> []" for i
      by (cases "funding_alerts q"; simp add: funding_alert_def)+
    have p': "topup_funding p' = topup_funding q \<and> ledger p' = ledger q \<and> protocol_topups p' = protocol_topups q \<and>
        protocol_identity p' = protocol_identity q \<and> (conflicting \<longrightarrow> funding_alerts p' \<noteq> [])"
      using complete(3) alert(2) by (auto simp: funding_alert_def)
    have facts: "\<not> conflicting \<Longrightarrow> t \<in> set (fn_topups s) \<Longrightarrow> \<exists>f \<in> set rows. f = fact_row_of (fn_player_id s) (ff_capture_id f) t" for t
      using confirm_all(3) [OF rows] more by blast
    have "protocol_topup_facts (topup_funding p') = rows" using p' by (simp add: q)
    moreover have "\<exists>new. rows = protocol_topup_facts (topup_funding p) @ new" using confirm_all(1) [OF rows] .
    moreover have "ledger p' = ledger p" "protocol_topups p' = protocol_topups p" "protocol_identity p' = Some (fn_player_id s)"
      "protocol_topup_credits (topup_funding p') = protocol_topup_credits (topup_funding p)"
      using p' base by (simp_all add: q)
    moreover have "fr_complete r \<longleftrightarrow> \<not> conflicting" "fr_error r = Some ''confirmed-topup-conflict'' \<Longrightarrow> conflicting"
      using complete(4) by (simp_all split: if_splits)
    ultimately show ?thesis using complete(1) facts p' refused by auto
  qed
qed

section \<open>An example\<close>

text \<open>A top-up of 30 units with a gas budget of 5 units, its transaction, and the protocol's confirmation of it.\<close>

definition tu_text :: "char \<Rightarrow> nat \<Rightarrow> string" where "tu_text c n = ''0x'' @ replicate n c"

definition tu_net :: network where
  "tu_net = demo_net\<lparr>net_custody := tu_text (CHR ''b'') 40\<rparr>"

definition tu_row :: protocol_topup_row where
  "tu_row = new_topup demo_env ''t1'' ''key'' (wd_preflight\<lparr>pf_network := tu_net\<rparr>) ''cap'' (tu_text (CHR ''c'') 40) 30 5 ''ethereum'' ''op''"

definition tu_account :: "string \<Rightarrow> account_kind \<Rightarrow> asset \<Rightarrow> int \<Rightarrow> account_row" where
  "tu_account k kind a n = \<lparr>acc_id = k, acc_kind = kind, acc_asset = a, acc_location = Custody, acc_balance = n\<rparr>"

definition tu_sent :: pool where
  "tu_sent = empty_pool\<lparr>ledger := empty_ledger\<lparr>accounts :=
     [tu_account ''external:custody:TIG'' KExternal AssetTIG (-40), tu_account ''external:custody:NATIVE'' KExternal AssetNATIVE (-9),
      tu_account operator_tig KOperator AssetTIG 10, tu_account operator_native KOperator AssetNATIVE 4,
      tu_account (topup_held ''t1'' AssetTIG) KOperatorCommitment AssetTIG 30,
      tu_account (topup_held ''t1'' AssetNATIVE) KOperatorCommitment AssetNATIVE 5,
      (tu_account ''external:protocol:TIG'' KExternal AssetTIG 0)\<lparr>acc_location := Protocol\<rparr>,
      (tu_account OPERATOR_FEES KOperator AssetTIG 0)\<lparr>acc_location := Protocol\<rparr>]\<rparr>,
     protocol_topups := [tu_row],
     custody_sends := [\<lparr>cs_id = ''t1'', cs_chain_id = 1, cs_sender = net_custody tu_net, cs_nonce = 0, cs_kind = ''protocol_topup''\<rparr>]\<rparr>"

definition tu_transaction :: confirmed_transaction where
  "tu_transaction = \<lparr>tx_network = tu_net, tx_hash = tu_text (CHR ''a'') 64, tx_sender = net_custody tu_net, tx_recipient = Some ''0x0c'',
     tx_nonce = 0, tx_successful = True, tx_value = 0, tx_fee = 2, tx_fee_model = ''ethereum'', tx_block_number = 2,
     tx_block_hash = ''0xh9'', tx_block_timestamp = 5, tx_evidence = JNull\<rparr>"

definition tu_transfer :: confirmed_transfer where
  "tu_transfer = \<lparr>tf_network = tu_net, tf_tx_hash = tu_text (CHR ''a'') 64, tf_log_index = 0, tf_block_number = 2, tf_block_hash = ''0xh9'',
     tf_block_timestamp = 5, tf_sender = net_custody tu_net, tf_recipient = tu_text (CHR ''c'') 40, tf_amount = 30, tf_evidence = JNull\<rparr>"

definition tu_paid :: pool where
  "tu_paid = snd (reconcile_topup demo_env ''j1'' ''t1'' tu_transaction (Some tu_transfer) tu_sent)"

lemma tu_sent_ok: "topups_ok tu_sent"
  by (auto simp: topups_ok_def topup_money_ok_def topup_row_ok_def credits_once_def tu_sent_def empty_pool_def empty_ledger_def empty_funding_def
      recorded_def balance_def tu_account_def topup_due_def tu_row_def new_topup_def)

lemma tu_paid_run: "reconcile_topup demo_env ''j1'' ''t1'' tu_transaction (Some tu_transfer) tu_sent =
    (Inr \<lparr>tp_id = ''t1'', tp_state = ''awaiting_protocol'', tp_fee = 2\<rparr>, tu_paid)"
proof -
  have "fst (reconcile_topup demo_env ''j1'' ''t1'' tu_transaction (Some tu_transfer) tu_sent) =
    Inr \<lparr>tp_id = ''t1'', tp_state = ''awaiting_protocol'', tp_fee = 2\<rparr>" by code_simp
  then show ?thesis by (simp add: tu_paid_def prod_eq_iff)
qed

theorem reconcile_topup_once_witness:
  "balance (ledger tu_paid) ''external:custody:TIG'' = -10 \<and> balance (ledger tu_paid) (topup_held ''t1'' AssetTIG) = 0 \<and>
   ledger (snd (reconcile_topup demo_env ''j9'' ''t1'' tu_transaction None tu_paid)) = ledger tu_paid"
proof -
  note once = reconcile_topup_once [OF tu_sent_ok tu_paid_run]
  have "lookup cp_send_id ''t1'' (custody_payments tu_sent) = None" by (simp add: tu_sent_def empty_pool_def)
  with once have "balance (ledger tu_paid) (topup_held ''t1'' AssetTIG) = 0" by auto
  moreover have "balance (ledger tu_paid) ''external:custody:TIG'' = -10" by code_simp
  ultimately show ?thesis using once by (metis prod.collapse)
qed

definition tu_block :: json where
  "tu_block = JDict [(''block'', JDict [(''config'', JDict [(''topups'', JDict [(''min_topup_amount'', JStr ''1''),
       (''topup_address'', JStr (tu_text (CHR ''c'') 40))])]),
     (''details'', JDict [(''height'', JInt 9), (''timestamp'', JInt 0)]), (''id'', JStr ''b1'')])]"

definition tu_feed_row :: json where
  "tu_feed_row = JDict [(''details'', JDict [(''amount'', JStr ''30''), (''log_idx'', JInt 0), (''player_id'', JStr (net_custody tu_net)),
     (''tx_hash'', JStr (tu_text (CHR ''a'') 64))]), (''id'', JStr (replicate 32 (CHR ''d''))), (''state'', JDict [(''block_confirmed'', JInt 8)])]"

definition tu_capture :: json where
  "tu_capture = JDict [(''checked_at'', JStr ''0''), (''end'', tu_block), (''error'', JNull),
     (''player_data'', JDict [(''player'', JDict [(''id'', JStr (net_custody tu_net)), (''state'', JDict [(''available_fee_balance'', JStr ''30'')])]),
       (''topups'', JList [tu_feed_row])]),
     (''player_id'', JStr (net_custody tu_net)), (''start'', tu_block), (''version'', JInt 1)]"

definition tu_fact :: topup_fact where
  "tu_fact = \<lparr>tu_id = replicate 32 (CHR ''d''), tu_tx_hash = tu_text (CHR ''a'') 64, tu_log_index = 0, tu_amount = 30, tu_height = 8\<rparr>"

definition tu_snapshot :: funding_snapshot where
  "tu_snapshot = \<lparr>fn_player_id = net_custody tu_net, fn_block_id = JStr ''b1'', fn_height = 9, fn_checked_at = 0,
     fn_recipient = tu_text (CHR ''c'') 40, fn_minimum = 1, fn_available = 30, fn_topups = [tu_fact]\<rparr>"

text \<open>The digests play no part here: any function will do.\<close>

definition tu_env :: env where "tu_env = demo_env\<lparr>sha256 := \<lambda>_. ''cap''\<rparr>"

lemma tu_hex:
  assumes "is_hex c" and "lower_char c = c" and "c \<noteq> CHR ''0''"
  shows "address (JStr (tu_text c 40)) = Inr (tu_text c 40)" and "hex_bytes 32 (JStr (tu_text c 64)) = Inr (tu_text c 64)"
proof -
  have "lower_char (CHR ''0'') = CHR ''0'' \<and> lower_char (CHR ''x'') = CHR ''x''" by code_simp
  then have "lower (tu_text c n) = tu_text c n" for n using assms(2) by (simp add: lower_def tu_text_def)
  with assms(1,3) show "address (JStr (tu_text c 40)) = Inr (tu_text c 40)" and "hex_bytes 32 (JStr (tu_text c 64)) = Inr (tu_text c 64)"
    by (auto simp: address_def hex_bytes_def tu_text_def list_all_iff)
qed

lemma tu_chars: "is_hex (CHR ''a'')" "is_hex (CHR ''b'')" "is_hex (CHR ''c'')" "lower_char (CHR ''a'') = CHR ''a''"
  "lower_char (CHR ''b'') = CHR ''b''" "lower_char (CHR ''c'') = CHR ''c''"
  by code_simp+

lemma tu_values: "funding_amount (JStr ''1'') = Inr 1" "funding_amount (JStr ''30'') = Inr 30" "is_topup_id (JStr (replicate 32 (CHR ''d'')))"
  "seconds 0 = 0" "checked_time tu_env m (JStr ''0'') = Inr 0" "json_eq tu_block tu_block"
  "tu_text (CHR ''c'') 40 \<noteq> tu_text (CHR ''b'') 40" "net_custody tu_net = tu_text (CHR ''b'') 40"
  by (code_simp, code_simp, code_simp, code_simp, simp add: checked_time_def parse_time_def tu_env_def demo_env_def text_value_def,
      code_simp, simp add: tu_text_def, simp add: tu_net_def)

lemma tu_verified: "verify_funding tu_env tu_capture = Inr tu_snapshot"
  by (simp add: verify_funding_def verify_block_def verify_policy_def verify_available_def known_player_def no_state_def
      verify_topups_def read_topup_def topup_details_def equals_one_def json_get_def get_def subscript_def item_def falsy_def
      p_integer_def identity_of_def tu_capture_def tu_block_def tu_feed_row_def tu_snapshot_def tu_fact_def tu_values tu_hex tu_chars
      seconds_def)

lemma tu_player: "bindE (subscript tu_capture ''player_id'') address = Inr (net_custody tu_net)"
  using verify_funding_player [OF tu_verified] by (simp add: tu_snapshot_def)

lemma tu_fields: "bindE (subscript tu_capture ''checked_at'') (checked_time tu_env m) = Inr 0" "topup_rows tu_capture = [tu_feed_row]"
  "sort_keys tu_capture = tu_capture" "fingerprint tu_env v = ''cap''"
  by (simp add: tu_capture_def subscript_def checked_time_def parse_time_def tu_env_def demo_env_def text_value_def,
      code_simp, code_simp, simp add: fingerprint_def tu_env_def)

lemma tu_paid_tables: "protocol_identity tu_paid = None \<and> funding_captures tu_paid = [] \<and> funding_alerts tu_paid = [] \<and>
   protocol_topup_facts (topup_funding tu_paid) = [] \<and> map_option ci_wallet (custody_identity tu_paid) = Some (net_custody tu_net)"
  by code_simp

definition tu_archived :: funding_capture_row where
  "tu_archived = \<lparr>fc_id = ''cap'', fc_player_id = net_custody tu_net, fc_block_id = Some ''b1'', fc_height = Some 9, fc_available = Some 30,
     fc_checked_at = 0, fc_complete = True, fc_error = None, fc_created_at = 0, fc_payload = tu_capture, fc_expired_at = None\<rparr>"

definition tu_observed :: pool where
  "tu_observed = tu_paid\<lparr>protocol_identity := Some (net_custody tu_net), funding_captures := [tu_archived],
     topup_funding := (topup_funding tu_paid)\<lparr>protocol_topup_facts := [fact_row_of (net_custody tu_net) ''cap'' tu_fact]\<rparr>\<rparr>"

lemma tu_observed_run: "record_funding tu_env tu_capture tu_paid =
    Inr (\<lparr>fr_capture_id = ''cap'', fr_complete = True, fr_error = None\<rparr>, tu_observed)"
proof -
  have "\<not> list_ex (unconfirmed 9 [fact_row_of (net_custody tu_net) ''cap'' tu_fact]) [tu_feed_row]" by (simp add: unconfirmed_def tu_feed_row_def get_def)
  moreover have "clock tu_env = 0" by (simp add: tu_env_def demo_env_def)
  ultimately show ?thesis using tu_paid_tables
    by (auto simp: record_funding_def Let_def tu_fields tu_player tu_verified funding_owner_def funding_capture_of_def text_column_def
        insert_capture_def confirm_topups_def confirm_topup_def known_topup_def tu_snapshot_def tu_observed_def tu_archived_def split: option.splits)
qed

theorem funding_facts_final_witness:
  "\<exists>p. record_funding tu_env tu_capture tu_paid = Inr (\<lparr>fr_capture_id = ''cap'', fr_complete = True, fr_error = None\<rparr>, p) \<and>
     fact_row_of (net_custody tu_net) ''cap'' tu_fact \<in> set (protocol_topup_facts (topup_funding p)) \<and> ledger p = ledger tu_paid"
  using funding_facts_final [OF tu_observed_run] tu_observed_run by (auto simp: tu_observed_def)

lemma tu_observed_ok: "topups_ok tu_observed"
  using reconcile_topup_ok(1) [OF tu_sent_ok tu_paid_run] by (simp add: topups_ok_def tu_observed_def)

lemma tu_read: "read_funding tu_env ''cap'' tu_observed = Inr tu_snapshot"
  by (simp add: read_funding_def read_capture_def tu_observed_def tu_archived_def tu_fields tu_verified) (simp add: tu_env_def)

lemma tu_credited: "case credit_topup tu_env ''j2'' ''t1'' ''cap'' tu_observed of Inl _ \<Rightarrow> False
   | Inr (c, p) \<Rightarrow> balance (ledger p) OPERATOR_FEES = 30"
  unfolding credit_topup_def tu_read bindE_simps by code_simp

theorem credit_topup_once_witness:
  "\<exists>c p. credit_topup tu_env ''j2'' ''t1'' ''cap'' tu_observed = Inr (c, p) \<and> tc_send_id c = ''t1'' \<and> balance (ledger p) OPERATOR_FEES = 30 \<and>
     credits_once (protocol_topup_credits (topup_funding p))"
proof -
  obtain c p where run: "credit_topup tu_env ''j2'' ''t1'' ''cap'' tu_observed = Inr (c, p)" and "balance (ledger p) OPERATOR_FEES = 30"
    using tu_credited by (cases "credit_topup tu_env ''j2'' ''t1'' ''cap'' tu_observed") auto
  with credit_topup_once [OF tu_observed_ok run] show ?thesis by blast
qed

end
