(* ===== verification/Operator_Funding.thy ===== *)
theory Operator_Funding
  imports Funding Benchmarks
begin

text \<open>
  Money the operator brings in besides top-ups: the opening credit of a fresh testnet account
  (\<open>pool_manager/pool_v2/starter_credit.py\<close>), posted at most once and before any protocol
  activity, and native currency received by an internal call (\<open>native_funding.receive\<close>).
\<close>

section \<open>The opening credit\<close>

definition AMOUNT :: int where "AMOUNT = 10 * TIG"

definition SOURCE :: string where "SOURCE = ''tig-testnet-starter''"

text \<open>One end of the capture names the testnet's chain and token.\<close>

definition testnet_token :: "json \<Rightarrow> string \<Rightarrow> unit result" where
  "testnet_token data side =
     bindE (path data [side, ''block'', ''config'']) (\<lambda>config.
     bindE (case config of JDict items \<Rightarrow> Inr (case dict_get ''erc20'' items of None \<Rightarrow> JDict [] | Some v \<Rightarrow> v) | _ \<Rightarrow> Inl AttributeError) (\<lambda>token.
     bindE (json_get token ''chain_id'') (\<lambda>chain. bindE (json_get token ''token_address'') (\<lambda>contract.
     if (chain, contract) \<noteq> (JStr (hex_text CHAIN_ID), JStr TOKEN)
     then Inl (FundsError ''starter-credit capture has a different chain or token'') else Inr ()))))"

definition testnet_custody :: "string \<Rightarrow> pool \<Rightarrow> bool" where
  "testnet_custody player p = (case custody_identity p of
     None \<Rightarrow> False
   | Some c \<Rightarrow> (ci_chain_id c, ci_token c, ci_wallet c, ci_decimals c) = (CHAIN_ID, TOKEN, player, 18))"

text \<open>The newest observation of this player is the given one, complete, fresh and uncontradicted.\<close>

definition latest_observation :: "env \<Rightarrow> string \<Rightarrow> string \<Rightarrow> funding_status \<Rightarrow> bool" where
  "latest_observation env player capture_id s \<longleftrightarrow> fs_initialized s \<and> fs_player_id s = player \<and> fs_conflicts s = [] \<and>
     (case fs_observation s of None \<Rightarrow> False | Some c \<Rightarrow> fc_id c = capture_id \<and> fc_complete c \<and> fresh env (fc_checked_at c))"

definition protocol_activity :: "pool \<Rightarrow> bool" where
  "protocol_activity p \<longleftrightarrow> reservations p \<noteq> [] \<or> protocol_topups p \<noteq> [] \<or> protocol_topup_facts (topup_tables p) \<noteq> [] \<or>
     (\<exists>e \<in> set (entries (ledger p)). case lookup acc_id (en_account e) (accounts (ledger p)) of
        None \<Rightarrow> False | Some a \<Rightarrow> acc_location a = Protocol) \<or> protocol_balance p \<noteq> 0"

text \<open>The evidence of the capture, in the order of the code.\<close>

definition starter_evidence :: "env \<Rightarrow> string \<Rightarrow> string \<Rightarrow> pool \<Rightarrow> unit result" where
  "starter_evidence env capture_id player p =
     bindE (read_capture env capture_id p) (\<lambda>data.
     bindE (verify_funding env data) (\<lambda>snapshot.
     if fn_player_id snapshot \<noteq> player then Inl (Conflict ''starter-credit evidence belongs to another player'') else
     bindE (json_get data ''api_origin'') (\<lambda>origin.
     if origin \<noteq> JStr API_ORIGIN then Inl (FundsError ''starter credit requires an explicit official testnet capture'') else
     bindE (testnet_token data ''start'') (\<lambda>_. bindE (testnet_token data ''end'') (\<lambda>_.
     if fn_available snapshot \<noteq> AMOUNT then Inl (FundsError ''starter credit requires exactly 10 TIG and no top-up history'') else
     bindE (path data [''player_data'', ''topups'']) (\<lambda>ts.
     if \<not> falsy ts then Inl (FundsError ''starter credit requires exactly 10 TIG and no top-up history'') else Inr ()))))))"

definition starter_guards :: "env \<Rightarrow> string \<Rightarrow> string \<Rightarrow> pool \<Rightarrow> unit result" where
  "starter_guards env capture_id player p =
     bindE (starter_evidence env capture_id player p) (\<lambda>_.
     if \<not> testnet_custody player p
     then Inl (Conflict ''initialize the matching testnet custody identity before starter credit'') else
     bindE (funding_status_of env p) (\<lambda>s.
     if \<not> latest_observation env player capture_id s
     then Inl (Conflict ''starter credit requires the latest fresh, complete funding observation'')
     else if protocol_activity p then Inl (Conflict ''starter credit must be initialized before any pool protocol activity'')
     else Inr ()))"

definition starter_movements :: "movement list" where
  "starter_movements = [(''external:protocol:TIG'', - AMOUNT), (OPERATOR_FEES, AMOUNT)]"

definition starter_initialize :: "env \<Rightarrow> string \<Rightarrow> string \<Rightarrow> json \<Rightarrow> string \<Rightarrow> pool \<Rightarrow> (opening_credit_row \<times> pool) result" where
  "starter_initialize env jid capture_id player_id actor p =
     bindE (address player_id) (\<lambda>player.
     if strip actor = [] \<or> length actor > 200 then Inl (FundsError ''starter-credit setup requires a named operator'') else
     case lookup oc_source SOURCE (protocol_opening_credits (topup_tables p)) of
       Some previous \<Rightarrow>
         if oc_player_id previous \<noteq> player then Inl (Conflict ''starter credit already belongs to a different player'')
         else Inr (previous, p)
     | None \<Rightarrow>
         bindE (starter_guards env capture_id player p) (\<lambda>_.
         bindE (on_ledger (post env jid (''protocol-opening:'' @ SOURCE) ''operator_testnet_starter_credit'' starter_movements
           (JDict [(''source'', JStr SOURCE), (''capture_id'', JStr capture_id), (''player_id'', JStr player),
             (''api_origin'', JStr API_ORIGIN), (''chain_id'', JInt CHAIN_ID), (''token'', JStr TOKEN), (''actor'', JStr actor)]) None) p)
         (\<lambda>(journal_id, p).
           let row = \<lparr>oc_source = SOURCE, oc_player_id = player, oc_capture_id = capture_id, oc_amount = AMOUNT,
             oc_journal_id = journal_id, oc_actor = actor\<rparr> in
           if lookup oc_capture_id capture_id (protocol_opening_credits (topup_tables p)) \<noteq> None
              \<or> lookup oc_journal_id journal_id (protocol_opening_credits (topup_tables p)) \<noteq> None
           then Inl (IntegrityError ''protocol_opening_credits'') else
           Inr (row, p\<lparr>topup_funding := (topup_tables p)\<lparr>protocol_opening_credits :=
             protocol_opening_credits (topup_tables p) @ [row]\<rparr>\<rparr>))))"

section \<open>Native currency received by an internal call\<close>

text \<open>\<open>path(value, root)\<close>: the position of a call in its transaction's tree of calls.\<close>

definition is_call_index :: "json \<Rightarrow> bool" where
  "is_call_index v = (case v of JInt n \<Rightarrow> 0 \<le> n \<and> n < 2 ^ 31 | _ \<Rightarrow> False)"

definition call_path :: "json \<Rightarrow> bool \<Rightarrow> int list result" where
  "call_path value outermost = (case value of
     JList xs \<Rightarrow> if (if outermost then 0 else 1) \<le> length xs \<and> length xs \<le> 64 \<and> list_all is_call_index xs then Inr (map int_of xs)
       else Inl (FundsError ''internal transfer path must contain nonnegative integer call indexes'')
   | _ \<Rightarrow> Inl (FundsError ''internal transfer path must contain nonnegative integer call indexes''))"

record internal_receipt =
  nr_transaction :: confirmed_transaction
  nr_trace_address :: "int list"
  nr_sender :: string
  nr_recipient :: string
  nr_amount :: int
  nr_evidence :: json

text \<open>\<open>'.'.join(map(str, location))\<close> after the chain and the transaction.\<close>

definition receipt_identity :: "int \<Rightarrow> string \<Rightarrow> int list \<Rightarrow> string" where
  "receipt_identity chain h location = join '':'' [int_text chain, h, join ''.'' (map int_text location)]"

definition internal_movements :: "internal_receipt \<Rightarrow> movement list" where
  "internal_movements r = [(''external:custody:NATIVE'', - nr_amount r), (''operator:custody:NATIVE'', nr_amount r)]"

definition internal_row :: "internal_receipt \<Rightarrow> string \<Rightarrow> internal_receipt_row" where
  "internal_row r actor = \<lparr>ni_chain_id = net_chain_id (tx_network (nr_transaction r)), ni_tx_hash = tx_hash (nr_transaction r),
     ni_trace_address = nr_trace_address r, ni_sender = nr_sender r, ni_recipient = nr_recipient r, ni_amount = nr_amount r,
     ni_actor = actor, ni_evidence = nr_evidence r\<rparr>"

definition internal_key :: "internal_receipt_row \<Rightarrow> int \<times> string \<times> int list" where
  "internal_key r = (ni_chain_id r, ni_tx_hash r, ni_trace_address r)"

definition from_outside :: "internal_receipt \<Rightarrow> bool" where
  "from_outside r \<longleftrightarrow> (let t = nr_transaction r; custody = net_custody (tx_network t) in
     tx_successful t \<and> nr_recipient r = custody \<and> nr_sender r \<noteq> custody \<and> tx_sender t \<noteq> custody)"

definition receive_internal :: "env \<Rightarrow> string \<Rightarrow> internal_receipt \<Rightarrow> string \<Rightarrow> pool \<Rightarrow> (unit \<times> pool) result" where
  "receive_internal env jid r actor p =
     (if actor = [] then Inl (FundsError ''verified internal native receipt and operator identity required'') else
      let t = nr_transaction r; row = internal_row r actor in
      bindE (call_path (JList (map JInt (nr_trace_address r))) False) (\<lambda>location.
      bindE (units True (JInt (nr_amount r))) (\<lambda>_.
      if \<not> from_outside r then Inl (FundsError ''internal native funding must come from outside pool custody'') else
      bindE (bind (tx_network t) p) (\<lambda>(_, p).
      bindE (save_transaction t p) (\<lambda>(_, p).
      case lookup internal_key (internal_key row) (native_internal_receipts (topup_tables p)) of
        Some previous \<Rightarrow>
          if (ni_sender previous, ni_recipient previous, ni_amount previous) \<noteq> (nr_sender r, nr_recipient r, nr_amount r)
          then Inl (Conflict ''recorded internal native transfer facts changed'') else Inr ((), p)
      | None \<Rightarrow>
          let p = p\<lparr>topup_funding := (topup_tables p)\<lparr>native_internal_receipts := native_internal_receipts (topup_tables p) @ [row]\<rparr>\<rparr>
          in bindE (on_ledger (post env jid (''native-internal-receipt:'' @ receipt_identity (ni_chain_id row) (ni_tx_hash row) location)
               ''operator_native_funding'' (internal_movements r)
               (JDict [(''chain_id'', JInt (ni_chain_id row)), (''tx_hash'', JStr (ni_tx_hash row)),
                 (''trace_address'', JList (map JInt location)), (''sender'', JStr (nr_sender r)), (''actor'', JStr actor)]) None) p)
             (\<lambda>(_, p). Inr ((), p)))))))"

end
