(* ===== verification/Readings.thy ===== *)
theory Readings
  imports Payload Hex
begin

text \<open>
  Programs that read a chain over RPC (\<open>chain.Rpc\<close> and the trace provider), kept apart from what
  answers them. A reading is its next question and what it does with the answer, so that the same
  code runs against the network and against the answers an archive recorded. The last section
  shows that replaying what a run recorded gives what the run gave.
\<close>

section \<open>Readings\<close>

datatype source = ChainRpc | TraceRpc

datatype 'a reading =
    Done "'a result"
  | Ask source string "json list" "json \<Rightarrow> 'a reading"

primrec bindR :: "'a reading \<Rightarrow> ('a \<Rightarrow> 'b reading) \<Rightarrow> 'b reading" where
  "bindR (Done r) k = (case r of Inl e \<Rightarrow> Done (Inl e) | Inr x \<Rightarrow> k x)"
| "bindR (Ask s m ps c) k = Ask s m ps (\<lambda>v. bindR (c v) k)"

definition ask :: "source \<Rightarrow> string \<Rightarrow> json list \<Rightarrow> json reading" where
  "ask s m ps = Ask s m ps (\<lambda>v. Done (Inr v))"

text \<open>A reading of every element, in order.\<close>

fun mapR :: "('a \<Rightarrow> 'b reading) \<Rightarrow> 'a list \<Rightarrow> 'b list reading" where
  "mapR f [] = Done (Inr [])"
| "mapR f (x # xs) = bindR (f x) (\<lambda>y. bindR (mapR f xs) (\<lambda>ys. Done (Inr (y # ys))))"

fun foldR :: "('a \<Rightarrow> 's \<Rightarrow> 's reading) \<Rightarrow> 'a list \<Rightarrow> 's \<Rightarrow> 's reading" where
  "foldR f [] s = Done (Inr s)"
| "foldR f (x # xs) s = bindR (f x s) (foldR f xs)"

section \<open>What answers them\<close>

text \<open>A provider answers, or raises, and may be in another state afterwards.\<close>

type_synonym 's provider = "'s \<Rightarrow> source \<Rightarrow> string \<Rightarrow> json list \<Rightarrow> json result \<times> 's"

primrec run :: "'a reading \<Rightarrow> 's provider \<Rightarrow> 's \<Rightarrow> 'a result \<times> 's" where
  "run (Done r) answer s = (r, s)"
| "run (Ask src m ps k) answer s =
     (case answer s src m ps of
        (Inl e, s') \<Rightarrow> (Inl e, s')
      | (Inr v, s') \<Rightarrow> run (k v) answer s')"

text \<open>
  An archive keeps one entry for every answer: \<open>recording\<close> is the provider that appends the
  entries of the answers it gives, \<open>replaying\<close> answers from entries in their order, each for the
  question it was made for, and raises when they are used up.
\<close>

definition recording :: "(source \<Rightarrow> string \<Rightarrow> json list \<Rightarrow> json \<Rightarrow> 'c) \<Rightarrow> 's provider \<Rightarrow> ('s \<times> 'c list) provider" where
  "recording entry answer = (\<lambda>(s, calls) src m ps.
     case answer s src m ps of
       (Inl e, s') \<Rightarrow> (Inl e, (s', calls))
     | (Inr v, s') \<Rightarrow> (Inr v, (s', calls @ [entry src m ps v])))"

definition replaying :: "('c \<Rightarrow> source \<Rightarrow> string \<Rightarrow> json list \<Rightarrow> json result) \<Rightarrow> error \<Rightarrow> 'c list provider" where
  "replaying reply missing calls src m ps =
     (case calls of [] \<Rightarrow> (Inl missing, []) | c # rest \<Rightarrow> (reply c src m ps, rest))"

section \<open>Laws\<close>

lemma bindR_Done [simp]: "bindR (Done (Inl e)) k = Done (Inl e)" "bindR (Done (Inr x)) k = k x"
  by simp_all

lemma run_bindR:
  "run (bindR m k) answer s = (case run m answer s of (Inl e, s') \<Rightarrow> (Inl e, s') | (Inr x, s') \<Rightarrow> run (k x) answer s')"
  by (induction m arbitrary: s) (auto split: sum.splits prod.splits)

lemma run_ask [simp]: "run (ask src m ps) answer s = answer s src m ps"
  by (auto simp: ask_def split: sum.splits prod.splits)

text \<open>Recording changes nothing of a run, and only appends.\<close>

lemma run_recording:
  "run m (recording entry answer) (s, calls) = (r, (s', calls')) \<Longrightarrow> run m answer s = (r, s') \<and> (\<exists>new. calls' = calls @ new)"
proof (induction m arbitrary: s calls)
  case (Ask src m ps k)
  show ?case
  proof (cases "answer s src m ps")
    case (Pair a s1)
    show ?thesis
    proof (cases a)
      case (Inl e)
      with Pair Ask.prems show ?thesis by (simp add: recording_def)
    next
      case (Inr v)
      with Pair Ask.prems have "run (k v) (recording entry answer) (s1, calls @ [entry src m ps v]) = (r, (s', calls'))"
        by (simp add: recording_def)
      from Ask.IH [OF rangeI this] Pair Inr show ?thesis by auto
    qed
  qed
qed simp

text \<open>What holds of every answer of a run.\<close>

lemma run_cong:
  assumes "\<And>s src m ps. answer s src m ps = answer' s src m ps"
  shows "run m answer s = run m answer' s"
  using assms by (induction m arbitrary: s) (auto split: sum.splits prod.splits)

section \<open>Archives\<close>

text \<open>An entry answers the question it was made for.\<close>

locale archive =
  fixes entry :: "source \<Rightarrow> string \<Rightarrow> json list \<Rightarrow> json \<Rightarrow> 'c"
    and reply :: "'c \<Rightarrow> source \<Rightarrow> string \<Rightarrow> json list \<Rightarrow> json result"
  assumes reply_entry: "reply (entry src m ps v) src m ps = Inr v"
begin

lemma replay_recorded:
  assumes "run m (recording entry answer) (s, calls) = (Inr x, (s', calls @ new))"
  shows "run m (replaying reply missing) (new @ rest) = (Inr x, rest)"
  using assms
proof (induction m arbitrary: s calls new)
  case (Ask src m ps k)
  show ?case
  proof (cases "answer s src m ps")
    case (Pair a s1)
    show ?thesis
    proof (cases a)
      case (Inl e)
      with Pair Ask.prems show ?thesis by (simp add: recording_def)
    next
      case (Inr v)
      let ?c = "entry src m ps v"
      have step: "run (k v) (recording entry answer) (s1, calls @ [?c]) = (Inr x, (s', calls @ new))"
        using Pair Inr Ask.prems by (simp add: recording_def)
      obtain more where "calls @ new = (calls @ [?c]) @ more" using run_recording [OF step] by (elim conjE exE)
      then have new: "new = ?c # more" by simp
      have "run (k v) (recording entry answer) (s1, calls @ [?c]) = (Inr x, (s', (calls @ [?c]) @ more))" using step new by simp
      then have rest: "run (k v) (replaying reply missing) (more @ rest) = (Inr x, rest)" by (rule Ask.IH [OF rangeI])
      have "replaying reply missing (?c # more @ rest) src m ps = (Inr v, more @ rest)" by (simp add: replaying_def reply_entry)
      then show ?thesis unfolding new using rest by simp
    qed
  qed
qed simp

text \<open>What a successful run recorded, and nothing more, replays to the same result.\<close>

lemma replay_of_recording:
  assumes "run m (recording entry answer) (s, []) = (Inr x, (s', calls))"
  shows "run m (replaying reply missing) calls = (Inr x, [])"
  using replay_recorded [of m answer s "[]" x s' calls missing "[]"] assms by simp

end

end
