(* ===== verification/Chain.thy ===== *)
theory Chain
  imports Readings Custody
begin

text \<open>
  \<open>pool_manager/pool_v2/chain.py\<close>: what is read from the chain and how it is checked. Every
  method of \<open>Chain\<close> is a reading; the RPC adapter itself (HTTP) is the provider that answers it.
\<close>

definition TRANSFER_TOPIC :: string where
  "TRANSFER_TOPIC = ''0xddf252ad1be2c89b69c2b068fc378daa952ba7f163c4a11628f55a4df523b3ef''"

section \<open>Values\<close>

definition json_length :: "json \<Rightarrow> int result" where
  "json_length v = (case v of JList xs \<Rightarrow> Inr (int (length xs)) | JStr s \<Rightarrow> Inr (int (length s))
     | JDict items \<Rightarrow> Inr (int (length items)) | _ \<Rightarrow> Inl TypeError)"

definition element :: "json \<Rightarrow> nat \<Rightarrow> json result" where
  "element v n =
     (case v of
        JList xs \<Rightarrow> if n < length xs then Inr (xs ! n) else Inl IndexError
      | JStr s \<Rightarrow> if n < length s then Inr (JStr [s ! n]) else Inl IndexError
      | JDict _ \<Rightarrow> Inl KeyError
      | _ \<Rightarrow> Inl TypeError)"

text \<open>\<open>[x for x in xs if p(x)]\<close>, with a condition that may raise.\<close>

fun filterE :: "('a \<Rightarrow> bool result) \<Rightarrow> 'a list \<Rightarrow> 'a list result" where
  "filterE p [] = Inr []"
| "filterE p (x # xs) = bindE (p x) (\<lambda>b. bindE (filterE p xs) (\<lambda>ys. Inr (if b then x # ys else ys)))"

text \<open>The fields of a response.\<close>

definition quantity_at :: "json \<Rightarrow> string \<Rightarrow> int result" where
  "quantity_at v k = bindE (subscript v k) quantity"

definition hash_at :: "json \<Rightarrow> string \<Rightarrow> string result" where
  "hash_at v k = bindE (subscript v k) (hex_bytes 32)"

definition address_at :: "json \<Rightarrow> string \<Rightarrow> string result" where
  "address_at v k = bindE (subscript v k) address"

text \<open>\<open>int(hex_bytes(value, 32), 16)\<close>.\<close>

definition word_value :: "json \<Rightarrow> int result" where
  "word_value v = bindE (hex_bytes 32 v) (\<lambda>s. Inr (int (parse_hex (drop 2 s))))"

text \<open>\<open>datetime.fromtimestamp(n, timezone.utc)\<close>: years after 9999 are refused.\<close>

definition from_timestamp :: "int \<Rightarrow> timestamp result" where
  "from_timestamp n = (if n > 253402300799 then Inl (ValueError ''year is out of range'') else Inr (seconds n))"

section \<open>Fees\<close>

definition has_key :: "json \<Rightarrow> string \<Rightarrow> bool" where
  "has_key v k = (case v of JDict items \<Rightarrow> dict_get k items \<noteq> None | _ \<Rightarrow> False)"

definition ethereum_fee :: "json \<Rightarrow> int \<Rightarrow> int result" where
  "ethereum_fee receipt execution =
     (if list_ex (has_key receipt) [''l1Fee'', ''operatorFeeScalar'', ''daFootprintGasScalar'']
      then Inl (FundsError ''OP Stack receipt cannot use the Ethereum-only fee rule'') else
      bindE (if has_key receipt ''blobGasUsed'' then quantity_at receipt ''blobGasUsed'' else Inr 0) (\<lambda>blob.
      if blob = 0 then Inr execution else
      bindE (quantity_at receipt ''blobGasPrice'') (\<lambda>price. Inr (execution + blob * price))))"

definition operator_fee :: "string \<Rightarrow> int \<Rightarrow> int \<Rightarrow> int \<Rightarrow> int" where
  "operator_fee model gas scalar constant =
     (if model = ''op-isthmus'' then gas * scalar div 10 ^ 6 else gas * scalar * 100) + constant"

definition op_fee :: "string \<Rightarrow> json \<Rightarrow> int \<Rightarrow> int \<Rightarrow> int result" where
  "op_fee model receipt gas execution =
     bindE (quantity_at receipt ''l1Fee'') (\<lambda>l1.
     bindE (json_get receipt ''operatorFeeScalar'') (\<lambda>scalar. bindE (json_get receipt ''operatorFeeConstant'') (\<lambda>constant.
     if (scalar = JNull) \<noteq> (constant = JNull) then Inl (FundsError ''incomplete OP operator fee fields'')
     else if model = ''op-isthmus'' \<and> has_key receipt ''daFootprintGasScalar''
     then Inl (FundsError ''Jovian receipt requires the updated operator fee rule'')
     else if model = ''op-jovian'' \<and> \<not> has_key receipt ''daFootprintGasScalar''
     then Inl (FundsError ''Jovian receipt marker is missing; verify the historical fee model'')
     else if scalar = JNull then Inr (execution + l1) else
     bindE (quantity scalar) (\<lambda>s. bindE (quantity constant) (\<lambda>c. Inr (execution + l1 + operator_fee model gas s c))))))"

definition transaction_fee :: "json \<Rightarrow> string \<Rightarrow> int result" where
  "transaction_fee receipt model =
     (if model \<notin> set FEE_MODELS then Inl (FundsError ''unknown transaction fee model'') else
      bindE (quantity_at receipt ''gasUsed'') (\<lambda>gas. bindE (quantity_at receipt ''effectiveGasPrice'') (\<lambda>price.
      let execution = gas * price in
      if model = ''ethereum'' then ethereum_fee receipt execution else op_fee model receipt gas execution)))"

text \<open>\<open>except (KeyError, TypeError)\<close> around a computation: missing evidence.\<close>

definition incomplete :: "string \<Rightarrow> 'a result \<Rightarrow> 'a result" where
  "incomplete message m = (case m of Inl KeyError \<Rightarrow> Inl (FundsError message) | Inl TypeError \<Rightarrow> Inl (FundsError message) | _ \<Rightarrow> m)"

section \<open>The network and a receipt\<close>

abbreviation chain_rpc :: "string \<Rightarrow> json list \<Rightarrow> json reading" where "chain_rpc \<equiv> ask ChainRpc"

definition require_that :: "bool \<Rightarrow> string \<Rightarrow> unit reading" where
  "require_that b message = Done (if b then Inr () else Inl (FundsError message))"

definition verify_network :: "network \<Rightarrow> unit reading" where
  "verify_network net =
     bindR (chain_rpc ''eth_chainId'' []) (\<lambda>v. bindR (Done (quantity v)) (\<lambda>actual.
     bindR (chain_rpc ''eth_call'' [JDict [(''to'', JStr (net_token net)), (''data'', JStr ''0x313ce567'')], JStr ''latest'']) (\<lambda>v.
     bindR (Done (quantity v)) (\<lambda>decimals.
       require_that (actual = net_chain_id net \<and> decimals = net_decimals net)
         ''RPC chain ID/token decimals differ from configured network''))))"

definition block_at :: "json \<Rightarrow> bool \<Rightarrow> json reading" where
  "block_at tag whole = chain_rpc ''eth_getBlockByNumber'' [tag, JBool whole]"

text \<open>A mined outcome: its status, its block and the block's hash.\<close>

definition mined_receipt :: "string \<Rightarrow> json \<Rightarrow> (int \<times> string) result" where
  "mined_receipt h receipt =
     (if falsy receipt then Inl (FundsError ''transaction has no definitive mined outcome'') else
      bindE (quantity_at receipt ''status'') (\<lambda>status.
      if status \<notin> {0, 1} then Inl (FundsError ''transaction has no definitive mined outcome'') else
      bindE (quantity_at receipt ''blockNumber'') (\<lambda>number.
      bindE (hash_at receipt ''blockHash'') (\<lambda>block.
      bindE (hash_at receipt ''transactionHash'') (\<lambda>tx.
      if tx \<noteq> h then Inl (FundsError ''receipt does not match requested transaction'') else Inr (number, block))))))"

definition final_at :: "json \<Rightarrow> int \<Rightarrow> bool result" where
  "final_at finalized number =
     (if falsy finalized then Inr False else bindE (quantity_at finalized ''number'') (\<lambda>n. Inr (number \<le> n)))"

definition canonical_header :: "json \<Rightarrow> int \<Rightarrow> string \<Rightarrow> bool result" where
  "canonical_header header number block =
     (if falsy header then Inr False else
      bindE (hash_at header ''hash'') (\<lambda>h. if h \<noteq> block then Inr False else
      bindE (quantity_at header ''number'') (\<lambda>n. Inr (n = number))))"

text \<open>\<open>_confirmed_receipt(tx_hash)\<close>: the receipt, its header and the whole evidence.\<close>

definition confirmed_receipt :: "network \<Rightarrow> json \<Rightarrow> (json \<times> json \<times> (string \<times> json) list) reading" where
  "confirmed_receipt net tx =
     bindR (Done (hex_bytes 32 tx)) (\<lambda>h.
     bindR (verify_network net) (\<lambda>_.
     bindR (chain_rpc ''eth_getTransactionReceipt'' [JStr h]) (\<lambda>receipt.
     bindR (Done (mined_receipt h receipt)) (\<lambda>(number, block).
     bindR (block_at (JStr ''latest'') False) (\<lambda>latest.
     bindR (Done (quantity_at latest ''number'')) (\<lambda>head.
     bindR (require_that (head - number + 1 \<ge> net_confirmations net) ''transfer has insufficient confirmations'') (\<lambda>_.
     bindR (if net_require_finalized net then block_at (JStr ''finalized'') False else Done (Inr JNull)) (\<lambda>finalized.
     bindR (if net_require_finalized net then Done (final_at finalized number) else Done (Inr True)) (\<lambda>final.
     bindR (require_that final ''transfer is not finalized'') (\<lambda>_.
     bindR (block_at (JStr (hex_text number)) False) (\<lambda>header.
     bindR (Done (canonical_header header number block)) (\<lambda>canonical.
     bindR (require_that canonical ''receipt block is not canonical'') (\<lambda>_.
       Done (Inr (receipt, header, [(''receipt'', receipt), (''header'', header), (''latest'', latest), (''finalized'', finalized)])))))))))))))))"

section \<open>Token transfers\<close>

text \<open>The log at the index is an event of this token in this transaction and block.\<close>

definition log_matches :: "network \<Rightarrow> string \<Rightarrow> string \<Rightarrow> int \<Rightarrow> json \<Rightarrow> bool result" where
  "log_matches net h block number lg =
     bindE (json_get lg ''removed'') (\<lambda>removed. if \<not> falsy removed then Inr False else
     bindE (address_at lg ''address'') (\<lambda>a. if a \<noteq> net_token net then Inr False else
     bindE (hash_at lg ''transactionHash'') (\<lambda>t. if t \<noteq> h then Inr False else
     bindE (hash_at lg ''blockHash'') (\<lambda>b. if b \<noteq> block then Inr False else
     bindE (quantity_at lg ''blockNumber'') (\<lambda>n. Inr (n = number))))))"

definition indexed_address :: "string \<Rightarrow> string result" where
  "indexed_address topic =
     (if take 24 (drop 2 topic) \<noteq> replicate 24 (CHR ''0'') then Inl (FundsError ''malformed indexed transfer address'')
      else Inr (''0x'' @ drop (length topic - 40) topic))"

text \<open>The sender, the recipient and the amount of an ERC-20 Transfer.\<close>

definition transfer_event :: "json \<Rightarrow> (string \<times> string \<times> int) result" where
  "transfer_event lg =
     bindE (subscript lg ''topics'') (\<lambda>topics. bindE (json_length topics) (\<lambda>n.
     if n \<noteq> 3 then Inl (FundsError ''event is not an ERC-20 Transfer'') else
     bindE (bindE (element topics 0) (hex_bytes 32)) (\<lambda>kind.
     if kind \<noteq> TRANSFER_TOPIC then Inl (FundsError ''event is not an ERC-20 Transfer'') else
     bindE (bindE (element topics 1) (hex_bytes 32)) (\<lambda>a. bindE (bindE (element topics 2) (hex_bytes 32)) (\<lambda>b.
     bindE (indexed_address a) (\<lambda>sender. bindE (indexed_address b) (\<lambda>recipient.
     bindE (bindE (subscript lg ''data'') word_value) (\<lambda>amount. Inr (sender, recipient, amount)))))))))"

definition log_at :: "json \<Rightarrow> int \<Rightarrow> json result" where
  "log_at receipt log_index =
     bindE (bindE (subscript receipt ''logs'') iterate) (\<lambda>logs.
     bindE (filterE (\<lambda>lg. bindE (quantity_at lg ''logIndex'') (\<lambda>n. Inr (n = log_index))) logs) (\<lambda>matches.
       case matches of [lg] \<Rightarrow> Inr lg | _ \<Rightarrow> Inl (FundsError ''transfer event is missing or ambiguous'')))"

text \<open>What a confirmed receipt says of one of its logs.\<close>

definition confirmed_event :: "network \<Rightarrow> string \<Rightarrow> int \<Rightarrow> json \<times> json \<times> (string \<times> json) list \<Rightarrow> confirmed_transfer result" where
  "confirmed_event net h log_index = (\<lambda>(receipt, header, evidence).
     bindE (quantity_at receipt ''status'') (\<lambda>status.
     if status \<noteq> 1 then Inl (FundsError ''transfer is not successfully mined'') else
     bindE (quantity_at receipt ''blockNumber'') (\<lambda>number. bindE (hash_at receipt ''blockHash'') (\<lambda>block.
     bindE (log_at receipt log_index) (\<lambda>lg.
     bindE (log_matches net h block number lg) (\<lambda>ok.
     if \<not> ok then Inl (FundsError ''event token or canonical identity does not match'') else
     bindE (transfer_event lg) (\<lambda>(sender, recipient, amount).
     bindE (units False (JInt amount)) (\<lambda>_.
     if net_custody net \<notin> {sender, recipient} then Inl (FundsError ''transfer does not involve configured custody'') else
     bindE (bindE (quantity_at header ''timestamp'') from_timestamp) (\<lambda>time.
       Inr \<lparr>tf_network = net, tf_tx_hash = h, tf_log_index = log_index, tf_block_number = number, tf_block_hash = block,
         tf_block_timestamp = time, tf_sender = sender, tf_recipient = recipient, tf_amount = amount,
         tf_evidence = JDict evidence\<rparr>)))))))))"

definition read_transfer :: "network \<Rightarrow> json \<Rightarrow> json \<Rightarrow> confirmed_transfer reading" where
  "read_transfer net tx log_index =
     bindR (Done (hex_bytes 32 tx)) (\<lambda>h. bindR (Done (units False log_index)) (\<lambda>i.
     bindR (confirmed_receipt net (JStr h)) (\<lambda>receipt. Done (confirmed_event net h i receipt))))"

section \<open>Transactions\<close>

definition optional_address :: "json \<Rightarrow> string option result" where
  "optional_address v = (if falsy v then Inr None else bindE (address v) (\<lambda>a. Inr (Some a)))"

text \<open>Sender and recipient as the receipt gives them, where it does.\<close>

definition receipt_agrees :: "json \<Rightarrow> string \<times> string option \<Rightarrow> unit result" where
  "receipt_agrees receipt = (\<lambda>(key, expected).
     if \<not> has_key receipt key then Inr () else
     bindE (bindE (subscript receipt key) optional_address) (\<lambda>a.
       if a \<noteq> expected then Inl (FundsError ''transaction sender or recipient differs from its receipt'') else Inr ()))"

definition included :: "network \<Rightarrow> json \<Rightarrow> json \<Rightarrow> bool result" where
  "included net receipt tx =
     bindE (quantity_at tx ''chainId'') (\<lambda>chain. if chain \<noteq> net_chain_id net then Inr False else
     bindE (hash_at tx ''blockHash'') (\<lambda>a. bindE (hash_at receipt ''blockHash'') (\<lambda>b. if a \<noteq> b then Inr False else
     bindE (quantity_at tx ''blockNumber'') (\<lambda>m. bindE (quantity_at receipt ''blockNumber'') (\<lambda>n. Inr (m = n))))))"

definition transaction_parties :: "int list \<Rightarrow> json \<Rightarrow> (string \<times> string option) result" where
  "transaction_parties allowed tx =
     bindE (quantity_at tx ''type'') (\<lambda>kind.
     if kind \<notin> set allowed then Inl (UnsupportedCustodyTransaction kind) else
     bindE (address_at tx ''from'') (\<lambda>sender.
     bindE (bindE (json_get tx ''to'') optional_address) (\<lambda>recipient. Inr (sender, recipient))))"

text \<open>The facts of a transaction, given its confirmed receipt.\<close>

definition confirmed_facts :: "network \<Rightarrow> string \<Rightarrow> string \<Rightarrow> int list \<Rightarrow> json \<times> json \<times> (string \<times> json) list \<Rightarrow> json \<Rightarrow>
    confirmed_transaction result" where
  "confirmed_facts net h fee_model allowed = (\<lambda>(receipt, header, evidence) tx.
     if falsy tx then Inl (FundsError ''transaction identity is missing or mismatched'') else
     bindE (hash_at tx ''hash'') (\<lambda>own. if own \<noteq> h then Inl (FundsError ''transaction identity is missing or mismatched'') else
     bindE (included net receipt tx) (\<lambda>ok.
     if \<not> ok then Inl (FundsError ''transaction network or canonical inclusion differs from its receipt'') else
     bindE (transaction_parties allowed tx) (\<lambda>(sender, recipient).
     bindE (receipt_agrees receipt (''from'', Some sender)) (\<lambda>_. bindE (receipt_agrees receipt (''to'', recipient)) (\<lambda>_.
     bindE (incomplete ''actual transaction fee evidence is incomplete'' (transaction_fee receipt fee_model)) (\<lambda>fee.
     bindE (quantity_at tx ''nonce'') (\<lambda>nonce. bindE (quantity_at receipt ''status'') (\<lambda>status. bindE (quantity_at tx ''value'') (\<lambda>v.
     bindE (quantity_at receipt ''blockNumber'') (\<lambda>number. bindE (hash_at receipt ''blockHash'') (\<lambda>block.
     bindE (bindE (quantity_at header ''timestamp'') from_timestamp) (\<lambda>time.
       Inr \<lparr>tx_network = net, tx_hash = h, tx_sender = sender, tx_recipient = recipient, tx_nonce = nonce, tx_successful = (status = 1),
         tx_value = v, tx_fee = fee, tx_fee_model = fee_model, tx_block_number = number, tx_block_hash = block, tx_block_timestamp = time,
         tx_evidence = JDict (evidence @ [(''transaction'', tx)])\<rparr>)))))))))))))"

definition transaction_of :: "network \<Rightarrow> json \<Rightarrow> string \<Rightarrow> int list \<Rightarrow> confirmed_transaction reading" where
  "transaction_of net tx fee_model allowed =
     bindR (Done (hex_bytes 32 tx)) (\<lambda>h.
     bindR (confirmed_receipt net (JStr h)) (\<lambda>receipt.
     bindR (chain_rpc ''eth_getTransactionByHash'' [JStr h]) (\<lambda>t. Done (confirmed_facts net h fee_model allowed receipt t))))"

definition read_transaction :: "network \<Rightarrow> json \<Rightarrow> string \<Rightarrow> confirmed_transaction reading" where
  "read_transaction net tx fee_model = transaction_of net tx fee_model [0, 1, 2]"

definition authorization_transaction :: "network \<Rightarrow> json \<Rightarrow> string \<Rightarrow> confirmed_transaction reading" where
  "authorization_transaction net tx fee_model = transaction_of net tx fee_model [4]"

section \<open>Custody\<close>

definition balance_call :: "network \<Rightarrow> json" where
  "balance_call net = JDict [(''to'', JStr (net_token net)),
     (''data'', JStr (''0x70a08231'' @ replicate 24 (CHR ''0'') @ drop 2 (net_custody net)))]"

text \<open>\<open>preflight()\<close>: a final balance, a pending nonce, and the anchor unchanged at the end.\<close>

definition same_anchor :: "json \<Rightarrow> json \<Rightarrow> int \<Rightarrow> bool result" where
  "same_anchor header repeated number =
     (if falsy repeated then Inr False else
      bindE (subscript repeated ''hash'') (\<lambda>a. bindE (subscript header ''hash'') (\<lambda>b. if \<not> json_eq a b then Inr False else
      bindE (quantity_at repeated ''number'') (\<lambda>n. Inr (n = number)))))"

definition read_preflight :: "env \<Rightarrow> network \<Rightarrow> custody_preflight reading" where
  "read_preflight env net =
     bindR (verify_network net) (\<lambda>_.
     bindR (require_that (net_require_finalized net) ''manual withdrawals require finalized chain evidence'') (\<lambda>_.
     bindR (block_at (JStr ''finalized'') False) (\<lambda>header.
     bindR (block_at (JStr ''latest'') False) (\<lambda>latest.
     bindR (Done (quantity_at header ''number'')) (\<lambda>number.
     bindR (Done (quantity_at latest ''number'')) (\<lambda>head.
     bindR (require_that (head - number + 1 \<ge> net_confirmations net) ''finalized balance anchor lacks required confirmations'') (\<lambda>_.
     let tag = JStr (hex_text number); custody = JStr (net_custody net) in
     bindR (chain_rpc ''eth_getCode'' [custody, tag]) (\<lambda>code.
     bindR (require_that (code = JStr ''0x'') ''manual custody payments currently require an undelegated EOA wallet'') (\<lambda>_.
     bindR (chain_rpc ''eth_call'' [balance_call net, tag]) (\<lambda>tokens.
     bindR (chain_rpc ''eth_getBalance'' [custody, tag]) (\<lambda>native.
     bindR (chain_rpc ''eth_getTransactionCount'' [custody, JStr ''pending'']) (\<lambda>nonce.
     bindR (block_at tag False) (\<lambda>repeated.
     bindR (Done (same_anchor header repeated number)) (\<lambda>same.
     bindR (require_that same ''custody balance anchor changed during observation'') (\<lambda>_.
     bindR (Done (quantity nonce)) (\<lambda>pending_nonce.
     bindR (Done (word_value tokens)) (\<lambda>token_units.
     bindR (Done (quantity native)) (\<lambda>native_units.
       Done (Inr \<lparr>pf_network = net, pf_nonce = pending_nonce, pf_token_balance = token_units, pf_native_balance = native_units,
         pf_block_number = number, pf_checked_at = clock env,
         pf_evidence = JDict [(''header'', header), (''latest'', latest), (''token_balance'', tokens), (''native_balance'', native),
           (''pending_nonce'', nonce), (''code'', code)]\<rparr>)))))))))))))))))))"

section \<open>Finding the transaction of a nonce\<close>

definition nonce_count :: "network \<Rightarrow> int \<Rightarrow> int reading" where
  "nonce_count net height =
     bindR (chain_rpc ''eth_getTransactionCount'' [JStr (net_custody net), JStr (hex_text height)]) (\<lambda>v. Done (quantity v))"

text \<open>The binary search for the first height whose count exceeds the nonce.\<close>

function search :: "network \<Rightarrow> int \<Rightarrow> int \<Rightarrow> int \<Rightarrow> int reading" where
  "search net nonce first final =
     (if first < final then
        bindR (nonce_count net ((first + final) div 2)) (\<lambda>n.
          if n > nonce then search net nonce first ((first + final) div 2)
          else search net nonce ((first + final) div 2 + 1) final)
      else Done (Inr first))"
  by pat_completeness auto
termination
  by (relation "measure (\<lambda>(_, _, first, final). nat (final - first))") auto

declare search.simps [simp del]

definition spends :: "network \<Rightarrow> int \<Rightarrow> json \<Rightarrow> bool result" where
  "spends net nonce tx =
     bindE (subscript tx ''from'') (\<lambda>v.
     bindE (case v of JStr s \<Rightarrow> Inr (lower s) | _ \<Rightarrow> Inl AttributeError) (\<lambda>sender.
     if sender \<noteq> net_custody net then Inr False else bindE (quantity_at tx ''nonce'') (\<lambda>n. Inr (n = nonce))))"

definition nonce_transaction :: "network \<Rightarrow> int \<Rightarrow> int \<Rightarrow> json \<Rightarrow> string result" where
  "nonce_transaction net nonce height block =
     (if falsy block then Inl (FundsError ''nonce recovery block is unavailable'') else
      bindE (quantity_at block ''number'') (\<lambda>n. if n \<noteq> height then Inl (FundsError ''nonce recovery block is unavailable'') else
      bindE (bindE (subscript block ''transactions'') iterate) (\<lambda>txs.
      bindE (filterE (spends net nonce) txs) (\<lambda>matches.
        case matches of [tx] \<Rightarrow> hash_at tx ''hash''
        | _ \<Rightarrow> Inl (FundsError ''finalized nonce has no unique matching transaction'')))))"

definition find_nonce :: "network \<Rightarrow> json \<Rightarrow> json \<Rightarrow> string option reading" where
  "find_nonce net nonce after_height =
     bindR (Done (units False nonce)) (\<lambda>wanted. bindR (Done (units False after_height)) (\<lambda>start.
     bindR (verify_network net) (\<lambda>_.
     bindR (block_at (JStr ''finalized'') False) (\<lambda>block.
     bindR (Done (quantity_at block ''number'')) (\<lambda>head.
     if head \<le> start then Done (Inr None) else
     bindR (nonce_count net head) (\<lambda>n. if n \<le> wanted then Done (Inr None) else
     bindR (nonce_count net start) (\<lambda>n.
     bindR (require_that (n \<le> wanted) ''reserved nonce was already consumed before the send anchor'') (\<lambda>_.
     bindR (search net wanted (start + 1) head) (\<lambda>height.
     bindR (block_at (JStr (hex_text height)) True) (\<lambda>block.
     bindR (Done (nonce_transaction net wanted height block)) (\<lambda>h. Done (Inr (Some h)))))))))))))"

end
