(* ===== verification/Traces.thy ===== *)
theory Traces
  imports Chain Operator_Funding
begin

text \<open>
  \<open>native_funding.verify\<close>: a successful internal call that pays the custody wallet, proved by the
  complete tree of calls a trace provider returns for its finalized transaction.
\<close>

section \<open>The tree of calls\<close>

text \<open>A frame stands for itself; it is kept under its position.\<close>

type_synonym frames = "(int list \<times> json) list"

definition frame_at :: "int list \<Rightarrow> frames \<Rightarrow> json result" where
  "frame_at p fs = (case map_of fs p of None \<Rightarrow> Inl KeyError | Some f \<Rightarrow> Inr f)"

text \<open>\<open>type(value) is int and value == n\<close>, for a field of a frame.\<close>

definition integer_at :: "json \<Rightarrow> string \<Rightarrow> (int \<Rightarrow> bool) \<Rightarrow> bool result" where
  "integer_at v k ok = bindE (subscript v k) (\<lambda>x. Inr (case x of JInt n \<Rightarrow> ok n | _ \<Rightarrow> False))"

text \<open>The frame belongs to this block and transaction and says how many calls it made.\<close>

definition frame_identity :: "confirmed_transaction \<Rightarrow> json \<Rightarrow> json \<Rightarrow> bool result" where
  "frame_identity t receipt frame =
     bindE (integer_at frame ''blockNumber'' (\<lambda>n. n = tx_block_number t)) (\<lambda>ok. if \<not> ok then Inr False else
     bindE (hash_at frame ''blockHash'') (\<lambda>b. if b \<noteq> tx_block_hash t then Inr False else
     bindE (hash_at frame ''transactionHash'') (\<lambda>h. if h \<noteq> tx_hash t then Inr False else
     bindE (subscript frame ''transactionPosition'') (\<lambda>p. case p of
        JInt n \<Rightarrow> bindE (quantity_at receipt ''transactionIndex'') (\<lambda>i. if n \<noteq> i then Inr False else
          integer_at frame ''subtraces'' (\<lambda>n. 0 \<le> n \<and> n \<le> 10000))
      | _ \<Rightarrow> Inr False))))"

definition add_frame :: "confirmed_transaction \<Rightarrow> json \<Rightarrow> json \<Rightarrow> frames \<Rightarrow> frames result" where
  "add_frame t receipt frame fs =
     incomplete ''transaction trace evidence is incomplete''
       (bindE (bindE (subscript frame ''traceAddress'') (\<lambda>v. call_path v True)) (\<lambda>p.
        if map_of fs p \<noteq> None then Inl (FundsError ''trace contains duplicate, malformed or mismatched call identities'') else
        bindE (frame_identity t receipt frame) (\<lambda>ok.
        if \<not> ok then Inl (FundsError ''trace contains duplicate, malformed or mismatched call identities'')
        else Inr (fs @ [(p, frame)]))))"

definition subtraces :: "json \<Rightarrow> int" where
  "subtraces frame = (case subscript frame ''subtraces'' of Inr (JInt n) \<Rightarrow> n | _ \<Rightarrow> 0)"

text \<open>The last index of every call made by the call at a position.\<close>

definition children :: "int list \<Rightarrow> frames \<Rightarrow> int list" where
  "children p fs = map (last \<circ> fst) (filter (\<lambda>(q, _). q \<noteq> [] \<and> butlast q = p) fs)"

definition ancestors_present :: "frames \<Rightarrow> bool" where
  "ancestors_present fs \<longleftrightarrow> list_all (\<lambda>(p, _). p = [] \<or> map_of fs (butlast p) \<noteq> None) fs"

text \<open>Every call has exactly as many calls below it as it says, numbered from zero.\<close>

definition tree_complete :: "frames \<Rightarrow> bool" where
  "tree_complete fs \<longleftrightarrow> map_of fs [] \<noteq> None \<and> sum_list (map (subtraces \<circ> snd) fs) = int (length fs) - 1 \<and>
     list_all (\<lambda>(p, f). set (children p fs) = {0..<subtraces f}) fs"

definition call_tree :: "confirmed_transaction \<Rightarrow> json \<Rightarrow> json \<Rightarrow> int list \<Rightarrow> frames result" where
  "call_tree t receipt trace chosen =
     (case trace of
        JList frames \<Rightarrow>
          if \<not> (1 \<le> length frames \<and> length frames \<le> 10000) then Inl (FundsError ''transaction trace is missing or oversized'') else
          bindE (foldE (add_frame t receipt) frames []) (\<lambda>fs.
          if \<not> ancestors_present fs then Inl (FundsError ''transaction trace is missing an ancestor'')
          else if map_of fs chosen = None \<or> \<not> tree_complete fs
          then Inl (FundsError ''transaction trace is incomplete or the requested transfer is absent'') else Inr fs)
      | _ \<Rightarrow> Inl (FundsError ''transaction trace is missing or oversized''))"

section \<open>The selected call\<close>

definition root_matches :: "confirmed_transaction \<Rightarrow> json \<Rightarrow> bool result" where
  "root_matches t frame =
     bindE (subscript frame ''action'') (\<lambda>action. bindE (subscript frame ''type'') (\<lambda>kind.
     if kind \<noteq> JStr ''call'' then Inr False else
     bindE (subscript action ''callType'') (\<lambda>call. if call \<noteq> JStr ''call'' then Inr False else
     bindE (address_at action ''from'') (\<lambda>a. if a \<noteq> tx_sender t then Inr False else
     bindE (address_at action ''to'') (\<lambda>b. if Some b \<noteq> tx_recipient t then Inr False else
     bindE (quantity_at action ''value'') (\<lambda>v. if v \<noteq> tx_value t then Inr False else
     bindE (subscript action ''input'') (\<lambda>input.
     bindE (path (tx_evidence t) [''transaction'', ''input'']) (\<lambda>own. Inr (json_eq input own)))))))))"

text \<open>Every call on the way to the selected one succeeded.\<close>

definition succeeded :: "json \<Rightarrow> unit result" where
  "succeeded frame =
     bindE (json_get frame ''error'') (\<lambda>e. bindE (json_get frame ''result'') (\<lambda>r.
     if \<not> falsy e \<or> (case r of JDict _ \<Rightarrow> False | _ \<Rightarrow> True)
     then Inl (FundsError ''internal transfer or its ancestor failed or reverted'') else
     bindE (json_get frame ''type'') (\<lambda>kind.
     bindE (if kind \<noteq> JStr ''call'' then Inr False else
        bindE (path frame [''action'', ''callType'']) (\<lambda>c. Inr (c \<in> {JStr ''call'', JStr ''delegatecall'', JStr ''callcode''}))) (\<lambda>ok.
     if \<not> ok then Inl (FundsError ''internal funding requires a successful CALL ancestry'') else Inr ()))))"

definition selected_call :: "string \<Rightarrow> json \<Rightarrow> (string \<times> string \<times> int) result" where
  "selected_call custody frame =
     bindE (subscript frame ''action'') (\<lambda>action.
     bindE (address_at action ''from'') (\<lambda>sender. bindE (address_at action ''to'') (\<lambda>recipient.
     bindE (quantity_at action ''value'') (\<lambda>amount. bindE (subscript frame ''type'') (\<lambda>kind.
     bindE (if kind \<noteq> JStr ''call'' then Inr False else
        bindE (subscript action ''callType'') (\<lambda>c. Inr (c = JStr ''call''))) (\<lambda>ok.
     if \<not> ok \<or> amount \<le> 0 \<or> sender = custody \<or> recipient \<noteq> custody
     then Inl (FundsError ''selected call is not a positive incoming native transfer'') else Inr (sender, recipient, amount)))))))"

definition read_call :: "confirmed_transaction \<Rightarrow> frames \<Rightarrow> int list \<Rightarrow> (string \<times> string \<times> int) result" where
  "read_call t fs chosen =
     incomplete ''transaction trace evidence is incomplete''
       (bindE (bindE (frame_at [] fs) (root_matches t)) (\<lambda>ok.
        if \<not> ok then Inl (FundsError ''root trace differs from the confirmed transaction'') else
        bindE (mapE (\<lambda>depth. bindE (frame_at (take depth chosen) fs) succeeded) [0..<length chosen + 1]) (\<lambda>_.
        bindE (frame_at chosen fs) (selected_call (net_custody (tx_network t))))))"

section \<open>The verified receipt\<close>

definition anchored :: "confirmed_transaction \<Rightarrow> json \<Rightarrow> bool result" where
  "anchored t header =
     bindE (quantity_at header ''number'') (\<lambda>n. if n \<noteq> tx_block_number t then Inr False else
     bindE (hash_at header ''hash'') (\<lambda>h. Inr (h = tx_block_hash t)))"

text \<open>The last comparison reads the hash first.\<close>

definition still_anchored :: "confirmed_transaction \<Rightarrow> json \<Rightarrow> bool result" where
  "still_anchored t header =
     bindE (hash_at header ''hash'') (\<lambda>h. if h \<noteq> tx_block_hash t then Inr False else
     bindE (quantity_at header ''number'') (\<lambda>n. Inr (n = tx_block_number t)))"

definition verify_internal :: "bool \<Rightarrow> network \<Rightarrow> json \<Rightarrow> json \<Rightarrow> string \<Rightarrow> internal_receipt reading" where
  "verify_internal traced net tx position fee_model =
     bindR (Done (call_path position False)) (\<lambda>chosen.
     bindR (require_that traced ''internal native funding requires a configured trace RPC'') (\<lambda>_.
     bindR (require_that (net_require_finalized net) ''internal native funding requires finalized chain evidence'') (\<lambda>_.
     bindR (read_transaction net tx fee_model) (\<lambda>t.
     bindR (require_that (tx_successful t \<and> tx_sender t \<noteq> net_custody net)
       ''internal funding requires a successful transaction from another wallet'') (\<lambda>_.
     bindR (ask TraceRpc ''eth_chainId'' []) (\<lambda>v. bindR (Done (quantity v)) (\<lambda>chain.
     bindR (require_that (chain = net_chain_id net) ''trace RPC chain differs from the configured custody network'') (\<lambda>_.
     let tag = JStr (hex_text (tx_block_number t)) in
     bindR (ask TraceRpc ''eth_getBlockByNumber'' [tag, JBool False]) (\<lambda>anchor. bindR (Done (anchored t anchor)) (\<lambda>same.
     bindR (require_that same ''trace RPC canonical block differs from the confirmed receipt'') (\<lambda>_.
     bindR (ask TraceRpc ''trace_transaction'' [JStr (tx_hash t)]) (\<lambda>trace.
     bindR (Done (bindE (subscript (tx_evidence t) ''receipt'') (\<lambda>receipt. call_tree t receipt trace chosen))) (\<lambda>fs.
     bindR (Done (read_call t fs chosen)) (\<lambda>(sender, recipient, amount).
     bindR (chain_rpc ''eth_getCode'' [JStr (net_custody net), tag]) (\<lambda>code.
     bindR (require_that (code = JStr ''0x'') ''internal native funding currently requires undelegated EOA custody'') (\<lambda>_.
     bindR (block_at tag False) (\<lambda>repeated. bindR (ask TraceRpc ''eth_getBlockByNumber'' [tag, JBool False]) (\<lambda>traced_again.
     bindR (Done (still_anchored t repeated)) (\<lambda>a.
     bindR (if a then Done (still_anchored t traced_again) else Done (Inr False)) (\<lambda>b.
     if \<not> b then Done (Inl (Conflict ''internal funding block changed during verification'')) else
       Done (Inr \<lparr>nr_transaction = t, nr_trace_address = chosen, nr_sender = sender, nr_recipient = recipient, nr_amount = amount,
         nr_evidence = JDict [(''version'', JInt 1), (''trace'', trace), (''trace_anchor'', anchor), (''custody_code'', code)]\<rparr>)))))))))))))))))))))"

end
