(* ===== verification/Chain_Observer.thy ===== *)
theory Chain_Observer
  imports Chain Deposits Funding
begin

text \<open>
  \<open>pool_manager/pool_v2/chain_observer.py\<close>: finalized custody transfers are collected in ranges of
  blocks. A capture keeps every answer it was given; \<open>verify\<close> repeats the reading on those
  answers, and \<open>record\<close> books what it proves and compares the wallet with the ledger.
\<close>

section \<open>Reading a range of blocks\<close>

text \<open>\<open>_header(value, height)\<close>: the number of a block whose fields are well formed.\<close>

definition header_number :: "json \<Rightarrow> int option \<Rightarrow> int result" where
  "header_number v height =
     (case v of
        JDict _ \<Rightarrow>
          bindE (quantity_at v ''number'') (\<lambda>n.
          if height \<noteq> None \<and> height \<noteq> Some n then Inl (FundsError ''chain header height differs from requested height'') else
          bindE (hash_at v ''hash'') (\<lambda>_. bindE (quantity_at v ''timestamp'') (\<lambda>_. Inr n)))
      | _ \<Rightarrow> Inl (FundsError ''chain header is unavailable''))"

record wallet_balances =
  wb_tig :: int
  wb_native :: int
  wb_nonce :: int

definition read_balances :: "network \<Rightarrow> int \<Rightarrow> wallet_balances reading" where
  "read_balances net height =
     (let tag = JStr (hex_text height); custody = JStr (net_custody net) in
      bindR (chain_rpc ''eth_call'' [balance_call net, tag]) (\<lambda>tokens.
      bindR (chain_rpc ''eth_getBalance'' [custody, tag]) (\<lambda>native.
      bindR (chain_rpc ''eth_getTransactionCount'' [custody, tag]) (\<lambda>nonce.
      bindR (Done (word_value tokens)) (\<lambda>t. bindR (Done (quantity native)) (\<lambda>n. bindR (Done (quantity nonce)) (\<lambda>k.
        Done (Inr \<lparr>wb_tig = t, wb_native = n, wb_nonce = k\<rparr>))))))))"

datatype direction = Incoming | Outgoing

text \<open>The event filter of the two queries.\<close>

definition log_filter :: "network \<Rightarrow> int \<Rightarrow> int \<Rightarrow> direction \<Rightarrow> json" where
  "log_filter net first final d =
     (let topic = JStr (''0x'' @ replicate 24 (CHR ''0'') @ drop 2 (net_custody net)) in
      JDict [(''address'', JStr (net_token net)), (''fromBlock'', JStr (hex_text first)), (''toBlock'', JStr (hex_text final)),
        (''topics'', JList (case d of Incoming \<Rightarrow> [JStr TRANSFER_TOPIC, JNull, topic] | Outgoing \<Rightarrow> [JStr TRANSFER_TOPIC, topic]))])"

definition LOG_FIELDS :: "string list" where
  "LOG_FIELDS = [''address'', ''transactionHash'', ''logIndex'', ''blockNumber'', ''blockHash'', ''topics'', ''data'']"

fun fields_agree :: "string list \<Rightarrow> json \<Rightarrow> json \<Rightarrow> bool result" where
  "fields_agree [] a b = Inr True"
| "fields_agree (k # ks) a b =
     bindE (json_get a k) (\<lambda>x. bindE (json_get b k) (\<lambda>y. if json_eq x y then fields_agree ks a b else Inr False))"

text \<open>The log as its verified receipt has it.\<close>

definition receipt_log :: "confirmed_transfer \<Rightarrow> json result" where
  "receipt_log t = bindE (path (tf_evidence t) [''receipt'']) (\<lambda>receipt. log_at receipt (tf_log_index t))"

definition check_log :: "network \<Rightarrow> int \<Rightarrow> int \<Rightarrow> direction \<Rightarrow> json \<Rightarrow> confirmed_transfer \<Rightarrow> unit result" where
  "check_log net first final d entry t =
     (if \<not> (first \<le> tf_block_number t \<and> tf_block_number t \<le> final)
      then Inl (FundsError ''transfer falls outside requested finalized range'')
      else if (if d = Incoming then tf_recipient t else tf_sender t) \<noteq> net_custody net
      then Inl (FundsError ''transfer does not match its custody filter'') else
      bindE (receipt_log t) (\<lambda>own. bindE (fields_agree LOG_FIELDS entry own) (\<lambda>same.
      if \<not> same then Inl (FundsError ''log response differs from its verified receipt'') else
      bindE (json_get entry ''removed'') (\<lambda>removed.
      if \<not> falsy removed then Inl (FundsError ''removed transfer cannot be credited'') else Inr ()))))"

text \<open>The transfers found so far, by event; the same event must say the same in both queries.\<close>

definition add_transfer :: "confirmed_transfer \<Rightarrow> (string \<times> confirmed_transfer) list \<Rightarrow> (string \<times> confirmed_transfer) list result" where
  "add_transfer t found =
     (case map_of found (event_id t) of
        Some u \<Rightarrow>
          if (tf_sender u, tf_recipient u, tf_amount u, tf_block_hash u) \<noteq> (tf_sender t, tf_recipient t, tf_amount t, tf_block_hash t)
          then Inl (Conflict ''conflicting custody transfer facts'') else Inr (AList.update (event_id t) t found)
      | None \<Rightarrow> Inr (AList.update (event_id t) t found))"

type_synonym collected = "(string \<times> int) list \<times> (string \<times> confirmed_transfer) list"

definition read_log :: "network \<Rightarrow> int \<Rightarrow> int \<Rightarrow> direction \<Rightarrow> json \<Rightarrow> collected \<Rightarrow> collected reading" where
  "read_log net first final d entry = (\<lambda>(seen, found).
     bindR (Done (hash_at entry ''transactionHash'')) (\<lambda>h.
     bindR (Done (quantity_at entry ''logIndex'')) (\<lambda>i.
     bindR (require_that ((h, i) \<notin> set seen) ''duplicate transfer in a log response'') (\<lambda>_.
     bindR (read_transfer net (JStr h) (JInt i)) (\<lambda>t.
     bindR (Done (check_log net first final d entry t)) (\<lambda>_.
     bindR (Done (add_transfer t found)) (\<lambda>found. Done (Inr ((h, i) # seen, found)))))))))"

definition log_rows :: "json \<Rightarrow> json list result" where
  "log_rows v = (case v of
     JList logs \<Rightarrow> if length logs > 10000 then Inl (FundsError ''invalid or oversized custody log response'') else Inr logs
   | _ \<Rightarrow> Inl (FundsError ''invalid or oversized custody log response''))"

definition read_direction :: "network \<Rightarrow> int \<Rightarrow> int \<Rightarrow> direction \<Rightarrow> (string \<times> confirmed_transfer) list \<Rightarrow>
    (string \<times> confirmed_transfer) list reading" where
  "read_direction net first final d found =
     bindR (chain_rpc ''eth_getLogs'' [log_filter net first final d]) (\<lambda>v.
     bindR (Done (log_rows v)) (\<lambda>logs.
     bindR (foldR (read_log net first final d) logs ([], found)) (\<lambda>(_, found). Done (Inr found))))"

text \<open>What a transfer changes in the wallet.\<close>

definition wallet_change :: "network \<Rightarrow> confirmed_transfer \<Rightarrow> int" where
  "wallet_change net t = (if tf_recipient t = net_custody net then tf_amount t else 0) -
     (if tf_sender t = net_custody net then tf_amount t else 0)"

text \<open>\<open>sponsored_withdrawals.delegation(code)\<close>: the delegate of an EIP-7702 account.\<close>

definition delegation :: "json \<Rightarrow> string option result" where
  "delegation code =
     (if code = JStr ''0x'' then Inr None else
      bindE (hex_bytes 23 code) (\<lambda>s.
      if take 8 s \<noteq> ''0xef0100'' then Inl (FundsError ''unsupported custody contract code'') else
      bindE (address (JStr (''0x'' @ drop 8 s))) (\<lambda>a. Inr (Some a))))"

definition check_code :: "int \<Rightarrow> json \<Rightarrow> unit result" where
  "check_code version code =
     (if version = 1 \<and> code \<noteq> JStr ''0x''
      then Inl (FundsError ''custody indexing currently requires an undelegated EOA wallet'')
      else if version = 2 then bindE (delegation code) (\<lambda>_. Inr ()) else Inr ())"

record range_reading =
  rg_network :: network
  rg_first :: int
  rg_last :: int
  rg_target :: int
  rg_before_hash :: string
  rg_block_hash :: string
  rg_opening :: wallet_balances
  rg_closing :: wallet_balances
  rg_transfers :: "confirmed_transfer list"
  rg_checked_at :: timestamp
  rg_custody_code :: json

text \<open>The newest block and the newest final one, and the block this range may end at.\<close>

definition range_target :: "network \<Rightarrow> timestamp \<Rightarrow> json \<Rightarrow> json \<Rightarrow> int result" where
  "range_target net checked latest finalized =
     bindE (header_number latest None) (\<lambda>head. bindE (header_number finalized None) (\<lambda>final.
     bindE (if final > head then Inr False else bindE (quantity_at latest ''timestamp'') (\<lambda>stamp.
        Inr (seconds (-5) \<le> checked - seconds stamp \<and> checked - seconds stamp \<le> seconds 120))) (\<lambda>ok.
     if \<not> ok then Inl (FundsError ''chain head is stale or inconsistent'')
     else Inr (min final (head - net_confirmations net + 1)))))"

definition arguments :: "network \<Rightarrow> json \<Rightarrow> json \<Rightarrow> (int \<times> int) result" where
  "arguments net first scope =
     bindE (units True first) (\<lambda>f.
     case scope of
       JInt n \<Rightarrow>
         if \<not> (1 \<le> n \<and> n \<le> 1000) then Inl (FundsError ''chain batch size must be 1 to 1000'')
         else if \<not> net_require_finalized net then Inl (FundsError ''custody indexing requires finalized evidence'')
         else Inr (f, n)
     | _ \<Rightarrow> Inl (FundsError ''chain batch size must be 1 to 1000''))"

text \<open>The balances at the end of the range, which its transfers must explain, and the end unchanged.\<close>

definition read_end :: "network \<Rightarrow> int \<Rightarrow> int \<Rightarrow> wallet_balances \<Rightarrow> json \<Rightarrow> (string \<times> confirmed_transfer) list \<Rightarrow>
    (wallet_balances \<times> json) reading" where
  "read_end net version final opening end_header found =
     bindR (read_balances net final) (\<lambda>closing.
     if wb_tig closing - wb_tig opening \<noteq> sum_list (map (wallet_change net \<circ> snd) found)
     then Done (Inl (Conflict ''TIG balance change does not match the complete captured transfer range'')) else
     bindR (chain_rpc ''eth_getCode'' [JStr (net_custody net), JStr (hex_text final)]) (\<lambda>code.
     bindR (Done (check_code version code)) (\<lambda>_.
     bindR (block_at (JStr (hex_text final)) False) (\<lambda>repeated. bindR (Done (header_number repeated (Some final))) (\<lambda>_.
     bindR (Done (hash_at repeated ''hash'')) (\<lambda>a. bindR (Done (hash_at end_header ''hash'')) (\<lambda>b.
     if a \<noteq> b then Done (Inl (Conflict ''finalized custody anchor changed during capture''))
     else Done (Inr (closing, code)))))))))"

definition read_range :: "network \<Rightarrow> int \<Rightarrow> timestamp \<Rightarrow> json \<Rightarrow> json \<Rightarrow> range_reading reading" where
  "read_range net version checked first_value count_value =
     bindR (Done (arguments net first_value count_value)) (\<lambda>(first, width).
     bindR (verify_network net) (\<lambda>_.
     bindR (block_at (JStr ''latest'') False) (\<lambda>latest. bindR (block_at (JStr ''finalized'') False) (\<lambda>finalized.
     bindR (Done (range_target net checked latest finalized)) (\<lambda>target.
     let final = min target (first + width - 1) in
     if final < first - 1 then Done (Inl (Conflict ''chain source is behind the recorded custody cursor'')) else
     bindR (block_at (JStr (hex_text (first - 1))) False) (\<lambda>before. bindR (Done (header_number before (Some (first - 1)))) (\<lambda>_.
     bindR (read_balances net (first - 1)) (\<lambda>opening.
     bindR (if final = first - 1 then Done (Inr before) else block_at (JStr (hex_text final)) False) (\<lambda>end_header.
     bindR (Done (header_number end_header (Some final))) (\<lambda>_.
     bindR (if final \<ge> first then foldR (read_direction net first final) [Incoming, Outgoing] [] else Done (Inr [])) (\<lambda>found.
     bindR (read_end net version final opening end_header found) (\<lambda>(closing, code).
     bindR (Done (hash_at before ''hash'')) (\<lambda>before_hash. bindR (Done (hash_at end_header ''hash'')) (\<lambda>block_hash.
       Done (Inr \<lparr>rg_network = net, rg_first = first, rg_last = final, rg_target = target, rg_before_hash = before_hash,
         rg_block_hash = block_hash, rg_opening = opening, rg_closing = closing,
         rg_transfers = sort_key (\<lambda>t. (tf_block_number t, tf_tx_hash t, tf_log_index t)) (map snd found),
         rg_checked_at = checked, rg_custody_code = code\<rparr>)))))))))))))))"

section \<open>Captures\<close>

text \<open>\<open>asdict(network)\<close>, and \<open>Network(**value)\<close>: unknown and missing fields are type errors.\<close>

definition network_json :: "network \<Rightarrow> json" where
  "network_json net = JDict [(''chain_id'', JInt (net_chain_id net)), (''token'', JStr (net_token net)), (''custody'', JStr (net_custody net)),
     (''confirmations'', JInt (net_confirmations net)), (''decimals'', JInt (net_decimals net)),
     (''require_finalized'', JBool (net_require_finalized net))]"

definition network_of :: "json \<Rightarrow> network result" where
  "network_of v =
     (case v of
        JDict items \<Rightarrow>
          if \<not> {''chain_id'', ''token'', ''custody'', ''confirmations''} \<subseteq> set (map fst items)
             \<or> \<not> set (map fst items) \<subseteq> {''chain_id'', ''token'', ''custody'', ''confirmations'', ''decimals'', ''require_finalized''}
          then Inl TypeError else
          let or_else = (\<lambda>k d. case dict_get k items of None \<Rightarrow> d | Some x \<Rightarrow> x) in
          make_network (get ''chain_id'' items) (get ''token'' items) (get ''custody'' items) (get ''confirmations'' items)
            (or_else ''decimals'' (JInt 18)) (or_else ''require_finalized'' (JBool True))
      | _ \<Rightarrow> Inl TypeError)"

definition call_json :: "source \<Rightarrow> string \<Rightarrow> json list \<Rightarrow> json \<Rightarrow> json" where
  "call_json src m ps v = JDict [(''method'', JStr m), (''params'', JList ps), (''result'', v)]"

definition missing_call :: error where
  "missing_call = FundsError ''custody archive has missing or reordered RPC evidence''"

text \<open>\<open>replay(method, params)\<close>: the answer of an archived call to the question it was made for.\<close>

definition archived_reply :: "json \<Rightarrow> source \<Rightarrow> string \<Rightarrow> json list \<Rightarrow> json result" where
  "archived_reply c src m ps =
     (if c = JNull then Inl missing_call else
      bindE (subscript c ''method'') (\<lambda>method. bindE (subscript c ''params'') (\<lambda>params.
      if method \<noteq> JStr m \<or> \<not> json_eq params (JList ps) then Inl missing_call else subscript c ''result'')))"

definition archived :: "json list provider" where
  "archived = replaying archived_reply missing_call"

text \<open>The archive of custody calls.\<close>

interpretation custody_calls: archive call_json archived_reply
  by unfold_locales (simp add: call_json_def archived_reply_def subscript_def)

definition unconsumed :: "json list \<Rightarrow> bool" where
  "unconsumed calls = (case calls of [] \<Rightarrow> False | c # _ \<Rightarrow> c \<noteq> JNull)"

definition capture_version :: "json \<Rightarrow> int option" where
  "capture_version v = (if equals_one v then Some 1 else if v \<in> {JInt 2, JFloat ''2.0''} then Some 2 else None)"

definition verify_chain :: "env \<Rightarrow> json \<Rightarrow> range_reading result" where
  "verify_chain env data =
     bindE (json_get data ''version'') (\<lambda>v.
     case capture_version v of
       None \<Rightarrow> Inl (FundsError ''custody capture is incomplete or unsupported'')
     | Some version \<Rightarrow>
         bindE (json_get data ''error'') (\<lambda>e.
         if \<not> falsy e then Inl (FundsError ''custody capture is incomplete or unsupported'') else
         bindE (bindE (subscript data ''calls'') iterate) (\<lambda>calls.
         bindE (bindE (subscript data ''checked_at'') (checked_time env ''custody capture time requires an explicit timezone'')) (\<lambda>checked.
         bindE (bindE (subscript data ''network'') network_of) (\<lambda>net.
         bindE (subscript data ''first'') (\<lambda>first. bindE (subscript data ''count'') (\<lambda>width.
         case run (read_range net version checked first width) archived calls of
           (Inl e, _) \<Rightarrow> Inl e
         | (Inr value, rest) \<Rightarrow>
             if unconsumed rest then Inl (FundsError ''custody archive has unconsumed RPC evidence'') else Inr value)))))))"

definition optional_json :: "int option \<Rightarrow> json" where
  "optional_json n = (case n of None \<Rightarrow> JNull | Some k \<Rightarrow> JInt k)"

fun error_details :: "error \<Rightarrow> (string \<times> json) list" where
  "error_details (RpcFailure m status code) =
     [(''error_details'', JDict [(''method'', JStr m), (''http_status'', optional_json status), (''rpc_code'', optional_json code)])]"
| "error_details _ = []"

definition capture_chain :: "env \<Rightarrow> network \<Rightarrow> 's provider \<Rightarrow> 's \<Rightarrow> int \<Rightarrow> int \<Rightarrow> string \<Rightarrow> json \<times> 's" where
  "capture_chain env net answer s first width origin =
     (case run (read_range net 2 (clock env) (JInt first) (JInt width)) (recording call_json answer) (s, []) of
        (r, (s', calls)) \<Rightarrow>
          (JDict ([(''version'', JInt 2), (''network'', network_json net), (''first'', JInt first), (''count'', JInt width),
             (''checked_at'', JStr (isoformat env (clock env))), (''source'', JStr origin), (''calls'', JList calls),
             (''error'', case r of Inl e \<Rightarrow> JStr (class_name e) | Inr _ \<Rightarrow> JNull)] @
             (case r of Inl e \<Rightarrow> error_details e | Inr _ \<Rightarrow> [])), s'))"

section \<open>The archive\<close>

abbreviation chain_of :: "pool \<Rightarrow> chain_tables" where "chain_of p \<equiv> chain_log p"

definition save_capture :: "env \<Rightarrow> json \<Rightarrow> pool \<Rightarrow> string \<times> pool" where
  "save_capture env data p =
     (let identity = fingerprint env data in
      (identity, if lookup cx_id identity (chain_captures (chain_of p)) \<noteq> None then p
        else p\<lparr>chain_log := (chain_of p)\<lparr>chain_captures := chain_captures (chain_of p) @
          [\<lparr>cx_id = identity, cx_payload = data, cx_expired_at = None\<rparr>]\<rparr>\<rparr>))"

definition read_chain_capture :: "env \<Rightarrow> string \<Rightarrow> pool \<Rightarrow> json result" where
  "read_chain_capture env identity p =
     (case lookup cx_id identity (chain_captures (chain_of p)) of
        None \<Rightarrow> Inl (FundsError ''unknown custody capture'')
      | Some c \<Rightarrow>
          if cx_expired_at c \<noteq> None then Inl (FundsError ''custody capture payload expired under the retention policy'')
          else if sha256 env (canonical (cx_payload c)) \<noteq> identity then Inl (Conflict ''custody archive checksum differs'')
          else Inr (sort_keys (cx_payload c)))"

text \<open>\<open>_failure\<close>: an alert and an unhealthy check.\<close>

definition record_failure :: "env \<Rightarrow> string \<Rightarrow> string \<Rightarrow> bool \<Rightarrow> pool \<Rightarrow> pool" where
  "record_failure env identity reason critical p =
     p\<lparr>chain_log := (chain_of p)\<lparr>chain_alerts := chain_alerts (chain_of p) @
         [\<lparr>al_capture_id = identity, al_kind = (if critical then ''canonical-conflict'' else ''incomplete-capture''), al_reason = reason\<rparr>]\<rparr>,
       custody_checks := custody_checks p @ [\<lparr>cc_capture_id = identity, cc_height = None, cc_target_height = None, cc_block_hash = None,
         cc_actual_tig = None, cc_actual_native = None, cc_recorded_tig = None, cc_recorded_native = None, cc_outgoing_nonce = None,
         cc_accounted_nonces = None, cc_healthy = False, cc_reason = reason, cc_checked_at = clock env, cc_custody_code = None\<rparr>]\<rparr>"

section \<open>The first block\<close>

record opening_request =
  or_initialize :: bool
  or_actor :: string
  or_reason :: string

definition is_baseline :: "wallet_balances \<Rightarrow> opening_request \<Rightarrow> bool" where
  "is_baseline w o' \<longleftrightarrow> wb_tig w \<noteq> 0 \<or> wb_native w \<noteq> 0 \<or> wb_nonce w \<noteq> 0 \<or> or_actor o' \<noteq> [] \<or> or_reason o' \<noteq> []"

definition opening_guards :: "range_reading \<Rightarrow> opening_request \<Rightarrow> pool \<Rightarrow> unit result" where
  "opening_guards value o' p =
     (if \<not> or_initialize o' then Inl (Conflict ''custody observer requires an explicit starting height'')
      else if \<not> is_baseline (rg_opening value) o' then Inr ()
      else if or_actor o' = [] \<or> or_reason o' = []
      then Inl (Conflict ''a funded prelaunch wallet requires a named operator and opening reason'')
      else if rg_custody_code value \<noteq> JStr ''0x''
      then Inl (Conflict ''a prelaunch custody baseline requires an undelegated wallet'')
      else if \<not> paused p then Inl (Conflict ''a custody opening baseline requires work to remain paused'')
      else if reservations p \<noteq> [] \<or> withdrawals p \<noteq> []
      then Inl (Conflict ''custody opening baseline must precede pool work or withdrawals'') else Inr ())"

text \<open>The two accounts of an asset, and the operator's opening entry when the wallet holds any of it.\<close>

definition open_asset :: "env \<Rightarrow> string \<Rightarrow> string \<Rightarrow> range_reading \<Rightarrow> opening_request \<Rightarrow> asset \<Rightarrow> int \<Rightarrow> pool \<Rightarrow>
    (string list \<times> pool) result" where
  "open_asset env jid identity value o' a amount p =
     (let operator = ''operator:custody:'' @ asset_text a; external = ''external:custody:'' @ asset_text a in
      bindE (on_ledger (account operator KOperator a Custody) p) (\<lambda>(_, p).
      bindE (on_ledger (account external KExternal a Custody) p) (\<lambda>(_, p).
      if amount = 0 then Inr ([], p) else
      bindE (on_ledger (post env jid (''custody-opening:'' @ identity @ '':'' @ asset_text a) (''operator_custody_opening_'' @ asset_text a)
        [(external, - amount), (operator, amount)]
        (JDict [(''capture_id'', JStr identity), (''height'', JInt (rg_first value - 1)),
          (''actor'', JStr (if or_actor o' = [] then ''observer'' else or_actor o')),
          (''reason'', JStr (if or_reason o' = [] then ''zero-balance custody initialization'' else or_reason o'))]) None) p)
        (\<lambda>(journal, p). Inr ([journal], p)))))"

definition opened_stream :: "range_reading \<Rightarrow> chain_stream_row" where
  "opened_stream value = \<lparr>ch_network = rg_network value, ch_start_height = rg_first value, ch_last_height = rg_first value - 1,
     ch_last_hash = rg_before_hash value, ch_start_nonce = wb_nonce (rg_opening value)\<rparr>"

definition baseline_row :: "string \<Rightarrow> range_reading \<Rightarrow> opening_request \<Rightarrow> string list \<Rightarrow> opening_baseline_row" where
  "baseline_row identity value o' entered =
     \<lparr>bl_capture_id = identity, bl_network = rg_network value, bl_block_height = rg_first value - 1, bl_block_hash = rg_before_hash value,
       bl_tig = wb_tig (rg_opening value), bl_native = wb_native (rg_opening value), bl_start_nonce = wb_nonce (rg_opening value),
       bl_actor = or_actor o', bl_reason = or_reason o', bl_journal_ids = entered\<rparr>"

text \<open>The columns of a baseline refuse a text of spaces.\<close>

definition only_spaces :: "string \<Rightarrow> bool" where
  "only_spaces s \<longleftrightarrow> list_all (\<lambda>c. c = CHR '' '') s"

definition open_stream :: "env \<Rightarrow> (nat \<Rightarrow> string) \<Rightarrow> string \<Rightarrow> range_reading \<Rightarrow> opening_request \<Rightarrow> pool \<Rightarrow> (unit \<times> pool) result" where
  "open_stream env ids identity value o' p =
     (if chain_stream p \<noteq> None then Inr ((), p) else
      bindE (opening_guards value o' p) (\<lambda>_.
      bindE (bind (rg_network value) p) (\<lambda>(_, p).
      if backing (ledger p) AssetTIG Custody \<noteq> 0 \<or> backing (ledger p) AssetNATIVE Custody \<noteq> 0
      then Inl (Conflict ''custody opening baseline requires an empty internal custody ledger'') else
      bindE (open_asset env (ids 0) identity value o' AssetTIG (wb_tig (rg_opening value)) p) (\<lambda>(j1, p).
      bindE (open_asset env (ids 1) identity value o' AssetNATIVE (wb_native (rg_opening value)) p) (\<lambda>(j2, p).
        let p = p\<lparr>chain_stream := Some (opened_stream value)\<rparr> in
        if \<not> is_baseline (rg_opening value) o' then Inr ((), p)
        else if custody_opening_baselines (chain_of p) \<noteq> [] \<or> only_spaces (or_actor o') \<or> only_spaces (or_reason o') then Inl (IntegrityError ''custody_opening_baselines'')
        else Inr ((), p\<lparr>chain_log := (chain_of p)\<lparr>custody_opening_baselines := [baseline_row identity value o' (j1 @ j2)]\<rparr>\<rparr>))))))"

section \<open>Recording a range\<close>

datatype chain_report =
    Replayed string
  | Superseded string
  | Collected string int bool string

text \<open>A range that ends before the cursor was recorded before; its transfers must still be those.\<close>

definition known_transfer :: "pool \<Rightarrow> confirmed_transfer \<Rightarrow> bool" where
  "known_transfer p t =
     (case lookup tr_event_id (event_id t) (transfers p) of
        None \<Rightarrow> False
      | Some r \<Rightarrow> (tr_block_number r, tr_block_hash r, tr_block_timestamp r, tr_sender r, tr_recipient r, tr_amount r) =
          (tf_block_number t, tf_block_hash t, tf_block_timestamp t, tf_sender t, tf_recipient t, tf_amount t))"

definition stream_decision :: "string \<Rightarrow> range_reading \<Rightarrow> pool \<Rightarrow> chain_report option result" where
  "stream_decision identity value p =
     (case chain_stream p of
        None \<Rightarrow> Inl TypeError
      | Some stream \<Rightarrow>
          if ch_network stream \<noteq> rg_network value then Inl (Conflict ''custody observer network or finality policy changed'')
          else if lookup bt_capture_id identity (chain_batches (chain_of p)) \<noteq> None then Inr (Some (Replayed identity))
          else if rg_last value \<le> ch_last_height stream \<and> rg_first value \<le> ch_last_height stream then
            (if rg_last value = ch_last_height stream \<and> rg_block_hash value \<noteq> ch_last_hash stream
             then Inl (Conflict ''recorded finalized custody anchor changed'')
             else if \<not> list_all (known_transfer p) (rg_transfers value)
             then Inl (Conflict ''recorded finalized custody transfer history changed'')
             else Inr (Some (Superseded identity)))
          else if rg_first value \<noteq> ch_last_height stream + 1
          then Inl (Conflict ''custody capture overlaps or skips the current cursor; recapture from the next height'')
          else if rg_before_hash value \<noteq> ch_last_hash stream then Inl (Conflict ''recorded finalized custody anchor changed'')
          else Inr None)"

text \<open>Each transfer is booked in a transaction of its own.\<close>

definition book_transfer :: "env \<Rightarrow> string \<Rightarrow> string \<Rightarrow> network \<Rightarrow> confirmed_transfer \<Rightarrow> pool \<Rightarrow> unit result \<times> pool" where
  "book_transfer env i j net t =
     commit (\<lambda>p. if tf_recipient t = net_custody net \<and> tf_sender t \<noteq> net_custody net
       then bindE (receive env i j t p) (\<lambda>(_, p). Inr ((), p))
       else bindE (save_transfer t p) (\<lambda>(_, p). Inr ((), p)))"

fun book_transfers :: "env \<Rightarrow> (nat \<Rightarrow> string) \<Rightarrow> nat \<Rightarrow> network \<Rightarrow> confirmed_transfer list \<Rightarrow> pool \<Rightarrow> unit result \<times> pool" where
  "book_transfers env ids n net [] p = (Inr (), p)"
| "book_transfers env ids n net (t # ts) p =
     (case book_transfer env (ids n) (ids (n + 1)) net t p of
        (Inl e, p) \<Rightarrow> (Inl e, p)
      | (Inr _, p) \<Rightarrow> book_transfers env ids (n + 2) net ts p)"

text \<open>The sends of the watched range that the pool recorded.\<close>

definition transaction_block :: "int \<Rightarrow> string \<Rightarrow> pool \<Rightarrow> int option" where
  "transaction_block chain h p = map_option ct_block_number (lookup (\<lambda>c. (ct_chain_id c, ct_tx_hash c)) (chain, h) (chain_transactions p))"

definition accounted_payment :: "network \<Rightarrow> int \<Rightarrow> int \<Rightarrow> pool \<Rightarrow> custody_payment_row \<Rightarrow> bool" where
  "accounted_payment net start final p c \<longleftrightarrow> cp_chain_id c = net_chain_id net \<and>
     (case transaction_block (cp_chain_id c) (cp_tx_hash c) p of None \<Rightarrow> False | Some b \<Rightarrow> start \<le> b \<and> b \<le> final) \<and>
     (case lookup cs_id (cp_send_id c) (custody_sends p) of None \<Rightarrow> False | Some s \<Rightarrow> cs_sender s = net_custody net)"

text \<open>A transfer out of custody that no payment explains.\<close>

definition unexplained :: "network \<Rightarrow> int \<Rightarrow> int \<Rightarrow> pool \<Rightarrow> transfer_row \<Rightarrow> bool" where
  "unexplained net start final p t \<longleftrightarrow> tr_sender t = net_custody net \<and> tr_recipient t \<noteq> net_custody net \<and> tr_amount t > 0 \<and>
     start \<le> tr_block_number t \<and> tr_block_number t \<le> final \<and>
     (\<forall>c \<in> set (custody_payments p). cp_transfer_event c \<noteq> Some (tr_event_id t))"

definition recorded_delegate :: "network \<Rightarrow> int \<Rightarrow> pool \<Rightarrow> string option" where
  "recorded_delegate net final p =
     map_option (ca_delegate \<circ> snd) (latest_by fst
       [(b, a). a \<leftarrow> custody_authorization_payments p, ca_chain_id a = net_chain_id net, ca_authority a = net_custody net,
          lookup cp_send_id (ca_send_id a) (custody_payments p) \<noteq> None,
          b \<leftarrow> (case transaction_block (ca_chain_id a) (ca_tx_hash a) p of None \<Rightarrow> [] | Some b \<Rightarrow> [b]), b \<le> final])"

definition known_code :: "range_reading \<Rightarrow> pool \<Rightarrow> bool result" where
  "known_code value p =
     (if rg_custody_code value = JStr ''0x'' then Inr True else
      case recorded_delegate (rg_network value) (rg_last value) p of
        None \<Rightarrow> Inr False
      | Some d \<Rightarrow> bindE (delegation (rg_custody_code value)) (\<lambda>own. Inr (own = Some d)))"

definition check_reason :: "bool \<Rightarrow> range_reading \<Rightarrow> bool \<Rightarrow> string" where
  "check_reason healthy value known =
     (if healthy then ''reconciled''
      else if rg_last value < rg_target value then ''custody collection is catching up''
      else if \<not> known then ''custody delegation requires verified recovery''
      else ''custody balances, transactions or canonical history require reconciliation'')"

text \<open>Healthy: the wallet holds what the ledger records, every send is accounted for, nothing is unexplained.\<close>

definition is_healthy :: "range_reading \<Rightarrow> chain_stream_row \<Rightarrow> bool \<Rightarrow> pool \<Rightarrow> bool" where
  "is_healthy value stream known p \<longleftrightarrow>
     (let net = rg_network value; w = rg_closing value; payments = accounted_payment net (ch_start_height stream) (rg_last value) p in
      (backing (ledger p) AssetTIG Custody, backing (ledger p) AssetNATIVE Custody) = (wb_tig w, wb_native w) \<and>
      ch_start_nonce stream + int (length (filter payments (custody_payments p))) = wb_nonce w \<and>
      \<not> list_ex (unexplained net (ch_start_height stream) (rg_last value) p) (transfers p) \<and>
      \<not> list_ex (\<lambda>a. al_kind a = ''canonical-conflict'') (chain_alerts (chain_of p)) \<and> known \<and> rg_last value = rg_target value)"

definition check_row :: "string \<Rightarrow> range_reading \<Rightarrow> chain_stream_row \<Rightarrow> bool \<Rightarrow> pool \<Rightarrow> custody_check_row" where
  "check_row identity value stream known p =
     (let w = rg_closing value; healthy = is_healthy value stream known p; net = rg_network value;
          payments = accounted_payment net (ch_start_height stream) (rg_last value) p in
      \<lparr>cc_capture_id = identity, cc_height = Some (rg_last value), cc_target_height = Some (rg_target value),
        cc_block_hash = Some (rg_block_hash value), cc_actual_tig = Some (wb_tig w), cc_actual_native = Some (wb_native w),
        cc_recorded_tig = Some (backing (ledger p) AssetTIG Custody), cc_recorded_native = Some (backing (ledger p) AssetNATIVE Custody),
        cc_outgoing_nonce = Some (wb_nonce w),
        cc_accounted_nonces = Some (ch_start_nonce stream + int (length (filter payments (custody_payments p)))),
        cc_healthy = healthy, cc_reason = check_reason healthy value known, cc_checked_at = rg_checked_at value,
        cc_custody_code = (case rg_custody_code value of JStr s \<Rightarrow> Some s | _ \<Rightarrow> None)\<rparr>)"

definition conclude :: "string \<Rightarrow> range_reading \<Rightarrow> pool \<Rightarrow> (chain_report \<times> pool) result" where
  "conclude identity value p =
     bindE (bind (rg_network value) p) (\<lambda>(_, p).
     case chain_stream p of
       None \<Rightarrow> Inl TypeError
     | Some stream \<Rightarrow>
         bindE (known_code value p) (\<lambda>known.
         let c = check_row identity value stream known p in
         Inr (Collected identity (rg_last value) (cc_healthy c) (cc_reason c),
           p\<lparr>custody_checks := custody_checks p @ [c],
             chain_log := (chain_of p)\<lparr>chain_batches := chain_batches (chain_of p) @
               [\<lparr>bt_capture_id = identity, bt_first = rg_first value, bt_last = rg_last value, bt_block_hash = rg_block_hash value\<rparr>]\<rparr>,
             chain_stream := Some (stream\<lparr>ch_last_height := rg_last value, ch_last_hash := rg_block_hash value\<rparr>)\<rparr>)))"

definition observe :: "env \<Rightarrow> (nat \<Rightarrow> string) \<Rightarrow> string \<Rightarrow> range_reading \<Rightarrow> pool \<Rightarrow> chain_report result \<times> pool" where
  "observe env ids identity value p =
     (case stream_decision identity value p of
        Inl e \<Rightarrow> (Inl e, p)
      | Inr (Some report) \<Rightarrow> (Inr report, p)
      | Inr None \<Rightarrow>
          (case book_transfers env ids 2 (rg_network value) (rg_transfers value) p of
             (Inl e, p) \<Rightarrow> (Inl e, p)
           | (Inr _, p) \<Rightarrow> commit (conclude identity value) p))"

section \<open>Recording a capture\<close>

definition RPC_METHODS :: "string list" where
  "RPC_METHODS = [''eth_chainId'', ''eth_call'', ''eth_getTransactionReceipt'', ''eth_getBlockByNumber'', ''eth_getLogs'',
     ''eth_getTransactionByHash'', ''eth_getTransactionCount'', ''eth_getBalance'', ''eth_getCode'', ''trace_transaction'']"

text \<open>The reason shown for a capture that does not verify: never the text of a provider.\<close>

definition failure_reason :: "json \<Rightarrow> error \<Rightarrow> string result" where
  "failure_reason data e =
     bindE (json_get data ''error_details'') (\<lambda>details. bindE (json_get data ''error'') (\<lambda>kind.
     case details of
       JDict items \<Rightarrow>
         if kind \<noteq> JStr ''RpcFailure'' then Inr (class_name e) else
         bindE (hashable (get ''method'' items)) (\<lambda>m.
         case m of
           JStr method \<Rightarrow>
             if method \<notin> set RPC_METHODS then Inr (class_name e)
             else Inr (''RPC '' @ method @ '' failed'' @
               (case get ''http_status'' items of JInt n \<Rightarrow> '' (HTTP '' @ int_text n @ '')'' | _ \<Rightarrow> []))
         | _ \<Rightarrow> Inr (class_name e))
     | _ \<Rightarrow> Inr (class_name e)))"

fun message_of :: "error \<Rightarrow> string" where
  "message_of (FundsError m) = m"
| "message_of (Conflict m) = m"
| "message_of (InsufficientFunds m) = m"
| "message_of e = class_name e"

definition is_critical :: "error \<Rightarrow> bool" where
  "is_critical e \<longleftrightarrow> e = Conflict ''recorded finalized custody anchor changed'' \<or>
     e = Conflict ''recorded finalized custody transfer history changed''"

definition record_chain :: "env \<Rightarrow> (nat \<Rightarrow> string) \<Rightarrow> json \<Rightarrow> opening_request \<Rightarrow> pool \<Rightarrow> chain_report result \<times> pool" where
  "record_chain env ids data o' p =
     (case save_capture env data p of (identity, p) \<Rightarrow>
        (let failed = (\<lambda>e p. (Inl e, record_failure env identity (message_of e) (is_critical e) p)) in
         case verify_chain env data of
           Inl e \<Rightarrow> (case failure_reason data e of
               Inl e' \<Rightarrow> (Inl e', p)
             | Inr reason \<Rightarrow> (Inl e, record_failure env identity reason False p))
         | Inr value \<Rightarrow>
             (case commit (open_stream env ids identity value o') p of
                (Inl e, p) \<Rightarrow> failed e p
              | (Inr _, p) \<Rightarrow>
                  (case observe env ids identity value p of
                     (Inl e, p) \<Rightarrow> failed e p
                   | (Inr report, p) \<Rightarrow> (Inr report, p)))))"

end
