(* ===== verification/Chain_Properties.thy ===== *)
theory Chain_Properties
  imports Chain_Observer
begin

text \<open>
  What a reading of the chain can conclude, whatever answers it: the facts it returns are well
  formed and confirmed, the search for a nonce ends at the first height that consumed it, and a
  capture verifies to what was read when it was made.
\<close>

section \<open>Runs\<close>

lemma run_bindR_Inr [outcome]:
  "run (bindR m k) answer s = (Inr y, s') \<longleftrightarrow> (\<exists>x s1. run m answer s = (Inr x, s1) \<and> run (k x) answer s1 = (Inr y, s'))"
  by (auto simp: run_bindR split: prod.splits sum.splits)

lemma run_Done [outcome]: "run (Done r) answer s = (Inr y, s') \<longleftrightarrow> r = Inr y \<and> s' = s"
  by auto

lemma run_require_that [outcome]: "run (require_that b message) answer s = (Inr u, s') \<longleftrightarrow> b \<and> s' = s"
  by (auto simp: require_that_def)

lemma run_refuse_if [outcome]: "run (if b then Done (Inl e) else m) answer s = (Inr y, s') \<longleftrightarrow> \<not> b \<and> run m answer s = (Inr y, s')"
  by simp

section \<open>Well-formed facts\<close>

definition lower_hex :: "char \<Rightarrow> bool" where
  "lower_hex c \<longleftrightarrow> is_digit c \<or> (97 \<le> (of_char c :: nat) \<and> (of_char c :: nat) \<le> 102)"

definition hex_data :: "nat \<Rightarrow> string \<Rightarrow> bool" where
  "hex_data n s \<longleftrightarrow> take 2 s = ''0x'' \<and> length s = 2 + 2 * n \<and> list_all lower_hex (drop 2 s)"

lemma lower_hex_lower: "is_hex c \<Longrightarrow> lower_hex (lower_char c)"
  by (auto simp: is_hex_def lower_hex_def lower_char_def is_digit_def of_char_of)

lemma lower_hex_fixed: "lower_hex c \<Longrightarrow> lower_char c = c"
  by (auto simp: lower_hex_def lower_char_def is_digit_def)

lemma hex_data_lower:
  assumes "take 2 s = ''0x''" and "length s = 2 + 2 * n" and "list_all is_hex (drop 2 s)"
  shows "hex_data n (lower s)"
proof -
  have "take 2 (lower s) = lower ''0x''" using assms(1) by (simp add: lower_def take_map)
  also have "\<dots> = ''0x''" by (simp add: lower_def lower_char_def)
  finally show ?thesis using assms(2,3) by (auto simp: hex_data_def lower_def drop_map list_all_iff lower_hex_lower)
qed

lemma hex_bytes_data: "hex_bytes n v = Inr s \<Longrightarrow> hex_data n s"
  by (auto simp: hex_bytes_def intro: hex_data_lower split: json.splits if_splits)

lemma address_data: "address v = Inr s \<Longrightarrow> hex_data 20 s"
  by (auto simp: address_def intro: hex_data_lower split: json.splits if_splits)

lemma indexed_address_data:
  assumes "hex_data 32 topic" and "indexed_address topic = Inr s"
  shows "hex_data 20 s"
proof -
  have size: "length topic = 66" and hex: "list_all lower_hex (drop 2 topic)" using assms(1) by (simp_all add: hex_data_def)
  have s: "s = ''0x'' @ drop 24 (drop 2 topic)" using assms(2) size by (auto simp: indexed_address_def split: if_splits)
  have "list_all lower_hex (drop 24 (drop 2 topic))" using hex by (meson list_all_iff in_set_dropD)
  with s size show ?thesis by (simp add: hex_data_def)
qed

lemma quantity_nonneg: "quantity v = Inr n \<Longrightarrow> 0 \<le> n"
  by (auto simp: quantity_def split: json.splits if_splits)

lemma quantity_at_nonneg: "quantity_at v k = Inr n \<Longrightarrow> 0 \<le> n"
  by (auto simp: quantity_at_def bindE_Inr dest: quantity_nonneg)

lemma hash_at_data: "hash_at v k = Inr s \<Longrightarrow> hex_data 32 s"
  by (auto simp: hash_at_def bindE_Inr dest: hex_bytes_data)

lemma address_at_data: "address_at v k = Inr s \<Longrightarrow> hex_data 20 s"
  by (auto simp: address_at_def bindE_Inr dest: address_data)

lemma transfer_event_data: "transfer_event lg = Inr (a, b, n) \<Longrightarrow> hex_data 20 a \<and> hex_data 20 b \<and> 0 \<le> n"
  by (auto simp: transfer_event_def word_value_def outcome dest!: hex_bytes_data indexed_address_data [rotated])

text \<open>
  The evidence of a confirmed receipt: mined in a block that is canonical, has enough blocks above it
  and, where the policy asks for it, is final.
\<close>

definition confirmed_by :: "network \<Rightarrow> (string \<times> json) list \<Rightarrow> int \<Rightarrow> string \<Rightarrow> bool" where
  "confirmed_by net evidence number block \<longleftrightarrow>
     (case (get ''receipt'' evidence, get ''header'' evidence, get ''latest'' evidence, get ''finalized'' evidence) of
        (receipt, header, latest, finalized) \<Rightarrow>
          quantity_at receipt ''blockNumber'' = Inr number \<and> hash_at receipt ''blockHash'' = Inr block \<and>
          quantity_at header ''number'' = Inr number \<and> hash_at header ''hash'' = Inr block \<and>
          (case quantity_at latest ''number'' of Inl _ \<Rightarrow> False | Inr head \<Rightarrow> net_confirmations net \<le> head - number + 1) \<and>
          (net_require_finalized net \<longrightarrow> (case quantity_at finalized ''number'' of Inl _ \<Rightarrow> False | Inr n \<Rightarrow> number \<le> n)))"

lemma mined_receipt_Inr:
  "mined_receipt h receipt = Inr (number, block) \<Longrightarrow>
   quantity_at receipt ''blockNumber'' = Inr number \<and> hash_at receipt ''blockHash'' = Inr block"
  by (auto simp: mined_receipt_def outcome split: if_splits)

lemma final_at_Inr: "final_at finalized number = Inr True \<Longrightarrow>
   (case quantity_at finalized ''number'' of Inl _ \<Rightarrow> False | Inr n \<Rightarrow> number \<le> n)"
  by (auto simp: final_at_def outcome split: if_splits)

lemma canonical_header_Inr: "canonical_header header number block = Inr True \<Longrightarrow>
   quantity_at header ''number'' = Inr number \<and> hash_at header ''hash'' = Inr block"
  by (auto simp: canonical_header_def outcome split: if_splits)

lemma confirmed_receipt_run:
  assumes "run (confirmed_receipt net tx) answer s = (Inr (receipt, header, evidence), s')"
  shows "\<exists>number block. confirmed_by net evidence number block \<and>
    quantity_at receipt ''blockNumber'' = Inr number \<and> hash_at receipt ''blockHash'' = Inr block"
proof -
  from assms obtain number block latest head finalized h f c s6 s7 where
      mined: "mined_receipt h receipt = Inr (number, block)" and head: "quantity_at latest ''number'' = Inr head"
      and depth: "net_confirmations net \<le> head - number + 1"
      and final: "run (if net_require_finalized net then Done (final_at finalized number) else Done (Inr True)) answer s6 = (Inr f, s7)" f
      and canonical: "canonical_header header number block = Inr c" c
      and evidence: "evidence = [(''receipt'', receipt), (''header'', header), (''latest'', latest), (''finalized'', finalized)]"
    unfolding confirmed_receipt_def run_bindR_Inr run_Done run_require_that split_paired_Ex prod.case sum.inject prod.inject by blast
  have "net_require_finalized net \<longrightarrow> (case quantity_at finalized ''number'' of Inl _ \<Rightarrow> False | Inr n \<Rightarrow> number \<le> n)"
    using final final_at_Inr by (cases f) auto
  with mined_receipt_Inr [OF mined] head depth canonical_header_Inr canonical show ?thesis
    by (auto simp: confirmed_by_def evidence get_def)
qed

definition transfer_wf :: "network \<Rightarrow> confirmed_transfer \<Rightarrow> bool" where
  "transfer_wf net t \<longleftrightarrow> tf_network t = net \<and> hex_data 32 (tf_tx_hash t) \<and> hex_data 32 (tf_block_hash t) \<and>
     hex_data 20 (tf_sender t) \<and> hex_data 20 (tf_recipient t) \<and> 0 \<le> tf_log_index t \<and> 0 \<le> tf_block_number t \<and>
     0 \<le> tf_amount t \<and> net_custody net \<in> {tf_sender t, tf_recipient t} \<and>
     (\<exists>evidence. tf_evidence t = JDict evidence \<and> confirmed_by net evidence (tf_block_number t) (tf_block_hash t))"

lemma confirmed_event_wf:
  assumes "confirmed_event net h i (receipt, header, evidence) = Inr t" and "hex_data 32 h" and "0 \<le> i"
    and "confirmed_by net evidence number block" and "quantity_at receipt ''blockNumber'' = Inr number"
    and "hash_at receipt ''blockHash'' = Inr block"
  shows "transfer_wf net t"
  using assms unfolding confirmed_event_def
  by (auto simp: outcome transfer_wf_def dest: quantity_at_nonneg hash_at_data transfer_event_data)

text \<open>
  C35. Whatever the provider answers, a transfer that is read is well formed and confirmed: its hashes and
  addresses are lower-case hexadecimal of their size, its amounts are not negative, custody is
  one of its parties, and the evidence it carries has its block canonical, deep enough and final
  where the policy requires it.
\<close>

theorem read_transfer_wf: "case run (read_transfer net tx i) answer s of (Inl e, s') \<Rightarrow> True | (Inr t, s') \<Rightarrow> transfer_wf net t"
proof -
  have "transfer_wf net t" if run: "run (read_transfer net tx i) answer s = (Inr t, s')" for t s'
  proof -
    from run obtain h n receipt header evidence where h: "hex_bytes 32 tx = Inr h" and n: "units False i = Inr n"
        and confirmed: "run (confirmed_receipt net (JStr h)) answer s = (Inr (receipt, header, evidence), s')"
        and event: "confirmed_event net h n (receipt, header, evidence) = Inr t"
      unfolding read_transfer_def run_bindR_Inr run_Done split_paired_Ex by blast
    from confirmed_receipt_run [OF confirmed] obtain number block where "confirmed_by net evidence number block"
        "quantity_at receipt ''blockNumber'' = Inr number" "hash_at receipt ''blockHash'' = Inr block" by blast
    with event hex_bytes_data [OF h] n show ?thesis by (intro confirmed_event_wf [of net h n receipt header evidence]) (auto simp: outcome)
  qed
  then show ?thesis by (auto split: prod.splits sum.splits)
qed

section \<open>Searching for a nonce\<close>

lemma nonce_count_run:
  assumes "answer s ChainRpc ''eth_getTransactionCount'' [JStr (net_custody net), JStr (hex_text h)] = (Inr (JStr (hex_text n)), s')"
    and "0 \<le> n"
  shows "run (nonce_count net h) answer s = (Inr n, s')"
  using assms by (simp add: nonce_count_def run_bindR quantity_hex_text)

text \<open>
  C36. The binary search for the block that consumed a nonce always ends, and at the right height: when
  the provider's counts over the range do not decrease, the height it returns is the first one of
  the range whose count exceeds the nonce, or the end of the range.
\<close>

theorem search_finds_first:
  assumes counts: "\<And>s h. first \<le> h \<Longrightarrow> h < final \<Longrightarrow>
      \<exists>s'. answer s ChainRpc ''eth_getTransactionCount'' [JStr (net_custody net), JStr (hex_text h)] = (Inr (JStr (hex_text (f h))), s')"
    and monotone: "\<And>g h. first \<le> g \<Longrightarrow> g \<le> h \<Longrightarrow> h < final \<Longrightarrow> 0 \<le> f g \<and> f g \<le> f h"
    and range: "first \<le> final"
  shows "\<exists>h s'. run (search net nonce first final) answer s = (Inr h, s') \<and> first \<le> h \<and> h \<le> final \<and>
    (h < final \<longrightarrow> nonce < f h) \<and> (\<forall>g. first \<le> g \<and> g < h \<longrightarrow> f g \<le> nonce)"
  using assms
proof (induction net nonce first final arbitrary: s rule: search.induct)
  case (1 net nonce first final)
  show ?case
  proof (cases "first < final")
    case False
    then have "run (search net nonce first final) answer s = (Inr first, s)" by (simp add: search.simps [of net nonce first final])
    with False 1(5) show ?thesis by auto
  next
    case True
    define m where "m = (first + final) div 2"
    have m: "first \<le> m" "m < final" using True by (auto simp: m_def)
    obtain s1 where "answer s ChainRpc ''eth_getTransactionCount'' [JStr (net_custody net), JStr (hex_text m)] = (Inr (JStr (hex_text (f m))), s1)"
      using 1(3) m by blast
    moreover have "0 \<le> f m" using 1(4) m by blast
    ultimately have step: "run (search net nonce first final) answer s =
        run (if nonce < f m then search net nonce first m else search net nonce (m + 1) final) answer s1"
      using True by (simp add: search.simps [of net nonce first final] run_bindR nonce_count_run m_def)
    show ?thesis
    proof (cases "nonce < f m")
      case left: True
      obtain h s' where h: "run (search net nonce first m) answer s1 = (Inr h, s')" "first \<le> h" "h \<le> m" "h < m \<longrightarrow> nonce < f h"
          "\<forall>g. first \<le> g \<and> g < h \<longrightarrow> f g \<le> nonce"
        using 1(1) [OF True, of "f m" s1] left 1(3,4) m unfolding m_def by fastforce
      have "nonce < f h" using h(3,4) left by (cases "h = m") auto
      with h m step left show ?thesis by (intro exI [of _ h] exI [of _ s']) auto
    next
      case right: False
      obtain h s' where h: "run (search net nonce (m + 1) final) answer s1 = (Inr h, s')" "m + 1 \<le> h" "h \<le> final" "h < final \<longrightarrow> nonce < f h"
          "\<forall>g. m + 1 \<le> g \<and> g < h \<longrightarrow> f g \<le> nonce"
        using 1(2) [OF True, of "f m" s1] right 1(3,4) m unfolding m_def by fastforce
      have "f g \<le> nonce" if "first \<le> g" "g < h" for g
        using h(5) right 1(4) [of g m] that m by (cases "g \<le> m") fastforce+
      with h m step right show ?thesis by (intro exI [of _ h] exI [of _ s']) auto
    qed
  qed
qed

text \<open>A provider whose count rises from 3 to 4 at height 5, and the search it answers.\<close>

definition demo_count :: "int \<Rightarrow> int" where
  "demo_count h = (if h < 5 then 3 else 4)"

definition demo_counts :: "unit provider" where
  "demo_counts s src m ps =
     (case ps of
        [_, JStr tag] \<Rightarrow> (bindE (quantity (JStr tag)) (\<lambda>h. Inr (JStr (hex_text (demo_count h)))), s)
      | _ \<Rightarrow> (Inl (FundsError ''unexpected question''), s))"

lemma search_finds_first_witness:
  "\<exists>h. fst (run (search demo_net 3 2 9) demo_counts ()) = Inr h \<and> 2 \<le> h \<and> h \<le> 9 \<and> (h < 9 \<longrightarrow> 3 < demo_count h) \<and>
     (\<forall>g. 2 \<le> g \<and> g < h \<longrightarrow> demo_count g \<le> 3)"
proof -
  have "demo_counts s ChainRpc m [x, JStr (hex_text h)] = (Inr (JStr (hex_text (demo_count h))), s)" if "2 \<le> h" for s m x h
    using that by (simp add: demo_counts_def quantity_hex_text)
  moreover have "0 \<le> demo_count g \<and> demo_count g \<le> demo_count h" if "g \<le> h" for g h using that by (simp add: demo_count_def)
  ultimately show ?thesis using search_finds_first [of 2 9 demo_counts demo_net demo_count 3 "()"] by (auto simp: fst_def split: prod.splits)
qed

section \<open>Captures\<close>

lemma hex_data_address: "hex_data 20 s \<Longrightarrow> \<not> list_all (\<lambda>c. c = CHR ''0'') (drop 2 s) \<Longrightarrow> address (JStr s) = Inr s"
proof -
  assume data: "hex_data 20 s" and nonzero: "\<not> list_all (\<lambda>c. c = CHR ''0'') (drop 2 s)"
  have "list_all is_hex (drop 2 s)" using data by (auto simp: hex_data_def list_all_iff lower_hex_def is_hex_def)
  moreover have "lower s = lower (take 2 s) @ lower (drop 2 s)" by (simp add: lower_def flip: map_append)
  then have "lower s = take 2 s @ drop 2 s" using data
    by (simp add: hex_data_def lower_def list_all_iff lower_hex_fixed map_idI) (simp add: lower_char_def)
  ultimately show "address (JStr s) = Inr s" using data nonzero by (simp add: address_def hex_data_def)
qed

lemma address_again: "address v = Inr s \<Longrightarrow> address (JStr s) = Inr s"
proof (rule hex_data_address)
  assume s: "address v = Inr s"
  then show "hex_data 20 s" by (rule address_data)
  from s obtain t where t: "s = lower t" "\<not> list_all (\<lambda>c. c = CHR ''0'') (drop 2 t)" by (auto simp: address_def split: json.splits if_splits)
  have "lower_char c = CHR ''0'' \<longleftrightarrow> c = CHR ''0''" for c
  proof
    assume "lower_char c = CHR ''0''"
    then have code: "(of_char (lower_char c) :: nat) = 48" by simp
    have "of_char (lower_char c) = (if 65 \<le> (of_char c :: nat) \<and> (of_char c :: nat) \<le> 90 then of_char c + 32 else of_char c :: nat)"
      by (auto simp: lower_char_def of_char_of)
    then have "lower_char c = c" using code by (auto simp: lower_char_def split: if_splits)
    with \<open>lower_char c = CHR ''0''\<close> show "c = CHR ''0''" by simp
  qed (simp add: lower_char_def)
  with t show "\<not> list_all (\<lambda>c. c = CHR ''0'') (drop 2 s)" by (auto simp: lower_def drop_map list_all_iff)
qed

lemma network_again:
  assumes "make_network a b c d e f = Inr net"
  shows "network_of (network_json net) = Inr net"
proof -
  from assms have "1 \<le> net_chain_id net" "1 \<le> net_confirmations net" "net_decimals net = 18"
      "address (JStr (net_token net)) = Inr (net_token net)" "address (JStr (net_custody net)) = Inr (net_custody net)"
    by (cases f; auto simp: make_network_def outcome address_again)+
  then show ?thesis by (simp add: network_of_def network_json_def get_def make_network_def units_def)
qed

text \<open>Replaying the recorded calls of a capture.\<close>

lemma capture_verified:
  assumes net: "make_network a b c d e f = Inr net" and time: "fromisoformat env (isoformat env (clock env)) = Some (clock env, True)"
    and run: "run (read_range net 2 (clock env) (JInt first) (JInt width)) answer s = (Inr v, s')"
  shows "\<exists>calls. capture_chain env net answer s first width origin =
      (JDict [(''version'', JInt 2), (''network'', network_json net), (''first'', JInt first), (''count'', JInt width),
         (''checked_at'', JStr (isoformat env (clock env))), (''source'', JStr origin), (''calls'', JList calls), (''error'', JNull)], s') \<and>
    verify_chain env (fst (capture_chain env net answer s first width origin)) = Inr v"
proof -
  let ?m = "read_range net 2 (clock env) (JInt first) (JInt width)"
  obtain r t calls where recorded: "run ?m (recording call_json answer) (s, []) = (r, (t, calls))" by (metis surj_pair)
  have plain: "r = Inr v" "t = s'" using run_recording [OF recorded] run by simp_all
  have "run ?m archived calls = (Inr v, [])"
    using custody_calls.replay_of_recording [OF recorded [unfolded plain]] by (simp add: archived_def)
  with recorded plain time network_again [OF net] show ?thesis
    by (auto simp: capture_chain_def subscript_def verify_chain_def json_get_def get_def capture_version_def equals_one_def falsy_def
        iterate_def checked_time_def parse_time_def unconsumed_def)
qed

text \<open>
  C37. A capture and its verification agree: when a range was read without an error, verifying the capture
  that was kept of it, offline and from its recorded answers alone, gives exactly what the reading
  gave; and when the reading failed, the capture is refused.
\<close>

theorem capture_verifies:
  assumes net: "make_network a b c d e f = Inr net" and time: "fromisoformat env (isoformat env (clock env)) = Some (clock env, True)"
    and capture: "capture_chain env net answer s first width origin = (data, s')"
  shows "run (read_range net 2 (clock env) (JInt first) (JInt width)) answer s =
     (case subscript data ''error'' of
        Inr JNull \<Rightarrow> (verify_chain env data, s')
      | _ \<Rightarrow> (fst (run (read_range net 2 (clock env) (JInt first) (JInt width)) answer s), s')) \<and>
    (subscript data ''error'' \<noteq> Inr JNull \<longrightarrow> verify_chain env data = Inl (FundsError ''custody capture is incomplete or unsupported''))"
proof (cases "fst (run (read_range net 2 (clock env) (JInt first) (JInt width)) answer s)")
  case (Inl e)
  obtain r t calls where recorded: "run (read_range net 2 (clock env) (JInt first) (JInt width)) (recording call_json answer) (s, []) = (r, (t, calls))"
    by (metis surj_pair)
  have run: "run (read_range net 2 (clock env) (JInt first) (JInt width)) answer s = (r, t)" using run_recording [OF recorded] by simp
  with Inl have r: "r = Inl e" by simp
  have "class_name e \<noteq> []" by (cases e) simp_all
  with run recorded capture r show ?thesis
    by (auto simp: capture_chain_def subscript_def verify_chain_def json_get_def get_def capture_version_def equals_one_def falsy_def)
next
  case (Inr v)
  then have run: "run (read_range net 2 (clock env) (JInt first) (JInt width)) answer s =
      (Inr v, snd (run (read_range net 2 (clock env) (JInt first) (JInt width)) answer s))" by (simp add: prod_eq_iff)
  from capture_verified [OF net time run, of origin] capture show ?thesis by (subst run) (auto simp: subscript_def)
qed

text \<open>A wallet that holds nothing, watched from block 5 by a provider whose newest block is block 5.\<close>

definition ce_text :: "char \<Rightarrow> nat \<Rightarrow> string" where
  "ce_text c n = ''0x'' @ replicate n c"

definition ce_net :: network where
  "ce_net = \<lparr>net_chain_id = 1, net_token = ce_text (CHR ''a'') 40, net_custody = ce_text (CHR ''b'') 40, net_confirmations = 1, net_decimals = 18,
     net_require_finalized = True\<rparr>"

definition ce_block :: "string \<Rightarrow> json" where
  "ce_block n = JDict [(''number'', JStr n), (''hash'', JStr (ce_text (CHR ''0'') 64)), (''timestamp'', JStr ''0x0'')]"

definition ce_provider :: "unit provider" where
  "ce_provider s src m ps =
    (if m = ''eth_chainId'' then Inr (JStr ''0x1'') else
     if m = ''eth_call'' then Inr (if ps ! 1 = JStr ''latest'' then JStr ''0x12'' else JStr (ce_text (CHR ''0'') 64)) else
     if m = ''eth_getBlockByNumber'' then Inr (ce_block (if ps ! 0 = JStr ''0x4'' then ''0x4'' else ''0x5'')) else
     if m = ''eth_getLogs'' then Inr (JList []) else
     if m = ''eth_getCode'' then Inr (JStr ''0x'') else Inr (JStr ''0x0''), s)"

lemma ce_quantities: "quantity (JStr ''0x1'') = Inr 1" "quantity (JStr ''0x12'') = Inr 18" "quantity (JStr ''0x4'') = Inr 4" "quantity (JStr ''0x5'') = Inr 5" "quantity (JStr ''0x0'') = Inr 0"
  by (simp_all add: quantity_def parse_hex_def hex_value_def is_hex_def is_digit_def lower_char_def)

lemma ce_hash: "hex_bytes 32 (JStr (ce_text (CHR ''0'') 64)) = Inr (ce_text (CHR ''0'') 64)"
proof -
  have "list_all is_hex (replicate 64 (CHR ''0''))" by (simp add: list_all_iff set_replicate_conv_if is_hex_def is_digit_def)
  moreover have "lower (''0x'' @ replicate 64 (CHR ''0'')) = ''0x'' @ replicate 64 (CHR ''0'')" by (simp add: lower_def lower_char_def map_replicate)
  ultimately show ?thesis by (simp add: hex_bytes_def ce_text_def)
qed

lemma ce_word: "word_value (JStr (ce_text (CHR ''0'') 64)) = Inr 0"
  unfolding word_value_def ce_hash using parse_hex_zeros [of 64 "[]"] by (simp add: ce_text_def parse_hex_def)

lemma ce_tag: "hex_text 4 = ''0x4''" "hex_text 5 = ''0x5''" by code_simp+

lemma ce_header: "header_number (ce_block ''0x4'') (Some 4) = Inr 4" "header_number (ce_block ''0x5'') (Some 5) = Inr 5"
   "header_number (ce_block ''0x5'') None = Inr 5" "hash_at (ce_block n) ''hash'' = Inr (ce_text (CHR ''0'') 64)"
   "quantity_at (ce_block n) ''timestamp'' = Inr 0"
  by (simp_all add: header_number_def quantity_at_def hash_at_def subscript_def ce_block_def ce_quantities ce_hash)

lemma ce_network: "run (verify_network ce_net) ce_provider () = (Inr (), ())"
  by (simp add: verify_network_def run_bindR ce_provider_def ce_quantities ce_net_def require_that_def)

lemma ce_balances: "run (read_balances ce_net h) ce_provider () = (Inr \<lparr>wb_tig = 0, wb_native = 0, wb_nonce = 0\<rparr>, ())"
  by (simp add: read_balances_def run_bindR ce_provider_def ce_quantities hex_text_def ce_word Let_def)

lemma ce_block_at: "run (block_at tag w) ce_provider () = (Inr (ce_block (if tag = JStr ''0x4'' then ''0x4'' else ''0x5'')), ())"
  by (simp add: block_at_def ce_provider_def)

lemma ce_policy: "net_confirmations ce_net = 1" "net_require_finalized ce_net" "ce_provider () src ''eth_getCode'' ps = (Inr (JStr ''0x''), ())"
  by (simp_all add: ce_net_def ce_provider_def)

definition ce_value :: range_reading where
  "ce_value = \<lparr>rg_network = ce_net, rg_first = 5, rg_last = 5, rg_target = 5, rg_before_hash = ce_text (CHR ''0'') 64, rg_block_hash = ce_text (CHR ''0'') 64,
      rg_opening = \<lparr>wb_tig = 0, wb_native = 0, wb_nonce = 0\<rparr>, rg_closing = \<lparr>wb_tig = 0, wb_native = 0, wb_nonce = 0\<rparr>, rg_transfers = [],
      rg_checked_at = 0, rg_custody_code = JStr ''0x''\<rparr>"

lemma ce_end: "run (read_end ce_net 2 5 \<lparr>wb_tig = 0, wb_native = 0, wb_nonce = 0\<rparr> (ce_block ''0x5'') []) ce_provider () =
   (Inr (\<lparr>wb_tig = 0, wb_native = 0, wb_nonce = 0\<rparr>, JStr ''0x''), ())"
  by (simp add: read_end_def run_bindR ce_balances ce_policy ce_block_at ce_tag ce_header check_code_def delegation_def)

lemma ce_direction: "run (read_direction ce_net a b d found) ce_provider () = (Inr found, ())"
  by (simp add: read_direction_def run_bindR ce_provider_def log_rows_def)

lemma ce_range: "run (read_range ce_net 2 0 (JInt 5) (JInt 1)) ce_provider () = (Inr ce_value, ())"
  by (simp add: read_range_def run_bindR arguments_def units_def ce_network ce_balances ce_block_at range_target_def ce_header seconds_def
      ce_end Let_def ce_policy ce_tag ce_direction ce_value_def)

lemma ce_network_valid:
  "make_network (JInt 1) (JStr (ce_text (CHR ''a'') 40)) (JStr (ce_text (CHR ''b'') 40)) (JInt 1) (JInt 18) (JBool True) = Inr ce_net"
proof -
  have address: "address (JStr (ce_text c 40)) = Inr (ce_text c 40)" if "c = CHR ''a'' \<or> c = CHR ''b''" for c
  proof (rule hex_data_address)
    show "hex_data 20 (ce_text c 40)" using that by (auto simp: hex_data_def ce_text_def list_all_iff lower_hex_def)
    show "\<not> list_all (\<lambda>c. c = CHR ''0'') (drop 2 (ce_text c 40))" using that by (auto simp: ce_text_def list_all_iff)
  qed
  then show ?thesis by (simp add: make_network_def units_def ce_net_def)
qed

lemma ce_time: "clock demo_env = 0" "fromisoformat demo_env (isoformat demo_env (clock demo_env)) = Some (clock demo_env, True)"
  by (simp_all add: demo_env_def int_text_def)

lemma capture_verifies_witness:
  "verify_chain demo_env (fst (capture_chain demo_env ce_net ce_provider () 5 1 ''node'')) = Inr ce_value"
proof -
  obtain calls where data: "capture_chain demo_env ce_net ce_provider () 5 1 ''node'' =
      (JDict [(''version'', JInt 2), (''network'', network_json ce_net), (''first'', JInt 5), (''count'', JInt 1),
         (''checked_at'', JStr (isoformat demo_env (clock demo_env))), (''source'', JStr ''node''), (''calls'', JList calls), (''error'', JNull)], ())"
    using capture_verified [OF ce_network_valid ce_time(2), of 5 1 ce_provider "()" ce_value "()" "''node''"] ce_range unfolding ce_time(1) by blast
  from capture_verifies [OF ce_network_valid ce_time(2) data] ce_range show ?thesis
    by (simp add: data subscript_def ce_time(1))
qed

end
