(* ===== verification/Observer_Properties.thy ===== *)
theory Observer_Properties
  imports Chain_Properties
begin

text \<open>
  What the custody observer keeps and concludes: ranges are collected one after the other with
  nothing skipped, every transfer of a collected range is recorded, and a wallet is only called
  reconciled when the ledger records what it holds and every send is accounted for.
\<close>

section \<open>The cursor\<close>

fun consecutive :: "int \<Rightarrow> chain_batch_row list \<Rightarrow> bool" where
  "consecutive h [] \<longleftrightarrow> True"
| "consecutive h (b # bs) \<longleftrightarrow> bt_first b = h \<and> h - 1 \<le> bt_last b \<and> consecutive (bt_last b + 1) bs"

definition cursor_after :: "int \<Rightarrow> chain_batch_row list \<Rightarrow> int" where
  "cursor_after h bs = (if bs = [] then h - 1 else bt_last (last bs))"

lemma consecutive_snoc:
  "consecutive h (bs @ [b]) \<longleftrightarrow> consecutive h bs \<and> bt_first b = cursor_after h bs + 1 \<and> bt_first b - 1 \<le> bt_last b"
  by (induction bs arbitrary: h) (auto simp: cursor_after_def)

lemma cursor_after_snoc [simp]: "cursor_after h (bs @ [b]) = bt_last b"
  by (simp add: cursor_after_def)

text \<open>Every block from the start to the cursor lies in exactly one recorded range.\<close>

lemma consecutive_covers:
  "consecutive h bs \<Longrightarrow> h \<le> n \<Longrightarrow> n \<le> cursor_after h bs \<Longrightarrow> \<exists>b \<in> set bs. bt_first b \<le> n \<and> n \<le> bt_last b"
proof (induction bs arbitrary: h)
  case (Cons b bs)
  show ?case
  proof (cases "n \<le> bt_last b")
    case True
    with Cons.prems show ?thesis by auto
  next
    case False
    with Cons.prems have "bs \<noteq> []" by (auto simp: cursor_after_def)
    then have "cursor_after (bt_last b + 1) bs = cursor_after h (b # bs)" by (simp add: cursor_after_def)
    with Cons.IH [of "bt_last b + 1"] Cons.prems False show ?thesis by auto
  qed
qed (simp add: cursor_after_def)

definition cursor_ok :: "pool \<Rightarrow> bool" where
  "cursor_ok p \<longleftrightarrow>
     (case chain_stream p of
        None \<Rightarrow> chain_batches (chain_of p) = []
      | Some stream \<Rightarrow> consecutive (ch_start_height stream) (chain_batches (chain_of p)) \<and>
          ch_last_height stream = cursor_after (ch_start_height stream) (chain_batches (chain_of p)))"

section \<open>What the steps of a recording change\<close>

lemma receive_frame:
  assumes "receive env i j t p = Inr (d, p')"
  shows "\<exists>led ci ts ats. p' = p\<lparr>ledger := led, custody_identity := ci, transfers := ts, transfer_attributions := ats\<rparr>"
proof -
  from assms obtain new q led where q: "save_transfer t p = Inr (new, q)"
    and rest: "case lookup at_event_id (event_id t) (transfer_attributions p) of
           Some attributed \<Rightarrow> d = at_destination attributed \<and> p' = q\<lparr>ledger := led\<rparr>
         | None \<Rightarrow> (case lookup m_wallet (tf_sender t) (members p) of
             Some member \<Rightarrow> attribute env j t (available (m_id member)) ''verified-source''
               (JDict [(''wallet'', JStr (tf_sender t))]) (q\<lparr>ledger := led\<rparr>) = Inr (d, p')
           | None \<Rightarrow> d = ''unattributed:TIG'' \<and> p' = q\<lparr>ledger := led\<rparr>)"
    by (cases rule: receive_cases) blast
  obtain ci ts where q': "q = p\<lparr>custody_identity := ci, transfers := ts\<rparr>" using save_transfer_effect(3) [OF q] by blast
  consider (same) "p' = q\<lparr>ledger := led\<rparr>" | (attributed) dest actor evidence where "attribute env j t dest actor evidence (q\<lparr>ledger := led\<rparr>) = Inr (d, p')"
    using rest by (auto split: option.splits)
  then show ?thesis
  proof cases
    case same
    then show ?thesis unfolding q' by (intro exI [of _ led] exI [of _ ci] exI [of _ ts] exI [of _ "transfer_attributions p"]) simp
  next
    case attributed
    then show ?thesis
    proof (cases rule: attribute_cases)
      case (old previous)
      then show ?thesis unfolding q' by (intro exI [of _ led] exI [of _ ci] exI [of _ ts] exI [of _ "transfer_attributions p"]) simp
    next
      case (new k led')
      then show ?thesis unfolding q' by (intro exI [of _ led'] exI [of _ ci] exI [of _ ts] exI [of _ "transfer_attributions p @
        [\<lparr>at_event_id = event_id t, at_destination = dest, at_actor = actor, at_evidence = evidence\<rparr>]"]) simp
    qed
  qed
qed

lemma book_transfer_frame:
  assumes "book_transfer env i j net t p = (r, p')"
  shows "\<exists>led ci ts ats. p' = p\<lparr>ledger := led, custody_identity := ci, transfers := ts, transfer_attributions := ats\<rparr>"
proof (cases r)
  case (Inl e)
  then have "p' = p" using assms by (simp add: book_transfer_def commit_Inl)
  then show ?thesis by (intro exI [of _ "ledger p"] exI [of _ "custody_identity p"] exI [of _ "transfers p"] exI [of _ "transfer_attributions p"]) simp
next
  case (Inr u)
  show ?thesis
  proof (cases "tf_recipient t = net_custody net \<and> tf_sender t \<noteq> net_custody net")
    case True
    then obtain d where "receive env i j t p = Inr (d, p')" using assms Inr by (auto simp: book_transfer_def commit_Inr bindE_Inr)
    then show ?thesis by (rule receive_frame)
  next
    case False
    then obtain new where "save_transfer t p = Inr (new, p')" using assms Inr by (auto simp: book_transfer_def commit_Inr bindE_Inr)
    from save_transfer_effect(3) [OF this] obtain ci ts where "p' = p\<lparr>custody_identity := ci, transfers := ts\<rparr>" by blast
    then show ?thesis by (intro exI [of _ "ledger p"] exI [of _ ci] exI [of _ ts] exI [of _ "transfer_attributions p"]) simp
  qed
qed

lemma book_transfers_frame:
  "book_transfers env ids n net ts p = (r, p') \<Longrightarrow>
   \<exists>led ci rows ats. p' = p\<lparr>ledger := led, custody_identity := ci, transfers := rows, transfer_attributions := ats\<rparr>"
proof (induction ts arbitrary: n p)
  case Nil
  then show ?case by (intro exI [of _ "ledger p"] exI [of _ "custody_identity p"] exI [of _ "transfers p"] exI [of _ "transfer_attributions p"]) simp
next
  case (Cons t ts)
  obtain x q where q: "book_transfer env (ids n) (ids (n + 1)) net t p = (x, q)" by (metis surj_pair)
  from book_transfer_frame [OF q] obtain led ci rows ats where
      frame: "q = p\<lparr>ledger := led, custody_identity := ci, transfers := rows, transfer_attributions := ats\<rparr>" by blast
  show ?case
  proof (cases x)
    case (Inl e)
    with Cons.prems q frame show ?thesis by auto
  next
    case (Inr u)
    with Cons.prems q have "book_transfers env ids (n + 2) net ts q = (r, p')" by simp
    from Cons.IH [OF this] frame show ?thesis by auto
  qed
qed

text \<open>A booked transfer is recorded as it was read, and stays so.\<close>

lemma transfer_row_known: "row\<lparr>tr_evidence := e\<rparr> = transfer_row_of t \<Longrightarrow> lookup tr_event_id (event_id t) (transfers p) = Some row \<Longrightarrow> known_transfer p t"
  by (cases row) (auto simp: known_transfer_def transfer_row_of_def)

lemma save_transfer_known: "save_transfer t p = Inr (new, p') \<Longrightarrow> known_transfer p' t"
  using save_transfer_effect(1) [of t p new p'] transfer_row_known by blast

lemma save_transfer_keeps: "save_transfer t p = Inr (new, p') \<Longrightarrow> known_transfer p u \<Longrightarrow> known_transfer p' u"
  using save_transfer_effect(4) [of t p new p' "event_id u"] by (auto simp: known_transfer_def split: option.splits)

lemma receive_saves:
  assumes "receive env i j t p = Inr (d, p')"
  shows "\<exists>new q. save_transfer t p = Inr (new, q) \<and> transfers p' = transfers q"
  using assms
proof (cases rule: receive_cases)
  case (1 new q led)
  then have "transfers p' = transfers q" by (auto split: option.splits elim!: attribute_cases)
  with 1(1) show ?thesis by blast
qed

lemma book_transfer_known:
  assumes "book_transfer env i j net t p = (Inr u, p')"
  shows "known_transfer p' t" and "known_transfer p v \<Longrightarrow> known_transfer p' v"
proof -
  have "\<exists>new q. save_transfer t p = Inr (new, q) \<and> transfers p' = transfers q"
    using assms receive_saves by (fastforce simp: book_transfer_def commit_Inr bindE_Inr split: if_splits)
  then obtain new q where q: "save_transfer t p = Inr (new, q)" "transfers p' = transfers q" by blast
  have same: "known_transfer p' w = known_transfer q w" for w by (simp add: known_transfer_def q(2))
  show "known_transfer p' t" unfolding same by (rule save_transfer_known [OF q(1)])
  show "known_transfer p v \<Longrightarrow> known_transfer p' v" unfolding same by (rule save_transfer_keeps [OF q(1)])
qed

lemma book_transfers_known:
  "book_transfers env ids n net ts p = (Inr u, p') \<Longrightarrow>
   list_all (known_transfer p') ts \<and> (\<forall>v. known_transfer p v \<longrightarrow> known_transfer p' v)"
proof (induction ts arbitrary: n p)
  case (Cons t ts)
  from Cons.prems obtain y q where q: "book_transfer env (ids n) (ids (n + 1)) net t p = (Inr y, q)"
      "book_transfers env ids (n + 2) net ts q = (Inr u, p')" by (auto split: prod.splits sum.splits)
  from Cons.IH [OF q(2)] book_transfer_known [OF q(1)] show ?case by auto
qed simp

section \<open>Collecting a range\<close>

text \<open>What a successful run of \<open>observe\<close> did.\<close>

lemma conclude_Inr:
  assumes "conclude identity value p = Inr (report, p')"
  obtains stream ci known where "chain_stream p = Some stream" "known_code value (p\<lparr>custody_identity := ci\<rparr>) = Inr known"
    "report = Collected identity (rg_last value) (is_healthy value stream known p) (check_reason (is_healthy value stream known p) value known)"
    "p' = p\<lparr>custody_identity := ci, custody_checks := custody_checks p @ [check_row identity value stream known p],
       chain_log := (chain_of p)\<lparr>chain_batches := chain_batches (chain_of p) @
         [\<lparr>bt_capture_id = identity, bt_first = rg_first value, bt_last = rg_last value, bt_block_hash = rg_block_hash value\<rparr>]\<rparr>,
       chain_stream := Some (stream\<lparr>ch_last_height := rg_last value, ch_last_hash := rg_block_hash value\<rparr>)\<rparr>"
proof -
  from assms obtain u q where q: "bind (rg_network value) p = Inr (u, q)" unfolding conclude_def bindE_Inr by auto
  then obtain ci where frame: "q = p\<lparr>custody_identity := ci\<rparr>" using bind_cases(1) by blast
  have parts: "accounted_payment net a b q = accounted_payment net a b p" "unexplained net a b q = unexplained net a b p" for net a b
    by (simp_all add: frame fun_eq_iff accounted_payment_def transaction_block_def unexplained_def)
  then have same: "is_healthy value s k q = is_healthy value s k p" "check_row identity value s k q = check_row identity value s k p" for s k
    by (simp_all add: parts is_healthy_def check_row_def Let_def) (simp_all add: frame)
  from assms q obtain stream known where "chain_stream q = Some stream" "known_code value q = Inr known"
      and out: "report = Collected identity (rg_last value) (cc_healthy (check_row identity value stream known q)) (cc_reason (check_row identity value stream known q))"
        "p' = q\<lparr>custody_checks := custody_checks q @ [check_row identity value stream known q],
             chain_log := (chain_of q)\<lparr>chain_batches := chain_batches (chain_of q) @
               [\<lparr>bt_capture_id = identity, bt_first = rg_first value, bt_last = rg_last value, bt_block_hash = rg_block_hash value\<rparr>]\<rparr>,
             chain_stream := Some (stream\<lparr>ch_last_height := rg_last value, ch_last_hash := rg_block_hash value\<rparr>)\<rparr>"
    unfolding conclude_def by (auto simp: bindE_Inr Let_def split: option.splits)
  then show ?thesis unfolding same
    by (intro that [of stream ci known]) (simp_all add: frame check_row_def Let_def)
qed

lemma observe_cases:
  assumes "observe env ids identity value p = (r, p')"
  obtains (unchanged) "p' = p" "\<And>i h b reason. r \<noteq> Inr (Collected i h b reason)"
    | (booked) e led ci rows ats where "r = Inl e"
        "p' = p\<lparr>ledger := led, custody_identity := ci, transfers := rows, transfer_attributions := ats\<rparr>"
    | (collected) report q led ci rows ats where "r = Inr report" "stream_decision identity value p = Inr None"
        "q = p\<lparr>ledger := led, custody_identity := ci, transfers := rows, transfer_attributions := ats\<rparr>"
        "list_all (known_transfer q) (rg_transfers value)" "conclude identity value q = Inr (report, p')"
proof (cases "stream_decision identity value p")
  case (Inl e)
  with assms show ?thesis by (intro unchanged) (auto simp: observe_def)
next
  case (Inr decision)
  show ?thesis
  proof (cases decision)
    case (Some report)
    have "report \<noteq> Collected i h b reason" for i h b reason
      using Inr Some by (auto simp: stream_decision_def split: option.splits if_splits)
    with assms Inr Some show ?thesis by (intro unchanged) (auto simp: observe_def)
  next
    case None
    obtain x q where q: "book_transfers env ids 2 (rg_network value) (rg_transfers value) p = (x, q)" by (metis surj_pair)
    from book_transfers_frame [OF q] obtain led ci rows ats where
        frame: "q = p\<lparr>ledger := led, custody_identity := ci, transfers := rows, transfer_attributions := ats\<rparr>" by blast
    show ?thesis
    proof (cases x)
      case (Inl e)
      with assms Inr None q frame show ?thesis by (intro booked [where e = e and led = led and ci = ci and rows = rows and ats = ats]) (simp_all add: observe_def)
    next
      case (Inr u)
      with assms q None \<open>stream_decision identity value p = Inr decision\<close> have out: "commit (conclude identity value) q = (r, p')"
        by (simp add: observe_def)
      show ?thesis
      proof (cases r)
        case (Inl e)
        with out have "p' = q" by (simp add: commit_Inl)
        with Inl frame show ?thesis by (intro booked [where e = e and led = led and ci = ci and rows = rows and ats = ats]) simp_all
      next
        case finished: (Inr report)
        with out have "conclude identity value q = Inr (report, p')" by (simp add: commit_Inr)
        with finished frame book_transfers_known [OF q [unfolded Inr]] None \<open>stream_decision identity value p = Inr decision\<close>
        show ?thesis by (intro collected [where report = report and q = q and led = led and ci = ci and rows = rows and ats = ats]) simp_all
      qed
    qed
  qed
qed

text \<open>Opening the stream sets the cursor below the first block, and does nothing the second time.\<close>

lemma open_asset_frame:
  assumes "open_asset env j identity value o' a n p = Inr (x, p')"
  shows "\<exists>led. p' = p\<lparr>ledger := led\<rparr>"
  using assms by (auto simp: open_asset_def Let_def bindE_Inr on_ledger_Inr split: if_splits)

lemma open_stream_cases:
  assumes "open_stream env ids identity value o' p = Inr (u, p')"
  obtains (already) "chain_stream p \<noteq> None" "p' = p"
    | (opened) led ci baselines where "chain_stream p = None"
        "p' = p\<lparr>ledger := led, custody_identity := ci, chain_stream := Some (opened_stream value),
          chain_log := (chain_of p)\<lparr>custody_opening_baselines := baselines\<rparr>\<rparr>"
proof (cases "chain_stream p")
  case (Some stream)
  with assms show ?thesis by (intro already) (auto simp: open_stream_def)
next
  case None
  with assms obtain v q j1 q1 j2 q2 where q: "bind (rg_network value) p = Inr (v, q)"
      and q1: "open_asset env (ids 0) identity value o' AssetTIG (wb_tig (rg_opening value)) q = Inr (j1, q1)"
      and q2: "open_asset env (ids 1) identity value o' AssetNATIVE (wb_native (rg_opening value)) q1 = Inr (j2, q2)"
      and last: "(if \<not> is_baseline (rg_opening value) o' then Inr ((), q2\<lparr>chain_stream := Some (opened_stream value)\<rparr>)
        else if custody_opening_baselines (chain_of (q2\<lparr>chain_stream := Some (opened_stream value)\<rparr>)) \<noteq> [] \<or> only_spaces (or_actor o') \<or> only_spaces (or_reason o')
        then Inl (IntegrityError ''custody_opening_baselines'')
        else Inr ((), q2\<lparr>chain_stream := Some (opened_stream value), chain_log := (chain_of (q2\<lparr>chain_stream := Some (opened_stream value)\<rparr>))
          \<lparr>custody_opening_baselines := [baseline_row identity value o' (j1 @ j2)]\<rparr>\<rparr>)) = Inr (u, p')"
    unfolding open_stream_def None Let_def option.distinct not_True_eq_False simp_thms if_False bindE_Inr raise_if_Inr split_paired_Ex prod.case
    by blast
  have out: "p' = q2\<lparr>chain_stream := Some (opened_stream value)\<rparr> \<or>
        (\<exists>rows. p' = q2\<lparr>chain_stream := Some (opened_stream value), chain_log := (chain_of q2)\<lparr>custody_opening_baselines := rows\<rparr>\<rparr>)"
    using last by (auto split: if_splits)
  from bind_cases(1) [OF q [unfolded unit_eq]] obtain ci where ci: "q = p\<lparr>custody_identity := ci\<rparr>" by blast
  from open_asset_frame [OF q1] open_asset_frame [OF q2] obtain led where "q2 = q\<lparr>ledger := led\<rparr>" by force
  with ci have frame: "q2 = p\<lparr>ledger := led, custody_identity := ci\<rparr>" by simp
  from out show ?thesis
  proof
    assume "p' = q2\<lparr>chain_stream := Some (opened_stream value)\<rparr>"
    with None frame show ?thesis by (intro opened [where led = led and ci = ci and baselines = "custody_opening_baselines (chain_of p)"]) simp_all
  next
    assume "\<exists>rows. p' = q2\<lparr>chain_stream := Some (opened_stream value), chain_log := (chain_of q2)\<lparr>custody_opening_baselines := rows\<rparr>\<rparr>"
    then obtain rows where "p' = q2\<lparr>chain_stream := Some (opened_stream value), chain_log := (chain_of q2)\<lparr>custody_opening_baselines := rows\<rparr>\<rparr>" ..
    with None frame show ?thesis by (intro opened [where led = led and ci = ci and baselines = rows]) simp_all
  qed
qed

section \<open>What a verified range says\<close>

text \<open>
  The transfers of a range are well formed, within it and all different, and they explain the change
  of the wallet's balance.
\<close>

definition found_ok :: "network \<Rightarrow> int \<Rightarrow> int \<Rightarrow> (string \<times> confirmed_transfer) list \<Rightarrow> bool" where
  "found_ok net first final found \<longleftrightarrow> distinct (map fst found) \<and>
     list_all (\<lambda>(k, t). k = event_id t \<and> transfer_wf net t \<and> first \<le> tf_block_number t \<and> tf_block_number t \<le> final) found"

definition range_ok :: "range_reading \<Rightarrow> bool" where
  "range_ok value \<longleftrightarrow> rg_first value - 1 \<le> rg_last value \<and> rg_last value \<le> rg_target value \<and>
     distinct (map event_id (rg_transfers value)) \<and>
     list_all (\<lambda>t. transfer_wf (rg_network value) t \<and> rg_first value \<le> tf_block_number t \<and> tf_block_number t \<le> rg_last value)
       (rg_transfers value) \<and>
     wb_tig (rg_closing value) = wb_tig (rg_opening value) + sum_list (map (wallet_change (rg_network value)) (rg_transfers value))"

lemma foldR_keeps:
  assumes "run (foldR f xs s0) answer a = (Inr s1, a')" and "P s0"
    and "\<And>x s t a b. x \<in> set xs \<Longrightarrow> P s \<Longrightarrow> run (f x s) answer a = (Inr t, b) \<Longrightarrow> P t"
  shows "P s1"
  using assms
proof (induction xs arbitrary: s0 a)
  case (Cons x xs)
  from Cons.prems(1) obtain t b where "run (f x s0) answer a = (Inr t, b)" "run (foldR f xs t) answer b = (Inr s1, a')"
    by (auto simp: run_bindR_Inr)
  with Cons.prems(2,3) Cons.IH [of t b] show ?case by (meson list.set_intros)
qed simp

lemma update_members: "(k, t) \<in> set (AList.update a b xs) \<Longrightarrow> (k, t) = (a, b) \<or> (k, t) \<in> set xs"
  by (induction xs) (auto split: if_splits)

lemma add_transfer_ok:
  assumes "add_transfer t found = Inr found'" and "found_ok net first final found" and "transfer_wf net t"
    and "first \<le> tf_block_number t" and "tf_block_number t \<le> final"
  shows "found_ok net first final found'"
proof -
  have "found' = AList.update (event_id t) t found" using assms(1) by (auto simp: add_transfer_def split: option.splits if_splits)
  then show ?thesis using assms(2-) by (auto simp: found_ok_def distinct_update list_all_iff dest: update_members)
qed

lemma read_log_ok:
  assumes "run (read_log net first final d entry (seen, found)) answer s = (Inr (seen', found'), s')" and "found_ok net first final found"
  shows "found_ok net first final found'"
proof -
  from assms(1) obtain t h i s1 where t: "run (read_transfer net (JStr h) (JInt i)) answer s = (Inr t, s1)"
      and check: "check_log net first final d entry t = Inr ()" and add: "add_transfer t found = Inr found'"
    unfolding read_log_def prod.case run_bindR_Inr run_Done run_require_that by auto
  have "transfer_wf net t" using read_transfer_wf [of net "JStr h" "JInt i" answer s] t by simp
  moreover have "first \<le> tf_block_number t \<and> tf_block_number t \<le> final" using check by (auto simp: check_log_def split: if_splits)
  ultimately show ?thesis using add_transfer_ok [OF add assms(2)] by blast
qed

lemma read_direction_ok:
  assumes "run (read_direction net first final d found) answer s = (Inr found', s')" and "found_ok net first final found"
  shows "found_ok net first final found'"
proof -
  from assms(1) obtain logs seen s1 where "run (foldR (read_log net first final d) logs ([], found)) answer s1 = (Inr (seen, found'), s')"
    unfolding read_direction_def run_bindR_Inr run_Done split_paired_Ex prod.case by auto
  then have "case (seen, found') of (_, found) \<Rightarrow> found_ok net first final found"
    by (rule foldR_keeps) (use assms(2) in \<open>auto intro: read_log_ok\<close>)
  then show ?thesis by simp
qed

lemma distinct_sort_key: "distinct (map f (sort_key k xs)) = distinct (map f xs)"
  by (intro mset_eq_imp_distinct_iff) (simp add: mset_sort)

lemma found_ok_events: "found_ok net first final found \<Longrightarrow> map event_id (map snd found) = map fst found"
  by (auto simp: found_ok_def list_all_iff)

lemma read_range_ok:
  assumes "run (read_range net version checked a b) answer s = (Inr value, s')"
  shows "range_ok value" and "rg_network value = net"
proof -
  from assms obtain first width target final before start s1 s2 s3 end_header found closing code before_hash block_hash
    where final: "final = min target (first + width - 1)" "\<not> final < first - 1"
      and collect: "run (if final \<ge> first then foldR (read_direction net first final) [Incoming, Outgoing] [] else Done (Inr [])) answer s1 = (Inr found, s2)"
      and close: "run (read_end net version final start end_header found) answer s2 = (Inr (closing, code), s3)"
      and result: "value = \<lparr>rg_network = net, rg_first = first, rg_last = final, rg_target = target, rg_before_hash = before_hash,
         rg_block_hash = block_hash, rg_opening = start, rg_closing = closing,
         rg_transfers = sort_key (\<lambda>t. (tf_block_number t, tf_tx_hash t, tf_log_index t)) (map snd found),
         rg_checked_at = checked, rg_custody_code = code\<rparr>"
    unfolding read_range_def Let_def run_bindR_Inr run_Done split_paired_Ex prod.case run_refuse_if sum.inject by blast
  have found: "found_ok net first final found"
  proof (cases "first \<le> final")
    case True
    with collect have "run (foldR (read_direction net first final) [Incoming, Outgoing] []) answer s1 = (Inr found, s2)" by simp
    then show ?thesis by (rule foldR_keeps) (auto simp: found_ok_def [of _ _ _ "[]"] intro: read_direction_ok)
  next
    case False
    with collect show ?thesis by (simp add: found_ok_def)
  qed
  have events: "map event_id (map snd found) = map fst found" using found by (rule found_ok_events)
  have "wb_tig closing - wb_tig start = sum_list (map (wallet_change net \<circ> snd) found)"
    using close unfolding read_end_def run_bindR_Inr run_refuse_if run_Done sum.inject prod.inject not_not by blast
  then have "wb_tig closing = wb_tig start + sum_list (map (wallet_change net) (map snd found))" by simp
  with found final show "range_ok value"
    by (auto simp: result range_ok_def sum_list_sort_key distinct_sort_key events found_ok_def list_all_iff case_prod_beta simp del: map_map)
  show "rg_network value = net" by (simp add: result)
qed

lemma verify_chain_reads:
  assumes "verify_chain env data = Inr value"
  shows "\<exists>net version checked a b calls rest. run (read_range net version checked a b) archived calls = (Inr value, rest)"
proof -
  from assms obtain version calls checked net a b where
      "(case run (read_range net version checked a b) archived calls of
           (Inl e, _) \<Rightarrow> Inl e
         | (Inr value, rest) \<Rightarrow> if unconsumed rest then Inl (FundsError ''custody archive has unconsumed RPC evidence'') else Inr value) = Inr value"
    unfolding verify_chain_def bindE_Inr by (auto simp: bindE_Inr split: option.splits if_splits)
  then have "run (read_range net version checked a b) archived calls = (Inr value, snd (run (read_range net version checked a b) archived calls))"
    by (auto split: prod.splits sum.splits if_splits)
  then show ?thesis by blast
qed

lemma verify_chain_ok:
  assumes "verify_chain env data = Inr rg"
  shows "range_ok rg"
proof -
  obtain net version checked a b calls rest where "run (read_range net version checked a b) archived calls = (Inr rg, rest)"
    using verify_chain_reads [OF assms] by blast
  then show ?thesis by (rule read_range_ok(1))
qed

text \<open>
  C38. An archive proves what it says whatever it holds: when verifying a capture succeeds, its transfers
  are distinct, well formed, confirmed and inside the range, the range ends no later than the
  block it may end at, and the change of the wallet's token balance over it is exactly what those transfers
  moved.
\<close>

theorem verified_range_sound: "case verify_chain env data of Inl e \<Rightarrow> True | Inr value \<Rightarrow> range_ok value"
  using verify_chain_ok by (auto split: sum.splits)

section \<open>Recording\<close>

text \<open>The cursor only moves forward, and recorded ranges stay.\<close>

definition advanced :: "pool \<Rightarrow> pool \<Rightarrow> bool" where
  "advanced p p' \<longleftrightarrow> (\<exists>new. chain_batches (chain_of p') = chain_batches (chain_of p) @ new) \<and>
     (\<forall>stream. chain_stream p = Some stream \<longrightarrow> (\<exists>stream'. chain_stream p' = Some stream' \<and>
        ch_network stream' = ch_network stream \<and> ch_start_height stream' = ch_start_height stream \<and>
        ch_last_height stream \<le> ch_last_height stream'))"

definition cursor_step :: "pool \<Rightarrow> pool \<Rightarrow> bool" where
  "cursor_step p p' \<longleftrightarrow> advanced p p' \<and> (cursor_ok p \<longrightarrow> cursor_ok p')"

lemma cursor_step_same:
  "chain_stream p' = chain_stream p \<Longrightarrow> chain_batches (chain_of p') = chain_batches (chain_of p) \<Longrightarrow> cursor_step p p'"
  by (simp add: cursor_step_def advanced_def cursor_ok_def split: option.splits)

lemma cursor_step_trans: "cursor_step p q \<Longrightarrow> cursor_step q r \<Longrightarrow> cursor_step p r"
  by (fastforce simp: cursor_step_def advanced_def)

lemma cursor_step_open:
  assumes "open_stream env ids identity rg o' p = Inr (u, p')"
  shows "cursor_step p p'"
  using assms
proof (cases rule: open_stream_cases)
  case already
  then show ?thesis by (simp add: cursor_step_same)
next
  case (opened led ci baselines)
  then show ?thesis by (simp add: cursor_step_def advanced_def cursor_ok_def opened_stream_def cursor_after_def)
qed

lemma stream_decision_next:
  assumes "stream_decision identity rg p = Inr None"
  obtains stream where "chain_stream p = Some stream" "rg_first rg = ch_last_height stream + 1" "ch_network stream = rg_network rg"
  using assms by (auto simp: stream_decision_def split: option.splits if_splits)

lemma cursor_step_observe:
  assumes "observe env ids identity rg p = (r, p')" and "range_ok rg"
  shows "cursor_step p p'"
  using assms(1)
proof (cases rule: observe_cases)
  case unchanged
  then show ?thesis by (simp add: cursor_step_same)
next
  case (booked e led ci rows ats)
  then show ?thesis by (simp add: cursor_step_same)
next
  case (collected report q led ci rows ats)
  from stream_decision_next [OF collected(2)] obtain stream where
      stream: "chain_stream p = Some stream" "rg_first rg = ch_last_height stream + 1" by blast
  from collected(5) show ?thesis
  proof (cases rule: conclude_Inr)
    case (1 stream' ci' known)
    then have "stream' = stream" using stream(1) collected(3) by simp
    with 1 stream assms(2) collected(3) show ?thesis
      by (auto simp: cursor_step_def advanced_def cursor_ok_def consecutive_snoc range_ok_def)
  qed
qed

lemma cursor_step_failure: "cursor_step p (record_failure env identity reason critical p)"
  by (rule cursor_step_same) (simp_all add: record_failure_def)

lemma cursor_step_save: "cursor_step p (snd (save_capture env data p))"
  by (rule cursor_step_same) (simp_all add: save_capture_def Let_def)

lemma record_chain_cases:
  assumes "record_chain env ids data o' p = (r, p')"
  obtains (refused) e where "r = Inl e" "p' = snd (save_capture env data p) \<or>
      (\<exists>reason critical. p' = record_failure env (fingerprint env data) reason critical (snd (save_capture env data p)))"
    | (opened) rg q e reason critical s where "r = Inl e" "verify_chain env data = Inr rg"
      "open_stream env ids (fingerprint env data) rg o' (snd (save_capture env data p)) = Inr ((), q)"
      "observe env ids (fingerprint env data) rg q = (Inl e, s)" "p' = record_failure env (fingerprint env data) reason critical s"
    | (observed) rg q report where "r = Inr report" "verify_chain env data = Inr rg"
      "open_stream env ids (fingerprint env data) rg o' (snd (save_capture env data p)) = Inr ((), q)"
      "observe env ids (fingerprint env data) rg q = (Inr report, p')"
proof (cases "verify_chain env data")
  case (Inl e)
  show ?thesis
  proof (cases "failure_reason data e")
    case (Inl e')
    have "p' = snd (save_capture env data p)" and "r = Inl e'"
      using Inl \<open>verify_chain env data = Inl e\<close> assms by (auto simp: record_chain_def save_capture_def Let_def)
    then show ?thesis by (intro refused [of e']) auto
  next
    case (Inr reason)
    have "p' = record_failure env (fingerprint env data) reason False (snd (save_capture env data p))" and "r = Inl e"
      using Inr \<open>verify_chain env data = Inl e\<close> assms by (auto simp: record_chain_def save_capture_def Let_def)
    then show ?thesis by (intro refused [of e]) auto
  qed
next
  case (Inr rg)
  let ?i = "fingerprint env data"
  obtain s0 where saved: "save_capture env data p = (?i, s0)" by (simp add: save_capture_def Let_def)
  show ?thesis
  proof (cases "open_stream env ids ?i rg o' s0")
    case (Inl e)
    with Inr assms saved show ?thesis by (intro refused [of e]) (auto simp: record_chain_def commit_def Let_def)
  next
    case opened_ok: (Inr x)
    obtain u q where x: "x = (u, q)" by (cases x)
    obtain y t where observe: "observe env ids ?i rg q = (y, t)" by (metis surj_pair)
    show ?thesis
    proof (cases y)
      case (Inl e)
      with Inr opened_ok x observe assms saved show ?thesis
        by (intro opened [where e = e and s = t and q = q]) (auto simp: record_chain_def commit_def Let_def)
    next
      case (Inr report)
      with \<open>verify_chain env data = Inr rg\<close> opened_ok x observe assms saved show ?thesis
        by (intro observed [where report = report and q = q]) (auto simp: record_chain_def commit_def Let_def)
    qed
  qed
qed

lemma record_chain_step:
  assumes "record_chain env ids data o' p = (r, p')"
  shows "cursor_step p p'"
  using assms
proof (cases rule: record_chain_cases)
  case (refused e)
  then show ?thesis using cursor_step_save cursor_step_failure cursor_step_trans by metis
next
  case (opened rg q e reason critical s)
  have "cursor_step p q" using cursor_step_trans [OF cursor_step_save cursor_step_open [OF opened(3)]] .
  moreover have "cursor_step q s" using cursor_step_observe [OF opened(4) verify_chain_ok [OF opened(2)]] .
  ultimately show ?thesis using opened(5) cursor_step_failure cursor_step_trans by metis
next
  case (observed rg q report)
  have "cursor_step p q" using cursor_step_trans [OF cursor_step_save cursor_step_open [OF observed(3)]] .
  then show ?thesis using cursor_step_observe [OF observed(4) verify_chain_ok [OF observed(2)]] cursor_step_trans by metis
qed

text \<open>
  C39. The custody observer skips and repeats nothing. Recording any capture, good or bad, keeps the
  recorded ranges consecutive from the first watched block to the cursor, so that every block
  between them lies in a recorded range, and neither removes a range nor moves the
  cursor back or to another network.
\<close>

theorem custody_cursor_contiguous:
  assumes ok: "cursor_ok p" and run: "record_chain env ids data o' p = (r, p')"
  shows "cursor_ok p' \<and> advanced p p' \<and>
    (\<forall>stream n. chain_stream p' = Some stream \<and> ch_start_height stream \<le> n \<and> n \<le> ch_last_height stream \<longrightarrow>
       (\<exists>b \<in> set (chain_batches (chain_of p')). bt_first b \<le> n \<and> n \<le> bt_last b))"
proof -
  from record_chain_step [OF run] ok have "cursor_ok p'" and "advanced p p'" by (simp_all add: cursor_step_def)
  then show ?thesis using consecutive_covers by (auto simp: cursor_ok_def)
qed

text \<open>
  C40. A collected range is complete and its verdict means what it says: the cursor is at its end, every
  transfer of the range is recorded as the chain has it, and when the wallet is called healthy the
  ledger records exactly the token and native balances the wallet holds, the nonces it
  consumed are those of recorded payments, every transfer out of it belongs to a payment, no conflict
  with recorded history was ever raised, and the observer has caught up.
\<close>

theorem healthy_custody_reconciled:
  assumes "record_chain env ids data o' p = (Inr (Collected identity height healthy reason), p')"
  shows "\<exists>rg stream. verify_chain env data = Inr rg \<and> height = rg_last rg \<and> chain_stream p' = Some stream \<and>
    ch_last_height stream = height \<and> ch_network stream = rg_network rg \<and> list_all (known_transfer p') (rg_transfers rg) \<and>
    (healthy \<longrightarrow> backing (ledger p') AssetTIG Custody = wb_tig (rg_closing rg) \<and>
       backing (ledger p') AssetNATIVE Custody = wb_native (rg_closing rg) \<and>
       wb_nonce (rg_closing rg) = ch_start_nonce stream + int (length (filter (accounted_payment (rg_network rg) (ch_start_height stream) height p')
         (custody_payments p'))) \<and>
       (\<forall>t \<in> set (transfers p'). \<not> unexplained (rg_network rg) (ch_start_height stream) height p' t) \<and>
       (\<forall>a \<in> set (chain_alerts (chain_of p')). al_kind a \<noteq> ''canonical-conflict'') \<and> height = rg_target rg)"
  using assms
proof (cases rule: record_chain_cases)
  case (observed rg q report)
  from observed(4) show ?thesis
  proof (cases rule: observe_cases)
    case unchanged
    with observed(1) show ?thesis by blast
  next
    case (collected report' t led ci rows ats)
    from stream_decision_next [OF collected(2)] obtain stream where stream: "chain_stream q = Some stream" "ch_network stream = rg_network rg"
      by blast
    have report: "report' = Collected identity height healthy reason" using observed(1) collected(1) by simp
    from collected(5) [unfolded report] show ?thesis
    proof (cases rule: conclude_Inr)
      case (1 s ci' known)
      have s: "s = stream" using 1(1) stream(1) collected(3) by simp
      have known: "known_transfer p' v = known_transfer t v" for v using 1(4) by (simp add: known_transfer_def)
      have accounted: "accounted_payment net a b p' = accounted_payment net a b t" "unexplained net a b p' = unexplained net a b t" for net a b
        using 1(4) by (simp_all add: fun_eq_iff accounted_payment_def transaction_block_def unexplained_def)
      have "list_all (known_transfer p') (rg_transfers rg)" using collected(4) by (simp add: list_all_iff known)
      moreover have "healthy = is_healthy rg stream known t" "height = rg_last rg" using 1(3) s by simp_all
      moreover have "ledger p' = ledger t" "custody_payments p' = custody_payments t" "transfers p' = transfers t"
          "chain_alerts (chain_of p') = chain_alerts (chain_of t)"
          "chain_stream p' = Some (stream\<lparr>ch_last_height := rg_last rg, ch_last_hash := rg_block_hash rg\<rparr>)"
        using 1(4) s by simp_all
      ultimately show ?thesis using observed(2) stream(2)
        by (intro exI [of _ rg] exI [of _ "stream\<lparr>ch_last_height := rg_last rg, ch_last_hash := rg_block_hash rg\<rparr>"])
          (auto simp: accounted is_healthy_def Let_def list_ex_iff)
    qed
  qed simp
qed simp_all

text \<open>The empty wallet of the last section, recorded by an empty pool.\<close>

definition oc_data :: json where
  "oc_data = fst (capture_chain demo_env ce_net ce_provider () 5 1 ''node'')"

definition oc_after :: pool where
  "oc_after = snd (record_chain demo_env (\<lambda>_. ''j'') oc_data \<lparr>or_initialize = True, or_actor = [], or_reason = []\<rparr> empty_pool)"

lemma oc_verified: "verify_chain demo_env oc_data = Inr ce_value"
  unfolding oc_data_def using capture_verified [OF ce_network_valid ce_time(2) ce_range [folded ce_time(1)], of "''node''"] by (elim exE conjE)

lemma oc_open: "\<exists>led ci. open_stream demo_env ids i ce_value \<lparr>or_initialize = True, or_actor = [], or_reason = []\<rparr> (empty_pool\<lparr>chain_log := log0\<rparr>) =
   Inr ((), empty_pool\<lparr>chain_log := log0, ledger := led, custody_identity := ci, chain_stream := Some (opened_stream ce_value)\<rparr>) \<and>
   ci = Some \<lparr>ci_chain_id = net_chain_id ce_net, ci_token = net_token ce_net, ci_wallet = net_custody ce_net, ci_decimals = net_decimals ce_net\<rparr> \<and>
   backing led AssetTIG Custody = 0 \<and> backing led AssetNATIVE Custody = 0"
  by (simp add: open_stream_def opening_guards_def is_baseline_def ce_value_def bind_def open_asset_def on_ledger_def account_def backing_def
      empty_pool_def empty_ledger_def bindE_def Let_def)

lemma oc_observe:
  assumes q: "q = empty_pool\<lparr>chain_log := empty_chain\<lparr>chain_captures := captures\<rparr>, ledger := led, custody_identity := ci, chain_stream := Some (opened_stream ce_value)\<rparr>"
    and bound: "bind ce_net q = Inr ((), q)" and zero: "backing led AssetTIG Custody = 0" "backing led AssetNATIVE Custody = 0"
  shows "\<exists>p'. observe demo_env ids i ce_value q = (Inr (Collected i 5 True ''reconciled''), p') \<and>
    chain_stream p' = Some ((opened_stream ce_value)\<lparr>ch_last_height := 5, ch_last_hash := rg_block_hash ce_value\<rparr>)"
proof -
  have "stream_decision i ce_value q = Inr None"
    by (simp add: q stream_decision_def opened_stream_def ce_value_def empty_pool_def empty_chain_def)
  moreover have "\<exists>p'. conclude i ce_value q = Inr (Collected i 5 True ''reconciled'', p') \<and>
      chain_stream p' = Some ((opened_stream ce_value)\<lparr>ch_last_height := 5, ch_last_hash := rg_block_hash ce_value\<rparr>)"
    using zero bound unfolding conclude_def
    by (simp add: q ce_value_def known_code_def check_row_def is_healthy_def check_reason_def opened_stream_def empty_pool_def empty_chain_def Let_def)
  ultimately show ?thesis by (auto simp: observe_def ce_value_def commit_def)
qed

lemma oc_run:
  "record_chain demo_env (\<lambda>_. ''j'') oc_data \<lparr>or_initialize = True, or_actor = [], or_reason = []\<rparr> empty_pool =
   (Inr (Collected (fingerprint demo_env oc_data) 5 True ''reconciled''), oc_after)"
  and oc_stream: "chain_stream oc_after = Some ((opened_stream ce_value)\<lparr>ch_last_height := 5, ch_last_hash := rg_block_hash ce_value\<rparr>)"
proof -
  let ?i = "fingerprint demo_env oc_data" and ?o = "\<lparr>or_initialize = True, or_actor = [], or_reason = []\<rparr>"
  define s where "s = empty_pool\<lparr>chain_log := empty_chain\<lparr>chain_captures := [\<lparr>cx_id = ?i, cx_payload = oc_data, cx_expired_at = None\<rparr>]\<rparr>\<rparr>"
  have saved: "save_capture demo_env oc_data empty_pool = (?i, s)"
    by (simp add: save_capture_def Let_def s_def empty_pool_def empty_chain_def)
  obtain led ci where opened: "open_stream demo_env (\<lambda>_. ''j'') ?i ce_value ?o s =
      Inr ((), s\<lparr>ledger := led, custody_identity := ci, chain_stream := Some (opened_stream ce_value)\<rparr>)"
      and ci: "ci = Some \<lparr>ci_chain_id = net_chain_id ce_net, ci_token = net_token ce_net, ci_wallet = net_custody ce_net, ci_decimals = net_decimals ce_net\<rparr>"
      and zero: "backing led AssetTIG Custody = 0" "backing led AssetNATIVE Custody = 0"
    using oc_open unfolding s_def by blast
  define q where "q = s\<lparr>ledger := led, custody_identity := ci, chain_stream := Some (opened_stream ce_value)\<rparr>"
  have "bind ce_net q = Inr ((), q)" by (simp add: bind_def q_def s_def ci empty_pool_def)
  from oc_observe [OF _ this zero, unfolded q_def s_def, OF refl] obtain p' where
      observe: "observe demo_env (\<lambda>_. ''j'') ?i ce_value q = (Inr (Collected ?i 5 True ''reconciled''), p')"
      and stream: "chain_stream p' = Some ((opened_stream ce_value)\<lparr>ch_last_height := 5, ch_last_hash := rg_block_hash ce_value\<rparr>)"
    unfolding q_def s_def by blast
  have run: "record_chain demo_env (\<lambda>_. ''j'') oc_data ?o empty_pool = (Inr (Collected ?i 5 True ''reconciled''), p')"
    using saved opened observe by (simp add: record_chain_def oc_verified commit_def Let_def q_def)
  then have "oc_after = p'" by (simp add: oc_after_def)
  with run stream show "record_chain demo_env (\<lambda>_. ''j'') oc_data ?o empty_pool = (Inr (Collected ?i 5 True ''reconciled''), oc_after)"
    and "chain_stream oc_after = Some ((opened_stream ce_value)\<lparr>ch_last_height := 5, ch_last_hash := rg_block_hash ce_value\<rparr>)" by simp_all
qed

lemma oc_initial: "cursor_ok empty_pool"
  by (simp add: cursor_ok_def empty_pool_def empty_chain_def)

lemma custody_cursor_contiguous_witness:
  "cursor_ok oc_after \<and> advanced empty_pool oc_after \<and> (\<exists>b \<in> set (chain_batches (chain_of oc_after)). bt_first b \<le> 5 \<and> 5 \<le> bt_last b)"
  using custody_cursor_contiguous [OF oc_initial oc_run] oc_stream by (auto simp: opened_stream_def ce_value_def)

lemma healthy_custody_reconciled_witness:
  "\<exists>stream. chain_stream oc_after = Some stream \<and> ch_last_height stream = 5 \<and> ch_network stream = ce_net \<and>
     backing (ledger oc_after) AssetTIG Custody = 0 \<and> backing (ledger oc_after) AssetNATIVE Custody = 0"
  using healthy_custody_reconciled [OF oc_run] oc_verified by (auto simp: ce_value_def)

end
