(* ===== verification/Components.thy ===== *)
theory Components
  imports Topup_Safety Settlement_Safety Observer_Properties
begin

text \<open>
  The components of the pool share one ledger and one store. Each keeps an invariant that only
  depends on its own rows, on the journals it names and on the accounts it owns; that is
  the contract of the locale \<open>component\<close>, and every component of the pool is an instance of it.
  \<open>pool_ok\<close> is the conjunction of their invariants.
\<close>

section \<open>The contract\<close>

text \<open>
  \<open>kept p p'\<close>: the rows the invariant reads are those of before, as far as it reads them; \<open>keys\<close> are the event keys of the
  component's journals and \<open>funds\<close> the accounts whose balance it accounts for.
\<close>

locale component =
  fixes inv :: "pool \<Rightarrow> bool" and keys :: "string \<Rightarrow> bool" and funds :: "string \<Rightarrow> bool" and kept :: "pool \<Rightarrow> pool \<Rightarrow> bool"
  assumes frame: "inv p \<Longrightarrow> ledger_by K A (ledger p) (ledger p') \<Longrightarrow> (\<And>k. K k \<Longrightarrow> \<not> keys k) \<Longrightarrow> (\<And>k. A k \<Longrightarrow> \<not> funds k) \<Longrightarrow>
      kept p p' \<Longrightarrow> inv p'"
begin

text \<open>Without postings, and by an opened account, nothing is lost.\<close>

lemma unposted: "inv p \<Longrightarrow> ledger p' = ledger p \<Longrightarrow> kept p p' \<Longrightarrow> inv p'"
  using frame [of p "\<lambda>_. False" "\<lambda>_. False" p'] by (simp add: by_nothing)

lemma opened: "inv p \<Longrightarrow> account k kind a loc (ledger p) = Inr (j, led) \<Longrightarrow> ledger p' = led \<Longrightarrow> kept p p' \<Longrightarrow> inv p'"
  using frame [of p "\<lambda>_. False" "\<lambda>_. False" p'] by (simp add: ledger_by_opened)

text \<open>A posting under a foreign key between foreign accounts.\<close>

lemma foreign_post:
  assumes "inv p" and "post env i ek kind mv det rv (ledger p) = Inr (j, led)" and "ledger p' = led" and "kept p p'"
    and "\<not> keys ek" and "\<And>k. k \<in> fst ` set mv \<Longrightarrow> \<not> funds k"
  shows "inv p'"
  by (rule frame [OF assms(1), of "\<lambda>k. k = ek" "\<lambda>k. k \<in> fst ` set mv"])
    (use assms in \<open>auto intro: ledger_by_posted\<close>)

end

section \<open>The components\<close>

definition no_names :: "string \<Rightarrow> bool" where "no_names k \<longleftrightarrow> False"

definition members_kept :: "pool \<Rightarrow> pool \<Rightarrow> bool" where
  "members_kept p p' \<longleftrightarrow> same_members p p' \<and> multiplier_changes p' = multiplier_changes p"

lemma members_ok_kept:
  assumes ok: "members_ok p" and led: "ledger_by K A (ledger p) (ledger p')" and kept: "members_kept p p'"
  shows "members_ok p'"
proof -
  let ?q = "p\<lparr>ledger := ledger p', members := members p'\<rparr>"
  have "pool_by K A p ?q" using led kept by (intro pool_by_intro) (simp_all add: members_kept_def same_members_def)
  then have "members_ok ?q" by (rule members_ok_by [OF ok])
  then show ?thesis using kept by (simp add: members_ok_def members_kept_def)
qed

interpretation members_part: component members_ok no_names no_names members_kept
  by unfold_locales (rule members_ok_kept)

definition deposits_kept :: "pool \<Rightarrow> pool \<Rightarrow> bool" where
  "deposits_kept p p' \<longleftrightarrow> transfer_attributions p' = transfer_attributions p \<and>
     (\<forall>e. lookup tr_event_id e (transfers p) \<noteq> None \<longrightarrow> lookup tr_event_id e (transfers p') \<noteq> None)"

interpretation deposits_part: component deposits_ok deposit_keys no_names deposits_kept
proof unfold_locales
  fix p K A p'
  assume ok: "deposits_ok p" and led: "ledger_by K A (ledger p) (ledger p')" and K: "\<And>k. K k \<Longrightarrow> \<not> deposit_keys k" and kept: "deposits_kept p p'"
  show "deposits_ok p'" using kept unfolding deposits_kept_def by (intro deposits_ok_frame [OF ok led K]) blast+
qed

definition reservations_kept :: "pool \<Rightarrow> pool \<Rightarrow> bool" where
  "reservations_kept p p' \<longleftrightarrow> reservations p' = reservations p"

interpretation reservations_part: component reservations_ok reservation_journals reservation_accounts reservations_kept
proof unfold_locales
  fix p K A p'
  assume ok: "reservations_ok p" and led: "ledger_by K A (ledger p) (ledger p')" and K: "\<And>k. K k \<Longrightarrow> \<not> reservation_journals k"
    and A: "\<And>k. A k \<Longrightarrow> \<not> reservation_accounts k" and kept: "reservations_kept p p'"
  show "reservations_ok p'" using kept unfolding reservations_kept_def by (intro reservations_ok_frame [OF ok led _ K A]) blast+
qed

definition sends_kept :: "pool \<Rightarrow> pool \<Rightarrow> bool" where
  "sends_kept p p' \<longleftrightarrow> withdrawals p' = withdrawals p \<and> withdrawal_attempts p' = withdrawal_attempts p \<and>
     withdrawal_attempt_outcomes p' = withdrawal_attempt_outcomes p"

interpretation sends_part: component withdrawals_ok withdrawal_journals withdrawal_accounts sends_kept
proof unfold_locales
  fix p K A p'
  assume ok: "withdrawals_ok p" and led: "ledger_by K A (ledger p) (ledger p')" and K: "\<And>k. K k \<Longrightarrow> \<not> withdrawal_journals k"
    and A: "\<And>k. A k \<Longrightarrow> \<not> withdrawal_accounts k" and kept: "sends_kept p p'"
  show "withdrawals_ok p'" using kept unfolding sends_kept_def by (intro withdrawals_ok_frame [OF ok led _ _ _ K A]) blast+
qed

definition topups_kept :: "pool \<Rightarrow> pool \<Rightarrow> bool" where
  "topups_kept p p' \<longleftrightarrow> protocol_topups p' = protocol_topups p \<and>
     protocol_topup_credits (topup_tables p') = protocol_topup_credits (topup_tables p)"

interpretation topups_part: component topups_ok topup_journals topup_holds topups_kept
proof unfold_locales
  fix p K A p'
  assume ok: "topups_ok p" and led: "ledger_by K A (ledger p) (ledger p')" and K: "\<And>k. K k \<Longrightarrow> \<not> topup_journals k"
    and A: "\<And>k. A k \<Longrightarrow> \<not> topup_holds k" and kept: "topups_kept p p'"
  show "topups_ok p'" using kept unfolding topups_kept_def by (intro topups_ok_frame [OF ok led _ _ K A]) blast+
qed

text \<open>The rows of a round that move funds; reports of a round are other rows.\<close>

definition booking_rows :: "round_tables \<Rightarrow> round_earnings_row list \<times> round_receipt_row list \<times> round_reimbursement_row list \<times>
    finalization_row list \<times> settlement_row list" where
  "booking_rows t = (round_earnings t, round_receipts t, round_reimbursements t, collateral_finalizations t, round_settlements t)"

definition rounds_kept :: "pool \<Rightarrow> pool \<Rightarrow> bool" where
  "rounds_kept p p' \<longleftrightarrow> booking_rows (booked p') = booking_rows (booked p) \<and> same_creation p p'"

lemma rounds_ok_kept:
  assumes ok: "rounds_ok p" and led: "ledger_by K A (ledger p) (ledger p')" and K: "\<And>k. K k \<Longrightarrow> \<not> settlement_journals k"
    and A: "\<And>k. A k \<Longrightarrow> \<not> pot_accounts k" and kept: "rounds_kept p p'"
  shows "rounds_ok p'"
proof -
  have "rounds_ok (p'\<lparr>rounds := rounds p\<rparr>)"
    using kept by (intro rounds_ok_frame [OF ok _ _ _ K A]) (simp_all add: led rounds_kept_def same_creation_def)
  then show ?thesis using kept
    by (simp add: rounds_kept_def booking_rows_def rounds_ok_def pots_ok_def settlement_journals_ok_def funding_ok_def
        round_received_def reimbursed_of_def paid_out_def settled_def earnings_of_def forfeited_def created_in_def)
qed

interpretation rounds_part: component rounds_ok settlement_journals pot_accounts rounds_kept
  by unfold_locales (rule rounds_ok_kept)

definition cursor_kept :: "pool \<Rightarrow> pool \<Rightarrow> bool" where
  "cursor_kept p p' \<longleftrightarrow> chain_stream p' = chain_stream p \<and> chain_batches (chain_of p') = chain_batches (chain_of p)"

interpretation cursor_part: component cursor_ok no_names no_names cursor_kept
  by unfold_locales (auto simp: cursor_ok_def cursor_kept_def split: option.split)

end
