(* ===== verification/System.thy ===== *)
theory System
  imports Components Topup_Properties Operator_Funding
begin

text \<open>
  The pool as a whole: the components operate on one ledger and one store, in any order. A step of the pool is
  one committed operation of a component; \<open>pool_ok\<close> is the conjunction of the
  components' invariants with the ledger's, and every reachable state satisfies it. Each step
  keeps the invariant of its own component by that component's lemma, and those of all others by their
  contract (\<open>Components\<close>): it posts under its own keys, between accounts whose balance no other component accounts for.
\<close>

section \<open>The parts\<close>

datatype part = Membership | Deposits | Reservations | Sends | Topups | Rounds | Cursor

fun part_ok :: "part \<Rightarrow> pool \<Rightarrow> bool" where
  "part_ok Membership = members_ok"
| "part_ok Deposits = deposits_ok"
| "part_ok Reservations = reservations_ok"
| "part_ok Sends = withdrawals_ok"
| "part_ok Topups = topups_ok"
| "part_ok Rounds = rounds_ok"
| "part_ok Cursor = cursor_ok"

fun part_keys :: "part \<Rightarrow> string \<Rightarrow> bool" where
  "part_keys Membership = no_names"
| "part_keys Deposits = deposit_keys"
| "part_keys Reservations = reservation_journals"
| "part_keys Sends = withdrawal_journals"
| "part_keys Topups = topup_journals"
| "part_keys Rounds = settlement_journals"
| "part_keys Cursor = no_names"

fun part_funds :: "part \<Rightarrow> string \<Rightarrow> bool" where
  "part_funds Membership = no_names"
| "part_funds Deposits = no_names"
| "part_funds Reservations = reservation_accounts"
| "part_funds Sends = withdrawal_accounts"
| "part_funds Topups = topup_holds"
| "part_funds Rounds = pot_accounts"
| "part_funds Cursor = no_names"

fun part_kept :: "part \<Rightarrow> pool \<Rightarrow> pool \<Rightarrow> bool" where
  "part_kept Membership = members_kept"
| "part_kept Deposits = deposits_kept"
| "part_kept Reservations = reservations_kept"
| "part_kept Sends = sends_kept"
| "part_kept Topups = topups_kept"
| "part_kept Rounds = rounds_kept"
| "part_kept Cursor = cursor_kept"

interpretation part: component "part_ok x" "part_keys x" "part_funds x" "part_kept x" for x
  by (cases x) (simp_all add: members_part.component_axioms deposits_part.component_axioms reservations_part.component_axioms
      sends_part.component_axioms topups_part.component_axioms rounds_part.component_axioms cursor_part.component_axioms)

definition pool_ok :: "pool \<Rightarrow> bool" where
  "pool_ok p \<longleftrightarrow> ledger_ok (ledger p) \<and> (\<forall>x. part_ok x p)"

lemma pool_ok_part: "pool_ok p \<Longrightarrow> part_ok x p"
  by (simp add: pool_ok_def)

section \<open>Names of different parts\<close>

lemmas key_names = deposit_keys_def reservation_journals_def withdrawal_journals_def topup_journals_def settlement_journals_def
  reservation_key_def withdrawal_key_def attempt_key_def topup_key_def round_key_def finalize_key_def no_names_def

lemmas fund_names = reservation_accounts_def withdrawal_accounts_def topup_holds_def pot_accounts_def no_names_def
  held_def committed_fee_def pending_def gas_hold_def topup_held_def pot_def

lemma keys_apart: "part_keys x k \<Longrightarrow> x \<noteq> y \<Longrightarrow> \<not> part_keys y k"
  by (cases x; cases y) (auto simp: key_names)

lemma funds_apart: "part_funds x k \<Longrightarrow> x \<noteq> y \<Longrightarrow> \<not> part_funds y k"
  by (cases x; cases y) (auto simp: fund_names)

text \<open>Accounts no part accounts for: of members, of the operator, of the outside and of deposits without a member.\<close>

definition common_funds :: "string \<Rightarrow> bool" where
  "common_funds k \<longleftrightarrow> (\<exists>m. k = available m) \<or> k \<in> {''operator:custody:TIG'', ''operator:custody:NATIVE'', ''operator:protocol:TIG'',
     ''external:custody:TIG'', ''external:custody:NATIVE'', ''external:protocol:TIG'', ''unattributed:TIG''}"

lemma common_apart: "common_funds k \<Longrightarrow> \<not> part_funds x k"
  by (cases x) (auto simp: fund_names common_funds_def available_def)

section \<open>Steps and the parts they leave alone\<close>

text \<open>The step posts under keys of the parts in \<open>own\<close> and other keys no part owns, and keeps the rows of all other parts.\<close>

definition step_of :: "part set \<Rightarrow> pool \<Rightarrow> pool \<Rightarrow> bool" where
  "step_of own p p' \<longleftrightarrow> (\<exists>K A. ledger_by K A (ledger p) (ledger p') \<and>
     (\<forall>x. x \<notin> own \<longrightarrow> part_kept x p p' \<and> (\<forall>k. K k \<longrightarrow> \<not> part_keys x k) \<and> (\<forall>k. A k \<longrightarrow> \<not> part_funds x k)))"

text \<open>Where a step may lead: the invariant holds again, and money only moved by postings.\<close>

definition sound_step :: "pool \<Rightarrow> pool \<Rightarrow> bool" where
  "sound_step p p' \<longleftrightarrow> pool_ok p' \<and> (\<exists>K A. ledger_by K A (ledger p) (ledger p'))"

lemma pool_ok_step:
  assumes "pool_ok p" and "step_of own p p'" and "\<And>x. x \<in> own \<Longrightarrow> part_ok x p'"
  shows "sound_step p p'"
proof -
  obtain K A where led: "ledger_by K A (ledger p) (ledger p')" and rest: "\<And>x. x \<notin> own \<Longrightarrow> part_kept x p p' \<and> (\<forall>k. K k \<longrightarrow> \<not> part_keys x k) \<and>
      (\<forall>k. A k \<longrightarrow> \<not> part_funds x k)" using assms(2) unfolding step_of_def by blast
  have "ledger_ok (ledger p')" using ledger_by_ok [OF led] assms(1) by (simp add: pool_ok_def)
  moreover have "part_ok x p'" for x
  proof (cases "x \<in> own")
    case False
    then show ?thesis using rest [OF False] pool_ok_part [OF assms(1)] part.frame [OF _ led, of x] by blast
  qed (rule assms(3))
  ultimately show ?thesis using led by (auto simp: sound_step_def pool_ok_def)
qed

text \<open>A step under one part's keys, or keys of none, between its funds and common accounts.\<close>

definition usable_key :: "part set \<Rightarrow> string \<Rightarrow> bool" where
  "usable_key own k \<longleftrightarrow> (\<exists>x \<in> own. part_keys x k) \<or> (\<forall>x. \<not> part_keys x k)"

definition usable_fund :: "part set \<Rightarrow> string \<Rightarrow> bool" where
  "usable_fund own k \<longleftrightarrow> common_funds k \<or> (\<exists>x \<in> own. part_funds x k)"

lemma step_ofI:
  assumes "ledger_by K A (ledger p) (ledger p')" and "\<And>k. K k \<Longrightarrow> usable_key own k"
    and "\<And>k. A k \<Longrightarrow> usable_fund own k" and "\<And>x. x \<notin> own \<Longrightarrow> part_kept x p p'"
  shows "step_of own p p'"
  unfolding step_of_def using assms keys_apart funds_apart common_apart unfolding usable_key_def usable_fund_def by metis

text \<open>A step without money.\<close>

lemma step_of_rows:
  assumes "ledger p' = ledger p" and "\<And>x. x \<notin> own \<Longrightarrow> part_kept x p p'"
  shows "step_of own p p'"
  by (rule step_ofI [of "\<lambda>_. False" "\<lambda>_. False"]) (use assms in \<open>auto simp: by_nothing\<close>)

lemmas part_kept_defs = members_kept_def deposits_kept_def reservations_kept_def sends_kept_def topups_kept_def rounds_kept_def cursor_kept_def


lemma all_parts: "(\<forall>x. P x) \<longleftrightarrow> P Membership \<and> P Deposits \<and> P Reservations \<and> P Sends \<and> P Topups \<and> P Rounds \<and> P Cursor"
  by (metis part.exhaust)

text \<open>The columns the parts read; equality of a tuple of tables is read off a frame.\<close>

lemma kept_rows:
  "(members p', multiplier_changes p') = (members p, multiplier_changes p) \<Longrightarrow> part_kept Membership p p'"
  "transfers p' = transfers p \<Longrightarrow> transfer_attributions p' = transfer_attributions p \<Longrightarrow> part_kept Deposits p p'"
  "reservations p' = reservations p \<Longrightarrow> part_kept Reservations p p'"
  "(withdrawals p', withdrawal_attempts p', withdrawal_attempt_outcomes p') =
     (withdrawals p, withdrawal_attempts p, withdrawal_attempt_outcomes p) \<Longrightarrow> part_kept Sends p p'"
  "(protocol_topups p', topup_funding p') = (protocol_topups p, topup_funding p) \<Longrightarrow> part_kept Topups p p'"
  "(reservations p', rounds p') = (reservations p, rounds p) \<Longrightarrow> part_kept Rounds p p'"
  "(chain_stream p', chain_log p') = (chain_stream p, chain_log p) \<Longrightarrow> part_kept Cursor p p'"
  by (simp_all add: part_kept_defs)

lemma pool_by_kept: "pool_by K A p p' \<Longrightarrow> part_kept Membership p p'" "pool_by K A p p' \<Longrightarrow> part_kept Deposits p p'"
  "pool_by K A p p' \<Longrightarrow> part_kept Reservations p p'"
  by (simp_all add: part_kept_defs pool_by_def)

lemma kept_refl [simp]: "part_kept x p p"
  by (cases x) (simp_all add: part_kept_defs)

lemma step_refl [simp]: "step_of own p p"
  by (rule step_of_rows) simp_all

section \<open>Members, accounts and deposits\<close>

lemma register_step:
  assumes "register_verified new_id wallet p = Inr (m, p')"
  shows "step_of {Membership} p p'"
proof -
  obtain w where w: "address wallet = Inr w" using assms by (auto simp: register_verified_def outcome)
  show ?thesis
  proof (cases "lookup m_wallet w (members p)")
    case (Some r)
    then have "p' = p" using assms w by (simp add: register_verified_def)
    then show ?thesis by simp
  next
    case None
    then obtain k led where led: "account (available new_id) KMember AssetTIG Custody (ledger p) = Inr (k, led)"
      and p': "p' = p\<lparr>members := members p @ [new_member new_id w], ledger := led\<rparr>"
      using assms w by (auto simp: register_verified_def outcome split: if_splits)
    show ?thesis
    proof (rule step_ofI [of "\<lambda>_. False" "\<lambda>_. False"])
      show "ledger_by (\<lambda>_. False) (\<lambda>_. False) (ledger p) (ledger p')" unfolding p' using ledger_by_opened [OF led] by simp
      show "part_kept x p p'" if "x \<notin> {Membership}" for x
        using that unfolding p' by (cases x) (simp_all add: part_kept_defs)
    qed simp_all
  qed
qed

lemma multiplier_step:
  assumes "set_multiplier member_id v actor reason event_key p = Inr (change, p')"
  shows "step_of {Membership} p p'"
  using assms
proof (cases rule: set_multiplier_cases)
  case replay
  then show ?thesis by simp
next
  case (fresh u m)
  show ?thesis
  proof (rule step_of_rows)
    show "part_kept x p p'" if "x \<notin> {Membership}" for x
      using that unfolding fresh(5) by (cases x) (simp_all add: part_kept_defs)
  qed (simp add: fresh(5))
qed

lemma open_accounts_by: "open_accounts specs led = Inr led' \<Longrightarrow> ledger_by K A led led'"
proof (induction specs arbitrary: led)
  case (Cons s specs)
  obtain k kind a loc where s: "s = (k, kind, a, loc)" by (cases s)
  with Cons.prems obtain j led0 where "account k kind a loc led = Inr (j, led0)" "open_accounts specs led0 = Inr led'"
    by (auto simp: bindE_Inr)
  with Cons.IH [of led0] show ?case by (blast intro: ledger_by_trans ledger_by_opened)
qed (simp add: by_nothing)

text \<open>A step that touches the ledger only.\<close>

lemma step_of_ledger:
  assumes "p' = p\<lparr>ledger := led\<rparr>" and "ledger_by K A (ledger p) led" and "\<And>k. K k \<Longrightarrow> usable_key own k" and "\<And>k. A k \<Longrightarrow> usable_fund own k"
  shows "step_of own p p'"
proof (rule step_ofI [OF _ assms(3,4)])
  show "ledger_by K A (ledger p) (ledger p')" using assms by simp
  show "part_kept x p p'" for x unfolding assms(1) by (cases x) (simp_all add: part_kept_defs)
qed

lemma initialize_accounts_step:
  assumes "initialize_accounts p = Inr (u, p')"
  shows "step_of {} p p'"
proof -
  obtain specs led where run: "open_accounts specs (ledger p) = Inr led" and p': "p' = p\<lparr>ledger := led\<rparr>"
    using assms unfolding initialize_accounts_def bindE_Inr by blast
  show ?thesis by (rule step_of_ledger [OF p' open_accounts_by [OF run, of "\<lambda>_. False" "\<lambda>_. False"]]) auto
qed

lemma deposit_rows_kept:
  "p' = p\<lparr>ledger := led, custody_identity := ci, transfers := ts, transfer_attributions := ats\<rparr> \<Longrightarrow> x \<noteq> Deposits \<Longrightarrow> part_kept x p p'"
  by (cases x) (simp_all add: part_kept_defs)

lemma deposit_names: "deposit_keys k \<Longrightarrow> usable_key {Deposits} k" "deposit_accounts k \<Longrightarrow> usable_fund {Deposits} k"
  by (auto simp: usable_key_def usable_fund_def deposit_accounts_def common_funds_def)

lemma receive_step:
  assumes "receive env i j t p = Inr (d, p')"
  shows "step_of {Deposits} p p'"
proof -
  obtain led ci ts ats where "p' = p\<lparr>ledger := led, custody_identity := ci, transfers := ts, transfer_attributions := ats\<rparr>"
    using receive_frame [OF assms] by blast
  from deposit_rows_kept [OF this] show ?thesis
    by (intro step_ofI [OF receive_ledger_by [OF assms] deposit_names]) blast+
qed

lemma attribute_frame:
  assumes "attribute env i t dest actor evidence p = Inr (d, p')"
  shows "\<exists>led ats. p' = p\<lparr>ledger := led, transfer_attributions := ats\<rparr>"
  using assms
proof (cases rule: attribute_cases)
  case (old previous)
  then show ?thesis by (intro exI [of _ "ledger p"] exI [of _ "transfer_attributions p"]) simp
next
  case (new j led)
  show ?thesis by (rule exI, rule exI, rule new(4))
qed

lemma attribute_reviewed_step:
  assumes "attribute_reviewed env i t actor evidence member_id operator p = Inr (d, p')"
  shows "step_of {Deposits} p p'"
  using assms
proof (cases rule: attribute_reviewed_cases)
  case (1 q)
  note q = save_transfer_effect(3) [OF 1(1)]
  have led: "ledger q = ledger p" by (subst q) simp
  have A: "deposit_accounts (if blank member_id then ''operator:custody:TIG'' else available (the member_id))" by (auto simp: deposit_accounts_def)
  obtain led ats where p': "p' = q\<lparr>ledger := led, transfer_attributions := ats\<rparr>" using attribute_frame [OF 1(9)] by blast
  have "p' = p\<lparr>ledger := led, custody_identity := custody_identity q, transfers := transfers q, transfer_attributions := ats\<rparr>"
    unfolding p' by (subst q) simp
  from deposit_rows_kept [OF this] show ?thesis
    by (intro step_ofI [OF attribute_ledger_by [OF 1(9) A, unfolded led] deposit_names]) blast+
qed

lemma attribute_reviewed_ok:
  assumes "deposits_ok p" and "attribute_reviewed env i t actor evidence member_id operator p = Inr (d, p')"
  shows "deposits_ok p'"
  using assms(2)
  by (cases rule: attribute_reviewed_cases) (blast intro: deposits_ok_attribute deposits_ok_save_transfer [OF assms(1)])

lemma save_transfer_step:
  assumes "save_transfer t p = Inr (new, p')"
  shows "step_of {Deposits} p p'"
proof -
  obtain ci ts where "p' = p\<lparr>custody_identity := ci, transfers := ts\<rparr>" using save_transfer_effect(3) [OF assms] by blast
  then have p': "p' = p\<lparr>ledger := ledger p, custody_identity := ci, transfers := ts, transfer_attributions := transfer_attributions p\<rparr>" by simp
  show ?thesis by (rule step_of_rows) (use deposit_rows_kept [OF p'] in \<open>auto simp: p'\<close>)
qed

text \<open>Rows of custody no part accounts for.\<close>

lemma custody_rows_kept:
  "p' = p\<lparr>ledger := led, custody_identity := ci, chain_transactions := ts, topup_funding := f\<rparr> \<Longrightarrow>
   protocol_topup_credits f = protocol_topup_credits (topup_tables p) \<Longrightarrow> part_kept x p p'"
  by (cases x) (simp_all add: part_kept_defs)

lemma free_key: "(\<And>x. \<not> part_keys x k) \<Longrightarrow> usable_key own k"
  by (simp add: usable_key_def)

lemma step_of_post:
  assumes "post env i ek kind mv det rv (ledger p) = Inr (j, ledger p')" and "usable_key own ek" and "\<And>k. k \<in> fst ` set mv \<Longrightarrow> usable_fund own k"
    and "\<And>x. x \<notin> own \<Longrightarrow> part_kept x p p'"
  shows "step_of own p p'"
  by (rule step_ofI [of "\<lambda>k. k = ek" "\<lambda>k. k \<in> fst ` set mv"]) (use assms in \<open>auto intro: ledger_by_posted\<close>)

lemma bind_frame: "bind net p = Inr (u, q) \<Longrightarrow> \<exists>ci. q = p\<lparr>custody_identity := ci\<rparr>"
  using bind_cases(1) by blast

lemma save_transaction_rows: "save_transaction t p = Inr (new, q) \<Longrightarrow> \<exists>ci ts. q = p\<lparr>custody_identity := ci, chain_transactions := ts\<rparr>"
  using save_transaction_frame by blast

text \<open>A posting at the end of an operation that only recorded rows of custody, under a key no part owns.\<close>

lemma custody_post_step:
  assumes q: "q = p\<lparr>custody_identity := ci, chain_transactions := ts, topup_funding := f\<rparr>"
    and f: "protocol_topup_credits f = protocol_topup_credits (topup_tables p)"
    and run: "on_ledger (post env i ek kind mv det rv) q = Inr (j, p')" and ek: "\<And>x. \<not> part_keys x ek"
    and mv: "\<And>k. k \<in> fst ` set mv \<Longrightarrow> common_funds k"
  shows "step_of {} p p'"
proof -
  obtain led where post: "post env i ek kind mv det rv (ledger q) = Inr (j, led)" and p': "p' = q\<lparr>ledger := led\<rparr>"
    using run by (auto simp: on_ledger_Inr)
  have frame: "p' = p\<lparr>ledger := led, custody_identity := ci, chain_transactions := ts, topup_funding := f\<rparr>" by (simp add: p' q)
  show ?thesis
  proof (rule step_of_post)
    show "post env i ek kind mv det rv (ledger p) = Inr (j, ledger p')" using post by (simp add: q p')
    show "usable_key {} ek" using ek by (rule free_key)
    show "part_kept x p p'" for x by (rule custody_rows_kept [OF frame f])
  qed (use mv in \<open>simp add: usable_fund_def\<close>)
qed

lemma native_key_free: "\<not> part_keys x (''native-receipt:'' @ s)" "\<not> part_keys x (''native-internal-receipt:'' @ s)"
  "\<not> part_keys x (''protocol-opening:'' @ s)" "\<not> part_keys x (''custody-opening:'' @ s)"
  by (cases x; simp add: key_names)+

lemma common_native: "k \<in> fst ` set [(''external:custody:NATIVE'', - n), (''operator:custody:NATIVE'', n)] \<Longrightarrow> common_funds k"
  by (auto simp: common_funds_def)

lemma receive_native_step:
  assumes "receive_native env i t p = Inr (u, p')"
  shows "step_of {} p p'"
proof -
  obtain v q0 w q j where b: "bind (tx_network t) p = Inr (v, q0)" and s: "save_transaction t q0 = Inr (w, q)"
    and run: "on_ledger (post env i (''native-receipt:'' @ int_text (net_chain_id (tx_network t)) @ '':'' @ tx_hash t) ''operator_native_funding''
              [(''external:custody:NATIVE'', - tx_value t), (''operator:custody:NATIVE'', tx_value t)]
              (JDict [(''chain_id'', JInt (net_chain_id (tx_network t))), (''tx_hash'', JStr (tx_hash t)),
                (''sender'', JStr (tx_sender t))]) None) q = Inr (j, p')"
    using assms unfolding receive_native_def raise_if_Inr bindE_Inr split_paired_Ex prod.case sum.inject prod.inject
    by (elim conjE exE) (rule that, assumption+, simp only:)
  obtain ci ts where "q = p\<lparr>custody_identity := ci, chain_transactions := ts\<rparr>" using bind_frame [OF b] save_transaction_rows [OF s] by auto
  then have "q = p\<lparr>custody_identity := ci, chain_transactions := ts, topup_funding := topup_tables p\<rparr>" by simp
  from custody_post_step [OF this refl run native_key_free(1) common_native] show ?thesis .
qed

section \<open>Reservations\<close>

definition reservation_payees :: "string \<Rightarrow> bool" where
  "reservation_payees k \<longleftrightarrow> reservation_accounts k \<or> common_funds k"

definition reservation_step :: "pool \<Rightarrow> pool \<Rightarrow> bool" where
  "reservation_step p p' \<longleftrightarrow> ledger_by reservation_journals reservation_payees (ledger p) (ledger p') \<and> same_creation p p' \<and>
     (\<exists>led rs es. p' = p\<lparr>ledger := led, reservations := rs, reservation_events := es\<rparr>)"

lemma reservation_rows_kept:
  "p' = p\<lparr>ledger := led, reservations := rs, reservation_events := es\<rparr> \<Longrightarrow> same_creation p p' \<Longrightarrow> x \<noteq> Reservations \<Longrightarrow> part_kept x p p'"
  by (cases x) (simp_all add: part_kept_defs)

lemma reservation_step_of: "reservation_step p p' \<Longrightarrow> step_of {Reservations} p p'"
  unfolding reservation_step_def
  by (elim conjE exE, rule step_ofI, assumption)
    (auto simp: usable_key_def usable_fund_def reservation_payees_def intro: reservation_rows_kept)

lemma same_creation_trans: "same_creation p q \<Longrightarrow> same_creation q p' \<Longrightarrow> same_creation p p'"
  unfolding same_creation_def by metis

lemma reservation_step_trans:
  assumes "reservation_step p q" and "reservation_step q p'"
  shows "reservation_step p p'"
proof -
  obtain led rs es where q: "q = p\<lparr>ledger := led, reservations := rs, reservation_events := es\<rparr>" using assms(1) by (auto simp: reservation_step_def)
  obtain led' rs' es' where "p' = q\<lparr>ledger := led', reservations := rs', reservation_events := es'\<rparr>" using assms(2) by (auto simp: reservation_step_def)
  then have "p' = p\<lparr>ledger := led', reservations := rs', reservation_events := es'\<rparr>" by (simp add: q)
  then show ?thesis using assms ledger_by_trans same_creation_trans unfolding reservation_step_def by blast
qed

lemma reservation_step_refl [simp]: "reservation_step p p"
  unfolding reservation_step_def
  by (auto simp: by_nothing intro!: exI [of _ "ledger p"] exI [of _ "reservations p"] exI [of _ "reservation_events p"])

lemma reservation_step_rows:
  assumes "p' = p\<lparr>reservations := rs, reservation_events := es\<rparr>" and "same_creation p p'"
  shows "reservation_step p p'"
  unfolding reservation_step_def using assms
  by (auto simp: by_nothing intro!: exI [of _ "ledger p"] exI [of _ rs] exI [of _ es])

lemma reservation_step_ledger:
  assumes "p' = p\<lparr>ledger := led\<rparr>" and "ledger_by reservation_journals reservation_payees (ledger p) led"
  shows "reservation_step p p'"
  unfolding reservation_step_def using assms
  by (auto intro!: exI [of _ led] exI [of _ "reservations p"] exI [of _ "reservation_events p"])

lemma update_reservation_step:
  assumes "\<And>x. r_id (f x) = r_id x" and "\<And>x. r_creation_round (f x) = r_creation_round x"
  shows "reservation_step p (update_reservation i f p)"
proof (rule reservation_step_rows)
  show "update_reservation i f p = p\<lparr>reservations := modify r_id i f (reservations p), reservation_events := reservation_events p\<rparr>"
    by (simp add: update_reservation_def)
  show "same_creation p (update_reservation i f p)"
    using assms by (auto simp: same_creation_def update_reservation_def lookup_modify)
qed

lemma event_step: "event env i kind details p = Inr p' \<Longrightarrow> reservation_step p p'"
  by (rule reservation_step_rows [where rs = "reservations p" and es = "reservation_events p'"])
    (auto simp: event_def split: option.splits if_splits)

lemma update_event_step:
  assumes "event env i kind details (update_reservation i f p) = Inr p'" and "\<And>x. r_id (f x) = r_id x"
    and "\<And>x. r_creation_round (f x) = r_creation_round x"
  shows "reservation_step p p'"
  by (rule reservation_step_trans [OF update_reservation_step event_step [OF assms(1)]]) (rule assms)+

lemma optional_post_step:
  assumes run: "(if c then on_ledger (post env i (reservation_key n k) kind mv det rv) p else Inr ([], p)) = Inr (j, p')"
    and mv: "\<And>x. x \<in> fst ` set mv \<Longrightarrow> reservation_payees x"
  shows "reservation_step p p'"
proof (rule reservation_step_ledger)
  show "p' = p\<lparr>ledger := ledger p'\<rparr>" by (rule optional_post_frame(1) [OF run])
  show "ledger_by reservation_journals reservation_payees (ledger p) (ledger p')"
    using mv by (intro optional_post_frame(3) [OF run]) (auto simp: reservation_journals_def)
qed

lemma reservation_movements:
  "x \<in> fst ` set (fee_movements r n) \<Longrightarrow> reservation_payees x" "x \<in> fst ` set (return_movements r) \<Longrightarrow> reservation_payees x"
  "x \<in> fst ` set (reserve_movements m i a l) \<Longrightarrow> reservation_payees x"
  by (auto simp: fee_movements_def return_movements_def reserve_movements_def reservation_payees_def reservation_accounts_def
      common_funds_def OPERATOR_FEES_def)

lemma fees_step:
  assumes "fees env jid r n p = Inr p'"
  shows "reservation_step p p'"
proof -
  obtain u j q where run: "(if r_fee_limit r \<noteq> 0
              then on_ledger (post env jid (reservation_key (r_id r) ''fee'') ''operator_submission_cost''
                     (fee_movements r n) (JDict [(''actual'', JInt n)]) None) p
              else Inr ([], p)) = Inr (j, q)" and p': "update_reservation (r_id r) (\<lambda>r. r\<lparr>r_fee_actual := Some n\<rparr>) q = p'"
    using assms unfolding fees_def bindE_Inr raise_if_Inr split_paired_Ex prod.case sum.inject by (elim exE conjE) (rule that, assumption+)
  have "reservation_step p q" by (rule optional_post_step [OF run]) (erule reservation_movements(1))
  moreover have "reservation_step q p'" unfolding p' [symmetric] by (rule update_reservation_step) simp_all
  ultimately show ?thesis by (rule reservation_step_trans)
qed

lemma return_step: "return_collateral env jid kind details r p = Inr p' \<Longrightarrow> reservation_step p p'"
  unfolding return_collateral_def bindE_Inr split_paired_Ex prod.case sum.inject
  by (elim exE conjE) (simp only:, erule optional_post_step, erule reservation_movements(2))

lemma mark_submitting_step: "mark_submitting env i p = Inr (payload, p') \<Longrightarrow> reservation_step p p'"
  by (erule mark_submitting_cases) (rule update_event_step, assumption, simp_all)

lemma acknowledge_step: "acknowledge env i m digest p = Inr (r, p') \<Longrightarrow> reservation_step p p'"
  by (erule acknowledge_cases) (simp, rule update_event_step, assumption, simp_all)

lemma record_outcome_step: "record_outcome env i state height evidence p = Inr (r, p') \<Longrightarrow> reservation_step p p'"
  by (erule record_outcome_cases) (simp, rule update_event_step, assumption, simp_all)

lemma accept_step: "accept env jid i bid assignment actual evidence p = Inr (r, p') \<Longrightarrow> reservation_step p p'"
  by (erule accept_cases) (simp, rule reservation_step_trans [OF fees_step update_event_step], assumption+, simp_all)

lemma release_unstarted_step:
  "release_unstarted env jid jid' i rejected actual evidence p = Inr (r, p') \<Longrightarrow> reservation_step p p'"
  by (erule release_unstarted_cases)
    (simp, rule reservation_step_trans [OF fees_step reservation_step_trans [OF return_step update_event_step]], assumption+, simp_all)

lemma release_unhanded_step:
  "release_unhanded env jid i actor reason ek p = Inr (r, p') \<Longrightarrow> reservation_step p p'"
  by (erule release_unhanded_cases)
    (erule event_step, rule reservation_step_trans [OF return_step update_event_step], assumption+, simp_all)

lemma open_reservation_step:
  assumes "open_reservation env jid r p = Inr (r', p')"
  shows "reservation_step p p'"
proof -
  obtain a q1 b q2 j q where 1: "on_ledger (account (held (r_id r)) KCollateral AssetTIG Custody) p = Inr (a, q1)"
    and 2: "on_ledger (account (committed_fee (r_id r)) KOperatorCommitment AssetTIG Protocol) q1 = Inr (b, q2)"
    and 3: "(if r_amount r \<noteq> 0 \<or> r_fee_limit r \<noteq> 0
            then on_ledger (post env jid (reservation_key (r_id r) ''reserve'') ''benchmark_reservation''
                   (reserve_movements (r_member_id r) (r_id r) (r_amount r) (r_fee_limit r))
                   (JDict [(''member_id'', JStr (r_member_id r)), (''multiplier_revision'', JInt (r_multiplier_revision r))]) None) q2
            else Inr ([], q2)) = Inr (j, q)"
    and 4: "event env (r_id r) ''reserved'' (JDict [(''request_hash'', JStr (r_request_hash r))]) (q\<lparr>reservations := reservations q @ [r]\<rparr>) = Inr p'"
    using assms unfolding open_reservation_def bindE_Inr raise_if_Inr split_paired_Ex prod.case sum.inject prod.inject
    by (elim conjE exE) (rule that, assumption+, simp only:)
  have account: "reservation_step p q" if "on_ledger (account k kind a loc) p = Inr (x, q)" for p q k kind a loc x
    using that by (intro reservation_step_ledger [where led = "ledger q"]) (auto simp: on_ledger_Inr intro: ledger_by_opened)
  have "reservation_step q (q\<lparr>reservations := reservations q @ [r]\<rparr>)"
    by (rule reservation_step_rows [where es = "reservation_events q" and rs = "reservations q @ [r]"])
      (auto simp: same_creation_def lookup_append)
  then have "reservation_step q p'" by (rule reservation_step_trans [OF _ event_step [OF 4]])
  moreover have "reservation_step q2 q" by (rule optional_post_step [OF 3]) (erule reservation_movements(3))
  ultimately have "reservation_step q2 p'" by (blast intro: reservation_step_trans)
  with account [OF 2] have "reservation_step q1 p'" by (rule reservation_step_trans)
  with account [OF 1] show ?thesis by (rule reservation_step_trans)
qed

lemma reserve_step:
  assumes "reserve env new_id jid m key rnd resource selection payload fee_limit expires_at expiry_text p = Inr (r, p')"
  shows "reservation_step p p'"
  using assms by (cases rule: reserve_cases) (simp, rule open_reservation_step)

section \<open>Withdrawals\<close>

text \<open>The rows of the parts a withdrawal has nothing to do with, beyond those of \<open>pool_by\<close>.\<close>

definition far_rows :: "pool \<Rightarrow> protocol_topup_row list \<times> funding_tables \<times> round_tables \<times> chain_stream_row option \<times> chain_tables" where
  "far_rows p = (protocol_topups p, topup_funding p, rounds p, chain_stream p, chain_log p)"

lemma far_saved:
  "bind net p = Inr (u, q) \<Longrightarrow> far_rows q = far_rows p"
  "save_transfer tf p = Inr (new, q) \<Longrightarrow> far_rows q = far_rows p"
  "save_transaction t p = Inr (new, q) \<Longrightarrow> far_rows q = far_rows p"
proof -
  show "far_rows q = far_rows p" if "bind net p = Inr (u, q)" using bind_frame [OF that] by (auto simp: far_rows_def)
  show "far_rows q = far_rows p" if "save_transaction t p = Inr (new, q)" using save_transaction_rows [OF that] by (auto simp: far_rows_def)
  show "far_rows q = far_rows p" if "save_transfer tf p = Inr (new, q)"
    by (subst save_transfer_effect(3) [OF that]) (simp add: far_rows_def)
qed

lemma finished_far: "finished env jid a details mv w outcome ev fee t p out p' \<Longrightarrow> far_rows p' = far_rows p"
  unfolding finished_def by (elim exE conjE) (erule ssubst, simp add: far_rows_def)

lemma opened_far:
  "request env new_id jid m key n p = Inr (w, p') \<Longrightarrow> far_rows p' = far_rows p"
  by (erule request_cases) (simp_all add: far_rows_def)

lemma request_operator_far:
  assumes "request_operator env new_id jid key n net recipient retain actor reason p = Inr (w, p')"
  shows "far_rows p' = far_rows p"
  using assms
proof (cases rule: request_operator_cases)
  case (old q)
  have "far_rows p' = far_rows q" by (subst old(2)) (simp add: far_rows_def)
  with far_saved(1) [OF old(1)] show ?thesis by simp
next
  case (new wallet q led)
  have "far_rows p' = far_rows q" by (subst new(11)) (simp add: far_rows_def)
  with far_saved(1) [OF new(1)] show ?thesis by simp
qed

lemma approve_far: "approve i net fee_model actor evidence p = Inr (r, p') \<Longrightarrow> far_rows p' = far_rows p"
  by (erule approve_cases) (auto dest: far_saved(1) simp: far_rows_def)

lemma release_far:
  assumes "release env jid i actor reason ek m p = Inr (w, p')"
  shows "far_rows p' = far_rows p"
  using assms by (cases rule: release_cases) (erule ssubst, simp add: far_rows_def)+

lemma open_attempt_far:
  assumes "open_attempt env jid a p = Inr (b, p')"
  shows "far_rows p' = far_rows p"
  using assms by (cases rule: open_attempt_cases) (erule ssubst, simp add: far_rows_def)

lemma begin_attempt_far:
  assumes "begin_attempt env new_id jid i key pre limit actor retain p = Inr (a, p')"
  shows "far_rows p' = far_rows p"
  using assms
proof (cases rule: begin_attempt_cases)
  case (new q w review)
  show ?thesis using far_saved(1) [OF new(1)] open_attempt_far [OF new(5)] by simp
qed (rule far_saved(1))

lemma claim_transaction_far: "claim_transaction i h actor p = Inr (u, p') \<Longrightarrow> far_rows p' = far_rows p"
  by (auto simp: claim_transaction_def bindE_Inr far_rows_def split: if_splits option.splits)

lemma settle_attempt_far:
  assumes "settle_attempt env jid i t transfer p = Inr (out, p')"
  shows "far_rows p' = far_rows p"
  using assms
proof (cases rule: settle_attempt_cases)
  case (old q a w)
  then show ?thesis using far_saved by (cases transfer) fastforce+
next
  case (new q a w review r outcome)
  have "far_rows r = far_rows q" using new(8) far_saved(2) by (cases rule: send_result_cases) auto
  moreover have "outcome = OPaid \<Longrightarrow> transfer \<noteq> None" using new(8) by (cases rule: send_result_cases) auto
  ultimately show ?thesis using finished_far [OF record_send_finished [OF new(9)]] far_saved(1) [OF new(1)] by simp
qed

lemma reconcile_far:
  assumes "reconcile env jid i t transfer p = (result, p')"
  shows "far_rows p' = far_rows p"
proof -
  have keep: "far_rows q = far_rows p" if "keep_evidence i t transfer p = Inr (u, q)" for u q
    using that by (rule keep_evidence_cases) (rule far_saved(3))
  show ?thesis using assms keep settle_attempt_far unfolding reconcile_def commit_def by (force split: sum.splits)
qed

lemma reconcile_sponsored_far:
  assumes "reconcile_sponsored env jid i x actor reason p = Inr (out, p')"
  shows "far_rows p' = far_rows p"
  using assms
proof (cases rule: reconcile_sponsored_cases)
  case (old q q' a w)
  then show ?thesis using far_saved by metis
next
  case (new q q1 q2 a w)
  then show ?thesis using far_saved finished_far [OF record_sponsored_finished [OF new(10)]] by metis
qed

lemma payment_names: "withdrawal_journals k \<Longrightarrow> usable_key {Sends} k" "payment_accounts k \<Longrightarrow> usable_fund {Sends} k"
  by (auto simp: usable_key_def usable_fund_def payment_accounts_def common_funds_def)

lemma withdrawal_step_of:
  assumes "withdrawal_step p p'" and "far_rows p' = far_rows p"
  shows "step_of {Sends} p p'"
proof (rule step_ofI [OF _ payment_names])
  show "ledger_by withdrawal_journals payment_accounts (ledger p) (ledger p')" using assms(1) by (simp add: pool_by_def)
  show "part_kept x p p'" if "x \<notin> {Sends}" for x
    using that assms pool_by_kept [OF assms(1)] by (cases x) (auto simp: far_rows_def part_kept_defs)
qed

section \<open>Top-ups\<close>

definition chain_rows :: "pool \<Rightarrow> chain_stream_row option \<times> chain_tables" where
  "chain_rows p = (chain_stream p, chain_log p)"

lemma chain_rows_facts: "facts_only p q \<Longrightarrow> chain_rows q = chain_rows p"
  unfolding facts_only_def by (elim conjE, drule arg_cong [where f = chain_rows]) (simp add: chain_rows_def besides_facts_def)

lemma chain_rows_far: "far_rows q = far_rows p \<Longrightarrow> chain_rows q = chain_rows p"
  by (simp add: far_rows_def chain_rows_def)

lemma begin_topup_chain:
  assumes "begin_topup env new_id jid key pre capture n limit model actor p = Inr (t, p')"
  shows "chain_rows p' = chain_rows p"
  using assms
proof (cases rule: begin_topup_cases)
  case (new q snapshot)
  have "chain_rows p' = chain_rows q" using new(7) by (cases rule: open_topup_cases) (erule ssubst, simp add: chain_rows_def)
  with far_saved(1) [OF new(1)] chain_rows_far show ?thesis by metis
qed (blast intro: chain_rows_far far_saved(1))

lemma claim_topup_chain: "claim_topup i h actor p = Inr (u, p') \<Longrightarrow> chain_rows p' = chain_rows p"
  by (auto simp: claim_topup_def bindE_Inr Let_def chain_rows_def split: if_splits option.splits)

lemma settle_topup_chain:
  assumes "settle_topup env jid i t transfer p = Inr (rep, p')"
  shows "chain_rows p' = chain_rows p"
  using assms
proof (cases rule: settle_topup_cases)
  case (old topup previous)
  from chain_rows_far [OF far_saved(1) [OF old(1)]] show ?thesis .
next
  case (new topup outcome q)
  have "lookup cp_send_id (pt_id topup) (custody_payments q) = None" using new(3) facts_only_same [OF new(4)] by simp
  moreover have "pt_id topup = pt_id (ti_topup i)" using new(1) by (auto dest: lookup_SomeD)
  ultimately have "chain_rows p' = chain_rows q"
    using new(5) by (elim record_topup_cases) (simp_all add: chain_rows_def)
  with chain_rows_facts [OF new(4)] show ?thesis by simp
qed

lemma reconcile_topup_chain:
  assumes "reconcile_topup env jid identity t transfer p = (rep, p')"
  shows "chain_rows p' = chain_rows p"
  using assms
proof (cases rule: reconcile_topup_cases)
  case (settled i q r)
  from settle_topup_chain [OF settled(4)] chain_rows_facts [OF settled(3)] show ?thesis by simp
qed (rule chain_rows_facts)

lemma credit_topup_chain:
  assumes "credit_topup env jid identity capture p = Inr (c, p')"
  shows "chain_rows p' = chain_rows p"
  using assms
proof (cases rule: credit_topup_cases)
  case (new snapshot i q f e led j)
  have "chain_rows p' = chain_rows q" by (simp add: new(13) chain_rows_def)
  with chain_rows_facts [OF new(3)] show ?thesis by simp
qed (rule chain_rows_facts)

lemma topup_payment_names: "topup_journals k \<Longrightarrow> usable_key {Topups} k" "topup_accounts k \<Longrightarrow> usable_fund {Topups} k"
  by (auto simp: usable_key_def usable_fund_def topup_accounts_def common_funds_def OPERATOR_FEES_def)

lemma topup_step_of:
  assumes "topup_step p p'" and "chain_rows p' = chain_rows p"
  shows "step_of {Topups} p p'"
proof (rule step_ofI [OF _ topup_payment_names])
  have moved: "pool_by topup_journals topup_accounts p p'" using assms(1) by (simp add: topup_step_def)
  then show "ledger_by topup_journals topup_accounts (ledger p) (ledger p')" by (simp add: pool_by_def)
  show "part_kept x p p'" if "x \<notin> {Topups}" for x
    using that assms pool_by_kept [OF moved] by (cases x) (auto simp: chain_rows_def topup_step_def part_kept_defs)
qed

lemma record_funding_of:
  assumes "record_funding env data p = Inr (r, p')"
  shows "step_of {} p p'"
proof -
  have "\<exists>owner captures alerts facts. p' = p\<lparr>protocol_identity := owner, funding_captures := captures, funding_alerts := alerts,
      topup_funding := (topup_tables p)\<lparr>protocol_topup_facts := facts\<rparr>\<rparr>"
    using assms
  proof (cases rule: record_funding_cases)
    case (incomplete e c q)
    then show ?thesis
      by (intro exI [of _ "protocol_identity p"] exI [of _ "funding_captures p'"] exI [of _ "funding_alerts p"]
          exI [of _ "protocol_topup_facts (topup_tables p)"]) (simp add: insert_capture_def)
  next
    case (complete s c q conflicting)
    obtain facts where "q = (insert_capture c (p\<lparr>protocol_identity := Some (fn_player_id s)\<rparr>))\<lparr>topup_funding := (topup_tables p)\<lparr>protocol_topup_facts := facts\<rparr>\<rparr>"
      using complete(2) by (auto simp: confirm_topups_def insert_capture_def split: prod.splits if_splits)
    then show ?thesis unfolding complete(3)
      by (intro exI [of _ "Some (fn_player_id s)"] exI [of _ "funding_captures p'"] exI [of _ "funding_alerts p'"] exI [of _ facts])
        (auto simp: complete(3) insert_capture_def funding_alert_def)
  qed
  then show ?thesis
  proof (elim exE)
    fix owner captures alerts facts
    assume p': "p' = p\<lparr>protocol_identity := owner, funding_captures := captures, funding_alerts := alerts,
      topup_funding := (topup_tables p)\<lparr>protocol_topup_facts := facts\<rparr>\<rparr>"
    have "part_kept x p p'" for x unfolding p' by (cases x) (simp_all add: part_kept_defs)
    then show ?thesis by (intro step_of_rows) (simp_all add: p')
  qed
qed

section \<open>Rounds\<close>

lemma round_names: "settlement_journals k \<Longrightarrow> Rounds \<in> own \<Longrightarrow> usable_key own k" "Rounds \<in> own \<Longrightarrow> usable_fund own (pot r)"
  "usable_fund own (available m)" "usable_fund own ''operator:custody:TIG''" "usable_fund own ''unattributed:TIG''"
  "settlement_journals (finalize_key i)" "settlement_journals (round_key r ''settle'')" "settlement_journals (round_key r ''reimburse'')"
  by (auto simp: usable_key_def usable_fund_def common_funds_def settlement_journals_def pot_accounts_def intro: bexI [of _ Rounds])

lemma finalize_collateral_step:
  assumes run: "finalize_collateral env jid i seal_id p = Inr (out, p')" and ok: "rounds_ok p"
  shows "step_of {Rounds, Reservations} p p'"
  using run
proof (cases rule: finalize_collateral_cases)
  case (new r result fz)
  have fresh: "\<not> recorded (ledger p) (finalize_key (r_id r))"
    using ok new(2,3) by (auto simp: rounds_ok_def settlement_journals_ok_def)
  note eff = apply_outcome_effect [OF new(6) fresh]
  show ?thesis
  proof (rule step_ofI [OF eff(6)])
    show "usable_fund {Rounds, Reservations} k" if "k = held (r_id r) \<or> k = outcome_account r result" for k
    proof -
      have "reservation_accounts (held (r_id r))" by (auto simp: reservation_accounts_def)
      then have "usable_fund {Rounds, Reservations} (held (r_id r))" by (auto simp: usable_fund_def)
      with that show ?thesis using round_names(2) [where own = "{Rounds, Reservations}"] round_names(3) by (auto simp: outcome_account_def)
    qed
    show "part_kept x p p'" if "x \<notin> {Rounds, Reservations}" for x
      using that by (cases x; simp add: part_kept_defs) (intro conjI; subst eff(3), simp)+
  qed (auto intro: round_names(1,6))
qed simp_all

lemma round_rows_kept: "p' = p\<lparr>ledger := led, rounds := rs\<rparr> \<Longrightarrow> x \<noteq> Rounds \<Longrightarrow> part_kept x p p'"
  by (cases x) (simp_all add: part_kept_defs)

lemma declare_earnings_step:
  assumes "declare_earnings env n net cost block_id evidence p = Inr (ea, p')"
  shows "step_of {Rounds} p p'"
  using assms
proof (cases rule: declare_earnings_cases)
  case (new r led)
  show ?thesis
    by (rule step_ofI [of "\<lambda>_. False" "\<lambda>_. False"])
      (use round_rows_kept [OF new(7)] ledger_by_opened [OF new(3)] in \<open>auto simp: new(7)\<close>)
qed simp

lemma post_amount_step:
  assumes run: "post_amount env jid ek kind n mv details p = Inr (j, q)" and p': "p' = q\<lparr>rounds := rs\<rparr>"
    and ek: "settlement_journals ek" and mv: "\<And>k. k \<in> fst ` set mv \<Longrightarrow> usable_fund {Rounds} k"
  shows "step_of {Rounds} p p'"
proof -
  obtain led where q: "q = p\<lparr>ledger := led\<rparr>" and led: "ledger_by (\<lambda>k. k = ek) (\<lambda>k. k \<in> fst ` set mv) (ledger p) led"
  proof (cases "n = 0")
    case True
    then have "q = p\<lparr>ledger := ledger p\<rparr>" using run by (simp add: post_amount_def)
    then show ?thesis by (rule that) (rule by_nothing)
  next
    case False
    then obtain i led where "q = p\<lparr>ledger := led\<rparr>" "post env jid ek kind mv details None (ledger p) = Inr (i, led)"
      using run by (auto simp: post_amount_def bindE_Inr on_ledger_Inr)
    then show ?thesis by (auto intro: that ledger_by_posted)
  qed
  have frame: "p' = p\<lparr>ledger := led, rounds := rs\<rparr>" by (simp add: p' q)
  show ?thesis
  proof (rule step_ofI)
    show "ledger_by (\<lambda>k. k = ek) (\<lambda>k. k \<in> fst ` set mv) (ledger p) (ledger p')" using led by (simp add: frame)
    show "part_kept x p p'" if "x \<notin> {Rounds}" for x using that round_rows_kept [OF frame] by simp
  qed (use ek mv round_names(1) in auto)
qed

lemma reimburse_step:
  assumes "reimburse_operating_cost env jid r p = Inr (rb, p')"
  shows "step_of {Rounds} p p'"
  using assms
proof (cases rule: reimburse_cases)
  case (new earnings j q)
  show ?thesis by (rule post_amount_step [OF new(4,6) round_names(8)]) (use round_names(2,4) [where own = "{Rounds}"] in auto)
qed simp

lemma settle_step:
  assumes run: "settle env jid n seal_id do_post expected p = Inr (out, p')" and ok: "rounds_ok p"
  shows "step_of {Rounds} p p'"
  using run
proof (cases rule: settle_cases)
  case (booked r credits i fee alloc st)
  obtain j q where post: "post_amount env jid (round_key (ri_round i) ''settle'') ''round_rewards'' (input_amount i)
       (payment_movements_of (ri_round i) (input_amount i) fee alloc) (inputs_json i) p = Inr (j, q)"
    and p': "p' = q\<lparr>rounds := (booked q)\<lparr>round_settlements := round_settlements (booked q) @ [st]\<rparr>\<rparr>"
    using booked(8) by (auto simp: book_settlement_def bindE_Inr Let_def)
  show ?thesis
    by (rule post_amount_step [OF post p' round_names(7)]) (use round_names(2-4) in \<open>auto simp: payment_movements_of_def\<close>)
qed simp_all

lemma attribute_receipt_step:
  assumes "attribute_receipt env jid n t evidence p = Inr (rp, p')"
  shows "step_of {Rounds, Deposits} p p'"
  using assms
proof (cases rule: attribute_receipt_cases)
  case (old r q0)
  then obtain u where saved: "save_transfer t q0 = Inr (u, p')" by auto
  obtain ci ts where "p' = q0\<lparr>custody_identity := ci, transfers := ts\<rparr>" using save_transfer_effect(3) [OF saved] by blast
  then obtain ci ts where p': "p' = p\<lparr>custody_identity := ci, transfers := ts\<rparr>" using bind_frame [OF old(5)] by auto
  have kept: "part_kept x p p'" if "x \<notin> {Rounds, Deposits}" for x using that unfolding p' by (cases x) (simp_all add: part_kept_defs)
  show ?thesis by (rule step_of_rows [OF _ kept]) (simp_all add: p')
next
  case (new r q0 u q earnings d q')
  obtain ci ts where "q = q0\<lparr>custody_identity := ci, transfers := ts\<rparr>" using save_transfer_effect(3) [OF new(4)] by blast
  then obtain ci ts where q: "q = p\<lparr>custody_identity := ci, transfers := ts\<rparr>" using bind_frame [OF new(3)] by auto
  obtain led ats where q': "q' = q\<lparr>ledger := led, transfer_attributions := ats\<rparr>" using attribute_frame [OF new(10)] by blast
  have "ledger_by deposit_keys (\<lambda>k. k = ''unattributed:TIG'' \<or> k = pot r) (ledger q) (ledger q')"
    using new(10)
    by (cases rule: attribute_cases) (auto simp: by_nothing deposit_keys_def intro!: ledger_by_posted split: if_splits)
  then have led: "ledger_by deposit_keys (\<lambda>k. k = ''unattributed:TIG'' \<or> k = pot r) (ledger p) (ledger p')"
    by (simp add: new(12) q)
  show ?thesis
  proof (rule step_ofI [OF led])
    show "usable_key {Rounds, Deposits} k" if "deposit_keys k" for k using that by (auto simp: usable_key_def)
    show "usable_fund {Rounds, Deposits} k" if "k = ''unattributed:TIG'' \<or> k = pot r" for k
      using that round_names(2,5) [where own = "{Rounds, Deposits}"] by auto
    show "part_kept x p p'" if "x \<notin> {Rounds, Deposits}" for x
      using that unfolding new(12) q' q by (cases x) (simp_all add: part_kept_defs)
  qed
qed

section \<open>The custody observer\<close>

lemma part_kept_trans: "part_kept x p q \<Longrightarrow> part_kept x q r \<Longrightarrow> part_kept x p r"
  by (cases x) (auto simp: part_kept_defs same_members_def intro: same_creation_trans)

lemma step_of_trans:
  assumes "step_of own p q" and "step_of own q r"
  shows "step_of own p r"
proof -
  obtain K A where 1: "ledger_by K A (ledger p) (ledger q)" "\<And>x. x \<notin> own \<Longrightarrow> part_kept x p q \<and> (\<forall>k. K k \<longrightarrow> \<not> part_keys x k) \<and>
      (\<forall>k. A k \<longrightarrow> \<not> part_funds x k)" using assms(1) unfolding step_of_def by blast
  obtain K' A' where 2: "ledger_by K' A' (ledger q) (ledger r)" "\<And>x. x \<notin> own \<Longrightarrow> part_kept x q r \<and> (\<forall>k. K' k \<longrightarrow> \<not> part_keys x k) \<and>
      (\<forall>k. A' k \<longrightarrow> \<not> part_funds x k)" using assms(2) unfolding step_of_def by blast
  have "ledger_by (\<lambda>k. K k \<or> K' k) (\<lambda>k. A k \<or> A' k) (ledger p) (ledger r)"
    by (rule ledger_by_trans [OF ledger_by_weaken [OF 2(1)] ledger_by_weaken [OF 1(1)]]) simp_all
  moreover have "part_kept x p r \<and> (\<forall>k. K k \<or> K' k \<longrightarrow> \<not> part_keys x k) \<and> (\<forall>k. A k \<or> A' k \<longrightarrow> \<not> part_funds x k)" if "x \<notin> own" for x
    using 1(2) [OF that] 2(2) [OF that] part_kept_trans by blast
  ultimately show ?thesis unfolding step_of_def by blast
qed

lemma step_of_part_ok:
  assumes "step_of own p p'" and "x \<notin> own" and "part_ok x p"
  shows "part_ok x p'"
  using assms part.frame [of x p _ _ p'] unfolding step_of_def by blast

definition observer_step :: "pool \<Rightarrow> pool \<Rightarrow> bool" where
  "observer_step p p' \<longleftrightarrow> step_of {Cursor, Deposits} p p' \<and> (deposits_ok p \<longrightarrow> deposits_ok p')"

lemma observer_step_trans: "observer_step p q \<Longrightarrow> observer_step q r \<Longrightarrow> observer_step p r"
  unfolding observer_step_def by (blast intro: step_of_trans)

lemma observer_step_refl [simp]: "observer_step p p"
  by (simp add: observer_step_def)

lemma step_of_mono: "step_of own p p' \<Longrightarrow> own \<subseteq> own' \<Longrightarrow> step_of own' p p'"
  unfolding step_of_def by blast

lemma observer_step_cursor: "step_of {Cursor} p p' \<Longrightarrow> observer_step p p'"
  using step_of_part_ok [of "{Cursor}" p p' Deposits] by (auto simp: observer_step_def intro: step_of_mono)

lemma observer_step_deposits: "step_of {Deposits} p p' \<Longrightarrow> (deposits_ok p \<Longrightarrow> deposits_ok p') \<Longrightarrow> observer_step p p'"
  by (auto simp: observer_step_def intro: step_of_mono)

lemma cursor_rows_step: "p' = p\<lparr>custody_identity := ci, custody_checks := cs, chain_log := cl, chain_stream := st\<rparr> \<Longrightarrow> observer_step p p'"
  by (intro observer_step_cursor step_of_rows, simp, case_tac x) (simp_all add: part_kept_defs)

lemma save_capture_observer: "observer_step p (snd (save_capture env data p))"
  by (rule cursor_rows_step [where ci = "custody_identity p" and cs = "custody_checks p" and st = "chain_stream p" and
        cl = "chain_log (snd (save_capture env data p))"]) (simp add: save_capture_def Let_def)

lemma record_failure_observer: "observer_step p (record_failure env i reason critical p)"
  by (rule cursor_rows_step [where ci = "custody_identity p" and cs = "custody_checks (record_failure env i reason critical p)" and
        st = "chain_stream p" and cl = "chain_log (record_failure env i reason critical p)"]) (simp add: record_failure_def)

lemma book_transfer_observer:
  assumes "book_transfer env i j net t p = (r, p')"
  shows "observer_step p p'"
proof (cases r)
  case (Inl e)
  then show ?thesis using assms by (simp add: book_transfer_def commit_Inl)
next
  case (Inr u)
  show ?thesis
  proof (cases "tf_recipient t = net_custody net \<and> tf_sender t \<noteq> net_custody net")
    case True
    then obtain d where d: "receive env i j t p = Inr (d, p')" using assms Inr by (auto simp: book_transfer_def commit_Inr bindE_Inr)
    show ?thesis by (rule observer_step_deposits [OF receive_step [OF d] deposits_ok_receive [OF _ d]])
  next
    case False
    then obtain new where new: "save_transfer t p = Inr (new, p')" using assms Inr by (auto simp: book_transfer_def commit_Inr bindE_Inr)
    show ?thesis by (rule observer_step_deposits [OF save_transfer_step [OF new] deposits_ok_save_transfer [OF _ new]])
  qed
qed

lemma book_transfers_observer: "book_transfers env ids n net ts p = (r, p') \<Longrightarrow> observer_step p p'"
proof (induction ts arbitrary: n p)
  case (Cons t ts)
  obtain u q where q: "book_transfer env (ids n) (ids (n + 1)) net t p = (u, q)" by (metis surj_pair)
  from Cons.prems q consider "p' = q" | "book_transfers env ids (n + 2) net ts q = (r, p')" by (auto split: sum.splits)
  then show ?case using Cons.IH observer_step_trans book_transfer_observer [OF q] by cases blast+
qed simp

lemma conclude_observer: "conclude identity rg p = Inr (report, p') \<Longrightarrow> observer_step p p'"
  by (erule conclude_Inr) (rule cursor_rows_step)

lemma observe_observer:
  assumes "observe env ids identity rg p = (r, p')"
  shows "observer_step p p'"
proof -
  obtain u q where q: "book_transfers env ids 2 (rg_network rg) (rg_transfers rg) p = (u, q)" by (metis surj_pair)
  from assms q consider "p' = p" | "p' = q" | report where "conclude identity rg q = Inr (report, p')"
    by (auto simp: observe_def commit_def split: sum.splits option.splits)
  then show ?thesis
  proof cases
    case 3
    from observer_step_trans [OF book_transfers_observer [OF q] conclude_observer [OF 3]] show ?thesis .
  qed (simp_all add: book_transfers_observer [OF q])
qed

lemma open_asset_observer:
  assumes "open_asset env j identity rg o' a n p = Inr (x, p')"
  shows "observer_step p p'"
proof -
  have account: "observer_step p q" if "on_ledger (account k kind a loc) p = Inr (x, q)" for p q k kind a loc x
    using that by (intro observer_step_cursor step_of_ledger [where led = "ledger q" and K = "\<lambda>_. False" and A = "\<lambda>_. False"])
      (auto simp: on_ledger_Inr intro: ledger_by_opened)
  obtain k q1 l q2 where 1: "on_ledger (account (''operator:custody:'' @ asset_text a) KOperator a Custody) p = Inr (k, q1)"
    and 2: "on_ledger (account (''external:custody:'' @ asset_text a) KExternal a Custody) q1 = Inr (l, q2)"
    using assms unfolding open_asset_def Let_def bindE_Inr split_paired_Ex prod.case by blast
  have "observer_step q2 p'"
  proof (cases "n = 0")
    case True
    then show ?thesis using assms 1 2 by (simp add: open_asset_def Let_def)
  next
    case False
    have names: "common_funds (''external:custody:'' @ asset_text a)" "common_funds (''operator:custody:'' @ asset_text a)"
      by (cases a; simp add: common_funds_def)+
    obtain ek kind det led jj where "post env j (''custody-opening:'' @ ek) kind [(''external:custody:'' @ asset_text a, - n), (''operator:custody:'' @ asset_text a, n)]
        det None (ledger q2) = Inr (jj, led)" and p': "p' = q2\<lparr>ledger := led\<rparr>"
      using assms 1 2 False by (auto simp: open_asset_def Let_def bindE_Inr on_ledger_Inr)
    then have led: "ledger_by (\<lambda>k. k = ''custody-opening:'' @ ek) common_funds (ledger q2) led" using names by (intro ledger_by_posted) auto
    have "step_of {Cursor} q2 p'"
    proof (rule step_of_ledger [OF p' led])
      show "usable_key {Cursor} k" if "k = ''custody-opening:'' @ ek" for k unfolding that by (rule free_key) (rule native_key_free(4))
    qed (simp add: usable_fund_def)
    then show ?thesis by (rule observer_step_cursor)
  qed
  with account [OF 1] account [OF 2] show ?thesis by (blast intro: observer_step_trans)
qed

lemma open_stream_observer:
  assumes "open_stream env ids identity rg o' p = Inr (u, p')"
  shows "observer_step p p'"
proof (cases "chain_stream p = None")
  case True
  have initial: "bindE (opening_guards rg o' p) (\<lambda>_. bindE (bind (rg_network rg) p) (\<lambda>(_, p).
      if backing (ledger p) AssetTIG Custody \<noteq> 0 \<or> backing (ledger p) AssetNATIVE Custody \<noteq> 0
      then Inl (Conflict ''custody opening baseline requires an empty internal custody ledger'') else
      bindE (open_asset env (ids 0) identity rg o' AssetTIG (wb_tig (rg_opening rg)) p) (\<lambda>(j1, p).
      bindE (open_asset env (ids 1) identity rg o' AssetNATIVE (wb_native (rg_opening rg)) p) (\<lambda>(j2, p).
        let p = p\<lparr>chain_stream := Some (opened_stream rg)\<rparr> in
        if \<not> is_baseline (rg_opening rg) o' then Inr ((), p)
        else if custody_opening_baselines (chain_of p) \<noteq> [] \<or> only_spaces (or_actor o') \<or> only_spaces (or_reason o') then Inl (IntegrityError ''custody_opening_baselines'')
        else Inr ((), p\<lparr>chain_log := (chain_of p)\<lparr>custody_opening_baselines := [baseline_row identity rg o' (j1 @ j2)]\<rparr>\<rparr>))))) = Inr (u, p')"
    using assms unfolding open_stream_def by (simp only: True simp_thms if_False)
  obtain v q j1 q1 j2 q2 where b: "bind (rg_network rg) p = Inr (v, q)"
    and 1: "open_asset env (ids 0) identity rg o' AssetTIG (wb_tig (rg_opening rg)) q = Inr (j1, q1)"
    and 2: "open_asset env (ids 1) identity rg o' AssetNATIVE (wb_native (rg_opening rg)) q1 = Inr (j2, q2)"
    and rest: "(let p = q2\<lparr>chain_stream := Some (opened_stream rg)\<rparr> in
        if \<not> is_baseline (rg_opening rg) o' then Inr ((), p)
        else if custody_opening_baselines (chain_of p) \<noteq> [] \<or> only_spaces (or_actor o') \<or> only_spaces (or_reason o') then Inl (IntegrityError ''custody_opening_baselines'')
        else Inr ((), p\<lparr>chain_log := (chain_of p)\<lparr>custody_opening_baselines := [baseline_row identity rg o' (j1 @ j2)]\<rparr>\<rparr>)) = Inr (u, p')"
    using initial unfolding bindE_Inr raise_if_Inr split_paired_Ex prod.case by blast
  have p': "\<exists>bl. p' = q2\<lparr>chain_stream := Some (opened_stream rg), chain_log := bl\<rparr>"
    using rest by (cases "is_baseline (rg_opening rg) o'") (auto simp: Let_def split: if_splits intro: exI [of _ "chain_log q2"])
  obtain ci where "q = p\<lparr>custody_identity := ci\<rparr>" using bind_frame [OF b] by blast
  then have "observer_step p q" by (intro cursor_rows_step [where cs = "custody_checks p" and cl = "chain_log p" and st = "chain_stream p" and ci = ci]) simp
  moreover obtain bl where "p' = q2\<lparr>chain_stream := Some (opened_stream rg), chain_log := bl\<rparr>" using p' by blast
  then have "observer_step q2 p'" by (intro cursor_rows_step [where cs = "custody_checks q2" and ci = "custody_identity q2" and cl = bl and st = "Some (opened_stream rg)"]) simp
  ultimately show ?thesis using open_asset_observer [OF 1] open_asset_observer [OF 2] by (blast intro: observer_step_trans)
qed (use assms in \<open>simp add: open_stream_def\<close>)

lemma record_chain_observer:
  assumes "record_chain env ids data o' p = (r, p')"
  shows "observer_step p p'"
  using assms
proof (cases rule: record_chain_cases)
  case (refused e)
  then show ?thesis using save_capture_observer record_failure_observer observer_step_trans by metis
next
  case (opened rg q e reason critical s)
  then show ?thesis
    using save_capture_observer open_stream_observer [OF opened(3)] observe_observer [OF opened(4)] record_failure_observer observer_step_trans by metis
next
  case (observed rg q report)
  then show ?thesis
    using save_capture_observer open_stream_observer [OF observed(3)] observe_observer [OF observed(4)] observer_step_trans by metis
qed

section \<open>Operations without money\<close>

text \<open>What the invariants of all parts read of the store.\<close>

definition same_accounting :: "pool \<Rightarrow> pool \<Rightarrow> bool" where
  "same_accounting p p' \<longleftrightarrow> ledger p' = ledger p \<and> members p' = members p \<and> multiplier_changes p' = multiplier_changes p \<and>
     transfers p' = transfers p \<and> transfer_attributions p' = transfer_attributions p \<and> reservations p' = reservations p \<and>
     withdrawals p' = withdrawals p \<and> withdrawal_attempts p' = withdrawal_attempts p \<and>
     withdrawal_attempt_outcomes p' = withdrawal_attempt_outcomes p \<and> protocol_topups p' = protocol_topups p \<and>
     protocol_topup_credits (topup_tables p') = protocol_topup_credits (topup_tables p) \<and>
     booking_rows (booked p') = booking_rows (booked p) \<and> chain_stream p' = chain_stream p \<and> chain_log p' = chain_log p"

lemma idle_step: "same_accounting p p' \<Longrightarrow> step_of own p p'"
  by (intro step_of_rows, simp add: same_accounting_def, case_tac x) (simp_all add: same_accounting_def part_kept_defs)

lemma same_accounting_refl [simp]: "same_accounting p p"
  by (simp add: same_accounting_def)

lemma idle_rows:
  "same_accounting p (p\<lparr>observations := o'\<rparr>)" "same_accounting p (p\<lparr>spending_caps := c\<rparr>)"
  "same_accounting p (p\<lparr>new_work_paused := w, runtime_control_events := e\<rparr>)" "same_accounting p (p\<lparr>pilot_limits := l\<rparr>)"
  "same_accounting p (p\<lparr>pilot_phases := h\<rparr>)" "same_accounting p (p\<lparr>work := s\<rparr>)"
  "same_accounting p (p\<lparr>benchmark_progress := g\<rparr>)" "same_accounting p (p\<lparr>benchmark_payloads := b\<rparr>)"
  by (simp_all add: same_accounting_def)

lemma set_cap_idle: "set_cap env k a b c d limits p = Inr (r, p') \<Longrightarrow> same_accounting p p'"
  by (auto simp: set_cap_def bindE_Inr Let_def idle_rows split: if_splits option.splits)

lemma set_pause_idle: "set_pause a b c d p = Inr (r, p') \<Longrightarrow> same_accounting p p'"
  by (cases a) (auto simp: set_pause_def bindE_Inr Let_def idle_rows split: if_splits option.splits)

lemma extend_idle: "Pilot.extend a b c d p = Inr (r, p') \<Longrightarrow> same_accounting p p'"
  unfolding Pilot.extend_def raise_if_Inr bindE_Inr
  by (elim conjE exE) (auto simp: Let_def idle_rows raise_if_Inr bindE_Inr split: option.splits prod.splits)

lemma pilot_initialize_idle: "initialize a b p = Inr (r, p') \<Longrightarrow> same_accounting p p'"
  by (auto simp: initialize_def bindE_Inr Let_def idle_rows split: if_splits option.splits)

lemma initialize_stream_idle: "initialize_stream h p = Inr (u, p') \<Longrightarrow> same_accounting p p'"
  by (cases h) (auto simp: initialize_stream_def bindE_Inr Let_def idle_rows split: if_splits option.splits)

lemma advance_idle: "same_accounting p (advance h p)"
  by (auto simp: advance_def Let_def idle_rows split: if_splits option.splits)

lemma set_gap_policy_idle: "set_gap_policy a b c d p = Inr (r, p') \<Longrightarrow> same_accounting p p'"
  unfolding set_gap_policy_def raise_if_Inr bindE_Inr Let_def by (elim conjE exE) (simp add: idle_rows split: if_splits, auto simp: idle_rows)

lemma waive_gap_idle: "waive_prelaunch_gap a b c d p = Inr (r, p') \<Longrightarrow> same_accounting p p'"
  unfolding waive_prelaunch_gap_def raise_if_Inr bindE_Inr Let_def
  by (elim conjE exE) (auto simp: idle_rows bindE_Inr split: if_splits option.splits prod.splits)

lemma book_credit_idle: "book_credit env a b owned credits n p = Inr (r, p') \<Longrightarrow> same_accounting p p'"
  unfolding book_credit_def Let_def raise_if_Inr
  by (auto simp: idle_rows split: if_splits option.splits prod.splits)

lemma credit_block_idle: "credit_block env a b p = Inr (r, p') \<Longrightarrow> same_accounting p p'"
  unfolding credit_block_def bindE_Inr split_paired_Ex prod.case by (elim exE conjE) (rule book_credit_idle)

text \<open>Reports of a round are rows of their own.\<close>

lemma report_rows_idle: "booking_rows t = booking_rows (booked p) \<Longrightarrow> same_accounting p (p\<lparr>rounds := t\<rparr>)"
  by (simp add: same_accounting_def)

lemma booking_rows_facts [simp]: "booking_rows (confirm_facts i f t) = booking_rows t" "booking_rows (add_reporting_rounds i r ids t) = booking_rows t"
  by (simp_all add: booking_rows_def confirm_facts_def add_reporting_rounds_def)

lemma booking_rows_reports [simp]:
  "booking_rows (t\<lparr>report_captures := a\<rparr>) = booking_rows t" "booking_rows (t\<lparr>report_index_captures := b\<rparr>) = booking_rows t"
  "booking_rows (t\<lparr>round_report_scopes := c\<rparr>) = booking_rows t" "booking_rows (t\<lparr>round_report_seals := d\<rparr>) = booking_rows t"
  by (simp_all add: booking_rows_def)

lemma report_scope_idle: "report_scope n rs v e p = Inr (u, p') \<Longrightarrow> same_accounting p p'"
  unfolding report_scope_def bindE_Inr raise_if_Inr by (elim exE conjE) (auto intro: report_rows_idle split: option.splits if_splits)

lemma record_reports_idle: "record_reports env i r b payload metadata e p = Inr (c, p') \<Longrightarrow> same_accounting p p'"
  unfolding record_reports_def Let_def bindE_Inr split_paired_Ex prod.case
  by (elim exE conjE) (auto intro!: report_rows_idle split: option.splits)

lemma found_or_indexed:
  assumes "(case x of None \<Rightarrow> bindE e (\<lambda>e. Inr (g e, p\<lparr>rounds := (if h e then add_reporting_rounds i r owned (t e) else t e)\<rparr>)) | Some c \<Rightarrow> Inr (f c, p)) = Inr (c, p')"
    and "\<And>e. booking_rows (t e) = booking_rows (booked p)"
  shows "same_accounting p p'"
  using assms by (auto simp: bindE_Inr intro!: report_rows_idle split: option.splits)

lemma record_index_idle: "record_index env i r b player challenge payload metadata e p = Inr (c, p') \<Longrightarrow> same_accounting p p'"
  unfolding record_index_def Let_def bindE_Inr [of "units a b" for a b] bindE_Inr [of "anchor_height a b" for a b] bindE_Inr [of "read_index a b" for a b]
    split_paired_Ex prod.case
  by (elim exE conjE) (erule found_or_indexed, simp)

lemma confirmation_round_idle:
  assumes "record_confirmation_round env i b h block p = Inr (c, p')"
  shows "same_accounting p p'"
  using assms record_index_idle unfolding record_confirmation_round_def bindE_Inr
  by (fastforce simp: bindE_Inr split: option.splits if_splits)

lemma seal_idle: "seal env i n ids block p = Inr (s, p') \<Longrightarrow> same_accounting p p'"
  unfolding seal_def Let_def bindE_Inr raise_if_Inr by (elim exE conjE) (auto simp: bindE_Inr intro: report_rows_idle split: option.splits if_splits)

lemma starter_step:
  assumes "starter_initialize env jid capture_id player_id actor p = Inr (r, p')"
  shows "step_of {} p p'"
proof -
  obtain player where "address player_id = Inr player" using assms by (auto simp: starter_initialize_def bindE_Inr)
  with assms consider "p' = p" | i det j q f where "on_ledger (post env i (''protocol-opening:'' @ SOURCE) ''operator_testnet_starter_credit'' starter_movements det None) p = Inr (j, q)"
      "p' = q\<lparr>topup_funding := f\<rparr>" "protocol_topup_credits f = protocol_topup_credits (topup_tables q)"
    by (cases "lookup oc_source SOURCE (protocol_opening_credits (topup_tables p))")
      (auto simp: starter_initialize_def bindE_Inr Let_def split: if_splits)
  then show ?thesis
  proof cases
    case 2
    obtain led where post: "post env i (''protocol-opening:'' @ SOURCE) ''operator_testnet_starter_credit'' starter_movements det None (ledger p) = Inr (j, led)"
      and q: "q = p\<lparr>ledger := led\<rparr>" using 2(1) by (auto simp: on_ledger_Inr)
    have p': "p' = p\<lparr>ledger := led, custody_identity := custody_identity p, chain_transactions := chain_transactions p, topup_funding := f\<rparr>"
      by (simp add: 2(2) q)
    show ?thesis
    proof (rule step_of_post)
      show "post env i (''protocol-opening:'' @ SOURCE) ''operator_testnet_starter_credit'' starter_movements det None (ledger p) = Inr (j, ledger p')"
        using post by (simp add: 2(2) q)
      show "usable_key {} (''protocol-opening:'' @ SOURCE)" by (rule free_key) (rule native_key_free(3))
      show "part_kept x p p'" for x by (rule custody_rows_kept [OF p']) (use 2(3) in \<open>simp add: q\<close>)
    qed (auto simp: usable_fund_def common_funds_def starter_movements_def OPERATOR_FEES_def)
  qed simp
qed

lemma receive_internal_step:
  assumes "receive_internal env jid r actor p = Inr (u, p')"
  shows "step_of {} p p'"
proof -
  obtain v q0 w q where b: "bind (tx_network (nr_transaction r)) p = Inr (v, q0)" and s: "save_transaction (nr_transaction r) q0 = Inr (w, q)"
    and rest: "p' = q \<or> (\<exists>f ek det j. protocol_topup_credits f = protocol_topup_credits (topup_tables q) \<and>
      on_ledger (post env jid (''native-internal-receipt:'' @ ek) ''operator_native_funding'' (internal_movements r) det None) (q\<lparr>topup_funding := f\<rparr>) = Inr (j, p'))"
    using assms unfolding receive_internal_def Let_def bindE_Inr raise_if_Inr split_paired_Ex prod.case
    by (elim exE conjE) (rule that, assumption, assumption, auto simp: bindE_Inr split: option.splits if_splits)
  obtain ci ts where "q = p\<lparr>custody_identity := ci, chain_transactions := ts\<rparr>" using bind_frame [OF b] save_transaction_rows [OF s] by auto
  then have q: "q = p\<lparr>custody_identity := ci, chain_transactions := ts, topup_funding := topup_tables p\<rparr>" by simp
  from rest show ?thesis
  proof (elim disjE exE conjE)
    assume "p' = q"
    have "part_kept x p q" for x by (rule custody_rows_kept [where led = "ledger p"]) (simp_all add: q)
    then have "step_of {} p q" by (intro step_of_rows) (simp_all add: q)
    then show ?thesis using \<open>p' = q\<close> by simp
  next
    fix f ek det j
    assume f: "protocol_topup_credits f = protocol_topup_credits (topup_tables q)"
      and run: "on_ledger (post env jid (''native-internal-receipt:'' @ ek) ''operator_native_funding'' (internal_movements r) det None) (q\<lparr>topup_funding := f\<rparr>) = Inr (j, p')"
    show ?thesis
    proof (rule custody_post_step [OF _ _ run native_key_free(2)])
      show "q\<lparr>topup_funding := f\<rparr> = p\<lparr>custody_identity := ci, chain_transactions := ts, topup_funding := f\<rparr>" by (simp add: q)
      show "protocol_topup_credits f = protocol_topup_credits (topup_tables p)" using f by (simp add: q)
    qed (rule common_native [of _ "nr_amount r"], simp add: internal_movements_def)
  qed
qed

end
