(* ===== verification/Selection.thy ===== *)
theory Selection
  imports Coverage
begin

text \<open>
  \<open>pool_manager/pool_v2/selection.py\<close>: choosing the work of a member from one validated block. The
  challenge is one in which the pool has the fewest qualifiers, the algorithm one with the highest
  adoption, and the hyperparameters of each track are those of the best bundle of the network. The
  random choice among ties (\<open>secrets.SystemRandom().choice\<close>) is the parameter \<open>pick\<close>.
\<close>

section \<open>Failures\<close>

text \<open>\<open>NoCompatibleWork\<close> is the failure the queue goes on after; any other is kept as it is.\<close>

datatype selection_error = NoCompatibleWork string | Failed error

definition work_or :: "'a result \<Rightarrow> selection_error + 'a" where
  "work_or m = (case m of Inl e \<Rightarrow> Inl (Failed e) | Inr x \<Rightarrow> Inr x)"

lemma work_or_Inr [outcome]: "work_or m = Inr x \<longleftrightarrow> m = Inr x"
  by (auto simp: work_or_def split: sum.splits)

definition COMPUTE_FAMILIES :: "(string \<times> string) list" where
  "COMPUTE_FAMILIES = [(''aws_t3'', ''CPU''), (''aws_t3a'', ''CPU''), (''aws_t4g'', ''CPU''), (''aws_c7i'', ''CPU''),
     (''aws_c7a'', ''CPU''), (''aws_c7g'', ''CPU''), (''aws_m7i'', ''CPU''), (''aws_m7a'', ''CPU''), (''aws_m7g'', ''CPU''),
     (''aws_g4dn'', ''GPU'')]"

definition compatible :: "string \<Rightarrow> string \<Rightarrow> bool" where
  "compatible resource compute_type \<longleftrightarrow> resource \<in> {''CPU'', ''GPU''} \<and> map_of COMPUTE_FAMILIES compute_type = Some resource"

text \<open>\<open>_precise\<close>: the units as decimal digits.\<close>

definition p_precise :: "json \<Rightarrow> string \<Rightarrow> int result" where
  "p_precise value label =
     (case value of
        JStr s \<Rightarrow> if s \<noteq> [] \<and> list_all is_digit s then Inr (int (text_value s))
                  else malformed (label @ '': expected exact nonnegative units'')
      | _ \<Rightarrow> malformed (label @ '': expected exact nonnegative units''))"

lemma p_precise_nonneg: "p_precise v label = Inr n \<Longrightarrow> 0 \<le> n"
  by (auto simp: p_precise_def split: json.splits if_splits)

section \<open>References\<close>

record reference_index =
  ri_block_id :: string
  ri_values :: "((string \<times> string) \<times> scored_bundle) list"
  ri_height :: "int option"
  ri_timestamp :: "int option"
  ri_capture_id :: "string option"
  ri_digest :: "string option"
  ri_hyperparameters :: "((string \<times> string) \<times> json) list option"

definition own_index :: "string \<Rightarrow> ((string \<times> string) \<times> scored_bundle) list \<Rightarrow> reference_index" where
  "own_index block_id bundles =
     \<lparr>ri_block_id = block_id, ri_values = bundles, ri_height = None, ri_timestamp = None, ri_capture_id = None, ri_digest = None,
      ri_hyperparameters = None\<rparr>"

definition external :: "reference_index \<Rightarrow> bool" where
  "external index \<longleftrightarrow> ri_capture_id index \<noteq> None"

definition reference_order :: "scored_bundle \<Rightarrow> int \<times> string \<times> int" where
  "reference_order b = (- bu_quality b, bu_benchmark_id b, bu_active_index b)"

text \<open>One pass over the bundles; a strictly better one replaces the entry of its algorithm and track.\<close>

definition add_reference :: "scored_bundle \<Rightarrow> ((string \<times> string) \<times> scored_bundle) list \<Rightarrow> ((string \<times> string) \<times> scored_bundle) list" where
  "add_reference b best =
     (let key = (bu_algorithm_id b, bu_track_id b) in
      case map_of best key of
        None \<Rightarrow> best @ [(key, b)]
      | Some previous \<Rightarrow> if reference_order b < reference_order previous then AList.update key b best else best)"

definition references :: "snapshot \<Rightarrow> reference_index" where
  "references s =
     (case sn_selection_references s of
        Some known \<Rightarrow> own_index (sn_block_id s) (map (\<lambda>(key, b, _). (key, b)) known)
      | None \<Rightarrow> own_index (sn_block_id s) (fold add_reference (sn_bundles s) []))"

section \<open>Candidates\<close>

text \<open>Whether an algorithm of the challenge can be run: active, not banned, and with a usable binary.\<close>

definition usable_algorithm :: "snapshot \<Rightarrow> (string \<times> json) list \<Rightarrow> string \<Rightarrow> string \<times> json \<Rightarrow> bool result" where
  "usable_algorithm s binaries challenge_id a =
     (let (identity, algorithm) = a in
      bindE (path algorithm [''details'', ''challenge_id'']) (\<lambda>challenge.
      if challenge \<noteq> JStr challenge_id then Inr False else
      bindE (subscript algorithm ''state'') (\<lambda>state.
      bindE (subscript state ''banned'') (\<lambda>banned.
      case banned of
        JBool b \<Rightarrow>
          if b then Inr False else
          bindE (subscript state ''round_active'') (\<lambda>active.
          if active = JNull then Inr False else
          bindE (p_integer active ''algorithm activation'' 1) (\<lambda>active.
          if active > sn_round s then Inr False else
          case map_of binaries identity of
            None \<Rightarrow> malformed ''active algorithm is missing binary metadata''
          | Some binary \<Rightarrow>
              bindE (path binary [''details'', ''compile_success'']) (\<lambda>compiled.
              if compiled \<noteq> JBool True then Inr False else
              bindE (bindE (path binary [''state'', ''block_confirmed'']) (\<lambda>v. p_integer v ''binary confirmation'' 0)) (\<lambda>confirmed.
              if confirmed > sn_height s then malformed ''binary metadata comes from after this snapshot'' else
              bindE (bindE (path binary [''details'', ''download_url'']) (\<lambda>v. p_text v ''algorithm binary URL'')) (\<lambda>_. Inr True)))))
      | _ \<Rightarrow> malformed ''algorithm ban status is unknown''))))"

fun usable_algorithms :: "snapshot \<Rightarrow> (string \<times> json) list \<Rightarrow> string \<Rightarrow> (string \<times> json) list \<Rightarrow> string list result" where
  "usable_algorithms s binaries challenge_id [] = Inr []"
| "usable_algorithms s binaries challenge_id (a # rest) =
     bindE (usable_algorithm s binaries challenge_id a) (\<lambda>ok.
     bindE (usable_algorithms s binaries challenge_id rest) (\<lambda>ids. Inr (if ok then fst a # ids else ids)))"

definition family_resource :: "string \<Rightarrow> string" where
  "family_resource family = (if family = ''cpu'' then ''CPU'' else ''GPU'')"

text \<open>Whether a challenge fits the resource, is active and has tracks.\<close>

definition open_challenge :: "snapshot \<Rightarrow> string \<Rightarrow> json \<Rightarrow> bool result" where
  "open_challenge s resource challenge =
     bindE (subscript challenge ''config'') (\<lambda>config.
     bindE (subscript config ''type'') (\<lambda>family.
     if family \<notin> {JStr ''cpu'', JStr ''gpu''} then malformed ''unknown challenge resource family''
     else if family_resource (str_of family) \<noteq> resource then Inr False else
     bindE (bindE (path challenge [''state'', ''round_active'']) (\<lambda>v. p_integer v ''challenge activation'' 1)) (\<lambda>active.
     if active > sn_round s then Inr False else
     bindE (subscript config ''active_tracks'') (\<lambda>tracks. Inr (\<not> falsy tracks)))))"

definition pool_count :: "snapshot \<Rightarrow> string \<Rightarrow> string \<Rightarrow> int" where
  "pool_count s player_id challenge_id =
     sum_list (map snd (filter (\<lambda>((player, challenge, _, _), _). player = player_id \<and> challenge = JStr challenge_id) (sn_qualifiers s)))"

definition candidate_of :: "snapshot \<Rightarrow> (string \<times> json) list \<Rightarrow> string \<Rightarrow> string \<times> json \<Rightarrow> (string \<times> string list) list result" where
  "candidate_of s binaries resource c =
     (let (challenge_id, challenge) = c in
      bindE (open_challenge s resource challenge) (\<lambda>open'.
      if \<not> open' then Inr [] else
      bindE (usable_algorithms s binaries challenge_id (sn_algorithms s)) (\<lambda>usable.
        Inr (if usable = [] then [] else [(challenge_id, usable)]))))"

definition work_candidates :: "snapshot \<Rightarrow> (string \<times> json) list \<Rightarrow> string \<Rightarrow> (string \<times> string list) list result" where
  "work_candidates s binaries resource = bindE (mapE (candidate_of s binaries resource) (sn_challenges s)) (\<lambda>cs. Inr (concat cs))"

text \<open>The keys of the smallest, and of the largest, values in sorted order.\<close>

definition least_keys :: "(string \<times> int) list \<Rightarrow> string list" where
  "least_keys counts = sort (map fst (filter (\<lambda>(_, n). n = Min (snd ` set counts)) counts))"

definition greatest_keys :: "(string \<times> int) list \<Rightarrow> string list" where
  "greatest_keys counts = sort (map fst (filter (\<lambda>(_, n). n = Max (snd ` set counts)) counts))"

section \<open>Tracks\<close>

definition check_index :: "snapshot \<Rightarrow> int \<Rightarrow> json \<Rightarrow> reference_index \<Rightarrow> unit result" where
  "check_index s now reference_max_age best =
     (if \<not> external best then
        require (ri_block_id best = sn_block_id s) (ProtocolDataError ''benchmark reference index belongs to another block'')
      else
        bindE (p_integer reference_max_age ''maximum reference age'' 1) (\<lambda>max_age.
        case ri_height best of
          None \<Rightarrow> malformed ''reference height: expected an integer >= 0''
        | Some h \<Rightarrow>
            if h < 0 then malformed ''reference height: expected an integer >= 0''
            else if h > sn_height s then malformed ''network reference comes from after the current snapshot'' else
            (case ri_timestamp best of
               None \<Rightarrow> malformed ''reference timestamp: expected an integer >= 0''
             | Some t \<Rightarrow>
                 if t < 0 then malformed ''reference timestamp: expected an integer >= 0''
                 else if now - t > max_age then malformed ''network reference is stale''
                 else if ri_hyperparameters best = None then malformed ''network reference lacks its parameters or identity''
                 else (case ri_digest best of
                         Some (c # cs) \<Rightarrow> Inr ()
                       | _ \<Rightarrow> malformed ''reference digest: expected a nonempty string''))))"

text \<open>The parameters of the best bundle: of the reference capture, of the scoped capture, or of its precommit.\<close>

definition reference_parameters :: "snapshot \<Rightarrow> reference_index \<Rightarrow> string \<times> string \<Rightarrow> scored_bundle \<Rightarrow> json result" where
  "reference_parameters s best key b =
     (if external best then
        (case ri_hyperparameters best of None \<Rightarrow> Inl TypeError
         | Some known \<Rightarrow> (case map_of known key of None \<Rightarrow> Inl KeyError | Some v \<Rightarrow> Inr v))
      else (case sn_selection_references s of
              Some known \<Rightarrow> (case map_of known key of None \<Rightarrow> Inl KeyError | Some (_, v) \<Rightarrow> Inr v)
            | None \<Rightarrow> bindE (item (sn_precommits s) (bu_benchmark_id b)) (\<lambda>precommit.
                path precommit [''details'', ''hyperparameters''])))"

record track_choice =
  tk_track_id :: string
  tk_num_bundles :: int
  tk_hyperparameters :: json
  tk_reference :: "scored_bundle option"

definition choose_track :: "snapshot \<Rightarrow> reference_index \<Rightarrow> string \<Rightarrow> int \<Rightarrow> string \<times> json \<Rightarrow> track_choice result" where
  "choose_track s best algorithm_id default_min t =
     (let (track_id, track_config) = t in
      bindE (case track_config of
               JDict items \<Rightarrow> p_integer (case dict_get ''min_num_bundles'' items of None \<Rightarrow> JInt default_min | Some v \<Rightarrow> v)
                 ''track minimum bundles'' 1
             | _ \<Rightarrow> Inl AttributeError) (\<lambda>n.
      case map_of (ri_values best) (algorithm_id, track_id) of
        None \<Rightarrow> Inr \<lparr>tk_track_id = track_id, tk_num_bundles = n, tk_hyperparameters = JNull, tk_reference = None\<rparr>
      | Some b \<Rightarrow> bindE (reference_parameters s best (algorithm_id, track_id) b) (\<lambda>parameters.
          Inr \<lparr>tk_track_id = track_id, tk_num_bundles = n, tk_hyperparameters = parameters, tk_reference = Some b\<rparr>)))"

definition active_tracks :: "json \<Rightarrow> (string \<times> json) list result" where
  "active_tracks config =
     bindE (subscript config ''active_tracks'') (\<lambda>tracks. case tracks of JDict items \<Rightarrow> Inr (sort_key fst items) | _ \<Rightarrow> Inl AttributeError)"

text \<open>The fee of a precommit with so many bundles: the configured base and a charge for each.\<close>

definition submission_fee :: "json \<Rightarrow> int \<Rightarrow> int result" where
  "submission_fee config bundles =
     bindE (bindE (subscript config ''base_fee'') (\<lambda>v. p_precise v ''base fee'')) (\<lambda>base.
     bindE (bindE (subscript config ''per_nonce_fee'') (\<lambda>v. p_precise v ''per-bundle fee'')) (\<lambda>each. Inr (base + each * bundles)))"

section \<open>The selection\<close>

record work_selection =
  sl_creation_round :: int
  sl_payload :: json
  sl_evidence :: json
  sl_base_collateral :: int
  sl_max_submission_fee :: int

definition track_payload :: "int \<Rightarrow> track_choice \<Rightarrow> string \<times> json" where
  "track_payload fuel t = (tk_track_id t, JDict [(''num_bundles'', JInt (tk_num_bundles t)), (''fuel_budget'', JInt fuel),
     (''hyperparameters'', tk_hyperparameters t)])"

definition selection_payload :: "snapshot \<Rightarrow> string \<Rightarrow> string \<Rightarrow> string \<Rightarrow> string \<Rightarrow> int \<Rightarrow> track_choice list \<Rightarrow> json" where
  "selection_payload s player_id compute_type challenge_id algorithm_id fuel tracks =
     JDict [(''settings'', JDict [(''player_id'', JStr player_id), (''block_id'', JStr (sn_block_id s)), (''challenge_id'', JStr challenge_id),
         (''algorithm_id'', JStr algorithm_id), (''track_id'', JStr [])]),
       (''track_settings'', JDict (map (track_payload fuel) tracks)), (''compute_type'', JStr compute_type)]"

definition track_evidence :: "track_choice \<Rightarrow> string \<times> json" where
  "track_evidence t = (tk_track_id t, JDict (case tk_reference t of
       None \<Rightarrow> [(''reason'', JStr ''complete-snapshot-has-no-reference'')]
     | Some b \<Rightarrow> [(''benchmark_id'', JStr (bu_benchmark_id b)), (''active_index'', JInt (bu_active_index b)), (''quality'', JInt (bu_quality b))]))"

definition capture_evidence :: "reference_index \<Rightarrow> (string \<times> json) list" where
  "capture_evidence best =
     (case ri_capture_id best of
        None \<Rightarrow> []
      | Some i \<Rightarrow> [(''reference_capture'', JDict [(''id'', JStr i), (''block_id'', JStr (ri_block_id best)),
          (''height'', JInt (the (ri_height best))), (''timestamp'', JInt (the (ri_timestamp best))), (''digest'', JStr (the (ri_digest best)))])])"

definition selection_evidence :: "snapshot \<Rightarrow> string \<Rightarrow> string \<Rightarrow> reference_index \<Rightarrow> (string \<times> int) list \<Rightarrow> string \<Rightarrow> (string \<times> int) list \<Rightarrow>
    string \<Rightarrow> string \<Rightarrow> json \<Rightarrow> track_choice list \<Rightarrow> json" where
  "selection_evidence s resource compute_type best counts challenge_id adoptions algorithm_id name binary tracks =
     JDict ([(''rule'', JStr ''least-qualifiers-overall-adoption-reference-hyperparameters-v3''),
       (''hyperparameter_policy'', JStr ''copy-best-active-bundle-v2''), (''references'', JDict (map track_evidence tracks)),
       (''block_id'', JStr (sn_block_id s)), (''height'', JInt (sn_height s)), (''round'', JInt (sn_round s)),
       (''resource'', JStr resource), (''compute_type'', JStr compute_type),
       (''pool_counts'', JDict (map (\<lambda>(k, n). (k, JInt n)) counts)), (''challenge_ties'', JList (map JStr (least_keys counts))),
       (''selected_challenge'', JStr challenge_id), (''adoption_units'', JDict (map (\<lambda>(k, n). (k, JStr (int_text n))) adoptions)),
       (''algorithm_ties'', JList (map JStr (greatest_keys adoptions))), (''selected_algorithm'', JStr algorithm_id),
       (''algorithm_name'', JStr name), (''binary'', binary)] @ capture_evidence best)"

definition adoption_of :: "snapshot \<Rightarrow> string \<Rightarrow> (string \<times> int) result" where
  "adoption_of s a =
     bindE (item (sn_algorithms s) a) (\<lambda>algorithm. bindE (path algorithm [''block_data'', ''adoption'']) (\<lambda>v.
     bindE (p_precise v ''algorithm adoption'') (\<lambda>n. Inr (a, n))))"

definition fuel_of :: "json \<Rightarrow> json option \<Rightarrow> int result" where
  "fuel_of config fuel_budget =
     bindE (bindE (subscript config ''max_fuel_budget'') (\<lambda>v. p_integer v ''maximum fuel budget'' 0)) (\<lambda>max_fuel.
     bindE (case fuel_budget of None \<Rightarrow> Inr max_fuel | Some v \<Rightarrow> p_integer v ''fuel budget'' 0) (\<lambda>fuel.
       if fuel > max_fuel then malformed ''configured fuel budget exceeds the protocol maximum'' else Inr fuel))"

text \<open>The work for a challenge and an algorithm that were picked.\<close>

definition select_work :: "snapshot \<Rightarrow> (string \<times> json) list \<Rightarrow> string \<Rightarrow> string \<Rightarrow> string \<Rightarrow> int \<Rightarrow> json option \<Rightarrow> json \<Rightarrow> reference_index option \<Rightarrow>
    (string \<times> int) list \<Rightarrow> string \<Rightarrow> (string \<times> int) list \<Rightarrow> string \<Rightarrow> work_selection result" where
  "select_work s binaries player_id resource compute_type now fuel_budget reference_max_age index counts challenge_id adoptions algorithm_id =
     bindE (bindE (item (sn_challenges s) challenge_id) (\<lambda>c. subscript c ''config'')) (\<lambda>config.
     bindE (fuel_of config fuel_budget) (\<lambda>fuel.
     bindE (bindE (subscript config ''min_num_bundles'') (\<lambda>v. p_integer v ''minimum bundles'' 1)) (\<lambda>default_min.
     let best = (case index of None \<Rightarrow> references s | Some i \<Rightarrow> i) in
     bindE (check_index s now reference_max_age best) (\<lambda>_.
     bindE (active_tracks config) (\<lambda>items.
     bindE (mapE (choose_track s best algorithm_id default_min) items) (\<lambda>tracks.
     bindE (collateral (map (JInt \<circ> tk_num_bundles) tracks) (MStr ''1'') (JInt 18)) (\<lambda>(base, _).
     bindE (if tracks = [] then Inl (ValueError ''max() arg is an empty sequence'') else Inr (Max (tk_num_bundles ` set tracks))) (\<lambda>most.
     bindE (submission_fee config most) (\<lambda>fee.
     bindE (bindE (bindE (item (sn_algorithms s) algorithm_id) (\<lambda>a. path a [''details'', ''name''])) (\<lambda>v. p_text v ''algorithm archive name'')) (\<lambda>name.
     bindE (item binaries algorithm_id) (\<lambda>binary.
       Inr \<lparr>sl_creation_round = sn_round s,
         sl_payload = selection_payload s player_id compute_type challenge_id algorithm_id fuel tracks,
         sl_evidence = selection_evidence s resource compute_type best counts challenge_id adoptions algorithm_id name binary tracks,
         sl_base_collateral = base, sl_max_submission_fee = fee\<rparr>)))))))))))"

text \<open>\<open>choose\<close>: a missing or mistyped field of the block is a protocol error.\<close>

definition fields_guarded :: "selection_error + 'a \<Rightarrow> selection_error + 'a" where
  "fields_guarded m =
     (case m of Inl (Failed e) \<Rightarrow> if e \<in> {KeyError, TypeError, AttributeError} then Inl (Failed (ProtocolDataError ''incomplete selection data'')) else m
      | _ \<Rightarrow> m)"

lemma fields_guarded_Inr [outcome]: "fields_guarded m = Inr x \<longleftrightarrow> m = Inr x"
  by (auto simp: fields_guarded_def split: sum.splits selection_error.splits)

definition choose_work :: "(string list \<Rightarrow> string) \<Rightarrow> snapshot \<Rightarrow> json \<Rightarrow> string \<Rightarrow> string \<Rightarrow> string \<Rightarrow> json \<Rightarrow> json \<Rightarrow> json option \<Rightarrow> reference_index option \<Rightarrow>
    json \<Rightarrow> selection_error + work_selection" where
  "choose_work pick s binary_rows player_id resource compute_type now max_age fuel_budget index reference_max_age =
     fields_guarded
     (if sn_scoped s \<and> index = None then Inl (Failed (ProtocolDataError ''a pool-scoped snapshot needs a whole-network reference for selection''))
      else if \<not> compatible resource compute_type then Inl (NoCompatibleWork ''offer must declare one compatible CPU/GPU verification compute type'') else
      bindE (work_or (p_integer now ''current timestamp'' 0)) (\<lambda>now.
      bindE (work_or (p_integer max_age ''maximum snapshot age'' 1)) (\<lambda>max_age.
      bindE (work_or (p_text (JStr player_id) ''pool player ID'')) (\<lambda>_.
      if sn_timestamp s > now + 5 \<or> now - sn_timestamp s > max_age
      then Inl (Failed (ProtocolDataError ''current snapshot is stale or from the future'')) else
      bindE (work_or (p_index binary_rows ''algorithm_id'' ''algorithm binaries'')) (\<lambda>binaries.
      bindE (work_or (work_candidates s binaries resource)) (\<lambda>cs.
      if cs = [] then Inl (NoCompatibleWork ''no active executable challenge fits this offer'') else
      let counts = map (\<lambda>(c, _). (c, pool_count s player_id c)) cs;
          challenge_id = pick (least_keys counts)
      in bindE (work_or (mapE (adoption_of s) (case map_of cs challenge_id of None \<Rightarrow> [] | Some ids \<Rightarrow> ids))) (\<lambda>adoptions.
         let algorithm_id = pick (greatest_keys adoptions)
         in work_or (select_work s binaries player_id resource compute_type now fuel_budget reference_max_age index counts challenge_id
              adoptions algorithm_id))))))))"

end
