(* ===== verification/References.thy ===== *)
theory References
  imports Selection
begin

text \<open>
  \<open>pool_manager/pool_v2/references.py\<close>: the whole-network references a selection copies its parameters
  from, captured apart from the credited blocks. The reads of the network (\<open>capture_snapshot\<close>) are not
  modelled: a capture starts from their observation.
\<close>

section \<open>Payloads\<close>

definition REFERENCES_FORMAT :: string where "REFERENCES_FORMAT = ''network-references-v1''"

definition BUNDLE_FIELDS :: "string list" where
  "BUNDLE_FIELDS = [''benchmark_id'', ''active_index'', ''player_id'', ''challenge_id'', ''algorithm_id'', ''track_id'', ''quality'']"

text \<open>\<open>Bundle(**row["bundle"])\<close> takes exactly the fields of a bundle.\<close>

definition reference_bundle :: "json \<Rightarrow> (string \<times> json) list result" where
  "reference_bundle r =
     (case subscript r ''bundle'' of
        Inl TypeError \<Rightarrow> malformed ''reference bundle has unexpected fields''
      | Inl e \<Rightarrow> Inl e
      | Inr v \<Rightarrow> bindE (p_object v ''reference bundle'') (\<lambda>items.
          if set (map fst items) \<noteq> set BUNDLE_FIELDS then malformed ''reference bundle has unexpected fields'' else Inr items))"

definition read_bundle :: "(string \<times> json) list \<Rightarrow> scored_bundle result" where
  "read_bundle items =
     bindE (p_text (get ''benchmark_id'' items) ''reference benchmark_id'') (\<lambda>benchmark.
     bindE (p_text (get ''player_id'' items) ''reference player_id'') (\<lambda>player.
     bindE (p_text (get ''challenge_id'' items) ''reference challenge_id'') (\<lambda>challenge.
     bindE (p_text (get ''algorithm_id'' items) ''reference algorithm_id'') (\<lambda>algorithm.
     bindE (p_text (get ''track_id'' items) ''reference track_id'') (\<lambda>track.
     bindE (p_integer (get ''active_index'' items) ''reference bundle index'' 0) (\<lambda>index.
     bindE (p_integer (get ''quality'' items) ''reference quality'' (- (2 ^ 31))) (\<lambda>quality.
       if quality \<ge> 2 ^ 31 then malformed ''reference quality exceeds int32''
       else Inr \<lparr>bu_benchmark_id = benchmark, bu_active_index = index, bu_player_id = player, bu_challenge_id = challenge,
         bu_algorithm_id = algorithm, bu_track_id = track, bu_quality = quality\<rparr>)))))))"

record network_references =
  nr_block_id :: string
  nr_height :: int
  nr_round :: int
  nr_timestamp :: int
  nr_digest :: string
  nr_values :: "((string \<times> string) \<times> scored_bundle) list"
  nr_parameters :: "((string \<times> string) \<times> json) list"

text \<open>One row of the references; an algorithm and a track occur once.\<close>

definition read_row :: "json \<Rightarrow> network_references \<Rightarrow> network_references result" where
  "read_row r n =
     bindE (bindE (reference_bundle r) read_bundle) (\<lambda>b.
       let key = (bu_algorithm_id b, bu_track_id b) in
       if key \<in> fst ` set (nr_values n) then malformed ''duplicate network reference for an algorithm and track'' else
       bindE (subscript r ''hyperparameters'') (\<lambda>v.
         case v of
           JNull \<Rightarrow> Inr (n\<lparr>nr_values := nr_values n @ [(key, b)], nr_parameters := nr_parameters n @ [(key, v)]\<rparr>)
         | JDict _ \<Rightarrow> Inr (n\<lparr>nr_values := nr_values n @ [(key, b)], nr_parameters := nr_parameters n @ [(key, v)]\<rparr>)
         | _ \<Rightarrow> malformed ''reference hyperparameters are invalid''))"

definition validate_references :: "json \<Rightarrow> network_references result" where
  "validate_references payload =
     bindE (p_object payload ''network references'') (\<lambda>items.
     if get ''format'' items \<noteq> JStr REFERENCES_FORMAT then malformed ''unknown network reference format'' else
     bindE (bindE (item items ''block'') (\<lambda>v. p_object v ''reference block'')) (\<lambda>block.
     bindE (bindE (item block ''id'') (\<lambda>v. p_text v ''reference block ID'')) (\<lambda>block_id.
     bindE (bindE (item block ''height'') (\<lambda>v. p_integer v ''reference height'' 0)) (\<lambda>height.
     bindE (bindE (item block ''round'') (\<lambda>v. p_integer v ''reference round'' 1)) (\<lambda>rnd.
     bindE (bindE (item block ''timestamp'') (\<lambda>v. p_integer v ''reference timestamp'' 0)) (\<lambda>timestamp.
     bindE (bindE (item items ''source_semantic_digest'') (\<lambda>v. p_text v ''reference source digest'')) (\<lambda>digest.
     if length digest \<noteq> 64 then malformed ''reference source digest must be a SHA-256'' else
     bindE (bindE (item items ''references'') (\<lambda>v. p_array v ''references'')) (\<lambda>rows.
       foldE read_row rows \<lparr>nr_block_id = block_id, nr_height = height, nr_round = rnd, nr_timestamp = timestamp, nr_digest = digest,
         nr_values = [], nr_parameters = []\<rparr>))))))))"

section \<open>Capturing\<close>

text \<open>\<open>len\<close> of an observed dict or list.\<close>

definition size_of :: "json \<Rightarrow> int result" where
  "size_of v = (case v of JDict items \<Rightarrow> Inr (int (length items)) | JList xs \<Rightarrow> Inr (int (length xs)) | JStr s \<Rightarrow> Inr (int (length s)) | _ \<Rightarrow> Inl TypeError)"

definition reference_row :: "snapshot \<Rightarrow> (string \<times> string) \<times> scored_bundle \<Rightarrow> json result" where
  "reference_row s kb =
     bindE (bindE (item (sn_precommits s) (bu_benchmark_id (snd kb))) (\<lambda>v. path v [''details'', ''hyperparameters''])) (\<lambda>v.
       Inr (JDict [(''bundle'', bundle_json (snd kb)), (''hyperparameters'', v)]))"

definition capture_references :: "env \<Rightarrow> string \<Rightarrow> json \<Rightarrow> json result" where
  "capture_references env pool_player_id observation =
     bindE (validate_snapshot observation) (\<lambda>s.
     bindE (mapE (reference_row s) (sort_key fst (ri_values (references s)))) (\<lambda>rows.
     bindE (semantic env s observation) (\<lambda>digest.
     bindE (bindE (subscript observation ''players'') size_of) (\<lambda>players.
       let payload = JDict [(''format'', JStr REFERENCES_FORMAT), (''pool_player_id'', JStr pool_player_id),
         (''block'', JDict [(''id'', JStr (sn_block_id s)), (''height'', JInt (sn_height s)), (''round'', JInt (sn_round s)),
            (''timestamp'', JInt (sn_timestamp s))]),
         (''source_semantic_digest'', JStr digest),
         (''network'', JDict [(''players'', JInt players), (''active_benchmarks'', JInt (int (length (sn_precommits s)))),
            (''bundles'', JInt (int (length (sn_bundles s))))]),
         (''references'', JList rows)]
       in bindE (validate_references payload) (\<lambda>_. Inr payload)))))"

section \<open>Storing and reading\<close>

record recorded_reference =
  rr_id :: string
  rr_digest :: string
  rr_new :: bool
  rr_height :: int

definition reference_payload_digest :: "env \<Rightarrow> json \<Rightarrow> string" where
  "reference_payload_digest env payload = sha256 env (canonical payload)"

definition record_references :: "env \<Rightarrow> string \<Rightarrow> json \<Rightarrow> json \<Rightarrow> pool \<Rightarrow> (recorded_reference \<times> pool) result" where
  "record_references env new_id payload metadata p =
     bindE (validate_references payload) (\<lambda>n.
       let digest = reference_payload_digest env payload in
       case List.find (\<lambda>r. rk_block_id r = nr_block_id n \<and> rk_payload_sha256 r = digest) (reference_captures (work p)) of
         Some previous \<Rightarrow> Inr (\<lparr>rr_id = rk_id previous, rr_digest = digest, rr_new = False, rr_height = nr_height n\<rparr>, p)
       | None \<Rightarrow>
           if lookup rk_id new_id (reference_captures (work p)) \<noteq> None then Inl (IntegrityError ''reference_captures'')
           else Inr (\<lparr>rr_id = new_id, rr_digest = digest, rr_new = True, rr_height = nr_height n\<rparr>,
             p\<lparr>work := (work p)\<lparr>reference_captures := reference_captures (work p) @
               [\<lparr>rk_id = new_id, rk_block_id = nr_block_id n, rk_height = nr_height n, rk_round = nr_round n,
                 rk_block_timestamp = nr_timestamp n, rk_source_semantic_digest = nr_digest n, rk_payload_sha256 = digest,
                 rk_payload = payload, rk_metadata = (if falsy metadata then JDict [] else metadata), rk_created_at = clock env,
                 rk_expired_at = None\<rparr>]\<rparr>\<rparr>))"

text \<open>The newest capture that is young enough, checked against its row.\<close>

definition latest_references :: "env \<Rightarrow> json \<Rightarrow> json \<Rightarrow> pool \<Rightarrow> reference_index option result" where
  "latest_references env now max_age p =
     bindE (p_integer now ''current timestamp'' 0) (\<lambda>now.
     bindE (p_integer max_age ''maximum reference age'' 1) (\<lambda>max_age.
     case latest_by (\<lambda>r. (rk_height r, rk_created_at r))
            (filter (\<lambda>r. rk_expired_at r = None \<and> now - max_age \<le> rk_block_timestamp r) (reference_captures (work p))) of
       None \<Rightarrow> Inr None
     | Some r \<Rightarrow>
         if reference_payload_digest env (rk_payload r) \<noteq> rk_payload_sha256 r
         then malformed ''stored network reference failed its checksum'' else
         bindE (validate_references (sort_keys (rk_payload r))) (\<lambda>n.
           if (nr_block_id n, nr_height n, nr_timestamp n) \<noteq> (rk_block_id r, rk_height r, rk_block_timestamp r)
           then malformed ''stored network reference differs from its recorded block''
           else Inr (Some \<lparr>ri_block_id = rk_block_id r, ri_values = nr_values n, ri_height = Some (rk_height r),
             ri_timestamp = Some (rk_block_timestamp r), ri_capture_id = Some (rk_id r), ri_digest = Some (rk_payload_sha256 r),
             ri_hyperparameters = Some (nr_parameters n)\<rparr>))))"

end
