(* ===== verification/Outbox.thy ===== *)
theory Outbox
  imports Benchmarks Coverage
begin

text \<open>
  The outbox of protocol submissions (\<open>protocol_outbox\<close> of \<open>migrations/003_member_protocol.sql\<close> and
  \<open>004_submissions.sql\<close>): the intents that are still to be sent, may have been sent, or are
  resolved. \<open>enqueue\<close> is of \<open>pool_manager/pool_v2/work_requests.py\<close>; the state machine of an intent is
  in \<open>Submissions\<close>.
\<close>

section \<open>Rows\<close>

abbreviation outbox :: "pool \<Rightarrow> outbox_row list" where "outbox p \<equiv> protocol_outbox (work p)"

definition with_outbox :: "outbox_row list \<Rightarrow> pool \<Rightarrow> pool" where
  "with_outbox rows p = p\<lparr>work := (work p)\<lparr>protocol_outbox := rows\<rparr>\<rparr>"

definition update_intent :: "string \<Rightarrow> (outbox_row \<Rightarrow> outbox_row) \<Rightarrow> pool \<Rightarrow> pool" where
  "update_intent identity f p = with_outbox (modify ox_id identity f (outbox p)) p"

definition intent_for :: "string \<Rightarrow> intent_kind \<Rightarrow> pool \<Rightarrow> outbox_row option" where
  "intent_for reservation_id kind p = List.find (\<lambda>o'. ox_reservation_id o' = reservation_id \<and> ox_kind o' = kind) (outbox p)"

lemma with_outbox_simps [simp]:
  "outbox (with_outbox rows p) = rows" "reservations (with_outbox rows p) = reservations p"
  "ledger (with_outbox rows p) = ledger p" "precommit_receipts (work (with_outbox rows p)) = precommit_receipts (work p)"
  by (simp_all add: with_outbox_def)

lemma update_intent_simps [simp]:
  "outbox (update_intent i f p) = modify ox_id i f (outbox p)" "reservations (update_intent i f p) = reservations p"
  "ledger (update_intent i f p) = ledger p" "precommit_receipts (work (update_intent i f p)) = precommit_receipts (work p)"
  by (simp_all add: update_intent_def)

section \<open>Queueing an intent\<close>

definition new_intent :: "env \<Rightarrow> string \<Rightarrow> string \<Rightarrow> intent_kind \<Rightarrow> json \<Rightarrow> outbox_row" where
  "new_intent env identity reservation_id kind payload =
     \<lparr>ox_id = identity, ox_reservation_id = reservation_id, ox_kind = kind, ox_payload = payload,
      ox_payload_text = canonical payload, ox_digest = fingerprint env payload, ox_state = Ready, ox_sent_at = None,
      ox_evidence = None, ox_match_key = None, ox_preflight = None\<rparr>"

text \<open>
  One intent per reservation and kind (\<open>ON CONFLICT (reservation_id, kind) DO NOTHING\<close>), whose
  digest must be that of the payload.
\<close>

definition enqueue :: "env \<Rightarrow> string \<Rightarrow> string \<Rightarrow> intent_kind \<Rightarrow> json \<Rightarrow> pool \<Rightarrow> (unit \<times> pool) result" where
  "enqueue env identity reservation_id kind payload p =
     (case intent_for reservation_id kind p of
        Some intent \<Rightarrow>
          if ox_digest intent \<noteq> fingerprint env payload
          then Inl (Conflict ''existing submission intent has different immutable inputs'') else Inr ((), p)
      | None \<Rightarrow>
          if lookup ox_id identity (outbox p) \<noteq> None then Inl (IntegrityError ''protocol_outbox'')
          else Inr ((), with_outbox (outbox p @ [new_intent env identity reservation_id kind payload]) p))"

end
