(* ===== verification/Work_Requests.thy ===== *)
theory Work_Requests
  imports References Outbox
begin

text \<open>
  \<open>pool_manager/pool_v2/work_requests.py\<close>: the compute offers of the members and the queue that turns
  one of them into a reservation with its precommit. \<open>enqueue\<close> is in \<open>Outbox\<close>.
\<close>

section \<open>Offers\<close>

text \<open>\<open>_offer\<close>: one compatible resource and between one and 4096 workers.\<close>

definition valid_capacity :: "json \<Rightarrow> bool" where
  "valid_capacity capacity =
     (case capacity of JDict [(k, JInt n)] \<Rightarrow> k = ''workers'' \<and> 1 \<le> n \<and> n \<le> 4096 | _ \<Rightarrow> False)"

definition make_offer :: "string \<Rightarrow> string \<Rightarrow> json \<Rightarrow> json result" where
  "make_offer resource compute_type capacity =
     (if \<not> compatible resource compute_type
      then Inl (FundsError ''offer must specify one compatible CPU or GPU verification compute type'')
      else if \<not> valid_capacity capacity then Inl (FundsError ''capacity requires a positive worker count up to 4096'')
      else Inr (JDict [(''resource'', JStr resource), (''compute_type'', JStr compute_type), (''capacity'', capacity)]))"

abbreviation work_queue :: "pool \<Rightarrow> work_request_row list" where "work_queue p \<equiv> work_requests (work p)"

definition with_requests :: "work_request_row list \<Rightarrow> pool \<Rightarrow> pool" where
  "with_requests rows p = p\<lparr>work := (work p)\<lparr>work_requests := rows\<rparr>\<rparr>"

definition update_request :: "string \<Rightarrow> (work_request_row \<Rightarrow> work_request_row) \<Rightarrow> pool \<Rightarrow> pool" where
  "update_request identity f p = with_requests (modify wq_id identity f (work_queue p)) p"

definition create_request :: "env \<Rightarrow> string \<Rightarrow> string \<Rightarrow> string \<Rightarrow> string \<Rightarrow> string \<Rightarrow> json \<Rightarrow> int \<Rightarrow> pool \<Rightarrow> (work_request_row \<times> pool) result" where
  "create_request env new_id member_id request_key resource compute_type capacity ttl_seconds p =
     bindE (make_offer resource compute_type capacity) (\<lambda>offer.
     if request_key = [] \<or> length request_key > 128 \<or> ttl_seconds < 5 \<or> ttl_seconds > 600
     then Inl (FundsError ''invalid request key or configured offer lifetime'') else
     bindE (member_lock member_id p) (\<lambda>_.
       let digest = fingerprint env offer in
       case List.find (\<lambda>w. wq_member_id w = member_id \<and> wq_request_key w = request_key) (work_queue p) of
         Some w \<Rightarrow>
           if wq_offer_hash w \<noteq> digest then Inl (Conflict ''work request key was reused for a different compute offer'') else Inr (w, p)
       | None \<Rightarrow>
           if lookup wq_id new_id (work_queue p) \<noteq> None then Inl (IntegrityError ''work_requests'') else
           let w = \<lparr>wq_id = new_id, wq_member_id = member_id, wq_request_key = request_key, wq_offer_hash = digest, wq_offer = offer,
                 wq_state = RQueued, wq_expires_at = clock env + seconds ttl_seconds, wq_reservation_id = None,
                 wq_created_at = clock env, wq_last_attempted_at = None\<rparr>
           in Inr (w, with_requests (work_queue p @ [w]) p)))"

text \<open>Offers past their expiry are retired by whoever looks at them.\<close>

definition expired_offer :: "env \<Rightarrow> work_request_row \<Rightarrow> bool" where
  "expired_offer env w \<longleftrightarrow> wq_state w = RQueued \<and> wq_expires_at w \<le> clock env"

definition expire_where :: "(work_request_row \<Rightarrow> bool) \<Rightarrow> env \<Rightarrow> pool \<Rightarrow> pool" where
  "expire_where P env p =
     with_requests (map (\<lambda>w. if P w \<and> expired_offer env w then w\<lparr>wq_state := RExpired\<rparr> else w) (work_queue p)) p"

datatype shown_state = RequestState request_state | BenchmarkState reservation_state | Assigned

record request_view =
  rv_request :: work_request_row
  rv_benchmark_id :: "string option"
  rv_benchmark_state :: "reservation_state option"
  rv_state :: shown_state

definition shown_as :: "work_request_row \<Rightarrow> reservation_row option \<Rightarrow> shown_state" where
  "shown_as w r =
     (case r of
        None \<Rightarrow> RequestState (wq_state w)
      | Some r \<Rightarrow>
          if r_state r \<in> {Active, Expired, VerificationFailed, Rejected, Cancelled} then BenchmarkState (r_state r)
          else if \<not> blank (r_benchmark_id r) then Assigned else RequestState (wq_state w))"

definition view_request :: "env \<Rightarrow> string \<Rightarrow> string \<Rightarrow> pool \<Rightarrow> (request_view \<times> pool) result" where
  "view_request env identity member_id p =
     (let p = expire_where (\<lambda>w. wq_id w = identity \<and> wq_member_id w = member_id) env p in
      case List.find (\<lambda>w. wq_id w = identity \<and> wq_member_id w = member_id) (work_queue p) of
        None \<Rightarrow> Inl (FundsError ''unknown member work request'')
      | Some w \<Rightarrow>
          let r = (case wq_reservation_id w of None \<Rightarrow> None | Some i \<Rightarrow> lookup r_id i (reservations p)) in
          Inr (\<lparr>rv_request = w, rv_benchmark_id = (case r of None \<Rightarrow> None | Some r \<Rightarrow> r_benchmark_id r),
            rv_benchmark_state = map_option r_state r, rv_state = shown_as w r\<rparr>, p))"

text \<open>A new expiry; the trigger \<open>work_request_guard\<close> refuses an earlier one.\<close>

definition refresh_request :: "env \<Rightarrow> string \<Rightarrow> string \<Rightarrow> int \<Rightarrow> pool \<Rightarrow> (work_request_row \<times> pool) result" where
  "refresh_request env identity member_id ttl_seconds p =
     (case List.find (\<lambda>w. wq_id w = identity \<and> wq_member_id w = member_id) (work_queue p) of
        None \<Rightarrow> Inl (Conflict ''only a queued compute offer can be refreshed'')
      | Some w \<Rightarrow>
          if wq_state w \<noteq> RQueued then Inl (Conflict ''only a queued compute offer can be refreshed'')
          else if wq_expires_at w \<le> clock env then Inl (Conflict ''compute offer expired; submit a new request key'')
          else if clock env + seconds ttl_seconds < wq_expires_at w then Inl (IntegrityError ''work_requests'')
          else let f = (\<lambda>w. w\<lparr>wq_expires_at := clock env + seconds ttl_seconds\<rparr>) in Inr (f w, update_request identity f p))"

definition has_queued :: "env \<Rightarrow> pool \<Rightarrow> bool \<times> pool" where
  "has_queued env p = (let p = expire_where (\<lambda>_. True) env p in (list_ex (\<lambda>w. wq_state w = RQueued) (work_queue p), p))"

section \<open>Serving the queue\<close>

text \<open>
  The references a scoped block needs; \<open>refresh\<close>, when the caller gives it, reads the network and records a capture.
\<close>

definition network_reference :: "env \<Rightarrow> json \<Rightarrow> json \<Rightarrow> (pool \<Rightarrow> pool result) option \<Rightarrow> pool \<Rightarrow> reference_index result \<times> pool" where
  "network_reference env now max_age refresh p =
     (case latest_references env now max_age p of
        Inl e \<Rightarrow> (Inl e, p)
      | Inr (Some index) \<Rightarrow> (Inr index, p)
      | Inr None \<Rightarrow>
          (case refresh of
             None \<Rightarrow> (malformed ''no fresh whole-network reference is available for selection'', p)
           | Some f \<Rightarrow>
               (case f p of
                  Inl e \<Rightarrow> (Inl e, p)
                | Inr p \<Rightarrow>
                    (case latest_references env now max_age p of
                       Inl e \<Rightarrow> (Inl e, p)
                     | Inr None \<Rightarrow> (malformed ''no fresh whole-network reference is available for selection'', p)
                     | Inr (Some index) \<Rightarrow> (Inr index, p)))))"

text \<open>What the surroundings give to a pass over the queue: fresh identifiers and random picks per request, and the configuration.\<close>

record queue_context =
  qc_snapshot :: snapshot
  qc_binaries :: "json result"
  qc_player :: string
  qc_now :: json
  qc_max_age :: json
  qc_index :: reference_index
  qc_reference_max_age :: json
  qc_pick :: "string \<Rightarrow> string list \<Rightarrow> string"
  qc_ids :: "string \<Rightarrow> string \<times> string \<times> string"

definition select_for :: "queue_context \<Rightarrow> work_request_row \<Rightarrow> selection_error + work_selection" where
  "select_for c w =
     bindE (work_or (qc_binaries c)) (\<lambda>binaries.
     bindE (work_or (subscript (wq_offer w) ''resource'')) (\<lambda>resource.
     bindE (work_or (subscript (wq_offer w) ''compute_type'')) (\<lambda>compute_type.
       choose_work (qc_pick c (wq_id w)) (qc_snapshot c) binaries (qc_player c) (str_of resource) (str_of compute_type) (qc_now c)
         (qc_max_age c) None (Some (qc_index c)) (qc_reference_max_age c))))"

definition reserve_for :: "env \<Rightarrow> queue_context \<Rightarrow> work_request_row \<Rightarrow> work_selection \<Rightarrow> pool \<Rightarrow> (reservation_row \<times> pool) result" where
  "reserve_for env c w s p =
     (case qc_ids c (wq_id w) of (reservation_id, jid, intent_id) \<Rightarrow>
        reserve env reservation_id jid (wq_member_id w) (wq_id w) (sl_creation_round s) (str_of (get ''resource'' (case wq_offer w of JDict items \<Rightarrow> items | _ \<Rightarrow> [])))
          (sl_evidence s) (sl_payload s) (sl_max_submission_fee s) (wq_expires_at w) (isoformat env (wq_expires_at w)) p)"

definition mark_reserved :: "string \<Rightarrow> string \<Rightarrow> pool \<Rightarrow> pool result" where
  "mark_reserved identity reservation_id p =
     (if \<exists>w \<in> set (work_queue p). wq_id w \<noteq> identity \<and> wq_reservation_id w = Some reservation_id then Inl (IntegrityError ''work_requests'')
      else Inr (update_request identity (\<lambda>w. w\<lparr>wq_state := RReserved, wq_reservation_id := Some reservation_id\<rparr>) p))"

text \<open>
  The requests are tried in turn: one without compatible work, or whose member has no slot or not the funds, is passed over
  (the savepoint takes its attempt back), and the first that succeeds ends the pass.
\<close>

fun serve :: "env \<Rightarrow> queue_context \<Rightarrow> work_request_row list \<Rightarrow> pool \<Rightarrow> (reservation_row option \<times> pool) result" where
  "serve env c [] p = Inr (None, p)"
| "serve env c (w # ws) p =
     (let p = update_request (wq_id w) (\<lambda>w. w\<lparr>wq_last_attempted_at := Some (clock env)\<rparr>) p in
      case select_for c w of
        Inl (NoCompatibleWork _) \<Rightarrow> serve env c ws p
      | Inl (Failed e) \<Rightarrow> Inl e
      | Inr s \<Rightarrow>
          (case reserve_for env c w s p of
             Inl (InsufficientFunds _) \<Rightarrow> serve env c ws p
           | Inl (Conflict _) \<Rightarrow> serve env c ws p
           | Inl e \<Rightarrow> Inl e
           | Inr (r, p) \<Rightarrow>
               bindE (enqueue env (snd (snd (qc_ids c (wq_id w)))) (r_id r) Precommit (sl_payload s) p) (\<lambda>(_, p).
               bindE (mark_reserved (wq_id w) (r_id r) p) (\<lambda>p. Inr (Some r, p)))))"

definition turn :: "work_request_row \<Rightarrow> timestamp \<times> timestamp \<times> string" where
  "turn w = (case wq_last_attempted_at w of None \<Rightarrow> wq_created_at w | Some t \<Rightarrow> t, wq_created_at w, wq_id w)"

definition queue_order :: "pool \<Rightarrow> work_request_row list" where
  "queue_order p = take 100 (sort_key turn (filter (\<lambda>w. wq_state w = RQueued) (work_queue p)))"

definition newest_block :: "pool \<Rightarrow> observed_block_row option" where
  "newest_block p = latest_by ob_height (observed_blocks (stored p))"

text \<open>The reservation itself, fenced against a newer block, a pause and conflicting evidence.\<close>

definition serve_queue :: "env \<Rightarrow> string \<Rightarrow> queue_context \<Rightarrow> pool \<Rightarrow> (reservation_row option \<times> pool) result" where
  "serve_queue env block_id c p =
     bindE (blocked env p) (\<lambda>reason.
     if reason \<noteq> None then Inr (None, p)
     else if map_option ob_id (newest_block p) \<noteq> Some block_id then malformed ''new block arrived before work reservation''
     else if conflict_at (sn_height (qc_snapshot c)) p then malformed ''current snapshot has conflicting evidence'' else
     let p = expire_where (\<lambda>_. True) env p in serve env c (queue_order p) p)"

definition reserve_next :: "env \<Rightarrow> string \<Rightarrow> json \<Rightarrow> json \<Rightarrow> json \<Rightarrow> (pool \<Rightarrow> pool result) option \<Rightarrow> (string \<Rightarrow> string list \<Rightarrow> string) \<Rightarrow>
    (string \<Rightarrow> string \<times> string \<times> string) \<Rightarrow> pool \<Rightarrow> reservation_row option result \<times> pool" where
  "reserve_next env player now max_age reference_max_age refresh pick ids p =
     (case newest_block p of
        None \<Rightarrow> (malformed ''no complete current snapshot'', p)
      | Some b \<Rightarrow>
          (case read_block env (ob_id b) p of
             Inl e \<Rightarrow> (Inl e, p)
           | Inr (observation, s) \<Rightarrow>
               let (waiting, index, p) =
                     (if \<not> sn_scoped s then (True, Inr (references s), p)
                      else case has_queued env p of
                        (False, p) \<Rightarrow> (False, Inr (references s), p)
                      | (True, p) \<Rightarrow> (case network_reference env now reference_max_age refresh p of (index, p) \<Rightarrow> (True, index, p)))
               in if \<not> waiting then (Inr None, p) else
                  (case bindE index (\<lambda>index. serve_queue env (ob_id b) \<lparr>qc_snapshot = s, qc_binaries = path observation [''algorithms'', ''binarys''], qc_player = player, qc_now = now, qc_max_age = max_age,
                       qc_index = index, qc_reference_max_age = reference_max_age, qc_pick = pick, qc_ids = ids\<rparr> p) of
                     Inl e \<Rightarrow> (Inl e, p)
                   | Inr (r, p) \<Rightarrow> (Inr r, p))))"

end
