(* ===== verification/Submissions.thy ===== *)
theory Submissions
  imports Outbox Selection
begin

text \<open>
  \<open>pool_manager/pool_v2/submissions.py\<close>: the durable fences around each submission to the protocol. An
  intent is committed as uncertain before its only POST; whatever happens then is decided by evidence:
  the recorded response, an exact match among the confirmed precommits, a confirmed payload, or an
  explicit rejection. Each operation is one transaction.
\<close>

section \<open>Benchmark identities\<close>

text \<open>\<open>_identity\<close>: thirty-two lower-case hexadecimal digits.\<close>

definition p_identity :: "json \<Rightarrow> string result" where
  "p_identity v =
     (case v of
        JStr s \<Rightarrow> if length s = 32 \<and> list_all (\<lambda>c. c \<in> set ''0123456789abcdef'') s then Inr s
                  else malformed ''invalid TIG benchmark ID''
      | _ \<Rightarrow> malformed ''invalid TIG benchmark ID'')"

lemma p_identity_Inr [outcome]:
  "p_identity v = Inr s \<longleftrightarrow> v = JStr s \<and> length s = 32 \<and> list_all (\<lambda>c. c \<in> set ''0123456789abcdef'') s"
  by (auto simp: p_identity_def split: json.splits if_splits)

text \<open>\<open>_locked\<close>: the intent with its reservation.\<close>

definition intent_locked :: "string \<Rightarrow> pool \<Rightarrow> (reservation_row \<times> outbox_row) result" where
  "intent_locked identity p =
     (case lookup ox_id identity (outbox p) of
        None \<Rightarrow> Inl (FundsError ''unknown protocol intent'')
      | Some intent \<Rightarrow> bindE (locked (ox_reservation_id intent) p) (\<lambda>r. Inr (r, intent)))"

section \<open>Algorithm archives\<close>

definition MAX_ARCHIVE :: int where "MAX_ARCHIVE = 64 * 1024 * 1024"

text \<open>The archive bound to a reservation, directly or (in older rows) by a stored copy.\<close>

definition reserved_archive :: "string \<Rightarrow> pool \<Rightarrow> (binary_row \<times> bool) option" where
  "reserved_archive reservation_id p =
     List.find (\<lambda>(b, _). by_reservation_id b = reservation_id)
       (map (\<lambda>b. (b, True)) (reservation_binaries (work p)) @ map (\<lambda>b. (b, False)) (reservation_archives (work p)))"

definition binary_path :: "string list" where
  "binary_path = [''binary'', ''details'', ''download_url'']"

text \<open>The column checks of \<open>reservation_binaries\<close> and \<open>verified_binaries\<close>.\<close>

definition binary_columns :: "string \<Rightarrow> int \<Rightarrow> bool" where
  "binary_columns digest size_bytes \<longleftrightarrow> hex64 digest \<and> 0 < size_bytes \<and> size_bytes \<le> MAX_ARCHIVE"

definition record_binary :: "string \<Rightarrow> string \<Rightarrow> string \<Rightarrow> int \<Rightarrow> pool \<Rightarrow> (string \<times> pool) result" where
  "record_binary reservation_id source_url digest size_bytes p =
     bindE (locked reservation_id p) (\<lambda>r.
     bindE (path (r_selection r) binary_path) (\<lambda>expected.
       if expected \<noteq> JStr source_url then Inl (Conflict ''algorithm archive URL differs from reserved selection'') else
       case reserved_archive reservation_id p of
         Some (previous, _) \<Rightarrow>
           if (by_sha256 previous, by_source_url previous) \<noteq> (digest, source_url)
           then Inl (Conflict ''reserved algorithm archive changed'') else Inr (digest, p)
       | None \<Rightarrow>
           if r_state r \<noteq> Reserved then Inl (Conflict ''algorithm archive must be saved before precommit submission'')
           else if \<not> binary_columns digest size_bytes then Inl (IntegrityError ''reservation_binaries'')
           else Inr (digest, p\<lparr>work := (work p)\<lparr>reservation_binaries := reservation_binaries (work p) @
             [\<lparr>by_reservation_id = reservation_id, by_sha256 = digest, by_source_url = source_url,
               by_size_bytes = size_bytes\<rparr>]\<rparr>\<rparr>)))"

definition prepare_archive :: "env \<Rightarrow> string \<Rightarrow> string \<Rightarrow> string \<Rightarrow> pool \<Rightarrow> (string \<times> pool) result" where
  "prepare_archive env reservation_id source_url archive p =
     (if archive = [] \<or> int (length archive) > MAX_ARCHIVE then Inl (FundsError ''invalid algorithm archive size'')
      else record_binary reservation_id source_url (sha256 env archive) (int (length archive)) p)"

definition reuse_archive :: "string \<Rightarrow> string \<Rightarrow> verified_binary_row \<Rightarrow> pool \<Rightarrow> (string \<times> pool) result" where
  "reuse_archive reservation_id source_url verified p =
     record_binary reservation_id source_url (vb_sha256 verified) (vb_size_bytes verified) p"

fun nonempty_text :: "json \<Rightarrow> bool" where
  "nonempty_text (JStr s) \<longleftrightarrow> s \<noteq> []"
| "nonempty_text _ \<longleftrightarrow> False"

definition remember_verified :: "env \<Rightarrow> string \<Rightarrow> json \<Rightarrow> json \<Rightarrow> json \<Rightarrow> json \<Rightarrow> json \<Rightarrow> pool \<Rightarrow> (unit \<times> pool) result" where
  "remember_verified env new_id source_url algorithm_name compute_type digest size_bytes p =
     (if \<not> list_all nonempty_text [source_url, algorithm_name, compute_type]
      then Inl (FundsError ''verified archive identity requires a URL, library name and compute type'')
      else if \<not> (case (digest, size_bytes) of (JStr d, JInt n) \<Rightarrow> binary_columns d n | _ \<Rightarrow> False)
      then Inl (FundsError ''verified archive requires its SHA-256 and byte count'')
      else if lookup vb_id new_id (verified_binaries (work p)) \<noteq> None then Inl (IntegrityError ''verified_binaries'')
      else Inr ((), p\<lparr>work := (work p)\<lparr>verified_binaries := verified_binaries (work p) @
        [\<lparr>vb_id = new_id, vb_source_url = str_of source_url, vb_algorithm_name = str_of algorithm_name,
          vb_compute_type = str_of compute_type, vb_sha256 = str_of digest, vb_size_bytes = int_of size_bytes,
          vb_verified_at = clock env\<rparr>]\<rparr>\<rparr>))"

text \<open>The newest check of this exact archive that is young enough; an age of zero disables reuse.\<close>

definition verified_binary :: "env \<Rightarrow> string \<Rightarrow> string \<Rightarrow> string \<Rightarrow> json \<Rightarrow> pool \<Rightarrow> verified_binary_row option result" where
  "verified_binary env source_url algorithm_name compute_type max_age p =
     (case max_age of
        JInt n \<Rightarrow>
          if n < 0 then Inl (FundsError ''archive reuse age must be a nonnegative number of seconds'')
          else if n = 0 then Inr None
          else Inr (latest_by vb_verified_at (filter (\<lambda>v. vb_source_url v = source_url \<and> vb_algorithm_name v = algorithm_name \<and>
             vb_compute_type v = compute_type \<and> clock env - seconds n \<le> vb_verified_at v) (verified_binaries (work p))))
      | _ \<Rightarrow> Inl (FundsError ''archive reuse age must be a nonnegative number of seconds''))"

section \<open>Committing before the first POST\<close>

text \<open>\<open>json.loads(intent["payload_text"])\<close>.\<close>

definition intent_payload :: "outbox_row \<Rightarrow> json" where
  "intent_payload intent = sort_keys (ox_payload intent)"

text \<open>The reads made before the submission: of the block of the payload, complete, distinct and at most twenty seconds old.\<close>

definition check_preflight :: "env \<Rightarrow> json \<Rightarrow> reservation_row \<Rightarrow> json \<Rightarrow> unit result" where
  "check_preflight env payload r preflight =
     (case preflight of
        JDict items \<Rightarrow>
          bindE (path payload [''settings'', ''block_id'']) (\<lambda>block_id.
          if \<not> json_eq (get ''block_id'' items) block_id
          then Inl (Conflict ''current TIG block differs from immutable precommit; cancel unsent work'') else
          bindE (subscript (r_selection r) ''height'') (\<lambda>height.
          case get ''seen_benchmarks'' items of
            JList seen \<Rightarrow>
              if \<not> json_eq (get ''height'' items) height
              then malformed ''complete preflight block and benchmark identities required'' else
              bindE (p_integer (get ''observed_at'' items) ''preflight timestamp'' 0) (\<lambda>observed_at.
              if \<not> (seconds (-5) \<le> clock env - seconds observed_at \<and> clock env - seconds observed_at \<le> seconds 20)
              then Inl (Conflict ''preflight is too old to authorize a first submission'') else
              bindE (mapE hashable seen) (\<lambda>_.
              if \<not> distinct seen then malformed ''duplicate preflight identities'' else
              bindE (mapE p_identity seen) (\<lambda>_. Inr ())))
          | _ \<Rightarrow> malformed ''complete preflight block and benchmark identities required''))
      | _ \<Rightarrow> Inl (Conflict ''current TIG block differs from immutable precommit; cancel unsent work''))"

text \<open>Precommits the protocol could not tell apart have the same key.\<close>

definition match_key_of :: "env \<Rightarrow> json \<Rightarrow> string result" where
  "match_key_of env payload =
     bindE (subscript payload ''settings'') (\<lambda>settings.
     bindE (subscript payload ''compute_type'') (\<lambda>compute_type.
       Inr (fingerprint env (JDict [(''settings'', settings), (''compute_type'', compute_type)]))))"

definition precommit_fence :: "env \<Rightarrow> string \<Rightarrow> json \<Rightarrow> reservation_row \<Rightarrow> outbox_row \<Rightarrow> pool \<Rightarrow> pool result" where
  "precommit_fence env identity preflight r intent p =
     bindE (blocked env p) (\<lambda>reason.
     if reason \<noteq> None then Inl (Conflict ''new precommit submissions are paused or awaiting custody reconciliation'') else
     bindE (check_preflight env (intent_payload intent) r preflight) (\<lambda>_.
     if reserved_archive (r_id r) p = None then Inl (Conflict ''checked algorithm metadata is not durable'') else
     bindE (match_key_of env (intent_payload intent)) (\<lambda>match_key.
     if \<exists>x \<in> set (outbox p). ox_match_key x = Some match_key \<and> ox_state x = SendUncertain
     then Inl (Conflict ''indistinguishable precommit is still unresolved'') else
     bindE (mark_submitting env (r_id r) p) (\<lambda>(_, p).
       Inr (update_intent identity (\<lambda>x. x\<lparr>ox_match_key := Some match_key, ox_preflight := Some preflight\<rparr>) p)))))"

definition payload_guards :: "reservation_row \<Rightarrow> outbox_row \<Rightarrow> pool \<Rightarrow> unit result" where
  "payload_guards r intent p =
     (if r_state r \<noteq> Accepted \<or> r_handed_over_at r = None
      then Inl (Conflict ''benchmark is not available for a first result/proof submission'')
      else if ox_kind intent = Proofs \<and>
        (case intent_for (r_id r) Results p of None \<Rightarrow> True | Some results \<Rightarrow> ox_state results \<noteq> SendAccepted)
      then Inl (Conflict ''TIG has not accepted this benchmark's results'') else Inr ())"

text \<open>
  The partial unique indexes over the uncertain precommits: \<open>one_uncertain_precommit_per_payload\<close> and
  \<open>one_ambiguous_precommit_per_settings\<close>.
\<close>

definition in_flight :: "outbox_row \<Rightarrow> bool" where
  "in_flight x \<longleftrightarrow> ox_kind x = Precommit \<and> ox_state x = SendUncertain"

definition ambiguous :: "outbox_row \<Rightarrow> outbox_row \<Rightarrow> bool" where
  "ambiguous x y \<longleftrightarrow> ox_digest x = ox_digest y \<or> (ox_match_key x \<noteq> None \<and> ox_match_key x = ox_match_key y)"

definition mark_sent :: "env \<Rightarrow> string \<Rightarrow> pool \<Rightarrow> (outbox_row \<times> pool) result" where
  "mark_sent env identity p =
     (case lookup ox_id identity (outbox p) of
        None \<Rightarrow> Inl TypeError
      | Some intent \<Rightarrow>
          if ox_kind intent = Precommit \<and> (\<exists>x \<in> set (outbox p). ox_id x \<noteq> identity \<and> in_flight x \<and> ambiguous x intent)
          then Inl (IntegrityError ''protocol_outbox'')
          else Inr (intent\<lparr>ox_state := SendUncertain, ox_sent_at := Some (clock env)\<rparr>,
            update_intent identity (\<lambda>x. x\<lparr>ox_state := SendUncertain, ox_sent_at := Some (clock env)\<rparr>) p))"

text \<open>\<open>except IntegrityError\<close>.\<close>

definition fenced :: "'a result \<Rightarrow> 'a result" where
  "fenced m = (case m of Inl (IntegrityError _) \<Rightarrow> Inl (Conflict ''another submission holds this immutable protocol fence'') | _ \<Rightarrow> m)"

lemma fenced_Inr [outcome]: "fenced m = Inr x \<longleftrightarrow> m = Inr x"
  by (auto simp: fenced_def split: sum.splits error.splits)

definition begin_submission :: "env \<Rightarrow> string \<Rightarrow> json \<Rightarrow> pool \<Rightarrow> (outbox_row \<times> pool) result" where
  "begin_submission env identity preflight p =
     fenced (bindE (intent_locked identity p) (\<lambda>(r, intent).
       if ox_state intent \<noteq> Ready then Inl (Conflict ''intent is not unsent; reconcile instead of retrying'') else
       bindE (if ox_kind intent = Precommit then precommit_fence env identity preflight r intent p
              else bindE (payload_guards r intent p) (\<lambda>_. Inr p)) (mark_sent env identity)))"

definition cancel_unsent :: "env \<Rightarrow> string \<Rightarrow> string \<Rightarrow> string \<Rightarrow> json \<Rightarrow> pool \<Rightarrow> (unit \<times> pool) result" where
  "cancel_unsent env jid jid' identity evidence p =
     (if \<not> truthy evidence then Inl (FundsError ''unsent cancellation requires a reason'') else
      bindE (intent_locked identity p) (\<lambda>(r, intent).
        if ox_state intent = SendCancelled then Inr ((), p)
        else if ox_state intent \<noteq> Ready \<or> ox_kind intent \<noteq> Precommit
        then Inl (Conflict ''only an unsent precommit can cancel and return collateral'') else
        bindE (release_unstarted env jid jid' (r_id r) False 0 evidence p) (\<lambda>(_, p).
          Inr ((), update_intent identity (\<lambda>x. x\<lparr>ox_state := SendCancelled, ox_evidence := Some evidence\<rparr>) p))))"

section \<open>Deciding an uncertain submission\<close>

text \<open>\<open>_receipt\<close>: the identity an accepted precommit was given, once per reservation.\<close>

definition save_receipt :: "reservation_row \<Rightarrow> json \<Rightarrow> json \<Rightarrow> pool \<Rightarrow> pool result" where
  "save_receipt r benchmark_id evidence p =
     bindE (p_identity benchmark_id) (\<lambda>b.
       case lookup pe_reservation_id (r_id r) (precommit_receipts (work p)) of
         Some existing \<Rightarrow>
           if pe_benchmark_id existing \<noteq> b then Inl (Conflict ''precommit response contradicts its recorded identity'') else Inr p
       | None \<Rightarrow>
           if \<exists>x \<in> set (reservations p). r_benchmark_id x = Some b \<and> r_id x \<noteq> r_id r
           then Inl (Conflict ''benchmark already belongs to another reservation'')
           else if lookup pe_benchmark_id b (precommit_receipts (work p)) \<noteq> None then Inl (IntegrityError ''precommit_receipts'')
           else Inr (p\<lparr>work := (work p)\<lparr>precommit_receipts := precommit_receipts (work p) @
             [\<lparr>pe_reservation_id = r_id r, pe_benchmark_id = b, pe_evidence = evidence\<rparr>]\<rparr>\<rparr>))"

definition accept_intent :: "string \<Rightarrow> json \<Rightarrow> pool \<Rightarrow> pool" where
  "accept_intent identity evidence = update_intent identity (\<lambda>x. x\<lparr>ox_state := SendAccepted, ox_evidence := Some evidence\<rparr>)"

text \<open>Whether a response shows that the protocol took the submission; a precommit also names its benchmark.\<close>

definition response_success :: "intent_kind \<Rightarrow> json \<Rightarrow> bool" where
  "response_success kind response =
     (case response of
        JDict items \<Rightarrow>
          json_eq (get ''status'' items) (JInt 200) \<and>
          (case get ''body'' items of
             JDict body \<Rightarrow>
               (case kind of
                  Precommit \<Rightarrow> (case dict_get ''benchmark_id'' body of None \<Rightarrow> False | Some b \<Rightarrow> (case p_identity b of Inl _ \<Rightarrow> False | Inr _ \<Rightarrow> True))
                | Results \<Rightarrow> get ''ok'' body = JBool True
                | Proofs \<Rightarrow> dict_get ''verified'' body \<noteq> None)
           | _ \<Rightarrow> False)
      | _ \<Rightarrow> False)"

definition response_identity :: "json \<Rightarrow> json" where
  "response_identity response =
     (case response of
        JDict items \<Rightarrow> (case get ''body'' items of JDict body \<Rightarrow> get ''benchmark_id'' body | _ \<Rightarrow> JNull)
      | _ \<Rightarrow> JNull)"

definition record_response :: "string \<Rightarrow> string \<Rightarrow> json \<Rightarrow> pool \<Rightarrow> (bool \<times> pool) result" where
  "record_response response_id identity response p =
     (if \<not> (case response of JDict _ \<Rightarrow> True | _ \<Rightarrow> False) then Inl (FundsError ''submission response evidence must be an object'') else
      bindE (intent_locked identity p) (\<lambda>(r, intent).
        if ox_state intent \<notin> {SendUncertain, SendAccepted}
        then Inl (Conflict ''no potentially sent operation matches this response'')
        else if lookup sr_id response_id (submission_responses (work p)) \<noteq> None then Inl (IntegrityError ''submission_responses'') else
        let p = p\<lparr>work := (work p)\<lparr>submission_responses := submission_responses (work p) @
              [\<lparr>sr_id = response_id, sr_outbox_id = identity, sr_response = response\<rparr>]\<rparr>\<rparr>;
            evidence = JDict [(''response_id'', JStr response_id)];
            success = response_success (ox_kind intent) response
        in bindE (if success \<and> ox_kind intent = Precommit then save_receipt r (response_identity response) evidence p else Inr p) (\<lambda>p.
             Inr (success, if success \<and> ox_state intent = SendUncertain then accept_intent identity evidence p else p))))"

text \<open>Only explicit evidence that there is no precommit rejects a sent one and returns its collateral.\<close>

definition definitive_rejection :: "env \<Rightarrow> string \<Rightarrow> string \<Rightarrow> string \<Rightarrow> json \<Rightarrow> int \<Rightarrow> pool \<Rightarrow> (unit \<times> pool) result" where
  "definitive_rejection env jid jid' identity evidence actual_fee p =
     bindE (if \<not> truthy evidence then Inr JNull else json_get evidence ''definitive_no_precommit'') (\<lambda>definitive.
     if definitive \<noteq> JBool True then Inl (FundsError ''explicit evidence of definitive rejection is required'') else
     bindE (intent_locked identity p) (\<lambda>(r, intent).
       if ox_kind intent \<noteq> Precommit \<or> ox_state intent \<noteq> SendUncertain
       then Inl (Conflict ''rejection conflicts with the stored submission'')
       else if lookup pe_reservation_id (r_id r) (precommit_receipts (work p)) \<noteq> None
       then Inl (Conflict ''positive acceptance cannot be replaced by rejection'') else
       bindE (release_unstarted env jid jid' (r_id r) True actual_fee evidence p) (\<lambda>(_, p).
         Inr ((), update_intent identity (\<lambda>x. x\<lparr>ox_state := SendRejected, ox_evidence := Some evidence\<rparr>) p))))"

text \<open>\<open>{**settings, "track_id": track_id}\<close>, compared with the settings the protocol reports.\<close>

definition match_fields :: "json \<Rightarrow> json \<Rightarrow> bool result" where
  "match_fields payload precommit =
     bindE (subscript precommit ''settings'') (\<lambda>settings. bindE (subscript precommit ''details'') (\<lambda>details.
     bindE (subscript payload ''settings'') (\<lambda>own. bindE (subscript settings ''track_id'') (\<lambda>track_id.
     bindE (assign ''track_id'' track_id own) (\<lambda>expected.
     bindE (bindE (subscript payload ''track_settings'') (\<lambda>tracks. case track_id of JStr t \<Rightarrow> subscript tracks t | _ \<Rightarrow> Inl KeyError)) (\<lambda>track.
     bindE (subscript details ''compute_type'') (\<lambda>compute_type. bindE (subscript payload ''compute_type'') (\<lambda>own_type.
     bindE (mapE (\<lambda>k. bindE (subscript details k) (\<lambda>v. bindE (subscript track k) (\<lambda>w. Inr (json_eq v w))))
              [''num_bundles'', ''fuel_budget'', ''hyperparameters'']) (\<lambda>same.
       Inr (json_eq settings expected \<and> json_eq compute_type own_type \<and> list_all (\<lambda>b. b) same))))))))))"

definition precommit_matches :: "json \<Rightarrow> json \<Rightarrow> bool" where
  "precommit_matches payload precommit = (case match_fields payload precommit of Inr b \<Rightarrow> b | Inl _ \<Rightarrow> False)"

definition excluded_ids :: "json list \<Rightarrow> pool \<Rightarrow> json list" where
  "excluded_ids seen p =
     seen @ map (JStr \<circ> pe_benchmark_id) (precommit_receipts (work p)) @
     map JStr (concat (map (\<lambda>r. case r_benchmark_id r of None \<Rightarrow> [] | Some b \<Rightarrow> [b]) (reservations p)))"

text \<open>The dict comprehension over the observed precommits; only its keys matter.\<close>

definition add_candidate :: "json list \<Rightarrow> json \<Rightarrow> json \<Rightarrow> json list \<Rightarrow> json list result" where
  "add_candidate excluded payload value found =
     (case value of
        JDict items \<Rightarrow>
          bindE (hashable (get ''benchmark_id'' items)) (\<lambda>b.
            if b \<in> set excluded \<or> \<not> precommit_matches payload value then Inr found
            else bindE (item items ''benchmark_id'') (\<lambda>b. Inr (if b \<in> set found then found else found @ [b])))
      | _ \<Rightarrow> Inr found)"

definition preflight_seen :: "outbox_row \<Rightarrow> json list result" where
  "preflight_seen intent =
     (case ox_preflight intent of
        None \<Rightarrow> Inl (Conflict ''precommit is not awaiting identity reconciliation'')
      | Some f \<Rightarrow>
          if \<not> truthy f then Inl (Conflict ''precommit is not awaiting identity reconciliation'')
          else bindE (subscript f ''seen_benchmarks'') elements)"

definition recover_precommit :: "string \<Rightarrow> json \<Rightarrow> json \<Rightarrow> pool \<Rightarrow> (string option \<times> pool) result" where
  "recover_precommit identity precommits evidence p =
     (case precommits of
        JList values \<Rightarrow>
          if \<not> truthy evidence then malformed ''precommit reconciliation requires observed protocol records'' else
          bindE (intent_locked identity p) (\<lambda>(r, intent).
          if ox_kind intent \<noteq> Precommit \<or> ox_state intent \<noteq> SendUncertain
          then Inl (Conflict ''precommit is not awaiting identity reconciliation'') else
          bindE (preflight_seen intent) (\<lambda>seen.
          bindE (foldE (add_candidate (excluded_ids seen p) (intent_payload intent)) values []) (\<lambda>found.
            case found of
              [b] \<Rightarrow> bindE (save_receipt r b evidence p) (\<lambda>p. Inr (Some (str_of b), accept_intent identity evidence p))
            | _ \<Rightarrow> Inr (None, p))))
      | _ \<Rightarrow> malformed ''precommit reconciliation requires observed protocol records'')"

definition confirm_payload :: "string \<Rightarrow> intent_kind \<Rightarrow> json \<Rightarrow> pool \<Rightarrow> (unit \<times> pool) result" where
  "confirm_payload reservation_id kind evidence p =
     (if kind = Precommit \<or> \<not> truthy evidence then Inl (FundsError ''confirmed result/proof evidence required'') else
      bindE (locked reservation_id p) (\<lambda>_.
        case intent_for reservation_id kind p of
          None \<Rightarrow> Inl (Conflict ''confirmed protocol payload has no matching potentially-sent intent'')
        | Some intent \<Rightarrow>
            if ox_state intent \<notin> {SendUncertain, SendAccepted}
            then Inl (Conflict ''confirmed protocol payload has no matching potentially-sent intent'')
            else Inr ((), if ox_state intent = SendUncertain then accept_intent (ox_id intent) evidence p else p)))"

definition retire_unsent_payload :: "string \<Rightarrow> pool \<Rightarrow> (bool \<times> pool) result" where
  "retire_unsent_payload identity p =
     bindE (intent_locked identity p) (\<lambda>(r, intent).
       if ox_kind intent = Precommit \<or> ox_state intent \<noteq> Ready \<or> r_state r \<notin> {Active, VerificationFailed, Expired}
       then Inr (False, p)
       else Inr (True, update_intent identity (\<lambda>x. x\<lparr>ox_state := SendCancelled, ox_evidence := Some
         (JDict [(''reason'', JStr ''definitive-benchmark-outcome''), (''state'', JStr (outcome_text (r_state r)))])\<rparr>) p))"

section \<open>How the operations succeed\<close>

lemma find_None: "List.find P xs = None \<longleftrightarrow> (\<forall>x \<in> set xs. \<not> P x)"
  by (induction xs) auto

lemma intent_for_None: "intent_for r k p = None \<longleftrightarrow> (\<forall>y \<in> set (outbox p). \<not> (ox_reservation_id y = r \<and> ox_kind y = k))"
  by (auto simp: intent_for_def find_None)

lemma intent_locked_Inr:
  "intent_locked i p = Inr (r, x) \<longleftrightarrow> lookup ox_id i (outbox p) = Some x \<and> locked (ox_reservation_id x) p = Inr r"
  by (auto simp: intent_locked_def bindE_Inr split: option.splits)

lemma mark_sent_change:
  assumes "mark_sent env i q = Inr (y, p')" and "lookup ox_id i (outbox q) = Some x"
  shows "outbox p' = modify ox_id i (\<lambda>x. x\<lparr>ox_state := SendUncertain, ox_sent_at := Some (clock env)\<rparr>) (outbox q)"
    and "y = x\<lparr>ox_state := SendUncertain, ox_sent_at := Some (clock env)\<rparr>"
    and "ox_kind x = Precommit \<Longrightarrow> z \<in> set (outbox q) \<Longrightarrow> ox_id z \<noteq> i \<Longrightarrow> in_flight z \<Longrightarrow> \<not> ambiguous z x"
  using assms by (auto simp: mark_sent_def split: if_splits)

lemma begin_cases:
  assumes "begin_submission env i preflight p = Inr (y, p')"
  obtains r x q where "lookup ox_id i (outbox p) = Some x" "ox_state x = Ready" "locked (ox_reservation_id x) p = Inr r"
    "if ox_kind x = Precommit then precommit_fence env i preflight r x p = Inr q else q = p" "mark_sent env i q = Inr (y, p')"
proof -
  obtain r x where x: "intent_locked i p = Inr (r, x)" "ox_state x = Ready" and rest:
    "bindE (if ox_kind x = Precommit then precommit_fence env i preflight r x p
      else bindE (payload_guards r x p) (\<lambda>_. Inr p)) (mark_sent env i) = Inr (y, p')"
    using assms unfolding begin_submission_def fenced_Inr bindE_Inr [of "intent_locked i p"] split_paired_Ex prod.case raise_if_Inr by blast
  from rest obtain q where q: "(if ox_kind x = Precommit then precommit_fence env i preflight r x p
      else bindE (payload_guards r x p) (\<lambda>_. Inr p)) = Inr q" "mark_sent env i q = Inr (y, p')"
    unfolding bindE_Inr [of _ "mark_sent env i"] by blast
  show ?thesis
    by (rule that [of x r q]) (use x q in \<open>auto simp: intent_locked_Inr bindE_Inr split: if_splits\<close>)
qed

lemma precommit_fence_cases:
  assumes "precommit_fence env i preflight r x p = Inr q"
  obtains payload p1 k where "mark_submitting env (r_id r) p = Inr (payload, p1)"
    "q = update_intent i (\<lambda>x. x\<lparr>ox_match_key := Some k, ox_preflight := Some preflight\<rparr>) p1"
  using assms unfolding precommit_fence_def bindE_Inr raise_if_Inr split_paired_Ex prod.case sum.inject by blast

lemma save_receipt_rows: "save_receipt r b evidence p = Inr p' \<Longrightarrow> outbox p' = outbox p \<and> reservations p' = reservations p \<and> ledger p' = ledger p"
  by (auto simp: save_receipt_def bindE_Inr split: option.splits if_splits)

lemma cancel_cases:
  assumes "cancel_unsent env j j' i evidence p = Inr (u, p')"
  obtains (again) "p' = p"
    | (first) x q and r r' :: reservation_row where "lookup ox_id i (outbox p) = Some x" "ox_state x = Ready" "ox_kind x = Precommit"
      "locked (ox_reservation_id x) p = Inr r" "release_unstarted env j j' (r_id r) False 0 evidence p = Inr (r', q)"
      "p' = update_intent i (\<lambda>x. x\<lparr>ox_state := SendCancelled, ox_evidence := Some evidence\<rparr>) q"
  using assms unfolding cancel_unsent_def raise_if_Inr bindE_Inr split_paired_Ex prod.case intent_locked_Inr
  by (auto split: if_splits simp: bindE_Inr)

lemma rejection_cases:
  assumes "definitive_rejection env j j' i evidence n p = Inr (u, p')"
  obtains x q and r r' :: reservation_row where "lookup ox_id i (outbox p) = Some x" "ox_state x = SendUncertain" "ox_kind x = Precommit"
    "lookup pe_reservation_id (r_id r) (precommit_receipts (work p)) = None" "locked (ox_reservation_id x) p = Inr r"
    "release_unstarted env j j' (r_id r) True n evidence p = Inr (r', q)"
    "p' = update_intent i (\<lambda>x. x\<lparr>ox_state := SendRejected, ox_evidence := Some evidence\<rparr>) q"
  using assms unfolding definitive_rejection_def raise_if_Inr bindE_Inr split_paired_Ex prod.case intent_locked_Inr by auto

lemma response_cases:
  assumes "record_response k i response p = Inr (b, p')"
  obtains r x q p1 where "lookup ox_id i (outbox p) = Some x" "ox_state x \<in> {SendUncertain, SendAccepted}"
    "p1 = p\<lparr>work := (work p)\<lparr>submission_responses := submission_responses (work p) @
       [\<lparr>sr_id = k, sr_outbox_id = i, sr_response = response\<rparr>]\<rparr>\<rparr>"
    "(if b \<and> ox_kind x = Precommit then save_receipt r (response_identity response) (JDict [(''response_id'', JStr k)]) p1 else Inr p1) = Inr q"
    "b = response_success (ox_kind x) response"
    "p' = (if b \<and> ox_state x = SendUncertain then accept_intent i (JDict [(''response_id'', JStr k)]) q else q)"
proof -
  let ?p = "p\<lparr>work := (work p)\<lparr>submission_responses := submission_responses (work p) @
              [\<lparr>sr_id = k, sr_outbox_id = i, sr_response = response\<rparr>]\<rparr>\<rparr>"
  obtain r x q where x: "lookup ox_id i (outbox p) = Some x" "\<not> ox_state x \<notin> {SendUncertain, SendAccepted}"
    and b: "b = response_success (ox_kind x) response"
    and q: "(if response_success (ox_kind x) response \<and> ox_kind x = Precommit
      then save_receipt r (response_identity response) (JDict [(''response_id'', JStr k)]) ?p else Inr ?p) = Inr q"
    and p': "p' = (if response_success (ox_kind x) response \<and> ox_state x = SendUncertain
      then accept_intent i (JDict [(''response_id'', JStr k)]) q else q)"
    using assms unfolding record_response_def raise_if_Inr bindE_Inr split_paired_Ex prod.case intent_locked_Inr Let_def
      sum.inject prod.inject by blast
  show ?thesis by (rule that [OF x(1) _ refl _ b]) (use x(2) q p' b in simp_all)
qed

lemma recover_cases:
  assumes "recover_precommit i precommits evidence p = Inr (res, p')"
  obtains r x vs seen found where "precommits = JList vs" "lookup ox_id i (outbox p) = Some x" "locked (ox_reservation_id x) p = Inr r"
    "ox_kind x = Precommit" "ox_state x = SendUncertain" "preflight_seen x = Inr seen"
    "foldE (add_candidate (excluded_ids seen p) (intent_payload x)) vs [] = Inr found"
    "(\<exists>b q. found = [b] \<and> save_receipt r b evidence p = Inr q \<and> res = Some (str_of b) \<and> p' = accept_intent i evidence q) \<or>
     (length found \<noteq> 1 \<and> res = None \<and> p' = p)"
proof -
  obtain vs where v: "precommits = JList vs" using assms by (auto simp: recover_precommit_def split: json.splits)
  show ?thesis
    using assms unfolding recover_precommit_def v json.case raise_if_Inr bindE_Inr split_paired_Ex prod.case intent_locked_Inr
    by (elim conjE exE, intro that [OF v]) (auto split: list.splits simp: bindE_Inr)
qed

section \<open>Publishing an accepted precommit\<close>

text \<open>
  \<open>urlsplit\<close> of the configured origin: surrounding controls and line breaks go, then scheme, network location, path, query and
  fragment. Of a bracketed host only the balance of the brackets is checked.
\<close>

record url_parts =
  url_scheme :: string
  url_netloc :: string
  url_path :: string
  url_query :: string
  url_fragment :: string

definition cut_at :: "char \<Rightarrow> string \<Rightarrow> string \<times> string" where
  "cut_at c s = (takeWhile (\<lambda>d. d \<noteq> c) s, tl (dropWhile (\<lambda>d. d \<noteq> c) s))"

definition is_letter :: "char \<Rightarrow> bool" where
  "is_letter c \<longleftrightarrow> (let n = of_char c :: nat in (65 \<le> n \<and> n \<le> 90) \<or> (97 \<le> n \<and> n \<le> 122))"

definition split_scheme :: "string \<Rightarrow> string \<times> string" where
  "split_scheme url =
     (let (name, rest) = cut_at CHR '':'' url in
      if CHR '':'' \<in> set url \<and> name \<noteq> [] \<and> is_letter (hd name) \<and> list_all (\<lambda>c. is_letter c \<or> is_digit c \<or> c \<in> set ''+-.'') name
      then (lower name, rest) else ([], url))"

definition urlsplit :: "string \<Rightarrow> url_parts result" where
  "urlsplit url =
     (let clean = filter (\<lambda>c. (of_char c :: nat) \<notin> {9, 10, 13}) (dropWhile (\<lambda>c. (of_char c :: nat) \<le> 32) url);
          (scheme, rest) = split_scheme clean;
          located = take 2 rest = ''//'';
          netloc = (if located then takeWhile (\<lambda>c. c \<notin> set ''/?#'') (drop 2 rest) else []);
          rest = (if located then drop (2 + length netloc) rest else rest);
          (before, fragment) = cut_at CHR ''#'' rest;
          (path', query) = cut_at CHR ''?'' before
      in if (CHR ''['' \<in> set netloc) \<noteq> (CHR '']'' \<in> set netloc) then Inl (ValueError ''Invalid IPv6 URL'')
         else Inr \<lparr>url_scheme = scheme, url_netloc = netloc, url_path = path', url_query = query, url_fragment = fragment\<rparr>)"

text \<open>\<open>username\<close> and \<open>password\<close>: what precedes the last at-sign of the location; both are blank only when it is a lone colon or less.\<close>

definition has_user :: "string \<Rightarrow> bool" where
  "has_user netloc \<longleftrightarrow> (let info = rev (tl (dropWhile (\<lambda>c. c \<noteq> CHR ''@'') (rev netloc))) in
     CHR ''@'' \<in> set netloc \<and> info \<notin> {[], '':''})"

definition check_origin :: "string option \<Rightarrow> unit result" where
  "check_origin artifact_origin =
     (if blank artifact_origin then Inr () else
      bindE (urlsplit (the artifact_origin)) (\<lambda>u.
        if url_scheme u \<noteq> ''https'' \<or> url_netloc u = [] \<or> has_user (url_netloc u) \<or> url_path u \<notin> {[], ''/''} \<or>
           url_query u \<noteq> [] \<or> url_fragment u \<noteq> []
        then Inl (FundsError ''artifact serving requires the configured HTTPS pool origin'') else Inr ()))"

text \<open>\<open>origin.rstrip('/') + '/api/v2/artifacts/' + sha256\<close>, when the pool itself serves the archive.\<close>

definition binary_url :: "string option \<Rightarrow> binary_row \<Rightarrow> bool \<Rightarrow> string" where
  "binary_url artifact_origin archive direct =
     (if direct \<or> blank artifact_origin then by_source_url archive
      else rev (dropWhile (\<lambda>c. c = CHR ''/'') (rev (the artifact_origin))) @ ''/api/v2/artifacts/'' @ by_sha256 archive)"

record confirmed_precommit =
  cp_benchmark_id :: string
  cp_settings :: json
  cp_details :: json
  cp_fee :: int

text \<open>The seed of the benchmark.\<close>

definition valid_seed :: "json \<Rightarrow> bool" where
  "valid_seed v \<longleftrightarrow> (case p_identity v of Inl _ \<Rightarrow> False | Inr _ \<Rightarrow> True)"

text \<open>The record the protocol shows must be the reserved choice, at the captured configuration.\<close>

definition check_confirmed :: "json \<Rightarrow> json \<Rightarrow> snapshot \<Rightarrow> confirmed_precommit result" where
  "check_confirmed payload precommit s =
     (if \<not> precommit_matches payload precommit then malformed ''accepted benchmark does not match the reserved precommit'' else
      bindE (bindE (subscript precommit ''benchmark_id'') p_identity) (\<lambda>benchmark_id.
      bindE (subscript precommit ''details'') (\<lambda>details.
      bindE (bindE (path precommit [''state'', ''block_confirmed'']) (\<lambda>v. p_integer v ''precommit confirmation'' (sn_height s))) (\<lambda>confirmed.
      if confirmed \<le> sn_height s then malformed ''precommit confirmation must follow the referenced block'' else
      bindE (subscript details ''block_started'') (\<lambda>started.
      if \<not> json_eq started (JInt (sn_height s)) then malformed ''accepted creation height differs from the collateral reservation'' else
      bindE (path payload [''settings'', ''challenge_id'']) (\<lambda>challenge_id.
      bindE (bindE (item (sn_challenges s) (str_of challenge_id)) (\<lambda>c. subscript c ''config'')) (\<lambda>config.
      bindE (path precommit [''settings'', ''track_id'']) (\<lambda>track_id.
      bindE (path config [''active_tracks'', str_of track_id]) (\<lambda>track.
      bindE (subscript details ''num_nonces'') (\<lambda>nonces.
      bindE (bindE (subscript details ''num_bundles'') count_value) (\<lambda>bundles.
      bindE (bindE (subscript track ''num_nonces_per_bundle'') count_value) (\<lambda>each.
      if \<not> json_eq nonces (JInt (bundles * each)) then malformed ''accepted nonce count differs from the selected track'' else
      bindE (subscript details ''rand_hash'') (\<lambda>seed.
      if \<not> valid_seed seed then malformed ''accepted random seed is invalid'' else
      bindE (bindE (subscript details ''fee_paid'') (\<lambda>v. p_precise v ''accepted submission fee'')) (\<lambda>fee.
      bindE (submission_fee config bundles) (\<lambda>expected.
      if fee \<noteq> expected then malformed ''charged fee differs from the captured protocol configuration'' else
      bindE (subscript precommit ''settings'') (\<lambda>settings.
        Inr \<lparr>cp_benchmark_id = benchmark_id, cp_settings = settings, cp_details = details, cp_fee = fee\<rparr>))))))))))))))))"

text \<open>The first half only reads: the serialized payload and the block it was made for.\<close>

definition read_confirmed :: "env \<Rightarrow> string \<Rightarrow> json \<Rightarrow> pool \<Rightarrow> (json \<times> snapshot \<times> confirmed_precommit) result" where
  "read_confirmed env reservation_id precommit p =
     (case lookup r_id reservation_id (reservations p) of
        None \<Rightarrow> Inl (FundsError ''unknown serialized reservation'')
      | Some r \<Rightarrow>
          if blank (r_payload_text r) then Inl (FundsError ''unknown serialized reservation'') else
          let payload = stored_payload r in
          bindE (path payload [''settings'', ''block_id'']) (\<lambda>block_id.
          bindE (read_block env (str_of block_id) p) (\<lambda>(_, s).
          bindE (guard_fields ''accepted precommit metadata is incomplete'' (check_confirmed payload precommit s)) (\<lambda>c.
            Inr (payload, s, c)))))"

definition ASSIGNED :: "string list" where
  "ASSIGNED = [''rand_hash'', ''num_nonces'', ''num_bundles'', ''fuel_budget'', ''hyperparameters'', ''compute_type'']"

definition assignment_of :: "json \<Rightarrow> snapshot \<Rightarrow> confirmed_precommit \<Rightarrow> string option \<Rightarrow> binary_row \<Rightarrow> bool \<Rightarrow> json result" where
  "assignment_of payload s c artifact_origin archive direct =
     bindE (path payload [''settings'', ''algorithm_id'']) (\<lambda>algorithm_id.
     bindE (bindE (item (sn_algorithms s) (str_of algorithm_id)) (\<lambda>a. path a [''details'', ''name''])) (\<lambda>name.
     bindE (mapE (\<lambda>k. bindE (subscript (cp_details c) k) (\<lambda>v. Inr (k, v))) ASSIGNED) (\<lambda>details.
       Inr (JDict ([(''api_version'', JStr ''2.0''), (''benchmark_id'', JStr (cp_benchmark_id c)), (''settings'', cp_settings c),
           (''algorithm_name'', name)] @ details @
         [(''binary_url'', JStr (binary_url artifact_origin archive direct)), (''binary_sha256'', JStr (by_sha256 archive))])))))"

text \<open>The second half, one transaction: the receipt and the archive must be there, then the benchmark is accepted at the charged fee.\<close>

definition publish_confirmed :: "env \<Rightarrow> string \<Rightarrow> string \<Rightarrow> json \<Rightarrow> snapshot \<Rightarrow> confirmed_precommit \<Rightarrow> json \<Rightarrow> string option \<Rightarrow> pool \<Rightarrow>
    (reservation_row \<times> pool) result" where
  "publish_confirmed env jid reservation_id payload s c evidence artifact_origin p =
     bindE (locked reservation_id p) (\<lambda>r.
       if map_option pe_benchmark_id (lookup pe_reservation_id reservation_id (precommit_receipts (work p))) \<noteq> Some (cp_benchmark_id c)
       then Inl (Conflict ''confirmed metadata has no matching durable acceptance receipt'') else
       case reserved_archive reservation_id p of
         None \<Rightarrow> Inl (Conflict ''reserved binary archive is missing'')
       | Some (archive, direct) \<Rightarrow>
           bindE (assignment_of payload s c artifact_origin archive direct) (\<lambda>assignment.
             accept env jid reservation_id (cp_benchmark_id c) assignment (cp_fee c) evidence p))"

definition publish_assignment :: "env \<Rightarrow> string \<Rightarrow> string \<Rightarrow> json \<Rightarrow> json \<Rightarrow> string option \<Rightarrow> pool \<Rightarrow> (reservation_row \<times> pool) result" where
  "publish_assignment env jid reservation_id precommit evidence artifact_origin p =
     bindE (check_origin artifact_origin) (\<lambda>_.
     bindE (read_confirmed env reservation_id precommit p) (\<lambda>(payload, s, c).
       publish_confirmed env jid reservation_id payload s c evidence artifact_origin p))"

end
