(* ===== verification/Member_Protocol.thy ===== *)
theory Member_Protocol
  imports Outbox Hex
begin

text \<open>
  \<open>pool_manager/pool_v2/member_protocol.py\<close>: what the owner of a benchmark does with it. The handover is
  acknowledged, the results are uploaded once and queued for the protocol, and so are the proofs of the
  nonces the protocol sampled, each of which must lead to the root the results committed to. BLAKE3 is a
  package outside the repository: \<open>blake\<close> is its digest.
\<close>

section \<open>The benchmark of a member\<close>

definition owned :: "string \<Rightarrow> string \<Rightarrow> pool \<Rightarrow> reservation_row result" where
  "owned benchmark_id member_id p =
     (case List.find (\<lambda>r. r_benchmark_id r = Some benchmark_id \<and> r_member_id r = member_id) (reservations p) of
        None \<Rightarrow> Inl (FundsError ''unknown member benchmark'') | Some r \<Rightarrow> Inr r)"

definition owned_locked :: "string \<Rightarrow> string \<Rightarrow> pool \<Rightarrow> reservation_row result" where
  "owned_locked benchmark_id member_id p = bindE (owned benchmark_id member_id p) (\<lambda>r. locked (r_id r) p)"

record benchmark_view =
  bv_benchmark_id :: string
  bv_state :: reservation_state
  bv_assignment_payload :: string
  bv_assignment_digest :: "string option"
  bv_handed_over_at :: "timestamp option"
  bv_sampled_nonces :: "int list option"

text \<open>The exact bytes of the handover, or for an older row the text of its assignment.\<close>

definition handover_text :: "reservation_row \<Rightarrow> string" where
  "handover_text r =
     (if blank (r_assignment_payload r) then canonical (case r_assignment r of None \<Rightarrow> JNull | Some v \<Rightarrow> v)
      else the (r_assignment_payload r))"

definition view_benchmark :: "string \<Rightarrow> string \<Rightarrow> pool \<Rightarrow> benchmark_view result" where
  "view_benchmark benchmark_id member_id p =
     bindE (owned benchmark_id member_id p) (\<lambda>r.
       Inr \<lparr>bv_benchmark_id = benchmark_id, bv_state = r_state r, bv_assignment_payload = handover_text r,
         bv_assignment_digest = r_assignment_digest r, bv_handed_over_at = r_handed_over_at r,
         bv_sampled_nonces = map_option bg_sampled_nonces (lookup bg_benchmark_id benchmark_id (benchmark_progress p))\<rparr>)"

definition acknowledge_owned :: "env \<Rightarrow> string \<Rightarrow> string \<Rightarrow> string \<Rightarrow> pool \<Rightarrow> (benchmark_view \<times> pool) result" where
  "acknowledge_owned env benchmark_id member_id digest p =
     bindE (owned benchmark_id member_id p) (\<lambda>r.
     bindE (acknowledge env (r_id r) member_id digest p) (\<lambda>(_, p).
     bindE (view_benchmark benchmark_id member_id p) (\<lambda>v. Inr (v, p))))"

section \<open>Uploads\<close>

definition stored_upload :: "string \<Rightarrow> intent_kind \<Rightarrow> pool \<Rightarrow> payload_row option" where
  "stored_upload benchmark_id kind p =
     List.find (\<lambda>b. bp_benchmark_id b = benchmark_id \<and> bp_kind b = kind) (benchmark_payloads p)"

text \<open>What is sent on: the upload under its benchmark, results with the mark that the benchmark was not stopped.\<close>

definition upstream_payload :: "string \<Rightarrow> intent_kind \<Rightarrow> (string \<times> json) list \<Rightarrow> json" where
  "upstream_payload benchmark_id kind items =
     JDict ((''benchmark_id'', JStr benchmark_id) # items @ (if kind = Results then [(''stopped'', JBool False)] else []))"

text \<open>\<open>_store\<close>: the first upload of a kind is kept and queued; the same one again changes nothing.\<close>

definition store_upload :: "env \<Rightarrow> string \<Rightarrow> reservation_row \<Rightarrow> string \<Rightarrow> intent_kind \<Rightarrow> (string \<times> json) list \<Rightarrow> pool \<Rightarrow> (string \<times> pool) result" where
  "store_upload env new_id r benchmark_id kind items p =
     (if r_handed_over_at r = None then Inl (Conflict ''confirmed handover is required before results or proofs'') else
      let digest = fingerprint env (JDict items) in
      case stored_upload benchmark_id kind p of
        Some old \<Rightarrow>
          if bp_digest old \<noteq> digest then Inl (Conflict ''benchmark payload is immutable after its first upload'') else Inr (digest, p)
      | None \<Rightarrow>
          if r_state r \<noteq> Accepted then Inl (Conflict ''benchmark no longer accepts a first result/proof upload'') else
          bindE (enqueue env new_id (r_id r) kind (upstream_payload benchmark_id kind items)
                   (p\<lparr>benchmark_payloads := benchmark_payloads p @ [\<lparr>bp_benchmark_id = benchmark_id, bp_kind = kind, bp_digest = digest,
                      bp_payload = JDict items, bp_payload_text = canonical (JDict items)\<rparr>]\<rparr>)) (\<lambda>(_, p). Inr (digest, p)))"

text \<open>\<open>row["assignment"]["num_nonces"]\<close>.\<close>

definition assigned_nonces :: "reservation_row \<Rightarrow> json result" where
  "assigned_nonces r = (case r_assignment r of None \<Rightarrow> Inl TypeError | Some v \<Rightarrow> subscript v ''num_nonces'')"

definition is_int32 :: "json \<Rightarrow> bool" where
  "is_int32 v = (case v of JInt n \<Rightarrow> - (2 ^ 31) \<le> n \<and> n < 2 ^ 31 | _ \<Rightarrow> False)"

text \<open>The root must already be in lower case.\<close>

definition check_root :: "json \<Rightarrow> unit result" where
  "check_root v =
     (case v of
        JStr s \<Rightarrow> bindE (hex_bytes 32 (JStr (''0x'' @ s))) (\<lambda>t. require (s = drop 2 t) (FundsError ''invalid Merkle root''))
      | _ \<Rightarrow> Inl (FundsError ''invalid Merkle root''))"

definition submit_results :: "env \<Rightarrow> string \<Rightarrow> string \<Rightarrow> string \<Rightarrow> json \<Rightarrow> pool \<Rightarrow> (string \<times> pool) result" where
  "submit_results env new_id benchmark_id member_id payload p =
     (case payload of
        JDict items \<Rightarrow>
          if set (map fst items) \<noteq> {''merkle_root'', ''solution_quality''}
          then Inl (FundsError ''result must contain a whole-benchmark Merkle root and nonce qualities'') else
          bindE (bindE (item items ''merkle_root'') check_root) (\<lambda>_.
          bindE (item items ''solution_quality'') (\<lambda>qualities.
          case qualities of
            JList qs \<Rightarrow>
              if \<not> list_all is_int32 qs then Inl (FundsError ''nonce qualities must be protocol int32 integers'') else
              bindE (owned_locked benchmark_id member_id p) (\<lambda>r.
              bindE (assigned_nonces r) (\<lambda>n.
              if \<not> json_eq (JInt (int (length qs))) n then Inl (FundsError ''result does not contain every benchmark nonce'')
              else store_upload env new_id r benchmark_id Results items p))
          | _ \<Rightarrow> Inl (FundsError ''nonce qualities must be protocol int32 integers'')))
      | _ \<Rightarrow> Inl (FundsError ''result must contain a whole-benchmark Merkle root and nonce qualities''))"

section \<open>Sampled nonces\<close>

fun natural_nonces :: "json list \<Rightarrow> int list option" where
  "natural_nonces [] = Some []"
| "natural_nonces (JInt n # vs) = (if n < 0 then None else map_option ((#) n) (natural_nonces vs))"
| "natural_nonces (_ # vs) = None"

definition sampled_nonces :: "json \<Rightarrow> int list option" where
  "sampled_nonces v = (case v of JList vs \<Rightarrow> natural_nonces vs | _ \<Rightarrow> None)"

definition nonce_bound :: "reservation_row \<Rightarrow> int result" where
  "nonce_bound r = bindE (assigned_nonces r) (\<lambda>v. case v of JInt n \<Rightarrow> Inr n | _ \<Rightarrow> Inl TypeError)"

definition record_sampled :: "string \<Rightarrow> json \<Rightarrow> json \<Rightarrow> pool \<Rightarrow> (unit \<times> pool) result" where
  "record_sampled benchmark_id nonces evidence p =
     (case (if truthy evidence then sampled_nonces nonces else None) of
        None \<Rightarrow> Inl (FundsError ''invalid authoritative sampled nonces or missing evidence'')
      | Some ns \<Rightarrow>
          if \<not> distinct ns then Inl (FundsError ''invalid authoritative sampled nonces or missing evidence'') else
          (case lookup r_benchmark_id (Some benchmark_id) (reservations p) of
             None \<Rightarrow> Inl (FundsError ''unknown pool benchmark'')
           | Some found \<Rightarrow>
               bindE (locked (r_id found) p) (\<lambda>r.
               bindE (if ns = [] then Inr 0 else nonce_bound r) (\<lambda>bound.
               if \<exists>n \<in> set ns. n \<ge> bound then Inl (FundsError ''sampled nonce is outside the assigned benchmark'') else
               case lookup bg_benchmark_id benchmark_id (benchmark_progress p) of
                 Some previous \<Rightarrow>
                   if bg_sampled_nonces previous \<noteq> sort ns then Inl (Conflict ''TIG sampled nonce set changed'') else Inr ((), p)
               | None \<Rightarrow> Inr ((), p\<lparr>benchmark_progress := benchmark_progress p @
                   [\<lparr>bg_benchmark_id = benchmark_id, bg_sampled_nonces = sort ns, bg_evidence = evidence\<rparr>]\<rparr>)))))"

section \<open>Merkle proofs\<close>

text \<open>\<open>_json(solution)\<close>: the text is quoted without escaping what is not ASCII, and encoded as UTF-8.\<close>

definition utf8 :: "char \<Rightarrow> string" where
  "utf8 c = (let n = of_char c :: nat in if n < 128 then [c] else [char_of (192 + n div 64), char_of (128 + n mod 64)])"

definition plain_char :: "char \<Rightarrow> string" where
  "plain_char c = (if (of_char c :: nat) \<ge> 127 then utf8 c else escape_char c)"

definition solution_bytes :: "string \<Rightarrow> string" where
  "solution_bytes s = CHR 34 # concat (map plain_char s) @ [CHR 34]"

text \<open>\<open>int.from_bytes(digest[:8], "little")\<close>.\<close>

fun little_endian :: "string \<Rightarrow> nat" where
  "little_endian [] = 0"
| "little_endian (c # s) = of_char c + 256 * little_endian s"

record output_leaf =
  lf_nonce :: int
  lf_runtime_signature :: int
  lf_fuel_consumed :: int
  lf_solution :: string

definition leaf_hash :: "(string \<Rightarrow> string) \<Rightarrow> output_leaf \<Rightarrow> string" where
  "leaf_hash blake l = blake (canonical (JDict [(''nonce'', JInt (lf_nonce l)), (''runtime_signature'', JInt (lf_runtime_signature l)),
     (''fuel_consumed'', JInt (lf_fuel_consumed l)),
     (''solution_signature'', JInt (int (little_endian (take 8 (blake (solution_bytes (lf_solution l)))))))]))"

definition uint64 :: "json \<Rightarrow> int result" where
  "uint64 v = (case v of JInt n \<Rightarrow> if 0 \<le> n \<and> n < 2 ^ 64 then Inr n else Inl (FundsError ''TIG output metadata must use uint64 integers'')
     | _ \<Rightarrow> Inl (FundsError ''TIG output metadata must use uint64 integers''))"

definition read_leaf :: "json \<Rightarrow> int \<Rightarrow> output_leaf result" where
  "read_leaf leaf nonces_total =
     (case leaf of
        JDict items \<Rightarrow>
          if set (map fst items) \<noteq> {''nonce'', ''runtime_signature'', ''fuel_consumed'', ''solution'', ''cpu_arch''}
          then Inl (FundsError ''invalid TIG output leaf'') else
          bindE (bindE (item items ''nonce'') uint64) (\<lambda>nonce. bindE (bindE (item items ''runtime_signature'') uint64) (\<lambda>signature.
          bindE (bindE (item items ''fuel_consumed'') uint64) (\<lambda>fuel.
          case (get ''cpu_arch'' items, get ''solution'' items) of
            (JStr arch, JStr solution) \<Rightarrow>
              if nonce \<ge> nonces_total \<or> arch \<notin> {''amd64'', ''arm64''} then Inl (FundsError ''TIG output does not match the benchmark'')
              else Inr \<lparr>lf_nonce = nonce, lf_runtime_signature = signature, lf_fuel_consumed = fuel, lf_solution = solution\<rparr>
          | _ \<Rightarrow> Inl (FundsError ''TIG output does not match the benchmark''))))
      | _ \<Rightarrow> Inl (FundsError ''invalid TIG output leaf''))"

text \<open>\<open>int(text, 16)\<close> of two characters, and \<open>bytes.fromhex\<close>, which skips white space between bytes.\<close>

definition int_of_pair :: "string \<Rightarrow> int option" where
  "int_of_pair s =
     (let t = strip s; negative = take 1 t = ''-''; digits = (if t \<noteq> [] \<and> hd t \<in> set ''+-'' then tl t else t)
      in if digits \<noteq> [] \<and> list_all is_hex digits then Some (if negative then - int (parse_hex digits) else int (parse_hex digits)) else None)"

definition blank_byte :: "char \<Rightarrow> bool" where
  "blank_byte c \<longleftrightarrow> (of_char c :: nat) \<in> {9, 10, 11, 12, 13, 32}"

fun bytes_fromhex :: "string \<Rightarrow> string option" where
  "bytes_fromhex [] = Some []"
| "bytes_fromhex [c] = (if blank_byte c then Some [] else None)"
| "bytes_fromhex (c # d # s) =
     (if blank_byte c then bytes_fromhex (d # s)
      else if is_hex c \<and> is_hex d then map_option ((#) (char_of (16 * hex_value c + hex_value d))) (bytes_fromhex s) else None)"

fun bit_count :: "nat \<Rightarrow> nat" where
  "bit_count n = (if n = 0 then 0 else Suc (bit_count (n div 2)))"

declare bit_count.simps [simp del]

definition bit_length :: "int \<Rightarrow> nat" where
  "bit_length n = bit_count (nat \<bar>n\<bar>)"

text \<open>One entry of a branch: the depth of the sibling and its hash.\<close>

definition branch_entry :: "string \<Rightarrow> (int \<times> string) option" where
  "branch_entry t =
     (case (int_of_pair (take 2 t), bytes_fromhex (drop 2 t)) of (Some d, Some other) \<Rightarrow> Some (d, other) | _ \<Rightarrow> None)"

text \<open>
  Climbing the branch from a leaf. Every failure is reported as an invalid encoding, also one of the depth:
  \<open>FundsError\<close> is a \<open>ValueError\<close>, which the loop catches.
\<close>

fun climb :: "(string \<Rightarrow> string) \<Rightarrow> nat \<Rightarrow> (int \<times> string) option list \<Rightarrow> nat \<Rightarrow> int \<Rightarrow> string \<Rightarrow> string option" where
  "climb blake maximum [] position level v = Some v"
| "climb blake maximum (None # es) position level v = None"
| "climb blake maximum (Some (depth, other) # es) position level v =
     (if depth < level \<or> depth \<ge> int maximum \<or> length other \<noteq> 32 then None else
      let position = position div 2 ^ nat (depth - level)
      in climb blake maximum es (position div 2) (depth + 1) (blake (if odd position then other @ v else v @ other)))"

fun pieces :: "nat \<Rightarrow> 'a list \<Rightarrow> 'a list list" where
  "pieces 0 xs = []"
| "pieces (Suc k) xs = take 66 xs # pieces k (drop 66 xs)"

definition byte_text :: "char \<Rightarrow> string" where
  "byte_text c = (let n = of_char c :: nat in [hex_digit (n div 16), hex_digit (n mod 16)])"

definition bytes_text :: "string \<Rightarrow> string" where "bytes_text s = concat (map byte_text s)"

definition proof_root :: "(string \<Rightarrow> string) \<Rightarrow> json \<Rightarrow> int \<Rightarrow> string result" where
  "proof_root blake proof nonces_total =
     (case proof of
        JDict items \<Rightarrow>
          if set (map fst items) \<noteq> {''leaf'', ''branch''} then Inl (FundsError ''invalid Merkle proof structure'') else
          bindE (bindE (item items ''leaf'') (\<lambda>l. read_leaf l nonces_total)) (\<lambda>leaf.
          case get ''branch'' items of
            JStr branch \<Rightarrow>
              if length branch mod 66 \<noteq> 0 then Inl (FundsError ''invalid Merkle branch encoding'')
              else if length branch div 66 > bit_length (nonces_total - 1) then Inl (FundsError ''Merkle branch exceeds benchmark depth'')
              else (case climb blake (bit_length (nonces_total - 1)) (map branch_entry (pieces (length branch div 66) branch))
                       (nat (lf_nonce leaf)) 0 (leaf_hash blake leaf) of
                      None \<Rightarrow> Inl (FundsError ''invalid Merkle proof encoding'')
                    | Some reached \<Rightarrow> Inr (bytes_text reached))
          | _ \<Rightarrow> Inl (FundsError ''invalid Merkle branch encoding''))
      | _ \<Rightarrow> Inl (FundsError ''invalid Merkle proof structure''))"

section \<open>Proofs\<close>

definition proof_nonce :: "json \<Rightarrow> int result" where
  "proof_nonce proof = bindE (path proof [''leaf'', ''nonce'']) (\<lambda>v. case v of JInt n \<Rightarrow> Inr n | _ \<Rightarrow> Inl TypeError)"

definition check_proof :: "(string \<Rightarrow> string) \<Rightarrow> reservation_row \<Rightarrow> payload_row \<Rightarrow> json \<Rightarrow> int result" where
  "check_proof blake r result proof =
     bindE (nonce_bound r) (\<lambda>nonces_total.
     bindE (proof_root blake proof nonces_total) (\<lambda>reached.
     bindE (subscript (bp_payload result) ''merkle_root'') (\<lambda>committed.
       if committed \<noteq> JStr reached then Inl (FundsError ''proof does not match the committed benchmark root'') else proof_nonce proof)))"

definition nonce_key :: "json \<Rightarrow> int" where
  "nonce_key proof = (case proof_nonce proof of Inl _ \<Rightarrow> 0 | Inr n \<Rightarrow> n)"

definition only_list :: "string \<Rightarrow> json \<Rightarrow> json list option" where
  "only_list key payload = (case payload of JDict [(k, JList ps)] \<Rightarrow> if k = key then Some ps else None | _ \<Rightarrow> None)"

lemma only_list_Some: "only_list key payload = Some ps \<longleftrightarrow> payload = JDict [(key, JList ps)]"
  by (simp add: only_list_def split: json.splits list.splits prod.splits)

definition proof_list :: "json \<Rightarrow> json list option" where "proof_list = only_list ''merkle_proofs''"

definition submit_proofs :: "(string \<Rightarrow> string) \<Rightarrow> env \<Rightarrow> string \<Rightarrow> string \<Rightarrow> string \<Rightarrow> json \<Rightarrow> pool \<Rightarrow> (string \<times> pool) result" where
  "submit_proofs blake env new_id benchmark_id member_id payload p =
     (case proof_list payload of
        None \<Rightarrow> Inl (FundsError ''invalid proof payload'')
      | Some ps \<Rightarrow>
          bindE (owned_locked benchmark_id member_id p) (\<lambda>r.
          case (lookup bg_benchmark_id benchmark_id (benchmark_progress p), stored_upload benchmark_id Results p) of
            (Some progress, Some result) \<Rightarrow>
              bindE (mapE (check_proof blake r result) ps) (\<lambda>nonces.
              if sort nonces \<noteq> bg_sampled_nonces progress then Inl (FundsError ''proofs must cover the exact sampled nonce set once'')
              else store_upload env new_id r benchmark_id Proofs [(''merkle_proofs'', JList (sort_key nonce_key ps))] p)
          | _ \<Rightarrow> Inl (Conflict ''results and authoritative sampled nonces must be stored first'')))"

section \<open>How the operations succeed\<close>

lemma submit_results_cases:
  assumes "submit_results env k i m payload p = Inr (x, p')"
  obtains items qs r n where "payload = JDict items" "dict_get ''solution_quality'' items = Some (JList qs)" "owned_locked i m p = Inr r"
    "assigned_nonces r = Inr n" "json_eq (JInt (int (length qs))) n" "store_upload env k r i Results items p = Inr (x, p')"
proof -
  obtain items where items: "payload = JDict items" using assms by (cases payload) (simp_all only: submit_results_def json.case sum.simps)
  obtain q where q: "item items ''solution_quality'' = Inr q" and rest: "(case q of
            JList qs \<Rightarrow>
              if \<not> list_all is_int32 qs then Inl (FundsError ''nonce qualities must be protocol int32 integers'') else
              bindE (owned_locked i m p) (\<lambda>r.
              bindE (assigned_nonces r) (\<lambda>n.
              if \<not> json_eq (JInt (int (length qs))) n then Inl (FundsError ''result does not contain every benchmark nonce'')
              else store_upload env k r i Results items p))
          | _ \<Rightarrow> Inl (FundsError ''nonce qualities must be protocol int32 integers'')) = Inr (x, p')"
    using assms unfolding items submit_results_def json.case raise_if_Inr
    by (simp only: bindE_Inr [of "item items ''solution_quality''"] bindE_Inr [of "bindE (item items ''merkle_root'') check_root"]) blast
  obtain qs where qs: "q = JList qs" using rest by (cases q) (simp_all only: json.case sum.simps)
  obtain r n where "owned_locked i m p = Inr r" "assigned_nonces r = Inr n" "json_eq (JInt (int (length qs))) n"
    "store_upload env k r i Results items p = Inr (x, p')"
    using rest unfolding qs json.case raise_if_Inr bindE_Inr by blast
  with items q qs show ?thesis by (intro that) (simp_all add: item_Inr)
qed

lemma record_sampled_cases:
  assumes "record_sampled i nonces evidence p = Inr (u, p')"
  obtains (again) "p' = p"
    | (first) ns where "p' = p\<lparr>benchmark_progress := benchmark_progress p @ [\<lparr>bg_benchmark_id = i, bg_sampled_nonces = sort ns, bg_evidence = evidence\<rparr>]\<rparr>"
      "distinct ns" "lookup bg_benchmark_id i (benchmark_progress p) = None"
proof -
  obtain ns where ns: "(if truthy evidence then sampled_nonces nonces else None) = Some ns"
    using assms unfolding record_sampled_def by (cases "if truthy evidence then sampled_nonces nonces else None") (simp_all only: option.case sum.simps)
  obtain found where found: "lookup r_benchmark_id (Some i) (reservations p) = Some found"
    using assms unfolding record_sampled_def ns option.case raise_if_Inr
    by (cases "lookup r_benchmark_id (Some i) (reservations p)") (simp_all only: option.case sum.simps simp_thms)
  note run = assms [unfolded record_sampled_def ns found option.case raise_if_Inr bindE_Inr]
  show ?thesis
  proof (cases "lookup bg_benchmark_id i (benchmark_progress p)")
    case None
    from run have "distinct ns" "p' = p\<lparr>benchmark_progress := benchmark_progress p @ [\<lparr>bg_benchmark_id = i, bg_sampled_nonces = sort ns, bg_evidence = evidence\<rparr>]\<rparr>"
      unfolding None option.case sum.inject prod.inject by blast+
    then show ?thesis using None by (intro first)
  next
    case (Some previous)
    from run have "p' = p" unfolding Some option.case raise_if_Inr sum.inject prod.inject by blast
    then show ?thesis by (rule again)
  qed
qed

lemma submit_proofs_cases:
  assumes "submit_proofs blake env k i m payload p = Inr (x, p')"
  obtains ps r progress result nonces where "payload = JDict [(''merkle_proofs'', JList ps)]" "owned_locked i m p = Inr r"
    "lookup bg_benchmark_id i (benchmark_progress p) = Some progress" "stored_upload i Results p = Some result"
    "mapE (check_proof blake r result) ps = Inr nonces" "sort nonces = bg_sampled_nonces progress"
    "store_upload env k r i Proofs [(''merkle_proofs'', JList (sort_key nonce_key ps))] p = Inr (x, p')"
proof -
  obtain ps where ps: "proof_list payload = Some ps"
    using assms unfolding submit_proofs_def by (cases "proof_list payload") (simp_all only: option.case sum.simps)
  obtain r where r: "owned_locked i m p = Inr r" and rest: "(case (lookup bg_benchmark_id i (benchmark_progress p), stored_upload i Results p) of
            (Some progress, Some result) \<Rightarrow>
              bindE (mapE (check_proof blake r result) ps) (\<lambda>nonces.
              if sort nonces \<noteq> bg_sampled_nonces progress then Inl (FundsError ''proofs must cover the exact sampled nonce set once'')
              else store_upload env k r i Proofs [(''merkle_proofs'', JList (sort_key nonce_key ps))] p)
          | _ \<Rightarrow> Inl (Conflict ''results and authoritative sampled nonces must be stored first'')) = Inr (x, p')"
    using assms unfolding submit_proofs_def ps option.case bindE_Inr [of "owned_locked i m p"] by blast
  obtain progress result where found: "lookup bg_benchmark_id i (benchmark_progress p) = Some progress" "stored_upload i Results p = Some result"
    using rest by (cases "lookup bg_benchmark_id i (benchmark_progress p)"; cases "stored_upload i Results p") (simp_all only: prod.case option.case sum.simps)
  show ?thesis using rest unfolding found prod.case option.case bindE_Inr raise_if_Inr
    by (elim exE conjE, intro that [OF ps [unfolded proof_list_def only_list_Some] r found]) simp_all
qed

end
