(* ===== verification/System_Steps.thy ===== *)
theory System_Steps
  imports System Work_Requests Submissions Member_Protocol
begin

text \<open>
  The relation of all committed operations of the pool, and its soundness: each step keeps the invariant of
  the part it belongs to and, by the contracts of the parts, those of all the others.
\<close>

section \<open>The steps of the pool\<close>

text \<open>
  One committed operation of the pool. The identifiers, clocks and captured evidence an operation is given
  are arbitrary, so every order and interleaving of operations is a run of this relation.
\<close>

inductive pool_step :: "pool \<Rightarrow> pool \<Rightarrow> bool" where
  accounts: "initialize_accounts p = Inr (u, p') \<Longrightarrow> pool_step p p'"
| register: "register_verified i wallet p = Inr (m, p') \<Longrightarrow> pool_step p p'"
| multiplier: "set_multiplier i v actor reason key p = Inr (c, p') \<Longrightarrow> pool_step p p'"
| native: "receive_native env i t p = Inr (u, p') \<Longrightarrow> pool_step p p'"
| internal_native: "receive_internal env i r actor p = Inr (u, p') \<Longrightarrow> pool_step p p'"
| starter: "starter_initialize env i capture player actor p = Inr (o', p') \<Longrightarrow> pool_step p p'"
| incoming: "receive env i j tf p = Inr (d, p') \<Longrightarrow> pool_step p p'"
| reviewed: "attribute_reviewed env i tf actor evidence m operator p = Inr (d, p') \<Longrightarrow> pool_step p p'"
| reserving: "reserve env i j m key rnd resource selection payload fee expires text p = Inr (r, p') \<Longrightarrow> pool_step p p'"
| submitting: "mark_submitting env i p = Inr (payload, p') \<Longrightarrow> pool_step p p'"
| accepting: "accept env j i bid assignment fee evidence p = Inr (r, p') \<Longrightarrow> pool_step p p'"
| unstarted: "release_unstarted env j j' i rejected fee evidence p = Inr (r, p') \<Longrightarrow> pool_step p p'"
| unhanded: "release_unhanded env j i actor reason key p = Inr (r, p') \<Longrightarrow> pool_step p p'"
| handover: "acknowledge env i m digest p = Inr (r, p') \<Longrightarrow> pool_step p p'"
| outcome: "record_outcome env i state h evidence p = Inr (r, p') \<Longrightarrow> pool_step p p'"
| withdrawing: "request env i j m key n p = Inr (w, p') \<Longrightarrow> pool_step p p'"
| operator_withdrawing: "request_operator env i j key n net recipient retain actor reason p = Inr (w, p') \<Longrightarrow> pool_step p p'"
| approving: "approve i net model actor evidence p = Inr (review, p') \<Longrightarrow> pool_step p p'"
| releasing: "release env j i actor reason key m p = Inr (w, p') \<Longrightarrow> pool_step p p'"
| sending: "begin_attempt env i j w key pre limit actor retain p = Inr (a, p') \<Longrightarrow> pool_step p p'"
| claiming: "claim_transaction i h actor p = Inr (u, p') \<Longrightarrow> pool_step p p'"
| reconciling: "reconcile env j i t tf p = (result, p') \<Longrightarrow> pool_step p p'"
| reconciling_sponsored: "reconcile_sponsored env j i x actor reason p = Inr (w', p') \<Longrightarrow> pool_step p p'"
| topping_up: "begin_topup env i j key pre capture n limit model actor p = Inr (tu, p') \<Longrightarrow> pool_step p p'"
| claiming_topup: "claim_topup i h actor p = Inr (u, p') \<Longrightarrow> pool_step p p'"
| reconciling_topup: "reconcile_topup env j i t tf p = (report, p') \<Longrightarrow> pool_step p p'"
| crediting_topup: "credit_topup env j i capture p = Inr (tc, p') \<Longrightarrow> pool_step p p'"
| funding: "record_funding env data p = Inr (fr, p') \<Longrightarrow> pool_step p p'"
| finalizing: "finalize_collateral env j i s p = Inr (fz, p') \<Longrightarrow> pool_step p p'"
| declaring: "declare_earnings env n net cost b evidence p = Inr (ea, p') \<Longrightarrow> pool_step p p'"
| crediting_receipt: "attribute_receipt env j n tf evidence p = Inr (rp, p') \<Longrightarrow> pool_step p p'"
| reimbursing: "reimburse_operating_cost env j n' p = Inr (rb, p') \<Longrightarrow> pool_step p p'"
| settling: "settle env j n s do_post expected p = Inr (st, p') \<Longrightarrow> pool_step p p'"
| observing: "record_chain env ids data o'' p = (cr, p') \<Longrightarrow> pool_step p p'"
| capping: "set_cap env k a b c d limits p = Inr (cap, p') \<Longrightarrow> pool_step p p'"
| pausing: "set_pause v actor reason key p = Inr (ev, p') \<Longrightarrow> pool_step p p'"
| piloting: "initialize a b p = Inr (pc, p') \<Longrightarrow> pool_step p p'"
| extending: "Pilot.extend a b c d p = Inr (ph, p') \<Longrightarrow> pool_step p p'"
| collecting: "initialize_stream a p = Inr (u, p') \<Longrightarrow> pool_step p p'"
| advancing: "pool_step p (advance h p)"
| gap_policy: "set_gap_policy a b c d p = Inr (gp, p') \<Longrightarrow> pool_step p p'"
| waiving: "waive_prelaunch_gap a b c d p = Inr (gw, p') \<Longrightarrow> pool_step p p'"
| crediting: "credit_block env b' player p = Inr (q, p') \<Longrightarrow> pool_step p p'"
| scoping: "report_scope a rs v' e p = Inr (u, p') \<Longrightarrow> pool_step p p'"
| reporting: "record_reports env i a b' payload metadata e' p = Inr (cx, p') \<Longrightarrow> pool_step p p'"
| indexing: "record_index env i a b' player challenge payload metadata e' p = Inr (cx, p') \<Longrightarrow> pool_step p p'"
| confirming: "record_confirmation_round env i bid h b' p = Inr (cf, p') \<Longrightarrow> pool_step p p'"
| sealing: "seal env i n' captures b' p = Inr (sl, p') \<Longrightarrow> pool_step p p'"
| offering: "create_request env i m key resource ct capacity ttl p = Inr (wr, p') \<Longrightarrow> pool_step p p'"
| viewing: "view_request env i m p = Inr (rv, p') \<Longrightarrow> pool_step p p'"
| refreshing: "refresh_request env i m ttl p = Inr (wr, p') \<Longrightarrow> pool_step p p'"
| expiring: "has_queued env p = (waiting, p') \<Longrightarrow> pool_step p p'"
| referencing: "record_references env i payload metadata p = Inr (rr, p') \<Longrightarrow> pool_step p p'"
| serving: "serve_queue env i c p = Inr (r', p') \<Longrightarrow> pool_step p p'"
| archiving: "record_binary i url digest n p = Inr (x, p') \<Longrightarrow> pool_step p p'"
| remembering: "remember_verified env i a b' c' d e p = Inr (u, p') \<Longrightarrow> pool_step p p'"
| submitting_intent: "begin_submission env i preflight p = Inr (ox, p') \<Longrightarrow> pool_step p p'"
| cancelling: "cancel_unsent env j j' i evidence p = Inr (u, p') \<Longrightarrow> pool_step p p'"
| answering: "record_response k i response p = Inr (yes, p') \<Longrightarrow> pool_step p p'"
| rejecting: "definitive_rejection env j j' i evidence n p = Inr (u, p') \<Longrightarrow> pool_step p p'"
| recovering: "recover_precommit i precommits evidence p = Inr (res, p') \<Longrightarrow> pool_step p p'"
| publishing: "publish_assignment env j i precommit evidence origin p = Inr (r, p') \<Longrightarrow> pool_step p p'"
| confirming_payload: "confirm_payload i kind evidence p = Inr (u, p') \<Longrightarrow> pool_step p p'"
| retiring: "retire_unsent_payload i p = Inr (yes, p') \<Longrightarrow> pool_step p p'"
| acknowledging: "acknowledge_owned env i m digest p = Inr (bv, p') \<Longrightarrow> pool_step p p'"
| uploading_results: "submit_results env k i m payload p = Inr (x, p') \<Longrightarrow> pool_step p p'"
| sampling: "record_sampled i nonces evidence p = Inr (u, p') \<Longrightarrow> pool_step p p'"
| uploading_proofs: "submit_proofs blake env k i m payload p = Inr (x, p') \<Longrightarrow> pool_step p p'"

inductive pool_reachable :: "pool \<Rightarrow> bool" where
  created: "pool_reachable empty_pool"
| stepped: "pool_reachable p \<Longrightarrow> pool_step p p' \<Longrightarrow> pool_reachable p'"

lemma empty_rows [simp]:
  "ledger empty_pool = empty_ledger" "members empty_pool = []" "transfer_attributions empty_pool = []" "reservations empty_pool = []"
  "withdrawals empty_pool = []" "withdrawal_attempts empty_pool = []" "withdrawal_attempt_outcomes empty_pool = []"
  "protocol_topups empty_pool = []" "topup_tables empty_pool = empty_funding" "booked empty_pool = empty_rounds"
  "chain_stream empty_pool = None" "chain_of empty_pool = empty_chain"
  by (simp_all add: empty_pool_def)

lemma empty_ledger_rows [simp]: "balance empty_ledger k = 0" "\<not> recorded empty_ledger k"
  by (simp_all add: balance_def recorded_def empty_ledger_def)

lemma empty_parts_ok:
  "deposits_ok empty_pool" "reservations_ok empty_pool" "withdrawals_ok empty_pool" "topups_ok empty_pool" "rounds_ok empty_pool" "cursor_ok empty_pool"
proof -
  show "deposits_ok empty_pool" by (rule deposits_ok_start) (simp_all add: empty_ledger_def)
  show "reservations_ok empty_pool"
    by (simp add: reservations_ok_def slots_held_def collateral_due_def fee_due_def journals_due_def)
  show "withdrawals_ok empty_pool" by (simp add: withdrawals_ok_def sends_ok_def sends_money_ok_def withdrawal_rows_ok_def attempts_ok_def
        unresolved_def pending_due_def gas_due_def)
  show "topups_ok empty_pool" by (simp add: topups_ok_def topup_money_ok_def topup_row_ok_def topup_due_def credits_once_def empty_funding_def)
  show "rounds_ok empty_pool"
    by (simp add: rounds_ok_def pots_ok_def settlement_journals_ok_def funding_ok_def round_received_def reimbursed_of_def forfeited_def
        paid_out_def settled_def earnings_of_def empty_rounds_def)
  show "cursor_ok empty_pool" by (simp add: cursor_ok_def empty_chain_def)
qed

lemma empty_pool_ok: "pool_ok empty_pool"
  unfolding pool_ok_def
proof (intro conjI allI)
  show "part_ok x empty_pool" for x by (cases x) (simp_all add: empty_parts_ok)
qed simp

lemma pool_ok_parts:
  assumes "pool_ok p"
  shows "ledger_ok (ledger p)" "members_ok p" "deposits_ok p" "reservations_ok p" "withdrawals_ok p" "topups_ok p" "rounds_ok p" "cursor_ok p"
proof -
  show "ledger_ok (ledger p)" using assms by (simp add: pool_ok_def)
qed (use pool_ok_part [OF assms, of Membership] pool_ok_part [OF assms, of Deposits] pool_ok_part [OF assms, of Reservations]
    pool_ok_part [OF assms, of Sends] pool_ok_part [OF assms, of Topups] pool_ok_part [OF assms, of Rounds] pool_ok_part [OF assms, of Cursor] in simp_all)

text \<open>A step of the pool keeps the invariant of the part it belongs to, and the others by their contract.\<close>

lemma pool_step_single:
  assumes "pool_ok p" and "step_of {x} p p'" and "part_ok x p'"
  shows "sound_step p p'"
  using pool_ok_step [OF assms(1,2)] assms(3) by simp

lemma pool_step_member:
  assumes ok: "pool_ok p"
  shows "register_verified i wallet p = Inr (m, p') \<Longrightarrow> sound_step p p'" and "set_multiplier i v actor reason key p = Inr (c, p') \<Longrightarrow> sound_step p p'"
proof -
  note members = pool_ok_parts(2) [OF ok]
  show "sound_step p p'" if "register_verified i wallet p = Inr (m, p')"
    by (rule pool_step_single [OF ok register_step [OF that]]) (simp add: members_ok_register [OF members that])
  show "sound_step p p'" if "set_multiplier i v actor reason key p = Inr (c, p')"
    by (rule pool_step_single [OF ok multiplier_step [OF that]]) (simp add: members_ok_set_multiplier [OF members that])
qed

lemma pool_step_deposit:
  assumes ok: "pool_ok p"
  shows "receive env i j tf p = Inr (d, p') \<Longrightarrow> sound_step p p'"
    and "attribute_reviewed env i tf actor evidence mm operator p = Inr (d, p') \<Longrightarrow> sound_step p p'"
proof -
  note deposits = pool_ok_parts(3) [OF ok]
  show "sound_step p p'" if "receive env i j tf p = Inr (d, p')"
    by (rule pool_step_single [OF ok receive_step [OF that]]) (simp add: deposits_ok_receive [OF deposits that])
  show "sound_step p p'" if "attribute_reviewed env i tf actor evidence mm operator p = Inr (d, p')"
    by (rule pool_step_single [OF ok attribute_reviewed_step [OF that]]) (simp add: attribute_reviewed_ok [OF deposits that])
qed

lemma pool_step_idle: "pool_ok p \<Longrightarrow> step_of {} p p' \<Longrightarrow> sound_step p p'"
  by (rule pool_ok_step) auto

lemma pool_step_reservation: "pool_ok p \<Longrightarrow> reservation_step p p' \<Longrightarrow> reservations_ok p' \<Longrightarrow> sound_step p p'"
  by (rule pool_ok_step [OF _ reservation_step_of]) auto

lemma pool_step_send: "pool_ok p \<Longrightarrow> withdrawal_step p p' \<Longrightarrow> far_rows p' = far_rows p \<Longrightarrow> withdrawals_ok p' \<Longrightarrow> sound_step p p'"
  by (rule pool_ok_step [OF _ withdrawal_step_of]) auto

lemma pool_step_topup: "pool_ok p \<Longrightarrow> topup_step p p' \<Longrightarrow> chain_rows p' = chain_rows p \<Longrightarrow> topups_ok p' \<Longrightarrow> sound_step p p'"
  by (rule pool_ok_step [OF _ topup_step_of]) auto

lemma pool_step_round:
  assumes ok: "pool_ok p"
  shows "finalize_collateral env j i s p = Inr (fz, p') \<Longrightarrow> sound_step p p'"
    and "declare_earnings env n net cost b evidence p = Inr (ea, p') \<Longrightarrow> sound_step p p'"
    and "attribute_receipt env j n tf evidence p = Inr (rp, p') \<Longrightarrow> sound_step p p'"
    and "reimburse_operating_cost env j r p = Inr (rb, p') \<Longrightarrow> sound_step p p'"
    and "settle env j n s do_post expected p = Inr (st, p') \<Longrightarrow> sound_step p p'"
proof -
  note parts = pool_ok_parts [OF ok]
  show "sound_step p p'" if "finalize_collateral env j i s p = Inr (fz, p')"
    using finalize_collateral_ok [OF that parts(7,4)] by (intro pool_ok_step [OF ok finalize_collateral_step [OF that parts(7)]]) auto
  show "sound_step p p'" if "declare_earnings env n net cost b evidence p = Inr (ea, p')"
    using declare_earnings_ok [OF that parts(7)] by (intro pool_ok_step [OF ok declare_earnings_step [OF that]]) auto
  show "sound_step p p'" if "attribute_receipt env j n tf evidence p = Inr (rp, p')"
    using attribute_receipt_ok [OF that parts(7,3)] by (intro pool_ok_step [OF ok attribute_receipt_step [OF that]]) auto
  show "sound_step p p'" if "reimburse_operating_cost env j r p = Inr (rb, p')"
    using reimburse_ok [OF that parts(7)] by (intro pool_ok_step [OF ok reimburse_step [OF that]]) auto
  show "sound_step p p'" if "settle env j n s do_post expected p = Inr (st, p')"
    using settle_ok [OF that parts(7)] by (intro pool_ok_step [OF ok settle_step [OF that parts(7)]]) auto
qed

lemma pool_step_chain:
  assumes ok: "pool_ok p" and run: "record_chain env ids data o' p = (r, p')"
  shows "sound_step p p'"
proof -
  have "observer_step p p'" by (rule record_chain_observer [OF run])
  moreover have "cursor_ok p'" using record_chain_step [OF run] pool_ok_parts(8) [OF ok] by (simp add: cursor_step_def)
  ultimately show ?thesis using pool_ok_parts(3) [OF ok] by (intro pool_ok_step [OF ok]) (auto simp: observer_step_def)
qed

lemma pool_step_reservations:
  assumes ok: "pool_ok p"
  shows "reserve env i j m key rnd resource selection payload fee expires text p = Inr (r, p') \<Longrightarrow> sound_step p p'"
    and "mark_submitting env i p = Inr (payload', p') \<Longrightarrow> sound_step p p'"
    and "accept env j i bid assignment fee evidence p = Inr (r, p') \<Longrightarrow> sound_step p p'"
    and "release_unstarted env j j' i rejected fee evidence p = Inr (r, p') \<Longrightarrow> sound_step p p'"
    and "release_unhanded env j i actor reason key p = Inr (r, p') \<Longrightarrow> sound_step p p'"
    and "acknowledge env i m digest p = Inr (r, p') \<Longrightarrow> sound_step p p'"
    and "record_outcome env i state h evidence p = Inr (r, p') \<Longrightarrow> sound_step p p'"
proof -
  note rows = pool_ok_parts(4) [OF ok]
  show "sound_step p p'" if "reserve env i j m key rnd resource selection payload fee expires text p = Inr (r, p')"
    by (rule pool_step_reservation [OF ok reserve_step [OF that] reservations_ok_reserve [OF rows that]])
  show "sound_step p p'" if "mark_submitting env i p = Inr (payload', p')"
    by (rule pool_step_reservation [OF ok mark_submitting_step [OF that] reservations_ok_mark_submitting [OF rows that]])
  show "sound_step p p'" if "accept env j i bid assignment fee evidence p = Inr (r, p')"
    by (rule pool_step_reservation [OF ok accept_step [OF that] reservations_ok_accept [OF rows that]])
  show "sound_step p p'" if "release_unstarted env j j' i rejected fee evidence p = Inr (r, p')"
    by (rule pool_step_reservation [OF ok release_unstarted_step [OF that] reservations_ok_release_unstarted [OF rows that]])
  show "sound_step p p'" if "release_unhanded env j i actor reason key p = Inr (r, p')"
    by (rule pool_step_reservation [OF ok release_unhanded_step [OF that] reservations_ok_release_unhanded [OF rows that]])
  show "sound_step p p'" if "acknowledge env i m digest p = Inr (r, p')"
    by (rule pool_step_reservation [OF ok acknowledge_step [OF that] reservations_ok_acknowledge [OF rows that]])
  show "sound_step p p'" if "record_outcome env i state h evidence p = Inr (r, p')"
    by (rule pool_step_reservation [OF ok record_outcome_step [OF that] reservations_ok_record_outcome [OF rows that]])
qed

lemma pool_step_sends:
  assumes ok: "pool_ok p"
  shows "request env i j m key n p = Inr (w, p') \<Longrightarrow> sound_step p p'"
    and "request_operator env i j key n net recipient retain actor reason p = Inr (w, p') \<Longrightarrow> sound_step p p'"
    and "approve i net model actor evidence p = Inr (review, p') \<Longrightarrow> sound_step p p'"
    and "release env j i actor reason key mm p = Inr (w, p') \<Longrightarrow> sound_step p p'"
    and "begin_attempt env i j w' key pre limit actor retain' p = Inr (a, p') \<Longrightarrow> sound_step p p'"
    and "claim_transaction i h actor p = Inr (u, p') \<Longrightarrow> sound_step p p'"
    and "reconcile env j i t tf p = (result, p') \<Longrightarrow> sound_step p p'"
    and "reconcile_sponsored env j i x actor reason p = Inr (w'', p') \<Longrightarrow> sound_step p p'"
proof -
  note rows = pool_ok_parts(5) [OF ok]
  show "sound_step p p'" if "request env i j m key n p = Inr (w, p')"
    by (rule pool_step_send [OF ok request_ok(2) [OF rows that] opened_far [OF that] request_ok(1) [OF rows that]])
  show "sound_step p p'" if "request_operator env i j key n net recipient retain actor reason p = Inr (w, p')"
    by (rule pool_step_send [OF ok request_operator_ok(2) [OF rows that] request_operator_far [OF that] request_operator_ok(1) [OF rows that]])
  show "sound_step p p'" if "approve i net model actor evidence p = Inr (review, p')"
    by (rule pool_step_send [OF ok approve_ok(2) [OF rows that] approve_far [OF that] approve_ok(1) [OF rows that]])
  show "sound_step p p'" if "release env j i actor reason key mm p = Inr (w, p')"
    by (rule pool_step_send [OF ok release_ok(2) [OF rows that] release_far [OF that] release_ok(1) [OF rows that]])
  show "sound_step p p'" if "begin_attempt env i j w' key pre limit actor retain' p = Inr (a, p')"
    by (rule pool_step_send [OF ok begin_attempt_ok(2) [OF rows that] begin_attempt_far [OF that] begin_attempt_ok(1) [OF rows that]])
  show "sound_step p p'" if "claim_transaction i h actor p = Inr (u, p')"
    by (rule pool_step_send [OF ok claim_transaction_ok(2) [OF rows that] claim_transaction_far [OF that] claim_transaction_ok(1) [OF rows that]])
  show "sound_step p p'" if "reconcile env j i t tf p = (result, p')"
    by (rule pool_step_send [OF ok reconcile_ok(2) [OF rows that] reconcile_far [OF that] reconcile_ok(1) [OF rows that]])
  show "sound_step p p'" if "reconcile_sponsored env j i x actor reason p = Inr (w'', p')"
    by (rule pool_step_send [OF ok reconcile_sponsored_ok(2) [OF rows that] reconcile_sponsored_far [OF that] reconcile_sponsored_ok(1) [OF rows that]])
qed

lemma pool_step_topups:
  assumes ok: "pool_ok p"
  shows "begin_topup env i j key pre capture n limit model actor p = Inr (tu, p') \<Longrightarrow> sound_step p p'"
    and "claim_topup i h actor p = Inr (u, p') \<Longrightarrow> sound_step p p'"
    and "reconcile_topup env j i t tf p = (report, p') \<Longrightarrow> sound_step p p'"
    and "credit_topup env j i capture p = Inr (tc, p') \<Longrightarrow> sound_step p p'"
proof -
  note rows = pool_ok_parts(6) [OF ok]
  show "sound_step p p'" if "begin_topup env i j key pre capture n limit model actor p = Inr (tu, p')"
    by (rule pool_step_topup [OF ok begin_topup_ok(2) [OF rows that] begin_topup_chain [OF that] begin_topup_ok(1) [OF rows that]])
  show "sound_step p p'" if "claim_topup i h actor p = Inr (u, p')"
    by (rule pool_step_topup [OF ok claim_topup_ok(2) [OF rows that] claim_topup_chain [OF that] claim_topup_ok(1) [OF rows that]])
  show "sound_step p p'" if "reconcile_topup env j i t tf p = (report, p')"
    by (rule pool_step_topup [OF ok reconcile_topup_ok(2) [OF rows that] reconcile_topup_chain [OF that] reconcile_topup_ok(1) [OF rows that]])
  show "sound_step p p'" if "credit_topup env j i capture p = Inr (tc, p')"
    by (rule pool_step_topup [OF ok credit_topup_ok(2) [OF rows that] credit_topup_chain [OF that] credit_topup_ok(1) [OF rows that]])
qed

section \<open>Work and submissions\<close>

text \<open>The tables of the work are read by no invariant; what an operation does to its reservation is a step of its own.\<close>

lemma sound_then_idle: "sound_step p q \<Longrightarrow> same_accounting q p' \<Longrightarrow> sound_step p p'"
proof -
  assume s: "sound_step p q" and i: "same_accounting q p'"
  then have "sound_step q p'" by (intro pool_step_idle idle_step) (simp_all add: sound_step_def)
  moreover have "ledger p' = ledger q" using i by (simp add: same_accounting_def)
  ultimately show ?thesis using s by (auto simp: sound_step_def)
qed

lemma sound_after_idle: "pool_ok p \<Longrightarrow> same_accounting p q \<Longrightarrow> (pool_ok q \<Longrightarrow> sound_step q p') \<Longrightarrow> sound_step p p'"
proof -
  assume ok: "pool_ok p" and i: "same_accounting p q" and s: "pool_ok q \<Longrightarrow> sound_step q p'"
  have "pool_ok q" using pool_step_idle [OF ok idle_step [OF i]] by (simp add: sound_step_def)
  from s [OF this] show ?thesis using i by (simp add: sound_step_def same_accounting_def)
qed

lemma same_accounting_trans: "same_accounting p q \<Longrightarrow> same_accounting q r \<Longrightarrow> same_accounting p r"
  by (simp add: same_accounting_def)

lemma table_idle [simp]:
  "same_accounting p (with_outbox rows p)" "same_accounting p (update_intent i f p)" "same_accounting p (accept_intent i e p)"
  "same_accounting p (with_requests qs p)" "same_accounting p (update_request i g p)" "same_accounting p (expire_where P env p)"
  by (simp_all add: with_outbox_def update_intent_def accept_intent_def with_requests_def update_request_def expire_where_def idle_rows)

lemma enqueue_idle: "enqueue env i r k payload p = Inr (u, p') \<Longrightarrow> same_accounting p p'"
  by (auto simp: enqueue_def split: option.splits if_splits)

lemma mark_sent_idle: "mark_sent env i p = Inr (x, p') \<Longrightarrow> same_accounting p p'"
  by (auto simp: mark_sent_def split: option.splits if_splits)

lemma mark_reserved_idle: "mark_reserved i r p = Inr p' \<Longrightarrow> same_accounting p p'"
  by (auto simp: mark_reserved_def split: if_splits)

lemma save_receipt_idle: "save_receipt r b evidence p = Inr p' \<Longrightarrow> same_accounting p p'"
  by (auto simp: save_receipt_def bindE_Inr idle_rows split: option.splits if_splits)

lemma create_request_idle: "create_request env i m key resource ct capacity ttl p = Inr (wr, p') \<Longrightarrow> same_accounting p p'"
  by (auto simp: create_request_def bindE_Inr Let_def split: option.splits if_splits)

lemma view_request_idle: "view_request env i m p = Inr (rv, p') \<Longrightarrow> same_accounting p p'"
  by (auto simp: view_request_def Let_def split: option.splits)

lemma refresh_request_idle: "refresh_request env i m ttl p = Inr (wr, p') \<Longrightarrow> same_accounting p p'"
  by (auto simp: refresh_request_def Let_def split: option.splits if_splits)

lemma has_queued_idle: "has_queued env p = (waiting, p') \<Longrightarrow> same_accounting p p'"
  by (auto simp: has_queued_def Let_def)

lemma record_references_idle: "record_references env i payload metadata p = Inr (rr, p') \<Longrightarrow> same_accounting p p'"
  by (auto simp: record_references_def bindE_Inr Let_def idle_rows split: option.splits if_splits)

lemma record_binary_idle: "record_binary i url digest n p = Inr (x, p') \<Longrightarrow> same_accounting p p'"
  by (auto simp: record_binary_def bindE_Inr idle_rows split: option.splits if_splits)

lemma remember_verified_idle: "remember_verified env i a b c d e p = Inr (u, p') \<Longrightarrow> same_accounting p p'"
  unfolding remember_verified_def raise_if_Inr by (elim conjE) (auto simp: idle_rows)

lemma record_response_idle:
  assumes "record_response k i response p = Inr (yes, p')"
  shows "same_accounting p p'"
  using assms
proof (cases rule: response_cases)
  case (1 r x q p1)
  have "same_accounting p p1" unfolding 1(3) by (rule idle_rows)
  moreover have "same_accounting p1 q" using 1(4) by (auto dest: save_receipt_idle split: if_splits)
  moreover have "same_accounting q p'" using 1(6) by simp
  ultimately show ?thesis by (blast intro: same_accounting_trans)
qed

lemma recover_precommit_idle:
  assumes "recover_precommit i precommits evidence p = Inr (res, p')"
  shows "same_accounting p p'"
  using assms
proof (cases rule: recover_cases)
  case (1 r x vs seen found)
  from 1(8) show ?thesis by (elim disjE exE conjE) (auto dest: save_receipt_idle intro: same_accounting_trans)
qed

lemma confirm_payload_idle: "confirm_payload i kind evidence p = Inr (u, p') \<Longrightarrow> same_accounting p p'"
  by (auto simp: confirm_payload_def bindE_Inr split: option.splits if_splits)

lemma retire_idle: "retire_unsent_payload i p = Inr (yes, p') \<Longrightarrow> same_accounting p p'"
  by (auto simp: retire_unsent_payload_def bindE_Inr split: if_splits)

lemma store_upload_idle: "store_upload env k r i kind items p = Inr (x, p') \<Longrightarrow> same_accounting p p'"
  unfolding store_upload_def raise_if_Inr Let_def
  by (auto simp: bindE_Inr split: option.splits if_splits intro: same_accounting_trans [OF idle_rows(8)] dest: enqueue_idle)

lemma submit_results_idle: "submit_results env k i m payload p = Inr (x, p') \<Longrightarrow> same_accounting p p'"
  by (erule submit_results_cases) (rule store_upload_idle)

lemma record_sampled_idle: "record_sampled i nonces evidence p = Inr (u, p') \<Longrightarrow> same_accounting p p'"
  by (erule record_sampled_cases) (simp_all add: idle_rows)

lemma submit_proofs_idle: "submit_proofs blake env k i m payload p = Inr (x, p') \<Longrightarrow> same_accounting p p'"
  by (erule submit_proofs_cases) (rule store_upload_idle)

lemmas work_idle = create_request_idle view_request_idle refresh_request_idle has_queued_idle record_references_idle record_binary_idle
  remember_verified_idle record_response_idle recover_precommit_idle confirm_payload_idle retire_idle submit_results_idle record_sampled_idle
  submit_proofs_idle

lemma serve_sound: "serve env c ws p = Inr (r, p') \<Longrightarrow> pool_ok p \<Longrightarrow> sound_step p p'"
proof (induction ws arbitrary: p)
  case Nil
  then show ?case by (auto intro: pool_step_idle [OF _ step_refl])
next
  case (Cons w ws)
  let ?q = "update_request (wq_id w) (\<lambda>w. w\<lparr>wq_last_attempted_at := Some (clock env)\<rparr>) p"
  show ?case
  proof (rule sound_after_idle [OF Cons.prems(2), of ?q])
    assume ok: "pool_ok ?q"
    consider "serve env c ws ?q = Inr (r, p')"
      | s v q1 q2 where "reserve_for env c w s ?q = Inr (v, q1)" "enqueue env (snd (snd (qc_ids c (wq_id w)))) (r_id v) Precommit (sl_payload s) q1 = Inr ((), q2)"
        "mark_reserved (wq_id w) (r_id v) q2 = Inr p'"
      using Cons.prems(1) by (auto simp: Let_def bindE_Inr split: sum.splits selection_error.splits error.splits)
    then show "sound_step ?q p'"
    proof cases
      case 1
      then show ?thesis using Cons.IH ok by blast
    next
      case 2
      have "sound_step ?q q1" using 2(1) unfolding reserve_for_def by (auto split: prod.splits dest: pool_step_reservations(1) [OF ok])
      then show ?thesis using enqueue_idle [OF 2(2)] mark_reserved_idle [OF 2(3)] by (blast intro: sound_then_idle)
    qed
  qed simp
qed

lemma pool_step_work:
  assumes ok: "pool_ok p"
  shows "serve_queue env i c p = Inr (r', p') \<Longrightarrow> sound_step p p'"
    and "begin_submission env i preflight p = Inr (ox, p') \<Longrightarrow> sound_step p p'"
    and "cancel_unsent env j j' i evidence p = Inr (u, p') \<Longrightarrow> sound_step p p'"
    and "definitive_rejection env j j' i evidence n p = Inr (u, p') \<Longrightarrow> sound_step p p'"
    and "publish_assignment env j i precommit evidence origin p = Inr (r, p') \<Longrightarrow> sound_step p p'"
    and "acknowledge_owned env i m digest p = Inr (bv, p') \<Longrightarrow> sound_step p p'"
proof -
  show "sound_step p p'" if run: "serve_queue env i c p = Inr (r', p')"
  proof -
    from run consider "p' = p" | "serve env c (queue_order (expire_where (\<lambda>_. True) env p)) (expire_where (\<lambda>_. True) env p) = Inr (r', p')"
      by (auto simp: serve_queue_def bindE_Inr Let_def split: if_splits)
    then show ?thesis
    proof cases
      case 1
      then show ?thesis by (simp add: pool_step_idle [OF ok step_refl])
    next
      case 2
      show ?thesis by (rule sound_after_idle [OF ok, of "expire_where (\<lambda>_. True) env p"]) (simp_all add: serve_sound [OF 2])
    qed
  qed
  show "sound_step p p'" if "begin_submission env i preflight p = Inr (ox, p')"
    using that
  proof (cases rule: begin_cases)
    case (1 r x q)
    have "sound_step p q"
    proof (cases "ox_kind x = Precommit")
      case True
      with 1(4) have "precommit_fence env i preflight r x p = Inr q" by simp
      then show ?thesis
      proof (cases rule: precommit_fence_cases)
        case (1 payload p1 k)
        then show ?thesis using pool_step_reservations(2) [OF ok 1(1)] by (simp add: sound_then_idle)
      qed
    qed (use 1(4) in \<open>simp add: pool_step_idle [OF ok step_refl]\<close>)
    then show ?thesis using mark_sent_idle [OF 1(5)] by (rule sound_then_idle)
  qed
  show "sound_step p p'" if "cancel_unsent env j j' i evidence p = Inr (u, p')"
    using that
  proof (cases rule: cancel_cases)
    case again
    then show ?thesis by (simp add: pool_step_idle [OF ok step_refl])
  next
    case (first x q r r')
    then show ?thesis using pool_step_reservations(4) [OF ok first(5)] by (auto intro: sound_then_idle)
  qed
  show "sound_step p p'" if "definitive_rejection env j j' i evidence n p = Inr (u, p')"
    using that
  proof (cases rule: rejection_cases)
    case (1 x q r r')
    then show ?thesis using pool_step_reservations(4) [OF ok 1(6)] by (auto intro: sound_then_idle)
  qed
  show "sound_step p p'" if "publish_assignment env j i precommit evidence origin p = Inr (r, p')"
    using that unfolding publish_assignment_def publish_confirmed_def bindE_Inr split_paired_Ex prod.case
    by (auto simp: bindE_Inr split: if_splits option.splits intro: pool_step_reservations(3) [OF ok])
  show "sound_step p p'" if "acknowledge_owned env i m digest p = Inr (bv, p')"
    using that unfolding acknowledge_owned_def by (auto simp: bindE_Inr intro: pool_step_reservations(6) [OF ok])
qed

lemmas idle_operations = set_cap_idle set_pause_idle extend_idle pilot_initialize_idle initialize_stream_idle advance_idle set_gap_policy_idle
  waive_gap_idle credit_block_idle report_scope_idle record_reports_idle record_index_idle confirmation_round_idle seal_idle

lemmas custody_operations = initialize_accounts_step receive_native_step receive_internal_step starter_step record_funding_of

lemma pool_step_sound: "pool_step p p' \<Longrightarrow> pool_ok p \<Longrightarrow> sound_step p p'"
proof (induction rule: pool_step.induct)
  case (advancing p h)
  then show ?case by (rule pool_step_idle [OF _ idle_step [OF advance_idle]])
qed (erule (1) pool_step_member pool_step_deposit pool_step_round pool_step_reservations pool_step_sends pool_step_topups pool_step_chain pool_step_work |
    (rule pool_step_idle, assumption, (erule custody_operations | rule idle_step, erule idle_operations work_idle)))+

lemma reachable_ok: "pool_reachable p \<Longrightarrow> pool_ok p"
  by (induction rule: pool_reachable.induct) (auto simp: empty_pool_ok sound_step_def dest: pool_step_sound)

end
