(* ===== verification/Bank.thy ===== *)
theory Bank
  imports Ledger
begin

text \<open>
  The specification of the ledger: a bank that knows which accounts are open, the funds of each, and
  which event keys it has carried out. The ledger refines it: a posting succeeds exactly
  when the bank accepts the payment, and leaves the bank in the state the payment leads to.
\<close>

record bank =
  bk_open :: "string \<Rightarrow> (account_kind \<times> asset \<times> location) option"
  bk_funds :: "string \<Rightarrow> int"
  bk_done :: "string \<Rightarrow> string option"

definition bank_of :: "ledger_state \<Rightarrow> bank" where
  "bank_of led = \<lparr>bk_open = (\<lambda>k. map_option (\<lambda>a. (acc_kind a, acc_asset a, acc_location a)) (lookup acc_id k (accounts led))),
     bk_funds = balance led, bk_done = (\<lambda>k. map_option jr_fingerprint (lookup jr_event_key k (journals led)))\<rparr>"

text \<open>What a payment needs: open accounts, funds on every inner account, and equal sums on both sides in each asset.\<close>

definition of_asset :: "bank \<Rightarrow> asset \<Rightarrow> string \<Rightarrow> bool" where
  "of_asset b a k \<longleftrightarrow> (\<exists>kind loc. bk_open b k = Some (kind, a, loc))"

definition covered :: "bank \<Rightarrow> (string \<Rightarrow> int) \<Rightarrow> string \<Rightarrow> bool" where
  "covered b moved k \<longleftrightarrow> (\<exists>kind a loc. bk_open b k = Some (kind, a, loc) \<and> (kind = KExternal \<or> 0 \<le> bk_funds b k + moved k))"

definition payable :: "bank \<Rightarrow> (string \<Rightarrow> int) \<Rightarrow> bool" where
  "payable b moved \<longleftrightarrow> (\<forall>k. moved k \<noteq> 0 \<longrightarrow> covered b moved k) \<and> (\<forall>a. (\<Sum>k | moved k \<noteq> 0 \<and> of_asset b a k. moved k) = 0)"

definition pay :: "string \<Rightarrow> string \<Rightarrow> (string \<Rightarrow> int) \<Rightarrow> bank \<Rightarrow> bank option" where
  "pay key digest moved b =
     (case bk_done b key of
        Some previous \<Rightarrow> if previous = digest then Some b else None
      | None \<Rightarrow> if payable b moved then Some (b\<lparr>bk_funds := (\<lambda>k. bk_funds b k + moved k), bk_done := (bk_done b)(key \<mapsto> digest)\<rparr>) else None)"

definition open_account :: "string \<Rightarrow> account_kind \<times> asset \<times> location \<Rightarrow> bank \<Rightarrow> bank option" where
  "open_account k spec b =
     (case bk_open b k of
        Some previous \<Rightarrow> if previous = spec then Some b else None
      | None \<Rightarrow> Some (b\<lparr>bk_open := (bk_open b)(k \<mapsto> spec)\<rparr>))"

section \<open>The ledger refines the bank\<close>

lemma bank_of_account:
  "(case account k kind a loc led of Inl _ \<Rightarrow> None | Inr (_, led') \<Rightarrow> Some (bank_of led')) = open_account k (kind, a, loc) (bank_of led)"
proof (cases "lookup acc_id k (accounts led)")
  case None
  have "bk_open (bank_of led) k = None" using None by (simp add: bank_of_def)
  moreover have "balance (led\<lparr>accounts := accounts led @ [\<lparr>acc_id = k, acc_kind = kind, acc_asset = a, acc_location = loc, acc_balance = 0\<rparr>]\<rparr>) = balance led"
    using None by (auto simp: balance_def lookup_append fun_eq_iff split: option.splits)
  ultimately show ?thesis using None
    by (auto simp: account_def open_account_def bank_of_def Let_def lookup_append fun_eq_iff split: option.splits)
qed (auto simp: account_def open_account_def bank_of_def Let_def)

lemma moved_keys: "{k. amount_of mv k \<noteq> 0} = fst ` set (net_amounts mv)"
  using net_amounts_keys by auto

lemma sum_where_keys:
  assumes "distinct (map fst ms)"
  shows "sum_where (\<lambda>m. P (fst m)) snd ms = (\<Sum>k | k \<in> fst ` set ms \<and> P k. amount_of ms k)"
proof -
  have "sum_where (\<lambda>m. P (fst m)) snd ms = sum_list (map (\<lambda>m. amount_of ms (fst m)) (filter (\<lambda>m. P (fst m)) ms))"
    unfolding sum_where_def using assms by (intro arg_cong [where f = sum_list] map_cong) (auto simp: amount_of_map_of)
  also have "\<dots> = sum_list (map (amount_of ms) (filter P (map fst ms)))" by (simp add: filter_map comp_def)
  also have "\<dots> = (\<Sum>k \<in> set (filter P (map fst ms)). amount_of ms k)" using assms by (intro sum_list_distinct_conv_sum_set) simp
  also have "set (filter P (map fst ms)) = {k. k \<in> fst ` set ms \<and> P k}" by auto
  finally show ?thesis .
qed

lemma overdrawn_None_iff:
  assumes "\<forall>k \<in> set (map fst ms). lookup acc_id k (accounts led) \<noteq> None" and "distinct (map fst ms)"
  shows "overdrawn led ms = None \<longleftrightarrow> (\<forall>k \<in> fst ` set ms. covered (bank_of led) (amount_of ms) k)"
proof -
  have "overdrawn led ms = None \<longleftrightarrow> (\<forall>m \<in> set ms. \<not> (case lookup acc_id (fst m) (accounts led) of None \<Rightarrow> False
      | Some r \<Rightarrow> acc_kind r \<noteq> KExternal \<and> acc_balance r + snd m < 0))"
    by (simp add: overdrawn_def find_None_iff split_beta del: split_paired_Ex split_paired_All) blast
  also have "\<dots> \<longleftrightarrow> (\<forall>m \<in> set ms. covered (bank_of led) (amount_of ms) (fst m))"
  proof (rule ball_cong [OF refl])
    fix m assume m: "m \<in> set ms"
    with assms(1) obtain r where "lookup acc_id (fst m) (accounts led) = Some r" by fastforce
    moreover have "amount_of ms (fst m) = snd m" using amount_of_map_of [OF assms(2), of "fst m"] map_of_is_SomeI [OF assms(2), of "fst m" "snd m"] m by simp
    ultimately show "(\<not> (case lookup acc_id (fst m) (accounts led) of None \<Rightarrow> False
      | Some r \<Rightarrow> acc_kind r \<noteq> KExternal \<and> acc_balance r + snd m < 0)) = covered (bank_of led) (amount_of ms) (fst m)"
      by (auto simp: covered_def bank_of_def balance_def)
  qed
  finally show ?thesis by auto
qed

lemma asset_total_bank:
  assumes "\<forall>k \<in> set (map fst ms). lookup acc_id k (accounts led) \<noteq> None" and "distinct (map fst ms)"
  shows "asset_total led ms a = (\<Sum>k | k \<in> fst ` set ms \<and> of_asset (bank_of led) a k. amount_of ms k)"
proof -
  have "asset_total led ms a = sum_where (\<lambda>m. of_asset (bank_of led) a (fst m)) snd ms"
    unfolding asset_total_def by (rule sum_where_cong) (use assms(1) in \<open>auto simp: asset_of_def of_asset_def bank_of_def split: option.splits\<close>)
  then show ?thesis using sum_where_keys [OF assms(2)] by simp
qed

lemma payable_net:
  "payable (bank_of led) (amount_of mv) \<longleftrightarrow> (\<forall>k \<in> set (map fst (net_amounts mv)). lookup acc_id k (accounts led) \<noteq> None) \<and>
     overdrawn led (net_amounts mv) = None \<and> (\<forall>a. asset_total led (net_amounts mv) a = 0)"
proof (cases "\<forall>k \<in> set (map fst (net_amounts mv)). lookup acc_id k (accounts led) \<noteq> None")
  case True
  have net: "amount_of (net_amounts mv) = amount_of mv" by (rule ext) simp
  from True show ?thesis
    using overdrawn_None_iff [OF True distinct_net_amounts] asset_total_bank [OF True distinct_net_amounts]
    unfolding payable_def net moved_keys [symmetric] by simp
next
  case False
  then obtain k where k: "amount_of mv k \<noteq> 0" "lookup acc_id k (accounts led) = None" using net_amounts_keys by auto
  then have "\<not> covered (bank_of led) (amount_of mv) k" by (simp add: covered_def bank_of_def)
  with k(1) False show ?thesis by (auto simp: payable_def)
qed

text \<open>A new journal adds the moved amounts and its key, and opens no account.\<close>

lemma bank_of_posted:
  assumes "\<forall>k \<in> set (map fst (net_amounts mv)). lookup acc_id k (accounts led) \<noteq> None" and "lookup jr_event_key ek (journals led) = None"
  shows "bank_of (fold (insert_entry i) (sort_key fst (net_amounts mv)) (led\<lparr>journals := journals led @ [new_journal env i ek kind mv det rv]\<rparr>)) =
     (bank_of led)\<lparr>bk_funds := (\<lambda>k. bk_funds (bank_of led) k + amount_of mv k),
       bk_done := (bk_done (bank_of led))(ek \<mapsto> journal_digest env kind (net_amounts mv) det rv)\<rparr>"
proof -
  let ?led = "led\<lparr>journals := journals led @ [new_journal env i ek kind mv det rv]\<rparr>"
  have "balance (fold (insert_entry i) (sort_key fst (net_amounts mv)) ?led) k = balance led k + amount_of mv k" for k
  proof -
    have "lookup acc_id k (accounts ?led) \<noteq> None \<or> amount_of (sort_key fst (net_amounts mv)) k = 0"
      using assms(1) net_amounts_keys [of k mv] by auto
    then show ?thesis by (subst balance_fold_insert) (simp_all add: balance_def)
  qed
  moreover have "lookup acc_id k (accounts (fold (insert_entry i) (sort_key fst (net_amounts mv)) ?led)) =
      map_option (\<lambda>a. a\<lparr>acc_balance := acc_balance a + amount_of mv (acc_id a)\<rparr>) (lookup acc_id k (accounts led))" for k
    by (simp add: fold_insert_accounts lookup_map_same_key)
  ultimately show ?thesis using assms(2)
    by (auto simp: bank_of_def fun_eq_iff option.map_comp comp_def lookup_append new_journal_def split: option.splits)
qed

section \<open>The refinement\<close>

text \<open>What a posting offers the bank; the ledger itself also refuses texts that are missing and amounts that are all zero.\<close>

definition digest_of :: "env \<Rightarrow> string \<Rightarrow> movement list \<Rightarrow> json \<Rightarrow> string option \<Rightarrow> string" where
  "digest_of env kind mv det rv = journal_digest env kind (net_amounts mv) det rv"

lemma post_pays:
  assumes "post env i ek kind mv det rv led = Inr (j, led')"
  shows "pay ek (digest_of env kind mv det rv) (amount_of mv) (bank_of led) = Some (bank_of led')"
  using assms
proof (cases rule: post_cases)
  case (replay row)
  then show ?thesis by (simp add: pay_def bank_of_def digest_of_def)
next
  case fresh
  have accounts: "\<forall>k \<in> set (map fst (net_amounts mv)). lookup acc_id k (accounts led) \<noteq> None" using fresh(5) by auto
  have "bk_done (bank_of led) ek = None" using fresh(2) by (simp add: bank_of_def)
  moreover have "payable (bank_of led) (amount_of mv)" unfolding payable_net using accounts fresh(6,7) by blast
  ultimately show ?thesis unfolding fresh(8) by (simp add: bank_of_posted [OF accounts fresh(2)] pay_def digest_of_def)
qed

lemma pay_posts:
  assumes "pay ek (digest_of env kind mv det None) (amount_of mv) (bank_of led) = Some b" and "ek \<noteq> []" "kind \<noteq> []"
    and "amount_of mv \<noteq> (\<lambda>_. 0)" and "lookup jr_id i (journals led) = None"
  shows "\<exists>j led'. post env i ek kind mv det None led = Inr (j, led')"
proof -
  have nonempty: "net_amounts mv \<noteq> []" using assms(4) net_amounts_keys [of _ mv] by (fastforce simp: fun_eq_iff)
  show ?thesis
  proof (cases "lookup jr_event_key ek (journals led)")
    case None
    then have "payable (bank_of led) (amount_of mv)" using assms(1) by (simp add: pay_def bank_of_def split: if_splits)
    then show ?thesis unfolding post_Inr_iff payable_net using None assms(2,3,5) nonempty by auto
  next
    case (Some r)
    then have "jr_fingerprint r = journal_digest env kind (net_amounts mv) det None"
      using assms(1) by (simp add: pay_def bank_of_def digest_of_def split: if_splits)
    then show ?thesis unfolding post_Inr_iff using Some assms(2,3) nonempty by auto
  qed
qed

text \<open>
  C3. The ledger refines the bank: with a fresh identifier and a payment that names a key, a kind and some amount, a posting
  succeeds exactly when the bank accepts the payment, and the state it leaves is the bank's.
\<close>

theorem post_refines_bank:
  assumes "ek \<noteq> []" and "kind \<noteq> []" and "amount_of mv \<noteq> (\<lambda>_. 0)" and "lookup jr_id i (journals led) = None"
  shows "(case post env i ek kind mv det None led of Inl _ \<Rightarrow> None | Inr (_, led') \<Rightarrow> Some (bank_of led')) =
    pay ek (digest_of env kind mv det None) (amount_of mv) (bank_of led)"
proof (cases "post env i ek kind mv det None led")
  case (Inl e)
  then show ?thesis using pay_posts [OF _ assms] by (cases "pay ek (digest_of env kind mv det None) (amount_of mv) (bank_of led)") fastforce+
next
  case (Inr r)
  then show ?thesis using post_pays by (cases r) simp
qed

definition demo_refund :: "movement list" where "demo_refund = [(''member:a'', - 3), (''external'', 3)]"

definition demo_refunded :: ledger_state where
  "demo_refunded = (case post demo_env ''j2'' ''k2'' ''refund'' demo_refund JNull None demo_after of Inl _ \<Rightarrow> empty_ledger | Inr (_, led) \<Rightarrow> led)"

lemma demo_refund_run: "post demo_env ''j2'' ''k2'' ''refund'' demo_refund JNull None demo_after = Inr (''j2'', demo_refunded)"
  by code_simp

theorem post_refines_bank_witness:
  "pay ''k2'' (digest_of demo_env ''refund'' demo_refund JNull None) (amount_of demo_refund) (bank_of demo_after) = Some (bank_of demo_refunded) \<and>
   bk_funds (bank_of demo_refunded) ''member:a'' = 2"
proof -
  have moved: "amount_of demo_refund \<noteq> (\<lambda>_. 0)"
    by (rule notI, drule fun_cong [where x = "''external''"]) (simp add: demo_refund_def amount_of_def)
  have facts: "lookup jr_id ''j2'' (journals demo_after) = None" "bk_funds (bank_of demo_refunded) ''member:a'' = 2"
    by code_simp+
  show ?thesis using post_refines_bank [of "''k2''" "''refund''", OF _ _ moved facts(1), of demo_env JNull] facts(2)
    by (simp add: demo_refund_run)
qed

text \<open>A run of the bank: accounts are opened and payments made, one after the other.\<close>

inductive bank_run :: "bank \<Rightarrow> bank \<Rightarrow> bool" where
  idle: "bank_run b b"
| opened: "bank_run b b' \<Longrightarrow> open_account k spec b' = Some b'' \<Longrightarrow> bank_run b b''"
| paid: "bank_run b b' \<Longrightarrow> pay key digest moved b' = Some b'' \<Longrightarrow> bank_run b b''"

lemma bank_run_trans: "bank_run b' b'' \<Longrightarrow> bank_run b b' \<Longrightarrow> bank_run b b''"
  by (induction rule: bank_run.induct) (blast intro: bank_run.intros)+

lemma ledger_by_runs: "ledger_by K A led led' \<Longrightarrow> bank_run (bank_of led) (bank_of led')"
proof (induction rule: ledger_by.induct)
  case (by_account led led' k kind a loc j led'')
  have "open_account k (kind, a, loc) (bank_of led') = Some (bank_of led'')"
    using bank_of_account [of k kind a loc led'] by_account.hyps(2) by simp
  with by_account.IH show ?case by (rule bank_run.opened)
next
  case (by_post led led' env i ek kind mv det rv j led'')
  show ?case by (rule bank_run.paid [OF by_post.IH post_pays [OF by_post.hyps(2)]])
qed (rule bank_run.idle)

text \<open>What the bank promises: no inner account is ever short, and the open accounts stay open.\<close>

definition solvent :: "bank \<Rightarrow> bool" where
  "solvent b \<longleftrightarrow> (\<forall>k kind a loc. bk_open b k = Some (kind, a, loc) \<longrightarrow> kind \<noteq> KExternal \<longrightarrow> 0 \<le> bk_funds b k) \<and>
     (\<forall>k. bk_open b k = None \<longrightarrow> bk_funds b k = 0)"

lemma solvent_run: "bank_run b b' \<Longrightarrow> solvent b \<Longrightarrow> solvent b'"
proof (induction rule: bank_run.induct)
  case (opened b b' k spec b'')
  then show ?case by (cases spec) (auto simp: open_account_def solvent_def split: option.splits if_splits)
next
  case (paid b b' key digest moved b'')
  then have ih: "solvent b'" by simp
  show ?case
  proof (cases "b'' = b'")
    case False
    with paid(2) have pays: "payable b' moved" and b'': "bk_open b'' = bk_open b'" "bk_funds b'' = (\<lambda>k. bk_funds b' k + moved k)"
      by (auto simp: pay_def split: option.splits if_splits)
    have kept: "covered b' moved k" if "moved k \<noteq> 0" for k using pays that by (simp add: payable_def)
    show ?thesis
      unfolding solvent_def
    proof (intro conjI allI impI)
      fix k kind a loc assume open_k: "bk_open b'' k = Some (kind, a, loc)" "kind \<noteq> KExternal"
      show "0 \<le> bk_funds b'' k"
      proof (cases "moved k = 0")
        case True
        then show ?thesis using ih open_k unfolding solvent_def b'' by simp
      next
        case False
        from kept [OF this] show ?thesis using open_k unfolding covered_def b'' by simp
      qed
    next
      fix k assume closed_k: "bk_open b'' k = None"
      then have "moved k = 0" using kept [of k] unfolding covered_def b'' by auto
      then show "bk_funds b'' k = 0" using ih closed_k unfolding solvent_def b'' by simp
    qed
  qed (use ih in simp)
qed simp

end
