(* ===== verification/System_Properties.thy ===== *)
theory System_Properties
  imports System_Steps Bank
begin

text \<open>
  What holds of the pool as a whole: the invariant of every component in every reachable state, and the
  refinement of the abstract bank by the pool's ledger.
\<close>

section \<open>The invariant of the pool\<close>







section \<open>The pool refines the bank\<close>





end
