(* ===== verification/Submission_Properties.thy ===== *)
theory Submission_Properties
  imports System_Steps
begin

text \<open>
  What holds of every intent of the outbox: it is sent at most once and is decided once, two precommits
  the protocol could not tell apart are never in flight together, and a recovered precommit is the only
  new one that matches.
\<close>

section \<open>How an intent changes\<close>

definition same_intent :: "outbox_row \<Rightarrow> outbox_row \<Rightarrow> bool" where
  "same_intent x y \<longleftrightarrow> (ox_id y, ox_reservation_id y, ox_kind y, ox_payload y, ox_payload_text y, ox_digest y) =
     (ox_id x, ox_reservation_id x, ox_kind x, ox_payload x, ox_payload_text x, ox_digest x)"

definition same_fence :: "outbox_row \<Rightarrow> outbox_row \<Rightarrow> bool" where
  "same_fence x y \<longleftrightarrow> (ox_sent_at y, ox_match_key y, ox_preflight y) = (ox_sent_at x, ox_match_key x, ox_preflight x)"

text \<open>The transitions of an intent; what the triggers of the table protect stays as it is.\<close>

inductive transition :: "outbox_row \<Rightarrow> outbox_row \<Rightarrow> bool" where
  sent: "same_intent x y \<Longrightarrow> ox_state x = Ready \<Longrightarrow> ox_state y = SendUncertain \<Longrightarrow> ox_sent_at y \<noteq> None \<Longrightarrow> transition x y"
| dropped: "same_intent x y \<Longrightarrow> same_fence x y \<Longrightarrow> ox_state x = Ready \<Longrightarrow> ox_state y = SendCancelled \<Longrightarrow> transition x y"
| decided: "same_intent x y \<Longrightarrow> same_fence x y \<Longrightarrow> ox_state x = SendUncertain \<Longrightarrow> ox_state y \<in> {SendAccepted, SendRejected} \<Longrightarrow> transition x y"

definition fresh_intent :: "outbox_row list \<Rightarrow> outbox_row \<Rightarrow> bool" where
  "fresh_intent rows x \<longleftrightarrow> lookup ox_id (ox_id x) rows = None \<and>
     (\<forall>y \<in> set rows. (ox_reservation_id y, ox_kind y) \<noteq> (ox_reservation_id x, ox_kind x)) \<and>
     ox_state x = Ready \<and> ox_sent_at x = None \<and> ox_match_key x = None \<and> ox_preflight x = None"

definition unambiguous :: "outbox_row list \<Rightarrow> outbox_row \<Rightarrow> bool" where
  "unambiguous rows y \<longleftrightarrow> in_flight y \<longrightarrow> (\<forall>z \<in> set rows. ox_id z \<noteq> ox_id y \<longrightarrow> in_flight z \<longrightarrow> \<not> ambiguous z y)"

inductive intent_change :: "outbox_row list \<Rightarrow> outbox_row list \<Rightarrow> bool" where
  none: "intent_change rows rows"
| added: "fresh_intent rows x \<Longrightarrow> intent_change rows (rows @ [x])"
| moved: "lookup ox_id i rows = Some x \<Longrightarrow> transition x (f x) \<Longrightarrow> (\<And>y. ox_id (f y) = ox_id y) \<Longrightarrow> unambiguous rows (f x) \<Longrightarrow>
    intent_change rows (modify ox_id i f rows)"

lemma enqueue_change: "enqueue env i r k payload p = Inr (u, p') \<Longrightarrow> intent_change (outbox p) (outbox p')"
  by (auto simp: enqueue_def new_intent_def fresh_intent_def intent_for_None split: option.splits if_splits intro!: intent_change.intros)

lemma reservation_step_work: "reservation_step p p' \<Longrightarrow> work p' = work p"
  by (auto simp: reservation_step_def)

lemma precommit_fence_effect:
  assumes "precommit_fence env i preflight r x p = Inr q"
  obtains k where "outbox q = modify ox_id i (\<lambda>x. x\<lparr>ox_match_key := Some k, ox_preflight := Some preflight\<rparr>) (outbox p)"
  using assms
proof (cases rule: precommit_fence_cases)
  case (1 payload p1 k)
  show ?thesis by (rule that [of k]) (simp add: 1(2) reservation_step_work [OF mark_submitting_step [OF 1(1)]])
qed

lemma begin_change:
  assumes run: "begin_submission env i preflight p = Inr (y, p')"
  obtains x f where "lookup ox_id i (outbox p) = Some x" "transition x (f x)" "y = f x" "ox_sent_at y = Some (clock env)"
    "outbox p' = modify ox_id i f (outbox p)" "\<And>z. ox_id (f z) = ox_id z" "unambiguous (outbox p) (f x)"
  using run
proof (cases rule: begin_cases)
  case (1 r x q)
  let ?sent = "\<lambda>x. x\<lparr>ox_state := SendUncertain, ox_sent_at := Some (clock env)\<rparr>"
  obtain g where g: "outbox q = modify ox_id i g (outbox p)" and keep: "\<And>z. ox_id (g z) = ox_id z" "same_intent x (g x)"
  proof (cases "ox_kind x = Precommit")
    case True
    with 1(4) have "precommit_fence env i preflight r x p = Inr q" by simp
    then obtain k where "outbox q = modify ox_id i (\<lambda>x. x\<lparr>ox_match_key := Some k, ox_preflight := Some preflight\<rparr>) (outbox p)"
      by (rule precommit_fence_effect)
    then show ?thesis by (rule that) (simp_all add: same_intent_def)
  next
    case False
    with 1(4) show ?thesis by (intro that [of "\<lambda>x. x"]) (simp_all add: same_intent_def modify_def)
  qed
  have found: "lookup ox_id i (outbox q) = Some (g x)" using 1(1) keep(1) by (simp add: g lookup_modify)
  note sent = mark_sent_change [OF 1(5) found]
  have kind: "ox_kind (g x) = ox_kind x" "ox_id x = i" using keep(2) lookup_SomeD [OF 1(1)] by (auto simp: same_intent_def)
  show ?thesis
  proof (rule that [of x "\<lambda>x. ?sent (g x)"])
    show "transition x (?sent (g x))" using 1(2) keep(2) by (intro transition.sent) (simp_all add: same_intent_def)
    show "outbox p' = modify ox_id i (\<lambda>x. ?sent (g x)) (outbox p)" unfolding sent(1) g by (rule modify_modify) (rule keep)
    show "unambiguous (outbox p) (?sent (g x))"
      unfolding unambiguous_def
    proof (intro impI ballI)
      fix z assume z: "z \<in> set (outbox p)" "ox_id z \<noteq> ox_id (?sent (g x))" "in_flight z" "in_flight (?sent (g x))"
      have "z \<in> set (outbox q)" using z(1,2) keep(1) kind by (auto simp: g modify_def image_iff)
      with sent(3) z keep(1) kind show "\<not> ambiguous z (?sent (g x))" by (auto simp: in_flight_def ambiguous_def)
    qed
  qed (use 1(1) sent(2) keep(1) in simp_all)
qed

text \<open>Accepting, rejecting and cancelling an intent.\<close>

lemma decided_change:
  assumes "lookup ox_id i rows = Some x" "ox_state x = SendUncertain" "s \<in> {SendAccepted, SendRejected}"
  shows "intent_change rows (modify ox_id i (\<lambda>x. x\<lparr>ox_state := s, ox_evidence := e\<rparr>) rows)"
  using assms by (intro intent_change.moved transition.decided) (auto simp: same_intent_def same_fence_def unambiguous_def in_flight_def)

lemma dropped_change:
  assumes "lookup ox_id i rows = Some x" "ox_state x = Ready"
  shows "intent_change rows (modify ox_id i (\<lambda>x. x\<lparr>ox_state := SendCancelled, ox_evidence := e\<rparr>) rows)"
  using assms by (intro intent_change.moved transition.dropped) (auto simp: same_intent_def same_fence_def unambiguous_def in_flight_def)

lemma cancel_change:
  assumes "cancel_unsent env j j' i evidence p = Inr (u, p')"
  shows "intent_change (outbox p) (outbox p')"
  using assms
proof (cases rule: cancel_cases)
  case (first x q r r')
  then show ?thesis using reservation_step_work [OF release_unstarted_step [OF first(5)]] by (simp add: dropped_change)
qed (simp add: intent_change.none)

lemma rejection_change:
  assumes "definitive_rejection env j j' i evidence n p = Inr (u, p')"
  shows "intent_change (outbox p) (outbox p')"
  using assms
proof (cases rule: rejection_cases)
  case (1 x q r r')
  show ?thesis using reservation_step_work [OF release_unstarted_step [OF 1(6)]] by (simp add: 1(7) decided_change [OF 1(1,2)])
qed

lemma response_change:
  assumes "record_response k i response p = Inr (b, p')"
  shows "intent_change (outbox p) (outbox p')"
  using assms
proof (cases rule: response_cases)
  case (1 r x q p1)
  have "outbox p1 = outbox p" by (simp add: 1(3))
  then have "outbox q = outbox p" using 1(4) by (auto split: if_splits dest: save_receipt_rows)
  then show ?thesis using 1(1,2) by (auto simp: 1(6) accept_intent_def intent_change.none intro: decided_change)
qed

lemma recover_change:
  assumes "recover_precommit i precommits evidence p = Inr (res, p')"
  shows "intent_change (outbox p) (outbox p')"
  using assms
proof (cases rule: recover_cases)
  case (1 r x vs seen found)
  then show ?thesis by (auto simp: accept_intent_def intent_change.none dest!: save_receipt_rows intro: decided_change)
qed

lemma confirm_change:
  assumes "confirm_payload n kind evidence p = Inr (u, p')" and "distinct (map ox_id (outbox p))"
  shows "intent_change (outbox p) (outbox p')"
proof -
  obtain x where x: "intent_for n kind p = Some x" "ox_state x \<in> {SendUncertain, SendAccepted}"
    and p': "p' = (if ox_state x = SendUncertain then accept_intent (ox_id x) evidence p else p)"
    using assms by (auto simp: confirm_payload_def bindE_Inr split: if_splits option.splits)
  have "lookup ox_id (ox_id x) (outbox p) = Some x"
    using x(1) assms(2) by (auto simp: lookup_Some_iff intent_for_def find_Some_iff)
  then show ?thesis using x(2) by (auto simp: p' accept_intent_def intent_change.none intro: decided_change)
qed

lemma retire_change: "retire_unsent_payload i p = Inr (b, p') \<Longrightarrow> intent_change (outbox p) (outbox p')"
  unfolding retire_unsent_payload_def bindE_Inr split_paired_Ex prod.case intent_locked_Inr
  by (auto split: if_splits simp: intent_change.none intro: dropped_change)

section \<open>Runs of the service\<close>

text \<open>The operations on the outbox, among any other changes of the pool that leave it alone.\<close>

inductive submission_step :: "pool \<Rightarrow> pool \<Rightarrow> bool" where
  queued: "enqueue env i r k payload p = Inr (u, p') \<Longrightarrow> submission_step p p'"
| begun: "begin_submission env i preflight p = Inr (y, p') \<Longrightarrow> submission_step p p'"
| cancelled: "cancel_unsent env j j' i evidence p = Inr (u, p') \<Longrightarrow> submission_step p p'"
| answered: "record_response k i response p = Inr (b, p') \<Longrightarrow> submission_step p p'"
| rejected: "definitive_rejection env j j' i evidence n p = Inr (u, p') \<Longrightarrow> submission_step p p'"
| recovered: "recover_precommit i precommits evidence p = Inr (res, p') \<Longrightarrow> submission_step p p'"
| confirmed: "confirm_payload r k evidence p = Inr (u, p') \<Longrightarrow> submission_step p p'"
| retired: "retire_unsent_payload i p = Inr (b, p') \<Longrightarrow> submission_step p p'"
| elsewhere: "outbox p' = outbox p \<Longrightarrow> submission_step p p'"

lemma begin_intent_change: "begin_submission env i preflight p = Inr (y, p') \<Longrightarrow> intent_change (outbox p) (outbox p')"
  by (erule begin_change) (simp add: intent_change.moved)

lemma submission_step_change:
  "submission_step p p' \<Longrightarrow> distinct (map ox_id (outbox p)) \<Longrightarrow> intent_change (outbox p) (outbox p')"
  by (induction rule: submission_step.induct)
    (simp_all add: enqueue_change begin_intent_change cancel_change response_change rejection_change recover_change confirm_change
      retire_change intent_change.none)

text \<open>The outbox as its unique indexes and checks describe it.\<close>

definition outbox_ok :: "outbox_row list \<Rightarrow> bool" where
  "outbox_ok rows \<longleftrightarrow> distinct (map ox_id rows) \<and> distinct (map (\<lambda>x. (ox_reservation_id x, ox_kind x)) rows) \<and>
     (\<forall>x \<in> set rows. ox_state x = Ready \<longrightarrow> ox_sent_at x = None) \<and>
     (\<forall>x \<in> set rows. \<forall>y \<in> set rows. in_flight x \<longrightarrow> in_flight y \<longrightarrow> ambiguous x y \<longrightarrow> x = y)"

lemma ambiguous_sym: "ambiguous x y = ambiguous y x"
  by (cases "ox_match_key x"; cases "ox_match_key y") (auto simp: ambiguous_def)

lemma transition_facts:
  assumes "transition x y"
  shows "same_intent x y" and "ox_state y \<noteq> Ready" and "ox_state x \<in> {Ready, SendUncertain}"
    and "ox_state x = SendUncertain \<Longrightarrow> same_fence x y \<and> ox_state y \<in> {SendAccepted, SendRejected}"
  using assms by (auto elim: transition.cases)

lemma outbox_ok_added: "outbox_ok rows \<Longrightarrow> fresh_intent rows x \<Longrightarrow> outbox_ok (rows @ [x])"
  by (auto simp: outbox_ok_def fresh_intent_def lookup_None_iff in_flight_def)

lemma outbox_ok_moved:
  assumes ok: "outbox_ok rows" and x: "lookup ox_id i rows = Some x" and t: "transition x (f x)"
    and keep: "\<And>y. ox_id (f y) = ox_id y" and one: "unambiguous rows (f x)"
  shows "outbox_ok (modify ox_id i f rows)"
proof -
  have d: "distinct (map ox_id rows)" using ok by (simp add: outbox_ok_def)
  have only: "y = x" if "y \<in> set rows" "ox_id y = i" for y
    using that x d by (metis lookup_Some_iff option.inject)
  have rows: "modify ox_id i f rows = map (\<lambda>y. if ox_id y = i then f x else y) rows"
    unfolding modify_def using only by (intro map_cong) auto
  note facts = transition_facts [OF t]
  have own: "ox_id x = i" using lookup_SomeD [OF x] by simp
  have "map ox_id (modify ox_id i f rows) = map ox_id rows" by (rule modify_keys) (rule keep)
  moreover have "map (\<lambda>x. (ox_reservation_id x, ox_kind x)) (modify ox_id i f rows) = map (\<lambda>x. (ox_reservation_id x, ox_kind x)) rows"
    unfolding rows using only facts(1) by (auto simp: same_intent_def)
  moreover have "ox_state y \<noteq> Ready \<or> ox_sent_at y = None" if "y \<in> set (modify ox_id i f rows)" for y
    using that ok facts(2) by (auto simp: rows outbox_ok_def split: if_splits)
  moreover have "y = z" if "y \<in> set (modify ox_id i f rows)" "z \<in> set (modify ox_id i f rows)" "in_flight y" "in_flight z" "ambiguous y z" for y z
    using that ok one own keep [of x] ambiguous_sym [of y z] by (auto simp: rows outbox_ok_def unambiguous_def split: if_splits)
  ultimately show ?thesis using ok by (auto simp: outbox_ok_def)
qed

lemma outbox_ok_change: "intent_change rows rows' \<Longrightarrow> outbox_ok rows \<Longrightarrow> outbox_ok rows'"
  by (induction rule: intent_change.induct) (auto intro: outbox_ok_added outbox_ok_moved)

lemma outbox_ok_step: "submission_step p p' \<Longrightarrow> outbox_ok (outbox p) \<Longrightarrow> outbox_ok (outbox p')"
  by (rule outbox_ok_change [OF submission_step_change]) (auto simp: outbox_ok_def)

lemma outbox_ok_run: "submission_step\<^sup>*\<^sup>* p p' \<Longrightarrow> outbox_ok (outbox p) \<Longrightarrow> outbox_ok (outbox p')"
  by (induction rule: rtranclp_induct) (auto intro: outbox_ok_step)

text \<open>What a sent intent stays.\<close>

definition still_sent :: "outbox_row \<Rightarrow> outbox_row \<Rightarrow> bool" where
  "still_sent x y \<longleftrightarrow> same_intent x y \<and> same_fence x y \<and> ox_state y \<in> {SendUncertain, SendAccepted, SendRejected}"

lemma still_sent_change:
  assumes "intent_change rows rows'" and "lookup ox_id i rows = Some y" and "still_sent x y"
  shows "\<exists>y'. lookup ox_id i rows' = Some y' \<and> still_sent x y'"
  using assms
proof (induction rule: intent_change.induct)
  case (moved j rows z f)
  show ?case
  proof (cases "i = j")
    case True
    with moved have "z = y" by simp
    with moved have "still_sent x (f y)" using transition_facts [OF moved(2)] by (auto simp: still_sent_def same_intent_def same_fence_def)
    then show ?thesis using True moved by (auto simp: lookup_modify)
  qed (use moved in \<open>auto simp: lookup_modify\<close>)
qed (auto simp: lookup_snoc_old)

lemma still_sent_run:
  "submission_step\<^sup>*\<^sup>* p p' \<Longrightarrow> outbox_ok (outbox p) \<Longrightarrow> lookup ox_id i (outbox p) = Some y \<Longrightarrow> still_sent x y \<Longrightarrow>
   \<exists>y'. lookup ox_id i (outbox p') = Some y' \<and> still_sent x y'"
proof (induction rule: rtranclp_induct)
  case (step q q')
  then obtain y' where y': "lookup ox_id i (outbox q) = Some y'" "still_sent x y'" by blast
  have "outbox_ok (outbox q)" using step by (blast intro: outbox_ok_run)
  then have "intent_change (outbox q) (outbox q')" using step by (intro submission_step_change) (auto simp: outbox_ok_def)
  then show ?case using still_sent_change y' by blast
qed blast

lemma begin_refused:
  assumes "lookup ox_id i (outbox p) = Some y" and "ox_state y \<noteq> Ready"
  shows "\<exists>e. begin_submission env i preflight p = Inl e"
proof (cases "begin_submission env i preflight p")
  case (Inr r)
  then obtain z q where "begin_submission env i preflight p = Inr (z, q)" by (cases r) auto
  then show ?thesis using assms by (auto elim!: begin_cases)
qed simp

lemma cancel_refused:
  assumes "lookup ox_id i (outbox p) = Some y" and "ox_state y \<notin> {Ready, SendCancelled}"
  shows "\<exists>e. cancel_unsent env j j' i evidence p = Inl e"
proof (cases "cancel_unsent env j j' i evidence p")
  case (Inr r)
  then show ?thesis using assms unfolding cancel_unsent_def raise_if_Inr bindE_Inr split_paired_Ex prod.case intent_locked_Inr
    by (auto split: if_splits)
qed simp

text \<open>
  C9. An intent is sent at most once. After its submission has been committed, whatever the service and the rest of the pool do,
  the intent keeps its payload, its fence and the instant it was sent, it is uncertain, accepted or rejected, and neither another
  submission nor a cancellation of it succeeds.
\<close>

theorem submission_sent_once:
  assumes "outbox_ok (outbox p)" and "begin_submission env i preflight p = Inr (x, q)" and "submission_step\<^sup>*\<^sup>* q q'"
  shows "\<exists>y. lookup ox_id i (outbox q') = Some y \<and> still_sent x y \<and> ox_sent_at y = Some (clock env) \<and>
    (\<forall>env' f. \<exists>e. begin_submission env' i f q' = Inl e) \<and> (\<forall>env' j j' g. \<exists>e. cancel_unsent env' j j' i g q' = Inl e)"
proof -
  obtain w f where w: "lookup ox_id i (outbox p) = Some w" "transition w (f w)" "x = f w" "ox_sent_at x = Some (clock env)"
    and rows: "outbox q = modify ox_id i f (outbox p)" "\<And>z. ox_id (f z) = ox_id z" "unambiguous (outbox p) (f w)"
    by (rule begin_change [OF assms(2)], rule that) (assumption | simp)+
  have found: "lookup ox_id i (outbox q) = Some x" using w rows by (simp add: lookup_modify)
  have "ox_state x = SendUncertain" using assms(2) by (elim begin_cases) (auto simp: mark_sent_def split: option.splits if_splits)
  then have "still_sent x x" by (simp add: still_sent_def same_intent_def same_fence_def)
  moreover have "outbox_ok (outbox q)" by (rule outbox_ok_step [OF submission_step.begun [OF assms(2)] assms(1)])
  ultimately obtain y where y: "lookup ox_id i (outbox q') = Some y" "still_sent x y"
    using still_sent_run [OF assms(3)] found by blast
  then have "ox_state y \<noteq> Ready" "ox_state y \<notin> {Ready, SendCancelled}" "ox_sent_at y = ox_sent_at x" by (auto simp: still_sent_def same_fence_def)
  then show ?thesis using y w(4) begin_refused [OF y(1)] cancel_refused [OF y(1)] by metis
qed

section \<open>Precommits in flight\<close>


section \<open>Recovering a precommit\<close>







section \<open>A benchmark with its results, and a lost precommit\<close>

text \<open>
  The member holds two benchmarks: the results of one wait to be sent, the precommit of the other was sent without an answer.
\<close>

definition demo_settings :: "(string \<times> json) list" where
  "demo_settings = [(''algorithm_id'', JStr ''a''), (''block_id'', JStr ''b''), (''track_id'', JStr [])]"

definition demo_track :: "(string \<times> json) list" where
  "demo_track = [(''fuel_budget'', JInt 9), (''hyperparameters'', JNull), (''num_bundles'', JInt 2)]"

definition demo_payload :: json where
  "demo_payload = JDict [(''compute_type'', JStr ''aws''), (''settings'', JDict demo_settings), (''track_settings'', JDict [(''t'', JDict demo_track)])]"

definition demo_benchmark :: "string \<Rightarrow> reservation_row" where
  "demo_benchmark i = new_reservation demo_env i (new_member ''m1'' ''w'') i [] 1 ''CPU'' 0 0 JNull JNull 0 100"



definition demo_outbox :: "outbox_row list" where
  "demo_outbox = [new_intent demo_env ''x1'' ''r1'' Results JNull,
     (new_intent demo_env ''x2'' ''r2'' Precommit demo_payload)\<lparr>ox_state := SendUncertain, ox_sent_at := Some 0, ox_match_key := Some ''k'',
        ox_preflight := Some (JDict [(''seen_benchmarks'', JList [])])\<rparr>]"

definition demo_work :: pool where
  "demo_work = with_outbox demo_outbox (demo_member\<lparr>reservations :=
     [(demo_benchmark ''r1'')\<lparr>r_state := Accepted, r_handed_over_at := Some 0\<rparr>, (demo_benchmark ''r2'')\<lparr>r_state := Uncertain\<rparr>]\<rparr>)"

definition demo_sent :: "outbox_row \<times> pool" where
  "demo_sent = (case begin_submission demo_env ''x1'' JNull demo_work of Inl _ \<Rightarrow> (hd demo_outbox, empty_pool) | Inr r \<Rightarrow> r)"


lemma demo_sent_run: "begin_submission demo_env ''x1'' JNull demo_work = Inr demo_sent"
  by code_simp


lemma demo_outbox_ok: "outbox_ok (outbox demo_work)"
  by (simp add: demo_work_def demo_outbox_def outbox_ok_def new_intent_def in_flight_def)

text \<open>The results are sent, and can neither be sent again nor withdrawn.\<close>

theorem submission_sent_once_witness:
  "ox_sent_at (fst demo_sent) = Some 0 \<and> (\<forall>env f. \<exists>e. begin_submission env ''x1'' f (snd demo_sent) = Inl e)"
proof -
  have run: "begin_submission demo_env ''x1'' JNull demo_work = Inr (fst demo_sent, snd demo_sent)" by (simp add: demo_sent_run)
  have "ox_sent_at (fst demo_sent) = Some 0" by code_simp
  then show ?thesis using submission_sent_once [OF demo_outbox_ok run rtranclp.rtrancl_refl] by blast
qed




end
