(* ===== verification/Selection_Properties.thy ===== *)
theory Selection_Properties
  imports Submissions Work_Requests
begin

text \<open>
  What a selection guarantees: its challenge and algorithm follow the rule, its payload proposes every active
  track, and the fee ceiling reserved for it covers the charge for whichever track the protocol picks.
\<close>

section \<open>What a selection was made of\<close>

lemma least_keys_member: "k \<in> set (least_keys counts) \<Longrightarrow> \<exists>n. (k, n) \<in> set counts \<and> (\<forall>(j, m) \<in> set counts. n \<le> m)"
  by (auto simp: least_keys_def intro!: exI [of _ "Min (snd ` set counts)"]) (metis Min_le finite_imageI finite_set image_eqI snd_conv)

lemma greatest_keys_member: "k \<in> set (greatest_keys counts) \<Longrightarrow> \<exists>n. (k, n) \<in> set counts \<and> (\<forall>(j, m) \<in> set counts. m \<le> n)"
  by (auto simp: greatest_keys_def intro!: exI [of _ "Max (snd ` set counts)"]) (metis Max_ge finite_imageI finite_set image_eqI snd_conv)

lemma least_keys_nonempty: "counts \<noteq> [] \<Longrightarrow> least_keys counts \<noteq> []"
proof -
  assume "counts \<noteq> []"
  then have "Min (snd ` set counts) \<in> snd ` set counts" by (intro Min_in) auto
  then obtain k where "(k, Min (snd ` set counts)) \<in> set counts" by auto
  then have "k \<in> set (least_keys counts)" by (force simp: least_keys_def)
  then show ?thesis by auto
qed

lemma greatest_keys_nonempty: "counts \<noteq> [] \<Longrightarrow> greatest_keys counts \<noteq> []"
proof -
  assume "counts \<noteq> []"
  then have "Max (snd ` set counts) \<in> snd ` set counts" by (intro Max_in) auto
  then obtain k where "(k, Max (snd ` set counts)) \<in> set counts" by auto
  then have "k \<in> set (greatest_keys counts)" by (force simp: greatest_keys_def)
  then show ?thesis by auto
qed

text \<open>Every candidate is a challenge of the block with algorithms that can be run.\<close>

lemma usable_algorithms_member:
  "usable_algorithms s binaries c as' = Inr ids \<Longrightarrow> a \<in> set ids \<Longrightarrow> \<exists>v. (a, v) \<in> set as' \<and> usable_algorithm s binaries c (a, v) = Inr True"
proof (induction as' arbitrary: ids)
  case (Cons x rest)
  then obtain ok rest_ids where "usable_algorithm s binaries c x = Inr ok" "usable_algorithms s binaries c rest = Inr rest_ids"
    "ids = (if ok then fst x # rest_ids else rest_ids)"
    by (auto simp: bindE_Inr)
  with Cons show ?case by (cases x) (auto split: if_splits)
qed simp

lemma work_candidates_member:
  assumes "work_candidates s binaries resource = Inr cs" and "(c, ids) \<in> set cs"
  shows "\<exists>challenge. (c, challenge) \<in> set (sn_challenges s) \<and> open_challenge s resource challenge = Inr True \<and> ids \<noteq> [] \<and>
    usable_algorithms s binaries c (sn_algorithms s) = Inr ids"
proof -
  obtain css where css: "mapE (candidate_of s binaries resource) (sn_challenges s) = Inr css" "cs = concat css"
    using assms(1) by (auto simp: work_candidates_def bindE_Inr)
  then obtain xs where xs: "xs \<in> set css" "(c, ids) \<in> set xs" using assms(2) by auto
  obtain x where "x \<in> set (sn_challenges s)" "candidate_of s binaries resource x = Inr xs"
    using mapE_set [OF css(1) xs(1)] by blast
  with xs(2) show ?thesis by (cases x) (auto simp: candidate_of_def bindE_Inr split: if_splits)
qed

definition valid_pick :: "(string list \<Rightarrow> string) \<Rightarrow> bool" where
  "valid_pick pick \<longleftrightarrow> (\<forall>xs. xs \<noteq> [] \<longrightarrow> pick xs \<in> set xs)"

lemma choose_cases:
  assumes run: "choose_work pick s rows player resource compute_type now max_age fuel index ref_age = Inr w"
    and pick: "valid_pick pick"
  obtains binaries cs c ids adoptions a n' counts where "p_index rows ''algorithm_id'' ''algorithm binaries'' = Inr binaries"
    "work_candidates s binaries resource = Inr cs" "counts = map (\<lambda>(c, _). (c, pool_count s player c)) cs"
    "(c, ids) \<in> set cs" "\<forall>(c', _) \<in> set cs. pool_count s player c \<le> pool_count s player c'"
    "mapE (adoption_of s) ids = Inr adoptions" "a \<in> fst ` set adoptions" "a \<in> set (greatest_keys adoptions)" "now = JInt n'"
    "select_work s binaries player resource compute_type n' fuel ref_age index counts c adoptions a = Inr w"
proof -
  obtain n' binaries cs adoptions where b: "p_index rows ''algorithm_id'' ''algorithm binaries'' = Inr binaries"
    and cs: "work_candidates s binaries resource = Inr cs" "cs \<noteq> []" and now: "now = JInt n'"
    and ad: "mapE (adoption_of s) (case map_of cs (pick (least_keys (map (\<lambda>(c, _). (c, pool_count s player c)) cs))) of None \<Rightarrow> [] | Some ids \<Rightarrow> ids)
        = Inr adoptions"
    and w: "select_work s binaries player resource compute_type n' fuel ref_age index (map (\<lambda>(c, _). (c, pool_count s player c)) cs)
        (pick (least_keys (map (\<lambda>(c, _). (c, pool_count s player c)) cs))) adoptions (pick (greatest_keys adoptions)) = Inr w"
    using run unfolding choose_work_def fields_guarded_Inr raise_if_Inr bindE_Inr work_or_Inr Let_def p_integer_Inr by blast
  define counts where "counts = map (\<lambda>(c, _). (c, pool_count s player c)) cs"
  define c where "c = pick (least_keys counts)"
  have "least_keys counts \<noteq> []" using cs(2) by (intro least_keys_nonempty) (simp add: counts_def)
  then have "c \<in> set (least_keys counts)" using pick by (simp add: c_def valid_pick_def)
  then obtain n where n: "(c, n) \<in> set counts" "\<forall>(j, m) \<in> set counts. n \<le> m" using least_keys_member by blast
  then have least: "\<forall>(c', _) \<in> set cs. pool_count s player c \<le> pool_count s player c'" by (auto simp: counts_def)
  from n(1) have "c \<in> fst ` set cs" by (force simp: counts_def)
  then obtain ids where ids: "map_of cs c = Some ids" by (cases "map_of cs c") (auto simp: map_of_eq_None_iff)
  then have mem: "(c, ids) \<in> set cs" by (rule map_of_SomeD)
  have ad: "mapE (adoption_of s) ids = Inr adoptions" using ad ids by (simp add: c_def counts_def)
  have "ids \<noteq> []" using work_candidates_member [OF cs(1) mem] by blast
  then have "adoptions \<noteq> []" using mapE_length [OF ad] by auto
  then have "greatest_keys adoptions \<noteq> []" by (rule greatest_keys_nonempty)
  then have a: "pick (greatest_keys adoptions) \<in> set (greatest_keys adoptions)" using pick by (simp add: valid_pick_def)
  then have "pick (greatest_keys adoptions) \<in> fst ` set adoptions" by (force dest: greatest_keys_member)
  then show ?thesis by (rule that [OF b cs(1) counts_def mem least ad _ a now]) (use w in \<open>simp add: c_def counts_def\<close>)
qed

lemma select_cases:
  assumes "select_work s binaries player resource compute_type now fuel ref_age index counts c adoptions a = Inr w"
  obtains config fuel' best items tracks challenge default_min where "item (sn_challenges s) c = Inr challenge" "subscript challenge ''config'' = Inr config"
    "active_tracks config = Inr items" "mapE (choose_track s best a default_min) items = Inr tracks" "tracks \<noteq> []"
    "submission_fee config (Max (tk_num_bundles ` set tracks)) = Inr (sl_max_submission_fee w)" "fuel_of config fuel = Inr fuel'"
    "sl_payload w = selection_payload s player compute_type c a fuel' tracks" "sl_creation_round w = sn_round s"
    "best = (case index of None \<Rightarrow> references s | Some i \<Rightarrow> i)" "check_index s now ref_age best = Inr ()"
  using assms unfolding select_work_def bindE_Inr Let_def split_paired_Ex prod.case raise_if_Inr sum.inject
  by (elim exE conjE) (rule that, assumption+, auto)

lemma choose_track_Inr:
  assumes "choose_track s best a default_min t = Inr k"
  shows "tk_track_id k = fst t" and "1 \<le> tk_num_bundles k" and "tk_reference k = map_of (ri_values best) (a, fst t)"
    and "tk_reference k = Some b \<Longrightarrow> reference_parameters s best (a, fst t) b = Inr (tk_hyperparameters k)"
    and "tk_reference k = None \<Longrightarrow> tk_hyperparameters k = JNull"
  using assms by (auto simp: choose_track_def Let_def bindE_Inr p_integer_Inr split: prod.splits json.splits option.splits)

section \<open>The rule\<close>

text \<open>
  C13. The selected work follows the rule of the pool. The challenge fits the offer and is one in which the pool has the fewest
  qualifiers, the algorithm is one of its runnable algorithms with the highest adoption, the payload names both, is for the
  current block, and proposes every active track, with the parameters of its reference bundle and none where there is no reference.
\<close>

theorem selection_rule:
  assumes run: "choose_work pick s rows player resource compute_type now max_age fuel index ref_age = Inr w" and pick: "valid_pick pick"
  shows "\<exists>cs c ids a n config items tracks best. best = (case index of None \<Rightarrow> references s | Some i \<Rightarrow> i) \<and>
    (\<exists>binaries. p_index rows ''algorithm_id'' ''algorithm binaries'' = Inr binaries \<and> work_candidates s binaries resource = Inr cs) \<and>
    (c, ids) \<in> set cs \<and> (\<forall>(c', _) \<in> set cs. pool_count s player c \<le> pool_count s player c') \<and>
    a \<in> set ids \<and> adoption_of s a = Inr (a, n) \<and> (\<forall>b \<in> set ids. \<exists>m. adoption_of s b = Inr (b, m) \<and> m \<le> n) \<and>
    path (sl_payload w) [''settings'', ''challenge_id''] = Inr (JStr c) \<and> path (sl_payload w) [''settings'', ''algorithm_id''] = Inr (JStr a) \<and>
    path (sl_payload w) [''settings'', ''block_id''] = Inr (JStr (sn_block_id s)) \<and>
    bindE (item (sn_challenges s) c) (\<lambda>v. subscript v ''config'') = Inr config \<and> active_tracks config = Inr items \<and>
    (\<exists>f. subscript (sl_payload w) ''track_settings'' = Inr (JDict (map (track_payload f) tracks))) \<and> map tk_track_id tracks = map fst items \<and>
    (\<forall>t \<in> set tracks. 1 \<le> tk_num_bundles t \<and>
       tk_reference t = map_of (ri_values best) (a, tk_track_id t) \<and>
       (case tk_reference t of None \<Rightarrow> tk_hyperparameters t = JNull
        | Some b \<Rightarrow> reference_parameters s best (a, tk_track_id t) b = Inr (tk_hyperparameters t)))"
  using run pick
proof (cases rule: choose_cases)
  case (1 binaries cs c ids adoptions a n' counts)
  from 1(10) show ?thesis
  proof (cases rule: select_cases)
    case (1 config fuel' best items tracks challenge default_min)
    have adoption: "adoption_of s x = Inr y \<Longrightarrow> fst y = x" for x y by (auto simp: adoption_of_def bindE_Inr)
    obtain n where n: "(a, n) \<in> set adoptions" "\<forall>(j, m) \<in> set adoptions. m \<le> n" using greatest_keys_member [OF \<open>a \<in> set (greatest_keys adoptions)\<close>] by blast
    have own: "a \<in> set ids" "adoption_of s a = Inr (a, n)"
      using mapE_set [OF \<open>mapE (adoption_of s) ids = Inr adoptions\<close> n(1)] adoption by force+
    have best: "\<exists>m. adoption_of s b = Inr (b, m) \<and> m \<le> n" if "b \<in> set ids" for b
      using mapE_all [OF \<open>mapE (adoption_of s) ids = Inr adoptions\<close> that] n(2) adoption [of b] by fastforce
    have keys: "map tk_track_id tracks = map fst items" by (rule mapE_map [OF 1(4)]) (rule choose_track_Inr(1))
    have tracks: "1 \<le> tk_num_bundles t \<and> tk_reference t = map_of (ri_values best) (a, tk_track_id t) \<and>
        (case tk_reference t of None \<Rightarrow> tk_hyperparameters t = JNull
         | Some b \<Rightarrow> reference_parameters s best (a, tk_track_id t) b = Inr (tk_hyperparameters t))" if t: "t \<in> set tracks" for t
    proof -
      obtain x where "choose_track s best a default_min x = Inr t" using mapE_set [OF 1(4) t] by blast
      from choose_track_Inr [OF this] show ?thesis by (simp split: option.splits)
    qed
    have payload: "path (sl_payload w) [''settings'', ''challenge_id''] = Inr (JStr c)" "path (sl_payload w) [''settings'', ''algorithm_id''] = Inr (JStr a)"
      "path (sl_payload w) [''settings'', ''block_id''] = Inr (JStr (sn_block_id s))"
      "subscript (sl_payload w) ''track_settings'' = Inr (JDict (map (track_payload fuel') tracks))"
      unfolding 1(8) selection_payload_def by (simp_all add: subscript_def)
    have config: "bindE (item (sn_challenges s) c) (\<lambda>v. subscript v ''config'') = Inr config" using 1(1,2) by simp
    show ?thesis
      by (intro exI [of _ cs] exI [of _ c] exI [of _ ids] exI [of _ a] exI [of _ n] exI [of _ config] exI [of _ items] exI [of _ tracks]
          exI [of _ best] 1(10) conjI exI [of _ binaries] exI [of _ fuel'] \<open>p_index rows ''algorithm_id'' ''algorithm binaries'' = Inr binaries\<close>
          \<open>work_candidates s binaries resource = Inr cs\<close> \<open>(c, ids) \<in> set cs\<close> \<open>\<forall>(c', _) \<in> set cs. pool_count s player c \<le> pool_count s player c'\<close>
          own payload config 1(3) keys)
        (use best tracks in blast)+
  qed
qed

section \<open>The fee ceiling\<close>

lemma dict_get_sort: "dict_get k (sort_key fst items) = dict_get k items"
proof -
  have "lookup fst k xs = (case filter (\<lambda>p. fst p = k) xs of [] \<Rightarrow> None | x # _ \<Rightarrow> Some x)" for xs :: "(string \<times> json) list"
    by (induction xs) auto
  then show ?thesis by (simp add: dict_get_def sort_key_stable)
qed

lemma dict_get_map: "dict_get k (map (\<lambda>(k, v). (k, f v)) items) = map_option f (dict_get k items)"
  by (induction items) auto

text \<open>Reading a stored payload gives what was stored, with the keys of its values sorted.\<close>

lemma subscript_sort_keys: "subscript (sort_keys v) k = (case subscript v k of Inl e \<Rightarrow> Inl e | Inr w \<Rightarrow> Inr (sort_keys w))"
  by (cases v) (auto simp: subscript_def dict_get_sort dict_get_map split: option.splits)

lemma match_bundles:
  assumes "precommit_matches payload precommit"
  obtains details t tracks track v u where "subscript precommit ''details'' = Inr details" "path precommit [''settings'', ''track_id''] = Inr (JStr t)"
    "subscript payload ''track_settings'' = Inr tracks" "subscript tracks t = Inr track"
    "subscript details ''num_bundles'' = Inr v" "subscript track ''num_bundles'' = Inr u" "json_eq v u"
proof -
  obtain b where m: "match_fields payload precommit = Inr b" "b" using assms by (auto simp: precommit_matches_def split: sum.splits)
  obtain settings details own track_id tracks track same where f: "subscript precommit ''settings'' = Inr settings"
    "subscript precommit ''details'' = Inr details" "subscript settings ''track_id'' = Inr track_id"
    "subscript payload ''track_settings'' = Inr tracks" "(case track_id of JStr t \<Rightarrow> subscript tracks t | _ \<Rightarrow> Inl KeyError) = Inr track"
    "mapE (\<lambda>k. bindE (subscript details k) (\<lambda>v. bindE (subscript track k) (\<lambda>w. Inr (json_eq v w))))
              [''num_bundles'', ''fuel_budget'', ''hyperparameters''] = Inr same" "list_all (\<lambda>b. b) same"
    using m unfolding match_fields_def bindE_Inr sum.inject by blast
  obtain t where t: "track_id = JStr t" "subscript tracks t = Inr track" using f(5) by (auto split: json.splits)
  obtain v u where "subscript details ''num_bundles'' = Inr v" "subscript track ''num_bundles'' = Inr u" "json_eq v u"
    using f(6,7) by (auto simp: bindE_Inr)
  with f(1-4) t show ?thesis by (intro that [of details t tracks track v u]) (auto simp: bindE_Inr)
qed

lemma track_payload_found: "dict_get t (map (track_payload f) tracks) = Some v \<Longrightarrow>
    \<exists>k \<in> set tracks. subscript v ''num_bundles'' = Inr (JInt (tk_num_bundles k))"
  by (induction tracks) (auto simp: track_payload_def subscript_def split: if_splits)

lemma stored_subscript:
  assumes "q = v \<or> q = sort_keys v" and "subscript q k = Inr y"
  shows "\<exists>y'. subscript v k = Inr y' \<and> (y = y' \<or> y = sort_keys y')"
  using assms by (auto simp: subscript_sort_keys split: sum.splits)

lemma submission_fee_mono:
  assumes "submission_fee config n = Inr fee" and "submission_fee config most = Inr top'" and "n \<le> most" and "1 \<le> n"
  shows "0 \<le> fee \<and> fee \<le> top'"
proof -
  obtain v u base each where p: "p_precise v ''base fee'' = Inr base" "p_precise u ''per-bundle fee'' = Inr each" "fee = base + each * n" "top' = base + each * most"
    using assms(1,2) unfolding submission_fee_def bindE_Inr by fastforce
  have "0 \<le> base" "0 \<le> each" using p(1,2) p_precise_nonneg by blast+
  then show ?thesis using assms(3,4) p(3,4) by (simp add: mult_left_mono)
qed

text \<open>The fee ceiling of a selection covers the fee of every track the protocol may pick.\<close>

lemma selected_fee_covers:
  assumes run: "choose_work pick s rows player resource compute_type now max_age fuel index ref_age = Inr w" and pick: "valid_pick pick"
    and r: "r_payload r = sl_payload w" and confirmed: "check_confirmed (stored_payload r) precommit s = Inr c"
  shows "0 \<le> cp_fee c \<and> cp_fee c \<le> sl_max_submission_fee w"
  using run pick
proof (cases rule: choose_cases)
  case (1 binaries cs c' ids adoptions a n' counts)
  from 1(10) show ?thesis
  proof (cases rule: select_cases)
    case (1 config fuel' best items tracks challenge default_min)
    let ?payload = "stored_payload r"
    have same: "?payload = sl_payload w \<or> ?payload = sort_keys (sl_payload w)" by (simp add: stored_payload_def r)
    obtain details challenge_id conf bundles fee where m: "precommit_matches ?payload precommit" and d: "subscript precommit ''details'' = Inr details"
      and ch: "path ?payload [''settings'', ''challenge_id''] = Inr challenge_id"
      and conf: "bindE (item (sn_challenges s) (str_of challenge_id)) (\<lambda>c. subscript c ''config'') = Inr conf"
      and bundles: "bindE (subscript details ''num_bundles'') count_value = Inr bundles"
      and fee: "submission_fee conf bundles = Inr fee" "cp_fee c = fee"
      using confirmed unfolding check_confirmed_def raise_if_Inr bindE_Inr [where m = "subscript precommit ''details''"]
        bindE_Inr [where k = "\<lambda>x. _ x :: confirmed_precommit result"] sum.inject
      by (auto simp: bindE_Inr)
    have settings: "path (sl_payload w) [''settings'', ''challenge_id''] = Inr (JStr c')"
      unfolding 1(8) selection_payload_def by (simp add: subscript_def)
    then have "challenge_id = JStr c'" using ch same by (auto simp: bindE_Inr subscript_sort_keys split: sum.splits)
    then have conf_eq: "conf = config" using conf 1(1,2) by simp
    obtain details' t ts track v u where t: "subscript precommit ''details'' = Inr details'" "subscript ?payload ''track_settings'' = Inr ts"
      "subscript ts t = Inr track" "subscript details' ''num_bundles'' = Inr v" "subscript track ''num_bundles'' = Inr u" "json_eq v u"
      using m by (rule match_bundles)
    have payload: "subscript (sl_payload w) ''track_settings'' = Inr (JDict (map (track_payload fuel') tracks))"
      unfolding 1(8) selection_payload_def by (simp add: subscript_def)
    obtain ts' where ts': "subscript (sl_payload w) ''track_settings'' = Inr ts'" "ts = ts' \<or> ts = sort_keys ts'"
      using stored_subscript [OF same t(2)] by blast
    obtain track' where track': "subscript ts' t = Inr track'" "track = track' \<or> track = sort_keys track'"
      using stored_subscript [OF ts'(2) t(3)] by blast
    obtain u' where u': "subscript track' ''num_bundles'' = Inr u'" "u = u' \<or> u = sort_keys u'"
      using stored_subscript [OF track'(2) t(5)] by blast
    have "dict_get t (map (track_payload fuel') tracks) = Some track'" using ts'(1) track'(1) unfolding payload by (auto simp: subscript_Inr)
    then obtain k where k: "k \<in> set tracks" "u' = JInt (tk_num_bundles k)" using track_payload_found u'(1) by fastforce
    then have "u = JInt (tk_num_bundles k)" using u'(2) by auto
    then have "v = JInt (tk_num_bundles k)" using t(6) by (cases v) (auto simp: json_eq_def)
    then have "bundles = tk_num_bundles k" using bundles t(1,4) d by (auto simp: count_value_def)
    moreover have "tk_num_bundles k \<le> Max (tk_num_bundles ` set tracks)" using k(1) by (intro Max_ge) auto
    moreover have "1 \<le> tk_num_bundles k" using mapE_set [OF 1(4) k(1)] choose_track_Inr(2) by blast
    ultimately show ?thesis using fee 1(6) submission_fee_mono unfolding conf_eq by blast
  qed
qed

section \<open>From the queue to the accepted precommit\<close>

lemma open_reservation_row: "open_reservation env jid r p = Inr (r', p') \<Longrightarrow> r' = r"
  unfolding open_reservation_def by (auto simp: bindE_Inr split: if_splits)

lemma reserve_row:
  assumes "reserve env i jid m key rnd resource selection payload fee expires expiry p = Inr (r, p')"
    and "\<forall>x \<in> set (reservations p). \<not> (r_member_id x = m \<and> r_request_key x = key)"
  shows "r_payload r = payload \<and> r_fee_limit r = fee \<and> r_member_id r = m \<and> r_state r = Reserved"
  using assms(1)
proof (cases rule: reserve_cases)
  case again
  then show ?thesis using assms(2) by blast
next
  case (first mm base amount counts)
  then have "m_id mm = m" by (auto dest: lookup_SomeD)
  with open_reservation_row [OF first(11)] show ?thesis by (simp add: new_reservation_def)
qed

definition unreserved :: "work_request_row \<Rightarrow> pool \<Rightarrow> bool" where
  "unreserved w p \<longleftrightarrow> (\<forall>r \<in> set (reservations p). \<not> (r_member_id r = wq_member_id w \<and> r_request_key r = wq_id w))"

lemma unreserved_update [simp]: "unreserved w (update_request i f p) = unreserved w p"
  by (simp add: unreserved_def update_request_def with_requests_def)

lemma serve_selected:
  "serve env c ws p = Inr (Some r, p') \<Longrightarrow> \<forall>w \<in> set ws. unreserved w p \<Longrightarrow>
   \<exists>w \<in> set ws. \<exists>s. select_for c w = Inr s \<and> r_payload r = sl_payload s \<and> r_fee_limit r = sl_max_submission_fee s \<and> r_member_id r = wq_member_id w"
proof (induction ws arbitrary: p)
  case (Cons w ws)
  let ?q = "update_request (wq_id w) (\<lambda>w. w\<lparr>wq_last_attempted_at := Some (clock env)\<rparr>) p"
  consider "serve env c ws ?q = Inr (Some r, p')" | s q1 where "select_for c w = Inr s" "reserve_for env c w s ?q = Inr (r, q1)"
    using Cons.prems(1) by (auto simp: Let_def bindE_Inr split: sum.splits selection_error.splits error.splits)
  then show ?case
  proof cases
    case 1
    then show ?thesis using Cons.IH [OF 1] Cons.prems(2) by auto
  next
    case 2
    have "unreserved w ?q" using Cons.prems(2) by simp
    then have "r_payload r = sl_payload s \<and> r_fee_limit r = sl_max_submission_fee s \<and> r_member_id r = wq_member_id w"
      using 2(2) reserve_row unfolding reserve_for_def unreserved_def by (auto split: prod.splits)
    with 2(1) show ?thesis by auto
  qed
qed simp

text \<open>
  C10. Work is reserved with a budget that is always enough. When the queue reserves work for a waiting member, the reservation
  holds the payload that was selected for that member, and whatever confirmed precommit is later taken to be the reserved one, on
  whichever of its tracks, the fee it was charged is within the ceiling the reservation set aside.
\<close>

theorem reserved_fee_covers:
  assumes run: "serve_queue env i c p = Inr (Some r, p')" and picks: "\<And>w. valid_pick (qc_pick c w)"
    and queued: "\<forall>w \<in> set (work_queue p). wq_state w = RQueued \<longrightarrow> unreserved w p"
  shows "(\<exists>w \<in> set (work_queue p). \<exists>s. wq_state w = RQueued \<and> clock env < wq_expires_at w \<and> select_for c w = Inr s \<and>
      r_member_id r = wq_member_id w \<and> r_payload r = sl_payload s) \<and>
    (\<forall>precommit cp. check_confirmed (stored_payload r) precommit (qc_snapshot c) = Inr cp \<longrightarrow> 0 \<le> cp_fee cp \<and> cp_fee cp \<le> r_fee_limit r)"
proof -
  let ?p = "expire_where (\<lambda>_. True) env p"
  have run: "serve env c (queue_order ?p) ?p = Inr (Some r, p')" using run by (auto simp: serve_queue_def bindE_Inr Let_def split: if_splits)
  have live: "w \<in> set (work_queue p) \<and> wq_state w = RQueued \<and> clock env < wq_expires_at w \<and> unreserved w ?p" if "w \<in> set (queue_order ?p)" for w
  proof -
    have "w \<in> set (work_queue ?p)" "wq_state w = RQueued" using that by (auto simp: queue_order_def dest: in_set_takeD)
    then have "w \<in> set (work_queue p)" "clock env < wq_expires_at w"
      by (auto simp: expire_where_def with_requests_def expired_offer_def not_le split: if_splits)
    then show ?thesis using queued \<open>wq_state w = RQueued\<close> by (auto simp: unreserved_def expire_where_def with_requests_def)
  qed
  obtain w s where w: "w \<in> set (queue_order ?p)" "select_for c w = Inr s" "r_payload r = sl_payload s" "r_fee_limit r = sl_max_submission_fee s"
    "r_member_id r = wq_member_id w"
    using serve_selected [OF run] live by blast
  obtain rows resource ct where choice: "choose_work (qc_pick c (wq_id w)) (qc_snapshot c) rows (qc_player c) resource ct (qc_now c) (qc_max_age c) None
      (Some (qc_index c)) (qc_reference_max_age c) = Inr s"
    using w(2) by (auto simp: select_for_def bindE_Inr work_or_Inr)
  have "0 \<le> cp_fee cp \<and> cp_fee cp \<le> r_fee_limit r" if "check_confirmed (stored_payload r) precommit (qc_snapshot c) = Inr cp" for precommit cp
    using selected_fee_covers [OF choice picks w(3) that] w(4) by simp
  then show ?thesis using live [OF w(1)] w by blast
qed

section \<open>A block with one challenge\<close>

definition demo_config :: json where
  "demo_config = JDict [(''type'', JStr ''cpu''), (''max_fuel_budget'', JInt 9), (''min_num_bundles'', JInt 1), (''base_fee'', JStr ''10''),
     (''per_nonce_fee'', JStr ''5''), (''active_tracks'', JDict
       [(''t2'', JDict [(''num_nonces_per_bundle'', JInt 2)]), (''t1'', JDict [(''min_num_bundles'', JInt 2), (''num_nonces_per_bundle'', JInt 3)])])]"

definition demo_algorithm :: "string \<Rightarrow> json" where
  "demo_algorithm n = JDict [(''details'', JDict [(''challenge_id'', JStr ''c''), (''name'', JStr ''alg'')]),
     (''state'', JDict [(''banned'', JBool False), (''round_active'', JInt 1)]), (''block_data'', JDict [(''adoption'', JStr n)])]"

definition demo_binary :: "string \<Rightarrow> json" where
  "demo_binary a = JDict [(''algorithm_id'', JStr a), (''details'', JDict [(''compile_success'', JBool True), (''download_url'', JStr ''u'')]),
     (''state'', JDict [(''block_confirmed'', JInt 5)])]"

definition demo_snapshot :: snapshot where
  "demo_snapshot = \<lparr>sn_block_id = ''b'', sn_previous_block_id = ''z'', sn_height = 10, sn_round = 3, sn_timestamp = 100, sn_bundles = [],
     sn_qualifiers = [], sn_precommits = [], sn_algorithms = [(''a1'', demo_algorithm ''7''), (''a2'', demo_algorithm ''8'')],
     sn_challenges = [(''c'', JDict [(''config'', demo_config), (''state'', JDict [(''round_active'', JInt 1)])])],
     sn_selection_references = None, sn_scoped = False\<rparr>"

definition demo_choice :: "selection_error + work_selection" where
  "demo_choice = choose_work hd demo_snapshot (JList [demo_binary ''a1'', demo_binary ''a2'']) ''p'' ''CPU'' ''aws_t3'' (JInt 101) (JInt 120) None None (JInt 1800)"

definition demo_selection :: work_selection where
  "demo_selection = (case demo_choice of Inr w \<Rightarrow> w | Inl _ \<Rightarrow> \<lparr>sl_creation_round = 0, sl_payload = JNull, sl_evidence = JNull,
     sl_base_collateral = 0, sl_max_submission_fee = 0\<rparr>)"

lemma demo_choice_run:
  "choose_work hd demo_snapshot (JList [demo_binary ''a1'', demo_binary ''a2'']) ''p'' ''CPU'' ''aws_t3'' (JInt 101) (JInt 120) None None (JInt 1800) =
     Inr demo_selection"
  by code_simp

lemma hd_picks: "valid_pick hd"
  by (simp add: valid_pick_def)

theorem selection_rule_witness:
  "path (sl_payload demo_selection) [''settings'', ''algorithm_id''] = Inr (JStr ''a2'') \<and>
   (\<exists>c. path (sl_payload demo_selection) [''settings'', ''challenge_id''] = Inr (JStr c))"
proof -
  have "path (sl_payload demo_selection) [''settings'', ''algorithm_id''] = Inr (JStr ''a2'')" by code_simp
  then show ?thesis using selection_rule [OF demo_choice_run hd_picks] by blast
qed

text \<open>The queue of a pool with one funded member.\<close>

definition demo_request :: work_request_row where
  "demo_request = \<lparr>wq_id = ''q1'', wq_member_id = ''m1'', wq_request_key = ''k'', wq_offer_hash = [], wq_offer =
     JDict [(''resource'', JStr ''CPU''), (''compute_type'', JStr ''aws_t3'')], wq_state = RQueued, wq_expires_at = 9, wq_reservation_id = None,
     wq_created_at = 0, wq_last_attempted_at = None\<rparr>"

definition demo_cap :: spending_cap_row where
  "demo_cap = cap_row demo_env ''cap'' 3600 ''ops'' ''first'' ''e'' [(''tig_fee_attempt_units'', JInt 100), (''tig_fee_window_units'', JInt 1000)]"

definition demo_purse :: "string \<Rightarrow> account_kind \<Rightarrow> location \<Rightarrow> int \<Rightarrow> account_row" where
  "demo_purse i kind l n = \<lparr>acc_id = i, acc_kind = kind, acc_asset = AssetTIG, acc_location = l, acc_balance = n\<rparr>"

definition demo_queue :: pool where
  "demo_queue = with_requests [demo_request] (demo_member\<lparr>ledger := \<lparr>accounts = [demo_purse (available ''m1'') KMember Custody (10 ^ 30),
       demo_purse OPERATOR_FEES KOperator Protocol 100], journals = [], entries = []\<rparr>, spending_caps := [demo_cap],
     observations := empty_observations\<lparr>observed_blocks := [\<lparr>ob_id = ''b'', ob_height = 10, ob_previous_id = ''z'', ob_round = 3,
       ob_timestamp = 100, ob_blocks_per_round = 5, ob_semantic_digest = [], ob_attempt_id = []\<rparr>]\<rparr>\<rparr>)"

definition demo_context :: queue_context where
  "demo_context = \<lparr>qc_snapshot = demo_snapshot, qc_binaries = Inr (JList [demo_binary ''a1'', demo_binary ''a2'']), qc_player = ''p'', qc_now = JInt 101,
     qc_max_age = JInt 120, qc_index = references demo_snapshot, qc_reference_max_age = JInt 1800, qc_pick = (\<lambda>_. hd), qc_ids = (\<lambda>_. (''r'', ''j'', ''x''))\<rparr>"

text \<open>The precommit the protocol confirmed for the first track of that reservation.\<close>

definition demo_precommit :: json where
  "demo_precommit = JDict [(''benchmark_id'', JStr (replicate 32 CHR ''a'')), (''settings'', JDict [(''player_id'', JStr ''p''), (''block_id'', JStr ''b''),
       (''challenge_id'', JStr ''c''), (''algorithm_id'', JStr ''a2''), (''track_id'', JStr ''t1'')]),
     (''details'', JDict [(''compute_type'', JStr ''aws_t3''), (''num_bundles'', JInt 2), (''fuel_budget'', JInt 9), (''hyperparameters'', JNull),
       (''block_started'', JInt 10), (''num_nonces'', JInt 6), (''rand_hash'', JStr (replicate 32 CHR ''b'')), (''fee_paid'', JStr ''20'')]),
     (''state'', JDict [(''block_confirmed'', JInt 11)])]"

text \<open>Printing an integer by its digits, for the amounts of the example.\<close>

definition digits_of :: "int \<Rightarrow> string" where
  "digits_of k = nat_text (nat k)"

lemma digits_of_code [code]:
  "digits_of k = (if k < 10 then [char_of (48 + nat k)] else digits_of (k div 10) @ [char_of (48 + nat (k mod 10))])"
proof -
  have "nat k < 10 \<longleftrightarrow> k < 10" by linarith
  then show ?thesis by (subst digits_of_def, subst nat_text.simps) (simp only: digits_of_def nat_div_distrib nat_mod_distrib, auto simp: nat_mod_distrib nat_div_distrib)
qed

lemma int_text_code [code]: "int_text n = (if n < 0 then ''-'' @ digits_of (- n) else digits_of n)"
  by (simp add: int_text_def digits_of_def)

definition served_env :: env where
  "served_env = demo_env\<lparr>sha256 := (\<lambda>_. ''h'')\<rparr>"

definition demo_turn :: pool where
  "demo_turn = update_request ''q1'' (\<lambda>w. w\<lparr>wq_last_attempted_at := Some 0\<rparr>) demo_queue"

definition demo_row :: reservation_row where
  "demo_row = new_reservation served_env ''r'' (new_member ''m1'' ''0x00000000000000000000000000000000000000aa'') ''q1'' ''h'' 3 ''CPU''
     20000000000000000000 20000000000000000000 (sl_evidence demo_selection) (sl_payload demo_selection) 20 9"

lemma demo_guards:
  "track_counts (sl_payload demo_selection) = Some [JInt 2, JInt 1]"
  "request_hash served_env 3 ''CPU'' (sl_evidence demo_selection) (sl_payload demo_selection) 20 ''9'' = ''h''"
  "member_lock ''m1'' demo_turn = Inr (new_member ''m1'' ''0x00000000000000000000000000000000000000aa'')"
  "blocked served_env demo_turn = Inr None"
  "reservations demo_turn = []"
  "clock served_env = 0"
  "collateral [JInt 2, JInt 1] (MDecimal (m_multiplier (new_member ''m1'' ''0x00000000000000000000000000000000000000aa''))) (JInt 18) =
     Inr (20000000000000000000, 20000000000000000000)"
  "check served_env (m_wallet (new_member ''m1'' ''0x00000000000000000000000000000000000000aa'')) ''CPU'' 20000000000000000000 20
     (sl_payload demo_selection) None demo_turn = Inr ()"
  "check_fee served_env 20 None demo_turn = Inr ()"
  by code_simp+

definition demo_ledger_opened :: "(string \<times> ledger_state) result" where
  "demo_ledger_opened =
     bindE (account (held ''r'') KCollateral AssetTIG Custody (ledger demo_turn)) (\<lambda>(_, l).
     bindE (account (committed_fee ''r'') KOperatorCommitment AssetTIG Protocol l) (\<lambda>(_, l).
       post served_env ''j'' (reservation_key ''r'' ''reserve'') ''benchmark_reservation''
         (reserve_movements ''m1'' ''r'' 20000000000000000000 20) (JDict [(''member_id'', JStr ''m1''), (''multiplier_revision'', JInt 0)]) None l))"

lemma demo_ledger_run: "case demo_ledger_opened of Inl _ \<Rightarrow> False | Inr _ \<Rightarrow> True"
  by code_simp

lemma demo_fields:
  "r_id demo_row = ''r''" "r_member_id demo_row = ''m1''" "r_amount demo_row = 20000000000000000000" "r_fee_limit demo_row = 20"
  "r_multiplier_revision demo_row = 0"
  by (simp_all add: demo_row_def new_reservation_def new_member_def)

lemma demo_empty: "reservation_events demo_turn = []" "reservations demo_turn = []" "outbox demo_turn = []"
  "work_queue demo_turn = [demo_request\<lparr>wq_last_attempted_at := Some 0\<rparr>]"
  by code_simp+

lemma demo_open: "\<exists>p. open_reservation served_env ''j'' demo_row demo_turn = Inr (demo_row, p) \<and> outbox p = [] \<and> work p = work demo_turn"
proof -
  obtain m l where "demo_ledger_opened = Inr (m, l)" using demo_ledger_run by (auto split: sum.splits)
  then obtain a l1 b l2 where "account (held ''r'') KCollateral AssetTIG Custody (ledger demo_turn) = Inr (a, l1)"
    "account (committed_fee ''r'') KOperatorCommitment AssetTIG Protocol l1 = Inr (b, l2)"
    "post served_env ''j'' (reservation_key ''r'' ''reserve'') ''benchmark_reservation'' (reserve_movements ''m1'' ''r'' 20000000000000000000 20)
       (JDict [(''member_id'', JStr ''m1''), (''multiplier_revision'', JInt 0)]) None l2 = Inr (m, l)"
    unfolding demo_ledger_opened_def bindE_Inr split_paired_Ex prod.case by blast
  then show ?thesis by (simp add: open_reservation_def demo_fields on_ledger_def event_def demo_empty)
qed

lemma demo_reserve:
  "open_reservation served_env ''j'' demo_row demo_turn = Inr (demo_row, p) \<Longrightarrow> 
   reserve served_env ''r'' ''j'' ''m1'' ''q1'' 3 ''CPU'' (sl_evidence demo_selection) (sl_payload demo_selection) 20 9 ''9'' demo_turn =
     Inr (demo_row, p)"
  by (simp add: reserve_def demo_guards slots_held_def units_def flip: demo_row_def)

lemma demo_select: "select_for demo_context demo_request = Inr demo_selection"
  by code_simp

lemma demo_terms: "sl_creation_round demo_selection = 3" "sl_max_submission_fee demo_selection = 20"
  by code_simp+

lemma demo_pass:
  "blocked served_env demo_queue = Inr None" "map_option ob_id (newest_block demo_queue) = Some ''b''"
  "\<not> conflict_at (sn_height (qc_snapshot demo_context)) demo_queue" "expire_where (\<lambda>_. True) served_env demo_queue = demo_queue"
  "queue_order demo_queue = [demo_request]" "qc_ids demo_context i = (''r'', ''j'', ''x'')"
  "wq_id demo_request = ''q1''" "wq_member_id demo_request = ''m1''" "wq_expires_at demo_request = 9" "isoformat served_env 9 = ''9''"
  "str_of (get ''resource'' (case wq_offer demo_request of JDict items \<Rightarrow> items | _ \<Rightarrow> [])) = ''CPU''"
  by code_simp+

lemma demo_served: "\<exists>p. serve_queue served_env ''b'' demo_context demo_queue = Inr (Some demo_row, p)"
proof -
  obtain q where q: "open_reservation served_env ''j'' demo_row demo_turn = Inr (demo_row, q)" "outbox q = []" "work q = work demo_turn"
    using demo_open by blast
  have turn: "update_request ''q1'' (\<lambda>w. w\<lparr>wq_last_attempted_at := Some (clock served_env)\<rparr>) demo_queue = demo_turn"
    by (simp add: demo_turn_def demo_guards)
  have mine: "reserve_for served_env demo_context demo_request demo_selection demo_turn = Inr (demo_row, q)"
    using demo_reserve [OF q(1)] by (simp add: reserve_for_def demo_pass demo_terms)
  have "enqueue served_env ''x'' ''r'' Precommit (sl_payload demo_selection) q =
      Inr ((), with_outbox [new_intent served_env ''x'' ''r'' Precommit (sl_payload demo_selection)] q)"
    using q by (simp add: enqueue_def intent_for_def)
  moreover have "mark_reserved ''q1'' ''r'' (with_outbox rows q) =
      Inr (update_request ''q1'' (\<lambda>w. w\<lparr>wq_state := RReserved, wq_reservation_id := Some ''r''\<rparr>) (with_outbox rows q))" for rows
    using q(3) demo_empty by (auto simp: mark_reserved_def with_outbox_def demo_pass)
  ultimately show ?thesis
    by (simp add: serve_queue_def demo_pass Let_def turn demo_select mine demo_fields)
qed

lemma demo_confirmed:
  "case check_confirmed (stored_payload demo_row) demo_precommit demo_snapshot of Inl _ \<Rightarrow> False | Inr c \<Rightarrow> cp_fee c = 20"
  by code_simp

theorem reserved_fee_covers_witness:
  "\<exists>p cp. serve_queue served_env ''b'' demo_context demo_queue = Inr (Some demo_row, p) \<and>
     check_confirmed (stored_payload demo_row) demo_precommit demo_snapshot = Inr cp \<and> cp_fee cp = 20 \<and> 20 \<le> r_fee_limit demo_row"
proof -
  obtain cp where cp: "check_confirmed (stored_payload demo_row) demo_precommit demo_snapshot = Inr cp" "cp_fee cp = 20"
    using demo_confirmed by (auto split: sum.splits)
  obtain p where served: "serve_queue served_env ''b'' demo_context demo_queue = Inr (Some demo_row, p)"
    using demo_served by blast
  have picks: "valid_pick (qc_pick demo_context w)" for w by (simp add: demo_context_def hd_picks)
  have none: "\<forall>w \<in> set (work_queue demo_queue). wq_state w = RQueued \<longrightarrow> unreserved w demo_queue"
    by (simp add: unreserved_def demo_queue_def with_requests_def demo_member_def empty_pool_def)
  have same: "qc_snapshot demo_context = demo_snapshot" by (simp add: demo_context_def)
  have "cp_fee cp \<le> r_fee_limit demo_row" using reserved_fee_covers [OF served picks none] cp(1) same by metis
  with served cp show ?thesis by metis
qed

end
