(* ===== verification/Merkle.thy ===== *)
theory Merkle
  imports Member_Protocol
begin

text \<open>
  The Merkle tree of a benchmark as a reference: each level pairs its neighbours and promotes an odd last
  node, and a leaf is proved by the siblings on its way to the root. \<open>proof_root\<close> computes the root from
  such a proof alone.
\<close>

section \<open>The tree\<close>

fun level_up :: "(string \<Rightarrow> string) \<Rightarrow> string list \<Rightarrow> string list" where
  "level_up h (a # b # rest) = h (a @ b) # level_up h rest"
| "level_up h xs = xs"

lemma length_level_up [simp]: "length (level_up h xs) = (length xs + 1) div 2"
  by (induction h xs rule: level_up.induct) auto

function tree_root :: "(string \<Rightarrow> string) \<Rightarrow> string list \<Rightarrow> string" where
  "tree_root h xs = (if length xs \<le> 1 then hd xs else tree_root h (level_up h xs))"
  by pat_completeness auto
termination
  by (relation "measure (\<lambda>(_, xs). length xs)") auto

function siblings :: "(string \<Rightarrow> string) \<Rightarrow> string list \<Rightarrow> nat \<Rightarrow> nat \<Rightarrow> (nat \<times> string) list" where
  "siblings h xs i d =
     (if length xs \<le> 1 then []
      else let s = (if even i then i + 1 else i - 1)
           in (if s < length xs then [(d, xs ! s)] else []) @ siblings h (level_up h xs) (i div 2) (d + 1))"
  by pat_completeness auto
termination
  by (relation "measure (\<lambda>(_, xs, _, _). length xs)") auto

declare tree_root.simps [simp del] siblings.simps [simp del]

lemma level_up_nth:
  "i < length xs \<Longrightarrow> level_up h xs ! (i div 2) =
    (if even i then if i + 1 < length xs then h (xs ! i @ xs ! (i + 1)) else xs ! i else h (xs ! (i - 1) @ xs ! i))"
proof (induction h xs arbitrary: i rule: level_up.induct)
  case (1 h a b rest)
  show ?case
  proof (cases "i < 2")
    case True
    then show ?thesis by (cases "i = 0") (auto simp: less_2_cases_iff)
  next
    case False
    then obtain j where j: "i = j + 2" by (metis add.commute le_Suc_ex not_less)
    have "j < length rest" using 1(2) j by simp
    from 1(1) [OF this] show ?thesis unfolding j by (cases "even j") (auto elim!: oddE)
  qed
qed auto

lemma level_up_lengths:
  "(\<And>x. length (h x) = 32) \<Longrightarrow> \<forall>x \<in> set xs. length x = 32 \<Longrightarrow> \<forall>x \<in> set (level_up h xs). length x = 32"
  by (induction h xs rule: level_up.induct) auto

lemma bit_count_step: "2 \<le> n \<Longrightarrow> bit_count (n - 1) = Suc (bit_count ((n + 1) div 2 - 1))"
proof -
  assume "2 \<le> n"
  then have "n - 1 \<noteq> 0" "(n - 1) div 2 = (n + 1) div 2 - 1" by presburger+
  then show ?thesis by (subst bit_count.simps) simp
qed

lemma siblings_length: "length (siblings h xs i d) \<le> bit_count (length xs - 1)"
proof (induction h xs i d rule: siblings.induct)
  case (1 h xs i d)
  show ?case
  proof (cases "length xs \<le> 1")
    case False
    then have "bit_count (length xs - 1) = Suc (bit_count (length (level_up h xs) - 1))" using bit_count_step [of "length xs"] by simp
    moreover note 1 [OF False refl]
    ultimately show ?thesis using False by (subst siblings.simps) (simp add: Let_def)
  qed (subst siblings.simps, simp)
qed

lemma siblings_depth: "(e, x) \<in> set (siblings h xs i d) \<Longrightarrow> d \<le> e \<and> e < d + bit_count (length xs - 1)"
proof (induction h xs i d rule: siblings.induct)
  case (1 h xs i d)
  show ?case
  proof (cases "length xs \<le> 1")
    case True
    then show ?thesis using 1(2) by (subst (asm) siblings.simps) simp
  next
    case False
    then have "bit_count (length xs - 1) = Suc (bit_count (length (level_up h xs) - 1))" using bit_count_step [of "length xs"] by simp
    then show ?thesis using 1(1) [OF False refl] 1(2) False by (subst (asm) siblings.simps) (auto simp: Let_def split: if_splits)
  qed
qed

lemma siblings_bytes:
  "(\<And>x. length (h x) = 32) \<Longrightarrow> \<forall>x \<in> set xs. length x = 32 \<Longrightarrow> i < length xs \<Longrightarrow> (e, x) \<in> set (siblings h xs i d) \<Longrightarrow> length x = 32"
proof (induction h xs i d rule: siblings.induct)
  case (1 h xs i d)
  show ?case
  proof (cases "length xs \<le> 1")
    case True
    then show ?thesis using 1(5) by (subst (asm) siblings.simps) simp
  next
    case False
    have "i div 2 < length (level_up h xs)" using 1(4) by simp
    from 1(1) [OF False refl 1(2) level_up_lengths [OF 1(2,3)] this] show ?thesis
      using 1(3,5) False by (subst (asm) siblings.simps) (auto simp: Let_def split: if_splits)
  qed
qed

text \<open>Climbing the siblings reaches the root.\<close>

lemma bit_count_le: "n < 2 ^ k \<Longrightarrow> bit_count n \<le> k"
proof (induction k arbitrary: n)
  case (Suc k)
  then have "n div 2 < 2 ^ k" by simp
  from Suc.IH [OF this] show ?case by (subst bit_count.simps) simp
qed (simp add: bit_count.simps)

lemma climb_siblings:
  "(\<And>x. length (h x) = 32) \<Longrightarrow> \<forall>x \<in> set xs. length x = 32 \<Longrightarrow> i < length xs \<Longrightarrow> level \<le> int d \<Longrightarrow> position div 2 ^ nat (int d - level) = i \<Longrightarrow>
    d + bit_count (length xs - 1) \<le> m \<Longrightarrow>
    climb h m (map (\<lambda>(e, x). Some (int e, x)) (siblings h xs i d)) position level (xs ! i) = Some (tree_root h xs)"
proof (induction h xs i d arbitrary: position level rule: siblings.induct)
  case (1 h xs i d)
  show ?case
  proof (cases "length xs \<le> 1")
    case True
    then show ?thesis using 1(4) by (subst siblings.simps, subst tree_root.simps) (cases xs, auto)
  next
    case False
    let ?up = "level_up h xs"
    let ?s = "if even i then i + 1 else i - 1"
    have bits: "bit_count (length xs - 1) = Suc (bit_count (length ?up - 1))" using bit_count_step [of "length xs"] False by simp
    have up: "\<forall>x \<in> set ?up. length x = 32" by (rule level_up_lengths [OF 1(2,3)])
    have i: "i div 2 < length ?up" using 1(4) by simp
    have m: "d + 1 + bit_count (length ?up - 1) \<le> m" using 1(7) bits by simp
    note IH = 1(1) [OF False refl 1(2) up i _ _ m]
    have root: "tree_root h xs = tree_root h ?up" using False by (subst tree_root.simps) simp
    show ?thesis
    proof (cases "?s < length xs")
      case True
      have other: "length (xs ! ?s) = 32" using True 1(3) by simp
      have val: "h (if odd i then xs ! ?s @ xs ! i else xs ! i @ xs ! ?s) = ?up ! (i div 2)"
        using True 1(4) by (cases "even i") (simp_all add: level_up_nth)
      have "siblings h xs i d = (d, xs ! ?s) # siblings h ?up (i div 2) (d + 1)" using False True by (subst siblings.simps) (simp add: Let_def)
      moreover have "climb h m (map (\<lambda>(e, x). Some (int e, x)) (siblings h ?up (i div 2) (d + 1))) (i div 2) (int d + 1) (?up ! (i div 2)) = Some (tree_root h ?up)"
        by (rule IH) simp_all
      ultimately show ?thesis using 1(5,6,7) bits other val root by (simp add: Let_def)
    next
      case False
      note last = False
      have "siblings h xs i d = siblings h ?up (i div 2) (d + 1)" using \<open>\<not> length xs \<le> 1\<close> last by (subst siblings.simps) (simp add: Let_def)
      moreover have "?up ! (i div 2) = xs ! i" using last 1(4) by (auto simp: level_up_nth split: if_splits)
      moreover have "position div 2 ^ nat (int (d + 1) - level) = i div 2"
      proof -
        have "nat (int (d + 1) - level) = nat (int d - level) + 1" using 1(5) by simp
        then have "position div 2 ^ nat (int (d + 1) - level) = position div 2 ^ nat (int d - level) div 2"
          by (simp add: div_mult2_eq [symmetric] mult.commute)
        then show ?thesis using 1(6) by simp
      qed
      ultimately show ?thesis using IH [of level position] 1(5) root by simp
    qed
  qed
qed

section \<open>Encoding a proof\<close>

definition entry_text :: "nat \<times> string \<Rightarrow> string" where
  "entry_text e = byte_text (char_of (fst e)) @ bytes_text (snd e)"

definition honest_proof :: "(string \<Rightarrow> string) \<Rightarrow> output_leaf list \<Rightarrow> nat \<Rightarrow> string \<Rightarrow> json" where
  "honest_proof blake outputs i arch =
     (let l = outputs ! i in
      JDict [(''leaf'', JDict [(''nonce'', JInt (lf_nonce l)), (''runtime_signature'', JInt (lf_runtime_signature l)),
          (''fuel_consumed'', JInt (lf_fuel_consumed l)), (''solution'', JStr (lf_solution l)), (''cpu_arch'', JStr arch)]),
        (''branch'', JStr (concat (map entry_text (siblings blake (map (leaf_hash blake) outputs) i 0))))])"

lemma nibbles: "(of_char c :: nat) div 16 < 16" "(of_char c :: nat) mod 16 < 16"
  using nat_of_char_less_256 [of c] by (simp_all add: less_mult_imp_div_less)

lemma byte_text_hex: "list_all is_hex (byte_text c)" "length (byte_text c) = 2"
  by (simp_all add: byte_text_def Let_def hex_digit_ok nibbles)

lemma hex_not_special: "is_hex c \<Longrightarrow> \<not> is_space c \<and> \<not> blank_byte c \<and> c \<noteq> CHR ''+'' \<and> c \<noteq> CHR ''-''"
  by (auto simp: is_hex_def is_digit_def is_space_def blank_byte_def)

lemma length_bytes_text: "length (bytes_text s) = 2 * length s"
  by (induction s) (simp_all add: bytes_text_def byte_text_hex)

lemma from_hex_bytes_text: "bytes_fromhex (bytes_text s) = Some s"
proof (induction s)
  case (Cons c s)
  have hex: "is_hex (hex_digit (of_char c div 16))" "is_hex (hex_digit (of_char c mod 16))"
    "hex_value (hex_digit (of_char c div 16)) = of_char c div 16" "hex_value (hex_digit (of_char c mod 16)) = of_char c mod 16"
    by (simp_all add: hex_digit_ok nibbles)
  then show ?case using Cons hex_not_special [OF hex(1)] by (simp add: bytes_text_def byte_text_def Let_def)
qed (simp add: bytes_text_def)

lemma strip_hex: "list_all is_hex s \<Longrightarrow> strip s = s"
proof -
  assume hex: "list_all is_hex s"
  have none: "dropWhile is_space t = t" if "list_all is_hex t" for t using that by (cases t) (auto dest: hex_not_special)
  show ?thesis using none [OF hex] none [of "rev s"] hex by (simp add: strip_def list_all_iff)
qed

lemma int_of_pair_byte: "n < 256 \<Longrightarrow> int_of_pair (byte_text (char_of n)) = Some (int n)"
proof -
  assume n: "n < 256"
  have code: "of_char (char_of n :: char) = n" using n by (simp add: of_char_of)
  have hex: "is_hex (hex_digit (n div 16))" "hex_value (hex_digit (n div 16)) = n div 16" "hex_value (hex_digit (n mod 16)) = n mod 16"
    using n by (simp_all add: hex_digit_ok)
  have digits: "byte_text (char_of n) = [hex_digit (n div 16), hex_digit (n mod 16)]" unfolding byte_text_def Let_def code ..
  have all: "list_all is_hex (byte_text (char_of n))" by (rule byte_text_hex)
  have parse: "parse_hex (byte_text (char_of n)) = n" by (simp add: digits parse_hex_def hex)
  show ?thesis
    using hex_not_special [OF hex(1)] all parse unfolding int_of_pair_def strip_hex [OF all] by (simp add: digits Let_def)
qed

lemma branch_entry_text:
  assumes "e < 256" and "length x = 32"
  shows "branch_entry (entry_text (e, x)) = Some (int e, x)" and "length (entry_text (e, x)) = 66"
  using assms by (simp_all add: branch_entry_def entry_text_def byte_text_hex int_of_pair_byte from_hex_bytes_text length_bytes_text)

lemma pieces_concat:
  "(\<And>e. e \<in> set es \<Longrightarrow> length (f e) = 66) \<Longrightarrow> pieces (length es) (concat (map f es)) = map f es \<and> length (concat (map f es)) = 66 * length es"
  by (induction es) auto

section \<open>Honest proofs verify\<close>

text \<open>
  C11. Checking a proof is checking it against the whole tree. For a benchmark whose outputs are numbered by their nonces,
  the proof made of a leaf and its siblings is accepted, and the root it leads to is the root of the tree over all
  the outputs, whatever hash function of 32 bytes is used and however the levels of the tree come out odd.
\<close>

theorem honest_proof_verifies:
  assumes hash: "\<And>x. length (blake x) = 32" and arch: "arch \<in> {''amd64'', ''arm64''}" and i: "i < length outputs" and size: "length outputs \<le> 2 ^ 64"
    and leaf: "lf_nonce (outputs ! i) = int i" "0 \<le> lf_runtime_signature (outputs ! i) \<and> lf_runtime_signature (outputs ! i) < 2 ^ 64"
      "0 \<le> lf_fuel_consumed (outputs ! i) \<and> lf_fuel_consumed (outputs ! i) < 2 ^ 64"
  shows "proof_root blake (honest_proof blake outputs i arch) (int (length outputs)) =
    Inr (bytes_text (tree_root blake (map (leaf_hash blake) outputs)))"
proof -
  let ?hs = "map (leaf_hash blake) outputs"
  let ?es = "siblings blake ?hs i 0"
  let ?branch = "concat (map entry_text ?es)"
  have bytes: "\<forall>x \<in> set ?hs. length x = 32" by (auto simp: leaf_hash_def hash)
  have bits: "bit_length (int (length outputs) - 1) = bit_count (length ?hs - 1)"
    using i by (cases outputs) (simp_all add: bit_length_def)
  have "bit_count (length ?hs - 1) \<le> 64" using size by (intro bit_count_le) simp
  then have small: "e < 256 \<and> length x = 32" if "(e, x) \<in> set ?es" for e x
    using siblings_depth [OF that] siblings_bytes [OF hash bytes _ that] i by simp
  have cut: "pieces (length ?es) ?branch = map entry_text ?es" "length ?branch = 66 * length ?es"
    using pieces_concat [of ?es entry_text] small branch_entry_text(2) by auto
  have entries: "map branch_entry (map entry_text ?es) = map (\<lambda>(e, x). Some (int e, x)) ?es"
    using small branch_entry_text(1) by auto
  have read: "read_leaf (JDict [(''nonce'', JInt (lf_nonce (outputs ! i))), (''runtime_signature'', JInt (lf_runtime_signature (outputs ! i))),
      (''fuel_consumed'', JInt (lf_fuel_consumed (outputs ! i))), (''solution'', JStr (lf_solution (outputs ! i))), (''cpu_arch'', JStr arch)])
      (int (length outputs)) = Inr (outputs ! i)"
    using leaf arch i size by (auto simp: read_leaf_def uint64_def get_def item_def)
  have climbed: "climb blake (bit_count (length ?hs - 1)) (map (\<lambda>(e, x). Some (int e, x)) ?es) (nat (lf_nonce (outputs ! i))) 0 (?hs ! i) =
      Some (tree_root blake ?hs)"
    by (rule climb_siblings) (use hash bytes i leaf in simp_all)
  show ?thesis
    unfolding proof_root_def honest_proof_def Let_def
    using siblings_length [of blake ?hs i 0] climbed i
    by (simp add: item_def get_def read cut bits entries [unfolded map_map])
qed

text \<open>Three outputs, of which the last has no neighbour on its level.\<close>

definition demo_blake :: "string \<Rightarrow> string" where "demo_blake s = take 32 (rev s @ replicate 32 CHR ''0'')"

definition demo_outputs :: "output_leaf list" where
  "demo_outputs = map (\<lambda>n. \<lparr>lf_nonce = n, lf_runtime_signature = 7, lf_fuel_consumed = 9, lf_solution = ''s''\<rparr>) [0, 1, 2]"

theorem honest_proof_verifies_witness:
  "proof_root demo_blake (honest_proof demo_blake demo_outputs 2 ''amd64'') 3 =
     Inr (bytes_text (tree_root demo_blake (map (leaf_hash demo_blake) demo_outputs)))"
proof -
  have "\<And>x. length (demo_blake x) = 32" by (simp add: demo_blake_def)
  from honest_proof_verifies [of demo_blake "''amd64''" 2 demo_outputs, OF this] show ?thesis
    by (simp add: demo_outputs_def)
qed

end
