(* ===== verification/Spec2Isabelle.thy ===== *)
theory Spec2Isabelle
  imports Withdrawal_Properties Protocol_Properties Settlement_Properties Topup_Properties Operator_Funding Traces System_Properties
    Submission_Properties Selection_Properties Merkle
begin

text \<open>
  The InnoPool v2 pool manager (\<open>pool_manager/pool_v2\<close>) runs a mining pool for TIG: members deposit collateral, offer compute,
  receive benchmarks the pool submits to the protocol in its own name, and are paid a share of what a round earned. This
  development models its core: the books, the custody of funds, the work that is reserved and submitted, the evidence
  that is read from the protocol and the chain, and the settlement of rounds.

  \<^bold>\<open>The model.\<close> The database is a record \<open>pool\<close> of tables, a table a list of row records in insertion order (\<open>Store\<close>). An
  operation is a function from its arguments and the state to \<open>error + (result \<times> pool)\<close>; \<open>Inl\<close> is the exception that leaves
  the transaction, which then changes nothing, so advisory and row locks have no counterpart. The clock, SHA-256 and the
  printing of instants are the record \<open>env\<close>; fresh identifiers, random picks and BLAKE3 are arguments. Amounts are Python
  integers and so \<open>int\<close>; the bounds of the code (the 78 digits of a multiplier, \<open>int32\<close> qualities, \<open>uint64\<close> leaf fields) are
  written out. A JSON value is a \<open>json\<close> (\<open>Json\<close>); a float keeps its text, equals no integer, and is refused where the
  code multiplies counts. \<open>canonical\<close> is \<open>ledger.canonical\<close>, so \<open>json.loads\<close> of stored text is the value with sorted keys. Where SQL
  leaves the order of rows open, the first in insertion order is taken. Triggers and constraints are modelled where the
  code can reach them.

  \<^bold>\<open>Books.\<close> \<open>Money\<close> (\<open>money.py\<close>) has units, multipliers, collateral and the reward split; \<open>Ledger\<close> (\<open>ledger.py\<close>) the balanced,
  append-only journal. The locale \<open>journal_service\<close> states what a client may rely on and is interpreted on the code's
  \<open>post\<close>. \<open>Bank\<close> is an abstract bank, which the ledger refines.

  \<^bold>\<open>Members and custody.\<close> \<open>Members\<close> (\<open>members.py\<close>), \<open>Custody\<close> (\<open>custody.py\<close>), \<open>Deposits\<close> (\<open>deposits.py\<close>), \<open>Withdrawals\<close>
  (\<open>withdrawals.py\<close>), \<open>Topups\<close> (\<open>topups.py\<close>), \<open>Funding\<close> (\<open>funding.py\<close>), \<open>Operator_Funding\<close> (\<open>starter_credit.py\<close>,
  \<open>native_funding.py\<close>). The \<open>_Safety\<close> theories hold the invariants: each account of a pending withdrawal, send or top-up
  holds exactly what its row says. The \<open>_Properties\<close> theories show that money moves once and outcomes are final.

  \<^bold>\<open>Chain.\<close> \<open>Readings\<close>, \<open>Chain\<close> (\<open>chain.py\<close>), \<open>Traces\<close> and \<open>Chain_Observer\<close> (\<open>chain_observer.py\<close>). Code that asks the RPC
  is a reading, apart from the provider that answers: the same program runs live and on an archived capture, which the locale
  \<open>archive\<close> proves equal. The binary search for a nonce is a total function.

  \<^bold>\<open>Protocol.\<close> \<open>Payload\<close>, \<open>Protocol\<close> (\<open>protocol.py\<close>) and \<open>Compact\<close> (\<open>compact.py\<close>) validate observations and credit tied bundles
  equally; \<open>Evidence\<close> and \<open>Coverage\<close> (\<open>block_observer.py\<close>) store and replay them and keep the history of blocks;
  \<open>Qualifiers\<close>, \<open>Reports\<close> and \<open>Settlement\<close> (\<open>qualifiers.py\<close>, \<open>reports.py\<close>, \<open>settlement.py\<close>) turn them into credit, sealed
  reports and the allocation of a round. A
  stored tree is a value and is unpacked by structural recursion; no definition of the development needs fuel, each recursion is
  structural or ends by a measure.

  \<^bold>\<open>Work.\<close> \<open>Controls\<close> (\<open>controls.py\<close>, \<open>spending.py\<close>) and \<open>Pilot\<close> (\<open>pilot.py\<close>) restrict new work; \<open>Selection\<close> (\<open>selection.py\<close>) chooses it,
  \<open>References\<close> (\<open>references.py\<close>) keeps the network references it copies from, \<open>Work_Requests\<close> (\<open>work_requests.py\<close>)
  serves the queue, \<open>Benchmarks\<close> (\<open>benchmarks.py\<close>) holds the reservation, \<open>Outbox\<close> and \<open>Submissions\<close> (\<open>submissions.py\<close>) send each intent
  once and decide it by evidence, \<open>Member_Protocol\<close> (\<open>member_protocol.py\<close>) takes the uploads. \<open>Submission_Properties\<close> has
  the state machine of an intent (\<open>transition\<close>, \<open>intent_change\<close>) and its invariant over \<open>submission_step\<close>, whatever the
  rest of the pool does in between; \<open>Selection_Properties\<close> follows a selection through the reservation to the confirmed fee;
  \<open>Merkle\<close> gives the tree the proofs are about and shows that the verifier accepts its proofs.

  \<^bold>\<open>The whole.\<close> The locale \<open>component\<close> (\<open>Components\<close>) is the contract of a part: its invariant depends on its own rows,
  journals and accounts only, so it survives whatever another part does under the frame of \<open>Frames\<close>. All seven parts
  are interpretations. \<open>System\<close> has the lemmas of each operation, \<open>System_Steps\<close> the relation \<open>pool_step\<close> of all committed operations,
  and \<open>System_Properties\<close> the invariant of every reachable state and the refinement of the bank by the pool's books.

  \<^bold>\<open>Not modelled.\<close> HTTP, sessions, the dashboard and the process loops (\<open>api.py\<close>, \<open>auth.py\<close>, \<open>dashboard.py\<close>, \<open>coordinator.py\<close>,
  \<open>service.py\<close>, \<open>reconciliation.py\<close>, the observers of reports and rewards) only call the operations above. The reads of the
  TIG API (\<open>observation.py\<close>, \<open>tig_transport.py\<close>) and the RPC adapter are outside: their answers are arguments. The recording of a new
  block capture (\<open>BlockStore.record\<close>), expiry and compaction of evidence (\<open>retention.py\<close>, \<open>compaction.py\<close>) and the reviewed resolution of
  conflicts are not modelled; the state they leave is read. Sponsored withdrawals start from the verified fact, since its
  verification rests on key recovery and RLP of other packages. The tools under \<open>tools\<close> are backups and command lines.
\<close>

end
